(* ===== verification/Prelude.thy ===== *)
theory Prelude
  imports Complex_Main
begin

text \<open>
  Shared vocabulary of the development.

  \<^item> the result type of fallible operations (an exception of the NestJS family on the left, a
    value on the right), its sequencing \<open>rbind\<close>, the guard \<open>ensure\<close>, the lookup-or-throw
    \<open>required\<close> and the error-propagating loop \<open>foldM\<close>;
  \<^item> the table primitives that the services use through the ORM: \<open>findFirst\<close> and
    \<open>updateMany\<close> on a list of rows, with the lemmas on sums over a table after an update of
    one row;
  \<^item> decimal places: \<open>places n x\<close> says that \<open>x\<close> is a multiple of \<open>10\<^sup>-\<^sup>n\<close>.

  The collections \<open>res_simps\<close>, \<open>table_simps\<close> and \<open>money_intros\<close> carry the
  component proofs.
\<close>

named_theorems res_simps \<open>inversion of successful and failing results\<close>
named_theorems table_simps \<open>rewriting of table primitives\<close>
named_theorems money_intros \<open>closure of the money predicates under arithmetic\<close>

section \<open>Results\<close>

datatype exn =
    NotFoundException string
  | BadRequestException string
  | ConflictException string
  | ForbiddenException string
  | UnprocessableEntityException string
  | UnauthorizedException string
  | InternalError string
  | UniqueConstraintViolation string
  | NumericFieldOverflow

type_synonym ident = string
type_synonym 'a res = "exn + 'a"

fun rbind :: "'e + 'a \<Rightarrow> ('a \<Rightarrow> 'e + 'b) \<Rightarrow> 'e + 'b" where
  "rbind (Inl e) f = Inl e"
| "rbind (Inr x) f = f x"

text \<open>Kernel evaluation: the first computation is evaluated before its continuation is looked at.\<close>

lemma rbind_case [code_unfold]: "rbind m f = (case m of Inl e \<Rightarrow> Inl e | Inr x \<Rightarrow> f x)"
  by (cases m) auto

definition ensure :: "bool \<Rightarrow> 'e \<Rightarrow> 'e + unit" where
  "ensure b e = (if b then Inr () else Inl e)"

definition required :: "'e \<Rightarrow> 'a option \<Rightarrow> 'e + 'a" where
  "required e x = (case x of None \<Rightarrow> Inl e | Some y \<Rightarrow> Inr y)"

text \<open>A loop over a list that stops at the first exception.\<close>

fun foldM :: "('s \<Rightarrow> 'a \<Rightarrow> 'e + 's) \<Rightarrow> 's \<Rightarrow> 'a list \<Rightarrow> 'e + 's" where
  "foldM f s [] = Inr s"
| "foldM f s (x # xs) = rbind (f s x) (\<lambda>s'. foldM f s' xs)"

lemma rbind_eq_Inr [res_simps]: "rbind m f = Inr y \<longleftrightarrow> (\<exists>x. m = Inr x \<and> f x = Inr y)"
  by (cases m) auto

lemma rbind_InrE:
  assumes "rbind m f = Inr y"
  obtains x where "m = Inr x" "f x = Inr y"
  using assms by (cases m) auto

lemma rbind_Inr_pairE:
  assumes "rbind m f = Inr y"
  obtains a b where "m = Inr (a, b)" "f (a, b) = Inr y"
  using assms by (cases m) auto

lemma rbind_eq_Inl [res_simps]:
  "rbind m f = Inl e \<longleftrightarrow> m = Inl e \<or> (\<exists>x. m = Inr x \<and> f x = Inl e)"
  by (cases m) auto

lemma ensure_eq_Inr [res_simps]: "ensure b e = Inr u \<longleftrightarrow> b"
  by (cases u) (simp add: ensure_def)

lemma ensure_eq_Inl [res_simps]: "ensure b e = Inl e' \<longleftrightarrow> \<not> b \<and> e' = e"
  by (auto simp: ensure_def)

lemma required_eq_Inr [res_simps]: "required e x = Inr y \<longleftrightarrow> x = Some y"
  by (auto simp: required_def split: option.splits)

lemma required_eq_Inl [res_simps]: "required e x = Inl e' \<longleftrightarrow> x = None \<and> e' = e"
  by (auto simp: required_def split: option.splits)

lemma ensure_True [simp]: "ensure True e = Inr ()"
  by (simp add: ensure_def)

lemma ensure_False [simp]: "ensure False e = Inl e"
  by (simp add: ensure_def)

lemma required_Some [simp]: "required e (Some x) = Inr x"
  by (simp add: required_def)

lemma required_None [simp]: "required e None = Inl e"
  by (simp add: required_def)

lemma foldM_inv:
  assumes "foldM f s xs = Inr s'" and "P s"
    and "\<And>s x s'. x \<in> set xs \<Longrightarrow> P s \<Longrightarrow> f s x = Inr s' \<Longrightarrow> P s'"
  shows "P s'"
  using assms
proof (induction xs arbitrary: s)
  case Nil
  then show ?case by simp
next
  case (Cons x xs)
  from Cons.prems(1) obtain t where "f s x = Inr t" and t: "foldM f t xs = Inr s'"
    by (auto simp: res_simps)
  with Cons.prems have "P t" by auto
  with t show ?case using Cons.IH Cons.prems(3) by (meson list.set_intros(2))
qed

text \<open>
  A step of an operation with several transactions: its exception leaves what has been committed
  before. \<open>committed s r\<close> is a transaction on \<open>s\<close>, rolled back when it throws; \<open>andThen\<close> goes on
  after a step that has not thrown.
\<close>

definition committed :: "'s \<Rightarrow> ('a \<times> 's) res \<Rightarrow> 'a res \<times> 's" where
  "committed s r = (case r of Inl e \<Rightarrow> (Inl e, s) | Inr (x, s') \<Rightarrow> (Inr x, s'))"

definition andThen :: "'a res \<times> 's \<Rightarrow> ('a \<Rightarrow> 's \<Rightarrow> 'b res \<times> 's) \<Rightarrow> 'b res \<times> 's" where
  "andThen r f = (case r of (Inl e, s) \<Rightarrow> (Inl e, s) | (Inr x, s) \<Rightarrow> f x s)"

lemma committed_simps [simp]:
  "committed s (Inl e) = (Inl e, s)" "committed s (Inr (x, s')) = (Inr x, s')"
  by (simp_all add: committed_def)

lemma andThen_simps [simp]:
  "andThen (Inl e, s) f = (Inl e, s)" "andThen (Inr x, s) f = f x s"
  by (simp_all add: andThen_def)

lemma andThen_inv:
  assumes "P (snd r)" and "\<And>x s. r = (Inr x, s) \<Longrightarrow> P s \<Longrightarrow> P (snd (f x s))"
  shows "P (snd (andThen r f))"
  using assms by (cases r; cases "fst r") auto

lemma committed_inv:
  assumes "P s" and "\<And>x s'. r = Inr (x, s') \<Longrightarrow> P s'"
  shows "P (snd (committed s r))"
  using assms by (cases r) auto

section \<open>Strings\<close>

text \<open>\<open>trim\<close> of JavaScript on characters below 256.\<close>

definition jsSpace :: "char \<Rightarrow> bool" where
  "jsSpace c \<longleftrightarrow> c \<in> set [CHR 0x09, CHR 0x0A, CHR 0x0B, CHR 0x0C, CHR 0x0D, CHR 0x20, CHR 0xA0]"

definition trim :: "string \<Rightarrow> string" where
  "trim x = rev (dropWhile jsSpace (rev (dropWhile jsSpace x)))"

section \<open>Tables\<close>

definition findFirst :: "('r \<Rightarrow> bool) \<Rightarrow> 'r list \<Rightarrow> 'r option" where
  "findFirst P rows = List.find P rows"

definition updateMany :: "('r \<Rightarrow> bool) \<Rightarrow> ('r \<Rightarrow> 'r) \<Rightarrow> 'r list \<Rightarrow> 'r list \<times> nat" where
  "updateMany P f rows = (map (\<lambda>r. if P r then f r else r) rows, length (filter P rows))"

lemma findFirst_Some: "findFirst P rows = Some r \<Longrightarrow> r \<in> set rows \<and> P r"
  by (auto simp: findFirst_def find_Some_iff)

lemma findFirst_None [table_simps]: "findFirst P rows = None \<longleftrightarrow> (\<forall>r \<in> set rows. \<not> P r)"
  by (auto simp: findFirst_def find_None_iff)

lemma findFirst_ex: "r \<in> set rows \<Longrightarrow> P r \<Longrightarrow> \<exists>x. findFirst P rows = Some x"
  by (cases "findFirst P rows") (auto simp: findFirst_None)

lemma findFirst_Nil [simp]: "findFirst P [] = None"
  by (simp add: findFirst_def)

lemma findFirst_Cons [simp]:
  "findFirst P (r # rows) = (if P r then Some r else findFirst P rows)"
  by (simp add: findFirst_def)

lemma findFirst_append:
  "findFirst P (xs @ ys) = (case findFirst P xs of None \<Rightarrow> findFirst P ys | Some r \<Rightarrow> Some r)"
  by (induction xs) auto

lemma findFirst_map:
  assumes "\<And>r. P (f r) = P r"
  shows "findFirst P (map f rows) = map_option f (findFirst P rows)"
  using assms by (induction rows) auto

lemma fst_updateMany [simp]: "fst (updateMany P f rows) = map (\<lambda>r. if P r then f r else r) rows"
  by (simp add: updateMany_def)

lemma snd_updateMany [simp]: "snd (updateMany P f rows) = length (filter P rows)"
  by (simp add: updateMany_def)

lemma updateMany_hit:
  "length (filter P rows) \<noteq> 0 \<longleftrightarrow> (\<exists>r \<in> set rows. P r)"
  by (auto simp: filter_empty_conv)

text \<open>An update of columns other than \<open>g\<close> leaves \<open>g\<close> of the whole table alone.\<close>

lemma map_update_frame:
  assumes "\<And>r. g (f r) = g r"
  shows "map g (map (\<lambda>r. if P r then f r else r) rows) = map g rows"
  using assms by (induction rows) auto

text \<open>
  A sum over a table after an update that hits exactly the row with key \<open>k\<close>: the sum moves by
  the change of that row.
\<close>

lemma sum_list_update_row:
  fixes val :: "'r \<Rightarrow> 'v::ab_group_add"
  assumes "distinct rows" and "r \<in> set rows"
  shows "sum_list (map val (map (\<lambda>x. if x = r then f x else x) rows)) =
         sum_list (map val rows) + (val (f r) - val r)"
  using assms
proof (induction rows)
  case Nil
  then show ?case by simp
next
  case (Cons x rows)
  show ?case
  proof (cases "x = r")
    case True
    with Cons.prems have "map (\<lambda>x. if x = r then f x else x) rows = rows"
      by (intro map_idI) auto
    with True show ?thesis by simp
  next
    case False
    with Cons show ?thesis by (simp add: add.assoc)
  qed
qed

lemma distinct_key_eq:
  "distinct (map key rows) \<Longrightarrow> x \<in> set rows \<Longrightarrow> y \<in> set rows \<Longrightarrow> key x = key y \<Longrightarrow> x = y"
  by (meson distinct_map inj_onD)

text \<open>The same for a table with a primary key, when the condition pins the key.\<close>

lemma sum_list_update_key:
  fixes val :: "'r \<Rightarrow> 'v::ab_group_add"
  assumes d: "distinct (map key rows)" and r: "r \<in> set rows" "P r"
    and k: "\<And>x. P x \<Longrightarrow> key x = k"
  shows "sum_list (map val (map (\<lambda>x. if P x then f x else x) rows)) =
         sum_list (map val rows) + (val (f r) - val r)"
proof -
  have "P x \<longleftrightarrow> x = r" if "x \<in> set rows" for x
    using distinct_key_eq [OF d that r(1)] k [of x] k [of r] r(2) by metis
  then have "map (\<lambda>x. if P x then f x else x) rows = map (\<lambda>x. if x = r then f x else x) rows"
    by (intro map_cong) auto
  moreover have "distinct rows" using d by (simp add: distinct_map)
  ultimately show ?thesis using sum_list_update_row [of rows r val f] r(1) by (simp only:)
qed

lemma sum_list_filter_split:
  fixes val :: "'r \<Rightarrow> 'v::comm_monoid_add"
  shows "sum_list (map val (filter P rows)) = sum_list (map (\<lambda>r. if P r then val r else 0) rows)"
  by (induction rows) auto

section \<open>Decimal places\<close>

definition places :: "nat \<Rightarrow> rat \<Rightarrow> bool" where
  "places n x \<longleftrightarrow> of_int \<lfloor>x * 10 ^ n\<rfloor> = x * 10 ^ n"

abbreviation m4 :: "rat \<Rightarrow> bool" where
  "m4 \<equiv> places 4"

text \<open>Floors of concrete fractions, for evaluation.\<close>

lemma floor_rat_numeral [simp]:
  "\<lfloor>numeral a / numeral b :: rat\<rfloor> = numeral a div numeral b"
  "\<lfloor>1 / numeral b :: rat\<rfloor> = 1 div numeral b"
  "\<lfloor>- (numeral a / numeral b) :: rat\<rfloor> = - numeral a div numeral b"
  "\<lfloor>- (1 / numeral b) :: rat\<rfloor> = - 1 div numeral b"
  using floor_divide_of_int_eq [where 'a = rat, of "numeral a" "numeral b"]
    floor_divide_of_int_eq [where 'a = rat, of 1 "numeral b"]
    floor_divide_of_int_eq [where 'a = rat, of "- numeral a" "numeral b"]
    floor_divide_of_int_eq [where 'a = rat, of "- 1" "numeral b"]
  by simp_all

lemma places_iff: "places n x \<longleftrightarrow> (\<exists>k :: int. x * 10 ^ n = of_int k)"
  by (auto simp: places_def intro: sym)

lemma placesI: "x * 10 ^ n = of_int k \<Longrightarrow> places n x"
  by (auto simp: places_iff)

lemma places_0 [simp, money_intros]: "places n 0"
  by (simp add: places_def)

lemma places_add [money_intros]: "places n x \<Longrightarrow> places n y \<Longrightarrow> places n (x + y)"
  by (auto simp: places_iff distrib_right simp flip: of_int_add)

lemma places_minus [money_intros]: "places n x \<Longrightarrow> places n (- x)"
  by (auto simp: places_iff simp flip: of_int_minus)

lemma places_diff [money_intros]: "places n x \<Longrightarrow> places n y \<Longrightarrow> places n (x - y)"
  using places_add [of n x "- y"] places_minus [of n y] by simp

lemma places_min [money_intros]: "places n x \<Longrightarrow> places n y \<Longrightarrow> places n (min x y)"
  by (simp add: min_def)

lemma places_max [money_intros]: "places n x \<Longrightarrow> places n y \<Longrightarrow> places n (max x y)"
  by (simp add: max_def)

lemma places_if [money_intros]:
  "places n x \<Longrightarrow> places n y \<Longrightarrow> places n (if b then x else y)"
  by simp

lemma places_sum_list [money_intros]:
  "(\<And>x. x \<in> set xs \<Longrightarrow> places n (f x)) \<Longrightarrow> places n (sum_list (map f xs))"
  by (induction xs) (auto intro: places_add)

lemma places_of_int [simp]: "places n (of_int k)"
  by (rule placesI [of _ _ "k * 10 ^ n"]) simp

lemma places_numeral [simp]: "places n (numeral k)"
  using places_of_int [of n "numeral k"] by simp

lemma places_1 [simp]: "places n 1"
  using places_of_int [of n 1] by simp

lemma places_mono: "places n x \<Longrightarrow> n \<le> m \<Longrightarrow> places m x"
proof -
  assume "places n x" and nm: "n \<le> m"
  then obtain k :: int where k: "x * 10 ^ n = of_int k" by (auto simp: places_iff)
  have "(10 :: rat) ^ m = 10 ^ n * 10 ^ (m - n)" using nm by (simp flip: power_add)
  then have "x * 10 ^ m = of_int (k * 10 ^ (m - n))"
    using k by (simp add: mult.assoc [symmetric])
  then show ?thesis by (rule placesI)
qed

end
