(* ===== verification/Decimals.thy ===== *)
theory Decimals
  imports Prelude "HOL-Library.Log_Nat"
begin

text \<open>
  Decimal arithmetic as the services see it.

  The code computes money with the package decimal.js, which is not part of the repository: a
  \<open>Decimal\<close> denotes an exact rational, comparisons, \<open>Decimal.min\<close>, \<open>Decimal.max\<close> and
  negation are exact, and \<open>plus\<close>, \<open>minus\<close>, \<open>times\<close> and \<open>div\<close> return the exact
  result rounded to the configured number of significant digits (20, the repository never
  changes the default). The rounding is therefore a parameter of the model: \<open>sig_round\<close> for
  the significant digits, \<open>dec_places n\<close> for \<open>toDecimalPlaces(n)\<close>, and \<open>to_number\<close> for
  \<open>toNumber()\<close>: the decimal that is read back from the double nearest to an amount. The fourth
  parameter, \<open>uuid\<close>, stands for the identifiers that the database and the uuid package generate.

  What the services rely on is the locale \<open>decimal_runtime\<close>: results with at most 20
  significant digits are exact, other results are off by at most one part in \<open>10\<^sup>1\<^sup>9\<close>, and
  \<open>toDecimalPlaces\<close> rounds half up. A double keeps 15 significant digits of a decimal, so
  \<open>toNumber\<close> gives back an amount with four decimals below \<open>10\<^sup>1\<^sup>1\<close>; of larger ones nothing is
  assumed. Inside the locale the arithmetic of money columns is
  shown to be exact. \<open>ref_env\<close> (rounding half up to 20 significant digits) and
  \<open>plain_env\<close> (no rounding of intermediate results) are two instances.

  \<open>money\<close> is the column type \<open>Decimal(18, 4)\<close> of the schema.
\<close>

section \<open>Rounding half up\<close>

definition half_up :: "nat \<Rightarrow> rat \<Rightarrow> rat" where
  "half_up n x = sgn x * (of_int \<lfloor>\<bar>x\<bar> * 10 ^ n + 1 / 2\<rfloor> / 10 ^ n)"

lemma half_up_0 [simp]: "half_up n 0 = 0"
  by (simp add: half_up_def)

lemma half_up_minus: "half_up n (- x) = - half_up n x"
  by (simp add: half_up_def)

lemma places_abs [money_intros]: "places n x \<Longrightarrow> places n \<bar>x\<bar>"
  by (simp add: abs_if places_minus)

lemma places_sgn_mult: "places n y \<Longrightarrow> places n (sgn x * y)" for x :: rat
  by (cases "x = 0") (auto simp: sgn_if places_minus)

lemma places_half_up [simp, money_intros]: "places n (half_up n x)"
  unfolding half_up_def
  by (rule places_sgn_mult, rule placesI [where k = "\<lfloor>\<bar>x\<bar> * 10 ^ n + 1 / 2\<rfloor>"]) simp

lemma half_up_exact [simp]: "places n x \<Longrightarrow> half_up n x = x"
proof -
  assume "places n x"
  then have "places n \<bar>x\<bar>" by (rule places_abs)
  then obtain k :: int where k: "\<bar>x\<bar> * 10 ^ n = of_int k" by (auto simp: places_iff)
  have "\<lfloor>\<bar>x\<bar> * 10 ^ n + 1 / 2\<rfloor> = k" unfolding k by linarith
  then have "half_up n x = sgn x * (\<bar>x\<bar> * 10 ^ n / 10 ^ n)" by (simp add: half_up_def k)
  then show ?thesis by (simp add: sgn_mult_abs)
qed

lemma half_up_pos_error: "0 \<le> x \<Longrightarrow> \<bar>half_up n x - x\<bar> \<le> 1 / (2 * 10 ^ n)"
proof -
  assume x: "0 \<le> x"
  define f where "f = \<lfloor>x * 10 ^ n + 1 / 2\<rfloor>"
  have h: "half_up n x = of_int f / 10 ^ n"
    using x by (cases "x = 0") (auto simp: half_up_def f_def sgn_if)
  have "of_int f \<le> x * 10 ^ n + 1 / 2" and "x * 10 ^ n + 1 / 2 < of_int f + 1"
    unfolding f_def by linarith+
  then have "\<bar>of_int f - x * 10 ^ n\<bar> \<le> 1 / 2" by linarith
  then have "\<bar>of_int f - x * 10 ^ n\<bar> / 10 ^ n \<le> (1 / 2) / 10 ^ n"
    by (rule divide_right_mono) simp
  moreover have "\<bar>of_int f - x * 10 ^ n\<bar> / 10 ^ n = \<bar>half_up n x - x\<bar>"
    unfolding h by (simp add: abs_div_pos diff_divide_distrib)
  ultimately show ?thesis by simp
qed

lemma half_up_error: "\<bar>half_up n x - x\<bar> \<le> 1 / (2 * 10 ^ n)"
proof (cases "0 \<le> x")
  case True
  then show ?thesis by (rule half_up_pos_error)
next
  case False
  then have "\<bar>half_up n (- x) - (- x)\<bar> \<le> 1 / (2 * 10 ^ n)" by (intro half_up_pos_error) simp
  then show ?thesis by (simp add: half_up_minus)
qed

lemma half_up_nonneg: "0 \<le> x \<Longrightarrow> 0 \<le> half_up n x"
  by (cases "x = 0") (auto simp: half_up_def sgn_if)

lemma half_up_mono: "x \<le> y \<Longrightarrow> half_up n x \<le> half_up n y"
proof -
  have pos: "half_up n x \<le> half_up n y" if "0 \<le> x" "x \<le> y" for x y :: rat
  proof (cases "x = 0")
    case False
    with that have "\<lfloor>x * 10 ^ n + 1 / 2\<rfloor> \<le> \<lfloor>y * 10 ^ n + 1 / 2\<rfloor>"
      by (intro floor_mono add_mono mult_right_mono) auto
    with that False show ?thesis
      by (auto simp: half_up_def sgn_if intro!: divide_right_mono)
  qed (use that half_up_nonneg in auto)
  assume "x \<le> y"
  consider "0 \<le> x" | "x < 0" "0 \<le> y" | "y < 0" by linarith
  then show ?thesis
  proof cases
    case 1
    with \<open>x \<le> y\<close> show ?thesis by (intro pos) auto
  next
    case 2
    then show ?thesis
      using half_up_nonneg [of y n] half_up_nonneg [of "- x" n] by (simp add: half_up_minus)
  next
    case 3
    with \<open>x \<le> y\<close> pos [of "- y" "- x"] show ?thesis by (simp add: half_up_minus)
  qed
qed

section \<open>The runtime parameter\<close>

record env =
  sig_round :: "rat \<Rightarrow> rat"
  dec_places :: "nat \<Rightarrow> rat \<Rightarrow> rat"
  to_number :: "rat \<Rightarrow> rat"
  uuid :: "nat \<Rightarrow> ident"

definition dplus :: "env \<Rightarrow> rat \<Rightarrow> rat \<Rightarrow> rat" where
  "dplus E x y = sig_round E (x + y)"

definition dminus :: "env \<Rightarrow> rat \<Rightarrow> rat \<Rightarrow> rat" where
  "dminus E x y = sig_round E (x - y)"

definition dtimes :: "env \<Rightarrow> rat \<Rightarrow> rat \<Rightarrow> rat" where
  "dtimes E x y = sig_round E (x * y)"

definition ddiv :: "env \<Rightarrow> rat \<Rightarrow> rat \<Rightarrow> rat" where
  "ddiv E x y = sig_round E (x / y)"

abbreviation dp4 :: "env \<Rightarrow> rat \<Rightarrow> rat" where
  "dp4 E \<equiv> dec_places E 4"

text \<open>A fold of \<open>plus\<close> from zero, as \<open>reduce((sum, r) => sum.plus(f r), new Decimal(0))\<close>.\<close>

definition dsum :: "env \<Rightarrow> ('r \<Rightarrow> rat) \<Rightarrow> 'r list \<Rightarrow> rat" where
  "dsum E f rows = foldl (\<lambda>acc r. dplus E acc (f r)) 0 rows"

text \<open>The column type \<open>Decimal(18, 4)\<close>, and the range in which sums of such columns are exact.\<close>

definition money :: "rat \<Rightarrow> bool" where
  "money x \<longleftrightarrow> m4 x \<and> \<bar>x\<bar> < 10 ^ 14"

definition wide :: "rat \<Rightarrow> bool" where
  "wide x \<longleftrightarrow> m4 x \<and> \<bar>x\<bar> < 10 ^ 16"

lemma money_m4: "money x \<Longrightarrow> m4 x"
  by (simp add: money_def)

lemma money_bound: "money x \<Longrightarrow> \<bar>x\<bar> < 10 ^ 14"
  by (simp add: money_def)

lemma money_0 [simp]: "money 0"
  by (simp add: money_def)

lemma wideI: "m4 x \<Longrightarrow> \<bar>x\<bar> < 10 ^ 16 \<Longrightarrow> wide x"
  by (simp add: wide_def)

lemma money_wide: "money x \<Longrightarrow> wide x"
  by (auto simp: money_def wide_def)

lemma money_diff: "money x \<Longrightarrow> money y \<Longrightarrow> 0 \<le> y \<Longrightarrow> y \<le> x \<Longrightarrow> money (x - y)"
  by (auto simp: money_def intro: places_diff)

lemma money_min: "money x \<Longrightarrow> money y \<Longrightarrow> money (min x y)"
  by (simp add: min_def)

lemma money_max: "money x \<Longrightarrow> money y \<Longrightarrow> money (max x y)"
  by (simp add: max_def)

lemma money_shrink: "money x \<Longrightarrow> m4 y \<Longrightarrow> \<bar>y\<bar> \<le> \<bar>x\<bar> \<Longrightarrow> money y"
  by (auto simp: money_def)

section \<open>The contract\<close>

locale decimal_runtime =
  fixes E :: env
  assumes sig_exact: "places k x \<Longrightarrow> \<bar>x\<bar> * 10 ^ k < 10 ^ 20 \<Longrightarrow> sig_round E x = x"
    and sig_error: "\<bar>sig_round E x - x\<bar> \<le> \<bar>x\<bar> / 10 ^ 19"
    and dec_places_half_up: "dec_places E n x = half_up n x"
    and number_exact: "m4 x \<Longrightarrow> \<bar>x\<bar> < 10 ^ 11 \<Longrightarrow> to_number E x = x"
begin

lemma dp4_exact [simp]: "m4 x \<Longrightarrow> dp4 E x = x"
  by (simp add: dec_places_half_up)

lemma m4_dp4 [simp]: "m4 (dp4 E x)"
  by (simp add: dec_places_half_up)

lemma dp4_nonneg: "0 \<le> x \<Longrightarrow> 0 \<le> dp4 E x"
  by (simp add: dec_places_half_up half_up_nonneg)

lemma dp4_mono: "x \<le> y \<Longrightarrow> dp4 E x \<le> dp4 E y"
  by (simp add: dec_places_half_up half_up_mono)

lemma dp4_le: "x \<le> y \<Longrightarrow> m4 y \<Longrightarrow> dp4 E x \<le> y"
  using dp4_mono [of x y] by simp

lemma dp4_0 [simp]: "dp4 E 0 = 0"
  by simp

lemma sig_wide: "wide x \<Longrightarrow> sig_round E x = x"
  by (rule sig_exact [of 4]) (auto simp: wide_def)

lemma sig_0 [simp]: "sig_round E 0 = 0"
  by (rule sig_wide) (simp add: wide_def)

lemma sig_nonneg: "0 \<le> x \<Longrightarrow> 0 \<le> sig_round E x"
proof -
  assume x: "0 \<le> x"
  have "\<bar>x\<bar> / 10 ^ 19 \<le> \<bar>x\<bar>" by simp
  then have "\<bar>sig_round E x - x\<bar> \<le> x" using sig_error [of x] x by linarith
  then show ?thesis by linarith
qed

lemma dplus_exact: "wide (x + y) \<Longrightarrow> dplus E x y = x + y"
  by (simp add: dplus_def sig_wide)

lemma dminus_exact: "wide (x - y) \<Longrightarrow> dminus E x y = x - y"
  by (simp add: dminus_def sig_wide)

lemma dplus_money: "money x \<Longrightarrow> money y \<Longrightarrow> dplus E x y = x + y"
  by (rule dplus_exact) (auto simp: wide_def money_def intro: places_add)

lemma dminus_money: "money x \<Longrightarrow> money y \<Longrightarrow> dminus E x y = x - y"
  by (rule dminus_exact) (auto simp: wide_def money_def intro: places_diff)

lemma dtimes_nonneg: "0 \<le> x \<Longrightarrow> 0 \<le> y \<Longrightarrow> 0 \<le> dtimes E x y"
  by (simp add: dtimes_def sig_nonneg)

lemma ddiv_nonneg: "0 \<le> x \<Longrightarrow> 0 \<le> y \<Longrightarrow> 0 \<le> ddiv E x y"
  by (simp add: ddiv_def sig_nonneg)

text \<open>A fold of \<open>plus\<close> over non-negative amounts is the exact sum while the total fits.\<close>

lemma foldl_dplus_exact:
  assumes "\<And>r. r \<in> set rows \<Longrightarrow> m4 (f r) \<and> 0 \<le> f r" and "m4 acc" and "0 \<le> acc"
    and "acc + sum_list (map f rows) < 10 ^ 16"
  shows "foldl (\<lambda>acc r. dplus E acc (f r)) acc rows = acc + sum_list (map f rows)"
  using assms
proof (induction rows arbitrary: acc)
  case Nil
  then show ?case by simp
next
  case (Cons r rows)
  have r: "m4 (f r)" "0 \<le> f r" using Cons.prems(1) by auto
  have nn: "0 \<le> sum_list (map f rows)"
    by (rule sum_list_nonneg) (use Cons.prems(1) in auto)
  have "wide (acc + f r)"
    by (rule wideI) (use r nn Cons.prems in \<open>auto intro: places_add\<close>)
  then have step: "dplus E acc (f r) = acc + f r" by (rule dplus_exact)
  have "foldl (\<lambda>acc r. dplus E acc (f r)) (acc + f r) rows = acc + f r + sum_list (map f rows)"
    by (rule Cons.IH) (use r Cons.prems in \<open>auto intro: places_add\<close>)
  then show ?case by (simp add: step add.assoc)
qed

lemma dsum_exact:
  assumes "\<And>r. r \<in> set rows \<Longrightarrow> m4 (f r) \<and> 0 \<le> f r" and "sum_list (map f rows) < 10 ^ 16"
  shows "dsum E f rows = sum_list (map f rows)"
  using foldl_dplus_exact [of rows f 0] assms by (simp add: dsum_def)

end

section \<open>Instances\<close>

text \<open>Rounding half up to 20 significant digits.\<close>

definition ref_sig :: "rat \<Rightarrow> rat" where
  "ref_sig x =
     (let a = \<bar>x\<bar> in
      if a = 0 then 0
      else if a < 1 then half_up (19 + floorlog 10 (nat \<lfloor>1 / a\<rfloor>)) x
      else (let d = floorlog 10 (nat \<lfloor>a\<rfloor>) in
        if d \<le> 20 then half_up (20 - d) x
        else half_up 0 (x / 10 ^ (d - 20)) * 10 ^ (d - 20)))"

definition ref_env :: env where
  "ref_env = \<lparr>sig_round = ref_sig, dec_places = half_up, to_number = (\<lambda>x. x), uuid = (\<lambda>n. replicate n CHR ''i'')\<rparr>"

definition plain_env :: env where
  "plain_env = \<lparr>sig_round = (\<lambda>x. x), dec_places = half_up, to_number = (\<lambda>x. x), uuid = (\<lambda>n. replicate n CHR ''i'')\<rparr>"

lemma half_up_relative:
  assumes "c \<le> \<bar>x\<bar>" and "1 / (2 * 10 ^ n) \<le> c / 10 ^ 19"
  shows "\<bar>half_up n x - x\<bar> \<le> \<bar>x\<bar> / 10 ^ 19"
proof -
  have "c / 10 ^ 19 \<le> \<bar>x\<bar> / 10 ^ 19" using assms(1) by (intro divide_right_mono) auto
  with assms(2) half_up_error [of n x] show ?thesis by linarith
qed

text \<open>Where the leading digit of a non-zero value stands.\<close>

lemma digits_small:
  assumes "0 < a" and "a < (1 :: rat)"
  defines "z \<equiv> floorlog 10 (nat \<lfloor>1 / a\<rfloor>)"
  shows "1 / 10 ^ z \<le> a"
proof -
  have "1 \<le> \<lfloor>1 / a\<rfloor>" using assms by (simp add: le_floor_iff)
  then have "nat \<lfloor>1 / a\<rfloor> < 10 ^ z" unfolding z_def using floorlog_bounds [of "nat \<lfloor>1 / a\<rfloor>" 10] by auto
  then have "\<lfloor>1 / a\<rfloor> < 10 ^ z" using \<open>1 \<le> \<lfloor>1 / a\<rfloor>\<close>
    by (metis nat_less_iff of_nat_numeral of_nat_power order_trans zero_le_one)
  then have "1 / a < of_int (10 ^ z)" by (simp only: floor_less_iff)
  then have "1 / a < 10 ^ z" by simp
  with assms(1) show ?thesis by (simp add: field_simps)
qed

lemma digits_large:
  assumes "1 \<le> (a :: rat)"
  defines "d \<equiv> floorlog 10 (nat \<lfloor>a\<rfloor>)"
  shows "10 ^ (d - 1) \<le> a" and "a < 10 ^ d" and "0 < d"
proof -
  have fl: "1 \<le> \<lfloor>a\<rfloor>" using assms by (simp add: le_floor_iff)
  then have b: "10 ^ (d - 1) \<le> nat \<lfloor>a\<rfloor>" "nat \<lfloor>a\<rfloor> < 10 ^ d"
    unfolding d_def using floorlog_bounds [of "nat \<lfloor>a\<rfloor>" 10] by auto
  from b(2) fl show "0 < d" by (cases d) auto
  from b(1) fl have "(10 :: int) ^ (d - 1) \<le> \<lfloor>a\<rfloor>"
    by (metis nat_le_iff nat_numeral of_nat_numeral of_nat_power le_nat_iff order_trans zero_le_one)
  then have "of_int (10 ^ (d - 1)) \<le> a" by (simp only: le_floor_iff)
  then show "10 ^ (d - 1) \<le> a" by simp
  from b(2) fl have "\<lfloor>a\<rfloor> < 10 ^ d"
    by (metis nat_less_iff of_nat_numeral of_nat_power order_trans zero_le_one)
  then have "a < of_int (10 ^ d)" by (simp only: floor_less_iff)
  then show "a < 10 ^ d" by simp
qed

lemma ref_sig_error: "\<bar>ref_sig x - x\<bar> \<le> \<bar>x\<bar> / 10 ^ 19"
proof -
  consider (zero) "x = 0" | (small) "0 < \<bar>x\<bar>" "\<bar>x\<bar> < 1" | (large) "1 \<le> \<bar>x\<bar>" by linarith
  then show ?thesis
  proof cases
    case zero
    then show ?thesis by (simp add: ref_sig_def)
  next
    case small
    define z where "z = floorlog 10 (nat \<lfloor>1 / \<bar>x\<bar>\<rfloor>)"
    have "ref_sig x = half_up (19 + z) x"
      using small by (simp add: ref_sig_def z_def Let_def)
    moreover have "1 / 10 ^ z \<le> \<bar>x\<bar>" unfolding z_def by (rule digits_small [OF small])
    ultimately show ?thesis
      using half_up_relative [of "1 / 10 ^ z" x "19 + z"] by (simp add: power_add field_simps)
  next
    case large
    define d where "d = floorlog 10 (nat \<lfloor>\<bar>x\<bar>\<rfloor>)"
    note dl = digits_large [OF large, folded d_def]
    have ten: "(10 :: rat) ^ d = 10 * 10 ^ (d - 1)" using dl(3) by (cases d) auto
    show ?thesis
    proof (cases "d \<le> 20")
      case True
      then have "ref_sig x = half_up (20 - d) x"
        using large by (simp add: ref_sig_def d_def Let_def)
      moreover have "(10 :: rat) ^ 20 = 10 ^ (20 - d) * 10 ^ d" using True by (simp flip: power_add)
      then have "(1 :: rat) / (2 * 10 ^ (20 - d)) \<le> 10 ^ (d - 1) / 10 ^ 19"
        unfolding ten by (simp add: field_simps)
      ultimately show ?thesis using half_up_relative [OF dl(1), of "20 - d"] by simp
    next
      case False
      define p :: rat where "p = 10 ^ (d - 20)"
      have p: "0 < p" "10 ^ d = p * 10 ^ 20" using False by (simp_all only: p_def flip: power_add) simp_all
      have "ref_sig x = half_up 0 (x / p) * p"
        using large False by (simp add: ref_sig_def d_def p_def Let_def)
      then have "ref_sig x - x = (half_up 0 (x / p) - x / p) * p"
        using p(1) by (simp add: left_diff_distrib)
      then have "\<bar>ref_sig x - x\<bar> = \<bar>half_up 0 (x / p) - x / p\<bar> * p"
        using p(1) by (simp add: abs_mult)
      also have "\<dots> \<le> 1 / 2 * p"
        using half_up_error [of 0 "x / p"] p(1) by (intro mult_right_mono) auto
      also have "\<dots> \<le> 10 ^ (d - 1) / 10 ^ 19" using p ten by simp
      also have "\<dots> \<le> \<bar>x\<bar> / 10 ^ 19" using dl(1) by (rule divide_right_mono) simp
      finally show ?thesis .
    qed
  qed
qed

lemma ref_sig_exact:
  assumes "places k x" and lt: "\<bar>x\<bar> * 10 ^ k < 10 ^ 20"
  shows "ref_sig x = x"
proof -
  have ex: "half_up n x = x" if "k \<le> n" for n
    using places_mono [OF assms(1) that] by (rule half_up_exact)
  consider (zero) "x = 0" | (small) "0 < \<bar>x\<bar>" "\<bar>x\<bar> < 1" | (large) "1 \<le> \<bar>x\<bar>" by linarith
  then show ?thesis
  proof cases
    case zero
    then show ?thesis by (simp add: ref_sig_def)
  next
    case small
    define z where "z = floorlog 10 (nat \<lfloor>1 / \<bar>x\<bar>\<rfloor>)"
    have "1 / 10 ^ z * 10 ^ k \<le> \<bar>x\<bar> * 10 ^ k"
      using digits_small [OF small, folded z_def] by (intro mult_right_mono) auto
    also note lt
    finally have "(10 :: rat) ^ k < 10 ^ (20 + z)" by (simp add: power_add field_simps)
    then have "k < 20 + z" by (rule power_less_imp_less_exp [rotated]) simp
    then have "k \<le> 19 + z" by simp
    with ex small show ?thesis by (simp add: ref_sig_def Let_def flip: z_def)
  next
    case large
    define d where "d = floorlog 10 (nat \<lfloor>\<bar>x\<bar>\<rfloor>)"
    note dl = digits_large [OF large, folded d_def]
    have "10 ^ (d - 1) * 10 ^ k \<le> \<bar>x\<bar> * 10 ^ k" using dl(1) by (intro mult_right_mono) auto
    also note lt
    finally have "(10 :: rat) ^ (d - 1 + k) < 10 ^ 20" by (simp add: power_add)
    then have "d - 1 + k < 20" by (rule power_less_imp_less_exp [rotated]) simp
    with dl(3) have "d \<le> 20" "k \<le> 20 - d" by simp_all
    with ex large show ?thesis by (simp add: ref_sig_def Let_def flip: d_def)
  qed
qed

interpretation ref: decimal_runtime ref_env
  by unfold_locales (simp_all only: ref_env_def env.simps ref_sig_exact ref_sig_error)

interpretation plain: decimal_runtime plain_env
  by unfold_locales (auto simp: plain_env_def)

end
