(* ===== verification/Schema.thy ===== *)
theory Schema
  imports Decimals
begin

text \<open>
  The data model, from \<open>src/src/prisma/schema.prisma\<close>.

  An enum of the schema is a datatype with the enum's name and constructors (so
  \<open>LoanStatus.ACTIVE\<close> reads as in the code), a model is a record whose fields are the columns
  that the modelled services read or write, and the database is a record of tables, each a list
  of rows in insertion order. Columns that no modelled decision depends on (free-text
  descriptions, approval notes, creation timestamps of ledger rows) are left out.

  The create functions below are the ORM's \<open>create\<close> calls with the constraints that the schema
  declares: primary keys, \<open>@@unique([tenantId, reference])\<close> of Transaction,
  \<open>@@unique([tenantId, entryNumber])\<close> of JournalEntry, and the range of the money columns
  \<open>Decimal(18, 4)\<close>. A violated constraint is an exception; since every service calls them
  inside a database transaction, an exception leaves the state as it was.

  The laws of one table are the locale \<open>keyed_table\<close>; the tables with services that update
  them are its interpretations.
\<close>

section \<open>Json columns\<close>

text \<open>
  A Json value, and the messages of the payment provider with the types that
  \<open>mpesa/dto/mpesa-callback.dto.ts\<close> declares: the value of a metadata item is the string that
  \<open>String\<close> makes of it.
\<close>

datatype json = JNull | JBool bool | JNumber rat | JString string | JArray "json list"
  | JObject "(string \<times> json) list"

record stk_callback =
  sc_checkoutRequestID :: string
  sc_resultCode :: int
  sc_items :: "(string \<times> string option) list option"

record c2b_callback =
  cb_transID :: string
  cb_transTime :: string
  cb_transAmount :: string
  cb_billRefNumber :: string
  cb_msisdn :: string

record b2c_result =
  br_resultCode :: int
  br_originatorConversationID :: string
  br_conversationID :: string
  br_transactionID :: string
  br_parameters :: "(string \<times> string) list option"

datatype callback_payload = StkPayload stk_callback | C2bPayload c2b_callback
  | B2cPayload b2c_result | OtherPayload

section \<open>Enums\<close>

datatype MpesaTxType = STK_PUSH | C2B | B2C

datatype OutboxStatus = PENDING | PROCESSING | DELIVERED | FAILED | DEAD_LETTER

datatype AccountType = BOSA | FOSA

datatype LoanStatus = DRAFT | PENDING_GUARANTORS | PENDING_REVIEW | PENDING_APPROVAL | APPROVED
  | REJECTED | REJECTED_GUARANTOR_DECLINE | DISBURSED | ACTIVE | FULLY_PAID | DEFAULTED
  | WRITTEN_OFF

datatype GuarantorStatus = PENDING | ACCEPTED | REJECTED | EXPIRED | RELEASED

datatype InstallmentStatus = PENDING | PARTIAL | PAID | OVERDUE | WAIVED

datatype LoanStaging = PERFORMING | WATCHLIST | NPL

datatype InterestType = FLAT | REDUCING_BALANCE

datatype TransactionType = DEPOSIT | WITHDRAWAL | LOAN_DISBURSEMENT | LOAN_REPAYMENT
  | INTEREST_EARNED | DIVIDEND_PAYOUT | FEE_CHARGE | TRANSFER | INTEREST_ACCRUAL | PENALTY
  | REVERSAL

datatype TransactionStatus = PENDING | COMPLETED | FAILED | REVERSED | RECON_PENDING

datatype JournalEntryType = MANUAL | LOAN_DISBURSEMENT | LOAN_REPAYMENT | FEE_CHARGE
  | FEE_REVERSAL | MPESA_DEPOSIT | INTEREST_ACCRUAL | DEPOSIT | WITHDRAWAL | TRANSFER
  | DIVIDEND_PAYOUT | REVERSAL

datatype JournalEntryStatus = DRAFT | PENDING_APPROVAL | APPROVED | REJECTED | POSTED

datatype UserRole = SUPER_ADMIN | TENANT_ADMIN | MANAGER | TELLER | MEMBER | AUDITOR
  | LOAN_OFFICER | CHAIRMAN | ACCOUNTANT | SYSTEM

datatype KycStatus = PENDING_REVIEW | APPROVED | REJECTED | PENDING_UPLOAD

datatype AccountStatus = PENDING | ACTIVE | REJECTED | SUSPENDED

datatype ApprovalStatus = PENDING | APPROVED | REJECTED

section \<open>Models\<close>

record account =
  acc_id :: ident
  acc_tenantId :: ident
  acc_memberId :: ident
  acc_accountType :: AccountType
  acc_balance :: rat
  acc_isActive :: bool
  acc_version :: nat
  acc_lockedBalance :: rat
  acc_frozenSavings :: rat
  acc_allowsNegative :: bool
  acc_minimumBalance :: rat
  acc_accountNumber :: string

record txn =
  tx_id :: ident
  tx_tenantId :: ident
  tx_accountId :: ident
  tx_loanId :: "ident option"
  tx_type :: TransactionType
  tx_status :: TransactionStatus
  tx_amount :: rat
  tx_balanceBefore :: rat
  tx_balanceAfter :: rat
  tx_reference :: string
  tx_processedBy :: ident
  tx_linkedTransactionId :: "ident option"

record posting =
  gp_debitAccountId :: "ident option"
  gp_creditAccountId :: "ident option"
  gp_amount :: rat

record journal_entry =
  je_id :: ident
  je_tenantId :: ident
  je_entryNumber :: string
  je_type :: JournalEntryType
  je_status :: JournalEntryStatus
  je_referenceType :: "string option"
  je_referenceId :: "ident option"
  je_totalAmount :: rat
  je_createdById :: ident
  je_approvedById :: "ident option"
  je_reversalOfJournalEntryId :: "ident option"
  je_postings :: "posting list"

record gl_account =
  gl_id :: ident
  gl_tenantId :: ident
  gl_code :: string
  gl_isActive :: bool

record user =
  us_id :: ident
  us_tenantId :: ident
  us_role :: UserRole
  us_phone :: "string option"
  us_phoneNumber :: "string option"

record member =
  mb_id :: ident
  mb_tenantId :: ident
  mb_userId :: ident
  mb_isActive :: bool
  mb_kycStatus :: KycStatus
  mb_accountStatus :: AccountStatus
  mb_isBlacklisted :: bool

record loan_product =
  lp_id :: ident
  lp_interestType :: InterestType
  lp_savingsMultiplier :: "rat option"
  lp_minGuarantors :: int
  lp_maxGuarantors :: int
  lp_requiredAccountType :: "AccountType option"
  lp_guarantorCoverageRatio :: "rat option"
  lp_gracePeriodDays :: int
  lp_tenantId :: ident
  lp_isActive :: bool
  lp_minAmount :: rat
  lp_maxAmount :: rat
  lp_interestRate :: rat
  lp_maxTenureMonths :: int
  lp_processingFeeRate :: rat
  lp_gracePeriodMonths :: nat

record loan =
  ln_id :: ident
  ln_tenantId :: ident
  ln_memberId :: ident
  ln_loanProductId :: ident
  ln_loanNumber :: string
  ln_status :: LoanStatus
  ln_principalAmount :: rat
  ln_interestRate :: rat
  ln_processingFee :: rat
  ln_tenureMonths :: nat
  ln_gracePeriodMonths :: nat
  ln_monthlyInstalment :: rat
  ln_disbursedAt :: "int option"
  ln_dueDate :: "int option"
  ln_totalRepaid :: rat
  ln_outstandingBalance :: rat
  ln_arrearsAmount :: rat
  ln_arrearsDays :: int
  ln_lastAccrualDate :: "int option"
  ln_staging :: LoanStaging
  ln_accruedInterest :: rat
  ln_repaymentScheduleGenerated :: bool
  ln_createdAt :: int

record guarantor =
  lg_id :: ident
  lg_tenantId :: ident
  lg_loanId :: ident
  lg_memberId :: ident
  lg_status :: GuarantorStatus
  lg_guaranteedAmount :: rat
  lg_recoveredAmount :: rat
  lg_invitedAt :: int
  lg_holdPlacedAt :: "int option"
  lg_holdReleasedAt :: "int option"
  lg_createdAt :: int

record repayment =
  lr_id :: ident
  lr_tenantId :: ident
  lr_loanId :: ident
  lr_dayNumber :: nat
  lr_amountPaid :: rat
  lr_dueDate :: int
  lr_status :: InstallmentStatus
  lr_principalDue :: rat
  lr_interestDue :: rat
  lr_penaltyDue :: rat
  lr_principalPaid :: rat
  lr_interestPaid :: rat
  lr_penaltyPaid :: rat
  lr_paidAt :: "int option"
  lr_lastPenaltyAccrualDate :: "int option"
  lr_method :: string

record approval_slot =
  ac_id :: ident
  ac_tenantId :: ident
  ac_loanId :: ident
  ac_approverId :: ident
  ac_role :: UserRole
  ac_status :: ApprovalStatus

record mpesa_transaction =
  mt_id :: ident
  mt_tenantId :: ident
  mt_transactionId :: "ident option"
  mt_checkoutRequestId :: "string option"
  mt_phoneNumber :: string
  mt_amount :: rat
  mt_status :: TransactionStatus
  mt_resultCode :: "int option"
  mt_receipt :: "string option"
  mt_callbackPayload :: "callback_payload option"
  mt_createdAt :: int
  mt_accountReference :: "string option"
  mt_conversationId :: "string option"
  mt_originatorConversationId :: "string option"
  mt_loanId :: "ident option"
  mt_memberId :: "ident option"
  mt_reference :: string
  mt_transactionDate :: "int option"
  mt_type :: MpesaTxType
  mt_failureReason :: "string option"
  mt_referenceId :: "ident option"
  mt_referenceType :: "string option"
  mt_providerSubmissionState :: "string option"
  mt_providerSendAttemptedAt :: "int option"
  mt_reconciliationDueAt :: "int option"
  mt_reconciliationAttemptCount :: nat
  mt_reconciliationNextRetryAt :: "int option"
  mt_reconciliationLockedAt :: "int option"
  mt_reconciliationLockedBy :: "string option"
  mt_manualReviewRequired :: bool
  mt_manualReviewReason :: "string option"
  mt_reconciliationLastReason :: "string option"

record payout_intent =
  pi_id :: ident
  pi_tenantId :: ident
  pi_dispatchKey :: string
  pi_jobId :: string
  pi_referenceType :: string
  pi_referenceId :: ident
  pi_sourceTransactionId :: ident
  pi_memberId :: "ident option"
  pi_accountId :: "ident option"
  pi_phoneNumber :: string
  pi_amount :: rat
  pi_triggeredBy :: ident
  pi_status :: OutboxStatus
  pi_attempts :: nat
  pi_nextRetryAt :: "int option"
  pi_mpesaTransactionId :: "ident option"
  pi_updatedAt :: int

record callback_inbox =
  ci_id :: ident
  ci_tenantId :: ident
  ci_callbackType :: string
  ci_providerUniqueId :: string
  ci_uniqueKey :: string
  ci_payload :: callback_payload
  ci_mpesaTransactionId :: "ident option"
  ci_status :: OutboxStatus
  ci_attempts :: nat
  ci_nextRetryAt :: "int option"
  ci_updatedAt :: int

record recon_attempt =
  wr_id :: ident
  wr_tenantId :: ident
  wr_mpesaTransactionId :: ident
  wr_attemptNumber :: nat
  wr_triggerType :: string
  wr_oldStatus :: TransactionStatus
  wr_newStatus :: "TransactionStatus option"
  wr_reasonCode :: "string option"
  wr_nextRetryAt :: "int option"

record audit_event =
  au_tenantId :: ident
  au_actorId :: ident
  au_action :: string
  au_entityId :: ident
  au_requestId :: "string option"

record delayed_job =
  dj_id :: ident
  dj_name :: string
  dj_tenantId :: ident
  dj_loanId :: ident

record payout_job =
  pj_jobId :: string
  pj_payoutIntentId :: "ident option"
  pj_referenceType :: string
  pj_referenceId :: ident
  pj_tenantId :: ident
  pj_phone :: string
  pj_amount :: rat
  pj_triggeredBy :: ident
  pj_sourceTransactionId :: "ident option"

record timeout_job =
  tj_jobId :: string
  tj_referenceId :: ident
  tj_referenceType :: string
  tj_tenantId :: ident
  tj_conversationId :: string

record callback_job =
  kj_jobId :: string
  kj_tenantId :: ident
  kj_mpesaTransactionId :: "ident option"
  kj_callbackInboxId :: "ident option"
  kj_callbackPayload :: "callback_payload option"
  kj_callbackType :: string

record compliance_alert =
  ca_tenantId :: ident
  ca_action :: string
  ca_entityId :: ident

record tenant =
  tn_id :: ident
  tn_settings :: "json option"

record tenant_counter =
  tc_tenantId :: ident
  tc_accountSeq :: nat
  tc_loanSeq :: nat

record account_policy =
  ap_tenantId :: ident
  ap_accountType :: AccountType
  ap_minimumBalance :: rat
  ap_allowsNegative :: bool

text \<open>
  \<open>callbackQueue\<close>, \<open>payoutQueue\<close> and \<open>timeoutQueue\<close> are the jobs that wait in the queues of that name, and
  \<open>providerOrders\<close> is the log of the payment orders that have been sent to the provider: an
  effect outside the database that no rollback takes back.
\<close>

record db =
  accounts :: "account list"
  transactions :: "txn list"
  journalEntries :: "journal_entry list"
  glAccounts :: "gl_account list"
  users :: "user list"
  members :: "member list"
  loanProducts :: "loan_product list"
  loans :: "loan list"
  guarantors :: "guarantor list"
  repayments :: "repayment list"
  approvalChains :: "approval_slot list"
  mpesaTransactions :: "mpesa_transaction list"
  payoutIntents :: "payout_intent list"
  callbackInbox :: "callback_inbox list"
  reconAttempts :: "recon_attempt list"
  auditLog :: "audit_event list"
  delayedJobs :: "delayed_job list"
  payoutQueue :: "payout_job list"
  timeoutQueue :: "timeout_job list"
  callbackQueue :: "callback_job list"
  complianceAlerts :: "compliance_alert list"
  providerOrders :: "string list"
  tenants :: "tenant list"
  tenantCounters :: "tenant_counter list"
  accountTypePolicies :: "account_policy list"
  systemUserIdCache :: "ident \<rightharpoonup> ident"
  id_count :: nat

definition empty_db :: db where
  "empty_db = \<lparr>accounts = [], transactions = [], journalEntries = [], glAccounts = [],
     users = [], members = [], loanProducts = [], loans = [], guarantors = [], repayments = [],
     approvalChains = [], mpesaTransactions = [], payoutIntents = [], callbackInbox = [],
     reconAttempts = [], auditLog = [], delayedJobs = [], payoutQueue = [], timeoutQueue = [],
     callbackQueue = [], complianceAlerts = [], providerOrders = [],
     tenants = [], tenantCounters = [], accountTypePolicies = [],
     systemUserIdCache = Map.empty, id_count = 0\<rparr>"

end
