(* ===== verification/Database.thy ===== *)
theory Database
  imports Schema
begin

text \<open>
  The database operations of the ORM that every service shares, and what a well-formed
  database is.

  \<open>createTransaction\<close> and \<open>createJournalEntry\<close> insert a row under a generated identifier
  and raise on a violated constraint; \<open>putAccounts\<close> writes back the account table and raises
  when a balance leaves its column. \<open>wf_db\<close> collects what the constraints of the schema keep.
  The double-entry view of the database (\<open>gl_credit\<close>, the net credit of a general-ledger code,
  and \<open>deposits\<close>, the sum of the member balances of one account type) is the abstract state
  that the ledger theories reason about.
\<close>

section \<open>Tables with a primary key\<close>

locale keyed_table =
  fixes rows_of :: "db \<Rightarrow> 'r list"
    and put :: "'r list \<Rightarrow> db \<Rightarrow> db"
    and key :: "'r \<Rightarrow> ident"
  assumes rows_put: "rows_of (put rows s) = rows"
    and put_rows: "put (rows_of s) s = s"
    and put_put: "put rows (put rows' s) = put rows s"
begin

lemma keys_update:
  assumes "\<And>r. key (f r) = key r"
  shows "map key (rows_of (put (fst (updateMany P f (rows_of s))) s)) = map key (rows_of s)"
  using map_update_frame [where g = key and f = f] assms by (simp add: rows_put)

lemma lookup_update:
  assumes "\<And>r. key (f r) = key r"
  shows "findFirst (\<lambda>r. key r = k) (rows_of (put (fst (updateMany P f (rows_of s))) s)) =
         map_option (\<lambda>r. if P r then f r else r) (findFirst (\<lambda>r. key r = k) (rows_of s))"
proof -
  have "findFirst (\<lambda>r. key r = k) (map (\<lambda>r. if P r then f r else r) rows) =
      map_option (\<lambda>r. if P r then f r else r) (findFirst (\<lambda>r. key r = k) rows)" for rows
    using assms by (induction rows) auto
  then show ?thesis by (simp add: rows_put)
qed

lemma update_miss:
  assumes "\<forall>r \<in> set (rows_of s). \<not> P r"
  shows "put (fst (updateMany P f (rows_of s))) s = s"
proof -
  have "map (\<lambda>r. if P r then f r else r) (rows_of s) = rows_of s"
    using assms by (intro map_idI) auto
  then show ?thesis by (simp add: put_rows)
qed

lemma lookup_unique:
  assumes "distinct (map key (rows_of s))" and "r \<in> set (rows_of s)"
  shows "findFirst (\<lambda>x. key x = key r) (rows_of s) = Some r"
proof (cases "findFirst (\<lambda>x. key x = key r) (rows_of s)")
  case None
  with assms(2) show ?thesis by (auto simp: table_simps)
next
  case (Some x)
  then have "x \<in> set (rows_of s)" "key x = key r" by (auto dest: findFirst_Some)
  with assms have "x = r" by (auto intro: distinct_key_eq)
  with Some show ?thesis by simp
qed

lemma sum_update:
  fixes val :: "'r \<Rightarrow> rat"
  assumes "distinct (map key (rows_of s))" and "r \<in> set (rows_of s)" and "P r"
    and "\<And>x. P x \<Longrightarrow> key x = k"
  shows "sum_list (map val (rows_of (put (fst (updateMany P f (rows_of s))) s))) =
         sum_list (map val (rows_of s)) + (val (f r) - val r)"
  using sum_list_update_key [of key "rows_of s" r P k val f] assms by (simp add: rows_put)

end

interpretation account_table: keyed_table accounts "\<lambda>rows s. s\<lparr>accounts := rows\<rparr>" acc_id
  by unfold_locales auto

interpretation loan_table: keyed_table loans "\<lambda>rows s. s\<lparr>loans := rows\<rparr>" ln_id
  by unfold_locales auto

interpretation guarantor_table: keyed_table guarantors "\<lambda>rows s. s\<lparr>guarantors := rows\<rparr>" lg_id
  by unfold_locales auto

interpretation repayment_table: keyed_table repayments "\<lambda>rows s. s\<lparr>repayments := rows\<rparr>" lr_id
  by unfold_locales auto

interpretation mpesa_table:
  keyed_table mpesaTransactions "\<lambda>rows s. s\<lparr>mpesaTransactions := rows\<rparr>" mt_id
  by unfold_locales auto

interpretation transaction_table:
  keyed_table transactions "\<lambda>rows s. s\<lparr>transactions := rows\<rparr>" tx_id
  by unfold_locales auto

section \<open>Inserting and writing rows\<close>

definition in_column :: "rat \<Rightarrow> bool" where
  "in_column x \<longleftrightarrow> \<bar>x\<bar> < 10 ^ 14"

definition createTransaction :: "env \<Rightarrow> txn \<Rightarrow> db \<Rightarrow> (txn \<times> db) res" where
  "createTransaction E row s =
     (let r = row\<lparr>tx_id := uuid E (id_count s)\<rparr> in
      rbind (ensure (\<forall>x \<in> set (transactions s). tx_id x \<noteq> tx_id r)
        (UniqueConstraintViolation ''Transaction.id'')) (\<lambda>_.
      rbind (ensure (\<forall>x \<in> set (transactions s).
          \<not> (tx_tenantId x = tx_tenantId r \<and> tx_reference x = tx_reference r))
        (UniqueConstraintViolation ''Transaction.tenantId_reference'')) (\<lambda>_.
      rbind (ensure (in_column (tx_amount r) \<and> in_column (tx_balanceBefore r) \<and>
          in_column (tx_balanceAfter r)) NumericFieldOverflow) (\<lambda>_.
      Inr (r, s\<lparr>transactions := transactions s @ [r], id_count := Suc (id_count s)\<rparr>)))))"

definition createJournalEntry :: "env \<Rightarrow> journal_entry \<Rightarrow> db \<Rightarrow> (journal_entry \<times> db) res" where
  "createJournalEntry E row s =
     (let r = row\<lparr>je_id := uuid E (id_count s)\<rparr> in
      rbind (ensure (\<forall>x \<in> set (journalEntries s). je_id x \<noteq> je_id r)
        (UniqueConstraintViolation ''JournalEntry.id'')) (\<lambda>_.
      rbind (ensure (\<forall>x \<in> set (journalEntries s).
          \<not> (je_tenantId x = je_tenantId r \<and> je_entryNumber x = je_entryNumber r))
        (UniqueConstraintViolation ''JournalEntry.tenantId_entryNumber'')) (\<lambda>_.
      rbind (ensure (in_column (je_totalAmount r) \<and>
          (\<forall>p \<in> set (je_postings r). in_column (gp_amount p))) NumericFieldOverflow) (\<lambda>_.
      Inr (r, s\<lparr>journalEntries := journalEntries s @ [r], id_count := Suc (id_count s)\<rparr>)))))"

definition account_in_columns :: "account \<Rightarrow> bool" where
  "account_in_columns a \<longleftrightarrow> in_column (acc_balance a) \<and> in_column (acc_lockedBalance a) \<and>
     in_column (acc_frozenSavings a) \<and> in_column (acc_minimumBalance a)"

definition putAccounts :: "account list \<Rightarrow> db \<Rightarrow> db res" where
  "putAccounts rows s =
     (if \<forall>a \<in> set rows. account_in_columns a then Inr (s\<lparr>accounts := rows\<rparr>)
      else Inl NumericFieldOverflow)"

definition writeAudit :: "ident \<Rightarrow> ident \<Rightarrow> string \<Rightarrow> ident \<Rightarrow> db \<Rightarrow> db" where
  "writeAudit tenantId actorId action entityId s =
     s\<lparr>auditLog := auditLog s @ [\<lparr>au_tenantId = tenantId, au_actorId = actorId,
        au_action = action, au_entityId = entityId, au_requestId = None\<rparr>]\<rparr>"

text \<open>
  The audit writer with a correlation id, whose column is unique, and the writer that ignores a
  repetition. The hash chain of the audit rows is not modelled.
\<close>

definition auditAtomic ::
  "ident \<Rightarrow> ident \<Rightarrow> string \<Rightarrow> ident \<Rightarrow> string \<Rightarrow> db \<Rightarrow> db res" where
  "auditAtomic tenantId actorId action entityId requestId s =
     rbind (ensure (\<forall>a \<in> set (auditLog s). au_requestId a \<noteq> Some requestId)
       (UniqueConstraintViolation ''AuditLog.requestId'')) (\<lambda>_.
     Inr (s\<lparr>auditLog := auditLog s @ [\<lparr>au_tenantId = tenantId, au_actorId = actorId,
        au_action = action, au_entityId = entityId, au_requestId = Some requestId\<rparr>]\<rparr>))"

definition createAuditOnce ::
  "ident \<Rightarrow> ident \<Rightarrow> string \<Rightarrow> ident \<Rightarrow> string \<Rightarrow> db \<Rightarrow> db" where
  "createAuditOnce tenantId actorId action entityId requestId s =
     (case auditAtomic tenantId actorId action entityId requestId s of Inl _ \<Rightarrow> s | Inr s' \<Rightarrow> s')"

text \<open>
  The rows of the mobile-money table, with its unique columns. An update that leaves the unique
  columns alone (\<open>touchMpesa\<close>, with the number of rows hit) cannot fail.
\<close>

definition unique_mpesa :: "mpesa_transaction list \<Rightarrow> bool" where
  "unique_mpesa rows \<longleftrightarrow> distinct (map mt_id rows) \<and>
     distinct (List.map_filter mt_transactionId rows) \<and>
     distinct (List.map_filter mt_checkoutRequestId rows) \<and>
     distinct (List.map_filter mt_receipt rows) \<and>
     distinct (List.map_filter mt_conversationId rows) \<and>
     distinct (List.map_filter mt_originatorConversationId rows) \<and> distinct (map mt_reference rows)"

definition putMpesa :: "mpesa_transaction list \<Rightarrow> db \<Rightarrow> db res" where
  "putMpesa rows s =
     rbind (ensure (\<forall>m \<in> set rows. in_column (mt_amount m)) NumericFieldOverflow) (\<lambda>_.
     rbind (ensure (unique_mpesa rows) (UniqueConstraintViolation ''MpesaTransaction'')) (\<lambda>_.
     Inr (s\<lparr>mpesaTransactions := rows\<rparr>)))"

definition updateMpesa :: "ident \<Rightarrow> (mpesa_transaction \<Rightarrow> mpesa_transaction) \<Rightarrow> db \<Rightarrow> db res" where
  "updateMpesa k f s =
     (let (rows, count) = updateMany (\<lambda>m. mt_id m = k) f (mpesaTransactions s) in
      rbind (ensure (0 < count) (InternalError ''Record to update not found'')) (\<lambda>_.
      putMpesa rows s))"

definition touchMpesa ::
  "(mpesa_transaction \<Rightarrow> bool) \<Rightarrow> (mpesa_transaction \<Rightarrow> mpesa_transaction) \<Rightarrow> db \<Rightarrow> nat \<times> db" where
  "touchMpesa P f s =
     (let (rows, count) = updateMany P f (mpesaTransactions s) in (count, s\<lparr>mpesaTransactions := rows\<rparr>))"

definition createMpesa :: "env \<Rightarrow> mpesa_transaction \<Rightarrow> db \<Rightarrow> (mpesa_transaction \<times> db) res" where
  "createMpesa E row s =
     (let r = row\<lparr>mt_id := uuid E (id_count s)\<rparr> in
      rbind (putMpesa (mpesaTransactions s @ [r]) s) (\<lambda>s'.
      Inr (r, s'\<lparr>id_count := Suc (id_count s)\<rparr>)))"

text \<open>An update of many rows that may touch the unique columns.\<close>

definition writeMpesa ::
  "(mpesa_transaction \<Rightarrow> bool) \<Rightarrow> (mpesa_transaction \<Rightarrow> mpesa_transaction) \<Rightarrow> db \<Rightarrow> (nat \<times> db) res" where
  "writeMpesa P f s =
     (let (rows, count) = updateMany P f (mpesaTransactions s) in rbind (putMpesa rows s) (\<lambda>s'. Inr (count, s')))"

lemma putMpesa_Inr [res_simps]:
  "putMpesa rows s = Inr s' \<longleftrightarrow> (\<forall>m \<in> set rows. in_column (mt_amount m)) \<and> unique_mpesa rows \<and>
     s' = s\<lparr>mpesaTransactions := rows\<rparr>"
  by (auto simp: putMpesa_def res_simps)

lemma createTransaction_Inr:
  "createTransaction E row s = Inr (r, s') \<longleftrightarrow>
     r = row\<lparr>tx_id := uuid E (id_count s)\<rparr> \<and>
     (\<forall>x \<in> set (transactions s). tx_id x \<noteq> tx_id r) \<and>
     (\<forall>x \<in> set (transactions s).
        \<not> (tx_tenantId x = tx_tenantId r \<and> tx_reference x = tx_reference r)) \<and>
     in_column (tx_amount r) \<and> in_column (tx_balanceBefore r) \<and> in_column (tx_balanceAfter r) \<and>
     s' = s\<lparr>transactions := transactions s @ [r], id_count := Suc (id_count s)\<rparr>"
  by (auto simp: createTransaction_def Let_def res_simps)

lemma createJournalEntry_Inr:
  "createJournalEntry E row s = Inr (r, s') \<longleftrightarrow>
     r = row\<lparr>je_id := uuid E (id_count s)\<rparr> \<and>
     (\<forall>x \<in> set (journalEntries s). je_id x \<noteq> je_id r) \<and>
     (\<forall>x \<in> set (journalEntries s).
        \<not> (je_tenantId x = je_tenantId r \<and> je_entryNumber x = je_entryNumber r)) \<and>
     in_column (je_totalAmount r) \<and> (\<forall>p \<in> set (je_postings r). in_column (gp_amount p)) \<and>
     s' = s\<lparr>journalEntries := journalEntries s @ [r], id_count := Suc (id_count s)\<rparr>"
  by (auto simp: createJournalEntry_def Let_def res_simps)

lemma putAccounts_Inr [res_simps]:
  "putAccounts rows s = Inr s' \<longleftrightarrow>
     (\<forall>a \<in> set rows. account_in_columns a) \<and> s' = s\<lparr>accounts := rows\<rparr>"
  by (auto simp: putAccounts_def)

lemma money_in_column: "m4 x \<Longrightarrow> in_column x \<Longrightarrow> money x"
  by (simp add: money_def in_column_def)

section \<open>Well-formed databases\<close>

definition wf_account :: "account \<Rightarrow> bool" where
  "wf_account a \<longleftrightarrow> money (acc_balance a) \<and> money (acc_lockedBalance a) \<and>
     money (acc_frozenSavings a) \<and> money (acc_minimumBalance a)"

definition wf_accounts :: "db \<Rightarrow> bool" where
  "wf_accounts s \<longleftrightarrow> distinct (map acc_id (accounts s)) \<and> (\<forall>a \<in> set (accounts s). wf_account a)"

definition wf_gl :: "db \<Rightarrow> bool" where
  "wf_gl s \<longleftrightarrow> distinct (map gl_id (glAccounts s))"

definition wf_transactions :: "db \<Rightarrow> bool" where
  "wf_transactions s \<longleftrightarrow> distinct (map tx_id (transactions s)) \<and>
     distinct (map (\<lambda>t. (tx_tenantId t, tx_reference t)) (transactions s)) \<and>
     (\<forall>t \<in> set (transactions s). money (tx_amount t) \<and> money (tx_balanceBefore t) \<and>
        money (tx_balanceAfter t))"

definition wf_journal :: "db \<Rightarrow> bool" where
  "wf_journal s \<longleftrightarrow> distinct (map je_id (journalEntries s)) \<and>
     distinct (map (\<lambda>j. (je_tenantId j, je_entryNumber j)) (journalEntries s)) \<and>
     (\<forall>j \<in> set (journalEntries s). \<forall>p \<in> set (je_postings j). money (gp_amount p))"

definition wf_db :: "db \<Rightarrow> bool" where
  "wf_db s \<longleftrightarrow> wf_accounts s \<and> wf_gl s \<and> wf_transactions s \<and> wf_journal s"

lemma wf_dbD:
  assumes "wf_db s"
  shows "wf_accounts s" "wf_gl s" "wf_transactions s" "wf_journal s"
  using assms by (simp_all add: wf_db_def)

lemma wf_accountsD:
  assumes "wf_accounts s"
  shows "distinct (map acc_id (accounts s))" "a \<in> set (accounts s) \<Longrightarrow> wf_account a"
  using assms by (simp_all add: wf_accounts_def)

lemma wf_accountD:
  assumes "wf_account a"
  shows "money (acc_balance a)" "money (acc_lockedBalance a)" "money (acc_frozenSavings a)"
    "money (acc_minimumBalance a)"
  using assms by (simp_all add: wf_account_def)

lemma createTransaction_wf:
  assumes "createTransaction E row s = Inr (r, s')" and "wf_db s"
    and "m4 (tx_amount row)" "m4 (tx_balanceBefore row)" "m4 (tx_balanceAfter row)"
  shows "wf_db s'"
  using assms
  by (fastforce simp: createTransaction_Inr wf_db_def wf_accounts_def wf_gl_def
      wf_transactions_def wf_journal_def money_in_column)

lemma createJournalEntry_wf:
  assumes "createJournalEntry E row s = Inr (r, s')" and "wf_db s"
    and "\<forall>p \<in> set (je_postings row). m4 (gp_amount p)"
  shows "wf_db s'"
  using assms
  by (fastforce simp: createJournalEntry_Inr wf_db_def wf_accounts_def wf_gl_def
      wf_transactions_def wf_journal_def money_in_column)

lemma wf_db_frame [simp]:
  "wf_db (s\<lparr>auditLog := x1\<rparr>) = wf_db s"
  "wf_db (s\<lparr>systemUserIdCache := x2\<rparr>) = wf_db s"
  "wf_db (s\<lparr>loans := x3\<rparr>) = wf_db s"
  "wf_db (s\<lparr>guarantors := x4\<rparr>) = wf_db s"
  "wf_db (s\<lparr>repayments := x5\<rparr>) = wf_db s"
  "wf_db (s\<lparr>approvalChains := x6\<rparr>) = wf_db s"
  "wf_db (s\<lparr>mpesaTransactions := x7\<rparr>) = wf_db s"
  "wf_db (s\<lparr>delayedJobs := x8\<rparr>) = wf_db s"
  "wf_db (s\<lparr>payoutIntents := x10\<rparr>) = wf_db s"
  "wf_db (s\<lparr>callbackInbox := x11\<rparr>) = wf_db s"
  "wf_db (s\<lparr>reconAttempts := x12\<rparr>) = wf_db s"
  "wf_db (s\<lparr>payoutQueue := x13\<rparr>) = wf_db s"
  "wf_db (s\<lparr>timeoutQueue := x14\<rparr>) = wf_db s"
  "wf_db (s\<lparr>providerOrders := x15\<rparr>) = wf_db s"
  "wf_db (s\<lparr>callbackQueue := x17\<rparr>) = wf_db s"
  "wf_db (s\<lparr>complianceAlerts := x18\<rparr>) = wf_db s"
  "wf_db (s\<lparr>id_count := x9\<rparr>) = wf_db s"
  by (simp_all add: wf_db_def wf_accounts_def wf_gl_def wf_transactions_def wf_journal_def)

lemma wf_db_writeAudit [simp]: "wf_db (writeAudit t a c e s) = wf_db s"
  by (simp add: writeAudit_def)

section \<open>The double-entry view\<close>

definition gl_code_of :: "db \<Rightarrow> ident option \<Rightarrow> string option" where
  "gl_code_of s i = (case i of None \<Rightarrow> None
     | Some k \<Rightarrow> map_option gl_code (findFirst (\<lambda>g. gl_id g = k) (glAccounts s)))"

definition posting_credit :: "db \<Rightarrow> string \<Rightarrow> posting \<Rightarrow> rat" where
  "posting_credit s code p =
     (if gl_code_of s (gp_creditAccountId p) = Some code then gp_amount p else 0) -
     (if gl_code_of s (gp_debitAccountId p) = Some code then gp_amount p else 0)"

definition entry_credit :: "db \<Rightarrow> string \<Rightarrow> journal_entry \<Rightarrow> rat" where
  "entry_credit s code j = sum_list (map (posting_credit s code) (je_postings j))"

definition gl_credit :: "db \<Rightarrow> ident \<Rightarrow> string \<Rightarrow> rat" where
  "gl_credit s tenantId code = sum_list (map (entry_credit s code)
     (filter (\<lambda>j. je_tenantId j = tenantId \<and> je_status j = JournalEntryStatus.POSTED)
        (journalEntries s)))"

definition deposits :: "db \<Rightarrow> ident \<Rightarrow> AccountType \<Rightarrow> rat" where
  "deposits s tenantId ty = sum_list (map acc_balance
     (filter (\<lambda>a. acc_tenantId a = tenantId \<and> acc_accountType a = ty) (accounts s)))"

lemma gl_code_of_cong: "glAccounts s = glAccounts s' \<Longrightarrow> gl_code_of s = gl_code_of s'"
  by (auto simp: gl_code_of_def fun_eq_iff split: option.splits)

lemma posting_credit_cong: "glAccounts s = glAccounts s' \<Longrightarrow> posting_credit s = posting_credit s'"
  using gl_code_of_cong [of s s'] by (simp add: posting_credit_def fun_eq_iff)

lemma entry_credit_cong: "glAccounts s = glAccounts s' \<Longrightarrow> entry_credit s = entry_credit s'"
  using posting_credit_cong [of s s'] by (intro ext) (simp add: entry_credit_def)

lemma gl_credit_cong:
  "glAccounts s = glAccounts s' \<Longrightarrow> journalEntries s = journalEntries s' \<Longrightarrow>
   gl_credit s t c = gl_credit s' t c"
  using entry_credit_cong [of s s'] by (simp add: gl_credit_def)

lemma deposits_cong: "accounts s = accounts s' \<Longrightarrow> deposits s t ty = deposits s' t ty"
  by (simp add: deposits_def)

text \<open>A new entry moves the net credit of a code by its own effect on that code.\<close>

lemma gl_credit_append:
  assumes "glAccounts s' = glAccounts s" and "journalEntries s' = journalEntries s @ [j]"
  shows "gl_credit s' t c = gl_credit s t c +
    (if je_tenantId j = t \<and> je_status j = JournalEntryStatus.POSTED then entry_credit s c j else 0)"
  using assms entry_credit_cong [OF assms(1)] by (simp add: gl_credit_def)

text \<open>A change of one balance moves the deposits of that account's type and tenant.\<close>

lemma deposits_update:
  assumes "distinct (map acc_id (accounts s))" and "a \<in> set (accounts s)" and "P a"
    and "\<And>x. P x \<Longrightarrow> acc_id x = k"
    and "\<And>x. acc_tenantId (f x) = acc_tenantId x" "\<And>x. acc_accountType (f x) = acc_accountType x"
  shows "deposits (s\<lparr>accounts := map (\<lambda>x. if P x then f x else x) (accounts s)\<rparr>) t ty =
    deposits s t ty + (if acc_tenantId a = t \<and> acc_accountType a = ty
      then acc_balance (f a) - acc_balance a else 0)"
proof -
  define v :: "account \<Rightarrow> rat" where
    "v = (\<lambda>x. if acc_tenantId x = t \<and> acc_accountType x = ty then acc_balance x else 0)"
  have "deposits s' t ty = sum_list (map v (accounts s'))" for s' :: db
    by (simp add: deposits_def sum_list_filter_split v_def)
  moreover have "sum_list (map v (map (\<lambda>x. if P x then f x else x) (accounts s))) =
      sum_list (map v (accounts s)) + (v (f a) - v a)"
    using sum_list_update_key [of acc_id "accounts s" a P k v f] assms(1-4) by blast
  ultimately show ?thesis using assms(5,6) by (simp add: v_def)
qed

end
