(* ===== verification/Ledger.thy ===== *)
theory Ledger
  imports Database
begin

text \<open>
  The ledger service, \<open>src/src/modules/accounting/ledger.service.ts\<close>: the single place where
  member balances and the general ledger move together.

  Every operation takes the runtime parameter, the database and its arguments and returns the
  exception it throws or the rows it returns with the new database. Database transactions are
  all-or-nothing, so an exception carries no state. The audit record that is written after the
  commit is appended here in the same step; the memo of SYSTEM users is part of the state.

  Theorems: an operation keeps a well-formed database well formed and never lets a debit touch
  committed funds; the operational row and the stored balance agree; replaying a reference
  changes nothing; and, the purpose of the service, the net credit of the deposit-liability
  codes and the sum of the member balances move by the same amount (\<open>gl_agrees\<close>).
\<close>

section \<open>Codes and types\<close>

datatype direction = DEBIT | CREDIT

definition GL_CASH :: string where "GL_CASH = ''1000''"
definition GL_LOAN_RECEIVABLE :: string where "GL_LOAN_RECEIVABLE = ''1300''"
definition GL_FOSA_DEPOSITS :: string where "GL_FOSA_DEPOSITS = ''2300''"
definition GL_BOSA_DEPOSITS :: string where "GL_BOSA_DEPOSITS = ''2400''"
definition GL_INTEREST_INCOME :: string where "GL_INTEREST_INCOME = ''4000''"
definition GL_FEE_INCOME :: string where "GL_FEE_INCOME = ''4300''"
definition GL_PENALTY_INCOME :: string where "GL_PENALTY_INCOME = ''4200''"

lemmas gl_codes = GL_CASH_def GL_LOAN_RECEIVABLE_def GL_FOSA_DEPOSITS_def GL_BOSA_DEPOSITS_def
  GL_INTEREST_INCOME_def GL_FEE_INCOME_def GL_PENALTY_INCOME_def

fun JOURNAL_TO_TRANSACTION_TYPE :: "JournalEntryType \<Rightarrow> TransactionType option" where
  "JOURNAL_TO_TRANSACTION_TYPE JournalEntryType.DEPOSIT = Some TransactionType.DEPOSIT"
| "JOURNAL_TO_TRANSACTION_TYPE JournalEntryType.MPESA_DEPOSIT = Some TransactionType.DEPOSIT"
| "JOURNAL_TO_TRANSACTION_TYPE JournalEntryType.WITHDRAWAL = Some TransactionType.WITHDRAWAL"
| "JOURNAL_TO_TRANSACTION_TYPE JournalEntryType.TRANSFER = Some TransactionType.TRANSFER"
| "JOURNAL_TO_TRANSACTION_TYPE JournalEntryType.DIVIDEND_PAYOUT =
     Some TransactionType.DIVIDEND_PAYOUT"
| "JOURNAL_TO_TRANSACTION_TYPE JournalEntryType.FEE_CHARGE = Some TransactionType.FEE_CHARGE"
| "JOURNAL_TO_TRANSACTION_TYPE JournalEntryType.LOAN_DISBURSEMENT =
     Some TransactionType.LOAN_DISBURSEMENT"
| "JOURNAL_TO_TRANSACTION_TYPE _ = None"

definition memberDepositsCode :: "AccountType \<Rightarrow> string" where
  "memberDepositsCode ty = (if ty = FOSA then GL_FOSA_DEPOSITS else GL_BOSA_DEPOSITS)"

text \<open>The pair is (debit code, credit code).\<close>

definition resolveGlCodes ::
  "AccountType \<Rightarrow> JournalEntryType \<Rightarrow> direction \<Rightarrow> AccountType option \<Rightarrow> (string \<times> string) res" where
  "resolveGlCodes accountType journalType dir counterparty =
     (let ownCode = memberDepositsCode accountType in
      if journalType = JournalEntryType.TRANSFER then
        (case counterparty of
           None \<Rightarrow> Inl (BadRequestException ''TRANSFER requires a counterparty account type'')
         | Some ty \<Rightarrow> let counterpartyCode = memberDepositsCode ty in
             Inr (if dir = CREDIT then (counterpartyCode, ownCode) else (ownCode, counterpartyCode)))
      else (case journalType of
          JournalEntryType.DEPOSIT \<Rightarrow> Inr (GL_CASH, ownCode)
        | JournalEntryType.MPESA_DEPOSIT \<Rightarrow> Inr (GL_CASH, ownCode)
        | JournalEntryType.WITHDRAWAL \<Rightarrow> Inr (ownCode, GL_CASH)
        | JournalEntryType.LOAN_DISBURSEMENT \<Rightarrow> Inr (GL_LOAN_RECEIVABLE, ownCode)
        | JournalEntryType.FEE_CHARGE \<Rightarrow> Inr (ownCode, GL_FEE_INCOME)
        | _ \<Rightarrow> Inl (BadRequestException ''resolveGlCodes: unsupported journalType'')))"

definition findGlAccountPair :: "db \<Rightarrow> ident \<Rightarrow> string \<Rightarrow> string \<Rightarrow> (gl_account \<times> gl_account) res" where
  "findGlAccountPair s tenantId debitCode creditCode =
     (let rows = filter (\<lambda>g. gl_tenantId g = tenantId \<and>
          (gl_code g = debitCode \<or> gl_code g = creditCode) \<and> gl_isActive g) (glAccounts s) in
      case (findFirst (\<lambda>g. gl_code g = debitCode) rows, findFirst (\<lambda>g. gl_code g = creditCode) rows) of
        (Some d, Some c) \<Rightarrow> Inr (d, c)
      | _ \<Rightarrow> Inl (BadRequestException ''Required GL accounts are not configured''))"

text \<open>The memo of SYSTEM users: a hit is returned, a miss is looked up and remembered.\<close>

definition resolveSystemActorId :: "db \<Rightarrow> ident \<Rightarrow> (ident \<times> db) res" where
  "resolveSystemActorId s tenantId =
     (case systemUserIdCache s tenantId of
        Some uid \<Rightarrow> Inr (uid, s)
      | None \<Rightarrow>
        (case findFirst (\<lambda>u. us_tenantId u = tenantId \<and> us_role u = SYSTEM) (users s) of
           None \<Rightarrow> Inl (NotFoundException ''Tenant has no SYSTEM user provisioned'')
         | Some u \<Rightarrow>
             Inr (us_id u, s\<lparr>systemUserIdCache := (systemUserIdCache s)(tenantId \<mapsto> us_id u)\<rparr>)))"

definition resolveActor :: "db \<Rightarrow> ident \<Rightarrow> ident option \<Rightarrow> (ident \<times> db) res" where
  "resolveActor s tenantId actorId =
     (case actorId of Some a \<Rightarrow> Inr (a, s) | None \<Rightarrow> resolveSystemActorId s tenantId)"

section \<open>The balance change\<close>

text \<open>
  The floor that a debit must leave untouched, and the compare-and-swap update under it. The
  result is the balance before, the balance after and the account type.
\<close>

definition debitFloor :: "env \<Rightarrow> account \<Rightarrow> rat \<Rightarrow> rat" where
  "debitFloor E a amount =
     (let committedFloor = dplus E (dplus E (acc_lockedBalance a) (acc_frozenSavings a)) amount;
          policyFloor = (if acc_allowsNegative a then 0 else dplus E (acc_minimumBalance a) amount)
      in dp4 E (max committedFloor policyFloor))"

definition applyBalanceChange ::
  "env \<Rightarrow> db \<Rightarrow> ident \<Rightarrow> ident \<Rightarrow> rat \<Rightarrow> direction \<Rightarrow> ((rat \<times> rat \<times> AccountType) \<times> db) res" where
  "applyBalanceChange E s tenantId accountId amount dir =
     (case findFirst (\<lambda>a. acc_id a = accountId \<and> acc_tenantId a = tenantId \<and> acc_isActive a)
        (accounts s) of
        None \<Rightarrow> Inl (NotFoundException ''Account not found or inactive in this tenant'')
      | Some account \<Rightarrow>
        (let balanceBefore = acc_balance account;
             delta = (if dir = CREDIT then amount else - amount);
             balanceAfter = dp4 E (dplus E balanceBefore delta);
             matches = (\<lambda>a. acc_id a = accountId \<and> acc_tenantId a = tenantId \<and> acc_isActive a \<and>
               (dir = DEBIT \<longrightarrow> debitFloor E account amount \<le> acc_balance a));
             (rows, count) = updateMany matches
               (\<lambda>a. a\<lparr>acc_balance := (if dir = CREDIT then acc_balance a + amount
                                      else acc_balance a - amount),
                      acc_version := acc_version a + 1\<rparr>) (accounts s)
         in if count = 0 then Inl (BadRequestException ''Insufficient available funds'')
            else rbind (putAccounts rows s)
              (\<lambda>s'. Inr ((balanceBefore, balanceAfter, acc_accountType account), s'))))"

section \<open>Single-account entries\<close>

record entry_params =
  ep_tenantId :: ident
  ep_reference :: string
  ep_journalType :: JournalEntryType
  ep_accountId :: ident
  ep_amount :: rat
  ep_direction :: direction
  ep_actorId :: "ident option"
  ep_linkedTransactionId :: "ident option"
  ep_loanId :: "ident option"

definition jeLedgerNumber :: "string \<Rightarrow> string" where
  "jeLedgerNumber reference = ''JE-LEDGER-'' @ reference"

definition ledgerJournalEntry ::
  "ident \<Rightarrow> string \<Rightarrow> JournalEntryType \<Rightarrow> ident \<Rightarrow> rat \<Rightarrow> ident \<Rightarrow> gl_account \<Rightarrow> gl_account \<Rightarrow> journal_entry" where
  "ledgerJournalEntry tenantId entryNumber ty txId amount actorId debitAccount creditAccount =
     \<lparr>je_id = '''', je_tenantId = tenantId, je_entryNumber = entryNumber, je_type = ty,
      je_status = JournalEntryStatus.POSTED, je_referenceType = Some ''TRANSACTION'',
      je_referenceId = Some txId, je_totalAmount = amount, je_createdById = actorId,
      je_approvedById = Some actorId, je_reversalOfJournalEntryId = None,
      je_postings = [\<lparr>gp_debitAccountId = Some (gl_id debitAccount),
        gp_creditAccountId = Some (gl_id creditAccount), gp_amount = amount\<rparr>]\<rparr>"

definition entryForTransaction :: "db \<Rightarrow> ident \<Rightarrow> ident \<Rightarrow> journal_entry option" where
  "entryForTransaction s tenantId txId =
     findFirst (\<lambda>j. je_tenantId j = tenantId \<and> je_referenceType j = Some ''TRANSACTION'' \<and>
       je_referenceId j = Some txId) (journalEntries s)"

definition transactionByReference :: "db \<Rightarrow> ident \<Rightarrow> string \<Rightarrow> txn option" where
  "transactionByReference s tenantId reference =
     findFirst (\<lambda>t. tx_tenantId t = tenantId \<and> tx_reference t = reference) (transactions s)"

text \<open>The body: (transaction, entry, replayed), with the amount already rounded to 4 places.\<close>

definition postEntryBody ::
  "env \<Rightarrow> db \<Rightarrow> entry_params \<Rightarrow> ident \<Rightarrow> rat \<Rightarrow> ((txn \<times> journal_entry \<times> bool) \<times> db) res" where
  "postEntryBody E s p actorId amount =
     (case transactionByReference s (ep_tenantId p) (ep_reference p) of
        Some existing \<Rightarrow>
          (case entryForTransaction s (ep_tenantId p) (tx_id existing) of
             None \<Rightarrow> Inl (ConflictException ''Transaction exists without a linked journal entry'')
           | Some e \<Rightarrow> Inr ((existing, e, True), s))
      | None \<Rightarrow>
        rbind (applyBalanceChange E s (ep_tenantId p) (ep_accountId p) amount (ep_direction p))
          (\<lambda>((balanceBefore, balanceAfter, accountType), s1).
        rbind (required (BadRequestException ''postEntry: no TransactionType mapping'')
          (JOURNAL_TO_TRANSACTION_TYPE (ep_journalType p))) (\<lambda>transactionType.
        rbind (createTransaction E
          \<lparr>tx_id = '''', tx_tenantId = ep_tenantId p, tx_accountId = ep_accountId p,
           tx_loanId = ep_loanId p, tx_type = transactionType,
           tx_status = TransactionStatus.COMPLETED, tx_amount = amount,
           tx_balanceBefore = dp4 E balanceBefore, tx_balanceAfter = balanceAfter,
           tx_reference = ep_reference p, tx_processedBy = actorId,
           tx_linkedTransactionId = ep_linkedTransactionId p\<rparr> s1) (\<lambda>(t, s2).
        rbind (resolveGlCodes accountType (ep_journalType p) (ep_direction p) None)
          (\<lambda>(debitCode, creditCode).
        rbind (findGlAccountPair s2 (ep_tenantId p) debitCode creditCode) (\<lambda>(d, c).
        rbind (createJournalEntry E
          (ledgerJournalEntry (ep_tenantId p) (jeLedgerNumber (ep_reference p))
             (ep_journalType p) (tx_id t) amount actorId d c) s2) (\<lambda>(e, s3).
        Inr ((t, e, False), s3))))))))"

text \<open>\<open>inTx\<close> says that the caller passed its own transaction client.\<close>

definition postEntry ::
  "env \<Rightarrow> bool \<Rightarrow> db \<Rightarrow> entry_params \<Rightarrow> ((txn \<times> journal_entry) \<times> db) res" where
  "postEntry E inTx s p =
     rbind (resolveActor s (ep_tenantId p) (ep_actorId p)) (\<lambda>(actorId, s0).
     let amount = dp4 E (ep_amount p) in
     rbind (ensure (0 < amount) (BadRequestException ''Amount must be positive'')) (\<lambda>_.
     rbind (postEntryBody E s0 p actorId amount) (\<lambda>((t, e, replayed), s1).
     Inr ((t, e), if \<not> replayed \<and> \<not> inTx
       then writeAudit (ep_tenantId p) actorId ''LEDGER_POST_ENTRY'' (tx_id t) s1 else s1))))"

section \<open>Internal transfers\<close>

definition setLinkedTransaction :: "ident \<Rightarrow> ident \<Rightarrow> db \<Rightarrow> db" where
  "setLinkedTransaction txId linkedId s =
     s\<lparr>transactions := fst (updateMany (\<lambda>t. tx_id t = txId)
        (\<lambda>t. t\<lparr>tx_linkedTransactionId := Some linkedId\<rparr>) (transactions s))\<rparr>"

definition transferLeg ::
  "env \<Rightarrow> ident \<Rightarrow> ident \<Rightarrow> rat \<Rightarrow> rat \<times> rat \<times> AccountType \<Rightarrow> string \<Rightarrow> ident \<Rightarrow> ident option \<Rightarrow> txn" where
  "transferLeg E tenantId accountId amount change reference actorId linked =
     \<lparr>tx_id = '''', tx_tenantId = tenantId, tx_accountId = accountId, tx_loanId = None,
      tx_type = TransactionType.TRANSFER, tx_status = TransactionStatus.COMPLETED,
      tx_amount = amount, tx_balanceBefore = dp4 E (fst change),
      tx_balanceAfter = fst (snd change), tx_reference = reference, tx_processedBy = actorId,
      tx_linkedTransactionId = linked\<rparr>"

definition transferFresh ::
  "env \<Rightarrow> db \<Rightarrow> ident \<Rightarrow> ident \<Rightarrow> ident \<Rightarrow> rat \<Rightarrow> string \<Rightarrow> ident \<Rightarrow>
   ((txn \<times> txn \<times> journal_entry \<times> bool) \<times> db) res" where
  "transferFresh E s tenantId fromId toId amount reference actorId =
     rbind (applyBalanceChange E s tenantId fromId amount DEBIT) (\<lambda>(fromChange, s1).
     rbind (applyBalanceChange E s1 tenantId toId amount CREDIT) (\<lambda>(toChange, s2).
     rbind (createTransaction E (transferLeg E tenantId fromId amount fromChange
         (reference @ ''-SRC'') actorId None) s2) (\<lambda>(fromTx, s3).
     rbind (createTransaction E (transferLeg E tenantId toId amount toChange
         (reference @ ''-DST'') actorId (Some (tx_id fromTx))) s3) (\<lambda>(toTx, s4).
     let s5 = setLinkedTransaction (tx_id fromTx) (tx_id toTx) s4 in
     rbind (resolveGlCodes (snd (snd fromChange)) JournalEntryType.TRANSFER DEBIT
         (Some (snd (snd toChange)))) (\<lambda>(debitCode, creditCode).
     rbind (findGlAccountPair s5 tenantId debitCode creditCode) (\<lambda>(d, c).
     rbind (createJournalEntry E (ledgerJournalEntry tenantId (jeLedgerNumber reference)
         JournalEntryType.TRANSFER (tx_id fromTx) amount actorId d c) s5) (\<lambda>(e, s6).
     Inr ((fromTx\<lparr>tx_linkedTransactionId := Some (tx_id toTx)\<rparr>, toTx, e, False), s6))))))))"

definition postInternalTransfer ::
  "env \<Rightarrow> db \<Rightarrow> ident \<Rightarrow> ident \<Rightarrow> ident \<Rightarrow> rat \<Rightarrow> string \<Rightarrow> ident \<Rightarrow>
   ((txn \<times> txn \<times> journal_entry) \<times> db) res" where
  "postInternalTransfer E s tenantId fromId toId rawAmount reference actorId =
     (let amount = dp4 E rawAmount in
      rbind (ensure (0 < amount) (BadRequestException ''Amount must be positive'')) (\<lambda>_.
      rbind (ensure (fromId \<noteq> toId)
        (BadRequestException ''Cannot transfer an account to itself'')) (\<lambda>_.
      rbind (case transactionByReference s tenantId (reference @ ''-SRC'') of
          Some src \<Rightarrow>
            (case (transactionByReference s tenantId (reference @ ''-DST''),
                   entryForTransaction s tenantId (tx_id src)) of
               (Some dst, Some e) \<Rightarrow> Inr ((src, dst, e, True), s)
             | _ \<Rightarrow> Inl (ConflictException ''Transfer exists partially''))
        | None \<Rightarrow> transferFresh E s tenantId fromId toId amount reference actorId)
      (\<lambda>((src, dst, e, replayed), s1).
      Inr ((src, dst, e), if \<not> replayed
        then writeAudit tenantId actorId ''LEDGER_POST_ENTRY'' (tx_id src) s1 else s1)))))"

section \<open>Reversal\<close>

definition markReversed :: "ident \<Rightarrow> db \<Rightarrow> db" where
  "markReversed txId s =
     s\<lparr>transactions := fst (updateMany (\<lambda>t. tx_id t = txId)
        (\<lambda>t. t\<lparr>tx_status := TransactionStatus.REVERSED\<rparr>) (transactions s))\<rparr>"

definition reverseTransactionBody ::
  "env \<Rightarrow> db \<Rightarrow> ident \<Rightarrow> ident \<Rightarrow> ident \<Rightarrow> ((txn \<times> journal_entry) \<times> db) res" where
  "reverseTransactionBody E s tenantId originalTransactionId reversedByUserId =
     rbind (required (NotFoundException ''Transaction not found in this tenant'')
       (findFirst (\<lambda>t. tx_id t = originalTransactionId \<and> tx_tenantId t = tenantId)
          (transactions s))) (\<lambda>original.
     rbind (ensure (tx_status original \<noteq> TransactionStatus.REVERSED)
       (ConflictException ''Transaction has already been reversed'')) (\<lambda>_.
     rbind (required (ConflictException ''Transaction has no linked journal entry'')
       (entryForTransaction s tenantId (tx_id original))) (\<lambda>originalEntry.
     rbind (ensure (length (je_postings originalEntry) = 1)
       (BadRequestException ''only single-posting entries are supported'')) (\<lambda>_.
     rbind (ensure (findFirst (\<lambda>j. je_tenantId j = tenantId \<and>
         je_reversalOfJournalEntryId j = Some (je_id originalEntry)) (journalEntries s) = None)
       (ConflictException ''Journal entry has already been reversed'')) (\<lambda>_.
     let amount = tx_amount original;
         originalWasCredit = (tx_balanceBefore original \<le> tx_balanceAfter original);
         reverseDirection = (if originalWasCredit then DEBIT else CREDIT) in
     rbind (applyBalanceChange E s tenantId (tx_accountId original) amount reverseDirection)
       (\<lambda>((balanceBefore, balanceAfter, _), s1).
     rbind (createTransaction E
       \<lparr>tx_id = '''', tx_tenantId = tenantId, tx_accountId = tx_accountId original,
        tx_loanId = None, tx_type = TransactionType.REVERSAL,
        tx_status = TransactionStatus.COMPLETED, tx_amount = amount,
        tx_balanceBefore = dp4 E balanceBefore, tx_balanceAfter = balanceAfter,
        tx_reference = tx_reference original @ ''-REVERSAL'', tx_processedBy = reversedByUserId,
        tx_linkedTransactionId = Some (tx_id original)\<rparr> s1) (\<lambda>(reversal, s2).
     let originalPosting = hd (je_postings originalEntry) in
     rbind (createJournalEntry E
       \<lparr>je_id = '''', je_tenantId = tenantId,
        je_entryNumber = ''JE-REVERSAL-'' @ tx_reference original,
        je_type = JournalEntryType.REVERSAL, je_status = JournalEntryStatus.POSTED,
        je_referenceType = Some ''TRANSACTION'', je_referenceId = Some (tx_id reversal),
        je_totalAmount = je_totalAmount originalEntry, je_createdById = reversedByUserId,
        je_approvedById = Some reversedByUserId,
        je_reversalOfJournalEntryId = Some (je_id originalEntry),
        je_postings = [\<lparr>gp_debitAccountId = gp_creditAccountId originalPosting,
          gp_creditAccountId = gp_debitAccountId originalPosting,
          gp_amount = gp_amount originalPosting\<rparr>]\<rparr> s2) (\<lambda>(e, s3).
     Inr ((reversal, e), markReversed (tx_id original) s3)))))))))"

definition reverseTransaction ::
  "env \<Rightarrow> bool \<Rightarrow> db \<Rightarrow> ident \<Rightarrow> ident \<Rightarrow> ident option \<Rightarrow> ((txn \<times> journal_entry) \<times> db) res" where
  "reverseTransaction E inTx s tenantId originalTransactionId reversedBy =
     rbind (resolveActor s tenantId reversedBy) (\<lambda>(actorId, s0).
     rbind (reverseTransactionBody E s0 tenantId originalTransactionId actorId) (\<lambda>((t, e), s1).
     Inr ((t, e), if \<not> inTx
       then writeAudit tenantId actorId ''LEDGER_REVERSE_TRANSACTION'' (tx_id t) s1 else s1)))"

section \<open>Entries that touch the general ledger only\<close>

datatype leg = PENALTY | INTEREST | PRINCIPAL

definition legCreditCode :: "leg \<Rightarrow> string" where
  "legCreditCode l = (if l = leg.PENALTY then GL_PENALTY_INCOME
     else if l = leg.INTEREST then GL_INTEREST_INCOME else GL_LOAN_RECEIVABLE)"

definition postGlOnlyLegEntry ::
  "env \<Rightarrow> db \<Rightarrow> ident \<Rightarrow> string \<Rightarrow> leg \<Rightarrow> rat \<Rightarrow> string \<Rightarrow> ident \<Rightarrow> ident option \<Rightarrow> JournalEntryType \<Rightarrow>
   ((journal_entry \<times> bool) \<times> db) res" where
  "postGlOnlyLegEntry E s tenantId reference l rawAmount debitCode transactionId actor journalType =
     rbind (resolveActor s tenantId actor) (\<lambda>(actorId, s0).
     let amount = dp4 E rawAmount; entryNumber = jeLedgerNumber reference in
     rbind (ensure (0 < amount) (BadRequestException ''Amount must be positive'')) (\<lambda>_.
     (case findFirst (\<lambda>j. je_tenantId j = tenantId \<and> je_entryNumber j = entryNumber)
        (journalEntries s0) of
        Some existing \<Rightarrow> Inr ((existing, True), s0)
      | None \<Rightarrow>
        rbind (findGlAccountPair s0 tenantId debitCode (legCreditCode l)) (\<lambda>(d, c).
        rbind (createJournalEntry E (ledgerJournalEntry tenantId entryNumber journalType
            transactionId amount actorId d c) s0) (\<lambda>(e, s1).
        Inr ((e, False), s1))))))"

definition postLoanRepaymentLegEntry ::
  "env \<Rightarrow> db \<Rightarrow> ident \<Rightarrow> string \<Rightarrow> leg \<Rightarrow> rat \<Rightarrow> ident \<Rightarrow> ident \<Rightarrow> ((journal_entry \<times> bool) \<times> db) res" where
  "postLoanRepaymentLegEntry E s tenantId reference l amount transactionId actorId =
     postGlOnlyLegEntry E s tenantId reference l amount GL_CASH transactionId (Some actorId)
       JournalEntryType.LOAN_REPAYMENT"

definition postAccountSourcedRepaymentLegEntry ::
  "env \<Rightarrow> db \<Rightarrow> ident \<Rightarrow> string \<Rightarrow> leg \<Rightarrow> rat \<Rightarrow> AccountType \<Rightarrow> ident \<Rightarrow> ident \<Rightarrow>
   ((journal_entry \<times> bool) \<times> db) res" where
  "postAccountSourcedRepaymentLegEntry E s tenantId reference l amount ty transactionId actorId =
     postGlOnlyLegEntry E s tenantId reference l amount (memberDepositsCode ty) transactionId
       (Some actorId) JournalEntryType.LOAN_REPAYMENT"

definition postGuarantorForfeitureEntry ::
  "env \<Rightarrow> db \<Rightarrow> ident \<Rightarrow> string \<Rightarrow> rat \<Rightarrow> AccountType \<Rightarrow> ident \<Rightarrow> ident option \<Rightarrow>
   ((journal_entry \<times> bool) \<times> db) res" where
  "postGuarantorForfeitureEntry E s tenantId reference amount ty transactionId actor =
     postGlOnlyLegEntry E s tenantId reference leg.PRINCIPAL amount (memberDepositsCode ty)
       transactionId actor JournalEntryType.LOAN_REPAYMENT"

definition postInterestAccrualEntry ::
  "env \<Rightarrow> db \<Rightarrow> ident \<Rightarrow> string \<Rightarrow> rat \<Rightarrow> AccountType \<Rightarrow> ident \<Rightarrow> ident option \<Rightarrow>
   ((journal_entry \<times> bool) \<times> db) res" where
  "postInterestAccrualEntry E s tenantId reference amount ty transactionId actor =
     postGlOnlyLegEntry E s tenantId reference leg.INTEREST amount (memberDepositsCode ty)
       transactionId actor JournalEntryType.INTEREST_ACCRUAL"

definition postPenaltyDeductionEntry ::
  "env \<Rightarrow> db \<Rightarrow> ident \<Rightarrow> string \<Rightarrow> rat \<Rightarrow> AccountType \<Rightarrow> ident \<Rightarrow> ident option \<Rightarrow>
   ((journal_entry \<times> bool) \<times> db) res" where
  "postPenaltyDeductionEntry E s tenantId reference amount ty transactionId actor =
     postGlOnlyLegEntry E s tenantId reference leg.PENALTY amount (memberDepositsCode ty)
       transactionId actor JournalEntryType.LOAN_REPAYMENT"

definition postPenaltyReceivableEntry ::
  "env \<Rightarrow> db \<Rightarrow> ident \<Rightarrow> string \<Rightarrow> rat \<Rightarrow> ident \<Rightarrow> ident option \<Rightarrow>
   ((journal_entry \<times> bool) \<times> db) res" where
  "postPenaltyReceivableEntry E s tenantId reference amount transactionId actor =
     postGlOnlyLegEntry E s tenantId reference leg.PENALTY amount GL_LOAN_RECEIVABLE
       transactionId actor JournalEntryType.LOAN_REPAYMENT"

end
