(* ===== verification/Ledger_Laws.thy ===== *)
theory Ledger_Laws
  imports Ledger
begin

text \<open>
  What the ledger service guarantees.

  Each operation is first inverted: a successful run is a balance move (\<open>moveBalance\<close>) and
  the appended rows. From the inversions follow the preservation of well-formedness, the floors
  of a debit, replay, and the agreement of balances and general ledger.
\<close>

section \<open>The abstract balance move\<close>

definition moveBalance :: "ident \<Rightarrow> rat \<Rightarrow> db \<Rightarrow> db" where
  "moveBalance k delta s =
     s\<lparr>accounts := map (\<lambda>x. if acc_id x = k
        then x\<lparr>acc_balance := acc_balance x + delta, acc_version := acc_version x + 1\<rparr> else x)
        (accounts s)\<rparr>"

definition signed :: "direction \<Rightarrow> rat \<Rightarrow> rat" where
  "signed dir amount = (if dir = CREDIT then amount else - amount)"

lemma moveBalance_simps [simp]:
  "transactions (moveBalance k d s) = transactions s"
  "journalEntries (moveBalance k d s) = journalEntries s"
  "glAccounts (moveBalance k d s) = glAccounts s"
  "id_count (moveBalance k d s) = id_count s"
  "loans (moveBalance k d s) = loans s"
  "guarantors (moveBalance k d s) = guarantors s"
  "repayments (moveBalance k d s) = repayments s"
  "users (moveBalance k d s) = users s"
  "map acc_id (accounts (moveBalance k d s)) = map acc_id (accounts s)"
  by (simp_all add: moveBalance_def)

lemma deposits_moveBalance:
  assumes "distinct (map acc_id (accounts s))" and "a \<in> set (accounts s)" and "acc_id a = k"
  shows "deposits (moveBalance k d s) t ty =
    deposits s t ty + (if acc_tenantId a = t \<and> acc_accountType a = ty then d else 0)"
  unfolding moveBalance_def
  using deposits_update [of s a "\<lambda>x. acc_id x = k" k
    "\<lambda>x. x\<lparr>acc_balance := acc_balance x + d, acc_version := acc_version x + 1\<rparr>" t ty] assms
  by simp

lemma matching_key:
  assumes "distinct (map key rows)" "a \<in> set rows" "key a = k" "P a"
  shows "map (\<lambda>x. if key x = k \<and> P x then f x else x) rows =
         map (\<lambda>x. if key x = k then f x else x) rows"
  using assms by (intro map_cong) (auto dest: distinct_key_eq)

section \<open>Inversion of the balance change\<close>

definition active_account :: "db \<Rightarrow> ident \<Rightarrow> ident \<Rightarrow> account \<Rightarrow> bool" where
  "active_account s tenantId accountId a \<longleftrightarrow> a \<in> set (accounts s) \<and> acc_id a = accountId \<and>
     acc_tenantId a = tenantId \<and> acc_isActive a"

lemma applyBalanceChange_cases:
  assumes "applyBalanceChange E s tenantId accountId amount dir = Inr ((bb, ba, ty), s')"
    and "distinct (map acc_id (accounts s))"
  obtains a where "active_account s tenantId accountId a"
    and "bb = acc_balance a" and "ty = acc_accountType a"
    and "ba = dp4 E (dplus E (acc_balance a) (signed dir amount))"
    and "dir = DEBIT \<Longrightarrow> debitFloor E a amount \<le> acc_balance a"
    and "s' = moveBalance accountId (signed dir amount) s"
    and "in_column (acc_balance a + signed dir amount)"
proof -
  let ?P = "\<lambda>a. acc_tenantId a = tenantId \<and> acc_isActive a"
  from assms(1) obtain a where f:
    "findFirst (\<lambda>a. acc_id a = accountId \<and> ?P a) (accounts s) = Some a"
    by (auto simp: applyBalanceChange_def split: option.splits)
  then have a: "active_account s tenantId accountId a"
    by (auto dest!: findFirst_Some simp: active_account_def)
  define Q where "Q x \<longleftrightarrow> acc_tenantId x = tenantId \<and> acc_isActive x \<and>
    (dir = DEBIT \<longrightarrow> debitFloor E a amount \<le> acc_balance x)" for x :: account
  define upd where "upd = (\<lambda>x :: account. x\<lparr>acc_balance := (if dir = CREDIT
      then acc_balance x + amount else acc_balance x - amount), acc_version := acc_version x + 1\<rparr>)"
  let ?rows = "map (\<lambda>x. if acc_id x = accountId \<and> Q x then upd x else x) (accounts s)"
  have eq: "applyBalanceChange E s tenantId accountId amount dir =
      (if filter (\<lambda>x. acc_id x = accountId \<and> Q x) (accounts s) = [] then
         Inl (BadRequestException ''Insufficient available funds'')
       else rbind (putAccounts ?rows s) (\<lambda>s'. Inr ((acc_balance a,
         dp4 E (dplus E (acc_balance a) (signed dir amount)), acc_accountType a), s')))"
    unfolding Q_def upd_def signed_def applyBalanceChange_def
    by (simp add: f Let_def updateMany_def cong: if_cong)
  from assms(1) have hit: "\<exists>x \<in> set (accounts s). acc_id x = accountId \<and> Q x"
    and put: "putAccounts ?rows s = Inr s'"
    and res: "bb = acc_balance a" "ty = acc_accountType a"
      "ba = dp4 E (dplus E (acc_balance a) (signed dir amount))"
    unfolding eq by (auto simp: rbind_eq_Inr filter_empty_conv split: if_splits)
  from hit a assms(2) have Qa: "Q a"
    by (auto simp: active_account_def dest: distinct_key_eq)
  have rows: "?rows = map (\<lambda>x. if acc_id x = accountId then upd x else x) (accounts s)"
    by (rule matching_key [OF assms(2)]) (use a Qa in \<open>auto simp: active_account_def\<close>)
  have upd: "upd = (\<lambda>x. x\<lparr>acc_balance := acc_balance x + signed dir amount,
      acc_version := acc_version x + 1\<rparr>)"
    by (auto simp: upd_def signed_def fun_eq_iff)
  from put have s': "s' = moveBalance accountId (signed dir amount) s"
    by (simp only: rows) (simp add: res_simps moveBalance_def upd)
  from put have "account_in_columns (upd a)"
    using a by (auto simp: rows res_simps active_account_def)
  then have col: "in_column (acc_balance a + signed dir amount)"
    by (simp add: upd account_in_columns_def)
  show thesis
    by (rule that [OF a res(1,2,3) _ s' col]) (use Qa in \<open>simp add: Q_def\<close>)
qed

context decimal_runtime
begin

lemma debitFloor_exact:
  assumes "wf_account a" and "m4 amount" and "\<bar>amount\<bar> < 10 ^ 15"
  shows "debitFloor E a amount =
    max (acc_lockedBalance a + acc_frozenSavings a + amount)
        (if acc_allowsNegative a then 0 else acc_minimumBalance a + amount)"
proof -
  have m: "m4 (acc_lockedBalance a)" "m4 (acc_frozenSavings a)" "m4 (acc_minimumBalance a)"
    and b: "\<bar>acc_lockedBalance a\<bar> < 10 ^ 14" "\<bar>acc_frozenSavings a\<bar> < 10 ^ 14"
      "\<bar>acc_minimumBalance a\<bar> < 10 ^ 14"
    using assms(1) by (simp_all add: wf_account_def money_def)
  have 1: "dplus E (acc_lockedBalance a) (acc_frozenSavings a) =
      acc_lockedBalance a + acc_frozenSavings a"
    by (rule dplus_exact, rule wideI) (use m b in \<open>auto intro: money_intros\<close>)
  have 2: "dplus E (acc_lockedBalance a + acc_frozenSavings a) amount =
      acc_lockedBalance a + acc_frozenSavings a + amount"
    by (rule dplus_exact, rule wideI) (use m b assms in \<open>auto intro: money_intros\<close>)
  have 3: "dplus E (acc_minimumBalance a) amount = acc_minimumBalance a + amount"
    by (rule dplus_exact, rule wideI) (use m b assms in \<open>auto intro: money_intros\<close>)
  show ?thesis
    unfolding debitFloor_def Let_def 1 2 3
    by (rule dp4_exact) (use m assms in \<open>auto intro!: money_intros\<close>)
qed

text \<open>Everything a caller needs to know of a balance change that succeeded.\<close>

lemma balance_change:
  assumes "applyBalanceChange E s tenantId accountId amount dir = Inr ((bb, ba, ty), s')"
    and "wf_accounts s" and "m4 amount"
  obtains a where "active_account s tenantId accountId a"
    and "bb = acc_balance a" and "ty = acc_accountType a"
    and "ba = acc_balance a + signed dir amount"
    and "dir = DEBIT \<Longrightarrow> acc_lockedBalance a + acc_frozenSavings a \<le> acc_balance a - amount"
    and "dir = DEBIT \<Longrightarrow> \<not> acc_allowsNegative a \<Longrightarrow> acc_minimumBalance a \<le> acc_balance a - amount"
    and "s' = moveBalance accountId (signed dir amount) s"
    and "money (acc_balance a)" and "money (acc_balance a + signed dir amount)"
proof -
  note wf = wf_accountsD [OF assms(2)]
  from applyBalanceChange_cases [OF assms(1) wf(1)] obtain a where
    a: "active_account s tenantId accountId a" "bb = acc_balance a" "ty = acc_accountType a"
      "ba = dp4 E (dplus E (acc_balance a) (signed dir amount))"
      "dir = DEBIT \<Longrightarrow> debitFloor E a amount \<le> acc_balance a"
      "s' = moveBalance accountId (signed dir amount) s"
      "in_column (acc_balance a + signed dir amount)" by metis
  have wfa: "wf_account a" using a(1) wf(2) by (simp add: active_account_def)
  have ms: "m4 (signed dir amount)" using assms(3) by (simp add: signed_def places_minus)
  have bal: "money (acc_balance a)" using wfa by (rule wf_accountD)
  have aft: "money (acc_balance a + signed dir amount)"
    using a(7) bal ms by (auto intro: money_in_column places_add money_m4)
  have "ba = acc_balance a + signed dir amount"
    unfolding a(4) using aft by (simp add: dplus_exact money_wide money_m4)
  moreover have "\<bar>amount\<bar> < 10 ^ 15"
    using money_bound [OF bal] money_bound [OF aft] by (auto simp: signed_def split: if_splits)
  note fl = debitFloor_exact [OF wfa assms(3) this]
  have "acc_lockedBalance a + acc_frozenSavings a \<le> acc_balance a - amount" if "dir = DEBIT"
    using a(5) [OF that] unfolding fl by linarith
  moreover have "acc_minimumBalance a \<le> acc_balance a - amount"
    if "dir = DEBIT" "\<not> acc_allowsNegative a"
    using a(5) [OF that(1)] that(2) unfolding fl by (simp add: algebra_simps)
  ultimately show thesis using that a(1-3,6) bal aft by blast
qed

end

section \<open>General-ledger effect of an entry\<close>

lemma findGlAccountPair_codes:
  assumes "findGlAccountPair s t dc cc = Inr (d, c)" and "wf_gl s"
  shows "gl_code_of s (Some (gl_id d)) = Some dc" and "gl_code_of s (Some (gl_id c)) = Some cc"
proof -
  have look: "gl_code_of s (Some (gl_id g)) = Some (gl_code g)" if g: "g \<in> set (glAccounts s)" for g
  proof -
    obtain g' where g': "findFirst (\<lambda>x. gl_id x = gl_id g) (glAccounts s) = Some g'"
      using findFirst_ex [OF g, of "\<lambda>x. gl_id x = gl_id g"] by blast
    then have "g' = g"
      using assms(2) g by (auto dest!: findFirst_Some simp: wf_gl_def intro: distinct_key_eq)
    with g' show ?thesis by (simp add: gl_code_of_def)
  qed
  from assms(1) have "d \<in> set (glAccounts s) \<and> gl_code d = dc" "c \<in> set (glAccounts s) \<and> gl_code c = cc"
    by (auto simp: findGlAccountPair_def Let_def split: option.splits dest!: findFirst_Some)
  with look show "gl_code_of s (Some (gl_id d)) = Some dc" "gl_code_of s (Some (gl_id c)) = Some cc"
    by auto
qed

definition code_effect :: "string \<Rightarrow> string \<Rightarrow> rat \<Rightarrow> string \<Rightarrow> rat" where
  "code_effect debitCode creditCode amount code =
     (if code = creditCode then amount else 0) - (if code = debitCode then amount else 0)"

lemma entry_credit_ledger:
  assumes "findGlAccountPair s t dc cc = Inr (d, c)" and "wf_gl s"
    and "je_postings e = je_postings (ledgerJournalEntry t n ty x amount u d c)"
  shows "entry_credit s code e = code_effect dc cc amount code"
  using findGlAccountPair_codes [OF assms(1,2)] assms(3)
  by (auto simp: entry_credit_def ledgerJournalEntry_def posting_credit_def code_effect_def)

text \<open>The whole effect of appending one ledger entry.\<close>

lemma gl_credit_ledger_entry:
  assumes "createJournalEntry E (ledgerJournalEntry t n ty x amount u d c) s = Inr (e, s')"
    and "findGlAccountPair s t dc cc = Inr (d, c)" and "wf_gl s"
  shows "gl_credit s' t' code =
    gl_credit s t' code + (if t' = t then code_effect dc cc amount code else 0)"
proof -
  have e: "e = (ledgerJournalEntry t n ty x amount u d c)\<lparr>je_id := uuid E (id_count s)\<rparr>"
    and s': "glAccounts s' = glAccounts s" "journalEntries s' = journalEntries s @ [e]"
    using assms(1) by (auto simp: createJournalEntry_Inr)
  have "je_tenantId e = t" "je_status e = JournalEntryStatus.POSTED"
    by (simp_all add: e ledgerJournalEntry_def)
  moreover have "entry_credit s code e = code_effect dc cc amount code"
    by (rule entry_credit_ledger [OF assms(2,3)]) (simp add: e ledgerJournalEntry_def)
  ultimately show ?thesis using gl_credit_append [OF s', of t' code] by simp
qed

lemma memberDepositsCode_simps [simp]:
  "memberDepositsCode ty = memberDepositsCode ty' \<longleftrightarrow> ty = ty'"
  "memberDepositsCode ty \<noteq> GL_CASH" "GL_CASH \<noteq> memberDepositsCode ty"
  "memberDepositsCode ty \<noteq> GL_LOAN_RECEIVABLE" "GL_LOAN_RECEIVABLE \<noteq> memberDepositsCode ty"
  "memberDepositsCode ty \<noteq> GL_FEE_INCOME" "GL_FEE_INCOME \<noteq> memberDepositsCode ty"
  "memberDepositsCode ty \<noteq> GL_PENALTY_INCOME" "GL_PENALTY_INCOME \<noteq> memberDepositsCode ty"
  "memberDepositsCode ty \<noteq> GL_INTEREST_INCOME" "GL_INTEREST_INCOME \<noteq> memberDepositsCode ty"
  by (cases ty; cases ty'; simp add: memberDepositsCode_def gl_codes)+

lemma memberDepositsCode_legCreditCode [simp]: "memberDepositsCode ty \<noteq> legCreditCode l"
  by (simp add: legCreditCode_def)

text \<open>Balances and general ledger of a tenant agree on both deposit-liability codes.\<close>

definition gl_agrees :: "db \<Rightarrow> ident \<Rightarrow> bool" where
  "gl_agrees s t \<longleftrightarrow>
     deposits s t FOSA = gl_credit s t (memberDepositsCode FOSA) \<and>
     deposits s t BOSA = gl_credit s t (memberDepositsCode BOSA)"

lemma gl_agrees_iff: "gl_agrees s t \<longleftrightarrow> (\<forall>ty. deposits s t ty = gl_credit s t (memberDepositsCode ty))"
  unfolding gl_agrees_def by (metis AccountType.exhaust)

lemma gl_agrees_cong:
  "accounts s = accounts s' \<Longrightarrow> glAccounts s = glAccounts s' \<Longrightarrow>
   journalEntries s = journalEntries s' \<Longrightarrow> gl_agrees s t = gl_agrees s' t"
  using deposits_cong [of s s'] gl_credit_cong [of s s'] by (simp add: gl_agrees_iff)

lemma gl_agrees_frame [simp]:
  "gl_agrees (s\<lparr>auditLog := x1\<rparr>) t = gl_agrees s t"
  "gl_agrees (s\<lparr>systemUserIdCache := x2\<rparr>) t = gl_agrees s t"
  "gl_agrees (s\<lparr>loans := x3\<rparr>) t = gl_agrees s t"
  "gl_agrees (s\<lparr>guarantors := x4\<rparr>) t = gl_agrees s t"
  "gl_agrees (s\<lparr>repayments := x5\<rparr>) t = gl_agrees s t"
  "gl_agrees (s\<lparr>transactions := x6\<rparr>) t = gl_agrees s t"
  "gl_agrees (s\<lparr>mpesaTransactions := x7\<rparr>) t = gl_agrees s t"
  "gl_agrees (s\<lparr>payoutIntents := x10\<rparr>) t = gl_agrees s t"
  "gl_agrees (s\<lparr>callbackInbox := x11\<rparr>) t = gl_agrees s t"
  "gl_agrees (s\<lparr>reconAttempts := x12\<rparr>) t = gl_agrees s t"
  "gl_agrees (s\<lparr>payoutQueue := x13\<rparr>) t = gl_agrees s t"
  "gl_agrees (s\<lparr>timeoutQueue := x14\<rparr>) t = gl_agrees s t"
  "gl_agrees (s\<lparr>providerOrders := x15\<rparr>) t = gl_agrees s t"
  "gl_agrees (s\<lparr>callbackQueue := x17\<rparr>) t = gl_agrees s t"
  "gl_agrees (s\<lparr>complianceAlerts := x18\<rparr>) t = gl_agrees s t"
  "gl_agrees (s\<lparr>delayedJobs := x8\<rparr>) t = gl_agrees s t"
  "gl_agrees (s\<lparr>id_count := x9\<rparr>) t = gl_agrees s t"
  "gl_agrees (s\<lparr>approvalChains := x16\<rparr>) t = gl_agrees s t"
  by (rule gl_agrees_cong; simp)+

lemma gl_agrees_writeAudit [simp]: "gl_agrees (writeAudit t' a c e s) t = gl_agrees s t"
  by (simp add: writeAudit_def)

lemma resolveActor_Inr:
  "resolveActor s t a = Inr (u, s') \<Longrightarrow> s' = s\<lparr>systemUserIdCache := systemUserIdCache s'\<rparr>"
  by (auto simp: resolveActor_def resolveSystemActorId_def split: option.splits)

section \<open>Inversion of a single-account entry\<close>

lemma postEntryBody_fresh:
  assumes "postEntryBody E s p u amount = Inr ((t, e, False), s')"
  obtains bb ba ty s1 s2 tt dc cc d c where
    "transactionByReference s (ep_tenantId p) (ep_reference p) = None"
    "applyBalanceChange E s (ep_tenantId p) (ep_accountId p) amount (ep_direction p) =
       Inr ((bb, ba, ty), s1)"
    "JOURNAL_TO_TRANSACTION_TYPE (ep_journalType p) = Some tt"
    "createTransaction E
       \<lparr>tx_id = '''', tx_tenantId = ep_tenantId p, tx_accountId = ep_accountId p,
        tx_loanId = ep_loanId p, tx_type = tt, tx_status = TransactionStatus.COMPLETED,
        tx_amount = amount, tx_balanceBefore = dp4 E bb, tx_balanceAfter = ba,
        tx_reference = ep_reference p, tx_processedBy = u,
        tx_linkedTransactionId = ep_linkedTransactionId p\<rparr> s1 = Inr (t, s2)"
    "resolveGlCodes ty (ep_journalType p) (ep_direction p) None = Inr (dc, cc)"
    "findGlAccountPair s2 (ep_tenantId p) dc cc = Inr (d, c)"
    "createJournalEntry E (ledgerJournalEntry (ep_tenantId p) (jeLedgerNumber (ep_reference p))
       (ep_journalType p) (tx_id t) amount u d c) s2 = Inr (e, s')"
  using assms
  by (auto simp: postEntryBody_def res_simps split: option.splits)

lemma postEntryBody_replayed:
  assumes "postEntryBody E s p u amount = Inr ((t, e, True), s')"
  shows "s' = s" and "transactionByReference s (ep_tenantId p) (ep_reference p) = Some t"
  using assms by (auto simp: postEntryBody_def res_simps split: option.splits)

context decimal_runtime
begin

lemma moveBalance_wf:
  assumes "wf_accounts s" and "active_account s t k a" and "money (acc_balance a + d)"
  shows "wf_accounts (moveBalance k d s)"
proof -
  note wf = wf_accountsD [OF assms(1)]
  have "wf_account y" if "y \<in> set (accounts (moveBalance k d s))" for y
  proof -
    from that obtain x where x: "x \<in> set (accounts s)" and y: "y = (if acc_id x = k
        then x\<lparr>acc_balance := acc_balance x + d, acc_version := acc_version x + 1\<rparr> else x)"
      by (auto simp: moveBalance_def)
    have "acc_id x = k \<Longrightarrow> x = a"
      using x assms(2) wf(1) by (auto simp: active_account_def intro: distinct_key_eq)
    then show ?thesis using wf(2) [OF x] assms(3) y by (auto simp: wf_account_def)
  qed
  then show ?thesis using wf(1) by (simp add: wf_accounts_def)
qed

lemma applyBalanceChange_wf:
  assumes "applyBalanceChange E s t k amount dir = Inr (r, s')" and "wf_db s" and "m4 amount"
  shows "wf_db s'"
proof -
  obtain bb ba ty where r: "r = (bb, ba, ty)" by (cases r)
  from balance_change [OF assms(1) [unfolded r] _ assms(3)] wf_dbD(1) [OF assms(2)]
  obtain a where a: "active_account s t k a" "s' = moveBalance k (signed dir amount) s"
      "money (acc_balance a + signed dir amount)" by metis
  have "wf_accounts s'" unfolding a(2)
    by (rule moveBalance_wf [OF wf_dbD(1) [OF assms(2)] a(1,3)])
  then show ?thesis
    using assms(2) by (simp add: wf_db_def wf_gl_def wf_transactions_def wf_journal_def a(2))
qed

lemma ledgerJournalEntry_m4 [simp]:
  "m4 amount \<Longrightarrow> p \<in> set (je_postings (ledgerJournalEntry t n ty x amount u d c)) \<Longrightarrow> m4 (gp_amount p)"
  by (simp add: ledgerJournalEntry_def)

lemma postEntryBody_wf:
  assumes run: "postEntryBody E s p u amount = Inr ((t, e, r), s')" and "wf_db s" and "m4 amount"
  shows "wf_db s'"
proof (cases r)
  case True
  with run assms(2) show ?thesis by (auto dest: postEntryBody_replayed)
next
  case False
  with run have "postEntryBody E s p u amount = Inr ((t, e, False), s')" by simp
  then show ?thesis
  proof (rule postEntryBody_fresh)
    fix bb ba ty s1 s2 tt dc cc d c
    assume bal: "applyBalanceChange E s (ep_tenantId p) (ep_accountId p) amount (ep_direction p) =
        Inr ((bb, ba, ty), s1)"
      and tx: "createTransaction E \<lparr>tx_id = '''', tx_tenantId = ep_tenantId p,
        tx_accountId = ep_accountId p, tx_loanId = ep_loanId p, tx_type = tt,
        tx_status = TransactionStatus.COMPLETED, tx_amount = amount, tx_balanceBefore = dp4 E bb,
        tx_balanceAfter = ba, tx_reference = ep_reference p, tx_processedBy = u,
        tx_linkedTransactionId = ep_linkedTransactionId p\<rparr> s1 = Inr (t, s2)"
      and je: "createJournalEntry E (ledgerJournalEntry (ep_tenantId p)
        (jeLedgerNumber (ep_reference p)) (ep_journalType p) (tx_id t) amount u d c) s2 = Inr (e, s')"
    have "m4 ba"
      using balance_change [OF bal wf_dbD(1) [OF assms(2)] assms(3)] by (metis money_m4)
    have "wf_db s1" by (rule applyBalanceChange_wf [OF bal assms(2,3)])
    then have "wf_db s2"
      by (rule createTransaction_wf [OF tx]) (use assms(3) \<open>m4 ba\<close> in simp_all)
    then show ?thesis
      by (rule createJournalEntry_wf [OF je]) (use assms(3) in simp)
  qed
qed

end

section \<open>Agreement of balances and general ledger\<close>

text \<open>The directions that go with a journal type: money into an account is a credit.\<close>

definition direction_fits :: "JournalEntryType \<Rightarrow> direction \<Rightarrow> bool" where
  "direction_fits ty dir \<longleftrightarrow>
     (ty \<in> {JournalEntryType.DEPOSIT, JournalEntryType.MPESA_DEPOSIT,
            JournalEntryType.LOAN_DISBURSEMENT} \<and> dir = CREDIT) \<or>
     (ty \<in> {JournalEntryType.WITHDRAWAL, JournalEntryType.FEE_CHARGE} \<and> dir = DEBIT)"

lemma resolveGlCodes_effect:
  assumes "resolveGlCodes ty jt dir None = Inr (dc, cc)" and "direction_fits jt dir"
  shows "code_effect dc cc amount (memberDepositsCode ty') = (if ty' = ty then signed dir amount else 0)"
  using assms
  by (cases jt) (auto simp: resolveGlCodes_def direction_fits_def code_effect_def signed_def)

lemma resolveGlCodes_transfer_effect:
  assumes "resolveGlCodes ty JournalEntryType.TRANSFER DEBIT (Some ty2) = Inr (dc, cc)"
  shows "code_effect dc cc amount (memberDepositsCode ty') =
    (if ty' = ty2 then amount else 0) - (if ty' = ty then amount else 0)"
  using assms by (auto simp: resolveGlCodes_def code_effect_def)

lemma wf_gl_cong: "glAccounts s = glAccounts s' \<Longrightarrow> wf_gl s = wf_gl s'"
  by (simp add: wf_gl_def)

lemma findGlAccountPair_cong:
  "glAccounts s = glAccounts s' \<Longrightarrow> findGlAccountPair s = findGlAccountPair s'"
  by (simp add: findGlAccountPair_def fun_eq_iff)

lemma agreement_step:
  assumes "gl_agrees s t"
    and "\<And>ty. deposits s' t ty = deposits s t ty + x ty"
    and "\<And>ty. gl_credit s' t (memberDepositsCode ty) = gl_credit s t (memberDepositsCode ty) + x ty"
  shows "gl_agrees s' t"
  using assms by (simp add: gl_agrees_iff)

lemma postEntry_cases:
  assumes "postEntry E inTx s p = Inr ((t, e), s')"
  obtains u s0 s1 r where "s0 = s\<lparr>systemUserIdCache := systemUserIdCache s0\<rparr>"
    "0 < dp4 E (ep_amount p)"
    "postEntryBody E s0 p u (dp4 E (ep_amount p)) = Inr ((t, e, r), s1)"
    "s' = (if \<not> r \<and> \<not> inTx
       then writeAudit (ep_tenantId p) u ''LEDGER_POST_ENTRY'' (tx_id t) s1 else s1)"
  using assms by (auto simp: postEntry_def res_simps Let_def dest: resolveActor_Inr)

context decimal_runtime
begin

text \<open>The two effects of a fresh entry, on the deposits and on every code.\<close>

lemma postEntryBody_effects:
  assumes run: "postEntryBody E s p u amount = Inr ((t, e, False), s')"
    and wf: "wf_db s" and m: "m4 amount"
  obtains a dc cc where "active_account s (ep_tenantId p) (ep_accountId p) a"
    "resolveGlCodes (acc_accountType a) (ep_journalType p) (ep_direction p) None = Inr (dc, cc)"
    "\<And>t' ty. deposits s' t' ty = deposits s t' ty +
       (if acc_tenantId a = t' \<and> acc_accountType a = ty then signed (ep_direction p) amount else 0)"
    "\<And>t' code. gl_credit s' t' code = gl_credit s t' code +
       (if t' = ep_tenantId p then code_effect dc cc amount code else 0)"
proof -
  from run obtain bb ba ty s1 s2 tt dc cc d c where
    bal: "applyBalanceChange E s (ep_tenantId p) (ep_accountId p) amount (ep_direction p) =
       Inr ((bb, ba, ty), s1)"
    and tx: "createTransaction E
       \<lparr>tx_id = '''', tx_tenantId = ep_tenantId p, tx_accountId = ep_accountId p,
        tx_loanId = ep_loanId p, tx_type = tt, tx_status = TransactionStatus.COMPLETED,
        tx_amount = amount, tx_balanceBefore = dp4 E bb, tx_balanceAfter = ba,
        tx_reference = ep_reference p, tx_processedBy = u,
        tx_linkedTransactionId = ep_linkedTransactionId p\<rparr> s1 = Inr (t, s2)"
    and codes: "resolveGlCodes ty (ep_journalType p) (ep_direction p) None = Inr (dc, cc)"
    and pair: "findGlAccountPair s2 (ep_tenantId p) dc cc = Inr (d, c)"
    and je: "createJournalEntry E (ledgerJournalEntry (ep_tenantId p)
       (jeLedgerNumber (ep_reference p)) (ep_journalType p) (tx_id t) amount u d c) s2 = Inr (e, s')"
    by (rule postEntryBody_fresh)
  note wfa = wf_dbD(1) [OF wf]
  obtain a where a: "active_account s (ep_tenantId p) (ep_accountId p) a"
    "ty = acc_accountType a" "s1 = moveBalance (ep_accountId p) (signed (ep_direction p) amount) s"
    using balance_change [OF bal wfa m] by metis
  have same: "accounts s2 = accounts s1" "glAccounts s2 = glAccounts s"
    "journalEntries s2 = journalEntries s" "accounts s' = accounts s2"
    using tx je by (auto simp: createTransaction_Inr createJournalEntry_Inr a(3))
  have "deposits s' t' ty' = deposits s t' ty' +
      (if acc_tenantId a = t' \<and> acc_accountType a = ty' then signed (ep_direction p) amount else 0)"
    for t' ty'
    using deposits_moveBalance [OF wf_accountsD(1) [OF wfa], of a] a(1)
      deposits_cong [of s' s1] same by (simp add: a(3) active_account_def)
  moreover have "wf_gl s2" using wf wf_gl_cong [of s2 s] same by (simp add: wf_db_def)
  then have "gl_credit s' t' code = gl_credit s t' code +
      (if t' = ep_tenantId p then code_effect dc cc amount code else 0)" for t' code
    using gl_credit_ledger_entry [OF je pair, of t' code] gl_credit_cong [of s2 s] same by simp
  ultimately show thesis using that [OF a(1) codes [unfolded a(2)]] by blast
qed

lemma postEntryBody_agrees:
  assumes run: "postEntryBody E s p u amount = Inr ((t, e, r), s')"
    and wf: "wf_db s" and m: "m4 amount"
    and fits: "direction_fits (ep_journalType p) (ep_direction p)" and ag: "gl_agrees s t'"
  shows "gl_agrees s' t'"
proof (cases r)
  case True
  with run ag show ?thesis by (auto dest: postEntryBody_replayed)
next
  case False
  with run have "postEntryBody E s p u amount = Inr ((t, e, False), s')" by simp
  from postEntryBody_effects [OF this wf m] obtain a dc cc where
    a: "active_account s (ep_tenantId p) (ep_accountId p) a"
    and codes: "resolveGlCodes (acc_accountType a) (ep_journalType p) (ep_direction p) None = Inr (dc, cc)"
    and dep: "\<And>t' ty. deposits s' t' ty = deposits s t' ty +
       (if acc_tenantId a = t' \<and> acc_accountType a = ty then signed (ep_direction p) amount else 0)"
    and gl: "\<And>t' code. gl_credit s' t' code = gl_credit s t' code +
       (if t' = ep_tenantId p then code_effect dc cc amount code else 0)" by blast
  show ?thesis
    by (rule agreement_step [OF ag dep])
      (use a in \<open>auto simp: gl resolveGlCodes_effect [OF codes fits] active_account_def\<close>)
qed

lemma postEntry_agrees:
  assumes run: "postEntry E inTx s p = Inr ((t, e), s')" and wf: "wf_db s"
    and fits: "direction_fits (ep_journalType p) (ep_direction p)" and ag: "gl_agrees s t'"
  shows "wf_db s'" and "gl_agrees s' t'"
proof -
  from run obtain u s0 s1 r where s0: "s0 = s\<lparr>systemUserIdCache := systemUserIdCache s0\<rparr>"
    and body: "postEntryBody E s0 p u (dp4 E (ep_amount p)) = Inr ((t, e, r), s1)"
    and s': "s' = (if \<not> r \<and> \<not> inTx
       then writeAudit (ep_tenantId p) u ''LEDGER_POST_ENTRY'' (tx_id t) s1 else s1)"
    by (rule postEntry_cases)
  have "wf_db s0" "gl_agrees s0 t'" using wf ag by (subst s0, simp)+
  then have "wf_db s1" "gl_agrees s1 t'"
    using postEntryBody_wf [OF body] postEntryBody_agrees [OF body _ _ fits] by simp_all
  then show "wf_db s'" "gl_agrees s' t'" by (simp_all add: s')
qed

end

section \<open>Rows outside the accounts\<close>

text \<open>The inserted rows of a run, for the frame conditions of the operations.\<close>

lemma createTransaction_frame:
  assumes "createTransaction E row s = Inr (r, s')"
  shows "accounts s' = accounts s" "glAccounts s' = glAccounts s"
    "journalEntries s' = journalEntries s" "transactions s' = transactions s @ [r]"
    "r = row\<lparr>tx_id := uuid E (id_count s)\<rparr>"
    "\<And>x. x \<in> set (transactions s) \<Longrightarrow> tx_id x \<noteq> tx_id r"
    "\<And>x. x \<in> set (transactions s) \<Longrightarrow> tx_tenantId x = tx_tenantId row \<Longrightarrow>
       tx_reference x \<noteq> tx_reference row"
  using assms by (auto simp: createTransaction_Inr)

lemma createJournalEntry_frame:
  assumes "createJournalEntry E row s = Inr (r, s')"
  shows "accounts s' = accounts s" "glAccounts s' = glAccounts s"
    "transactions s' = transactions s" "journalEntries s' = journalEntries s @ [r]"
    "r = row\<lparr>je_id := uuid E (id_count s)\<rparr>"
    "\<And>x. x \<in> set (journalEntries s) \<Longrightarrow> je_id x \<noteq> je_id r"
  using assms by (auto simp: createJournalEntry_Inr)

lemma active_account_moveBalance:
  assumes "active_account (moveBalance k d s) t k' b" and "k \<noteq> k'"
  shows "active_account s t k' b"
  using assms by (auto simp: active_account_def moveBalance_def split: if_splits)

lemma setLinkedTransaction_simps [simp]:
  "accounts (setLinkedTransaction x y s) = accounts s"
  "glAccounts (setLinkedTransaction x y s) = glAccounts s"
  "journalEntries (setLinkedTransaction x y s) = journalEntries s"
  by (simp_all add: setLinkedTransaction_def)

lemma wf_transactions_map:
  assumes "\<And>t. tx_id (f t) = tx_id t" "\<And>t. tx_tenantId (f t) = tx_tenantId t"
    "\<And>t. tx_reference (f t) = tx_reference t" "\<And>t. tx_amount (f t) = tx_amount t"
    "\<And>t. tx_balanceBefore (f t) = tx_balanceBefore t"
    "\<And>t. tx_balanceAfter (f t) = tx_balanceAfter t"
  shows "wf_db (s\<lparr>transactions := map f (transactions s)\<rparr>) = wf_db s"
  using assms
  by (simp add: wf_db_def wf_accounts_def wf_gl_def wf_transactions_def wf_journal_def o_def)

lemma wf_setLinkedTransaction [simp]: "wf_db (setLinkedTransaction x y s) = wf_db s"
  unfolding setLinkedTransaction_def fst_updateMany by (rule wf_transactions_map) auto

lemma wf_markReversed [simp]: "wf_db (markReversed x s) = wf_db s"
  unfolding markReversed_def fst_updateMany by (rule wf_transactions_map) auto

lemma markReversed_simps [simp]:
  "accounts (markReversed x s) = accounts s" "glAccounts (markReversed x s) = glAccounts s"
  "journalEntries (markReversed x s) = journalEntries s"
  by (simp_all add: markReversed_def)

section \<open>Internal transfers\<close>

lemma transferFresh_steps:
  assumes "transferFresh E s t fromId toId amount ref u = Inr ((src, dst, e, r), s')"
  obtains fb fa fty tb ta tty s1 s2 s3 fromTx s4 dc cc d c where
    "applyBalanceChange E s t fromId amount DEBIT = Inr ((fb, fa, fty), s1)"
    "applyBalanceChange E s1 t toId amount CREDIT = Inr ((tb, ta, tty), s2)"
    "createTransaction E (transferLeg E t fromId amount (fb, fa, fty) (ref @ ''-SRC'') u None) s2 =
       Inr (fromTx, s3)"
    "createTransaction E (transferLeg E t toId amount (tb, ta, tty) (ref @ ''-DST'') u
       (Some (tx_id fromTx))) s3 = Inr (dst, s4)"
    "resolveGlCodes fty JournalEntryType.TRANSFER DEBIT (Some tty) = Inr (dc, cc)"
    "findGlAccountPair s4 t dc cc = Inr (d, c)"
    "createJournalEntry E (ledgerJournalEntry t (jeLedgerNumber ref) JournalEntryType.TRANSFER
       (tx_id fromTx) amount u d c) (setLinkedTransaction (tx_id fromTx) (tx_id dst) s4) = Inr (e, s')"
    "src = fromTx\<lparr>tx_linkedTransactionId := Some (tx_id dst)\<rparr>" "\<not> r"
proof -
  have "findGlAccountPair (setLinkedTransaction a b x) = findGlAccountPair x" for a b x
    by (rule findGlAccountPair_cong) simp
  with assms that show thesis
    by (auto simp: transferFresh_def res_simps Let_def)
qed

context decimal_runtime
begin

lemma transferLeg_m4:
  assumes "m4 amount" and "m4 (fst (snd ch))"
  shows "m4 (tx_amount (transferLeg E t k amount ch ref u l))"
    "m4 (tx_balanceBefore (transferLeg E t k amount ch ref u l))"
    "m4 (tx_balanceAfter (transferLeg E t k amount ch ref u l))"
  using assms by (simp_all add: transferLeg_def)

lemma balance_change_m4:
  assumes "applyBalanceChange E s t k amount dir = Inr ((bb, ba, ty), s')"
    and "wf_db s" and "m4 amount"
  shows "m4 ba"
  using balance_change [OF assms(1) wf_dbD(1) [OF assms(2)] assms(3)] by (metis money_m4)

text \<open>A transfer moves both balances, keeps the database well formed and posts one entry.\<close>

lemma transferFresh_effects:
  assumes run: "transferFresh E s t fromId toId amount ref u = Inr ((src, dst, e, r), s')"
    and wf: "wf_db s" and m: "m4 amount" and ne: "fromId \<noteq> toId"
  obtains a b where "active_account s t fromId a" "active_account s t toId b"
    "acc_lockedBalance a + acc_frozenSavings a \<le> acc_balance a - amount"
    "\<not> acc_allowsNegative a \<Longrightarrow> acc_minimumBalance a \<le> acc_balance a - amount"
    "accounts s' = accounts (moveBalance toId amount (moveBalance fromId (- amount) s))"
    "wf_db s'"
    "\<And>t' ty. gl_credit s' t' (memberDepositsCode ty) = gl_credit s t' (memberDepositsCode ty) +
       (if t' = t then (if ty = acc_accountType b then amount else 0) -
          (if ty = acc_accountType a then amount else 0) else 0)"
proof -
  from run obtain fb fa fty tb ta tty s1 s2 s3 fromTx s4 dc cc d c where
    b1: "applyBalanceChange E s t fromId amount DEBIT = Inr ((fb, fa, fty), s1)"
    and b2: "applyBalanceChange E s1 t toId amount CREDIT = Inr ((tb, ta, tty), s2)"
    and t1: "createTransaction E
      (transferLeg E t fromId amount (fb, fa, fty) (ref @ ''-SRC'') u None) s2 = Inr (fromTx, s3)"
    and t2: "createTransaction E (transferLeg E t toId amount (tb, ta, tty) (ref @ ''-DST'') u
       (Some (tx_id fromTx))) s3 = Inr (dst, s4)"
    and codes: "resolveGlCodes fty JournalEntryType.TRANSFER DEBIT (Some tty) = Inr (dc, cc)"
    and pair: "findGlAccountPair s4 t dc cc = Inr (d, c)"
    and je: "createJournalEntry E (ledgerJournalEntry t (jeLedgerNumber ref)
       JournalEntryType.TRANSFER (tx_id fromTx) amount u d c)
       (setLinkedTransaction (tx_id fromTx) (tx_id dst) s4) = Inr (e, s')"
    by (rule transferFresh_steps)
  note w1 = applyBalanceChange_wf [OF b1 wf m]
  note w2 = applyBalanceChange_wf [OF b2 w1 m]
  note w3 = createTransaction_wf [OF t1 w2 transferLeg_m4, OF m _ m _ m]
  note w4 = createTransaction_wf [OF t2 _ transferLeg_m4, OF _ m _ m _ m]
  have w4: "wf_db s4"
    using w3 w4 balance_change_m4 [OF b1 wf m] balance_change_m4 [OF b2 w1 m] by simp
  then have w': "wf_db s'"
    by (intro createJournalEntry_wf [OF je]) (use m in simp_all)
  obtain a where a: "active_account s t fromId a" "fty = acc_accountType a"
    "acc_lockedBalance a + acc_frozenSavings a \<le> acc_balance a - amount"
    "\<not> acc_allowsNegative a \<Longrightarrow> acc_minimumBalance a \<le> acc_balance a - amount"
    "s1 = moveBalance fromId (- amount) s"
    using balance_change [OF b1 wf_dbD(1) [OF wf] m] unfolding signed_def by (metis direction.distinct(1))
  obtain b where b: "active_account s1 t toId b" "tty = acc_accountType b"
    "s2 = moveBalance toId amount s1"
    using balance_change [OF b2 wf_dbD(1) [OF w1] m] unfolding signed_def by metis
  have b': "active_account s t toId b"
    using active_account_moveBalance b(1) ne unfolding a(5) by blast
  note fr = createTransaction_frame [OF t1] createTransaction_frame [OF t2]
    createJournalEntry_frame [OF je]
  have accs: "accounts s' = accounts (moveBalance toId amount (moveBalance fromId (- amount) s))"
    using fr by (simp add: a(5) b(3))
  have same: "glAccounts s4 = glAccounts s" "journalEntries s4 = journalEntries s"
    using fr by (simp_all add: a(5) b(3))
  let ?s4 = "setLinkedTransaction (tx_id fromTx) (tx_id dst) s4"
  have "findGlAccountPair ?s4 t dc cc = Inr (d, c)"
    using pair findGlAccountPair_cong [of ?s4 s4] by simp
  moreover have "wf_gl ?s4" using w4 wf_gl_cong [of ?s4 s4] by (simp add: wf_db_def)
  ultimately have "gl_credit s' t' code = gl_credit s t' code +
      (if t' = t then code_effect dc cc amount code else 0)" for t' code
    using gl_credit_ledger_entry [OF je] gl_credit_cong [of ?s4 s] same by simp
  then have "gl_credit s' t' (memberDepositsCode ty) = gl_credit s t' (memberDepositsCode ty) +
       (if t' = t then (if ty = acc_accountType b then amount else 0) -
          (if ty = acc_accountType a then amount else 0) else 0)" for t' ty
    by (simp add: resolveGlCodes_transfer_effect [OF codes] a(2) b(2))
  then show thesis using that a(1,3,4) b' accs w' by blast
qed

end

lemma deposits_two_moves:
  assumes "distinct (map acc_id (accounts s))" and "active_account s t k1 a" and "active_account s t k2 b"
    and "k1 \<noteq> k2"
  shows "deposits (moveBalance k2 d2 (moveBalance k1 d1 s)) t' ty = deposits s t' ty +
    (if t' = t then (if acc_accountType a = ty then d1 else 0) + (if acc_accountType b = ty then d2 else 0)
     else 0)"
proof -
  have "b \<in> set (accounts (moveBalance k1 d1 s))"
    using assms(3,4) by (force simp: active_account_def moveBalance_def)
  then show ?thesis
    using deposits_moveBalance [of "moveBalance k1 d1 s" b k2 d2] assms
      deposits_moveBalance [OF assms(1), of a k1 d1]
    by (simp add: active_account_def)
qed

context decimal_runtime
begin

lemma transferFresh_agrees:
  assumes run: "transferFresh E s t fromId toId amount ref u = Inr ((src, dst, e, r), s')"
    and wf: "wf_db s" and m: "m4 amount" and ne: "fromId \<noteq> toId" and ag: "gl_agrees s t'"
  shows "gl_agrees s' t'"
proof -
  from transferFresh_effects [OF run wf m ne] obtain a b where
    a: "active_account s t fromId a" and b: "active_account s t toId b"
    and acc: "accounts s' = accounts (moveBalance toId amount (moveBalance fromId (- amount) s))"
    and gl: "\<And>t' ty. gl_credit s' t' (memberDepositsCode ty) = gl_credit s t' (memberDepositsCode ty) +
       (if t' = t then (if ty = acc_accountType b then amount else 0) -
          (if ty = acc_accountType a then amount else 0) else 0)" by metis
  note d = wf_accountsD(1) [OF wf_dbD(1) [OF wf]]
  have "deposits s' t' ty = deposits s t' ty +
    (if t' = t then (if acc_accountType a = ty then - amount else 0) +
       (if acc_accountType b = ty then amount else 0) else 0)" for ty
    unfolding deposits_cong [OF acc] by (rule deposits_two_moves [OF d a b ne])
  then show ?thesis
    by (rule agreement_step [OF ag]) (auto simp: gl)
qed

lemma postInternalTransfer_cases:
  assumes "postInternalTransfer E s t fromId toId raw ref u = Inr ((src, dst, e), s')"
  obtains (fresh) s1 where "transactionByReference s t (ref @ ''-SRC'') = None" "fromId \<noteq> toId"
      "0 < dp4 E raw" "transferFresh E s t fromId toId (dp4 E raw) ref u = Inr ((src, dst, e, False), s1)"
      "s' = writeAudit t u ''LEDGER_POST_ENTRY'' (tx_id src) s1"
  | (replayed) "transactionByReference s t (ref @ ''-SRC'') = Some src" "s' = s" "fromId \<noteq> toId"
      "transactionByReference s t (ref @ ''-DST'') = Some dst"
      "entryForTransaction s t (tx_id src) = Some e"
proof -
  have "\<not> r" if "transferFresh E s t fromId toId (dp4 E raw) ref u = Inr ((x, y, z, r), s1)" for x y z r s1
    using that by (rule transferFresh_steps)
  then have "transferFresh E s t fromId toId (dp4 E raw) ref u \<noteq> Inr ((x, y, z, True), s1)" for x y z s1
    by blast
  with assms fresh replayed show thesis
    by (auto simp: postInternalTransfer_def res_simps Let_def split: option.splits if_splits)
qed

lemma postInternalTransfer_agrees:
  assumes run: "postInternalTransfer E s t fromId toId raw ref u = Inr ((src, dst, e), s')"
    and wf: "wf_db s" and ag: "gl_agrees s t'"
  shows "wf_db s'" and "gl_agrees s' t'"
proof -
  have "wf_db s' \<and> gl_agrees s' t'"
    using run
  proof (cases rule: postInternalTransfer_cases)
    case (fresh s1)
    from transferFresh_effects [OF fresh(4) wf m4_dp4 fresh(2)] have "wf_db s1" by metis
    moreover from transferFresh_agrees [OF fresh(4) wf m4_dp4 fresh(2) ag] have "gl_agrees s1 t'" .
    ultimately show ?thesis by (simp add: fresh(5))
  next
    case replayed
    with wf ag show ?thesis by simp
  qed
  then show "wf_db s'" "gl_agrees s' t'" by simp_all
qed

end

section \<open>Reversal\<close>

lemma reverseTransactionBody_steps:
  assumes "reverseTransactionBody E s t k u = Inr ((rv, e), s')"
  obtains orig oe q bb ba ty s1 s2 s3 where
    "findFirst (\<lambda>x. tx_id x = k \<and> tx_tenantId x = t) (transactions s) = Some orig"
    "tx_status orig \<noteq> TransactionStatus.REVERSED"
    "entryForTransaction s t (tx_id orig) = Some oe" "je_postings oe = [q]"
    "\<forall>j \<in> set (journalEntries s). je_tenantId j = t \<longrightarrow> je_reversalOfJournalEntryId j \<noteq> Some (je_id oe)"
    "applyBalanceChange E s t (tx_accountId orig) (tx_amount orig)
       (if tx_balanceBefore orig \<le> tx_balanceAfter orig then DEBIT else CREDIT) = Inr ((bb, ba, ty), s1)"
    "createTransaction E
       \<lparr>tx_id = '''', tx_tenantId = t, tx_accountId = tx_accountId orig, tx_loanId = None,
        tx_type = TransactionType.REVERSAL, tx_status = TransactionStatus.COMPLETED,
        tx_amount = tx_amount orig, tx_balanceBefore = dp4 E bb, tx_balanceAfter = ba,
        tx_reference = tx_reference orig @ ''-REVERSAL'', tx_processedBy = u,
        tx_linkedTransactionId = Some (tx_id orig)\<rparr> s1 = Inr (rv, s2)"
    "createJournalEntry E
       \<lparr>je_id = '''', je_tenantId = t, je_entryNumber = ''JE-REVERSAL-'' @ tx_reference orig,
        je_type = JournalEntryType.REVERSAL, je_status = JournalEntryStatus.POSTED,
        je_referenceType = Some ''TRANSACTION'', je_referenceId = Some (tx_id rv),
        je_totalAmount = je_totalAmount oe, je_createdById = u, je_approvedById = Some u,
        je_reversalOfJournalEntryId = Some (je_id oe),
        je_postings = [\<lparr>gp_debitAccountId = gp_creditAccountId q,
          gp_creditAccountId = gp_debitAccountId q, gp_amount = gp_amount q\<rparr>]\<rparr> s2 = Inr (e, s3)"
    "s' = markReversed (tx_id orig) s3"
  using assms
  by (auto simp: reverseTransactionBody_def res_simps Let_def table_simps length_Suc_conv)

text \<open>The entry of a row does to every deposit code what the row did to the balance.\<close>

definition entry_matches :: "db \<Rightarrow> AccountType \<Rightarrow> txn \<Rightarrow> journal_entry \<Rightarrow> bool" where
  "entry_matches s ty x j \<longleftrightarrow>
     entry_credit s (memberDepositsCode FOSA) j =
       (if ty = FOSA then tx_balanceAfter x - tx_balanceBefore x else 0) \<and>
     entry_credit s (memberDepositsCode BOSA) j =
       (if ty = BOSA then tx_balanceAfter x - tx_balanceBefore x else 0) \<and>
     \<bar>tx_balanceAfter x - tx_balanceBefore x\<bar> = tx_amount x"

lemma all_AccountType: "(\<forall>ty. P ty) \<longleftrightarrow> P FOSA \<and> P BOSA"
  by (metis (full_types) AccountType.exhaust)

lemma entry_matches_iff:
  "entry_matches s ty x j \<longleftrightarrow>
     (\<forall>ty'. entry_credit s (memberDepositsCode ty') j =
        (if ty = ty' then tx_balanceAfter x - tx_balanceBefore x else 0)) \<and>
     \<bar>tx_balanceAfter x - tx_balanceBefore x\<bar> = tx_amount x"
  unfolding entry_matches_def all_AccountType by blast

lemma entry_credit_swap:
  assumes "je_postings oe = [q]" and "je_postings e = [\<lparr>gp_debitAccountId = gp_creditAccountId q,
    gp_creditAccountId = gp_debitAccountId q, gp_amount = gp_amount q\<rparr>]"
  shows "entry_credit s code e = - entry_credit s code oe"
  using assms by (simp add: entry_credit_def posting_credit_def)

context decimal_runtime
begin

lemma reverse_effects:
  assumes run: "reverseTransactionBody E s t k u = Inr ((rv, e), s')" and wf: "wf_db s"
  obtains orig oe a dlt where
    "findFirst (\<lambda>x. tx_id x = k \<and> tx_tenantId x = t) (transactions s) = Some orig"
    "tx_status orig \<noteq> TransactionStatus.REVERSED" "entryForTransaction s t (tx_id orig) = Some oe"
    "active_account s t (tx_accountId orig) a"
    "dlt = (if tx_balanceBefore orig \<le> tx_balanceAfter orig then - tx_amount orig else tx_amount orig)"
    "accounts s' = accounts (moveBalance (tx_accountId orig) dlt s)" "wf_db s'"
    "\<forall>t' code. gl_credit s' t' code = gl_credit s t' code -
       (if t' = t then entry_credit s code oe else 0)"
proof -
  from run obtain orig oe q bb ba ty s1 s2 s3 where
    orig: "findFirst (\<lambda>x. tx_id x = k \<and> tx_tenantId x = t) (transactions s) = Some orig"
    and st: "tx_status orig \<noteq> TransactionStatus.REVERSED"
    and oe: "entryForTransaction s t (tx_id orig) = Some oe" and q: "je_postings oe = [q]"
    and bal: "applyBalanceChange E s t (tx_accountId orig) (tx_amount orig)
       (if tx_balanceBefore orig \<le> tx_balanceAfter orig then DEBIT else CREDIT) = Inr ((bb, ba, ty), s1)"
    and tx: "createTransaction E
       \<lparr>tx_id = '''', tx_tenantId = t, tx_accountId = tx_accountId orig, tx_loanId = None,
        tx_type = TransactionType.REVERSAL, tx_status = TransactionStatus.COMPLETED,
        tx_amount = tx_amount orig, tx_balanceBefore = dp4 E bb, tx_balanceAfter = ba,
        tx_reference = tx_reference orig @ ''-REVERSAL'', tx_processedBy = u,
        tx_linkedTransactionId = Some (tx_id orig)\<rparr> s1 = Inr (rv, s2)"
    and je: "createJournalEntry E
       \<lparr>je_id = '''', je_tenantId = t, je_entryNumber = ''JE-REVERSAL-'' @ tx_reference orig,
        je_type = JournalEntryType.REVERSAL, je_status = JournalEntryStatus.POSTED,
        je_referenceType = Some ''TRANSACTION'', je_referenceId = Some (tx_id rv),
        je_totalAmount = je_totalAmount oe, je_createdById = u, je_approvedById = Some u,
        je_reversalOfJournalEntryId = Some (je_id oe),
        je_postings = [\<lparr>gp_debitAccountId = gp_creditAccountId q,
          gp_creditAccountId = gp_debitAccountId q, gp_amount = gp_amount q\<rparr>]\<rparr> s2 = Inr (e, s3)"
    and s': "s' = markReversed (tx_id orig) s3"
    by (rule reverseTransactionBody_steps)
  let ?dir = "if tx_balanceBefore orig \<le> tx_balanceAfter orig then DEBIT else CREDIT"
  have m: "m4 (tx_amount orig)" and mq: "m4 (gp_amount q)"
    using wf findFirst_Some [OF orig] q findFirst_Some [OF oe [unfolded entryForTransaction_def]]
    by (auto simp: wf_db_def wf_transactions_def wf_journal_def dest!: money_m4)
  note w1 = applyBalanceChange_wf [OF bal wf m]
  have w2: "wf_db s2"
    by (rule createTransaction_wf [OF tx w1]) (use m balance_change_m4 [OF bal wf m] in simp_all)
  then have w: "wf_db s'" unfolding s' using createJournalEntry_wf [OF je] mq by simp
  obtain a where a: "active_account s t (tx_accountId orig) a"
    "s1 = moveBalance (tx_accountId orig) (signed ?dir (tx_amount orig)) s"
    using balance_change [OF bal wf_dbD(1) [OF wf] m] by metis
  note fr = createTransaction_frame [OF tx] createJournalEntry_frame [OF je]
  have gl: "gl_credit s' t' code = gl_credit s t' code - (if t' = t then entry_credit s code oe else 0)"
    for t' code
  proof -
    have "entry_credit s code e = - entry_credit s code oe"
      by (rule entry_credit_swap [OF q]) (simp add: fr)
    moreover have "glAccounts s' = glAccounts s" "journalEntries s' = journalEntries s @ [e]"
      "je_tenantId e = t" "je_status e = JournalEntryStatus.POSTED"
      by (simp_all add: s' a(2) fr)
    ultimately show ?thesis using gl_credit_append [of s' s e t' code] by simp
  qed
  show thesis
    by (rule that [OF orig st oe a(1) refl _ w]) (use gl in \<open>simp_all add: s' fr a(2) signed_def\<close>)
qed

lemma reverse_agrees:
  assumes run: "reverseTransactionBody E s t k u = Inr ((rv, e), s')" and wf: "wf_db s"
    and match: "\<And>x j a. findFirst (\<lambda>x. tx_id x = k \<and> tx_tenantId x = t) (transactions s) = Some x \<Longrightarrow>
      entryForTransaction s t k = Some j \<Longrightarrow> active_account s t (tx_accountId x) a \<Longrightarrow>
      entry_matches s (acc_accountType a) x j"
    and ag: "gl_agrees s t'"
  shows "gl_agrees s' t'"
proof -
  from run wf obtain orig oe a dlt where
    orig: "findFirst (\<lambda>x. tx_id x = k \<and> tx_tenantId x = t) (transactions s) = Some orig"
    and "tx_status orig \<noteq> TransactionStatus.REVERSED"
    and oe: "entryForTransaction s t (tx_id orig) = Some oe"
    and a: "active_account s t (tx_accountId orig) a"
    and dlt: "dlt = (if tx_balanceBefore orig \<le> tx_balanceAfter orig then - tx_amount orig
      else tx_amount orig)"
    and acc: "accounts s' = accounts (moveBalance (tx_accountId orig) dlt s)" and "wf_db s'"
    and gl: "\<forall>t' code. gl_credit s' t' code = gl_credit s t' code -
       (if t' = t then entry_credit s code oe else 0)" by (rule reverse_effects)
  have "tx_id orig = k" using findFirst_Some [OF orig] by simp
  then have mt: "entry_matches s (acc_accountType a) orig oe" using match [OF orig] oe a by simp
  then have d: "dlt = - (tx_balanceAfter orig - tx_balanceBefore orig)"
    by (auto simp: entry_matches_def dlt)
  have dep: "deposits s' t' ty = deposits s t' ty +
      (if acc_tenantId a = t' \<and> acc_accountType a = ty then dlt else 0)" for ty
    unfolding deposits_cong [OF acc]
    by (rule deposits_moveBalance [OF wf_accountsD(1) [OF wf_dbD(1) [OF wf]]])
      (use a in \<open>auto simp: active_account_def\<close>)
  show ?thesis
    by (rule agreement_step [OF ag dep])
      (use a mt in \<open>auto simp: gl active_account_def entry_matches_iff d\<close>)
qed

end

section \<open>Entries without an account\<close>

lemma postGlOnlyLegEntry_cases:
  assumes "postGlOnlyLegEntry E s t ref l raw debitCode txId actor jt = Inr ((e, r), s')"
  obtains (replayed) s0 where "s0 = s\<lparr>systemUserIdCache := systemUserIdCache s0\<rparr>" "s' = s0" "r"
      "findFirst (\<lambda>j. je_tenantId j = t \<and> je_entryNumber j = jeLedgerNumber ref) (journalEntries s) = Some e"
      "0 < dp4 E raw"
  | (fresh) s0 u d c where "s0 = s\<lparr>systemUserIdCache := systemUserIdCache s0\<rparr>" "\<not> r" "0 < dp4 E raw"
      "findGlAccountPair s0 t debitCode (legCreditCode l) = Inr (d, c)"
      "createJournalEntry E (ledgerJournalEntry t (jeLedgerNumber ref) jt txId (dp4 E raw) u d c) s0 =
         Inr (e, s')"
proof -
  from assms obtain u s0 where ra: "resolveActor s t actor = Inr (u, s0)" and pos: "0 < dp4 E raw"
    and rest: "(case findFirst (\<lambda>j. je_tenantId j = t \<and> je_entryNumber j = jeLedgerNumber ref)
        (journalEntries s0) of
        Some existing \<Rightarrow> Inr ((existing, True), s0)
      | None \<Rightarrow>
        rbind (findGlAccountPair s0 t debitCode (legCreditCode l)) (\<lambda>(d, c).
        rbind (createJournalEntry E (ledgerJournalEntry t (jeLedgerNumber ref) jt
            txId (dp4 E raw) u d c) s0) (\<lambda>(e, s1).
        Inr ((e, False), s1)))) = Inr ((e, r), s')"
    by (auto simp: postGlOnlyLegEntry_def res_simps Let_def)
  note s0 = resolveActor_Inr [OF ra]
  have je: "journalEntries s0 = journalEntries s" by (subst s0) simp
  show thesis
  proof (cases "findFirst (\<lambda>j. je_tenantId j = t \<and> je_entryNumber j = jeLedgerNumber ref)
      (journalEntries s)")
    case None
    with rest fresh [OF s0 _ pos] show thesis by (auto simp: je res_simps)
  next
    case (Some x)
    with rest replayed [OF s0 _ _ _ pos] show thesis by (auto simp: je)
  qed
qed

context decimal_runtime
begin

lemma postGlOnlyLegEntry_effects:
  assumes run: "postGlOnlyLegEntry E s t ref l raw debitCode txId actor jt = Inr ((e, r), s')"
    and wf: "wf_db s"
  shows "wf_db s'" "accounts s' = accounts s" "transactions s' = transactions s"
    "glAccounts s' = glAccounts s" "loans s' = loans s" "guarantors s' = guarantors s"
    "repayments s' = repayments s"
    "gl_credit s' t' code = gl_credit s t' code +
       (if r \<or> t' \<noteq> t then 0 else code_effect debitCode (legCreditCode l) (dp4 E raw) code)"
proof -
  have *: "wf_db s' \<and> accounts s' = accounts s \<and> transactions s' = transactions s \<and>
    glAccounts s' = glAccounts s \<and> loans s' = loans s \<and> guarantors s' = guarantors s \<and>
    repayments s' = repayments s \<and> gl_credit s' t' code = gl_credit s t' code +
       (if r \<or> t' \<noteq> t then 0 else code_effect debitCode (legCreditCode l) (dp4 E raw) code)"
    using run
  proof (cases rule: postGlOnlyLegEntry_cases)
    case (replayed s0)
    have same: "accounts s0 = accounts s" "transactions s0 = transactions s"
      "glAccounts s0 = glAccounts s" "journalEntries s0 = journalEntries s" "loans s0 = loans s"
      "guarantors s0 = guarantors s" "repayments s0 = repayments s" "wf_db s0"
      by (subst replayed(1), simp add: wf)+
    then show ?thesis using replayed gl_credit_cong [of s0 s t' code] by simp
  next
    case (fresh s0 u d c)
    have same: "accounts s0 = accounts s" "transactions s0 = transactions s"
      "glAccounts s0 = glAccounts s" "journalEntries s0 = journalEntries s" "loans s0 = loans s"
      "guarantors s0 = guarantors s" "repayments s0 = repayments s" "wf_db s0"
      by (subst fresh(1), simp add: wf)+
    have "wf_db s'"
      by (rule createJournalEntry_wf [OF fresh(5) same(8)]) (simp add: ledgerJournalEntry_def)
    moreover have "gl_credit s' t' code = gl_credit s0 t' code +
        (if t' = t then code_effect debitCode (legCreditCode l) (dp4 E raw) code else 0)"
      by (rule gl_credit_ledger_entry [OF fresh(5,4) wf_dbD(2) [OF same(8)]])
    ultimately show ?thesis
      using fresh(2,5) same gl_credit_cong [of s0 s t' code] by (auto simp: createJournalEntry_Inr)
  qed
  then show "wf_db s'" "accounts s' = accounts s" "transactions s' = transactions s"
    "glAccounts s' = glAccounts s" "loans s' = loans s" "guarantors s' = guarantors s"
    "repayments s' = repayments s"
    "gl_credit s' t' code = gl_credit s t' code +
       (if r \<or> t' \<noteq> t then 0 else code_effect debitCode (legCreditCode l) (dp4 E raw) code)"
    by simp_all
qed

text \<open>What a fresh entry writes, row by row.\<close>

lemma postEntry_fresh_rows:
  assumes run: "postEntry E inTx s p = Inr ((t, e), s')" and wf: "wf_db s"
    and new: "transactionByReference s (ep_tenantId p) (ep_reference p) = None"
  obtains a tt u where "active_account s (ep_tenantId p) (ep_accountId p) a"
    "tx_balanceBefore t = acc_balance a"
    "tx_balanceAfter t = acc_balance a + signed (ep_direction p) (dp4 E (ep_amount p))"
    "tx_amount t = dp4 E (ep_amount p)" "tx_accountId t = ep_accountId p"
    "tx_tenantId t = ep_tenantId p" "tx_reference t = ep_reference p"
    "JOURNAL_TO_TRANSACTION_TYPE (ep_journalType p) = Some tt" "tx_type t = tt"
    "tx_status t = TransactionStatus.COMPLETED"
    "ep_direction p = DEBIT \<Longrightarrow>
       acc_lockedBalance a + acc_frozenSavings a \<le> acc_balance a - dp4 E (ep_amount p)"
    "ep_direction p = DEBIT \<Longrightarrow> \<not> acc_allowsNegative a \<Longrightarrow>
       acc_minimumBalance a \<le> acc_balance a - dp4 E (ep_amount p)"
    "accounts s' = accounts (moveBalance (ep_accountId p)
       (signed (ep_direction p) (dp4 E (ep_amount p))) s)"
    "transactions s' = transactions s @ [t]" "journalEntries s' = journalEntries s @ [e]"
    "\<forall>x \<in> set (transactions s). tx_id x \<noteq> tx_id t"
    "je_tenantId e = ep_tenantId p" "je_referenceType e = Some ''TRANSACTION''"
    "je_referenceId e = Some (tx_id t)" "je_createdById e = u"
    "0 < dp4 E (ep_amount p)" "glAccounts s' = glAccounts s" "length (je_postings e) = 1"
    "\<forall>x \<in> set (journalEntries s). je_id x \<noteq> je_id e" "je_type e = ep_journalType p"
    "je_status e = JournalEntryStatus.POSTED"
proof -
  let ?m = "dp4 E (ep_amount p)"
  from run obtain u s0 s1 r where s0: "s0 = s\<lparr>systemUserIdCache := systemUserIdCache s0\<rparr>"
    and pos: "0 < ?m" and body: "postEntryBody E s0 p u ?m = Inr ((t, e, r), s1)"
    and s': "s' = (if \<not> r \<and> \<not> inTx
       then writeAudit (ep_tenantId p) u ''LEDGER_POST_ENTRY'' (tx_id t) s1 else s1)"
    by (rule postEntry_cases)
  have same: "accounts s0 = accounts s" "transactions s0 = transactions s"
    "glAccounts s0 = glAccounts s" "journalEntries s0 = journalEntries s" "wf_db s0"
    by (subst s0, simp add: wf)+
  have "\<not> r" using body new same by (cases r) (auto simp: transactionByReference_def dest: postEntryBody_replayed)
  with body have "postEntryBody E s0 p u ?m = Inr ((t, e, False), s1)" by simp
  then obtain bb ba ty s2 s3 tt dc cc d c where
    bal: "applyBalanceChange E s0 (ep_tenantId p) (ep_accountId p) ?m (ep_direction p) =
       Inr ((bb, ba, ty), s2)"
    and tt: "JOURNAL_TO_TRANSACTION_TYPE (ep_journalType p) = Some tt"
    and tx: "createTransaction E
       \<lparr>tx_id = '''', tx_tenantId = ep_tenantId p, tx_accountId = ep_accountId p,
        tx_loanId = ep_loanId p, tx_type = tt, tx_status = TransactionStatus.COMPLETED,
        tx_amount = ?m, tx_balanceBefore = dp4 E bb, tx_balanceAfter = ba,
        tx_reference = ep_reference p, tx_processedBy = u,
        tx_linkedTransactionId = ep_linkedTransactionId p\<rparr> s2 = Inr (t, s3)"
    and je: "createJournalEntry E (ledgerJournalEntry (ep_tenantId p) (jeLedgerNumber (ep_reference p))
       (ep_journalType p) (tx_id t) ?m u d c) s3 = Inr (e, s1)"
    by (rule postEntryBody_fresh)
  from balance_change [OF bal wf_dbD(1) [OF same(5)] m4_dp4] obtain a where
    a: "active_account s0 (ep_tenantId p) (ep_accountId p) a" "bb = acc_balance a"
      "ba = acc_balance a + signed (ep_direction p) ?m"
      "ep_direction p = DEBIT \<Longrightarrow> acc_lockedBalance a + acc_frozenSavings a \<le> acc_balance a - ?m"
      "ep_direction p = DEBIT \<Longrightarrow> \<not> acc_allowsNegative a \<Longrightarrow> acc_minimumBalance a \<le> acc_balance a - ?m"
      "s2 = moveBalance (ep_accountId p) (signed (ep_direction p) ?m) s0" "money (acc_balance a)"
    by metis
  have act: "active_account s (ep_tenantId p) (ep_accountId p) a"
    using a(1) same by (simp add: active_account_def)
  have accs: "accounts s' = accounts (moveBalance (ep_accountId p) (signed (ep_direction p) ?m) s)"
    using tx je a(6) same by (simp add: s' createTransaction_Inr createJournalEntry_Inr writeAudit_def
        moveBalance_def)
  note fr = createTransaction_frame [OF tx] createJournalEntry_frame [OF je]
  show thesis
    by (rule that [OF act, where tt = tt and u = u])
      (use tt pos a(4,5) accs fr money_m4 [OF a(7)] same in
        \<open>auto simp: a(2,3,6) s' writeAudit_def ledgerJournalEntry_def\<close>)
qed

end

lemma reverseTransaction_cases:
  assumes "reverseTransaction E inTx s t k actor = Inr ((rv, e), s')"
  obtains s0 s1 u where "s0 = s\<lparr>systemUserIdCache := systemUserIdCache s0\<rparr>"
    "reverseTransactionBody E s0 t k u = Inr ((rv, e), s1)"
    "s' = (if \<not> inTx then writeAudit t u ''LEDGER_REVERSE_TRANSACTION'' (tx_id rv) s1 else s1)"
  using assms by (auto simp: reverseTransaction_def res_simps Let_def dest: resolveActor_Inr)

lemma cache_same:
  assumes "s0 = s\<lparr>systemUserIdCache := c\<rparr>"
  shows "accounts s0 = accounts s" "transactions s0 = transactions s" "glAccounts s0 = glAccounts s"
    "journalEntries s0 = journalEntries s" "wf_db s0 = wf_db s" "gl_agrees s0 t = gl_agrees s t"
    "gl_credit s0 t code = gl_credit s t code" "entry_credit s0 = entry_credit s"
    "active_account s0 = active_account s" "transactionByReference s0 = transactionByReference s"
    "entryForTransaction s0 = entryForTransaction s" "entry_matches s0 = entry_matches s"
  using assms entry_credit_cong [of s0 s] gl_credit_cong [of s0 s]
  by (simp_all add: active_account_def transactionByReference_def entryForTransaction_def
      entry_matches_def fun_eq_iff)

lemma moveBalance_back:
  "map acc_balance (accounts (moveBalance k (- d) (moveBalance k d s))) = map acc_balance (accounts s)"
  by (simp add: moveBalance_def)

lemma moveBalance_cong: "accounts s = accounts s' \<Longrightarrow> accounts (moveBalance k d s) = accounts (moveBalance k d s')"
  by (simp add: moveBalance_def)

text \<open>The balances and codes after a posting and its reversal.\<close>

context decimal_runtime
begin

lemma reverse_undoes:
  assumes wf: "wf_db s" "wf_db s1"
    and acc: "accounts s1 = accounts (moveBalance k d s)"
    and txs: "transactions s1 = transactions s @ [t]" "\<forall>x \<in> set (transactions s). tx_id x \<noteq> tx_id t"
    and row: "tx_accountId t = k" "tx_balanceAfter t = tx_balanceBefore t + d" "tx_amount t = \<bar>d\<bar>" "d \<noteq> 0"
    and jes: "journalEntries s1 = journalEntries s @ [e]" "glAccounts s1 = glAccounts s"
      "je_tenantId e = tn" "je_status e = JournalEntryStatus.POSTED"
      "je_referenceType e = Some ''TRANSACTION''" "je_referenceId e = Some (tx_id t)"
      "\<forall>x \<in> set (journalEntries s). je_referenceId x \<noteq> Some (tx_id t)"
    and run: "reverseTransaction E inTx s1 tn (tx_id t) actor = Inr ((rv, re), s2)"
  shows "map acc_balance (accounts s2) = map acc_balance (accounts s)"
    and "gl_credit s2 tenant code = gl_credit s tenant code"
proof -
  from run obtain s0 s3 u where s0: "s0 = s1\<lparr>systemUserIdCache := systemUserIdCache s0\<rparr>"
    and body: "reverseTransactionBody E s0 tn (tx_id t) u = Inr ((rv, re), s3)"
    and s2: "s2 = (if \<not> inTx then writeAudit tn u ''LEDGER_REVERSE_TRANSACTION'' (tx_id rv) s3 else s3)"
    by (rule reverseTransaction_cases)
  note same = cache_same [OF s0]
  have "wf_db s0" using wf same by simp
  with body obtain orig oe a dlt where
    orig: "findFirst (\<lambda>x. tx_id x = tx_id t \<and> tx_tenantId x = tn) (transactions s0) = Some orig"
    and "tx_status orig \<noteq> TransactionStatus.REVERSED"
    and oe: "entryForTransaction s0 tn (tx_id orig) = Some oe"
    and "active_account s0 tn (tx_accountId orig) a"
    and dlt: "dlt = (if tx_balanceBefore orig \<le> tx_balanceAfter orig then - tx_amount orig
      else tx_amount orig)"
    and acc3: "accounts s3 = accounts (moveBalance (tx_accountId orig) dlt s0)" and "wf_db s3"
    and gl: "\<forall>t' code. gl_credit s3 t' code = gl_credit s0 t' code -
       (if t' = tn then entry_credit s0 code oe else 0)" by (rule reverse_effects)
  have o: "orig = t"
    using findFirst_Some [OF orig] txs same by auto
  have "findFirst (\<lambda>j. je_tenantId j = tn \<and> je_referenceType j = Some ''TRANSACTION'' \<and>
      je_referenceId j = Some (tx_id t)) (journalEntries s) = None"
    using jes(7) by (auto simp: table_simps)
  then have j: "oe = e"
    using oe jes by (simp add: o same entryForTransaction_def findFirst_append)
  have "dlt = - d" using row by (auto simp: dlt o)
  then have "accounts s3 = accounts (moveBalance k (- d) (moveBalance k d s))"
    using acc3 moveBalance_cong [of s0 "moveBalance k d s"] acc same row(1) by (simp add: o)
  then show "map acc_balance (accounts s2) = map acc_balance (accounts s)"
    using moveBalance_back [of k d s] by (simp add: s2 writeAudit_def)
  have "gl_credit s1 tenant code = gl_credit s tenant code +
      (if tn = tenant then entry_credit s code e else 0)"
    using gl_credit_append [OF jes(2,1), of tenant code] jes(3,4) by simp
  moreover have "gl_credit s2 tenant code = gl_credit s3 tenant code"
    by (rule gl_credit_cong) (simp_all add: s2 writeAudit_def)
  ultimately show "gl_credit s2 tenant code = gl_credit s tenant code"
    using gl same entry_credit_cong [OF jes(2)] by (simp add: j)
qed

lemma postEntry_reverse:
  assumes wf: "wf_db s" and run: "postEntry E inTx s p = Inr ((t, e), s1)"
    and new: "transactionByReference s (ep_tenantId p) (ep_reference p) = None"
    and ref: "\<forall>x \<in> set (journalEntries s). je_referenceId x \<noteq> Some (tx_id t)"
    and rev: "reverseTransaction E inTx' s1 (ep_tenantId p) (tx_id t) actor = Inr ((rv, re), s2)"
  shows "map acc_balance (accounts s2) = map acc_balance (accounts s)"
    and "gl_credit s2 tenant code = gl_credit s tenant code"
proof -
  have "map acc_balance (accounts s2) = map acc_balance (accounts s) \<and>
    gl_credit s2 tenant code = gl_credit s tenant code"
  proof (rule postEntry_fresh_rows [OF run wf new])
    fix a tt u
    let ?d = "signed (ep_direction p) (dp4 E (ep_amount p))"
    assume r: "tx_balanceBefore t = acc_balance a" "tx_balanceAfter t = acc_balance a + ?d"
      "tx_amount t = dp4 E (ep_amount p)" "tx_accountId t = ep_accountId p"
      "accounts s1 = accounts (moveBalance (ep_accountId p) ?d s)"
      "transactions s1 = transactions s @ [t]" "journalEntries s1 = journalEntries s @ [e]"
      "\<forall>x \<in> set (transactions s). tx_id x \<noteq> tx_id t"
      "je_tenantId e = ep_tenantId p" "je_referenceType e = Some ''TRANSACTION''"
      "je_referenceId e = Some (tx_id t)" "0 < dp4 E (ep_amount p)" "glAccounts s1 = glAccounts s"
      "je_status e = JournalEntryStatus.POSTED"
    have d: "tx_balanceAfter t = tx_balanceBefore t + ?d" "tx_amount t = \<bar>?d\<bar>" "?d \<noteq> 0"
      using r by (simp_all add: signed_def)
    have "wf_db s1"
    proof -
      from run obtain u s0 s3 r where s0: "s0 = s\<lparr>systemUserIdCache := systemUserIdCache s0\<rparr>"
        and "0 < dp4 E (ep_amount p)"
        and body: "postEntryBody E s0 p u (dp4 E (ep_amount p)) = Inr ((t, e, r), s3)"
        and s1: "s1 = (if \<not> r \<and> \<not> inTx
          then writeAudit (ep_tenantId p) u ''LEDGER_POST_ENTRY'' (tx_id t) s3 else s3)"
        by (rule postEntry_cases)
      have "wf_db s0" using wf cache_same(5) [OF s0] by simp
      then show ?thesis using postEntryBody_wf [OF body] by (simp add: s1)
    qed
    note undo = reverse_undoes [OF wf this r(5,6,8,4) d r(7,13,9,14,10,11) ref rev]
    show "map acc_balance (accounts s2) = map acc_balance (accounts s) \<and>
      gl_credit s2 tenant code = gl_credit s tenant code"
      using undo by blast
  qed
  then show "map acc_balance (accounts s2) = map acc_balance (accounts s)"
    "gl_credit s2 tenant code = gl_credit s tenant code" by simp_all
qed

end

lemma applyBalanceChange_frame:
  assumes "applyBalanceChange E s t k amount dir = Inr (r, s')"
  shows "transactions s' = transactions s"
  using assms
  by (auto simp: applyBalanceChange_def updateMany_def Let_def res_simps split: option.splits if_splits)

text \<open>A reversed row is never reversed again.\<close>

lemma reverse_marks:
  assumes run: "reverseTransaction E inTx s t k actor = Inr (rv, s')"
  shows "reverseTransaction E inTx' s' t k (Some v) =
    Inl (ConflictException ''Transaction has already been reversed'')"
proof -
  obtain r e where rv: "rv = (r, e)" by (cases rv)
  from run [unfolded rv] obtain s0 s1 u where s0: "s0 = s\<lparr>systemUserIdCache := systemUserIdCache s0\<rparr>"
    and body: "reverseTransactionBody E s0 t k u = Inr ((r, e), s1)"
    and s': "s' = (if \<not> inTx then writeAudit t u ''LEDGER_REVERSE_TRANSACTION'' (tx_id r) s1 else s1)"
    by (rule reverseTransaction_cases)
  obtain orig s3 where
    orig: "findFirst (\<lambda>x. tx_id x = k \<and> tx_tenantId x = t) (transactions s0) = Some orig"
    and tr: "transactions s3 = transactions s0 @ [r]" and s1: "s1 = markReversed (tx_id orig) s3"
  proof (rule reverseTransactionBody_steps [OF body])
    fix orig oe q bb ba ty s4 s5 s6
    assume "findFirst (\<lambda>x. tx_id x = k \<and> tx_tenantId x = t) (transactions s0) = Some orig"
      and "s1 = markReversed (tx_id orig) s6"
      and bal: "applyBalanceChange E s0 t (tx_accountId orig) (tx_amount orig)
       (if tx_balanceBefore orig \<le> tx_balanceAfter orig then DEBIT else CREDIT) = Inr ((bb, ba, ty), s4)"
      and tx: "createTransaction E
       \<lparr>tx_id = '''', tx_tenantId = t, tx_accountId = tx_accountId orig, tx_loanId = None,
        tx_type = TransactionType.REVERSAL, tx_status = TransactionStatus.COMPLETED,
        tx_amount = tx_amount orig, tx_balanceBefore = dp4 E bb, tx_balanceAfter = ba,
        tx_reference = tx_reference orig @ ''-REVERSAL'', tx_processedBy = u,
        tx_linkedTransactionId = Some (tx_id orig)\<rparr> s4 = Inr (r, s5)"
      and je: "createJournalEntry E
       \<lparr>je_id = '''', je_tenantId = t, je_entryNumber = ''JE-REVERSAL-'' @ tx_reference orig,
        je_type = JournalEntryType.REVERSAL, je_status = JournalEntryStatus.POSTED,
        je_referenceType = Some ''TRANSACTION'', je_referenceId = Some (tx_id r),
        je_totalAmount = je_totalAmount oe, je_createdById = u, je_approvedById = Some u,
        je_reversalOfJournalEntryId = Some (je_id oe),
        je_postings = [\<lparr>gp_debitAccountId = gp_creditAccountId q,
          gp_creditAccountId = gp_debitAccountId q, gp_amount = gp_amount q\<rparr>]\<rparr> s5 = Inr (e, s6)"
    moreover have "transactions s6 = transactions s0 @ [r]"
      using createJournalEntry_frame(3) [OF je] createTransaction_frame(4) [OF tx]
        applyBalanceChange_frame [OF bal] by simp
    ultimately show thesis using that by blast
  qed
  have mark: "findFirst P (map (\<lambda>x. if Q x then f x else x) rows) = Some (f x)"
    if "findFirst P rows = Some x" "Q x" "\<And>x. P (f x) = P x" for P Q f rows and x :: txn
    using that by (induction rows) (auto split: if_splits)
  have "findFirst (\<lambda>x. tx_id x = k \<and> tx_tenantId x = t) (transactions s3) = Some orig"
    using orig by (simp add: tr findFirst_append)
  then have "findFirst (\<lambda>x. tx_id x = k \<and> tx_tenantId x = t) (transactions s1) =
      Some (orig\<lparr>tx_status := TransactionStatus.REVERSED\<rparr>)"
    unfolding s1 markReversed_def fst_updateMany using mark by simp
  then have "findFirst (\<lambda>x. tx_id x = k \<and> tx_tenantId x = t) (transactions s') =
      Some (orig\<lparr>tx_status := TransactionStatus.REVERSED\<rparr>)"
    by (simp add: s' writeAudit_def)
  then show ?thesis
    by (simp add: reverseTransaction_def reverseTransactionBody_def resolveActor_def)
qed

section \<open>What the ledger never touches\<close>

text \<open>The tables of the loan services, and the configuration tables, are the same before and after.\<close>

definition ledger_only :: "db \<Rightarrow> db \<Rightarrow> bool" where
  "ledger_only s s' \<longleftrightarrow> loans s' = loans s \<and> guarantors s' = guarantors s \<and>
     repayments s' = repayments s \<and> approvalChains s' = approvalChains s \<and>
     mpesaTransactions s' = mpesaTransactions s \<and> delayedJobs s' = delayedJobs s \<and>
     members s' = members s \<and> loanProducts s' = loanProducts s \<and> users s' = users s \<and>
     glAccounts s' = glAccounts s \<and> payoutIntents s' = payoutIntents s \<and> payoutQueue s' = payoutQueue s \<and>
     timeoutQueue s' = timeoutQueue s \<and> callbackInbox s' = callbackInbox s \<and> callbackQueue s' = callbackQueue s \<and>
     reconAttempts s' = reconAttempts s \<and> providerOrders s' = providerOrders s"

lemma ledger_only_refl [simp]: "ledger_only s s"
  by (simp add: ledger_only_def)

lemma ledger_only_trans: "ledger_only s s' \<Longrightarrow> ledger_only s' s'' \<Longrightarrow> ledger_only s s''"
  by (simp add: ledger_only_def)

lemma ledger_only_writeAudit [simp]: "ledger_only s (writeAudit t a c e s') = ledger_only s s'"
  by (simp add: ledger_only_def writeAudit_def)

lemma ledger_only_applyBalanceChange:
  "applyBalanceChange E s t k amount dir = Inr (r, s') \<Longrightarrow> ledger_only s s'"
  by (auto simp: applyBalanceChange_def updateMany_def Let_def res_simps ledger_only_def
      split: option.splits if_splits)

lemma ledger_only_createTransaction: "createTransaction E row s = Inr (r, s') \<Longrightarrow> ledger_only s s'"
  by (auto simp: createTransaction_Inr ledger_only_def)

lemma ledger_only_createJournalEntry: "createJournalEntry E row s = Inr (r, s') \<Longrightarrow> ledger_only s s'"
  by (auto simp: createJournalEntry_Inr ledger_only_def)

lemma ledger_only_resolveActor: "resolveActor s t a = Inr (u, s') \<Longrightarrow> ledger_only s s'"
  by (auto simp: resolveActor_def resolveSystemActorId_def ledger_only_def split: option.splits)

lemmas ledger_only_steps = ledger_only_applyBalanceChange ledger_only_createTransaction
  ledger_only_createJournalEntry ledger_only_resolveActor

lemma ledger_only_postEntryBody:
  assumes "postEntryBody E s p u amount = Inr ((t, e, r), s')"
  shows "ledger_only s s'"
proof (cases r)
  case True
  with assms show ?thesis by (auto dest: postEntryBody_replayed)
next
  case False
  with assms have "postEntryBody E s p u amount = Inr ((t, e, False), s')" by simp
  then show ?thesis
    by (rule postEntryBody_fresh) (blast intro: ledger_only_trans ledger_only_steps)
qed

lemma ledger_only_postEntry:
  assumes "postEntry E inTx s p = Inr ((t, e), s')"
  shows "ledger_only s s'"
proof -
  from assms obtain u s0 s1 r where s0: "s0 = s\<lparr>systemUserIdCache := systemUserIdCache s0\<rparr>"
    and "0 < dp4 E (ep_amount p)"
    and body: "postEntryBody E s0 p u (dp4 E (ep_amount p)) = Inr ((t, e, r), s1)"
    and s': "s' = (if \<not> r \<and> \<not> inTx
       then writeAudit (ep_tenantId p) u ''LEDGER_POST_ENTRY'' (tx_id t) s1 else s1)"
    by (rule postEntry_cases)
  have "ledger_only s s0" by (subst s0) (simp add: ledger_only_def)
  then have "ledger_only s s1" using ledger_only_postEntryBody [OF body] by (rule ledger_only_trans)
  then show ?thesis by (simp add: s')
qed

lemma ledger_only_postGlOnlyLegEntry:
  assumes "postGlOnlyLegEntry E s t ref l raw debitCode txId actor jt = Inr ((e, r), s')"
  shows "ledger_only s s'"
  using assms
proof (cases rule: postGlOnlyLegEntry_cases)
  case (replayed s0)
  have "ledger_only s s0" by (subst replayed(1)) (simp add: ledger_only_def)
  with replayed(2) show ?thesis by simp
next
  case (fresh s0 u d c)
  have "ledger_only s s0" by (subst fresh(1)) (simp add: ledger_only_def)
  then show ?thesis using ledger_only_createJournalEntry [OF fresh(5)] by (rule ledger_only_trans)
qed

text \<open>What a posting and a reversal do to the table of transactions.\<close>

lemma createTransaction_row:
  assumes "createTransaction E row s = Inr (r, s')"
  shows "transactions s' = transactions s @ [r]" "tx_id r \<notin> tx_id ` set (transactions s)"
    "\<forall>x \<in> set (transactions s). \<not> (tx_tenantId x = tx_tenantId row \<and> tx_reference x = tx_reference row)"
    "tx_tenantId r = tx_tenantId row" "tx_reference r = tx_reference row" "tx_status r = tx_status row"
  using assms by (auto simp: createTransaction_Inr)

lemma postEntry_transactions:
  assumes run: "postEntry E inTx s p = Inr ((t, e), s')"
  shows "t \<in> set (transactions s) \<and> transactions s' = transactions s \<or>
    transactions s' = transactions s @ [t] \<and> tx_id t \<notin> tx_id ` set (transactions s) \<and>
    tx_status t = TransactionStatus.COMPLETED"
    and "tx_tenantId t = ep_tenantId p" "tx_reference t = ep_reference p"
proof -
  from run obtain u s0 s1 r where s0: "s0 = s\<lparr>systemUserIdCache := systemUserIdCache s0\<rparr>"
    and "0 < dp4 E (ep_amount p)"
    and body: "postEntryBody E s0 p u (dp4 E (ep_amount p)) = Inr ((t, e, r), s1)"
    and s': "s' = (if \<not> r \<and> \<not> inTx
      then writeAudit (ep_tenantId p) u ''LEDGER_POST_ENTRY'' (tx_id t) s1 else s1)"
    by (rule postEntry_cases)
  have tr: "transactions s0 = transactions s" "transactions s' = transactions s1"
    by (subst s0) (simp_all add: s' writeAudit_def)
  have "(t \<in> set (transactions s) \<and> transactions s' = transactions s \<or>
      transactions s' = transactions s @ [t] \<and> tx_id t \<notin> tx_id ` set (transactions s) \<and>
      tx_status t = TransactionStatus.COMPLETED) \<and> tx_tenantId t = ep_tenantId p \<and> tx_reference t = ep_reference p"
  proof (cases r)
    case True
    with body have "s1 = s0" "transactionByReference s0 (ep_tenantId p) (ep_reference p) = Some t"
      by (auto dest: postEntryBody_replayed)
    then show ?thesis using tr by (auto simp: transactionByReference_def dest: findFirst_Some)
  next
    case False
    with body have "postEntryBody E s0 p u (dp4 E (ep_amount p)) = Inr ((t, e, False), s1)" by simp
    then show ?thesis
      by (rule postEntryBody_fresh)
        (drule applyBalanceChange_frame, auto simp: createTransaction_Inr createJournalEntry_Inr tr)
  qed
  then show "t \<in> set (transactions s) \<and> transactions s' = transactions s \<or>
    transactions s' = transactions s @ [t] \<and> tx_id t \<notin> tx_id ` set (transactions s) \<and>
    tx_status t = TransactionStatus.COMPLETED" "tx_tenantId t = ep_tenantId p" "tx_reference t = ep_reference p"
    by blast+
qed

text \<open>A reference that exists is answered with its row, and no table of the books changes.\<close>

lemma postEntry_repeated:
  assumes run: "postEntry E inTx s p = Inr ((t, e), s')"
    and old: "transactionByReference s (ep_tenantId p) (ep_reference p) = Some x"
  shows "accounts s' = accounts s \<and> transactions s' = transactions s \<and> journalEntries s' = journalEntries s \<and>
    mpesaTransactions s' = mpesaTransactions s \<and> t = x"
proof -
  from run obtain u s0 s1 r where s0: "s0 = s\<lparr>systemUserIdCache := systemUserIdCache s0\<rparr>"
    and body: "postEntryBody E s0 p u (dp4 E (ep_amount p)) = Inr ((t, e, r), s1)"
    and s': "s' = (if \<not> r \<and> \<not> inTx then writeAudit (ep_tenantId p) u ''LEDGER_POST_ENTRY'' (tx_id t) s1 else s1)"
    by (rule postEntry_cases)
  have old0: "transactionByReference s0 (ep_tenantId p) (ep_reference p) = Some x"
    using old cache_same(10) [OF s0] by simp
  have r: r
  proof (rule ccontr)
    assume "\<not> r"
    with body have "postEntryBody E s0 p u (dp4 E (ep_amount p)) = Inr ((t, e, False), s1)" by simp
    then show False by (rule postEntryBody_fresh) (simp add: old0)
  qed
  with body have b: "postEntryBody E s0 p u (dp4 E (ep_amount p)) = Inr ((t, e, True), s1)" by simp
  have "mpesaTransactions s0 = mpesaTransactions s" by (subst s0) simp
  with postEntryBody_replayed [OF b] old0 r cache_same(1,2,4) [OF s0] show ?thesis by (simp add: s')
qed

lemma reverse_transactions:
  assumes run: "reverseTransaction E inTx s t k actor = Inr ((rv, e), s')"
  obtains orig where "orig \<in> set (transactions s)" "tx_id orig = k" "tx_tenantId orig = t"
    "tx_status orig \<noteq> TransactionStatus.REVERSED"
    "transactions s' = map (\<lambda>x. if tx_id x = k then x\<lparr>tx_status := TransactionStatus.REVERSED\<rparr> else x)
       (transactions s) @ [rv]"
    "tx_id rv \<notin> tx_id ` set (transactions s)" "tx_tenantId rv = t"
    "tx_reference rv = tx_reference orig @ ''-REVERSAL''" "tx_status rv = TransactionStatus.COMPLETED"
    "ledger_only s s'"
proof -
  from run obtain s0 s1 u where s0: "s0 = s\<lparr>systemUserIdCache := systemUserIdCache s0\<rparr>"
    and body: "reverseTransactionBody E s0 t k u = Inr ((rv, e), s1)"
    and s': "s' = (if \<not> inTx then writeAudit t u ''LEDGER_REVERSE_TRANSACTION'' (tx_id rv) s1 else s1)"
    by (rule reverseTransaction_cases)
  have tr: "transactions s0 = transactions s" "transactions s' = transactions s1"
    by (subst s0) (simp_all add: s' writeAudit_def)
  have lo: "ledger_only s s0" by (subst s0) (simp add: ledger_only_def)
  from body show thesis
  proof (rule reverseTransactionBody_steps)
    fix orig oe q bb ba ty s4 s5 s6
    assume orig: "findFirst (\<lambda>x. tx_id x = k \<and> tx_tenantId x = t) (transactions s0) = Some orig"
      and st: "tx_status orig \<noteq> TransactionStatus.REVERSED"
      and bal: "applyBalanceChange E s0 t (tx_accountId orig) (tx_amount orig)
       (if tx_balanceBefore orig \<le> tx_balanceAfter orig then DEBIT else CREDIT) = Inr ((bb, ba, ty), s4)"
      and tx: "createTransaction E
       \<lparr>tx_id = '''', tx_tenantId = t, tx_accountId = tx_accountId orig, tx_loanId = None,
        tx_type = TransactionType.REVERSAL, tx_status = TransactionStatus.COMPLETED,
        tx_amount = tx_amount orig, tx_balanceBefore = dp4 E bb, tx_balanceAfter = ba,
        tx_reference = tx_reference orig @ ''-REVERSAL'', tx_processedBy = u,
        tx_linkedTransactionId = Some (tx_id orig)\<rparr> s4 = Inr (rv, s5)"
      and je: "createJournalEntry E
       \<lparr>je_id = '''', je_tenantId = t, je_entryNumber = ''JE-REVERSAL-'' @ tx_reference orig,
        je_type = JournalEntryType.REVERSAL, je_status = JournalEntryStatus.POSTED,
        je_referenceType = Some ''TRANSACTION'', je_referenceId = Some (tx_id rv),
        je_totalAmount = je_totalAmount oe, je_createdById = u, je_approvedById = Some u,
        je_reversalOfJournalEntryId = Some (je_id oe),
        je_postings = [\<lparr>gp_debitAccountId = gp_creditAccountId q,
          gp_creditAccountId = gp_debitAccountId q, gp_amount = gp_amount q\<rparr>]\<rparr> s5 = Inr (e, s6)"
      and s1: "s1 = markReversed (tx_id orig) s6"
    note o = findFirst_Some [OF orig]
    have six: "transactions s6 = transactions s @ [rv]" "tx_id rv \<notin> tx_id ` set (transactions s)"
      using createTransaction_row(1,2) [OF tx] createJournalEntry_frame [OF je] applyBalanceChange_frame [OF bal] tr by auto
    have "tx_id rv \<noteq> k" using o six(2) tr by auto
    then have "transactions s' = map (\<lambda>x. if tx_id x = k then x\<lparr>tx_status := TransactionStatus.REVERSED\<rparr> else x)
       (transactions s) @ [rv]"
      using o six(1) by (simp add: tr(2) s1 markReversed_def)
    moreover have "ledger_only s s'"
    proof -
      have "ledger_only s0 s6"
        using ledger_only_applyBalanceChange [OF bal] ledger_only_createTransaction [OF tx]
          ledger_only_createJournalEntry [OF je] by (blast intro: ledger_only_trans)
      then have "ledger_only s0 s'" by (simp add: s' s1 markReversed_def ledger_only_def writeAudit_def)
      with lo show ?thesis by (rule ledger_only_trans)
    qed
    ultimately show thesis
      using that [of orig] o st six(2) tr createTransaction_row(4-6) [OF tx] by simp
  qed
qed

section \<open>A posting in one lemma\<close>

context decimal_runtime
begin

lemma postEntry_wf:
  assumes run: "postEntry E inTx s p = Inr ((t, e), s')" and wf: "wf_db s"
  shows "wf_db s'"
proof -
  from run obtain u s0 s1 r where s0: "s0 = s\<lparr>systemUserIdCache := systemUserIdCache s0\<rparr>"
    and body: "postEntryBody E s0 p u (dp4 E (ep_amount p)) = Inr ((t, e, r), s1)"
    and s': "s' = (if \<not> r \<and> \<not> inTx
      then writeAudit (ep_tenantId p) u ''LEDGER_POST_ENTRY'' (tx_id t) s1 else s1)"
    by (rule postEntry_cases)
  have "wf_db s0" using wf cache_same(5) [OF s0] by simp
  from postEntryBody_wf [OF body this] show ?thesis by (simp add: s')
qed

text \<open>What the clients of \<open>postEntry\<close> use of a fresh posting.\<close>

lemma posted:
  assumes run: "postEntry E inTx s p = Inr ((t, e), s')" and wf: "wf_db s"
    and new: "transactionByReference s (ep_tenantId p) (ep_reference p) = None"
    and fits: "direction_fits (ep_journalType p) (ep_direction p)"
  obtains a where "wf_db s'" "ledger_only s s'" "\<And>x. gl_agrees s x \<Longrightarrow> gl_agrees s' x"
    "accounts s' = accounts (moveBalance (ep_accountId p) (signed (ep_direction p) (dp4 E (ep_amount p))) s)"
    "transactions s' = transactions s @ [t]" "tx_tenantId t = ep_tenantId p" "tx_reference t = ep_reference p"
    "active_account s (ep_tenantId p) (ep_accountId p) a"
    "tx_balanceAfter t = acc_balance a + signed (ep_direction p) (dp4 E (ep_amount p))"
  by (rule postEntry_fresh_rows [OF run wf new])
    (blast intro: that postEntry_wf [OF run wf] ledger_only_postEntry [OF run] postEntry_agrees(2) [OF run wf fits])

end

end
