(* ===== verification/Ledger_Properties.thy ===== *)
theory Ledger_Properties
  imports Ledger_Laws
begin

text \<open>
  The properties of the ledger service, each with a run of the code's model on a small tenant
  (\<open>bank\<close>) where its hypotheses hold. \<open>bank\<close> has the chart of accounts of the service, a SYSTEM
  user, a FOSA account with locked funds and a minimum balance, a BOSA account, and the two
  opening entries that make balances and general ledger agree.
\<close>

section \<open>A small tenant\<close>

definition bank_account :: "ident \<Rightarrow> AccountType \<Rightarrow> rat \<Rightarrow> account" where
  "bank_account i ty b = \<lparr>acc_id = i, acc_tenantId = ''t'', acc_memberId = ''m'' @ i,
     acc_accountType = ty, acc_balance = b, acc_isActive = True, acc_version = 0,
     acc_lockedBalance = 100, acc_frozenSavings = 0, acc_allowsNegative = False,
     acc_minimumBalance = 50, acc_accountNumber = ''ACC-'' @ i\<rparr>"

definition opening_entry :: "ident \<Rightarrow> ident \<Rightarrow> rat \<Rightarrow> journal_entry" where
  "opening_entry i code b = \<lparr>je_id = i, je_tenantId = ''t'', je_entryNumber = ''OPEN-'' @ i,
     je_type = JournalEntryType.MANUAL, je_status = JournalEntryStatus.POSTED,
     je_referenceType = None, je_referenceId = None, je_totalAmount = b, je_createdById = ''sys'',
     je_approvedById = Some ''sys'', je_reversalOfJournalEntryId = None,
     je_postings = [\<lparr>gp_debitAccountId = Some GL_CASH, gp_creditAccountId = Some code,
       gp_amount = b\<rparr>]\<rparr>"

definition chart_account :: "string \<Rightarrow> gl_account" where
  "chart_account code = \<lparr>gl_id = code, gl_tenantId = ''t'', gl_code = code, gl_isActive = True\<rparr>"

definition bank :: db where
  "bank = empty_db\<lparr>
     accounts := [bank_account ''F'' FOSA 1000, bank_account ''B'' BOSA 500],
     journalEntries := [opening_entry ''o1'' GL_FOSA_DEPOSITS 1000, opening_entry ''o2'' GL_BOSA_DEPOSITS 500],
     glAccounts := map chart_account [GL_CASH, GL_LOAN_RECEIVABLE, GL_FOSA_DEPOSITS,
       GL_BOSA_DEPOSITS, GL_INTEREST_INCOME, GL_FEE_INCOME, GL_PENALTY_INCOME],
     users := [\<lparr>us_id = ''sys'', us_tenantId = ''t'', us_role = SYSTEM,
       us_phone = None, us_phoneNumber = None\<rparr>]\<rparr>"

definition bank_entry :: "JournalEntryType \<Rightarrow> direction \<Rightarrow> rat \<Rightarrow> entry_params" where
  "bank_entry jt dir x = \<lparr>ep_tenantId = ''t'', ep_reference = ''R1'', ep_journalType = jt,
     ep_accountId = ''F'', ep_amount = x, ep_direction = dir, ep_actorId = Some ''u'',
     ep_linkedTransactionId = None, ep_loanId = None\<rparr>"

lemma bank_wf: "wf_db bank" and bank_agrees: "gl_agrees bank ''t''"
  by code_simp+

lemma not_isl: "\<not> isl r \<Longrightarrow> \<exists>x s. r = Inr (x, s)"
  by (cases r) auto

definition bank_deposit :: entry_params where
  "bank_deposit = bank_entry JournalEntryType.DEPOSIT CREDIT 100"

definition bank_withdrawal :: entry_params where
  "bank_withdrawal = bank_entry JournalEntryType.WITHDRAWAL DEBIT 900"

lemma bank_runs:
  "\<exists>t e s. postEntry plain_env False bank bank_deposit = Inr ((t, e), s)"
  "\<exists>t e s. postEntry plain_env False bank bank_withdrawal = Inr ((t, e), s)"
  "\<exists>x y e s. postInternalTransfer plain_env bank ''t'' ''F'' ''B'' 300 ''X1'' ''u'' = Inr ((x, y, e), s)"
  "\<exists>e r s. postGlOnlyLegEntry plain_env bank ''t'' ''L1'' leg.INTEREST 25 GL_CASH ''tx'' (Some ''u'')
     JournalEntryType.LOAN_REPAYMENT = Inr ((e, r), s)"
proof -
  have "\<not> isl (postEntry plain_env False bank bank_deposit)"
    "\<not> isl (postEntry plain_env False bank bank_withdrawal)"
    "\<not> isl (postInternalTransfer plain_env bank ''t'' ''F'' ''B'' 300 ''X1'' ''u'')"
    "\<not> isl (postGlOnlyLegEntry plain_env bank ''t'' ''L1'' leg.INTEREST 25 GL_CASH ''tx'' (Some ''u'')
       JournalEntryType.LOAN_REPAYMENT)"
    by code_simp+
  then show "\<exists>t e s. postEntry plain_env False bank bank_deposit = Inr ((t, e), s)"
    "\<exists>t e s. postEntry plain_env False bank bank_withdrawal = Inr ((t, e), s)"
    "\<exists>x y e s. postInternalTransfer plain_env bank ''t'' ''F'' ''B'' 300 ''X1'' ''u'' = Inr ((x, y, e), s)"
    "\<exists>e r s. postGlOnlyLegEntry plain_env bank ''t'' ''L1'' leg.INTEREST 25 GL_CASH ''tx'' (Some ''u'')
       JournalEntryType.LOAN_REPAYMENT = Inr ((e, r), s)"
    by (auto dest!: not_isl)
qed

lemma bank_facts:
  "direction_fits (ep_journalType bank_deposit) (ep_direction bank_deposit)"
  "transactionByReference bank ''t'' ''R1'' = None"
  "transactionByReference bank (ep_tenantId bank_deposit) (ep_reference bank_deposit) = None"
  "transactionByReference bank (ep_tenantId bank_withdrawal) (ep_reference bank_withdrawal) = None"
  "\<forall>x \<in> set (journalEntries bank). je_referenceId x = None"
  by code_simp+

section \<open>Entries\<close>

text \<open>
  C1. Agreement: a posting of a kind that the service supports, with the direction that goes with
  it, keeps the database well formed and keeps, for every tenant, the sum of the FOSA balances
  equal to the net credit of code 2300 and the sum of the BOSA balances equal to that of 2400.
\<close>

theorem postEntry_agreement:
  assumes "decimal_runtime E" and "postEntry E inTx s p = Inr ((t, e), s')" and "wf_db s"
    and "direction_fits (ep_journalType p) (ep_direction p)" and "gl_agrees s tenant"
  shows "wf_db s' \<and> gl_agrees s' tenant"
  using decimal_runtime.postEntry_agrees [OF assms(1-5)] by simp

theorem postEntry_agreement_witness:
  "\<exists>t e s'. postEntry plain_env False bank bank_deposit = Inr ((t, e), s') \<and> wf_db s' \<and> gl_agrees s' ''t''"
  using bank_runs(1) postEntry_agreement [OF plain.decimal_runtime_axioms _ bank_wf bank_facts(1) bank_agrees]
  by blast

text \<open>
  A fresh posting does exactly this: the account's stored balance moves by the signed amount
  rounded to four places and no other row of the table changes; the transaction row records the
  balance before and after, the amount, and the stored balance equals the recorded one; one
  journal entry with one posting, linked to that transaction, is appended.
\<close>

theorem postEntry_rows:
  assumes "decimal_runtime E" and "postEntry E inTx s p = Inr ((t, e), s')" and "wf_db s"
    and "transactionByReference s (ep_tenantId p) (ep_reference p) = None"
  shows "\<exists>a. active_account s (ep_tenantId p) (ep_accountId p) a \<and>
    accounts s' = map (\<lambda>x. if acc_id x = ep_accountId p
      then x\<lparr>acc_balance := tx_balanceAfter t, acc_version := acc_version x + 1\<rparr> else x) (accounts s) \<and>
    tx_balanceBefore t = acc_balance a \<and>
    tx_balanceAfter t = acc_balance a + signed (ep_direction p) (dp4 E (ep_amount p)) \<and>
    tx_amount t = dp4 E (ep_amount p) \<and> tx_reference t = ep_reference p \<and>
    transactions s' = transactions s @ [t] \<and> journalEntries s' = journalEntries s @ [e] \<and>
    je_referenceId e = Some (tx_id t) \<and> length (je_postings e) = 1"
proof (rule decimal_runtime.postEntry_fresh_rows [OF assms])
  fix a tt u
  assume a: "active_account s (ep_tenantId p) (ep_accountId p) a"
    and before: "tx_balanceBefore t = acc_balance a"
    and after: "tx_balanceAfter t = acc_balance a + signed (ep_direction p) (dp4 E (ep_amount p))"
    and rows: "accounts s' = accounts (moveBalance (ep_accountId p)
       (signed (ep_direction p) (dp4 E (ep_amount p))) s)"
    and more: "tx_amount t = dp4 E (ep_amount p)" "tx_reference t = ep_reference p"
      "transactions s' = transactions s @ [t]" "journalEntries s' = journalEntries s @ [e]"
      "je_referenceId e = Some (tx_id t)" "length (je_postings e) = 1"
  have "x = a" if "x \<in> set (accounts s)" "acc_id x = ep_accountId p" for x
    using that a wf_accountsD(1) [OF wf_dbD(1) [OF assms(3)]]
    by (auto simp: active_account_def intro: distinct_key_eq)
  then have "accounts s' = map (\<lambda>x. if acc_id x = ep_accountId p
      then x\<lparr>acc_balance := tx_balanceAfter t, acc_version := acc_version x + 1\<rparr> else x) (accounts s)"
    unfolding rows moveBalance_def after by (auto intro!: map_cong)
  with a before after more show ?thesis by blast
qed

theorem postEntry_rows_witness:
  "\<exists>t e s'. postEntry plain_env False bank bank_deposit = Inr ((t, e), s') \<and>
     transactions s' = [t] \<and> tx_amount t = 100"
proof -
  obtain t e s' where run: "postEntry plain_env False bank bank_deposit = Inr ((t, e), s')"
    using bank_runs(1) by blast
  have "transactions bank = []" "dp4 plain_env (ep_amount bank_deposit) = 100" by code_simp+
  with run postEntry_rows [OF plain.decimal_runtime_axioms run bank_wf bank_facts(3)]
  show ?thesis by auto
qed

text \<open>
  C2. A debit leaves the locked and frozen part of the account untouched, and the minimum balance
  too unless the account may go below it: the floors hold of the stored row after the posting.
\<close>

theorem postEntry_debit_floor:
  assumes "decimal_runtime E" and "postEntry E inTx s p = Inr ((t, e), s')" and "wf_db s"
    and "transactionByReference s (ep_tenantId p) (ep_reference p) = None"
    and "ep_direction p = DEBIT" and "x \<in> set (accounts s')" and "acc_id x = ep_accountId p"
  shows "acc_lockedBalance x + acc_frozenSavings x \<le> acc_balance x \<and>
    (\<not> acc_allowsNegative x \<longrightarrow> acc_minimumBalance x \<le> acc_balance x)"
proof (rule decimal_runtime.postEntry_fresh_rows [OF assms(1-4)])
  fix a tt u
  assume a: "active_account s (ep_tenantId p) (ep_accountId p) a"
    and rows: "accounts s' = accounts (moveBalance (ep_accountId p)
       (signed (ep_direction p) (dp4 E (ep_amount p))) s)"
    and fl: "ep_direction p = DEBIT \<Longrightarrow>
       acc_lockedBalance a + acc_frozenSavings a \<le> acc_balance a - dp4 E (ep_amount p)"
      "ep_direction p = DEBIT \<Longrightarrow> \<not> acc_allowsNegative a \<Longrightarrow>
       acc_minimumBalance a \<le> acc_balance a - dp4 E (ep_amount p)"
  from assms(6,7) obtain y where y: "y \<in> set (accounts s)" "acc_id y = ep_accountId p"
    "x = y\<lparr>acc_balance := acc_balance y - dp4 E (ep_amount p), acc_version := acc_version y + 1\<rparr>"
    by (auto simp: rows moveBalance_def signed_def assms(5) split: if_splits)
  have "y = a"
    using y a wf_accountsD(1) [OF wf_dbD(1) [OF assms(3)]]
    by (auto simp: active_account_def intro: distinct_key_eq)
  with y fl assms(5) show ?thesis by simp
qed

theorem postEntry_debit_floor_witness:
  "\<exists>t e s'. postEntry plain_env False bank bank_withdrawal = Inr ((t, e), s') \<and>
     (\<forall>x \<in> set (accounts s'). acc_id x = ''F'' \<longrightarrow> acc_lockedBalance x + acc_frozenSavings x \<le> acc_balance x)"
proof -
  obtain t e s' where run: "postEntry plain_env False bank bank_withdrawal = Inr ((t, e), s')"
    using bank_runs(2) by blast
  have "ep_direction bank_withdrawal = DEBIT" "ep_accountId bank_withdrawal = ''F''" by code_simp+
  with run postEntry_debit_floor [OF plain.decimal_runtime_axioms run bank_wf bank_facts(4)]
  show ?thesis by auto
qed

text \<open>
  C3. Replay: a posting is made under a new reference, whose transaction gets an identifier that no journal entry
  points to yet. A request that follows it with the same tenant and reference and a named actor posts
  nothing, whatever its amount, account, direction or journal type: when its amount, rounded to four
  decimals, is positive, it is answered with the same transaction row and its journal entry and leaves the
  database exactly as it is; when the rounded amount is zero or negative, it is refused as a bad request
  before the reference is looked up.
\<close>

theorem postEntry_replay:
  assumes "decimal_runtime E" and "postEntry E inTx s p = Inr ((t, e), s')" and "wf_db s"
    and "transactionByReference s (ep_tenantId p) (ep_reference p) = None"
    and "\<forall>x \<in> set (journalEntries s). je_referenceId x \<noteq> Some (tx_id t)"
    and "ep_tenantId q = ep_tenantId p" and "ep_reference q = ep_reference p" and "ep_actorId q = Some v"
  shows "postEntry E inTx' s' q = (if 0 < dp4 E (ep_amount q) then Inr ((t, e), s')
    else Inl (BadRequestException ''Amount must be positive''))"
proof (cases "0 < dp4 E (ep_amount q)")
  case True
  show ?thesis
  proof (rule decimal_runtime.postEntry_fresh_rows [OF assms(1-4)])
    fix a tt u
    assume "transactions s' = transactions s @ [t]" "journalEntries s' = journalEntries s @ [e]"
      "tx_tenantId t = ep_tenantId p" "tx_reference t = ep_reference p" "je_tenantId e = ep_tenantId p"
      "je_referenceType e = Some ''TRANSACTION''" "je_referenceId e = Some (tx_id t)"
    moreover have "findFirst (\<lambda>j. je_tenantId j = ep_tenantId p \<and> je_referenceType j = Some ''TRANSACTION'' \<and>
        je_referenceId j = Some (tx_id t)) (journalEntries s) = None"
      using assms(5) by (auto simp: table_simps)
    ultimately have "transactionByReference s' (ep_tenantId q) (ep_reference q) = Some t"
      "entryForTransaction s' (ep_tenantId q) (tx_id t) = Some e"
      using assms(4,6,7) by (auto simp: transactionByReference_def entryForTransaction_def findFirst_append)
    with assms(8) True show ?thesis
      by (simp add: postEntry_def resolveActor_def postEntryBody_def Let_def)
  qed
next
  case False
  with assms(8) show ?thesis by (simp add: postEntry_def resolveActor_def Let_def)
qed

theorem postEntry_replay_witness:
  "\<exists>t e s'. postEntry plain_env False bank bank_deposit = Inr ((t, e), s') \<and>
     postEntry plain_env True s' (bank_deposit\<lparr>ep_amount := 7\<rparr>) = Inr ((t, e), s') \<and>
     postEntry plain_env True s' (bank_deposit\<lparr>ep_amount := - 7\<rparr>) =
       Inl (BadRequestException ''Amount must be positive'')"
proof -
  obtain t e s' where run: "postEntry plain_env False bank bank_deposit = Inr ((t, e), s')"
    using bank_runs(1) by blast
  have actor: "ep_actorId bank_deposit = Some ''u''" by code_simp
  have "\<forall>x \<in> set (journalEntries bank). je_referenceId x \<noteq> Some (tx_id t)" using bank_facts(5) by auto
  note replay = postEntry_replay [OF plain.decimal_runtime_axioms run bank_wf bank_facts(3) this]
  have "0 < dp4 plain_env 7" "\<not> 0 < dp4 plain_env (- 7)" by code_simp+
  with run replay [of "bank_deposit\<lparr>ep_amount := 7\<rparr>"] replay [of "bank_deposit\<lparr>ep_amount := - 7\<rparr>"] actor
  show ?thesis by auto
qed

section \<open>Transfers\<close>

text \<open>
  C4. A fresh internal transfer takes the rounded amount from the source balance, respecting the
  locked funds and the minimum balance, adds it to the destination balance, changes no other
  account, and keeps the database well formed and the general ledger in agreement.
\<close>

theorem postInternalTransfer_conserves:
  assumes "decimal_runtime E" and "wf_db s" and "gl_agrees s tenant"
    and "postInternalTransfer E s t fromId toId raw ref u = Inr ((src, dst, e), s')"
    and "transactionByReference s t (ref @ ''-SRC'') = None"
  shows "wf_db s' \<and> gl_agrees s' tenant \<and>
    (\<exists>a b. active_account s t fromId a \<and> active_account s t toId b \<and> fromId \<noteq> toId \<and>
       acc_lockedBalance a + acc_frozenSavings a \<le> acc_balance a - dp4 E raw \<and>
       (\<not> acc_allowsNegative a \<longrightarrow> acc_minimumBalance a \<le> acc_balance a - dp4 E raw)) \<and>
    accounts s' = map (\<lambda>x.
        if acc_id x = fromId then x\<lparr>acc_balance := acc_balance x - dp4 E raw, acc_version := acc_version x + 1\<rparr>
        else if acc_id x = toId then x\<lparr>acc_balance := acc_balance x + dp4 E raw, acc_version := acc_version x + 1\<rparr>
        else x) (accounts s)"
  using assms(4)
proof (cases rule: decimal_runtime.postInternalTransfer_cases [OF assms(1), consumes 1, case_names fresh replayed])
  case (fresh s1)
  from decimal_runtime.transferFresh_effects [OF assms(1) fresh(4) assms(2)
      decimal_runtime.m4_dp4 [OF assms(1)] fresh(2)]
  obtain a b where "active_account s t fromId a" "active_account s t toId b"
    "acc_lockedBalance a + acc_frozenSavings a \<le> acc_balance a - dp4 E raw"
    "\<not> acc_allowsNegative a \<longrightarrow> acc_minimumBalance a \<le> acc_balance a - dp4 E raw"
    and acc: "accounts s1 = accounts (moveBalance toId (dp4 E raw) (moveBalance fromId (- dp4 E raw) s))"
    by metis
  moreover have "accounts s' = map (\<lambda>x.
        if acc_id x = fromId then x\<lparr>acc_balance := acc_balance x - dp4 E raw, acc_version := acc_version x + 1\<rparr>
        else if acc_id x = toId then x\<lparr>acc_balance := acc_balance x + dp4 E raw, acc_version := acc_version x + 1\<rparr>
        else x) (accounts s)"
    using fresh(2) by (auto simp: fresh(5) writeAudit_def acc moveBalance_def)
  ultimately show ?thesis
    using decimal_runtime.postInternalTransfer_agrees [OF assms(1,4,2,3)] fresh(2) by blast
next
  case replayed
  with assms(5) show ?thesis by simp
qed

theorem postInternalTransfer_conserves_witness:
  "\<exists>x y e s'. postInternalTransfer plain_env bank ''t'' ''F'' ''B'' 300 ''X1'' ''u'' = Inr ((x, y, e), s') \<and>
     gl_agrees s' ''t''"
proof -
  have "transactionByReference bank ''t'' (''X1'' @ ''-SRC'') = None" by code_simp
  with bank_runs(3) postInternalTransfer_conserves [OF plain.decimal_runtime_axioms bank_wf bank_agrees]
  show ?thesis by blast
qed


section \<open>Reversals\<close>

definition runs_and_reverses :: "entry_params \<Rightarrow> bool" where
  "runs_and_reverses p =
     (case postEntry plain_env False bank p of Inl _ \<Rightarrow> False
      | Inr ((t, e), s) \<Rightarrow>
         (case reverseTransaction plain_env False s ''t'' (tx_id t) (Some ''u'') of
            Inl _ \<Rightarrow> False | Inr _ \<Rightarrow> True))"

lemma bank_reversal_runs:
  "\<exists>t e s1 rv re s2. postEntry plain_env False bank bank_deposit = Inr ((t, e), s1) \<and>
     reverseTransaction plain_env False s1 ''t'' (tx_id t) (Some ''u'') = Inr ((rv, re), s2)"
proof -
  have "runs_and_reverses bank_deposit" by code_simp
  then show ?thesis
    by (fastforce simp: runs_and_reverses_def split: sum.splits prod.splits)
qed
text \<open>
  C5. Posting and then reversing is the identity on the books: all account balances of the
  database and the net credit of every general-ledger code of every tenant are back where they
  were before the posting.
\<close>

theorem postEntry_reverse_roundtrip:
  assumes "decimal_runtime E" and "wf_db s"
    and "postEntry E inTx s p = Inr ((t, e), s1)"
    and "transactionByReference s (ep_tenantId p) (ep_reference p) = None"
    and "\<forall>x \<in> set (journalEntries s). je_referenceId x \<noteq> Some (tx_id t)"
    and "reverseTransaction E inTx' s1 (ep_tenantId p) (tx_id t) actor = Inr ((rv, re), s2)"
  shows "map acc_balance (accounts s2) = map acc_balance (accounts s) \<and>
    gl_credit s2 tenant code = gl_credit s tenant code"
  using decimal_runtime.postEntry_reverse [OF assms] by blast

theorem postEntry_reverse_roundtrip_witness:
  "\<exists>t e s1 rv re s2. postEntry plain_env False bank bank_deposit = Inr ((t, e), s1) \<and>
     reverseTransaction plain_env False s1 ''t'' (tx_id t) (Some ''u'') = Inr ((rv, re), s2) \<and>
     map acc_balance (accounts s2) = map acc_balance (accounts bank)"
proof -
  obtain t e s1 rv re s2 where run: "postEntry plain_env False bank bank_deposit = Inr ((t, e), s1)"
    and rev: "reverseTransaction plain_env False s1 ''t'' (tx_id t) (Some ''u'') = Inr ((rv, re), s2)"
    using bank_reversal_runs by blast
  have "ep_tenantId bank_deposit = ''t''" by code_simp
  with postEntry_reverse_roundtrip [OF plain.decimal_runtime_axioms bank_wf run bank_facts(3)]
    bank_facts(5) run rev
  show ?thesis by (metis option.distinct(1))
qed

text \<open>
  C6. A transaction is reversed at most once: after a reversal, every further attempt by any
  actor is rejected as a conflict.
\<close>

theorem reverseTransaction_once:
  assumes "reverseTransaction E inTx s tenantId k actor = Inr (rv, s')"
  shows "reverseTransaction E inTx' s' tenantId k (Some v) =
    Inl (ConflictException ''Transaction has already been reversed'')"
  using assms by (rule reverse_marks)

theorem reverseTransaction_once_witness:
  "\<exists>t e s1 rv s2. postEntry plain_env False bank bank_deposit = Inr ((t, e), s1) \<and>
     reverseTransaction plain_env False s1 ''t'' (tx_id t) (Some ''u'') = Inr (rv, s2) \<and>
     reverseTransaction plain_env True s2 ''t'' (tx_id t) (Some ''v'') =
       Inl (ConflictException ''Transaction has already been reversed'')"
  using bank_reversal_runs reverseTransaction_once by blast

text \<open>
  The documented exclusion of transfers from reversal is not enforced: a transfer has one
  journal entry with a single posting, so the guard on the number of postings lets it through.
  Here 300 go from F to B, and reversing the source row returns the 300 to F while B keeps them:
  the FOSA balances are back at 1000 but the BOSA balances are 800 against a ledger of 500.
\<close>

theorem reverse_transfer_source_breaks_agreement:
  "(case postInternalTransfer plain_env bank ''t'' ''F'' ''B'' 300 ''X1'' ''u'' of
      Inl _ \<Rightarrow> False
    | Inr ((src, dst, e), s1) \<Rightarrow>
       (case reverseTransaction plain_env False s1 ''t'' (tx_id src) (Some ''u'') of
          Inl _ \<Rightarrow> False
        | Inr (rv, s2) \<Rightarrow> gl_agrees s1 ''t'' \<and> \<not> gl_agrees s2 ''t'' \<and>
            map acc_balance (accounts s2) = [1000, 800] \<and>
            gl_credit s2 ''t'' GL_BOSA_DEPOSITS = 500))"
  by code_simp

section \<open>Entries without an account\<close>

text \<open>
  A general-ledger leg (the repayment, forfeiture, accrual and penalty entries) changes no
  account, transaction, loan, guarantor or instalment; a fresh one moves exactly the debit and the
  credit code by the rounded amount, a replayed one moves nothing.
\<close>

theorem postGlOnlyLegEntry_frame:
  assumes "decimal_runtime E" and "wf_db s"
    and "postGlOnlyLegEntry E s t ref l raw debitCode txId actor jt = Inr ((e, replayed), s')"
  shows "wf_db s' \<and> accounts s' = accounts s \<and> transactions s' = transactions s \<and>
    loans s' = loans s \<and> guarantors s' = guarantors s \<and> repayments s' = repayments s \<and>
    gl_credit s' tenant code = gl_credit s tenant code +
      (if replayed \<or> tenant \<noteq> t then 0
       else code_effect debitCode (legCreditCode l) (dp4 E raw) code)"
  using decimal_runtime.postGlOnlyLegEntry_effects [OF assms(1,3,2)] by blast

theorem postGlOnlyLegEntry_frame_witness:
  "\<exists>e r s'. postGlOnlyLegEntry plain_env bank ''t'' ''L1'' leg.INTEREST 25 GL_CASH ''tx'' (Some ''u'')
     JournalEntryType.LOAN_REPAYMENT = Inr ((e, r), s') \<and> accounts s' = accounts bank"
  using bank_runs(4) postGlOnlyLegEntry_frame [OF plain.decimal_runtime_axioms bank_wf] by blast

section \<open>Unsupported types\<close>

text \<open>
  C11. No fresh posting of a kind without account codes ever succeeds. In particular a dividend,
  which the service's documentation names among its clients, always fails, and a transfer must
  use the transfer operation; legs of a loan repayment are refused as well.
\<close>

theorem postEntry_unsupported:
  assumes "transactionByReference s (ep_tenantId p) (ep_reference p) = None"
    and "ep_journalType p \<notin> {JournalEntryType.DEPOSIT, JournalEntryType.MPESA_DEPOSIT,
      JournalEntryType.WITHDRAWAL, JournalEntryType.LOAN_DISBURSEMENT, JournalEntryType.FEE_CHARGE}"
  shows "isl (postEntry E inTx s p)"
proof (rule ccontr)
  assume "\<not> isl (postEntry E inTx s p)"
  then obtain t e s' where "postEntry E inTx s p = Inr ((t, e), s')" by (auto dest!: not_isl)
  then obtain u s0 s1 r where s0: "s0 = s\<lparr>systemUserIdCache := systemUserIdCache s0\<rparr>"
    and "0 < dp4 E (ep_amount p)" and body: "postEntryBody E s0 p u (dp4 E (ep_amount p)) = Inr ((t, e, r), s1)"
    and "s' = (if \<not> r \<and> \<not> inTx
       then writeAudit (ep_tenantId p) u ''LEDGER_POST_ENTRY'' (tx_id t) s1 else s1)"
    by (rule postEntry_cases)
  have "transactionByReference s0 = transactionByReference s" by (rule cache_same [OF s0])
  then have "\<not> r" using body assms(1) by (cases r) (auto dest: postEntryBody_replayed)
  with body have "postEntryBody E s0 p u (dp4 E (ep_amount p)) = Inr ((t, e, False), s1)" by simp
  then obtain ty dc cc where "resolveGlCodes ty (ep_journalType p) (ep_direction p) None = Inr (dc, cc)"
    by (rule postEntryBody_fresh)
  with assms(2) show False by (cases "ep_journalType p") (auto simp: resolveGlCodes_def)
qed

theorem postEntry_unsupported_witness:
  "isl (postEntry plain_env False bank (bank_entry JournalEntryType.DIVIDEND_PAYOUT CREDIT 40))"
proof (rule postEntry_unsupported)
  show "transactionByReference bank
    (ep_tenantId (bank_entry JournalEntryType.DIVIDEND_PAYOUT CREDIT 40))
    (ep_reference (bank_entry JournalEntryType.DIVIDEND_PAYOUT CREDIT 40)) = None" by code_simp
  show "ep_journalType (bank_entry JournalEntryType.DIVIDEND_PAYOUT CREDIT 40) \<notin>
    {JournalEntryType.DEPOSIT, JournalEntryType.MPESA_DEPOSIT,
      JournalEntryType.WITHDRAWAL, JournalEntryType.LOAN_DISBURSEMENT, JournalEntryType.FEE_CHARGE}"
    by code_simp
qed

end
