(* ===== verification/Loan_State_Machine.thy ===== *)
theory Loan_State_Machine
  imports Database
begin

text \<open>
  The loan life cycle: the transition table of \<open>src/src/core/state-machine.ts\<close> and the request
  guard \<open>src/src/modules/loans/guards/loan-state-transition.guard.ts\<close> that enforces it.

  The table is a function from a status to the list of its successors. \<open>loan_step\<close> is one
  allowed transition and \<open>loan_path\<close> a history of them; the lemmas say what such histories look
  like (a loan is approved before it is paid out, statuses do not go back except by curing a
  default, every open loan can still be closed).
\<close>

section \<open>The table\<close>

fun LOAN_TRANSITIONS :: "LoanStatus \<Rightarrow> LoanStatus list" where
  "LOAN_TRANSITIONS LoanStatus.DRAFT =
     [LoanStatus.PENDING_GUARANTORS, LoanStatus.PENDING_APPROVAL, LoanStatus.REJECTED]"
| "LOAN_TRANSITIONS LoanStatus.PENDING_GUARANTORS =
     [LoanStatus.PENDING_REVIEW, LoanStatus.PENDING_APPROVAL,
      LoanStatus.REJECTED_GUARANTOR_DECLINE, LoanStatus.REJECTED]"
| "LOAN_TRANSITIONS LoanStatus.PENDING_REVIEW = [LoanStatus.APPROVED, LoanStatus.REJECTED]"
| "LOAN_TRANSITIONS LoanStatus.PENDING_APPROVAL = [LoanStatus.APPROVED, LoanStatus.REJECTED]"
| "LOAN_TRANSITIONS LoanStatus.APPROVED = [LoanStatus.DISBURSED, LoanStatus.ACTIVE]"
| "LOAN_TRANSITIONS LoanStatus.DISBURSED = [LoanStatus.ACTIVE]"
| "LOAN_TRANSITIONS LoanStatus.ACTIVE = [LoanStatus.FULLY_PAID, LoanStatus.DEFAULTED]"
| "LOAN_TRANSITIONS LoanStatus.DEFAULTED = [LoanStatus.WRITTEN_OFF, LoanStatus.ACTIVE]"
| "LOAN_TRANSITIONS LoanStatus.REJECTED = []"
| "LOAN_TRANSITIONS LoanStatus.REJECTED_GUARANTOR_DECLINE = []"
| "LOAN_TRANSITIONS LoanStatus.FULLY_PAID = []"
| "LOAN_TRANSITIONS LoanStatus.WRITTEN_OFF = []"

definition canTransition :: "LoanStatus \<Rightarrow> LoanStatus \<Rightarrow> bool" where
  "canTransition src dst \<longleftrightarrow> dst \<in> set (LOAN_TRANSITIONS src)"

definition assertTransition :: "LoanStatus \<Rightarrow> LoanStatus \<Rightarrow> unit res" where
  "assertTransition src dst =
     ensure (canTransition src dst) (InternalError ''INVALID_LOAN_STATUS_TRANSITION'')"

section \<open>The request guard\<close>

text \<open>
  A status arrives as text. \<open>status_name\<close> is the text of a status; a text that is none of them
  is a member of no successor list.
\<close>

fun status_name :: "LoanStatus \<Rightarrow> string" where
  "status_name LoanStatus.DRAFT = ''DRAFT''"
| "status_name LoanStatus.PENDING_GUARANTORS = ''PENDING_GUARANTORS''"
| "status_name LoanStatus.PENDING_REVIEW = ''PENDING_REVIEW''"
| "status_name LoanStatus.PENDING_APPROVAL = ''PENDING_APPROVAL''"
| "status_name LoanStatus.APPROVED = ''APPROVED''"
| "status_name LoanStatus.REJECTED = ''REJECTED''"
| "status_name LoanStatus.REJECTED_GUARANTOR_DECLINE = ''REJECTED_GUARANTOR_DECLINE''"
| "status_name LoanStatus.DISBURSED = ''DISBURSED''"
| "status_name LoanStatus.ACTIVE = ''ACTIVE''"
| "status_name LoanStatus.FULLY_PAID = ''FULLY_PAID''"
| "status_name LoanStatus.DEFAULTED = ''DEFAULTED''"
| "status_name LoanStatus.WRITTEN_OFF = ''WRITTEN_OFF''"

datatype header_value = Absent | One string | Many "string list"

definition getSingleHeaderValue :: "header_value \<Rightarrow> string option" where
  "getSingleHeaderValue h = (case h of Absent \<Rightarrow> None | One v \<Rightarrow> Some v
     | Many vs \<Rightarrow> (case vs of [] \<Rightarrow> None | v # _ \<Rightarrow> Some v))"

text \<open>
  The parts of a request that the guard reads: the route parameters and the body by key, the
  tenant that the middleware attached (two places) and the tenant header. The body carries a
  field of another type than text as \<open>None\<close>.
\<close>

record guard_request =
  rq_params :: "string \<rightharpoonup> string"
  rq_body :: "string \<rightharpoonup> string"
  rq_tenant :: "ident option"
  rq_tenantId :: "ident option"
  rq_header :: header_value

record guard_options =
  go_loanIdParam :: string
  go_targetStatusBodyField :: string
  go_targetStatusMap :: "(string \<rightharpoonup> string) option"

definition truthy :: "string option \<Rightarrow> bool" where
  "truthy x = (case x of None \<Rightarrow> False | Some v \<Rightarrow> v \<noteq> '''')"

definition coalesce :: "'a option \<Rightarrow> 'a option \<Rightarrow> 'a option" where
  "coalesce x y = (case x of None \<Rightarrow> y | Some _ \<Rightarrow> x)"

definition canActivate :: "db \<Rightarrow> guard_options option \<Rightarrow> guard_request \<Rightarrow> bool res" where
  "canActivate s opts rq =
     (case opts of None \<Rightarrow> Inr True
      | Some options \<Rightarrow>
        (let loanId = rq_params rq (go_loanIdParam options);
             rawTargetStatus = rq_body rq (go_targetStatusBodyField options);
             tenantId = coalesce (rq_tenant rq)
               (coalesce (rq_tenantId rq) (getSingleHeaderValue (rq_header rq)))
         in
         rbind (ensure (truthy loanId) (BadRequestException ''Loan id is required'')) (\<lambda>_.
         rbind (ensure (truthy tenantId) (BadRequestException ''Tenant context is required'')) (\<lambda>_.
         if \<not> truthy rawTargetStatus then Inr True
         else
           (let raw = the rawTargetStatus;
                targetStatus = (case go_targetStatusMap options of None \<Rightarrow> raw
                  | Some m \<Rightarrow> (case m raw of None \<Rightarrow> raw | Some v \<Rightarrow> v))
            in
            rbind (required (NotFoundException ''Loan not found'')
              (findFirst (\<lambda>l. ln_id l = the loanId \<and> ln_tenantId l = the tenantId) (loans s)))
              (\<lambda>loan.
            rbind (ensure (targetStatus \<in> set (map status_name (LOAN_TRANSITIONS (ln_status loan))))
              (BadRequestException ''INVALID_LOAN_STATUS_TRANSITION'')) (\<lambda>_.
            Inr True)))))))"

section \<open>Histories\<close>

text \<open>A history is a list of statuses, the first one first, each step allowed by the table.\<close>

inductive loan_path :: "LoanStatus list \<Rightarrow> bool" where
  start: "loan_path [st]"
| step: "loan_path (path @ [st]) \<Longrightarrow> canTransition st st' \<Longrightarrow> loan_path (path @ [st, st'])"

definition paid_out :: "LoanStatus \<Rightarrow> bool" where
  "paid_out st \<longleftrightarrow> st \<in> {LoanStatus.DISBURSED, LoanStatus.ACTIVE, LoanStatus.FULLY_PAID,
     LoanStatus.DEFAULTED, LoanStatus.WRITTEN_OFF}"

definition terminal :: "LoanStatus \<Rightarrow> bool" where
  "terminal st \<longleftrightarrow> LOAN_TRANSITIONS st = []"

fun stage :: "LoanStatus \<Rightarrow> nat" where
  "stage LoanStatus.DRAFT = 0"
| "stage LoanStatus.PENDING_GUARANTORS = 1"
| "stage LoanStatus.PENDING_REVIEW = 2"
| "stage LoanStatus.PENDING_APPROVAL = 2"
| "stage LoanStatus.APPROVED = 3"
| "stage LoanStatus.DISBURSED = 4"
| "stage LoanStatus.ACTIVE = 5"
| "stage LoanStatus.DEFAULTED = 6"
| "stage LoanStatus.REJECTED = 7"
| "stage LoanStatus.REJECTED_GUARANTOR_DECLINE = 7"
| "stage LoanStatus.FULLY_PAID = 7"
| "stage LoanStatus.WRITTEN_OFF = 7"

lemma canTransition_stage:
  "canTransition st st' \<Longrightarrow>
     stage st < stage st' \<or> (st = LoanStatus.DEFAULTED \<and> st' = LoanStatus.ACTIVE)"
  by (cases st) (auto simp: canTransition_def)

lemma paid_out_pred:
  "canTransition st st' \<Longrightarrow> paid_out st' \<Longrightarrow> st = LoanStatus.APPROVED \<or> paid_out st"
  by (cases st) (auto simp: canTransition_def paid_out_def)

inductive_cases loan_path_singleE: "loan_path [st]"

lemma loan_path_nonempty: "loan_path p \<Longrightarrow> p \<noteq> []"
  by (induction rule: loan_path.induct) auto

lemma loan_path_approved:
  assumes "loan_path p" and "\<not> paid_out (hd p)" and "paid_out (last p)"
  shows "LoanStatus.APPROVED \<in> set p"
  using assms
proof (induction rule: loan_path.induct)
  case (start st)
  then show ?case by simp
next
  case (step path st st')
  then have hd: "hd (path @ [st, st']) = hd (path @ [st])" by (cases path) auto
  from paid_out_pred [OF step.hyps(2)] step.prems(2)
  consider "st = LoanStatus.APPROVED" | "paid_out st" by auto
  then show ?case
  proof cases
    case 2
    with step.IH step.prems(1) hd have "LoanStatus.APPROVED \<in> set (path @ [st])" by simp
    then show ?thesis by auto
  qed simp
qed

text \<open>Without a cured default a history is strictly forward, so it visits no status twice.\<close>

definition cures :: "LoanStatus list \<Rightarrow> bool" where
  "cures p \<longleftrightarrow> (\<exists>xs ys. p = xs @ [LoanStatus.DEFAULTED, LoanStatus.ACTIVE] @ ys)"

lemma loan_path_forward:
  assumes "loan_path p" and "\<not> cures p"
  shows "sorted_wrt (\<lambda>a b. stage a < stage b) p"
  using assms
proof (induction rule: loan_path.induct)
  case (start st)
  then show ?case by simp
next
  case (step path st st')
  have "\<not> cures (path @ [st])"
  proof
    assume "cures (path @ [st])"
    then obtain xs ys where "path @ [st] = xs @ [LoanStatus.DEFAULTED, LoanStatus.ACTIVE] @ ys"
      by (auto simp: cures_def)
    then have "path @ [st, st'] = xs @ [LoanStatus.DEFAULTED, LoanStatus.ACTIVE] @ (ys @ [st'])"
      by (metis append.assoc append_Cons append_Nil)
    with step.prems show False unfolding cures_def by blast
  qed
  with step.IH have sorted: "sorted_wrt (\<lambda>a b. stage a < stage b) (path @ [st])" by blast
  have "\<not> (st = LoanStatus.DEFAULTED \<and> st' = LoanStatus.ACTIVE)"
    using step.prems unfolding cures_def by (metis append_Nil2)
  with canTransition_stage [OF step.hyps(2)] have "stage st < stage st'" by blast
  with sorted show ?case by (fastforce simp: sorted_wrt_append)
qed

text \<open>A shortest way to close a loan in each status.\<close>

fun closing_path :: "LoanStatus \<Rightarrow> LoanStatus list" where
  "closing_path LoanStatus.DRAFT = [LoanStatus.DRAFT, LoanStatus.REJECTED]"
| "closing_path LoanStatus.PENDING_GUARANTORS = [LoanStatus.PENDING_GUARANTORS, LoanStatus.REJECTED]"
| "closing_path LoanStatus.PENDING_REVIEW = [LoanStatus.PENDING_REVIEW, LoanStatus.REJECTED]"
| "closing_path LoanStatus.PENDING_APPROVAL = [LoanStatus.PENDING_APPROVAL, LoanStatus.REJECTED]"
| "closing_path LoanStatus.APPROVED =
     [LoanStatus.APPROVED, LoanStatus.ACTIVE, LoanStatus.FULLY_PAID]"
| "closing_path LoanStatus.DISBURSED =
     [LoanStatus.DISBURSED, LoanStatus.ACTIVE, LoanStatus.FULLY_PAID]"
| "closing_path LoanStatus.ACTIVE = [LoanStatus.ACTIVE, LoanStatus.FULLY_PAID]"
| "closing_path LoanStatus.DEFAULTED = [LoanStatus.DEFAULTED, LoanStatus.WRITTEN_OFF]"
| "closing_path st = [st]"

lemma loan_path_Cons:
  "loan_path (st' # p) \<Longrightarrow> canTransition st st' \<Longrightarrow> loan_path (st # st' # p)"
proof (induction "st' # p" arbitrary: st' p rule: loan_path.induct)
  case (start st')
  then show ?case using loan_path.step [of "[]" st st'] loan_path.start [of st] by simp
next
  case (step path x y)
  show ?case
  proof (cases path)
    case Nil
    with step show ?thesis
      using loan_path.step [of "[]" st x] loan_path.step [of "[st]" x y] loan_path.start [of st]
      by simp
  next
    case (Cons z path')
    with step have "loan_path (st # z # path' @ [x])" by auto
    then have "loan_path ((st # z # path') @ [x])" by simp
    from loan_path.step [OF this step.hyps(3)] show ?thesis using step.hyps(4) Cons by simp
  qed
qed

lemma closing_path_path: "loan_path (closing_path st) \<and> hd (closing_path st) = st \<and> terminal (last (closing_path st))"
  by (cases st) (auto simp: terminal_def canTransition_def intro!: loan_path_Cons loan_path.start)

section \<open>Properties\<close>

text \<open>
  C12. Money follows approval: on every history that the table allows, from any status before
  payout to a status after payout, the loan was APPROVED.
\<close>

theorem loan_path_approves_before_payout:
  assumes "loan_path p" and "\<not> paid_out (hd p)" and "paid_out (last p)"
  shows "LoanStatus.APPROVED \<in> set p"
  by (rule loan_path_approved [OF assms])

theorem loan_path_approves_before_payout_witness:
  "LoanStatus.APPROVED \<in> set [LoanStatus.PENDING_APPROVAL, LoanStatus.APPROVED, LoanStatus.ACTIVE]"
  by (rule loan_path_approves_before_payout)
    (auto simp: paid_out_def canTransition_def intro!: loan_path_Cons loan_path.start)

text \<open>
  C13. The life cycle is acyclic but for curing a default: a history without a step from
  DEFAULTED to ACTIVE visits no status twice, and from every status some allowed history closes
  the loan.
\<close>

theorem loan_path_progress:
  shows "(loan_path p \<and> \<not> cures p \<longrightarrow> distinct p) \<and>
    (\<exists>q. loan_path q \<and> hd q = st \<and> terminal (last q))"
proof
  have "distinct p" if "sorted_wrt (\<lambda>a b. stage a < stage b) p"
    using that by (induction p) auto
  then show "loan_path p \<and> \<not> cures p \<longrightarrow> distinct p" using loan_path_forward by blast
  show "\<exists>q. loan_path q \<and> hd q = st \<and> terminal (last q)" using closing_path_path by blast
qed

theorem loan_path_progress_witness:
  "distinct [LoanStatus.DRAFT, LoanStatus.PENDING_APPROVAL, LoanStatus.REJECTED] \<and>
   (\<exists>q. loan_path q \<and> hd q = LoanStatus.DRAFT \<and> terminal (last q))"
proof -
  let ?p = "[LoanStatus.DRAFT, LoanStatus.PENDING_APPROVAL, LoanStatus.REJECTED]"
  have "loan_path ?p" by (auto simp: canTransition_def intro!: loan_path_Cons loan_path.start)
  moreover have "\<not> cures ?p"
    by (auto simp: cures_def append_eq_Cons_conv Cons_eq_append_conv)
  ultimately show ?thesis using loan_path_progress [of ?p LoanStatus.DRAFT] by blast
qed

text \<open>
  The request guard lets a status change of an existing loan of the tenant through exactly
  when the table allows it, whatever name the request uses for the status.
\<close>

theorem canActivate_iff:
  assumes "truthy (rq_params rq (go_loanIdParam opts))"
    and "rq_tenant rq = Some tenantId" and "tenantId \<noteq> ''''"
    and "rq_body rq (go_targetStatusBodyField opts) = Some raw" and "raw \<noteq> ''''"
    and "findFirst (\<lambda>l. ln_id l = the (rq_params rq (go_loanIdParam opts)) \<and> ln_tenantId l = tenantId)
           (loans s) = Some loan"
    and "status_name target =
      (case go_targetStatusMap opts of None \<Rightarrow> raw | Some m \<Rightarrow> (case m raw of None \<Rightarrow> raw | Some v \<Rightarrow> v))"
  shows "canActivate s (Some opts) rq =
    (if canTransition (ln_status loan) target then Inr True
     else Inl (BadRequestException ''INVALID_LOAN_STATUS_TRANSITION''))"
proof -
  have inj: "inj status_name"
  proof
    fix a b assume "status_name a = status_name b"
    then show "a = b" by (cases a; cases b) simp_all
  qed
  have "status_name target \<in> set (map status_name (LOAN_TRANSITIONS (ln_status loan))) \<longleftrightarrow>
      canTransition (ln_status loan) target"
    using inj_image_mem_iff [OF inj] by (simp add: canTransition_def)
  then show ?thesis
    using assms(1-6) by (simp add: canActivate_def coalesce_def truthy_def flip: assms(7))
qed

definition guarded_loan :: loan where
  "guarded_loan = \<lparr>ln_id = ''l'', ln_tenantId = ''t'', ln_memberId = ''m'', ln_loanProductId = ''p'',
     ln_loanNumber = ''LN-1'', ln_status = LoanStatus.ACTIVE, ln_principalAmount = 100,
     ln_interestRate = 0, ln_processingFee = 0, ln_tenureMonths = 1, ln_gracePeriodMonths = 0, ln_monthlyInstalment = 100,
     ln_disbursedAt = None, ln_dueDate = None, ln_totalRepaid = 0, ln_outstandingBalance = 100,
     ln_arrearsAmount = 0, ln_arrearsDays = 0, ln_lastAccrualDate = None,
     ln_staging = LoanStaging.PERFORMING, ln_accruedInterest = 0,
     ln_repaymentScheduleGenerated = True, ln_createdAt = 0\<rparr>"

theorem canActivate_iff_witness:
  "canActivate (empty_db\<lparr>loans := [guarded_loan]\<rparr>)
     (Some \<lparr>go_loanIdParam = ''id'', go_targetStatusBodyField = ''status'', go_targetStatusMap = None\<rparr>)
     \<lparr>rq_params = [''id'' \<mapsto> ''l''], rq_body = [''status'' \<mapsto> ''APPROVED''], rq_tenant = Some ''t'',
      rq_tenantId = None, rq_header = Absent\<rparr> =
   Inl (BadRequestException ''INVALID_LOAN_STATUS_TRANSITION'')"
  by (subst canActivate_iff [where tenantId = "''t''" and raw = "''APPROVED''" and loan = guarded_loan
        and target = LoanStatus.APPROVED])
    (auto simp: truthy_def guarded_loan_def canTransition_def)

end
