(* ===== verification/Loan_Tables.thy ===== *)
theory Loan_Tables
  imports Database
begin

text \<open>
  Reads and writes that the loan services share: the active account of a member, conditional
  updates of the account table, and updates of one row of the loan, guarantor and instalment
  tables with the ranges of their columns. \<open>amountPaid\<close> of an instalment is the column
  \<open>Decimal(10, 2)\<close>: the database rounds a value to two places when it is written.
\<close>

section \<open>Accounts\<close>

definition accountFor :: "db \<Rightarrow> ident \<Rightarrow> AccountType \<Rightarrow> ident \<Rightarrow> account option" where
  "accountFor s tenantId ty memberId =
     findFirst (\<lambda>a. acc_tenantId a = tenantId \<and> acc_memberId a = memberId \<and>
       acc_accountType a = ty \<and> acc_isActive a) (accounts s)"

definition updateAccounts ::
  "(account \<Rightarrow> bool) \<Rightarrow> (account \<Rightarrow> account) \<Rightarrow> db \<Rightarrow> (nat \<times> db) res" where
  "updateAccounts P f s =
     (let (rows, count) = updateMany P f (accounts s) in
      rbind (putAccounts rows s) (\<lambda>s'. Inr (count, s')))"

lemma accountFor_Some:
  assumes "accountFor s t ty m = Some a"
  shows "a \<in> set (accounts s)" "acc_tenantId a = t" "acc_memberId a = m"
    "acc_accountType a = ty" "acc_isActive a"
  using assms by (auto simp: accountFor_def dest!: findFirst_Some)

lemma updateAccounts_Inr:
  "updateAccounts P f s = Inr (n, s') \<longleftrightarrow>
     n = length (filter P (accounts s)) \<and>
     s' = s\<lparr>accounts := map (\<lambda>r. if P r then f r else r) (accounts s)\<rparr> \<and>
     (\<forall>a \<in> set (accounts s'). account_in_columns a)"
  by (auto simp: updateAccounts_def updateMany_def res_simps)

section \<open>Loans, guarantors and instalments\<close>

definition loan_in_columns :: "loan \<Rightarrow> bool" where
  "loan_in_columns l \<longleftrightarrow> in_column (ln_totalRepaid l) \<and> in_column (ln_outstandingBalance l) \<and>
     in_column (ln_arrearsAmount l) \<and> in_column (ln_accruedInterest l)"

definition updateLoan :: "ident \<Rightarrow> (loan \<Rightarrow> loan) \<Rightarrow> db \<Rightarrow> db res" where
  "updateLoan k f s =
     rbind (ensure (\<exists>l \<in> set (loans s). ln_id l = k) (InternalError ''Record to update not found'')) (\<lambda>_.
     let rows = fst (updateMany (\<lambda>l. ln_id l = k) f (loans s)) in
     rbind (ensure (\<forall>l \<in> set rows. ln_id l = k \<longrightarrow> loan_in_columns l) NumericFieldOverflow) (\<lambda>_.
     Inr (s\<lparr>loans := rows\<rparr>)))"

definition repayment_in_columns :: "repayment \<Rightarrow> bool" where
  "repayment_in_columns r \<longleftrightarrow> in_column (lr_principalPaid r) \<and> in_column (lr_interestPaid r) \<and>
     in_column (lr_penaltyPaid r) \<and> in_column (lr_principalDue r) \<and> in_column (lr_interestDue r) \<and>
     in_column (lr_penaltyDue r) \<and> \<bar>lr_amountPaid r\<bar> < 10 ^ 8"

definition updateRepayment :: "ident \<Rightarrow> (repayment \<Rightarrow> repayment) \<Rightarrow> db \<Rightarrow> db res" where
  "updateRepayment k f s =
     (let stored = (\<lambda>r. (f r)\<lparr>lr_amountPaid := half_up 2 (lr_amountPaid (f r))\<rparr>);
          rows = fst (updateMany (\<lambda>r. lr_id r = k) stored (repayments s)) in
      rbind (ensure (\<forall>r \<in> set rows. lr_id r = k \<longrightarrow> repayment_in_columns r) NumericFieldOverflow) (\<lambda>_.
      Inr (s\<lparr>repayments := rows\<rparr>)))"

definition updateGuarantors ::
  "(guarantor \<Rightarrow> bool) \<Rightarrow> (guarantor \<Rightarrow> guarantor) \<Rightarrow> db \<Rightarrow> (nat \<times> db) res" where
  "updateGuarantors P f s =
     (let (rows, count) = updateMany P f (guarantors s) in
      rbind (ensure (\<forall>g \<in> set rows. in_column (lg_recoveredAmount g)) NumericFieldOverflow) (\<lambda>_.
      Inr (count, s\<lparr>guarantors := rows\<rparr>)))"

lemma updateGuarantors_Inr:
  "updateGuarantors P f s = Inr (n, s') \<longleftrightarrow>
     n = length (filter P (guarantors s)) \<and>
     s' = s\<lparr>guarantors := map (\<lambda>r. if P r then f r else r) (guarantors s)\<rparr> \<and>
     (\<forall>g \<in> set (guarantors s'). in_column (lg_recoveredAmount g))"
  by (auto simp: updateGuarantors_def updateMany_def res_simps)

text \<open>
  The accounts of several members in one read, as a map from members: of two accounts of one
  member the later one wins.
\<close>

definition memberAccount :: "db \<Rightarrow> ident \<Rightarrow> AccountType \<Rightarrow> ident list \<Rightarrow> ident \<Rightarrow> account option" where
  "memberAccount s tenantId ty memberIds memberId =
     findFirst (\<lambda>a. acc_memberId a = memberId)
       (rev (filter (\<lambda>a. acc_tenantId a = tenantId \<and> acc_memberId a \<in> set memberIds \<and>
          acc_accountType a = ty \<and> acc_isActive a) (accounts s)))"

lemma memberAccount_Some:
  assumes "memberAccount s t ty ms m = Some a"
  shows "a \<in> set (accounts s)" "acc_tenantId a = t" "acc_memberId a = m" "acc_accountType a = ty"
    "acc_isActive a"
  using assms by (auto simp: memberAccount_def dest!: findFirst_Some)

definition loanById :: "db \<Rightarrow> ident \<Rightarrow> ident \<Rightarrow> loan option" where
  "loanById s loanId tenantId =
     findFirst (\<lambda>l. ln_id l = loanId \<and> ln_tenantId l = tenantId) (loans s)"

definition productOf :: "db \<Rightarrow> loan \<Rightarrow> loan_product option" where
  "productOf s l = findFirst (\<lambda>p. lp_id p = ln_loanProductId l) (loanProducts s)"

definition wf_loan :: "loan \<Rightarrow> bool" where
  "wf_loan l \<longleftrightarrow> money (ln_outstandingBalance l) \<and> 0 \<le> ln_outstandingBalance l \<and>
     money (ln_accruedInterest l) \<and> 0 \<le> ln_accruedInterest l \<and>
     money (ln_arrearsAmount l) \<and> 0 \<le> ln_arrearsAmount l \<and>
     money (ln_totalRepaid l) \<and> 0 \<le> ln_totalRepaid l"

definition wf_guarantors :: "db \<Rightarrow> bool" where
  "wf_guarantors s \<longleftrightarrow> distinct (map lg_id (guarantors s)) \<and> (\<forall>g \<in> set (guarantors s).
     money (lg_guaranteedAmount g) \<and> 0 \<le> lg_guaranteedAmount g \<and>
     money (lg_recoveredAmount g) \<and> 0 \<le> lg_recoveredAmount g)"

definition wf_loans :: "db \<Rightarrow> bool" where
  "wf_loans s \<longleftrightarrow> distinct (map ln_id (loans s)) \<and> (\<forall>l \<in> set (loans s). wf_loan l)"

lemma loanById_Some:
  assumes "loanById s k t = Some l"
  shows "l \<in> set (loans s)" "ln_id l = k" "ln_tenantId l = t"
  using assms by (auto simp: loanById_def dest!: findFirst_Some)

lemma updateLoan_Inr:
  "updateLoan k f s = Inr s' \<longleftrightarrow>
     (\<exists>l \<in> set (loans s). ln_id l = k) \<and>
     s' = s\<lparr>loans := map (\<lambda>l. if ln_id l = k then f l else l) (loans s)\<rparr> \<and>
     (\<forall>l \<in> set (loans s'). ln_id l = k \<longrightarrow> loan_in_columns l)"
  by (auto simp: updateLoan_def res_simps Let_def)

text \<open>The row of a key after an update, when the update keeps keys.\<close>

lemma updateLoan_row:
  assumes "updateLoan k f s = Inr s'" and "distinct (map ln_id (loans s))"
    and "l \<in> set (loans s)" and "ln_id l = k" and "\<And>x. ln_id (f x) = ln_id x"
  shows "loans s' = map (\<lambda>x. if ln_id x = k then f l else x) (loans s)"
    and "f l \<in> set (loans s')" and "loan_in_columns (f l)"
proof -
  have row: "x \<in> set (loans s) \<Longrightarrow> ln_id x = k \<Longrightarrow> x = l" for x
    using assms(2,3,4) by (metis distinct_key_eq)
  from assms(1) show *: "loans s' = map (\<lambda>x. if ln_id x = k then f l else x) (loans s)"
    by (auto simp: updateLoan_Inr dest: row)
  show in': "f l \<in> set (loans s')" using assms(3,4) unfolding * by force
  show "loan_in_columns (f l)" using in' assms(1,4,5) by (auto simp: updateLoan_Inr)
qed

end
