(* ===== verification/Guarantor_Holds.thy ===== *)
theory Guarantor_Holds
  imports Loan_Tables
begin

text \<open>
  Guarantor collateral: \<open>src/src/modules/loans/guarantor-validation.service.ts\<close>.

  A hold freezes a part of the guarantor's savings (\<open>frozenSavings\<close>). The abstract operation is
  \<open>freeze\<close>; the lemmas reduce the three operations of the service to lists of it, from which
  follow that holds never exceed the free balance, that a validated nomination can always be
  placed, and that releasing undoes placing.
\<close>

section \<open>The service\<close>

type_synonym guarantor_input = "ident \<times> rat option"

fun normalizeFrom :: "ident set \<Rightarrow> guarantor_input list \<Rightarrow> (ident \<times> rat) list res" where
  "normalizeFrom seen [] = Inr []"
| "normalizeFrom seen ((memberId, amount) # rest) =
     rbind (ensure (memberId \<notin> seen) (BadRequestException ''DUPLICATE_GUARANTOR'')) (\<lambda>_.
     rbind (ensure (case amount of None \<Rightarrow> False | Some x \<Rightarrow> 0 < x)
       (BadRequestException ''INVALID_GUARANTEE_AMOUNT'')) (\<lambda>_.
     rbind (normalizeFrom (insert memberId seen) rest) (\<lambda>gs.
     Inr ((memberId, the amount) # gs))))"

definition normalizeGuarantors :: "guarantor_input list \<Rightarrow> (ident \<times> rat) list res" where
  "normalizeGuarantors noms = normalizeFrom {} noms"

definition resolveAccountType :: "loan_product \<Rightarrow> AccountType" where
  "resolveAccountType product =
     (case lp_requiredAccountType product of None \<Rightarrow> FOSA | Some ty \<Rightarrow> ty)"

definition availableBalance :: "env \<Rightarrow> account \<Rightarrow> rat" where
  "availableBalance E a = dminus E (dminus E (acc_balance a) (acc_lockedBalance a)) (acc_frozenSavings a)"

definition checkedAccount :: "env \<Rightarrow> db \<Rightarrow> ident \<Rightarrow> AccountType \<Rightarrow> ident \<times> rat \<Rightarrow> account res" where
  "checkedAccount E s tenantId ty g =
     rbind (required (BadRequestException ''GUARANTOR_ACCOUNT_NOT_FOUND'')
       (accountFor s tenantId ty (fst g))) (\<lambda>account.
     rbind (ensure (snd g \<le> availableBalance E account)
       (BadRequestException ''GUARANTOR_INSUFFICIENT_FUNDS'')) (\<lambda>_.
     Inr account))"

fun checkAll :: "env \<Rightarrow> db \<Rightarrow> ident \<Rightarrow> AccountType \<Rightarrow> (ident \<times> rat) list \<Rightarrow> unit res" where
  "checkAll E s tenantId ty [] = Inr ()"
| "checkAll E s tenantId ty (g # gs) =
     rbind (checkedAccount E s tenantId ty g) (\<lambda>_. checkAll E s tenantId ty gs)"

text \<open>The result is (total guaranteed, required coverage, coverage ratio).\<close>

definition validateGuarantorCoverage ::
  "env \<Rightarrow> db \<Rightarrow> ident \<Rightarrow> rat \<Rightarrow> guarantor_input list \<Rightarrow> loan_product \<Rightarrow> (rat \<times> rat \<times> rat) res" where
  "validateGuarantorCoverage E s tenantId loanAmount noms product =
     rbind (normalizeGuarantors noms) (\<lambda>normalized.
     let accountType = resolveAccountType product;
         coverageRatio = (case lp_guarantorCoverageRatio product of None \<Rightarrow> 1 | Some r \<Rightarrow> r);
         requiredCoverage = dp4 E (dtimes E loanAmount coverageRatio);
         totalGuaranteed = dsum E snd normalized in
     rbind (ensure (requiredCoverage \<le> totalGuaranteed)
       (BadRequestException ''INSUFFICIENT_COVERAGE'')) (\<lambda>_.
     rbind (checkAll E s tenantId accountType normalized) (\<lambda>_.
     Inr (totalGuaranteed, requiredCoverage, coverageRatio))))"

definition placeHold :: "env \<Rightarrow> ident \<Rightarrow> AccountType \<Rightarrow> db \<Rightarrow> ident \<times> rat \<Rightarrow> db res" where
  "placeHold E tenantId ty s g =
     rbind (checkedAccount E s tenantId ty g) (\<lambda>account.
     let guaranteedAmount = dp4 E (snd g);
         newFrozenSavings = dp4 E (dplus E (acc_frozenSavings account) guaranteedAmount) in
     rbind (updateAccounts (\<lambda>a. acc_id a = acc_id account \<and> acc_tenantId a = tenantId \<and>
         acc_isActive a \<and> acc_frozenSavings a = dp4 E (acc_frozenSavings account) \<and>
         dp4 E (dplus E (acc_lockedBalance account) newFrozenSavings) \<le> acc_balance a)
       (\<lambda>a. a\<lparr>acc_frozenSavings := acc_frozenSavings a + guaranteedAmount,
              acc_version := acc_version a + 1\<rparr>) s) (\<lambda>(count, s').
     rbind (ensure (count = 1) (ConflictException ''Guarantor collateral changed or insufficient''))
       (\<lambda>_. Inr s')))"

definition placeGuarantorHolds ::
  "env \<Rightarrow> db \<Rightarrow> ident \<Rightarrow> guarantor_input list \<Rightarrow> AccountType \<Rightarrow> db res" where
  "placeGuarantorHolds E s tenantId noms ty =
     rbind (normalizeGuarantors noms) (\<lambda>normalized. foldM (placeHold E tenantId ty) s normalized)"

definition releaseHold :: "env \<Rightarrow> ident \<Rightarrow> AccountType \<Rightarrow> db \<Rightarrow> ident \<times> rat \<Rightarrow> db res" where
  "releaseHold E tenantId ty s g =
     (case accountFor s tenantId ty (fst g) of
        None \<Rightarrow> Inr s
      | Some account \<Rightarrow>
        (let releaseAmount = dp4 E (min (acc_frozenSavings account) (snd g)) in
         if releaseAmount = 0 then Inr s
         else
           rbind (updateAccounts (\<lambda>a. acc_id a = acc_id account \<and> acc_tenantId a = tenantId \<and>
               acc_isActive a)
             (\<lambda>a. a\<lparr>acc_frozenSavings := acc_frozenSavings a - releaseAmount,
                    acc_version := acc_version a + 1\<rparr>) s) (\<lambda>(count, s').
           rbind (ensure (count = 1) (BadRequestException ''HOLD_RELEASE_FAILED'')) (\<lambda>_. Inr s'))))"

definition releaseGuarantorHolds ::
  "env \<Rightarrow> db \<Rightarrow> ident \<Rightarrow> guarantor_input list \<Rightarrow> AccountType \<Rightarrow> db res" where
  "releaseGuarantorHolds E s tenantId noms ty =
     rbind (normalizeGuarantors noms) (\<lambda>normalized. foldM (releaseHold E tenantId ty) s normalized)"

section \<open>The abstract hold\<close>

definition freeze :: "ident \<Rightarrow> rat \<Rightarrow> db \<Rightarrow> db" where
  "freeze k d s = s\<lparr>accounts := map (\<lambda>x. if acc_id x = k
     then x\<lparr>acc_frozenSavings := acc_frozenSavings x + d, acc_version := acc_version x + 1\<rparr> else x)
     (accounts s)\<rparr>"

definition freezeAll :: "(ident \<times> rat) list \<Rightarrow> db \<Rightarrow> db" where
  "freezeAll ds s = fold (\<lambda>(k, d). freeze k d) ds s"

definition idFor :: "db \<Rightarrow> ident \<Rightarrow> AccountType \<Rightarrow> ident \<Rightarrow> ident" where
  "idFor s t ty m = acc_id (the (accountFor s t ty m))"

text \<open>An account whose committed funds are covered by its balance.\<close>

definition covered :: "account \<Rightarrow> bool" where
  "covered a \<longleftrightarrow> acc_lockedBalance a + acc_frozenSavings a \<le> acc_balance a"

lemma normalizeFrom_Inr:
  "normalizeFrom seen gs = Inr ns \<Longrightarrow>
     ns = map (\<lambda>(m, x). (m, the x)) gs \<and> distinct (map fst ns) \<and> set (map fst ns) \<inter> seen = {} \<and>
     (\<forall>(m, x) \<in> set ns. 0 < x)"
proof (induction gs arbitrary: seen ns)
  case Nil
  then show ?case by simp
next
  case (Cons g gs)
  obtain m x where g: "g = (m, x)" by (cases g)
  with Cons.prems obtain ns' where ns': "normalizeFrom (insert m seen) gs = Inr ns'" "ns = (m, the x) # ns'"
    and m: "m \<notin> seen" and x: "0 < the x"
    by (auto simp: res_simps split: option.splits)
  note IH = Cons.IH [OF ns'(1)]
  then have d: "distinct (map fst ns')" "m \<notin> set (map fst ns')" "set (map fst ns') \<inter> seen = {}"
    by blast+
  have "distinct (map fst ns)" "set (map fst ns) \<inter> seen = {}"
    using d m by (auto simp: ns'(2))
  with IH x show ?case by (simp add: ns'(2) g)
qed
lemmas normalizeGuarantors_Inr = normalizeFrom_Inr [where seen = "{}", folded normalizeGuarantors_def]

lemma freezeAll_simps [simp]:
  "freezeAll [] s = s"
  "freezeAll ((k, d) # ds) s = freezeAll ds (freeze k d s)"
  by (simp_all add: freezeAll_def)

lemma freeze_keys [simp]: "map acc_id (accounts (freeze k d s)) = map acc_id (accounts s)"
  by (simp add: freeze_def)

lemma accountFor_freeze:
  "accountFor (freeze k d s) t ty m = map_option (\<lambda>x. if acc_id x = k
     then x\<lparr>acc_frozenSavings := acc_frozenSavings x + d, acc_version := acc_version x + 1\<rparr> else x)
     (accountFor s t ty m)"
  unfolding accountFor_def freeze_def by (simp add: findFirst_map)

lemma idFor_freeze [simp]: "accountFor s t ty m = Some a \<Longrightarrow> idFor (freeze k d s) t ty m = idFor s t ty m"
  by (simp add: idFor_def accountFor_freeze)

lemma accounts_freezeAll:
  "accounts (freezeAll ds s) = map (\<lambda>x. x\<lparr>
     acc_frozenSavings := acc_frozenSavings x + (\<Sum>(k, d) \<leftarrow> ds. if k = acc_id x then d else 0),
     acc_version := acc_version x + length (filter (\<lambda>(k, d). k = acc_id x) ds)\<rparr>) (accounts s)"
proof (induction ds arbitrary: s)
  case Nil
  then show ?case by simp
next
  case (Cons kd ds)
  obtain k d where kd: "kd = (k, d)" by (cases kd)
  show ?case unfolding kd freezeAll_simps Cons.IH by (auto simp: freeze_def add.assoc)
qed

lemma idFor_inj:
  assumes "accountFor s t ty m = Some a" and "accountFor s t ty m' = Some b"
    and "distinct (map acc_id (accounts s))" and "idFor s t ty m = idFor s t ty m'"
  shows "m = m'"
  using assms accountFor_Some [OF assms(1)] accountFor_Some [OF assms(2)]
  by (auto simp: idFor_def dest: distinct_key_eq)

section \<open>One hold\<close>

lemma unique_match:
  assumes "distinct (map key rows)" and "a \<in> set rows" and "key a = k" and "P a"
  shows "length (filter (\<lambda>x. key x = k \<and> P x) rows) = 1"
  using assms
proof (induction rows)
  case Nil
  then show ?case by simp
next
  case (Cons x rows)
  show ?case
  proof (cases "x = a")
    case True
    with Cons.prems have "\<forall>y \<in> set rows. key y \<noteq> k" by (auto simp: image_iff)
    then have "filter (\<lambda>x. key x = k \<and> P x) rows = []" by (auto simp: filter_empty_conv)
    with True Cons.prems show ?thesis by simp
  next
    case False
    with Cons.prems have "a \<in> set rows" "key x \<noteq> k" by auto
    with Cons show ?thesis by simp
  qed
qed

context decimal_runtime
begin

lemma availableBalance_exact:
  assumes "wf_account a"
  shows "availableBalance E a = acc_balance a - acc_lockedBalance a - acc_frozenSavings a"
proof -
  note w = wf_accountD [OF assms]
  have 1: "dminus E (acc_balance a) (acc_lockedBalance a) = acc_balance a - acc_lockedBalance a"
    by (rule dminus_money) (use w in simp_all)
  have "wide (acc_balance a - acc_lockedBalance a - acc_frozenSavings a)"
    by (rule wideI) (use w in \<open>auto simp: money_def intro!: places_diff\<close>)
  then show ?thesis by (simp add: availableBalance_def 1 dminus_exact)
qed

text \<open>A checked account has room for the hold, and the bound that the update uses is exact.\<close>

lemma checkedAccount_Inr:
  assumes "checkedAccount E s t ty (m, x) = Inr a" and "wf_accounts s" and "0 < x"
  shows "accountFor s t ty m = Some a" "wf_account a"
    "acc_lockedBalance a + acc_frozenSavings a + dp4 E x \<le> acc_balance a"
    "dp4 E (dplus E (acc_lockedBalance a) (dp4 E (dplus E (acc_frozenSavings a) (dp4 E x)))) =
       acc_lockedBalance a + acc_frozenSavings a + dp4 E x"
proof -
  from assms(1) show a: "accountFor s t ty m = Some a" by (auto simp: checkedAccount_def res_simps)
  show wf: "wf_account a" using wf_accountsD(2) [OF assms(2)] accountFor_Some(1) [OF a] .
  note w = wf_accountD [OF wf]
  have b: "\<bar>acc_balance a\<bar> < 10 ^ 14" "\<bar>acc_lockedBalance a\<bar> < 10 ^ 14" "\<bar>acc_frozenSavings a\<bar> < 10 ^ 14"
    and m: "m4 (acc_balance a)" "m4 (acc_lockedBalance a)" "m4 (acc_frozenSavings a)"
    using w by (auto simp: money_def)
  from assms(1) have av: "x \<le> acc_balance a - acc_lockedBalance a - acc_frozenSavings a"
    by (auto simp: checkedAccount_def res_simps availableBalance_exact wf)
  have le: "dp4 E x \<le> acc_balance a - acc_lockedBalance a - acc_frozenSavings a"
    by (rule dp4_le [OF av]) (use m in \<open>auto intro!: places_diff\<close>)
  then show "acc_lockedBalance a + acc_frozenSavings a + dp4 E x \<le> acc_balance a" by simp
  have x0: "0 \<le> dp4 E x" using assms(3) by (intro dp4_nonneg) simp
  have "wide (acc_frozenSavings a + dp4 E x)"
    by (rule wideI) (use m b le x0 in \<open>auto intro!: places_add\<close>)
  then have 1: "dp4 E (dplus E (acc_frozenSavings a) (dp4 E x)) = acc_frozenSavings a + dp4 E x"
    using m by (simp add: dplus_exact places_add)
  have "wide (acc_lockedBalance a + (acc_frozenSavings a + dp4 E x))"
    by (rule wideI) (use m b le x0 in \<open>auto intro!: places_add\<close>)
  then show "dp4 E (dplus E (acc_lockedBalance a) (dp4 E (dplus E (acc_frozenSavings a) (dp4 E x)))) =
       acc_lockedBalance a + acc_frozenSavings a + dp4 E x"
    unfolding 1 using m by (simp add: dplus_exact places_add add.assoc)
qed

lemma matching_freeze:
  assumes "wf_accounts s" and "a \<in> set (accounts s)" and "P a"
  shows "s\<lparr>accounts := map (\<lambda>r. if acc_id r = acc_id a \<and> P r
      then r\<lparr>acc_frozenSavings := acc_frozenSavings r + d, acc_version := acc_version r + 1\<rparr> else r)
      (accounts s)\<rparr> = freeze (acc_id a) d s"
proof -
  have "r = a" if "r \<in> set (accounts s)" "acc_id r = acc_id a" for r
    using distinct_key_eq [OF wf_accountsD(1) [OF assms(1)] that(1) assms(2) that(2)] .
  then have "map (\<lambda>r. if acc_id r = acc_id a \<and> P r
      then r\<lparr>acc_frozenSavings := acc_frozenSavings r + d, acc_version := acc_version r + 1\<rparr> else r)
      (accounts s) = map (\<lambda>r. if acc_id r = acc_id a
      then r\<lparr>acc_frozenSavings := acc_frozenSavings r + d, acc_version := acc_version r + 1\<rparr> else r)
      (accounts s)"
    using assms(3) by (intro map_cong) auto
  then show ?thesis by (simp add: freeze_def)
qed

lemma freeze_wf:
  assumes "wf_accounts s" and "a \<in> set (accounts s)" and "money (acc_frozenSavings a + d)"
  shows "wf_accounts (freeze (acc_id a) d s)"
proof -
  have "wf_account y" if "y \<in> set (accounts (freeze (acc_id a) d s))" for y
  proof -
    from that obtain x where x: "x \<in> set (accounts s)" and y: "y = (if acc_id x = acc_id a
        then x\<lparr>acc_frozenSavings := acc_frozenSavings x + d, acc_version := acc_version x + 1\<rparr> else x)"
      by (auto simp: freeze_def)
    have "acc_id x = acc_id a \<Longrightarrow> x = a"
      using distinct_key_eq [OF wf_accountsD(1) [OF assms(1)] x assms(2)] .
    then show ?thesis using wf_accountsD(2) [OF assms(1) x] assms(3) y by (auto simp: wf_account_def)
  qed
  moreover have "distinct (map acc_id (accounts (freeze (acc_id a) d s)))"
    using wf_accountsD(1) [OF assms(1)] by simp
  ultimately show ?thesis by (simp add: wf_accounts_def del: freeze_keys)
qed

lemma placeHold_Inr:
  assumes run: "placeHold E t ty s (m, x) = Inr s'" and wf: "wf_accounts s" and x: "0 < x"
  obtains a where "accountFor s t ty m = Some a"
    "acc_lockedBalance a + acc_frozenSavings a + dp4 E x \<le> acc_balance a"
    "s' = freeze (acc_id a) (dp4 E x) s" "wf_accounts s'"
proof -
  from run obtain a where c: "checkedAccount E s t ty (m, x) = Inr a"
    by (auto simp: placeHold_def res_simps)
  note ca = checkedAccount_Inr [OF c wf x]
  note af = accountFor_Some [OF ca(1)]
  let ?P = "\<lambda>b. acc_tenantId b = t \<and> acc_isActive b \<and> acc_frozenSavings b = acc_frozenSavings a \<and>
    acc_lockedBalance a + acc_frozenSavings a + dp4 E x \<le> acc_balance b"
  have P: "?P a" using af ca(3) by simp
  have m4a: "m4 (acc_frozenSavings a)" using wf_accountD(3) [OF ca(2)] by (rule money_m4)
  from run c have upd: "updateAccounts (\<lambda>b. acc_id b = acc_id a \<and> ?P b)
      (\<lambda>b. b\<lparr>acc_frozenSavings := acc_frozenSavings b + dp4 E x, acc_version := acc_version b + 1\<rparr>) s =
      Inr (1, s')"
    by (auto simp: placeHold_def res_simps Let_def ca(4) dp4_exact [OF m4a])
  then have s': "s' = freeze (acc_id a) (dp4 E x) s"
    unfolding updateAccounts_Inr using matching_freeze [OF wf af(1), of ?P] P by blast
  have cols: "\<forall>b \<in> set (accounts s'). account_in_columns b"
    using upd unfolding updateAccounts_Inr by blast
  have "a\<lparr>acc_frozenSavings := acc_frozenSavings a + dp4 E x, acc_version := acc_version a + 1\<rparr>
      \<in> set (accounts s')"
    using af(1) unfolding s' freeze_def by force
  with cols have "in_column (acc_frozenSavings a + dp4 E x)"
    by (fastforce simp: account_in_columns_def)
  then have "wf_accounts s'"
    unfolding s' using m4a by (intro freeze_wf [OF wf af(1)] money_in_column places_add) simp_all
  with that ca(1,3) s' show thesis by blast
qed

end

section \<open>Lists of holds\<close>

text \<open>Holds of other members leave the account of a member alone.\<close>

lemma accountFor_freeze_other:
  assumes "accountFor s t ty m = Some a" and "accountFor s t ty m' = Some b" and "m \<noteq> m'"
    and "distinct (map acc_id (accounts s))"
  shows "accountFor (freeze (acc_id a) d s) t ty m' = Some b"
proof -
  have "acc_id b \<noteq> acc_id a"
    using idFor_inj [OF assms(1,2,4)] assms(1-3) by (auto simp: idFor_def)
  then show ?thesis by (simp add: accountFor_freeze assms(2))
qed

definition committed_nonneg :: "db \<Rightarrow> bool" where
  "committed_nonneg s \<longleftrightarrow> (\<forall>a \<in> set (accounts s). 0 \<le> acc_lockedBalance a \<and> 0 \<le> acc_frozenSavings a)"

lemma wf_account_in_columns: "wf_account a \<Longrightarrow> account_in_columns a"
  by (simp add: wf_account_def account_in_columns_def money_def in_column_def)

context decimal_runtime
begin

lemma placeHolds_freezeAll:
  assumes "foldM (placeHold E t ty) s ns = Inr s'" and "wf_accounts s" and "\<forall>(m, x) \<in> set ns. 0 < x"
  shows "s' = freezeAll (map (\<lambda>(m, x). (idFor s t ty m, dp4 E x)) ns) s \<and> wf_accounts s' \<and>
    (\<forall>(m, x) \<in> set ns. \<exists>a. accountFor s t ty m = Some a)"
  using assms
proof (induction ns arbitrary: s)
  case Nil
  then show ?case by simp
next
  case (Cons g ns)
  obtain m x where g: "g = (m, x)" by (cases g)
  from Cons.prems(1) obtain s1 where 1: "placeHold E t ty s (m, x) = Inr s1"
    and rest: "foldM (placeHold E t ty) s1 ns = Inr s'" by (auto simp: g res_simps)
  have "0 < x" using Cons.prems(3) by (simp add: g)
  from placeHold_Inr [OF 1 Cons.prems(2) this] obtain a where a: "accountFor s t ty m = Some a"
    and s1: "s1 = freeze (acc_id a) (dp4 E x) s" and wf: "wf_accounts s1" by blast
  have IH: "s' = freezeAll (map (\<lambda>(m, x). (idFor s1 t ty m, dp4 E x)) ns) s1 \<and> wf_accounts s' \<and>
    (\<forall>(m, x) \<in> set ns. \<exists>a. accountFor s1 t ty m = Some a)"
    by (rule Cons.IH [OF rest wf]) (use Cons.prems(3) in auto)
  have ex: "\<exists>b. accountFor s t ty n = Some b" if "(n, y) \<in> set ns" for n y
    using IH that by (fastforce simp: s1 accountFor_freeze)
  then have mapeq: "map (\<lambda>(m, x). (idFor s1 t ty m, dp4 E x)) ns = map (\<lambda>(m, x). (idFor s t ty m, dp4 E x)) ns"
    using idFor_freeze by (auto simp: s1) (metis ex idFor_freeze)
  have idm: "idFor s t ty m = acc_id a" by (simp add: idFor_def a)
  from IH have "s' = freezeAll (map (\<lambda>(m, x). (idFor s t ty m, dp4 E x)) ns) s1" "wf_accounts s'"
    unfolding mapeq by blast+
  with a ex show ?case by (auto simp: g idm s1)
qed

lemma placeHolds_covered:
  assumes "foldM (placeHold E t ty) s ns = Inr s'" and "wf_accounts s" and "\<forall>(m, x) \<in> set ns. 0 < x"
    and "\<forall>a \<in> set (accounts s). covered a"
  shows "\<forall>a \<in> set (accounts s'). covered a"
proof -
  have "wf_accounts s' \<and> (\<forall>a \<in> set (accounts s'). covered a)"
  proof (rule foldM_inv [OF assms(1)])
    show "wf_accounts s \<and> (\<forall>a \<in> set (accounts s). covered a)" using assms by simp
    fix s g s1
    assume g: "g \<in> set ns" and inv: "wf_accounts s \<and> (\<forall>a \<in> set (accounts s). covered a)"
      and run: "placeHold E t ty s g = Inr s1"
    obtain m x where gx: "g = (m, x)" by (cases g)
    have "0 < x" using assms(3) g gx by auto
    from placeHold_Inr [OF run [unfolded gx] _ this] inv obtain a where
      a: "accountFor s t ty m = Some a" "acc_lockedBalance a + acc_frozenSavings a + dp4 E x \<le> acc_balance a"
      "s1 = freeze (acc_id a) (dp4 E x) s" "wf_accounts s1" by blast
    have "covered b" if "b \<in> set (accounts s1)" for b
    proof -
      from that obtain c where c: "c \<in> set (accounts s)" and b: "b = (if acc_id c = acc_id a
          then c\<lparr>acc_frozenSavings := acc_frozenSavings c + dp4 E x, acc_version := acc_version c + 1\<rparr> else c)"
        by (auto simp: a(3) freeze_def)
      have "acc_id c = acc_id a \<Longrightarrow> c = a"
        using inv c accountFor_Some(1) [OF a(1)] by (auto simp: wf_accounts_def dest: distinct_key_eq)
      then show ?thesis using b c inv a(2) by (auto simp: covered_def)
    qed
    with a(4) show "wf_accounts s1 \<and> (\<forall>a \<in> set (accounts s1). covered a)" by blast
  qed
  then show ?thesis by blast
qed

text \<open>A checked account always takes the hold.\<close>

lemma placeHold_ok:
  assumes c: "checkedAccount E s t ty (m, x) = Inr a" and wf: "wf_accounts s" and x: "0 < x"
    and nn: "committed_nonneg s"
  shows "placeHold E t ty s (m, x) = Inr (freeze (acc_id a) (dp4 E x) s)"
    and "wf_accounts (freeze (acc_id a) (dp4 E x) s)"
proof -
  note ca = checkedAccount_Inr [OF c wf x]
  note af = accountFor_Some [OF ca(1)]
  note w = wf_accountD [OF ca(2)]
  let ?P = "\<lambda>b. acc_tenantId b = t \<and> acc_isActive b \<and> acc_frozenSavings b = acc_frozenSavings a \<and>
    acc_lockedBalance a + acc_frozenSavings a + dp4 E x \<le> acc_balance b"
  have P: "?P a" using af ca(3) by simp
  have m4a: "m4 (acc_frozenSavings a)" using w(3) by (rule money_m4)
  have "0 \<le> acc_lockedBalance a" "0 \<le> acc_frozenSavings a" "0 \<le> dp4 E x"
    using nn af(1) x by (auto simp: committed_nonneg_def intro: dp4_nonneg)
  with ca(3) have "money (acc_frozenSavings a + dp4 E x)"
    using money_bound [OF w(1)] m4a by (auto simp: money_def intro: places_add)
  then show wf': "wf_accounts (freeze (acc_id a) (dp4 E x) s)" by (rule freeze_wf [OF wf af(1)])
  have "updateAccounts (\<lambda>b. acc_id b = acc_id a \<and> ?P b)
      (\<lambda>b. b\<lparr>acc_frozenSavings := acc_frozenSavings b + dp4 E x, acc_version := acc_version b + 1\<rparr>) s =
      Inr (1, freeze (acc_id a) (dp4 E x) s)"
    unfolding updateAccounts_Inr matching_freeze [OF wf af(1), of ?P, OF P]
    using unique_match [OF wf_accountsD(1) [OF wf] af(1) refl, of ?P, OF P] wf'
    by (auto simp: wf_accounts_def intro: wf_account_in_columns)
  then show "placeHold E t ty s (m, x) = Inr (freeze (acc_id a) (dp4 E x) s)"
    using af by (simp add: placeHold_def c Let_def ca(4) dp4_exact [OF m4a])
qed

lemma checkAll_cong:
  assumes "\<And>g. g \<in> set ns \<Longrightarrow> accountFor s' t ty (fst g) = accountFor s t ty (fst g)"
  shows "checkAll E s' t ty ns = checkAll E s t ty ns"
  using assms by (induction ns) (auto simp: checkedAccount_def)

lemma freeze_nonneg: "committed_nonneg s \<Longrightarrow> 0 \<le> d \<Longrightarrow> committed_nonneg (freeze k d s)"
  by (auto simp: committed_nonneg_def freeze_def)

lemma placeHolds_ok:
  assumes "checkAll E s t ty ns = Inr ()" and "wf_accounts s" and "committed_nonneg s"
    and "\<forall>(m, x) \<in> set ns. 0 < x" and "distinct (map fst ns)"
  shows "\<exists>s'. foldM (placeHold E t ty) s ns = Inr s'"
  using assms
proof (induction ns arbitrary: s)
  case Nil
  then show ?case by simp
next
  case (Cons g ns)
  obtain m x where g: "g = (m, x)" by (cases g)
  from Cons.prems(1) obtain a where c: "checkedAccount E s t ty (m, x) = Inr a"
    and rest: "checkAll E s t ty ns = Inr ()" by (auto simp: g res_simps)
  have x: "0 < x" using Cons.prems(4) by (simp add: g)
  note ok = placeHold_ok [OF c Cons.prems(2) x Cons.prems(3)]
  let ?s1 = "freeze (acc_id a) (dp4 E x) s"
  note a = checkedAccount_Inr(1) [OF c Cons.prems(2) x]
  have "accountFor ?s1 t ty (fst h) = accountFor s t ty (fst h)" if h: "h \<in> set ns" for h
  proof (cases "accountFor s t ty (fst h)")
    case None
    then show ?thesis by (simp add: accountFor_freeze)
  next
    case (Some b)
    have "m \<noteq> fst h" using Cons.prems(5) h by (auto simp: g)
    from accountFor_freeze_other [OF a Some this wf_accountsD(1) [OF Cons.prems(2)]] Some
    show ?thesis by simp
  qed
  then have "checkAll E ?s1 t ty ns = Inr ()" using rest checkAll_cong [of ns ?s1 t ty s] by simp
  from Cons.IH [OF this ok(2)] have "\<exists>s'. foldM (placeHold E t ty) ?s1 ns = Inr s'"
    using Cons.prems freeze_nonneg dp4_nonneg x by (auto simp: g)
  then show ?case by (simp add: g ok(1))
qed

end

section \<open>Releasing\<close>

text \<open>What the service can see of an account: everything but the version counter.\<close>

definition holdings :: "db \<Rightarrow> (ident \<times> rat \<times> rat \<times> rat) list" where
  "holdings s = map (\<lambda>a. (acc_id a, acc_balance a, acc_lockedBalance a, acc_frozenSavings a)) (accounts s)"

lemma holdings_freezeAll_inverse:
  "holdings (freezeAll (map (\<lambda>(k, d). (k, - d)) ds) (freezeAll ds s)) = holdings s"
proof -
  have "(\<Sum>(k, d) \<leftarrow> map (\<lambda>(k, d). (k, - d)) ds. if k = i then d else 0) =
      - (\<Sum>(k, d) \<leftarrow> ds. if k = i then d else 0)" for i :: ident
    by (induction ds) auto
  then show ?thesis by (simp add: holdings_def accounts_freezeAll o_def)
qed

context decimal_runtime
begin

lemma releaseHold_ok:
  assumes a: "accountFor s t ty m = Some a" and wf: "wf_accounts s"
    and x: "0 < x" "m4 x" "x \<le> acc_frozenSavings a"
  shows "releaseHold E t ty s (m, x) = Inr (freeze (acc_id a) (- x) s)"
    and "wf_accounts (freeze (acc_id a) (- x) s)"
proof -
  note af = accountFor_Some [OF a]
  note w = wf_accountD [OF wf_accountsD(2) [OF wf af(1)]]
  let ?P = "\<lambda>b. acc_tenantId b = t \<and> acc_isActive b"
  have P: "?P a" using af by simp
  have "money (acc_frozenSavings a - x)"
    using w(3) x by (auto simp: money_def intro: places_diff)
  then show wf': "wf_accounts (freeze (acc_id a) (- x) s)"
    by (intro freeze_wf [OF wf af(1)]) simp
  have upd: "updateAccounts (\<lambda>b. acc_id b = acc_id a \<and> ?P b)
      (\<lambda>b. b\<lparr>acc_frozenSavings := acc_frozenSavings b + - x, acc_version := acc_version b + 1\<rparr>) s =
      Inr (1, freeze (acc_id a) (- x) s)"
    unfolding updateAccounts_Inr matching_freeze [OF wf af(1), of ?P, OF P]
    using unique_match [OF wf_accountsD(1) [OF wf] af(1) refl, of ?P, OF P] wf'
    by (auto simp: wf_accounts_def intro: wf_account_in_columns)
  have "min (acc_frozenSavings a) x = x" using x by simp
  then show "releaseHold E t ty s (m, x) = Inr (freeze (acc_id a) (- x) s)"
    using x upd by (simp add: releaseHold_def a Let_def)
qed

lemma releaseHolds_freezeAll:
  assumes "\<forall>(m, x) \<in> set ns. 0 < x \<and> m4 x \<and>
      (\<exists>a. accountFor s t ty m = Some a \<and> x \<le> acc_frozenSavings a)"
    and "wf_accounts s" and "distinct (map fst ns)"
  shows "foldM (releaseHold E t ty) s ns =
    Inr (freezeAll (map (\<lambda>(m, x). (idFor s t ty m, - x)) ns) s)"
  using assms
proof (induction ns arbitrary: s)
  case Nil
  then show ?case by simp
next
  case (Cons g ns)
  obtain m x where g: "g = (m, x)" by (cases g)
  from Cons.prems(1) obtain a where a: "accountFor s t ty m = Some a" "x \<le> acc_frozenSavings a"
    and x: "0 < x" "m4 x" by (auto simp: g)
  note ok = releaseHold_ok [OF a(1) Cons.prems(2) x a(2)]
  let ?s1 = "freeze (acc_id a) (- x) s"
  have other: "accountFor ?s1 t ty n = Some b" if "(n, y) \<in> set ns" "accountFor s t ty n = Some b" for n y b
  proof -
    have "m \<noteq> n" using Cons.prems(3) that(1) by (auto simp: g rev_image_eqI)
    then show ?thesis
      by (rule accountFor_freeze_other [OF a(1) that(2) _ wf_accountsD(1) [OF Cons.prems(2)]])
  qed
  have "foldM (releaseHold E t ty) ?s1 ns =
      Inr (freezeAll (map (\<lambda>(m, x). (idFor ?s1 t ty m, - x)) ns) ?s1)"
  proof (rule Cons.IH [OF _ ok(2)])
    show "\<forall>(n, y) \<in> set ns. 0 < y \<and> m4 y \<and>
        (\<exists>b. accountFor ?s1 t ty n = Some b \<and> y \<le> acc_frozenSavings b)"
      using Cons.prems(1) other by (fastforce simp: g)
    show "distinct (map fst ns)" using Cons.prems(3) by simp
  qed
  moreover have "map (\<lambda>(m, x). (idFor ?s1 t ty m, - x)) ns = map (\<lambda>(m, x). (idFor s t ty m, - x)) ns"
  proof (rule map_cong [OF refl])
    fix h assume "h \<in> set ns"
    then obtain n y b where h: "h = (n, y)" "(n, y) \<in> set ns" "accountFor s t ty n = Some b"
      using Cons.prems(1) by (cases h) auto
    show "(case h of (m, x) \<Rightarrow> (idFor ?s1 t ty m, - x)) = (case h of (m, x) \<Rightarrow> (idFor s t ty m, - x))"
      by (simp add: h(1) idFor_def h(3) other [OF h(2,3)])
  qed
  ultimately have "foldM (releaseHold E t ty) ?s1 ns =
      Inr (freezeAll (map (\<lambda>(m, x). (idFor s t ty m, - x)) ns) ?s1)" by (simp only:)
  moreover have "idFor s t ty m = acc_id a" by (simp add: idFor_def a(1))
  ultimately show ?case by (simp add: g ok(1))
qed

text \<open>After placing, every hold is there to be released.\<close>

lemma frozen_after_place:
  assumes "wf_accounts s" and "committed_nonneg s" and "accountFor s t ty m = Some a"
    and "(m, x) \<in> set ns" and "\<forall>(m, x) \<in> set ns. 0 < x \<and> m4 x"
  shows "\<exists>b. accountFor (freezeAll (map (\<lambda>(m, x). (idFor s t ty m, x)) ns) s) t ty m = Some b \<and>
    x \<le> acc_frozenSavings b"
proof -
  define ds where "ds = map (\<lambda>(m, x). (idFor s t ty m, x)) ns"
  define f where "f y = y\<lparr>acc_frozenSavings := acc_frozenSavings y +
      (\<Sum>(k, d) \<leftarrow> ds. if k = acc_id y then d else 0),
     acc_version := acc_version y + length (filter (\<lambda>(k, d). k = acc_id y) ds)\<rparr>" for y :: account
  have "accountFor (freezeAll ds s) t ty m = map_option f (accountFor s t ty m)"
    unfolding accountFor_def accounts_freezeAll f_def by (simp add: findFirst_map)
  moreover have "(acc_id a, x) \<in> set ds"
    using assms(3,4) by (force simp: ds_def idFor_def)
  then have "x \<le> (\<Sum>(k, d) \<leftarrow> ds. if k = acc_id a then d else 0)"
    using assms(5)
  proof -
    have nn: "\<forall>(k, d) \<in> set ds. 0 \<le> d" using assms(5) by (auto simp: ds_def)
    have "\<forall>(k, d) \<in> set ds. 0 \<le> d \<Longrightarrow> (k, x) \<in> set ds \<Longrightarrow>
        x \<le> (\<Sum>(k', d) \<leftarrow> ds. if k' = k then d else 0)" for k
    proof (induction ds)
      case Nil
      then show ?case by simp
    next
      case (Cons h ds)
      have nn: "0 \<le> (\<Sum>(k', d) \<leftarrow> ds. if k' = k then d else 0)"
      proof (rule sum_list_nonneg)
        fix z assume "z \<in> set (map (\<lambda>(k', d). if k' = k then d else 0) ds)"
        then obtain k' d where "(k', d) \<in> set ds" "z = (if k' = k then d else 0)" by auto
        with Cons.prems(1) show "0 \<le> z" by auto
      qed
      show ?case
      proof (cases "h = (k, x)")
        case True
        with nn show ?thesis by simp
      next
        case False
        with Cons have "x \<le> (\<Sum>(k', d) \<leftarrow> ds. if k' = k then d else 0)" by simp
        then show ?thesis using Cons.prems(1) by (cases h) auto
      qed
    qed
    then show ?thesis using \<open>(acc_id a, x) \<in> set ds\<close> nn by blast
  qed
  moreover have "0 \<le> acc_frozenSavings a"
    using assms(2) accountFor_Some(1) [OF assms(3)] by (simp add: committed_nonneg_def)
  ultimately show ?thesis using assms(3) by (simp add: ds_def [symmetric] f_def)
qed

lemma release_after_place:
  assumes place: "foldM (placeHold E t ty) s ns = Inr s'" and wf: "wf_accounts s"
    and nn: "committed_nonneg s" and pos: "\<forall>(m, x) \<in> set ns. 0 < x \<and> m4 x" and d: "distinct (map fst ns)"
  shows "\<exists>s''. foldM (releaseHold E t ty) s' ns = Inr s'' \<and> holdings s'' = holdings s"
proof -
  let ?ds = "map (\<lambda>(m, x). (idFor s t ty m, x)) ns"
  have "\<forall>(m, x) \<in> set ns. 0 < x" using pos by auto
  from placeHolds_freezeAll [OF place wf this]
  have fr: "s' = freezeAll (map (\<lambda>(m, x). (idFor s t ty m, dp4 E x)) ns) s" "wf_accounts s'"
    and ex: "\<forall>(m, x) \<in> set ns. \<exists>a. accountFor s t ty m = Some a" by blast+
  have "map (\<lambda>(m, x). (idFor s t ty m, dp4 E x)) ns = ?ds"
    using pos by (auto intro!: map_cong)
  with fr have s': "s' = freezeAll ?ds s" by simp
  have there: "\<exists>b. accountFor s' t ty m = Some b \<and> x \<le> acc_frozenSavings b" if "(m, x) \<in> set ns" for m x
  proof -
    from ex that obtain a where "accountFor s t ty m = Some a" by auto
    from frozen_after_place [OF wf nn this that pos] show ?thesis by (simp add: s')
  qed
  then have "foldM (releaseHold E t ty) s' ns =
      Inr (freezeAll (map (\<lambda>(m, x). (idFor s' t ty m, - x)) ns) s')"
    using pos by (intro releaseHolds_freezeAll fr(2) d) fastforce
  moreover have "map (\<lambda>(m, x). (idFor s' t ty m, - x)) ns = map (\<lambda>(k, d). (k, - d)) ?ds"
  proof -
    have "idFor s' t ty m = idFor s t ty m" if "(m, x) \<in> set ns" for m x
    proof -
      from ex that obtain a where a: "accountFor s t ty m = Some a" by auto
      then show ?thesis
        unfolding idFor_def s' accountFor_def accounts_freezeAll by (simp add: findFirst_map)
    qed
    then show ?thesis by auto
  qed
  ultimately have "foldM (releaseHold E t ty) s' ns =
      Inr (freezeAll (map (\<lambda>(k, d). (k, - d)) ?ds) (freezeAll ?ds s))"
    by (simp only: s')
  then show ?thesis using holdings_freezeAll_inverse [of ?ds s] by blast
qed

end

section \<open>Properties\<close>

definition pledger :: "ident \<Rightarrow> rat \<Rightarrow> rat \<Rightarrow> account" where
  "pledger i b fr = \<lparr>acc_id = i, acc_tenantId = ''t'', acc_memberId = ''m'' @ i, acc_accountType = FOSA,
     acc_balance = b, acc_isActive = True, acc_version = 0, acc_lockedBalance = 10,
     acc_frozenSavings = fr, acc_allowsNegative = False, acc_minimumBalance = 0,
     acc_accountNumber = ''ACC-'' @ i\<rparr>"

definition pledge_db :: db where
  "pledge_db = empty_db\<lparr>accounts := [pledger ''1'' 1000 200, pledger ''2'' 500 0]\<rparr>"

definition pledge_product :: loan_product where
  "pledge_product = \<lparr>lp_id = ''p'', lp_interestType = InterestType.FLAT, lp_savingsMultiplier = None,
     lp_minGuarantors = 2, lp_maxGuarantors = 3, lp_requiredAccountType = None,
     lp_guarantorCoverageRatio = Some 1, lp_gracePeriodDays = 14,
     lp_tenantId = ''t'', lp_isActive = True, lp_minAmount = 100, lp_maxAmount = 100000, lp_interestRate = 3 / 25,
     lp_maxTenureMonths = 24, lp_processingFeeRate = 1 / 50, lp_gracePeriodMonths = 0\<rparr>"

definition pledges :: "guarantor_input list" where
  "pledges = [(''m1'', Some 600), (''m2'', Some 400)]"

lemma pledge_facts:
  "wf_accounts pledge_db" "committed_nonneg pledge_db" "\<forall>a \<in> set (accounts pledge_db). covered a"
  "\<forall>(m, x) \<in> set pledges. m4 (the x)"
  "validateGuarantorCoverage plain_env pledge_db ''t'' 1000 pledges pledge_product = Inr (1000, 1000, 1)"
  "resolveAccountType pledge_product = FOSA"
  by code_simp+

lemma pledge_places: "\<exists>s. placeGuarantorHolds plain_env pledge_db ''t'' pledges FOSA = Inr s"
proof -
  have "\<not> isl (placeGuarantorHolds plain_env pledge_db ''t'' pledges FOSA)" by code_simp
  then show ?thesis by (cases "placeGuarantorHolds plain_env pledge_db ''t'' pledges FOSA") auto
qed

text \<open>
  A nomination that passes validation is sufficient and can be acted on: the guaranteed total
  reaches the required coverage and placing the holds on the same database succeeds.
\<close>

theorem validated_nomination_places:
  assumes "decimal_runtime E" and "wf_accounts s" and "committed_nonneg s"
    and "validateGuarantorCoverage E s t loanAmount noms p = Inr (guaranteed, req, ratio)"
  shows "req \<le> guaranteed \<and> (\<exists>s'. placeGuarantorHolds E s t noms (resolveAccountType p) = Inr s')"
proof -
  from assms(4) obtain ns where ns: "normalizeGuarantors noms = Inr ns" and "req \<le> guaranteed"
    and chk: "checkAll E s t (resolveAccountType p) ns = Inr ()"
    by (auto simp: validateGuarantorCoverage_def res_simps Let_def)
  note n = normalizeGuarantors_Inr [OF ns]
  have "\<forall>(m, x) \<in> set ns. 0 < x" "distinct (map fst ns)" using n by blast+
  from decimal_runtime.placeHolds_ok [OF assms(1) chk assms(2,3) this] \<open>req \<le> guaranteed\<close> ns
  show ?thesis by (simp add: placeGuarantorHolds_def)
qed

theorem validated_nomination_places_witness:
  "\<exists>s'. placeGuarantorHolds plain_env pledge_db ''t'' pledges FOSA = Inr s'"
  using validated_nomination_places [OF plain.decimal_runtime_axioms pledge_facts(1,2,5)] pledge_facts(6)
  by simp

text \<open>
  C23. Placing holds freezes on every account exactly the rounded amounts pledged on it, changes no
  balance, and never freezes more than the account holds: if the committed funds of all accounts
  were covered by the balances, they still are.
\<close>

theorem placeGuarantorHolds_exact:
  assumes "decimal_runtime E" and "wf_accounts s"
    and "placeGuarantorHolds E s t noms ty = Inr s'"
  shows "map acc_balance (accounts s') = map acc_balance (accounts s) \<and>
    map acc_frozenSavings (accounts s') = map (\<lambda>a. acc_frozenSavings a +
      (\<Sum>(m, x) \<leftarrow> noms. if idFor s t ty m = acc_id a then dp4 E (the x) else 0)) (accounts s) \<and>
    ((\<forall>a \<in> set (accounts s). covered a) \<longrightarrow> (\<forall>a \<in> set (accounts s'). covered a))"
proof -
  from assms(3) obtain ns where norm: "normalizeGuarantors noms = Inr ns"
    and run: "foldM (placeHold E t ty) s ns = Inr s'"
    by (auto simp: placeGuarantorHolds_def res_simps)
  note n = normalizeGuarantors_Inr [OF norm]
  have pos: "\<forall>(m, x) \<in> set ns. 0 < x" and ns: "ns = map (\<lambda>(m, x). (m, the x)) noms"
    using n by blast+
  from decimal_runtime.placeHolds_freezeAll [OF assms(1) run assms(2) pos]
  have s': "s' = freezeAll (map (\<lambda>(m, x). (idFor s t ty m, dp4 E x)) ns) s" by blast
  have sum: "(\<Sum>(k, d) \<leftarrow> map (\<lambda>(m, x). (idFor s t ty m, dp4 E x)) ns. if k = i then d else 0) =
      (\<Sum>(m, x) \<leftarrow> noms. if idFor s t ty m = i then dp4 E (the x) else 0)" for i
    unfolding ns by (simp add: o_def split_def cong: if_cong)
  have "map acc_balance (accounts s') = map acc_balance (accounts s)"
    "map acc_frozenSavings (accounts s') = map (\<lambda>a. acc_frozenSavings a +
      (\<Sum>(m, x) \<leftarrow> noms. if idFor s t ty m = acc_id a then dp4 E (the x) else 0)) (accounts s)"
    by (simp_all only: s' accounts_freezeAll sum) (simp_all add: o_def)
  with decimal_runtime.placeHolds_covered [OF assms(1) run assms(2) pos] show ?thesis by blast
qed

theorem placeGuarantorHolds_exact_witness:
  "\<exists>s'. placeGuarantorHolds plain_env pledge_db ''t'' pledges FOSA = Inr s' \<and>
     map acc_balance (accounts s') = [1000, 500] \<and> (\<forall>a \<in> set (accounts s'). covered a)"
proof -
  have "map acc_balance (accounts pledge_db) = [1000, 500]" by code_simp
  with pledge_places placeGuarantorHolds_exact [OF plain.decimal_runtime_axioms pledge_facts(1)] pledge_facts(3)
  show ?thesis by metis
qed

text \<open>
  C24. Releasing undoes placing: for pledges in whole units of the money columns, releasing the
  same list after placing it succeeds and every balance, locked and frozen amount is as before.
\<close>

theorem release_undoes_place:
  assumes "decimal_runtime E" and "wf_accounts s" and "committed_nonneg s"
    and "\<forall>(m, x) \<in> set noms. m4 (the x)"
    and "placeGuarantorHolds E s t noms ty = Inr s'"
  shows "\<exists>s''. releaseGuarantorHolds E s' t noms ty = Inr s'' \<and> holdings s'' = holdings s"
proof -
  from assms(5) obtain ns where norm: "normalizeGuarantors noms = Inr ns"
    and run: "foldM (placeHold E t ty) s ns = Inr s'"
    by (auto simp: placeGuarantorHolds_def res_simps)
  note n = normalizeGuarantors_Inr [OF norm]
  have "\<forall>(m, x) \<in> set ns. 0 < x \<and> m4 x" "distinct (map fst ns)" using n assms(4) by auto
  from decimal_runtime.release_after_place [OF assms(1) run assms(2,3) this]
  show ?thesis by (simp add: releaseGuarantorHolds_def norm)
qed

theorem release_undoes_place_witness:
  "\<exists>s' s''. placeGuarantorHolds plain_env pledge_db ''t'' pledges FOSA = Inr s' \<and>
     releaseGuarantorHolds plain_env s' ''t'' pledges FOSA = Inr s'' \<and> holdings s'' = holdings pledge_db"
  using pledge_places release_undoes_place [OF plain.decimal_runtime_axioms pledge_facts(1,2,4)] by blast

end
