(* ===== verification/Loan_Approval.thy ===== *)
theory Loan_Approval
  imports Loan_Tables Loan_State_Machine
begin

text \<open>
  What must be true before money leaves: the product rules of an application
  (\<open>src/src/modules/loans/product-rule.service.ts\<close>), the guarantor gate
  (\<open>src/src/loans/disbursement-gate.service.ts\<close>), the four-eyes approval chain of large loans
  (\<open>src/src/modules/fraud/approval-chain.service.ts\<close>), and the approval itself
  (\<open>approve\<close> and \<open>signApprovalChain\<close> of \<open>src/src/modules/loans/loans.service.ts\<close>).
\<close>

section \<open>Product rules\<close>

record product_rules =
  pr_eligibleSavings :: rat
  pr_savingsMultiplier :: rat
  pr_minGuarantors :: int
  pr_maxGuarantors :: int

definition resolveRules :: "env \<Rightarrow> loan_product \<Rightarrow> rat \<Rightarrow> rat \<Rightarrow> product_rules" where
  "resolveRules E pdt fosaBalance bosaBalance =
     \<lparr>pr_eligibleSavings = (case lp_requiredAccountType pdt of
          Some BOSA \<Rightarrow> bosaBalance
        | Some FOSA \<Rightarrow> fosaBalance
        | None \<Rightarrow> dplus E fosaBalance bosaBalance),
      pr_savingsMultiplier = (case lp_savingsMultiplier pdt of None \<Rightarrow> 3 | Some m \<Rightarrow> m),
      pr_minGuarantors = lp_minGuarantors pdt,
      pr_maxGuarantors = lp_maxGuarantors pdt\<rparr>"

definition assertLoanApplicationRules ::
  "env \<Rightarrow> loan_product \<Rightarrow> rat \<Rightarrow> int \<Rightarrow> rat \<Rightarrow> rat \<Rightarrow> product_rules res" where
  "assertLoanApplicationRules E pdt principalAmt guarantorCount fosaBalance bosaBalance =
     (let rules = resolveRules E pdt fosaBalance bosaBalance in
      rbind (ensure (pr_eligibleSavings rules \<noteq> 0)
        (BadRequestException ''This product requires savings, but none are available.'')) (\<lambda>_.
      rbind (ensure (pr_minGuarantors rules \<le> guarantorCount)
        (BadRequestException ''minGuarantors'')) (\<lambda>_.
      rbind (ensure (\<not> (0 < pr_maxGuarantors rules \<and> pr_maxGuarantors rules < guarantorCount))
        (BadRequestException ''maxGuarantors'')) (\<lambda>_.
      let maxLoanLimit = dtimes E (pr_eligibleSavings rules) (pr_savingsMultiplier rules) in
      rbind (ensure (principalAmt \<le> maxLoanLimit)
        (BadRequestException ''Loan amount exceeds your maximum eligible limit'')) (\<lambda>_.
      Inr rules)))))"

section \<open>The guarantor gate\<close>

record gate_result =
  gatePassed :: bool
  blockingReasons :: "string list"
  acceptedCount :: nat
  requiredGuarantors :: int
  totalAcceptedCoverage :: rat
  requiredCoverage :: rat

definition loanGuarantors :: "db \<Rightarrow> ident \<Rightarrow> ident \<Rightarrow> guarantor list" where
  "loanGuarantors s tenantId loanId =
     filter (\<lambda>g. lg_loanId g = loanId \<and> lg_tenantId g = tenantId) (guarantors s)"

definition evaluateGate :: "env \<Rightarrow> db \<Rightarrow> ident \<Rightarrow> ident \<Rightarrow> gate_result res" where
  "evaluateGate E s tenantId loanId =
     rbind (required (NotFoundException ''Loan not found'') (loanById s loanId tenantId)) (\<lambda>loan.
     rbind (required (InternalError ''LoanProduct'') (productOf s loan)) (\<lambda>pdt.
     let gs = loanGuarantors s tenantId loanId;
         reqd = lp_minGuarantors pdt;
         accepted = filter (\<lambda>g. lg_status g = GuarantorStatus.ACCEPTED) gs;
         totalAccepted = dsum E lg_guaranteedAmount accepted;
         coverage = dtimes E (ln_principalAmount loan)
           (case lp_guarantorCoverageRatio pdt of None \<Rightarrow> 1 | Some r \<Rightarrow> r);
         reasons =
           (if 0 < reqd \<and> int (length gs) < reqd then [''DISBURSEMENT_BLOCKED_MIN_GUARANTORS''] else []) @
           (if 0 < reqd \<and> (\<exists>g \<in> set gs. lg_status g \<noteq> GuarantorStatus.ACCEPTED)
            then [''DISBURSEMENT_BLOCKED_GUARANTORS_PENDING''] else []) @
           (if 0 < reqd \<and> int (length accepted) < reqd
            then [''DISBURSEMENT_BLOCKED_ACCEPTED_COUNT''] else []) @
           (if 0 < reqd \<and> totalAccepted < coverage then [''DISBURSEMENT_BLOCKED_COVERAGE''] else [])
     in Inr \<lparr>gatePassed = (reasons = []), blockingReasons = reasons,
          acceptedCount = length accepted, requiredGuarantors = reqd,
          totalAcceptedCoverage = dp4 E totalAccepted, requiredCoverage = dp4 E coverage\<rparr>))"

fun join :: "string \<Rightarrow> string list \<Rightarrow> string" where
  "join sep [] = ''''"
| "join sep [x] = x"
| "join sep (x # y # xs) = x @ sep @ join sep (y # xs)"

definition assertPassed :: "env \<Rightarrow> db \<Rightarrow> ident \<Rightarrow> ident \<Rightarrow> unit res" where
  "assertPassed E s tenantId loanId =
     rbind (evaluateGate E s tenantId loanId) (\<lambda>r.
     ensure (gatePassed r) (BadRequestException (join ''; '' (blockingReasons r))))"

section \<open>The approval chain of large loans\<close>

definition DUAL_APPROVAL_THRESHOLD :: rat where "DUAL_APPROVAL_THRESHOLD = 500000"

definition requiresDualApproval :: "rat \<Rightarrow> bool" where
  "requiresDualApproval principalAmount \<longleftrightarrow> DUAL_APPROVAL_THRESHOLD \<le> principalAmount"

definition chainOf :: "db \<Rightarrow> ident \<Rightarrow> ident \<Rightarrow> approval_slot list" where
  "chainOf s loanId tenantId =
     filter (\<lambda>c. ac_loanId c = loanId \<and> ac_tenantId c = tenantId) (approvalChains s)"

definition pendingSlot :: "ident \<Rightarrow> ident \<Rightarrow> ident \<Rightarrow> UserRole \<Rightarrow> approval_slot" where
  "pendingSlot i loanId tenantId role =
     \<lparr>ac_id = i, ac_tenantId = tenantId, ac_loanId = loanId, ac_approverId = '''', ac_role = role,
      ac_status = ApprovalStatus.PENDING\<rparr>"

definition initApprovalChain :: "env \<Rightarrow> db \<Rightarrow> ident \<Rightarrow> ident \<Rightarrow> db" where
  "initApprovalChain E s loanId tenantId =
     (if 0 < length (chainOf s loanId tenantId) then s
      else s\<lparr>approvalChains := approvalChains s @
               [pendingSlot (uuid E (id_count s)) loanId tenantId MANAGER,
                pendingSlot (uuid E (Suc (id_count s))) loanId tenantId TELLER],
             id_count := id_count s + 2\<rparr>)"

definition signedChain :: "db \<Rightarrow> ident \<Rightarrow> ident \<Rightarrow> bool \<Rightarrow> db" where
  "signedChain s slotId approverId approve =
     s\<lparr>approvalChains := fst (updateMany (\<lambda>c. ac_id c = slotId)
        (\<lambda>c. c\<lparr>ac_approverId := approverId,
               ac_status := (if approve then ApprovalStatus.APPROVED else ApprovalStatus.REJECTED)\<rparr>)
        (approvalChains s))\<rparr>"

text \<open>The result is (chain complete, all approved).\<close>

definition signOff ::
  "db \<Rightarrow> ident \<Rightarrow> ident \<Rightarrow> ident \<Rightarrow> UserRole \<Rightarrow> bool \<Rightarrow> ((bool \<times> bool) \<times> db) res" where
  "signOff s loanId tenantId approverId role approve =
     (let chain = chainOf s loanId tenantId in
      rbind (ensure (chain \<noteq> []) (NotFoundException ''Approval chain not found for this loan'')) (\<lambda>_.
      rbind (required (BadRequestException ''No pending approval slot for role'')
        (findFirst (\<lambda>c. ac_role c = role \<and> ac_status c = ApprovalStatus.PENDING) chain)) (\<lambda>slot.
      rbind (ensure (findFirst (\<lambda>c. ac_approverId c = approverId \<and>
          ac_status c \<noteq> ApprovalStatus.PENDING) chain = None)
        (ForbiddenException ''An approver cannot sign off more than once on the same loan'')) (\<lambda>_.
      let s1 = writeAudit tenantId approverId
            (if approve then ''LOAN.DUAL_APPROVAL_SIGNED'' else ''LOAN.DUAL_APPROVAL_REJECTED'')
            (ac_id slot) (signedChain s (ac_id slot) approverId approve);
          updated = chainOf s1 loanId tenantId;
          allApproved = (\<forall>c \<in> set updated. ac_status c = ApprovalStatus.APPROVED);
          anyRejected = (\<exists>c \<in> set updated. ac_status c = ApprovalStatus.REJECTED);
          (rows, count) = updateMany (\<lambda>l. ln_id l = loanId \<and> ln_tenantId l = tenantId \<and>
              ln_status l = LoanStatus.APPROVED)
            (\<lambda>l. l\<lparr>ln_status := LoanStatus.REJECTED\<rparr>) (loans s1)
      in Inr ((allApproved \<or> anyRejected, allApproved),
           if \<not> anyRejected then s1
           else if 0 < count
           then writeAudit tenantId approverId ''LOAN.REJECTED_VIA_CHAIN'' loanId (s1\<lparr>loans := rows\<rparr>)
           else s1)))))"

definition isChainApproved :: "db \<Rightarrow> ident \<Rightarrow> ident \<Rightarrow> bool" where
  "isChainApproved s loanId tenantId =
     (let chain = chainOf s loanId tenantId in
      if chain = [] then True else \<forall>c \<in> set chain. ac_status c = ApprovalStatus.APPROVED)"

definition signApprovalChain ::
  "db \<Rightarrow> ident \<Rightarrow> ident \<Rightarrow> ident \<Rightarrow> UserRole \<Rightarrow> bool \<Rightarrow> ((bool \<times> bool) \<times> db) res" where
  "signApprovalChain s loanId tenantId actorId role approve =
     rbind (required (NotFoundException ''Loan not found'') (loanById s loanId tenantId)) (\<lambda>_.
     signOff s loanId tenantId actorId role approve)"

section \<open>Approval\<close>

definition approvableStatuses :: "LoanStatus list" where
  "approvableStatuses = [LoanStatus.PENDING_REVIEW, LoanStatus.PENDING_APPROVAL]"

text \<open>The database transaction of an approval, and the whole operation with what follows it.\<close>

definition approveTx :: "db \<Rightarrow> ident \<Rightarrow> ident \<Rightarrow> ident \<Rightarrow> db res" where
  "approveTx s loanId tenantId approvedBy =
     rbind (required (NotFoundException ''Loan not found'') (loanById s loanId tenantId)) (\<lambda>old.
     rbind (ensure (ln_status old \<in> set approvableStatuses)
       (BadRequestException ''Cannot approve a loan in this status'')) (\<lambda>_.
     rbind (updateLoan loanId (\<lambda>l. l\<lparr>ln_status := LoanStatus.APPROVED\<rparr>) s) (\<lambda>s1.
     Inr (writeAudit tenantId approvedBy ''LOAN.APPROVE'' loanId s1))))"

definition approveLoan :: "env \<Rightarrow> db \<Rightarrow> ident \<Rightarrow> ident \<Rightarrow> ident \<Rightarrow> (bool \<times> db) res" where
  "approveLoan E s loanId tenantId approvedBy =
     rbind (required (NotFoundException ''Loan not found'') (loanById s loanId tenantId)) (\<lambda>loan.
     rbind (ensure (ln_status loan \<in> set approvableStatuses)
       (BadRequestException ''Cannot approve a loan in this status'')) (\<lambda>_.
     rbind (assertPassed E s tenantId loanId) (\<lambda>_.
     rbind (approveTx s loanId tenantId approvedBy) (\<lambda>s1.
     let dual = requiresDualApproval (ln_principalAmount loan) in
     Inr (dual, if dual then initApprovalChain E s1 loanId tenantId else s1)))))"

section \<open>Lemmas on the chain\<close>

text \<open>
  What every chain looks like: a MANAGER slot and a TELLER slot with different identifiers, and no
  user decided both.
\<close>

definition chain_ok :: "approval_slot list \<Rightarrow> bool" where
  "chain_ok cs \<longleftrightarrow> map ac_role cs = [MANAGER, TELLER] \<and> distinct (map ac_id cs) \<and>
     (\<forall>c \<in> set cs. \<forall>d \<in> set cs. c \<noteq> d \<and> ac_status c \<noteq> ApprovalStatus.PENDING \<and>
        ac_status d \<noteq> ApprovalStatus.PENDING \<longrightarrow> ac_approverId c \<noteq> ac_approverId d)"

inductive chain_history :: "env \<Rightarrow> ident \<Rightarrow> ident \<Rightarrow> db \<Rightarrow> bool" for E l t where
  init: "chainOf s l t = [] \<Longrightarrow> uuid E (id_count s) \<noteq> uuid E (Suc (id_count s)) \<Longrightarrow>
    chain_history E l t (initApprovalChain E s l t)"
| sign: "chain_history E l t s \<Longrightarrow> signOff s l t approver role ap = Inr (r, s') \<Longrightarrow>
    chain_history E l t s'"
| other: "chain_history E l t s \<Longrightarrow> approvalChains s' = approvalChains s \<Longrightarrow> chain_history E l t s'"

lemma chainOf_cong: "approvalChains s = approvalChains s' \<Longrightarrow> chainOf s l t = chainOf s' l t"
  by (simp add: chainOf_def)

lemma chainOf_signed:
  "chainOf (signedChain s k approver ap) l t = map (\<lambda>c. if ac_id c = k
     then c\<lparr>ac_approverId := approver,
            ac_status := (if ap then ApprovalStatus.APPROVED else ApprovalStatus.REJECTED)\<rparr> else c)
     (chainOf s l t)"
proof -
  have "filter P (map f xs) = map f (filter P xs)" if "\<And>x. P (f x) = P x" for P and f :: "approval_slot \<Rightarrow> approval_slot" and xs
    using that by (induction xs) auto
  then show ?thesis by (simp add: chainOf_def signedChain_def)
qed

lemma signOff_chain:
  assumes "signOff s l t approver role ap = Inr (r, s')"
  obtains slot where "slot \<in> set (chainOf s l t)" "ac_role slot = role"
    "ac_status slot = ApprovalStatus.PENDING"
    "\<forall>c \<in> set (chainOf s l t). ac_status c \<noteq> ApprovalStatus.PENDING \<longrightarrow> ac_approverId c \<noteq> approver"
    "approvalChains s' = approvalChains (signedChain s (ac_id slot) approver ap)"
    "accounts s' = accounts s" "guarantors s' = guarantors s"
proof -
  from assms obtain slot where
    slot: "findFirst (\<lambda>c. ac_role c = role \<and> ac_status c = ApprovalStatus.PENDING) (chainOf s l t) = Some slot"
    and fresh: "findFirst (\<lambda>c. ac_approverId c = approver \<and> ac_status c \<noteq> ApprovalStatus.PENDING)
      (chainOf s l t) = None"
    and s': "approvalChains s' = approvalChains (signedChain s (ac_id slot) approver ap)"
      "accounts s' = accounts s" "guarantors s' = guarantors s"
    by (auto simp: signOff_def res_simps Let_def writeAudit_def signedChain_def updateMany_def)
  with that show thesis by (auto simp: table_simps dest!: findFirst_Some)
qed

lemma chain_ok_sign:
  assumes "chain_ok cs" and slot: "slot \<in> set cs" "ac_status slot = ApprovalStatus.PENDING"
    and fresh: "\<forall>c \<in> set cs. ac_status c \<noteq> ApprovalStatus.PENDING \<longrightarrow> ac_approverId c \<noteq> approver"
  shows "chain_ok (map (\<lambda>c. if ac_id c = ac_id slot then c\<lparr>ac_approverId := approver, ac_status := st\<rparr> else c) cs)"
proof -
  from assms(1) obtain m u where cs: "cs = [m, u]" and roles: "ac_role m = MANAGER" "ac_role u = TELLER"
    and ids: "ac_id m \<noteq> ac_id u"
    by (auto simp: chain_ok_def Cons_eq_map_conv map_eq_Cons_conv)
  from slot cs consider "slot = m" | "slot = u" by auto
  then show ?thesis
    by cases (use cs roles ids slot fresh in \<open>auto simp: chain_ok_def\<close>)
qed

lemma chain_history_ok: "chain_history E l t s \<Longrightarrow> chain_ok (chainOf s l t)"
proof (induction rule: chain_history.induct)
  case (init s)
  then have "chainOf (initApprovalChain E s l t) l t =
      [pendingSlot (uuid E (id_count s)) l t MANAGER, pendingSlot (uuid E (Suc (id_count s))) l t TELLER]"
    by (simp add: initApprovalChain_def chainOf_def pendingSlot_def)
  with init(2) show ?case by (auto simp: chain_ok_def pendingSlot_def)
next
  case (sign s approver role ap r s')
  from sign.hyps(2) obtain slot where slot: "slot \<in> set (chainOf s l t)"
    "ac_status slot = ApprovalStatus.PENDING"
    "\<forall>c \<in> set (chainOf s l t). ac_status c \<noteq> ApprovalStatus.PENDING \<longrightarrow> ac_approverId c \<noteq> approver"
    "approvalChains s' = approvalChains (signedChain s (ac_id slot) approver ap)"
    by (rule signOff_chain)
  show ?case
    unfolding chainOf_cong [OF slot(4)] chainOf_signed by (rule chain_ok_sign [OF sign.IH slot(1-3)])
next
  case (other s s')
  then show ?case using chainOf_cong by metis
qed

section \<open>Properties\<close>

definition large_loan :: loan where
  "large_loan = guarded_loan\<lparr>ln_status := LoanStatus.PENDING_APPROVAL, ln_principalAmount := 600000\<rparr>"

definition office_product :: loan_product where
  "office_product = \<lparr>lp_id = ''p'', lp_interestType = InterestType.FLAT, lp_savingsMultiplier = None,
     lp_minGuarantors = 1, lp_maxGuarantors = 3, lp_requiredAccountType = None,
     lp_guarantorCoverageRatio = Some 1, lp_gracePeriodDays = 14,
     lp_tenantId = ''t'', lp_isActive = True, lp_minAmount = 100, lp_maxAmount = 100000, lp_interestRate = 3 / 25,
     lp_maxTenureMonths = 24, lp_processingFeeRate = 1 / 50, lp_gracePeriodMonths = 0\<rparr>"

definition office_guarantor :: "rat \<Rightarrow> guarantor" where
  "office_guarantor x = \<lparr>lg_id = ''g'', lg_tenantId = ''t'', lg_loanId = ''l'', lg_memberId = ''n'',
     lg_status = GuarantorStatus.ACCEPTED, lg_guaranteedAmount = x, lg_recoveredAmount = 0,
     lg_invitedAt = 0, lg_holdPlacedAt = Some 0, lg_holdReleasedAt = None, lg_createdAt = 0\<rparr>"

definition office :: db where
  "office = empty_db\<lparr>loans := [large_loan], loanProducts := [office_product],
     guarantors := [office_guarantor 600000]\<rparr>"

lemma office_facts:
  "wf_guarantors office" "wf_loans office"
  "length (loanGuarantors office ''t'' ''l'') < 100"
  "loanById office ''l'' ''t'' = Some large_loan" "productOf office large_loan = Some office_product"
  "chainOf office ''l'' ''t'' = []"
  by code_simp+

text \<open>
  The gate of disbursement opens exactly when the product asks for no guarantor, or enough are
  nominated, every one of them has accepted, and their pledges add up to the required share of the
  principal; the sum is exact.
\<close>

theorem gate_iff:
  assumes "decimal_runtime E" and "wf_guarantors s"
    and "length (loanGuarantors s t l) < 100"
    and "loanById s l t = Some loan" and "productOf s loan = Some p"
    and "lp_guarantorCoverageRatio p = Some ratio"
  shows "assertPassed E s t l = Inr () \<longleftrightarrow>
    lp_minGuarantors p \<le> 0 \<or>
    (lp_minGuarantors p \<le> int (length (loanGuarantors s t l)) \<and>
     (\<forall>g \<in> set (loanGuarantors s t l). lg_status g = GuarantorStatus.ACCEPTED) \<and>
     dtimes E (ln_principalAmount loan) ratio \<le>
       sum_list (map lg_guaranteedAmount (loanGuarantors s t l)))"
proof -
  let ?gs = "loanGuarantors s t l"
  let ?acc = "filter (\<lambda>g. lg_status g = GuarantorStatus.ACCEPTED) ?gs"
  have g: "m4 (lg_guaranteedAmount g) \<and> 0 \<le> lg_guaranteedAmount g \<and> lg_guaranteedAmount g \<le> 10 ^ 14"
    if "g \<in> set ?acc" for g
  proof -
    have "g \<in> set (guarantors s)" using that by (auto simp: loanGuarantors_def)
    then show ?thesis using assms(2) by (force simp: wf_guarantors_def money_def)
  qed
  have bound: "sum_list (map lg_guaranteedAmount gs) \<le> 10 ^ 14 * of_nat (length gs)"
    if "\<forall>g \<in> set gs. lg_guaranteedAmount g \<le> 10 ^ 14" for gs
    using that by (induction gs) (auto simp: algebra_simps)
  have "length ?acc \<le> 99"
    using assms(3) length_filter_le [of "\<lambda>g. lg_status g = GuarantorStatus.ACCEPTED" ?gs] by linarith
  then have "of_nat (length ?acc) \<le> (99 :: rat)"
    using of_nat_le_iff [of "length ?acc" 99, where 'a = rat] by simp
  then have "sum_list (map lg_guaranteedAmount ?acc) \<le> 10 ^ 14 * 99"
    using bound [of ?acc] g by (intro order_trans [OF bound]) auto
  then have sum: "dsum E lg_guaranteedAmount ?acc = sum_list (map lg_guaranteedAmount ?acc)"
    by (intro decimal_runtime.dsum_exact [OF assms(1)]) (use g in auto)
  have "filter (\<lambda>g. lg_status g = GuarantorStatus.ACCEPTED) ?gs = ?gs \<longleftrightarrow>
      (\<forall>g \<in> set ?gs. lg_status g = GuarantorStatus.ACCEPTED)"
    by (simp add: filter_id_conv)
  then show ?thesis
    using assms(4-6)
    by (auto simp: assertPassed_def evaluateGate_def Let_def res_simps sum ensure_def)
qed

theorem gate_iff_witness: "assertPassed plain_env office ''t'' ''l'' = Inr ()"
proof -
  have "lp_guarantorCoverageRatio office_product = Some 1" by code_simp
  note iff = gate_iff [OF plain.decimal_runtime_axioms office_facts(1,3,4,5) this]
  have "loanGuarantors office ''t'' ''l'' = [office_guarantor 600000]" by code_simp
  then show ?thesis
    unfolding iff
    by (simp add: office_guarantor_def office_product_def dtimes_def plain_env_def large_loan_def)
qed

text \<open>
  C25. An approval happens only from a status that the transition table allows and with the
  guarantor gate open; it makes exactly that loan APPROVED, and a loan of KES 500,000 or more
  without a chain gets one that blocks disbursement.
\<close>

theorem approveLoan_sound:
  assumes "approveLoan E s l t u = Inr (dual, s')" and "wf_loans s"
    and "loanById s l t = Some loan" and "chainOf s l t = []"
  shows "canTransition (ln_status loan) LoanStatus.APPROVED \<and> assertPassed E s t l = Inr () \<and>
    loans s' = map (\<lambda>x. if ln_id x = l then loan\<lparr>ln_status := LoanStatus.APPROVED\<rparr> else x) (loans s) \<and>
    dual = (500000 \<le> ln_principalAmount loan) \<and> isChainApproved s' l t = (\<not> dual)"
proof -
  from assms(1,3) have st: "ln_status loan \<in> set approvableStatuses"
    and gate: "assertPassed E s t l = Inr ()"
    and dual: "dual = requiresDualApproval (ln_principalAmount loan)"
    by (auto simp: approveLoan_def res_simps Let_def)
  from assms(1,3) obtain s1 where upd: "updateLoan l (\<lambda>l. l\<lparr>ln_status := LoanStatus.APPROVED\<rparr>) s = Inr s1"
    and s': "s' = (if dual then initApprovalChain E (writeAudit t u ''LOAN.APPROVE'' l s1) l t
      else writeAudit t u ''LOAN.APPROVE'' l s1)"
    by (auto simp: approveLoan_def approveTx_def res_simps Let_def)
  have "loans s1 = map (\<lambda>x. if ln_id x = l then loan\<lparr>ln_status := LoanStatus.APPROVED\<rparr> else x) (loans s)"
    by (rule updateLoan_row(1) [OF upd]) (use assms(2) loanById_Some [OF assms(3)] in \<open>auto simp: wf_loans_def\<close>)
  moreover have "loans s' = loans s1" by (simp add: s' initApprovalChain_def writeAudit_def)
  moreover have "canTransition (ln_status loan) LoanStatus.APPROVED"
    using st by (auto simp: approvableStatuses_def canTransition_def)
  moreover have "approvalChains s1 = approvalChains s" using upd by (auto simp: updateLoan_Inr)
  then have "chainOf (writeAudit t u ''LOAN.APPROVE'' l s1) l t = []"
    using assms(4) by (simp add: chainOf_def writeAudit_def)
  then have "isChainApproved s' l t = (\<not> dual)"
    by (simp add: s' isChainApproved_def initApprovalChain_def chainOf_def pendingSlot_def)
  ultimately show ?thesis
    using gate dual by (simp add: requiresDualApproval_def DUAL_APPROVAL_THRESHOLD_def)
qed

theorem approveLoan_sound_witness:
  "\<exists>s'. approveLoan plain_env office ''l'' ''t'' ''u'' = Inr (True, s') \<and> \<not> isChainApproved s' ''l'' ''t''"
proof -
  have "\<not> isl (approveLoan plain_env office ''l'' ''t'' ''u'')" by code_simp
  then obtain dual s' where run: "approveLoan plain_env office ''l'' ''t'' ''u'' = Inr (dual, s')"
    by (cases "approveLoan plain_env office ''l'' ''t'' ''u''") auto
  with approveLoan_sound [OF run office_facts(2,4,6)] show ?thesis by (simp add: large_loan_def)
qed

text \<open>
  C26. Four eyes: in every history of a chain, when it counts as approved then a MANAGER and a
  TELLER have approved it, and they are different users.
\<close>

theorem four_eyes:
  assumes "chain_history E l t s" and "isChainApproved s l t"
  shows "\<exists>m \<in> set (chainOf s l t). \<exists>u \<in> set (chainOf s l t).
    ac_role m = MANAGER \<and> ac_role u = TELLER \<and> ac_status m = ApprovalStatus.APPROVED \<and>
    ac_status u = ApprovalStatus.APPROVED \<and> ac_approverId m \<noteq> ac_approverId u"
proof -
  note ok = chain_history_ok [OF assms(1)]
  then obtain m u where cs: "chainOf s l t = [m, u]" and r: "ac_role m = MANAGER" "ac_role u = TELLER"
    by (auto simp: chain_ok_def map_eq_Cons_conv)
  with assms(2) have st: "ac_status m = ApprovalStatus.APPROVED" "ac_status u = ApprovalStatus.APPROVED"
    by (auto simp: isChainApproved_def)
  with ok r have "ac_approverId m \<noteq> ac_approverId u"
    unfolding cs chain_ok_def by (metis ApprovalStatus.distinct(1) UserRole.distinct list.set_intros(1,2))
  with cs r st show ?thesis by auto
qed

theorem four_eyes_witness:
  "\<exists>s. chain_history plain_env ''l'' ''t'' s \<and> (\<exists>m \<in> set (chainOf s ''l'' ''t'').
     \<exists>u \<in> set (chainOf s ''l'' ''t''). ac_approverId m \<noteq> ac_approverId u)"
proof -
  let ?s0 = "initApprovalChain plain_env office ''l'' ''t''"
  define sign where "sign s u r = (case signOff s ''l'' ''t'' u r True of Inr (_, s') \<Rightarrow> s' | Inl _ \<Rightarrow> s)"
    for s u r
  have h0: "chain_history plain_env ''l'' ''t'' ?s0"
    by (rule chain_history.init [OF office_facts(6)]) code_simp
  have step: "chain_history plain_env ''l'' ''t'' (sign s u r)" if "chain_history plain_env ''l'' ''t'' s" for s u r
    using that by (auto simp: sign_def split: sum.splits intro: chain_history.sign)
  let ?s2 = "sign (sign ?s0 ''a'' MANAGER) ''b'' TELLER"
  have "chain_history plain_env ''l'' ''t'' ?s2" by (intro step h0)
  moreover have "isChainApproved ?s2 ''l'' ''t''" unfolding sign_def by code_simp
  ultimately show ?thesis using four_eyes by blast
qed

text \<open>
  Approval and the creation of the chain are two separate writes: after the approval's
  transaction has committed and before the chain is created (or if creating it fails), the loan,
  however large, counts as signed by everybody.
\<close>

theorem approval_commits_before_chain:
  assumes "approveTx s l t u = Inr s1" and "chainOf s l t = []"
  shows "isChainApproved s1 l t \<and>
    (\<exists>loan \<in> set (loans s1). ln_id loan = l \<and> ln_status loan = LoanStatus.APPROVED)"
proof -
  from assms(1) obtain old s0 where old: "loanById s l t = Some old"
    and upd: "updateLoan l (\<lambda>l. l\<lparr>ln_status := LoanStatus.APPROVED\<rparr>) s = Inr s0"
    and s1: "s1 = writeAudit t u ''LOAN.APPROVE'' l s0"
    by (auto simp: approveTx_def res_simps)
  then have "isChainApproved s1 l t"
    using assms(2) by (auto simp: updateLoan_Inr isChainApproved_def chainOf_def writeAudit_def)
  moreover from upd obtain x where x: "x \<in> set (loans s)" "ln_id x = l"
    and rows: "loans s1 = map (\<lambda>y. if ln_id y = l then y\<lparr>ln_status := LoanStatus.APPROVED\<rparr> else y) (loans s)"
    by (auto simp: s1 updateLoan_Inr writeAudit_def)
  have "x\<lparr>ln_status := LoanStatus.APPROVED\<rparr> \<in> set (loans s1)"
    using x unfolding rows by force
  then have "\<exists>loan \<in> set (loans s1). ln_id loan = l \<and> ln_status loan = LoanStatus.APPROVED"
    using x(2) by (intro bexI) auto
  ultimately show ?thesis by blast
qed

theorem approval_commits_before_chain_witness:
  "\<exists>s1. approveTx office ''l'' ''t'' ''u'' = Inr s1 \<and> isChainApproved s1 ''l'' ''t''"
proof -
  have "\<not> isl (approveTx office ''l'' ''t'' ''u'')" by code_simp
  then obtain s1 where "approveTx office ''l'' ''t'' ''u'' = Inr s1"
    by (cases "approveTx office ''l'' ''t'' ''u''") auto
  with approval_commits_before_chain [OF this office_facts(6)] show ?thesis by blast
qed

text \<open>
  A rejecting sign-off closes an APPROVED loan as REJECTED, a step that the transition table
  does not have, and releases nothing: no account and no guarantor row changes, so the guarantors'
  savings stay frozen for a loan that can never be disbursed.
\<close>

theorem chain_rejection_keeps_holds:
  assumes "signOff s l t approver role False = Inr (r, s')"
    and "loanById s l t = Some loan" and "ln_status loan = LoanStatus.APPROVED"
  shows "(\<exists>x \<in> set (loans s'). ln_id x = l \<and> ln_status x = LoanStatus.REJECTED) \<and>
    \<not> canTransition LoanStatus.APPROVED LoanStatus.REJECTED \<and>
    accounts s' = accounts s \<and> guarantors s' = guarantors s"
proof -
  note loan = loanById_Some [OF assms(2)]
  from assms(1) obtain slot where found:
    "findFirst (\<lambda>c. ac_role c = role \<and> ac_status c = ApprovalStatus.PENDING) (chainOf s l t) = Some slot"
    by (auto simp: signOff_def res_simps Let_def)
  define s1 where "s1 = writeAudit t approver ''LOAN.DUAL_APPROVAL_REJECTED'' (ac_id slot)
    (signedChain s (ac_id slot) approver False)"
  have "chainOf s1 l t = chainOf (signedChain s (ac_id slot) approver False) l t"
    by (simp add: s1_def chainOf_def writeAudit_def)
  then have rej: "\<exists>c \<in> set (chainOf s1 l t). ac_status c = ApprovalStatus.REJECTED"
    using findFirst_Some [OF found] unfolding chainOf_signed
    by (intro bexI [of _ "slot\<lparr>ac_approverId := approver, ac_status := ApprovalStatus.REJECTED\<rparr>"])
      (auto simp: image_iff intro!: bexI [of _ slot])
  let ?P = "\<lambda>x. ln_id x = l \<and> ln_tenantId x = t \<and> ln_status x = LoanStatus.APPROVED"
  have "loans s1 = loans s" "accounts s1 = accounts s" "guarantors s1 = guarantors s"
    by (simp_all add: s1_def writeAudit_def signedChain_def)
  moreover have "filter ?P (loans s) \<noteq> []" using loan assms(3) by (auto simp: filter_empty_conv)
  moreover from assms(1) have "s' = (let (rows, count) = updateMany ?P
      (\<lambda>x. x\<lparr>ln_status := LoanStatus.REJECTED\<rparr>) (loans s1) in
      if \<not> (\<exists>c \<in> set (chainOf s1 l t). ac_status c = ApprovalStatus.REJECTED) then s1
      else if 0 < count
        then writeAudit t approver ''LOAN.REJECTED_VIA_CHAIN'' l (s1\<lparr>loans := rows\<rparr>) else s1)"
    by (auto simp: signOff_def res_simps Let_def found s1_def split: prod.splits)
  ultimately have s': "s' = writeAudit t approver ''LOAN.REJECTED_VIA_CHAIN'' l
      (s1\<lparr>loans := map (\<lambda>x. if ?P x then x\<lparr>ln_status := LoanStatus.REJECTED\<rparr> else x) (loans s)\<rparr>)"
    and same: "accounts s1 = accounts s" "guarantors s1 = guarantors s"
    using rej by (simp_all add: updateMany_def)
  have "loan\<lparr>ln_status := LoanStatus.REJECTED\<rparr> \<in> set (loans s')"
    using loan assms(3) by (force simp: s' writeAudit_def)
  then have "\<exists>x \<in> set (loans s'). ln_id x = l \<and> ln_status x = LoanStatus.REJECTED"
    using loan by (intro bexI [of _ "loan\<lparr>ln_status := LoanStatus.REJECTED\<rparr>"]) auto
  then show ?thesis using same by (simp add: s' writeAudit_def canTransition_def)
qed

theorem chain_rejection_keeps_holds_witness:
  "\<exists>s s' r. approveLoan plain_env office ''l'' ''t'' ''u'' = Inr (True, s) \<and>
     signOff s ''l'' ''t'' ''a'' MANAGER False = Inr (r, s') \<and> guarantors s' = guarantors s"
proof -
  define ok where "ok = (case approveLoan plain_env office ''l'' ''t'' ''u'' of Inl _ \<Rightarrow> False
    | Inr (dual, s) \<Rightarrow> dual \<and> loanById s ''l'' ''t'' = Some (large_loan\<lparr>ln_status := LoanStatus.APPROVED\<rparr>) \<and>
        \<not> isl (signOff s ''l'' ''t'' ''a'' MANAGER False))"
  have ok unfolding ok_def by code_simp
  then obtain s where s: "approveLoan plain_env office ''l'' ''t'' ''u'' = Inr (True, s)"
    "loanById s ''l'' ''t'' = Some (large_loan\<lparr>ln_status := LoanStatus.APPROVED\<rparr>)"
    and "\<not> isl (signOff s ''l'' ''t'' ''a'' MANAGER False)"
    by (auto simp: ok_def split: sum.splits)
  then obtain r s' where "signOff s ''l'' ''t'' ''a'' MANAGER False = Inr (r, s')"
    by (cases "signOff s ''l'' ''t'' ''a'' MANAGER False") auto
  with chain_rejection_keeps_holds [OF this s(2)] s(1) show ?thesis by auto
qed

end
