(* ===== verification/Waterfall.thy ===== *)
theory Waterfall
  imports Decimals
begin

text \<open>
  The order in which a repayment is applied: penalties, then accrued interest, then principal.
  Two services compute it, each in its own way: \<open>processRepayment\<close> of
  \<open>src/src/modules/loans/loan-repayment.service.ts\<close> (rounding after every step, the excess is an
  overpayment) and \<open>repay\<close> of \<open>src/src/modules/loans/loans.service.ts\<close> (capping the amount
  first, the remainder goes to principal). The locale \<open>waterfall\<close> is the contract of a split;
  both implementations satisfy it, so the services share its consequences.
\<close>

section \<open>The contract\<close>

locale waterfall =
  fixes split_of :: "rat \<Rightarrow> rat \<Rightarrow> rat \<Rightarrow> rat \<Rightarrow> rat \<times> rat \<times> rat \<times> rat"
  assumes split_exact:
    "\<lbrakk>money amount; 0 \<le> amount; money p; 0 \<le> p; money i; 0 \<le> i; money c; 0 \<le> c\<rbrakk> \<Longrightarrow>
     split_of amount p i c =
       (let tp = min amount p; ti = min (amount - tp) i; tc = min (amount - tp - ti) c
        in (tp, ti, tc, amount - tp - ti - tc))"
begin

lemma split_eqs:
  assumes "split_of amount p i c = (tp, ti, tc, r)"
    and "money amount" "0 \<le> amount" "money p" "0 \<le> p" "money i" "0 \<le> i" "money c" "0 \<le> c"
  shows "tp = min amount p" "ti = min (amount - tp) i" "tc = min (amount - tp - ti) c"
    "r = amount - tp - ti - tc"
proof -
  have "(tp, ti, tc, r) = (let tp = min amount p; ti = min (amount - tp) i; tc = min (amount - tp - ti) c
      in (tp, ti, tc, amount - tp - ti - tc))"
    using assms(1) split_exact [OF assms(2-9)] by (simp only:)
  then show "tp = min amount p" "ti = min (amount - tp) i" "tc = min (amount - tp - ti) c"
    "r = amount - tp - ti - tc" unfolding Let_def by blast+
qed

text \<open>The four parts make up the amount, none is negative, and no part exceeds what it pays off.\<close>

lemma split_parts:
  assumes "split_of amount p i c = (tp, ti, tc, r)"
    and "money amount" "0 \<le> amount" "money p" "0 \<le> p" "money i" "0 \<le> i" "money c" "0 \<le> c"
  shows "tp + ti + tc + r = amount" "0 \<le> tp" "0 \<le> ti" "0 \<le> tc" "0 \<le> r" "tp \<le> p" "ti \<le> i" "tc \<le> c"
  using split_eqs [OF assms] assms(3,5,7,9) by linarith+

text \<open>Priority: a later part gets money only when the earlier dues are settled.\<close>

lemma split_priority:
  assumes "split_of amount p i c = (tp, ti, tc, r)"
    and "money amount" "0 \<le> amount" "money p" "0 \<le> p" "money i" "0 \<le> i" "money c" "0 \<le> c"
  shows "0 < ti \<Longrightarrow> tp = p" "0 < tc \<Longrightarrow> tp = p \<and> ti = i" "0 < r \<Longrightarrow> tp = p \<and> ti = i \<and> tc = c"
  using split_eqs [OF assms] split_parts [OF assms] by linarith+

text \<open>The debt is settled exactly by an amount that reaches it.\<close>

lemma split_settles:
  assumes "split_of amount p i c = (tp, ti, tc, r)"
    and "money amount" "0 \<le> amount" "money p" "0 \<le> p" "money i" "0 \<le> i" "money c" "0 \<le> c"
  shows "tp = p \<and> ti = i \<and> tc = c \<longleftrightarrow> p + i + c \<le> amount"
  using split_eqs [OF assms] split_parts [OF assms] by linarith

lemma split_total:
  assumes "split_of amount p i c = (tp, ti, tc, r)"
    and "money amount" "0 \<le> amount" "money p" "0 \<le> p" "money i" "0 \<le> i" "money c" "0 \<le> c"
  shows "tp + ti + tc = min amount (p + i + c)"
  using split_eqs [OF assms] split_parts [OF assms] by linarith

lemma split_money:
  assumes "split_of amount p i c = (tp, ti, tc, r)"
    and "money amount" "0 \<le> amount" "money p" "0 \<le> p" "money i" "0 \<le> i" "money c" "0 \<le> c"
  shows "money tp" "money ti" "money tc" "money r"
proof -
  note eqs = split_eqs [OF assms]
  have m1: "m4 tp" unfolding eqs(1) using assms(2,4) by (intro places_min) (simp_all add: money_m4)
  have m2: "m4 ti" unfolding eqs(2) using assms(2,6) m1
    by (intro places_min places_diff) (simp_all add: money_m4)
  have m3: "m4 tc" unfolding eqs(3) using assms(2,8) m1 m2
    by (intro places_min places_diff) (simp_all add: money_m4)
  have m4: "m4 r" unfolding eqs(4) using assms(2) m1 m2 m3
    by (intro places_diff) (simp_all add: money_m4)
  note m = m1 m2 m3 m4
  note parts = split_parts [OF assms]
  have b: "\<bar>tp\<bar> \<le> \<bar>amount\<bar>" "\<bar>ti\<bar> \<le> \<bar>amount\<bar>" "\<bar>tc\<bar> \<le> \<bar>amount\<bar>" "\<bar>r\<bar> \<le> \<bar>amount\<bar>"
    using parts by linarith+
  show "money tp" "money ti" "money tc" "money r"
    using m b by (auto intro: money_shrink [OF assms(2)])
qed

end

section \<open>The two implementations\<close>

definition waterfallSplit :: "env \<Rightarrow> rat \<Rightarrow> rat \<Rightarrow> rat \<Rightarrow> rat \<Rightarrow> rat \<times> rat \<times> rat \<times> rat" where
  "waterfallSplit E amount penaltyBefore interestBefore outstandingBefore =
     (let remaining = amount;
          toPenalty = dp4 E (min remaining penaltyBefore);
          remaining = dp4 E (dminus E remaining toPenalty);
          toInterest = dp4 E (min remaining interestBefore);
          remaining = dp4 E (dminus E remaining toInterest);
          toPrincipal = dp4 E (min remaining outstandingBefore);
          remaining = dp4 E (dminus E remaining toPrincipal);
          overpayment = (if 0 < remaining then remaining else 0)
      in (toPenalty, toInterest, toPrincipal, overpayment))"

text \<open>The fourth part is what the cap leaves of the requested amount.\<close>

definition cappedRepayment :: "env \<Rightarrow> rat \<Rightarrow> rat \<Rightarrow> rat \<Rightarrow> rat \<Rightarrow> rat" where
  "cappedRepayment E amount arrears accrued outstanding =
     (let totalOwed = dplus E (dplus E arrears accrued) outstanding in
      if totalOwed < amount then totalOwed else amount)"

definition repaySplit :: "env \<Rightarrow> rat \<Rightarrow> rat \<Rightarrow> rat \<Rightarrow> rat \<Rightarrow> rat \<times> rat \<times> rat \<times> rat" where
  "repaySplit E amount arrears accrued outstanding =
     (let actualRepayment = cappedRepayment E amount arrears accrued outstanding;
          remaining = actualRepayment;
          toArrears = min remaining arrears;
          remaining = dminus E remaining toArrears;
          toInterest = min remaining accrued;
          remaining = dminus E remaining toInterest;
          toPrincipal = remaining
      in (toArrears, toInterest, toPrincipal, amount - actualRepayment))"

context decimal_runtime
begin

lemma positive_part: "0 \<le> x \<Longrightarrow> (if 0 < x then x else 0) = x" for x :: rat
  by auto

lemma waterfallSplit_exact:
  assumes "money amount" "0 \<le> amount" "money p" "0 \<le> p" "money i" "0 \<le> i" "money c" "0 \<le> c"
  shows "waterfallSplit E amount p i c =
       (let tp = min amount p; ti = min (amount - tp) i; tc = min (amount - tp - ti) c
        in (tp, ti, tc, amount - tp - ti - tc))"
proof -
  let ?tp = "min amount p"
  let ?ti = "min (amount - ?tp) i"
  let ?tc = "min (amount - ?tp - ?ti) c"
  have tp: "money ?tp" "0 \<le> ?tp" "?tp \<le> amount" using assms by (auto intro: money_min)
  then have r1: "money (amount - ?tp)" "0 \<le> amount - ?tp" using assms by (auto intro: money_diff)
  have ti: "money ?ti" "0 \<le> ?ti" "?ti \<le> amount - ?tp" using assms r1 by (auto intro: money_min)
  then have r2: "money (amount - ?tp - ?ti)" "0 \<le> amount - ?tp - ?ti" using r1 by (auto intro: money_diff)
  have tc: "money ?tc" "0 \<le> ?tc" "?tc \<le> amount - ?tp - ?ti" using assms r2 by (auto intro: money_min)
  then have r3: "money (amount - ?tp - ?ti - ?tc)" "0 \<le> amount - ?tp - ?ti - ?tc"
    using r2 by (auto intro: money_diff)
  have 1: "dp4 E ?tp = ?tp" "dp4 E ?ti = ?ti" "dp4 E ?tc = ?tc"
    using tp(1) ti(1) tc(1) by (simp_all add: money_m4)
  have 2: "dp4 E (dminus E amount ?tp) = amount - ?tp"
    using assms(1) tp(1) r1(1) by (simp add: dminus_money money_m4)
  have 3: "dp4 E (dminus E (amount - ?tp) ?ti) = amount - ?tp - ?ti"
    using r1(1) ti(1) r2(1) by (simp add: dminus_money money_m4)
  have 4: "dp4 E (dminus E (amount - ?tp - ?ti) ?tc) = amount - ?tp - ?ti - ?tc"
    using r2(1) tc(1) r3(1) by (simp add: dminus_money money_m4)
  show ?thesis
    unfolding waterfallSplit_def Let_def 1 2 3 4 positive_part [OF r3(2)] ..
qed

lemma cappedRepayment_exact:
  assumes "money p" "money i" "money c"
  shows "cappedRepayment E amount p i c = min amount (p + i + c)"
proof -
  have "dplus E (dplus E p i) c = p + i + c"
  proof -
    have "wide (p + i + c)"
      by (rule wideI) (use assms in \<open>auto simp: money_def intro!: places_add\<close>)
    then show ?thesis using assms by (simp add: dplus_money dplus_exact)
  qed
  then show ?thesis by (auto simp: cappedRepayment_def min_def)
qed

lemma repaySplit_exact:
  assumes "money amount" "0 \<le> amount" "money p" "0 \<le> p" "money i" "0 \<le> i" "money c" "0 \<le> c"
  shows "repaySplit E amount p i c =
       (let tp = min amount p; ti = min (amount - tp) i; tc = min (amount - tp - ti) c
        in (tp, ti, tc, amount - tp - ti - tc))"
proof -
  define a where "a = min amount (p + i + c)"
  have a: "m4 a" "0 \<le> a" "a \<le> amount" unfolding a_def
    using assms by (auto simp: money_m4 intro!: places_min places_add)
  then have ma: "money a" by (intro money_shrink [OF assms(1)]) auto
  let ?tp = "min a p"
  let ?ti = "min (a - ?tp) i"
  have tp: "money ?tp" using ma assms by (intro money_min)
  then have r1: "money (a - ?tp)" using ma assms a by (auto intro: money_diff)
  have ti: "money ?ti" using r1 assms by (intro money_min)
  have 1: "dminus E a ?tp = a - ?tp" using ma tp by (rule dminus_money)
  have 2: "dminus E (a - ?tp) ?ti = a - ?tp - ?ti" using r1 ti by (rule dminus_money)
  have 3: "?tp = min amount p" using assms(4,6,8) unfolding a_def by linarith
  have 4: "?ti = min (amount - ?tp) i" using assms(2,4,6,8) unfolding a_def by linarith
  have 5: "a - ?tp - ?ti = min (amount - ?tp - ?ti) c" using assms(2,4,6,8) unfolding a_def by linarith
  have 6: "amount - a = amount - ?tp - ?ti - (a - ?tp - ?ti)" by simp
  have "repaySplit E amount p i c = (?tp, ?ti, a - ?tp - ?ti, amount - a)"
    unfolding repaySplit_def Let_def cappedRepayment_exact [OF assms(3,5,7)] a_def [symmetric] 1 2 ..
  then show ?thesis unfolding Let_def 6 using 3 4 5 by metis
qed

end

sublocale decimal_runtime \<subseteq> received: waterfall "waterfallSplit E"
  by unfold_locales (rule waterfallSplit_exact)

sublocale decimal_runtime \<subseteq> debited: waterfall "repaySplit E"
  by unfold_locales (rule repaySplit_exact)

context decimal_runtime
begin

lemmas received_parts = received.split_parts
lemmas received_priority = received.split_priority
lemmas received_money = received.split_money
lemmas debited_parts = debited.split_parts
lemmas debited_total = debited.split_total
lemmas debited_priority = debited.split_priority
lemmas debited_money = debited.split_money
lemmas debited_settles = debited.split_settles
lemmas received_settles = received.split_settles

end

interpretation ref_received: waterfall "waterfallSplit ref_env"
  by unfold_locales (rule ref.waterfallSplit_exact)

interpretation ref_debited: waterfall "repaySplit ref_env"
  by unfold_locales (rule ref.repaySplit_exact)

section \<open>Properties\<close>

text \<open>
  The two services split a repayment in the same way: on amounts of the money columns the
  step-wise rounded split of a received payment and the capped split of a debited one agree.
\<close>

theorem splits_agree:
  assumes "decimal_runtime E" and "money amount" "0 \<le> amount" "money p" "0 \<le> p" "money i" "0 \<le> i"
    "money c" "0 \<le> c"
  shows "waterfallSplit E amount p i c = repaySplit E amount p i c"
  using decimal_runtime.waterfallSplit_exact [OF assms] decimal_runtime.repaySplit_exact [OF assms] by simp

theorem splits_agree_witness:
  "waterfallSplit plain_env 250 100 30 1000 = (100, 30, 120, 0) \<and>
   repaySplit plain_env 250 100 30 1000 = (100, 30, 120, 0)"
proof -
  have "repaySplit plain_env 250 100 30 1000 = (100, 30, 120, 0)" by code_simp
  then show ?thesis
    using splits_agree [OF plain.decimal_runtime_axioms, of 250 100 30 1000] by (simp add: money_def)
qed

text \<open>
  C27. A split loses and creates nothing and respects the order: the parts add up to the amount,
  no part is negative or larger than the due it pays, interest is paid only after all penalties,
  principal only after all interest, and an excess only remains when the whole debt is settled.
\<close>

theorem waterfall_order:
  assumes "decimal_runtime E" and "money amount" "0 \<le> amount" "money p" "0 \<le> p" "money i" "0 \<le> i"
    "money c" "0 \<le> c" and "waterfallSplit E amount p i c = (tp, ti, tc, r)"
  shows "tp + ti + tc + r = amount \<and> 0 \<le> tp \<and> tp \<le> p \<and> 0 \<le> ti \<and> ti \<le> i \<and> 0 \<le> tc \<and> tc \<le> c \<and> 0 \<le> r \<and>
    (0 < ti \<longrightarrow> tp = p) \<and> (0 < tc \<longrightarrow> tp = p \<and> ti = i) \<and> (0 < r \<longrightarrow> tp = p \<and> ti = i \<and> tc = c)"
proof -
  note args = assms(1,10,2-9)
  from decimal_runtime.received_parts [OF args] decimal_runtime.received_priority [OF args]
  show ?thesis by blast
qed

theorem waterfall_order_witness:
  "waterfallSplit plain_env 250 100 30 1000 = (100, 30, 120, 0) \<and> (100 :: rat) + 30 + 120 + 0 = 250"
proof -
  have "waterfallSplit plain_env 250 100 30 1000 = (100, 30, 120, 0)" by code_simp
  with waterfall_order [OF plain.decimal_runtime_axioms _ _ _ _ _ _ _ _ this]
  show ?thesis by (simp add: money_def)
qed

end
