(* ===== verification/Loan_Repayment.thy ===== *)
theory Loan_Repayment
  imports Ledger_Laws Loan_Tables Waterfall Loan_State_Machine
begin

text \<open>
  Repayments that arrive from outside (M-Pesa, cash):
  \<open>src/src/modules/loans/loan-repayment.service.ts\<close>.

  \<open>processRepayment\<close> runs one database transaction; when it throws, the database is rolled back
  and a failure record is written to the audit log, so the result is a pair of the outcome and the
  new database. The lemmas follow the waterfall through the instalments, the transaction rows and
  the ledger legs.
\<close>

section \<open>Inputs and results\<close>

text \<open>An amount that is not finite is \<open>None\<close>.\<close>

record repayment_input =
  ri_tenantId :: ident
  ri_amount :: "rat option"
  ri_reference :: string
  ri_processedBy :: ident
  ri_memberId :: "ident option"
  ri_loanId :: "ident option"
  ri_loanNumber :: "string option"
  ri_accountReference :: "string option"
  ri_mpesaTxId :: "ident option"
  ri_receipt :: "string option"
  ri_resultCode :: "int option"
  ri_transactionDate :: "int option"
  ri_callbackPayload :: "callback_payload option"

record repayment_summary =
  rs_loanId :: ident
  rs_loanNumber :: string
  rs_toPenalty :: rat
  rs_toInterest :: rat
  rs_toPrincipal :: rat
  rs_overpayment :: rat
  rs_outstandingBalance :: rat
  rs_status :: LoanStatus

text \<open>Removing a leading \<open>LOAN-\<close>.\<close>

definition stripLoanPrefix :: "string \<Rightarrow> string" where
  "stripLoanPrefix r = (if take 5 r = ''LOAN-'' then drop 5 r else r)"

definition validateLoanForRepayment :: "db \<Rightarrow> string \<Rightarrow> ident \<Rightarrow> (ident \<times> LoanStatus) res" where
  "validateLoanForRepayment s loanReference tenantId =
     (let loanNumber = stripLoanPrefix loanReference in
      rbind (required (NotFoundException ''Loan not found'')
        (findFirst (\<lambda>l. ln_loanNumber l = loanNumber \<and> ln_tenantId l = tenantId) (loans s))) (\<lambda>loan.
      rbind (ensure (ln_status loan \<in> {LoanStatus.DISBURSED, LoanStatus.ACTIVE})
        (BadRequestException ''Loan is not in a repayable state'')) (\<lambda>_.
      Inr (ln_id loan, ln_status loan))))"

section \<open>The target loan and the account\<close>

text \<open>\<open>ORDER BY disbursedAt ASC NULLS LAST, createdAt ASC\<close> with stable sorts.\<close>

definition byDisbursal :: "loan list \<Rightarrow> loan list" where
  "byDisbursal rows =
     (let rows' = sort_key ln_createdAt rows in
      sort_key (\<lambda>l. the (ln_disbursedAt l)) (filter (\<lambda>l. ln_disbursedAt l \<noteq> None) rows') @
      filter (\<lambda>l. ln_disbursedAt l = None) rows')"

definition repayableStatuses :: "LoanStatus list" where
  "repayableStatuses = [LoanStatus.ACTIVE, LoanStatus.DISBURSED, LoanStatus.DEFAULTED]"

definition lockTargetLoan :: "db \<Rightarrow> repayment_input \<Rightarrow> loan res" where
  "lockTargetLoan s inp =
     (let loanNumber = coalesce (ri_loanNumber inp) (map_option stripLoanPrefix (ri_accountReference inp));
          rows = (if truthy (ri_loanId inp)
              then filter (\<lambda>l. ln_id l = the (ri_loanId inp) \<and> ln_tenantId l = ri_tenantId inp) (loans s)
            else if truthy loanNumber
              then filter (\<lambda>l. ln_loanNumber l = the loanNumber \<and> ln_tenantId l = ri_tenantId inp) (loans s)
            else byDisbursal (filter (\<lambda>l. Some (ln_memberId l) = ri_memberId inp \<and>
                ln_tenantId l = ri_tenantId inp \<and> ln_status l \<in> set repayableStatuses) (loans s)))
      in rbind (required (NotFoundException ''Target loan not found for repayment'')
           (findFirst (\<lambda>_. True) rows)) (\<lambda>loan.
         rbind (ensure (ln_status loan \<in> set repayableStatuses)
           (BadRequestException ''Loan is not repayable in this status'')) (\<lambda>_.
         Inr loan)))"

definition lockFosaAccount :: "db \<Rightarrow> ident \<Rightarrow> ident \<Rightarrow> account res" where
  "lockFosaAccount s tenantId memberId =
     required (NotFoundException ''Active FOSA account not found for repayment'')
       (accountFor s tenantId FOSA memberId)"

section \<open>Instalments\<close>

text \<open>What one instalment takes of the three amounts, and how it is marked.\<close>

definition instalmentPrincipalDue :: "repayment \<Rightarrow> rat" where
  "instalmentPrincipalDue row = (if 0 < lr_principalDue row then lr_principalDue row else lr_amountPaid row)"

definition takeFor :: "env \<Rightarrow> rat \<Rightarrow> rat \<Rightarrow> rat \<Rightarrow> rat" where
  "takeFor E available due paid = dp4 E (min available (max (dminus E due paid) 0))"

definition payInstalment :: "env \<Rightarrow> int \<Rightarrow> rat \<Rightarrow> rat \<Rightarrow> rat \<Rightarrow> repayment \<Rightarrow> repayment" where
  "payInstalment E now addPenalty addInterest addPrincipal row =
     (let nextPenaltyPaid = dp4 E (dplus E (lr_penaltyPaid row) addPenalty);
          nextInterestPaid = dp4 E (dplus E (lr_interestPaid row) addInterest);
          nextPrincipalPaid = dp4 E (dplus E (lr_principalPaid row) addPrincipal);
          paidTotal = dplus E (dplus E nextPenaltyPaid nextInterestPaid) nextPrincipalPaid;
          dueTotal = dplus E (dplus E (lr_penaltyDue row) (lr_interestDue row)) (instalmentPrincipalDue row);
          status = (if dueTotal \<le> paidTotal then InstallmentStatus.PAID else InstallmentStatus.PARTIAL)
      in row\<lparr>lr_penaltyPaid := nextPenaltyPaid, lr_interestPaid := nextInterestPaid,
             lr_principalPaid := nextPrincipalPaid, lr_amountPaid := dp4 E paidTotal,
             lr_status := status, lr_paidAt := (if status = InstallmentStatus.PAID then Some now else None),
             lr_method := ''WATERFALL''\<rparr>)"

fun applyToRows :: "env \<Rightarrow> int \<Rightarrow> rat \<Rightarrow> rat \<Rightarrow> rat \<Rightarrow> repayment list \<Rightarrow> db \<Rightarrow> db res" where
  "applyToRows E now penalty interest principalLeft [] s = Inr s"
| "applyToRows E now penalty interest principalLeft (row # rows) s =
     (if dplus E (dplus E penalty interest) principalLeft \<le> 0 then Inr s
      else
        (let addPenalty = takeFor E penalty (lr_penaltyDue row) (lr_penaltyPaid row);
             addInterest = takeFor E interest (lr_interestDue row) (lr_interestPaid row);
             addPrincipal = takeFor E principalLeft (instalmentPrincipalDue row) (lr_principalPaid row);
             penalty' = dp4 E (dminus E penalty addPenalty);
             interest' = dp4 E (dminus E interest addInterest);
             principalLeft' = dp4 E (dminus E principalLeft addPrincipal)
         in if dplus E (dplus E addPenalty addInterest) addPrincipal \<le> 0
            then applyToRows E now penalty' interest' principalLeft' rows s
            else rbind (updateRepayment (lr_id row)
                   (\<lambda>r. payInstalment E now addPenalty addInterest addPrincipal row) s)
                 (applyToRows E now penalty' interest' principalLeft' rows)))"

definition openInstalments :: "db \<Rightarrow> ident \<Rightarrow> ident \<Rightarrow> repayment list" where
  "openInstalments s tenantId loanId =
     sort_key lr_dueDate (sort_key lr_dayNumber
       (filter (\<lambda>r. lr_tenantId r = tenantId \<and> lr_loanId r = loanId \<and>
          lr_status r \<in> {InstallmentStatus.PENDING, InstallmentStatus.PARTIAL}) (repayments s)))"

definition applyInstallmentAllocation ::
  "env \<Rightarrow> int \<Rightarrow> db \<Rightarrow> ident \<Rightarrow> ident \<Rightarrow> rat \<Rightarrow> rat \<Rightarrow> rat \<Rightarrow> db res" where
  "applyInstallmentAllocation E now s tenantId loanId penalty interest principalAmt =
     applyToRows E now penalty interest principalAmt (openInstalments s tenantId loanId) s"

section \<open>Transaction rows and legs\<close>

definition createAllocationTransaction ::
  "env \<Rightarrow> repayment_input \<Rightarrow> ident \<Rightarrow> ident \<Rightarrow> rat \<Rightarrow> rat \<Rightarrow> TransactionType \<Rightarrow> string \<Rightarrow> db \<Rightarrow> (ident \<times> db) res" where
  "createAllocationTransaction E inp accountId loanId amount balance ty suffix s =
     (let unique = uuid E (id_count s);
          s0 = s\<lparr>id_count := Suc (id_count s)\<rparr> in
      rbind (createTransaction E
        \<lparr>tx_id = '''', tx_tenantId = ri_tenantId inp, tx_accountId = accountId,
         tx_loanId = Some loanId, tx_type = ty, tx_status = TransactionStatus.COMPLETED,
         tx_amount = dp4 E amount, tx_balanceBefore = dp4 E balance, tx_balanceAfter = dp4 E balance,
         tx_reference = ri_reference inp @ ''-'' @ suffix @ ''-'' @ unique,
         tx_processedBy = ri_processedBy inp, tx_linkedTransactionId = None\<rparr> s0) (\<lambda>(t, s1).
      Inr (tx_id t, s1)))"

text \<open>The type of the statement row, the text in its reference, and the name of the entry.\<close>

fun legText :: "leg \<Rightarrow> TransactionType \<times> string \<times> string" where
  "legText leg.PENALTY = (TransactionType.PENALTY, ''PENALTY_ALLOCATION'', ''PENALTY'')"
| "legText leg.INTEREST = (TransactionType.INTEREST_EARNED, ''INTEREST_ALLOCATION'', ''INTEREST'')"
| "legText leg.PRINCIPAL = (TransactionType.LOAN_REPAYMENT, ''PRINCIPAL_ALLOCATION'', ''PRINCIPAL'')"

text \<open>One leg: a statement row and a general-ledger entry, when the amount is positive.\<close>

definition repaymentLeg ::
  "env \<Rightarrow> repayment_input \<Rightarrow> ident \<Rightarrow> ident \<Rightarrow> rat \<Rightarrow> leg \<Rightarrow> rat \<Rightarrow> ident list \<times> db \<Rightarrow> (ident list \<times> db) res" where
  "repaymentLeg E inp accountId loanId balance l amount st =
     (if 0 < amount then
        (let (ty, suffix, name) = legText l in
         rbind (createAllocationTransaction E inp accountId loanId amount balance ty suffix (snd st)) (\<lambda>(txId, s1).
         rbind (postLoanRepaymentLegEntry E s1 (ri_tenantId inp) (ri_reference inp @ ''-'' @ name) l
           amount txId (ri_processedBy inp)) (\<lambda>(_, s2).
         Inr (fst st @ [txId], s2))))
      else Inr st)"

definition overpaymentDeposit ::
  "env \<Rightarrow> repayment_input \<Rightarrow> ident \<Rightarrow> ident \<Rightarrow> rat \<Rightarrow> ident list \<times> db \<Rightarrow> (ident list \<times> db) res" where
  "overpaymentDeposit E inp accountId loanId overpayment st =
     (if 0 < overpayment then
        rbind (postEntry E True (snd st)
          \<lparr>ep_tenantId = ri_tenantId inp, ep_reference = ri_reference inp @ ''-OVERPAY'',
           ep_journalType = JournalEntryType.DEPOSIT, ep_accountId = accountId,
           ep_amount = overpayment, ep_direction = CREDIT, ep_actorId = Some (ri_processedBy inp),
           ep_linkedTransactionId = None, ep_loanId = Some loanId\<rparr>) (\<lambda>((t, _), s1).
        Inr (fst st @ [tx_id t], s1))
      else Inr st)"

section \<open>The transaction\<close>

definition repaidStatus :: "env \<Rightarrow> LoanStatus \<Rightarrow> rat \<Rightarrow> rat \<Rightarrow> rat \<Rightarrow> LoanStatus" where
  "repaidStatus E status newPenalty newInterest newPrincipal =
     (let residualDefaultAmount = dp4 E (dplus E (dplus E newPenalty newInterest) newPrincipal) in
      if newPrincipal \<le> 0 then LoanStatus.FULLY_PAID
      else if status = LoanStatus.DEFAULTED \<and> 0 < residualDefaultAmount then LoanStatus.DEFAULTED
      else LoanStatus.ACTIVE)"

definition firstId :: "ident list \<Rightarrow> ident option" where
  "firstId ids = (case ids of [] \<Rightarrow> None | i # _ \<Rightarrow> Some i)"

definition replayedRepayment :: "db \<Rightarrow> repayment_input \<Rightarrow> txn \<Rightarrow> ident \<Rightarrow> (repayment_summary \<times> db) res" where
  "replayedRepayment s inp duplicate loanId =
     rbind (required (NotFoundException ''Existing repayment loan not found'')
       (loanById s loanId (ri_tenantId inp))) (\<lambda>loan.
     Inr (\<lparr>rs_loanId = ln_id loan, rs_loanNumber = ln_loanNumber loan, rs_toPenalty = 0,
       rs_toInterest = 0, rs_toPrincipal = tx_amount duplicate, rs_overpayment = 0,
       rs_outstandingBalance = ln_outstandingBalance loan, rs_status = ln_status loan\<rparr>, s))"

definition freshRepayment ::
  "env \<Rightarrow> int \<Rightarrow> db \<Rightarrow> repayment_input \<Rightarrow> rat \<Rightarrow> (repayment_summary \<times> db) res" where
  "freshRepayment E now s inp amount =
     rbind (lockTargetLoan s inp) (\<lambda>loan.
     rbind (lockFosaAccount s (ri_tenantId inp) (ln_memberId loan)) (\<lambda>account.
     let (toPenalty, toInterest, toPrincipal, overpayment) =
           waterfallSplit E amount (ln_arrearsAmount loan) (ln_accruedInterest loan) (ln_outstandingBalance loan)
     in
     rbind (applyInstallmentAllocation E now s (ri_tenantId inp) (ln_id loan) toPenalty toInterest toPrincipal)
       (\<lambda>s1.
     let newPenalty = dp4 E (dminus E (ln_arrearsAmount loan) toPenalty);
         newInterest = dp4 E (dminus E (ln_accruedInterest loan) toInterest);
         newPrincipal = dp4 E (dminus E (ln_outstandingBalance loan) toPrincipal);
         newStatus = repaidStatus E (ln_status loan) newPenalty newInterest newPrincipal;
         balanceBefore = acc_balance account
     in
     rbind (repaymentLeg E inp (acc_id account) (ln_id loan) balanceBefore leg.PENALTY toPenalty ([], s1)) (\<lambda>st2.
     rbind (repaymentLeg E inp (acc_id account) (ln_id loan) balanceBefore leg.INTEREST toInterest st2) (\<lambda>st3.
     rbind (repaymentLeg E inp (acc_id account) (ln_id loan) balanceBefore leg.PRINCIPAL toPrincipal st3) (\<lambda>st4.
     rbind (overpaymentDeposit E inp (acc_id account) (ln_id loan) overpayment st4) (\<lambda>(ledgerIds, s5).
     rbind (updateLoan (ln_id loan) (\<lambda>l. l\<lparr>
         ln_arrearsAmount := max newPenalty 0, ln_accruedInterest := max newInterest 0,
         ln_outstandingBalance := max newPrincipal 0,
         ln_totalRepaid := dp4 E (dplus E (dplus E (dplus E (ln_totalRepaid loan) toPenalty) toInterest) toPrincipal),
         ln_status := newStatus\<rparr>) s5) (\<lambda>s6.
     rbind (if truthy (ri_mpesaTxId inp)
       then updateMpesa (the (ri_mpesaTxId inp)) (\<lambda>m. m\<lparr>
           mt_transactionId := coalesce (firstId ledgerIds) (mt_transactionId m),
           mt_loanId := Some (ln_id loan), mt_status := TransactionStatus.COMPLETED,
           mt_resultCode := Some (case ri_resultCode inp of None \<Rightarrow> 0 | Some c \<Rightarrow> c),
           mt_receipt := coalesce (ri_receipt inp) (mt_receipt m),
           mt_transactionDate := Some (case ri_transactionDate inp of None \<Rightarrow> now | Some d \<Rightarrow> d),
           mt_callbackPayload := coalesce (ri_callbackPayload inp) (mt_callbackPayload m)\<rparr>) s6
       else Inr s6) (\<lambda>s7.
     Inr (\<lparr>rs_loanId = ln_id loan, rs_loanNumber = ln_loanNumber loan, rs_toPenalty = toPenalty,
       rs_toInterest = toInterest, rs_toPrincipal = toPrincipal, rs_overpayment = overpayment,
       rs_outstandingBalance = max newPrincipal 0, rs_status = newStatus\<rparr>, s7))))))))))"

section \<open>The operation\<close>

definition cancelDelayedGuarantorDebit :: "ident \<Rightarrow> ident \<Rightarrow> db \<Rightarrow> db" where
  "cancelDelayedGuarantorDebit tenantId loanId s =
     (let hit = (\<lambda>j. dj_tenantId j = tenantId \<and> dj_loanId j = loanId \<and> dj_name j = ''guarantor-debit-execute'') in
      fold (\<lambda>j s. writeAudit tenantId ''SYSTEM'' ''GUARANTOR_RECOVERY.DEBIT_CANCELLED'' loanId s)
        (filter hit (delayedJobs s)) (s\<lparr>delayedJobs := filter (\<lambda>j. \<not> hit j) (delayedJobs s)\<rparr>))"

text \<open>The outcome of the database transaction, with the mark whether it was a replay.\<close>

definition repaymentTransaction ::
  "env \<Rightarrow> int \<Rightarrow> db \<Rightarrow> repayment_input \<Rightarrow> rat \<Rightarrow> ((repayment_summary \<times> bool) \<times> db) res" where
  "repaymentTransaction E now s inp amount =
     (case transactionByReference s (ri_tenantId inp) (ri_reference inp) of
        Some duplicate \<Rightarrow>
          (case tx_loanId duplicate of
             Some loanId \<Rightarrow> rbind (replayedRepayment s inp duplicate loanId) (\<lambda>(r, s'). Inr ((r, True), s'))
           | None \<Rightarrow> rbind (freshRepayment E now s inp amount) (\<lambda>(r, s'). Inr ((r, False), s')))
      | None \<Rightarrow> rbind (freshRepayment E now s inp amount) (\<lambda>(r, s'). Inr ((r, False), s')))"

definition failureEntity :: "repayment_input \<Rightarrow> string" where
  "failureEntity inp =
     (case coalesce (ri_loanId inp) (coalesce (ri_loanNumber inp) (ri_accountReference inp)) of
        None \<Rightarrow> ''UNKNOWN'' | Some e \<Rightarrow> e)"

definition processRepayment :: "env \<Rightarrow> int \<Rightarrow> db \<Rightarrow> repayment_input \<Rightarrow> repayment_summary res \<times> db" where
  "processRepayment E now s inp =
     (case ri_amount inp of
        None \<Rightarrow> (Inl (BadRequestException ''INVALID_REPAYMENT_AMOUNT''), s)
      | Some raw \<Rightarrow>
        if raw \<le> 0 then (Inl (BadRequestException ''INVALID_REPAYMENT_AMOUNT''), s)
        else
          (case repaymentTransaction E now s inp (dp4 E raw) of
             Inl e \<Rightarrow> (Inl e, writeAudit (ri_tenantId inp) (ri_processedBy inp) ''LOAN.REPAYMENT.FAILED''
                 (failureEntity inp) s)
           | Inr ((r, replayed), s1) \<Rightarrow>
               (let s2 = (if rs_status r \<noteq> LoanStatus.DEFAULTED
                      then cancelDelayedGuarantorDebit (ri_tenantId inp) (rs_loanId r) s1 else s1)
                in (Inr r, if replayed then s2
                      else writeAudit (ri_tenantId inp) (ri_processedBy inp) ''LOAN.REPAYMENT.WATERFALL''
                        (rs_loanId r) s2))))"

section \<open>Frames\<close>

definition only_repayments :: "db \<Rightarrow> db \<Rightarrow> bool" where
  "only_repayments s s' \<longleftrightarrow> (\<exists>rows. s' = s\<lparr>repayments := rows\<rparr>)"

lemma only_repayments_refl [simp]: "only_repayments s s"
  unfolding only_repayments_def by (rule exI [of _ "repayments s"]) simp

lemma only_repayments_trans: "only_repayments s s' \<Longrightarrow> only_repayments s' s'' \<Longrightarrow> only_repayments s s''"
  by (auto simp: only_repayments_def)

lemma updateRepayment_only: "updateRepayment k f s = Inr s' \<Longrightarrow> only_repayments s s'"
  by (auto simp: updateRepayment_def res_simps Let_def only_repayments_def)

lemma applyToRows_only: "applyToRows E now p i c rows s = Inr s' \<Longrightarrow> only_repayments s s'"
proof (induction rows arbitrary: p i c s)
  case Nil
  then show ?case by simp
next
  case (Cons row rows)
  let ?ap = "takeFor E p (lr_penaltyDue row) (lr_penaltyPaid row)"
  let ?ai = "takeFor E i (lr_interestDue row) (lr_interestPaid row)"
  let ?ac = "takeFor E c (instalmentPrincipalDue row) (lr_principalPaid row)"
  consider (stop) "dplus E (dplus E p i) c \<le> 0"
    | (skip) "\<not> dplus E (dplus E p i) c \<le> 0" "dplus E (dplus E ?ap ?ai) ?ac \<le> 0"
    | (pay) "\<not> dplus E (dplus E p i) c \<le> 0" "\<not> dplus E (dplus E ?ap ?ai) ?ac \<le> 0" by blast
  then show ?case
  proof cases
    case stop
    with Cons.prems show ?thesis by simp
  next
    case skip
    with Cons.prems show ?thesis by (auto simp: Let_def intro: Cons.IH)
  next
    case pay
    with Cons.prems obtain s1 p' i' c' where "updateRepayment (lr_id row)
        (\<lambda>r. payInstalment E now ?ap ?ai ?ac row) s = Inr s1"
      and "applyToRows E now p' i' c' rows s1 = Inr s'"
      by (auto simp: Let_def res_simps)
    then show ?thesis using updateRepayment_only Cons.IH only_repayments_trans by blast
  qed
qed

section \<open>Instalments: what is paid\<close>

text \<open>An instalment with an amortised principal, none of whose legs is overpaid.\<close>

definition instalment_ok :: "repayment \<Rightarrow> bool" where
  "instalment_ok r \<longleftrightarrow>
     money (lr_penaltyDue r) \<and> money (lr_interestDue r) \<and> money (lr_principalDue r) \<and>
     money (lr_penaltyPaid r) \<and> money (lr_interestPaid r) \<and> money (lr_principalPaid r) \<and>
     0 \<le> lr_penaltyPaid r \<and> lr_penaltyPaid r \<le> lr_penaltyDue r \<and>
     0 \<le> lr_interestPaid r \<and> lr_interestPaid r \<le> lr_interestDue r \<and>
     0 \<le> lr_principalPaid r \<and> lr_principalPaid r \<le> lr_principalDue r \<and> 0 < lr_principalDue r"

definition instalments_ok :: "db \<Rightarrow> bool" where
  "instalments_ok s \<longleftrightarrow> distinct (map lr_id (repayments s)) \<and> (\<forall>r \<in> set (repayments s). instalment_ok r)"

definition table_sum :: "(repayment \<Rightarrow> rat) \<Rightarrow> db \<Rightarrow> rat" where
  "table_sum f s = sum_list (map f (repayments s))"

lemma updateRepayment_row:
  assumes "updateRepayment (lr_id row) (\<lambda>_. g) s = Inr s'" and "instalments_ok s"
    and "row \<in> set (repayments s)" and "lr_id g = lr_id row" and "instalment_ok g"
  defines "g' \<equiv> g\<lparr>lr_amountPaid := half_up 2 (lr_amountPaid g)\<rparr>"
  shows "instalments_ok s'"
    and "\<And>f. (\<And>x v. f (x\<lparr>lr_amountPaid := v\<rparr>) = f x) \<Longrightarrow> table_sum f s' = table_sum f s + (f g - f row)"
    and "\<And>r. r \<in> set (repayments s) \<Longrightarrow> lr_id r \<noteq> lr_id row \<Longrightarrow> r \<in> set (repayments s')"
    and "g' \<in> set (repayments s')"
proof -
  have d: "distinct (map lr_id (repayments s))" using assms(2) by (simp add: instalments_ok_def)
  from assms(1) have s': "repayments s' = map (\<lambda>r. if lr_id r = lr_id row then g' else r) (repayments s)"
    by (auto simp: updateRepayment_def res_simps Let_def g'_def)
  have "map lr_id (repayments s') = map lr_id (repayments s)"
    using assms(4) by (simp add: s' g'_def)
  with d have "distinct (map lr_id (repayments s'))" by (simp only:)
  moreover have "instalment_ok g'" using assms(5) by (simp add: g'_def instalment_ok_def)
  then have "\<forall>r \<in> set (repayments s'). instalment_ok r"
    using assms(2) by (auto simp: instalments_ok_def s')
  ultimately show "instalments_ok s'" unfolding instalments_ok_def by blast
  show "table_sum f s' = table_sum f s + (f g - f row)"
    if "\<And>x v. f (x\<lparr>lr_amountPaid := v\<rparr>) = f x" for f
    using sum_list_update_key [OF d assms(3), of "\<lambda>r. lr_id r = lr_id row" "lr_id row" f "\<lambda>_. g'"]
    by (simp add: table_sum_def s' g'_def that)
  show "r \<in> set (repayments s')" if "r \<in> set (repayments s)" "lr_id r \<noteq> lr_id row" for r
    using that by (force simp: s')
  show "g' \<in> set (repayments s')" using assms(3) by (force simp: s')
qed

context decimal_runtime
begin

lemma takeFor_exact:
  assumes "money x" "0 \<le> x" "money due" "money paid" "0 \<le> paid" "paid \<le> due"
  shows "takeFor E x due paid = min x (due - paid)"
    and "money (min x (due - paid))" and "0 \<le> min x (due - paid)"
    and "dp4 E (dminus E x (min x (due - paid))) = x - min x (due - paid)"
    and "money (x - min x (due - paid))"
    and "dp4 E (dplus E paid (min x (due - paid))) = paid + min x (due - paid)"
    and "money (paid + min x (due - paid))"
proof -
  have d: "money (due - paid)" using assms by (auto intro: money_diff)
  then show m: "money (min x (due - paid))" using assms by (auto intro: money_min)
  show n: "0 \<le> min x (due - paid)" using assms by simp
  show m2: "money (x - min x (due - paid))" using assms m n by (auto intro: money_diff)
  have "paid + min x (due - paid) \<le> due" by simp
  then show m3: "money (paid + min x (due - paid))"
    using assms n m by (intro money_shrink [OF assms(3)] places_add) (auto simp: money_m4)
  have "max (due - paid) 0 = due - paid" using assms(6) by (intro max_absorb1) simp
  then show "takeFor E x due paid = min x (due - paid)"
    using m by (simp only: takeFor_def dminus_money [OF assms(3,4)] dp4_exact money_m4)
  show "dp4 E (dminus E x (min x (due - paid))) = x - min x (due - paid)"
    using m2 by (simp add: dminus_money [OF assms(1) m] money_m4)
  show "dp4 E (dplus E paid (min x (due - paid))) = paid + min x (due - paid)"
    using m3 by (simp add: dplus_money [OF assms(4) m] money_m4)
qed

text \<open>The whole walk: what each leg pays off, what is left, and when something is left.\<close>

lemma applyToRows_accounting:
  assumes "applyToRows E now p i c rows s = Inr s'" and "instalments_ok s"
    and "set rows \<subseteq> set (repayments s)" and "distinct (map lr_id rows)"
    and "money p" "0 \<le> p" "money i" "0 \<le> i" "money c" "0 \<le> c"
  shows "instalments_ok s' \<and> (\<exists>p' i' c'. 0 \<le> p' \<and> 0 \<le> i' \<and> 0 \<le> c' \<and>
    table_sum lr_penaltyPaid s' = table_sum lr_penaltyPaid s + (p - p') \<and>
    table_sum lr_interestPaid s' = table_sum lr_interestPaid s + (i - i') \<and>
    table_sum lr_principalPaid s' = table_sum lr_principalPaid s + (c - c') \<and>
    (0 < p' \<longrightarrow> p - p' = (\<Sum>r \<leftarrow> rows. lr_penaltyDue r - lr_penaltyPaid r)) \<and>
    (0 < i' \<longrightarrow> i - i' = (\<Sum>r \<leftarrow> rows. lr_interestDue r - lr_interestPaid r)) \<and>
    (0 < c' \<longrightarrow> c - c' = (\<Sum>r \<leftarrow> rows. lr_principalDue r - lr_principalPaid r)))"
  using assms
proof (induction rows arbitrary: p i c s)
  case Nil
  then show ?case by auto
next
  case (Cons row rows)
  have row: "row \<in> set (repayments s)" "instalment_ok row"
    using Cons.prems(2,3) by (auto simp: instalments_ok_def)
  have pd: "instalmentPrincipalDue row = lr_principalDue row"
    using row(2) by (simp add: instalmentPrincipalDue_def instalment_ok_def)
  define ap where "ap = min p (lr_penaltyDue row - lr_penaltyPaid row)"
  define ai where "ai = min i (lr_interestDue row - lr_interestPaid row)"
  define ac where "ac = min c (lr_principalDue row - lr_principalPaid row)"
  have okr: "money (lr_penaltyDue row)" "money (lr_penaltyPaid row)" "0 \<le> lr_penaltyPaid row"
    "lr_penaltyPaid row \<le> lr_penaltyDue row" "money (lr_interestDue row)" "money (lr_interestPaid row)"
    "0 \<le> lr_interestPaid row" "lr_interestPaid row \<le> lr_interestDue row" "money (lr_principalDue row)"
    "money (lr_principalPaid row)" "0 \<le> lr_principalPaid row" "lr_principalPaid row \<le> lr_principalDue row"
    using row(2) by (auto simp: instalment_ok_def)
  note tp = takeFor_exact [OF Cons.prems(5,6) okr(1-4), folded ap_def]
  note ti = takeFor_exact [OF Cons.prems(7,8) okr(5-8), folded ai_def]
  note tc = takeFor_exact [OF Cons.prems(9,10) okr(9-12), folded ac_def]
  have le: "ap \<le> p" "ai \<le> i" "ac \<le> c" "ap \<le> lr_penaltyDue row - lr_penaltyPaid row"
    "ai \<le> lr_interestDue row - lr_interestPaid row" "ac \<le> lr_principalDue row - lr_principalPaid row"
    by (simp_all add: ap_def ai_def ac_def)
  have full: "p - ap \<noteq> 0 \<Longrightarrow> ap = lr_penaltyDue row - lr_penaltyPaid row"
    "i - ai \<noteq> 0 \<Longrightarrow> ai = lr_interestDue row - lr_interestPaid row"
    "c - ac \<noteq> 0 \<Longrightarrow> ac = lr_principalDue row - lr_principalPaid row"
    unfolding ap_def ai_def ac_def by linarith+
  have sum3: "dplus E (dplus E x y) z = x + y + z" if "money x" "money y" "money z" for x y z
  proof -
    have "wide (x + y + z)" by (rule wideI) (use that in \<open>auto simp: money_def intro!: places_add\<close>)
    then show ?thesis using that by (simp add: dplus_money dplus_exact)
  qed
  show ?case
  proof (cases "p + i + c \<le> 0")
    case True
    then have "s' = s" using Cons.prems(1) by (simp add: sum3 [OF Cons.prems(5,7,9)])
    moreover have "p = 0" "i = 0" "c = 0" using True Cons.prems(6,8,10) by linarith+
    ultimately show ?thesis using Cons.prems(2) by auto
  next
    case more: False
    let ?g = "payInstalment E now ap ai ac row"
    have g: "lr_penaltyPaid ?g = lr_penaltyPaid row + ap" "lr_interestPaid ?g = lr_interestPaid row + ai"
      "lr_principalPaid ?g = lr_principalPaid row + ac" "lr_penaltyDue ?g = lr_penaltyDue row"
      "lr_interestDue ?g = lr_interestDue row" "lr_principalDue ?g = lr_principalDue row"
      "lr_id ?g = lr_id row"
      by (simp_all add: payInstalment_def Let_def tp(6) ti(6) tc(6))
    have okg: "instalment_ok ?g"
      using row(2) tp(3,7) ti(3,7) tc(3,7) le unfolding instalment_ok_def g by auto
    obtain s1 where step: "instalments_ok s1" "set rows \<subseteq> set (repayments s1)"
      "table_sum lr_penaltyPaid s1 = table_sum lr_penaltyPaid s + ap"
      "table_sum lr_interestPaid s1 = table_sum lr_interestPaid s + ai"
      "table_sum lr_principalPaid s1 = table_sum lr_principalPaid s + ac"
      and rest: "applyToRows E now (p - ap) (i - ai) (c - ac) rows s1 = Inr s'"
    proof (cases "ap + ai + ac \<le> 0")
      case True
      then have z: "ap = 0" "ai = 0" "ac = 0" using tp(3) ti(3) tc(3) by linarith+
      have "applyToRows E now (p - ap) (i - ai) (c - ac) rows s = Inr s'"
        using Cons.prems(1) more True
        by (simp add: sum3 [OF Cons.prems(5,7,9)] tp(1,4) ti(1,4) tc(1,4) pd Let_def
            sum3 [OF tp(2) ti(2) tc(2)])
      then show thesis using that [of s] z Cons.prems(2,3) by simp
    next
      case False
      then obtain s1 where upd: "updateRepayment (lr_id row) (\<lambda>_. ?g) s = Inr s1"
        and rest: "applyToRows E now (p - ap) (i - ai) (c - ac) rows s1 = Inr s'"
        using Cons.prems(1) more
        by (auto simp: sum3 [OF Cons.prems(5,7,9)] tp(1,4) ti(1,4) tc(1,4) pd Let_def res_simps
            sum3 [OF tp(2) ti(2) tc(2)])
      note u = updateRepayment_row [OF upd Cons.prems(2) row(1) g(7) okg]
      have "set rows \<subseteq> set (repayments s1)"
      proof
        fix r assume "r \<in> set rows"
        then have "r \<in> set (repayments s)" "lr_id r \<noteq> lr_id row"
          using Cons.prems(3,4) by (auto simp: image_iff)
        then show "r \<in> set (repayments s1)" by (rule u(3))
      qed
      moreover have "table_sum lr_penaltyPaid s1 = table_sum lr_penaltyPaid s + ap"
        "table_sum lr_interestPaid s1 = table_sum lr_interestPaid s + ai"
        "table_sum lr_principalPaid s1 = table_sum lr_principalPaid s + ac"
        using u(2) [of lr_penaltyPaid] u(2) [of lr_interestPaid] u(2) [of lr_principalPaid]
        by (simp_all add: g)
      ultimately show thesis using that [OF u(1)] rest by blast
    qed
    have d: "distinct (map lr_id rows)" using Cons.prems(4) by simp
    have nn: "0 \<le> p - ap" "0 \<le> i - ai" "0 \<le> c - ac" using le by linarith+
    from Cons.IH [OF rest step(1,2) d tp(5) nn(1) ti(5) nn(2) tc(5) nn(3)]
    obtain p' i' c' where ok': "instalments_ok s'" and left: "0 \<le> p'" "0 \<le> i'" "0 \<le> c'"
      and sums: "table_sum lr_penaltyPaid s' = table_sum lr_penaltyPaid s1 + (p - ap - p')"
        "table_sum lr_interestPaid s' = table_sum lr_interestPaid s1 + (i - ai - i')"
        "table_sum lr_principalPaid s' = table_sum lr_principalPaid s1 + (c - ac - c')"
      and rem: "0 < p' \<longrightarrow> p - ap - p' = (\<Sum>r \<leftarrow> rows. lr_penaltyDue r - lr_penaltyPaid r)"
        "0 < i' \<longrightarrow> i - ai - i' = (\<Sum>r \<leftarrow> rows. lr_interestDue r - lr_interestPaid r)"
        "0 < c' \<longrightarrow> c - ac - c' = (\<Sum>r \<leftarrow> rows. lr_principalDue r - lr_principalPaid r)"
      by blast
    have "\<forall>r \<in> set rows. lr_penaltyPaid r \<le> lr_penaltyDue r \<and> lr_interestPaid r \<le> lr_interestDue r \<and>
        lr_principalPaid r \<le> lr_principalDue r"
      using Cons.prems(2,3) unfolding instalments_ok_def instalment_ok_def by auto
    then have nonneg: "0 \<le> (\<Sum>r \<leftarrow> rows. lr_penaltyDue r - lr_penaltyPaid r)"
      "0 \<le> (\<Sum>r \<leftarrow> rows. lr_interestDue r - lr_interestPaid r)"
      "0 \<le> (\<Sum>r \<leftarrow> rows. lr_principalDue r - lr_principalPaid r)"
      by (auto intro!: sum_list_nonneg)
    have fin: "0 < p' \<longrightarrow> p - p' = (\<Sum>r \<leftarrow> row # rows. lr_penaltyDue r - lr_penaltyPaid r)"
      "0 < i' \<longrightarrow> i - i' = (\<Sum>r \<leftarrow> row # rows. lr_interestDue r - lr_interestPaid r)"
      "0 < c' \<longrightarrow> c - c' = (\<Sum>r \<leftarrow> row # rows. lr_principalDue r - lr_principalPaid r)"
      using rem full nonneg by (auto simp: algebra_simps)
    show ?thesis
      using ok' left fin by (intro conjI exI [of _ p'] exI [of _ i'] exI [of _ c']) (simp_all add: sums step)
  qed
qed

end

section \<open>Legs and the whole transaction\<close>

text \<open>A step that leaves the accounts and the deposit codes alone.\<close>

definition leg_like :: "db \<Rightarrow> db \<Rightarrow> bool" where
  "leg_like s s' \<longleftrightarrow> accounts s' = accounts s \<and> ledger_only s s' \<and>
     (\<forall>t ty. gl_credit s' t (memberDepositsCode ty) = gl_credit s t (memberDepositsCode ty))"

lemma leg_like_refl [simp]: "leg_like s s"
  by (simp add: leg_like_def)

lemma leg_like_trans: "leg_like s s' \<Longrightarrow> leg_like s' s'' \<Longrightarrow> leg_like s s''"
  by (auto simp: leg_like_def intro: ledger_only_trans)

lemma leg_like_agrees: "leg_like s s' \<Longrightarrow> gl_agrees s' t = gl_agrees s t"
  using deposits_cong [of s' s] by (simp add: gl_agrees_iff leg_like_def)

lemma only_repayments_simps:
  assumes "only_repayments s s'"
  shows "accounts s' = accounts s" "wf_db s' = wf_db s" "gl_agrees s' t = gl_agrees s t"
    "loans s' = loans s" "glAccounts s' = glAccounts s" "journalEntries s' = journalEntries s"
    "transactions s' = transactions s" "guarantors s' = guarantors s"
  using assms by (auto simp: only_repayments_def)

context decimal_runtime
begin

lemma repaymentLeg_effects:
  assumes run: "repaymentLeg E inp a l bal lg amt (ids, s) = Inr (ids', s')" and wf: "wf_db s"
  shows "wf_db s' \<and> leg_like s s'"
proof (cases "0 < amt")
  case False
  with run wf show ?thesis by (simp add: repaymentLeg_def)
next
  case True
  with run obtain ty suffix name txId s1 e rp where
    tx: "createAllocationTransaction E inp a l amt bal ty suffix s = Inr (txId, s1)"
    and je: "postLoanRepaymentLegEntry E s1 (ri_tenantId inp) (ri_reference inp @ ''-'' @ name) lg amt txId
      (ri_processedBy inp) = Inr ((e, rp), s')"
    by (auto simp: repaymentLeg_def res_simps Let_def split: prod.splits)
  from tx obtain row t where
    ct: "createTransaction E row (s\<lparr>id_count := Suc (id_count s)\<rparr>) = Inr (t, s1)"
    and row: "m4 (tx_amount row)" "m4 (tx_balanceBefore row)" "m4 (tx_balanceAfter row)"
    by (auto simp: createAllocationTransaction_def res_simps Let_def)
  have w1: "wf_db s1" by (rule createTransaction_wf [OF ct]) (use wf row in simp_all)
  note fr = createTransaction_frame [OF ct]
  note ef = postGlOnlyLegEntry_effects [OF je [unfolded postLoanRepaymentLegEntry_def] w1]
  have "ledger_only s s1" using ledger_only_createTransaction [OF ct] by (simp add: ledger_only_def)
  moreover have "ledger_only s1 s'"
    by (rule ledger_only_postGlOnlyLegEntry [OF je [unfolded postLoanRepaymentLegEntry_def]])
  ultimately have "ledger_only s s'" by (rule ledger_only_trans)
  moreover have "gl_credit s1 t c = gl_credit s t c" for t c
    by (rule gl_credit_cong) (use fr in simp_all)
  ultimately show ?thesis
    using ef fr by (auto simp: leg_like_def code_effect_def)
qed

text \<open>The deposit of an overpayment: nothing, a replay, or exactly the amount on the account.\<close>

lemma overpaymentDeposit_effects:
  assumes run: "overpaymentDeposit E inp a l ov (ids, s) = Inr (ids', s')" and wf: "wf_db s"
  shows "wf_db s'" "ledger_only s s'" "gl_agrees s t \<Longrightarrow> gl_agrees s' t"
    "transactionByReference s (ri_tenantId inp) (ri_reference inp @ ''-OVERPAY'') = None \<Longrightarrow> m4 ov \<Longrightarrow> 0 \<le> ov \<Longrightarrow>
       map acc_balance (accounts s') = map (\<lambda>x. if acc_id x = a then acc_balance x + ov else acc_balance x) (accounts s)"
proof -
  let ?p = "\<lparr>ep_tenantId = ri_tenantId inp, ep_reference = ri_reference inp @ ''-OVERPAY'',
     ep_journalType = JournalEntryType.DEPOSIT, ep_accountId = a, ep_amount = ov, ep_direction = CREDIT,
     ep_actorId = Some (ri_processedBy inp), ep_linkedTransactionId = None, ep_loanId = Some l\<rparr>"
  have *: "wf_db s' \<and> ledger_only s s' \<and> (gl_agrees s t \<longrightarrow> gl_agrees s' t) \<and>
    (transactionByReference s (ri_tenantId inp) (ri_reference inp @ ''-OVERPAY'') = None \<longrightarrow> m4 ov \<longrightarrow> 0 \<le> ov \<longrightarrow>
       map acc_balance (accounts s') = map (\<lambda>x. if acc_id x = a then acc_balance x + ov else acc_balance x) (accounts s))"
    for t
  proof (cases "0 < ov")
    case False
    with run wf show ?thesis by (auto simp: overpaymentDeposit_def intro!: map_cong)
  next
    case True
    with run obtain tr e where post: "postEntry E True s ?p = Inr ((tr, e), s')"
      by (auto simp: overpaymentDeposit_def res_simps)
    have fits: "direction_fits (ep_journalType ?p) (ep_direction ?p)" by (simp add: direction_fits_def)
    have "wf_db s'" by (rule postEntry_wf [OF post wf])
    moreover have "ledger_only s s'" by (rule ledger_only_postEntry [OF post])
    moreover have "gl_agrees s t \<longrightarrow> gl_agrees s' t"
      using postEntry_agrees(2) [OF post wf fits] by blast
    moreover have "map acc_balance (accounts s') =
        map (\<lambda>x. if acc_id x = a then acc_balance x + ov else acc_balance x) (accounts s)"
      if new: "transactionByReference s (ri_tenantId inp) (ri_reference inp @ ''-OVERPAY'') = None" and "m4 ov"
    proof -
      have "accounts s' = accounts (moveBalance a ov s)"
        by (rule postEntry_fresh_rows [OF post wf]) (use that in \<open>simp_all add: signed_def\<close>)
      then show ?thesis by (simp add: moveBalance_def if_distrib cong: if_cong)
    qed
    ultimately show ?thesis by blast
  qed
  show "wf_db s'" "ledger_only s s'" "gl_agrees s t \<Longrightarrow> gl_agrees s' t"
    "transactionByReference s (ri_tenantId inp) (ri_reference inp @ ''-OVERPAY'') = None \<Longrightarrow> m4 ov \<Longrightarrow> 0 \<le> ov \<Longrightarrow>
       map acc_balance (accounts s') = map (\<lambda>x. if acc_id x = a then acc_balance x + ov else acc_balance x) (accounts s)"
    using * by blast+
qed

end

lemma repaymentLeg_loans:
  assumes "repaymentLeg E inp a l bal lg amt (ids, s) = Inr (ids', s')"
  shows "loans s' = loans s"
proof (cases "0 < amt")
  case False
  with assms show ?thesis by (simp add: repaymentLeg_def)
next
  case True
  with assms obtain ty suffix name txId s1 e rp where
    tx: "createAllocationTransaction E inp a l amt bal ty suffix s = Inr (txId, s1)"
    and je: "postLoanRepaymentLegEntry E s1 (ri_tenantId inp) (ri_reference inp @ ''-'' @ name) lg amt txId
      (ri_processedBy inp) = Inr ((e, rp), s')"
    by (auto simp: repaymentLeg_def res_simps Let_def split: prod.splits)
  have "loans s1 = loans s" using tx
    by (auto simp: createAllocationTransaction_def res_simps Let_def createTransaction_Inr)
  with ledger_only_postGlOnlyLegEntry [OF je [unfolded postLoanRepaymentLegEntry_def]]
  show ?thesis by (simp add: ledger_only_def)
qed

lemma repaymentLeg_reference:
  assumes run: "repaymentLeg E inp a l bal lg amt (ids, s) = Inr (ids', s')"
  shows "transactionByReference s' t (ri_reference inp @ ''-OVERPAY'') =
    transactionByReference s t (ri_reference inp @ ''-OVERPAY'')"
proof (cases "0 < amt")
  case False
  with run show ?thesis by (simp add: repaymentLeg_def)
next
  case True
  with run obtain ty suffix name txId s1 e rp where
    lt: "legText lg = (ty, suffix, name)"
    and tx: "createAllocationTransaction E inp a l amt bal ty suffix s = Inr (txId, s1)"
    and je: "postLoanRepaymentLegEntry E s1 (ri_tenantId inp) (ri_reference inp @ ''-'' @ name) lg amt txId
      (ri_processedBy inp) = Inr ((e, rp), s')"
    by (auto simp: repaymentLeg_def res_simps Let_def split: prod.splits)
  from lt have suffix: "hd suffix \<noteq> CHR ''O''" "suffix \<noteq> ''''" by (cases lg; auto)+
  from tx obtain row r x where
    ct: "createTransaction E row (s\<lparr>id_count := Suc (id_count s)\<rparr>) = Inr (r, s1)"
    and ref: "tx_reference row = ri_reference inp @ ''-'' @ suffix @ x"
    by (auto simp: createAllocationTransaction_def res_simps Let_def)
  note fr = createTransaction_frame [OF ct]
  have "transactions s' = transactions s1"
    using je unfolding postLoanRepaymentLegEntry_def
  proof (cases rule: postGlOnlyLegEntry_cases)
    case (replayed s0)
    then have "transactions s0 = transactions s1" by (metis cache_same(2))
    with replayed show ?thesis by simp
  next
    case (fresh s0 u d c)
    then have "transactions s0 = transactions s1" by (metis cache_same(2))
    with createJournalEntry_frame(3) [OF fresh(5)] show ?thesis by simp
  qed
  moreover have "tx_reference r \<noteq> ri_reference inp @ ''-OVERPAY''"
    using suffix by (cases suffix) (auto simp: fr(5) ref)
  ultimately show ?thesis
    using fr(4) by (auto simp: transactionByReference_def findFirst_append split: option.splits)
qed

lemma freshRepayment_steps:
  assumes "freshRepayment E now s inp amount = Inr (r, s')"
  obtains loan account tp ti tc ov s1 ids2 s2 ids3 s3 ids4 s4 ids5 s5 s6 where
    "lockTargetLoan s inp = Inr loan"
    "lockFosaAccount s (ri_tenantId inp) (ln_memberId loan) = Inr account"
    "waterfallSplit E amount (ln_arrearsAmount loan) (ln_accruedInterest loan)
       (ln_outstandingBalance loan) = (tp, ti, tc, ov)"
    "applyInstallmentAllocation E now s (ri_tenantId inp) (ln_id loan) tp ti tc = Inr s1"
    "repaymentLeg E inp (acc_id account) (ln_id loan) (acc_balance account) leg.PENALTY tp ([], s1) = Inr (ids2, s2)"
    "repaymentLeg E inp (acc_id account) (ln_id loan) (acc_balance account) leg.INTEREST ti (ids2, s2) = Inr (ids3, s3)"
    "repaymentLeg E inp (acc_id account) (ln_id loan) (acc_balance account) leg.PRINCIPAL tc (ids3, s3) = Inr (ids4, s4)"
    "overpaymentDeposit E inp (acc_id account) (ln_id loan) ov (ids4, s4) = Inr (ids5, s5)"
    "updateLoan (ln_id loan) (\<lambda>l. l\<lparr>
         ln_arrearsAmount := max (dp4 E (dminus E (ln_arrearsAmount loan) tp)) 0,
         ln_accruedInterest := max (dp4 E (dminus E (ln_accruedInterest loan) ti)) 0,
         ln_outstandingBalance := max (dp4 E (dminus E (ln_outstandingBalance loan) tc)) 0,
         ln_totalRepaid := dp4 E (dplus E (dplus E (dplus E (ln_totalRepaid loan) tp) ti) tc),
         ln_status := rs_status r\<rparr>) s5 = Inr s6"
    "s' = s6 \<or> (\<exists>rows. s' = s6\<lparr>mpesaTransactions := rows\<rparr>)"
    "rs_loanId r = ln_id loan" "rs_toPenalty r = tp" "rs_toInterest r = ti" "rs_toPrincipal r = tc"
    "rs_overpayment r = ov"
    "rs_outstandingBalance r = max (dp4 E (dminus E (ln_outstandingBalance loan) tc)) 0"
    "rs_status r = repaidStatus E (ln_status loan) (dp4 E (dminus E (ln_arrearsAmount loan) tp))
       (dp4 E (dminus E (ln_accruedInterest loan) ti)) (dp4 E (dminus E (ln_outstandingBalance loan) tc))"
proof -
  obtain loan where loan: "lockTargetLoan s inp = Inr loan"
    using assms by (auto simp: freshRepayment_def res_simps)
  obtain account where acc: "lockFosaAccount s (ri_tenantId inp) (ln_memberId loan) = Inr account"
    using assms by (auto simp: freshRepayment_def loan res_simps)
  obtain tp ti tc ov where split: "waterfallSplit E amount (ln_arrearsAmount loan)
      (ln_accruedInterest loan) (ln_outstandingBalance loan) = (tp, ti, tc, ov)"
    by (metis surj_pair)
  note run = assms [unfolded freshRepayment_def loan rbind.simps acc split Let_def prod.case]
  from run obtain s1 where a: "applyInstallmentAllocation E now s (ri_tenantId inp) (ln_id loan) tp ti tc = Inr s1"
    by (rule rbind_InrE)
  note run = run [unfolded a rbind.simps]
  from run obtain ids2 s2 where b: "repaymentLeg E inp (acc_id account) (ln_id loan) (acc_balance account)
      leg.PENALTY tp ([], s1) = Inr (ids2, s2)" by (rule rbind_Inr_pairE)
  note run = run [unfolded b rbind.simps]
  from run obtain ids3 s3 where c: "repaymentLeg E inp (acc_id account) (ln_id loan) (acc_balance account)
      leg.INTEREST ti (ids2, s2) = Inr (ids3, s3)" by (rule rbind_Inr_pairE)
  note run = run [unfolded c rbind.simps]
  from run obtain ids4 s4 where d: "repaymentLeg E inp (acc_id account) (ln_id loan) (acc_balance account)
      leg.PRINCIPAL tc (ids3, s3) = Inr (ids4, s4)" by (rule rbind_Inr_pairE)
  note run = run [unfolded d rbind.simps]
  from run obtain ids5 s5 where e: "overpaymentDeposit E inp (acc_id account) (ln_id loan) ov (ids4, s4) =
      Inr (ids5, s5)" by (rule rbind_Inr_pairE)
  note run2 = run [unfolded e rbind.simps prod.case]
  note 1 = a b c d e
  from run2 obtain s6 where upd: "updateLoan (ln_id loan) (\<lambda>l. l\<lparr>
         ln_arrearsAmount := max (dp4 E (dminus E (ln_arrearsAmount loan) tp)) 0,
         ln_accruedInterest := max (dp4 E (dminus E (ln_accruedInterest loan) ti)) 0,
         ln_outstandingBalance := max (dp4 E (dminus E (ln_outstandingBalance loan) tc)) 0,
         ln_totalRepaid := dp4 E (dplus E (dplus E (dplus E (ln_totalRepaid loan) tp) ti) tc),
         ln_status := repaidStatus E (ln_status loan) (dp4 E (dminus E (ln_arrearsAmount loan) tp))
       (dp4 E (dminus E (ln_accruedInterest loan) ti)) (dp4 E (dminus E (ln_outstandingBalance loan) tc))\<rparr>) s5 = Inr s6"
    by (rule rbind_InrE)
  note run3 = run2 [unfolded upd rbind.simps]
  then have s': "s' = s6 \<or> (\<exists>rows. s' = s6\<lparr>mpesaTransactions := rows\<rparr>)"
    and r: "rs_loanId r = ln_id loan" "rs_toPenalty r = tp" "rs_toInterest r = ti" "rs_toPrincipal r = tc"
    "rs_overpayment r = ov"
    "rs_outstandingBalance r = max (dp4 E (dminus E (ln_outstandingBalance loan) tc)) 0"
    "rs_status r = repaidStatus E (ln_status loan) (dp4 E (dminus E (ln_arrearsAmount loan) tp))
       (dp4 E (dminus E (ln_accruedInterest loan) ti)) (dp4 E (dminus E (ln_outstandingBalance loan) tc))"
    by (auto simp: res_simps updateMpesa_def Let_def updateMany_def split: if_splits)
  show thesis by (rule that [OF loan acc split 1 upd [folded r(7)] s' r])
qed

lemma set_byDisbursal [simp]: "set (byDisbursal rows) = set rows"
  by (auto simp: byDisbursal_def Let_def)

lemma lockTargetLoan_Inr:
  assumes "lockTargetLoan s inp = Inr loan"
  shows "loan \<in> set (loans s)" "ln_status loan \<in> set repayableStatuses"
  using assms by (auto simp: lockTargetLoan_def Let_def res_simps dest!: findFirst_Some split: if_splits)

lemma gl_agrees_loans_mpesa:
  "gl_agrees (s\<lparr>loans := rows\<rparr>) t = gl_agrees s t" "wf_db (s\<lparr>loans := rows\<rparr>) = wf_db s"
  by simp_all

text \<open>The loan row after a repayment.\<close>

definition repaidLoan :: "repayment_summary \<Rightarrow> loan \<Rightarrow> loan" where
  "repaidLoan r loan = loan\<lparr>
     ln_arrearsAmount := ln_arrearsAmount loan - rs_toPenalty r,
     ln_accruedInterest := ln_accruedInterest loan - rs_toInterest r,
     ln_outstandingBalance := ln_outstandingBalance loan - rs_toPrincipal r,
     ln_totalRepaid := ln_totalRepaid loan + (rs_toPenalty r + rs_toInterest r + rs_toPrincipal r),
     ln_status := rs_status r\<rparr>"

context decimal_runtime
begin

lemma freshRepayment_books:
  assumes run: "freshRepayment E now s inp amount = Inr (r, s')" and wf: "wf_db s"
  shows "wf_db s' \<and> (gl_agrees s t \<longrightarrow> gl_agrees s' t)"
proof (rule freshRepayment_steps [OF run])
  fix loan account tp ti tc ov s1 ids2 s2 ids3 s3 ids4 s4 ids5 s5 s6 and f :: "loan \<Rightarrow> loan"
  assume inst: "applyInstallmentAllocation E now s (ri_tenantId inp) (ln_id loan) tp ti tc = Inr s1"
    and l1: "repaymentLeg E inp (acc_id account) (ln_id loan) (acc_balance account) leg.PENALTY tp ([], s1) = Inr (ids2, s2)"
    and l2: "repaymentLeg E inp (acc_id account) (ln_id loan) (acc_balance account) leg.INTEREST ti (ids2, s2) = Inr (ids3, s3)"
    and l3: "repaymentLeg E inp (acc_id account) (ln_id loan) (acc_balance account) leg.PRINCIPAL tc (ids3, s3) = Inr (ids4, s4)"
    and ov: "overpaymentDeposit E inp (acc_id account) (ln_id loan) ov (ids4, s4) = Inr (ids5, s5)"
    and upd: "updateLoan (ln_id loan) (\<lambda>l. l\<lparr>
         ln_arrearsAmount := max (dp4 E (dminus E (ln_arrearsAmount loan) tp)) 0,
         ln_accruedInterest := max (dp4 E (dminus E (ln_accruedInterest loan) ti)) 0,
         ln_outstandingBalance := max (dp4 E (dminus E (ln_outstandingBalance loan) tc)) 0,
         ln_totalRepaid := dp4 E (dplus E (dplus E (dplus E (ln_totalRepaid loan) tp) ti) tc),
         ln_status := rs_status r\<rparr>) s5 = Inr s6"
    and s': "s' = s6 \<or> (\<exists>rows. s' = s6\<lparr>mpesaTransactions := rows\<rparr>)"
  have o: "only_repayments s s1" by (rule applyToRows_only [OF inst [unfolded applyInstallmentAllocation_def]])
  have w1: "wf_db s1" "gl_agrees s1 t = gl_agrees s t" using only_repayments_simps [OF o] wf by simp_all
  note e2 = repaymentLeg_effects [OF l1 w1(1)]
  note e3 = repaymentLeg_effects [OF l2 conjunct1 [OF e2]]
  note e4 = repaymentLeg_effects [OF l3 conjunct1 [OF e3]]
  have "leg_like s1 s4" using e2 e3 e4 leg_like_trans by blast
  then have a4: "gl_agrees s4 t = gl_agrees s t" using leg_like_agrees w1(2) by simp
  note e5 = overpaymentDeposit_effects(1,3) [OF ov conjunct1 [OF e4]]
  from upd obtain rows where s6: "s6 = s5\<lparr>loans := rows\<rparr>" by (auto simp: updateLoan_Inr)
  have "wf_db s6" "gl_agrees s6 t = gl_agrees s5 t" using e5(1) by (simp_all add: s6)
  then have "wf_db s'" "gl_agrees s' t = gl_agrees s5 t" using s' by auto
  then show ?thesis using e5(2) [of t] a4 by simp
qed

lemma repaidStatus_exact:
  assumes "money x" "0 \<le> x" "money y" "0 \<le> y" "money z" "0 \<le> z"
  shows "repaidStatus E st x y z = (if z = 0 then LoanStatus.FULLY_PAID
    else if st = LoanStatus.DEFAULTED then LoanStatus.DEFAULTED else LoanStatus.ACTIVE)"
proof -
  have "wide (x + y + z)" by (rule wideI) (use assms in \<open>auto simp: money_def intro!: places_add\<close>)
  then have "dp4 E (dplus E (dplus E x y) z) = x + y + z"
    using assms by (simp add: dplus_money dplus_exact wide_def)
  then show ?thesis using assms by (auto simp: repaidStatus_def)
qed

lemma freshRepayment_loan:
  assumes run: "freshRepayment E now s inp amount = Inr (r, s')"
    and wfl: "wf_loans s" and amt: "money amount" "0 \<le> amount"
  obtains loan where "loan \<in> set (loans s)" "lockTargetLoan s inp = Inr loan" "ln_id loan = rs_loanId r"
    "waterfallSplit E amount (ln_arrearsAmount loan) (ln_accruedInterest loan) (ln_outstandingBalance loan) =
       (rs_toPenalty r, rs_toInterest r, rs_toPrincipal r, rs_overpayment r)"
    "loans s' = map (\<lambda>x. if ln_id x = rs_loanId r then repaidLoan r loan else x) (loans s)"
    "rs_outstandingBalance r = ln_outstandingBalance loan - rs_toPrincipal r"
    "rs_status r = (if rs_outstandingBalance r = 0 then LoanStatus.FULLY_PAID
       else if ln_status loan = LoanStatus.DEFAULTED then LoanStatus.DEFAULTED else LoanStatus.ACTIVE)"
    "wf_loans s'"
proof (rule freshRepayment_steps [OF run])
  fix loan account tp ti tc ov s1 ids2 s2 ids3 s3 ids4 s4 ids5 s5 s6
  assume lock: "lockTargetLoan s inp = Inr loan"
    and split: "waterfallSplit E amount (ln_arrearsAmount loan) (ln_accruedInterest loan)
       (ln_outstandingBalance loan) = (tp, ti, tc, ov)"
    and inst: "applyInstallmentAllocation E now s (ri_tenantId inp) (ln_id loan) tp ti tc = Inr s1"
    and l1: "repaymentLeg E inp (acc_id account) (ln_id loan) (acc_balance account) leg.PENALTY tp ([], s1) = Inr (ids2, s2)"
    and l2: "repaymentLeg E inp (acc_id account) (ln_id loan) (acc_balance account) leg.INTEREST ti (ids2, s2) = Inr (ids3, s3)"
    and l3: "repaymentLeg E inp (acc_id account) (ln_id loan) (acc_balance account) leg.PRINCIPAL tc (ids3, s3) = Inr (ids4, s4)"
    and ovd: "overpaymentDeposit E inp (acc_id account) (ln_id loan) ov (ids4, s4) = Inr (ids5, s5)"
    and upd: "updateLoan (ln_id loan) (\<lambda>l. l\<lparr>
         ln_arrearsAmount := max (dp4 E (dminus E (ln_arrearsAmount loan) tp)) 0,
         ln_accruedInterest := max (dp4 E (dminus E (ln_accruedInterest loan) ti)) 0,
         ln_outstandingBalance := max (dp4 E (dminus E (ln_outstandingBalance loan) tc)) 0,
         ln_totalRepaid := dp4 E (dplus E (dplus E (dplus E (ln_totalRepaid loan) tp) ti) tc),
         ln_status := rs_status r\<rparr>) s5 = Inr s6"
    and s': "s' = s6 \<or> (\<exists>rows. s' = s6\<lparr>mpesaTransactions := rows\<rparr>)"
    and r: "rs_loanId r = ln_id loan" "rs_toPenalty r = tp" "rs_toInterest r = ti" "rs_toPrincipal r = tc"
    "rs_overpayment r = ov"
    "rs_outstandingBalance r = max (dp4 E (dminus E (ln_outstandingBalance loan) tc)) 0"
    "rs_status r = repaidStatus E (ln_status loan) (dp4 E (dminus E (ln_arrearsAmount loan) tp))
       (dp4 E (dminus E (ln_accruedInterest loan) ti)) (dp4 E (dminus E (ln_outstandingBalance loan) tc))"
  note mem = lockTargetLoan_Inr(1) [OF lock]
  have wl: "wf_loan loan" using wfl mem by (simp add: wf_loans_def)
  then have m: "money (ln_arrearsAmount loan)" "0 \<le> ln_arrearsAmount loan"
    "money (ln_accruedInterest loan)" "0 \<le> ln_accruedInterest loan"
    "money (ln_outstandingBalance loan)" "0 \<le> ln_outstandingBalance loan"
    "money (ln_totalRepaid loan)" "0 \<le> ln_totalRepaid loan"
    by (simp_all add: wf_loan_def)
  note parts = received_parts [OF split amt m(1-6)]
  note mm = received_money [OF split amt m(1-6)]
  have d1: "money (ln_arrearsAmount loan - tp)" "0 \<le> ln_arrearsAmount loan - tp"
    "money (ln_accruedInterest loan - ti)" "0 \<le> ln_accruedInterest loan - ti"
    "money (ln_outstandingBalance loan - tc)" "0 \<le> ln_outstandingBalance loan - tc"
    using m mm parts by (auto intro: money_diff)
  have e1: "dp4 E (dminus E (ln_arrearsAmount loan) tp) = ln_arrearsAmount loan - tp"
    "dp4 E (dminus E (ln_accruedInterest loan) ti) = ln_accruedInterest loan - ti"
    "dp4 E (dminus E (ln_outstandingBalance loan) tc) = ln_outstandingBalance loan - tc"
    using m mm d1 by (simp_all add: dminus_money money_m4)
  have m4s: "m4 (ln_totalRepaid loan)" "m4 tp" "m4 ti" "m4 tc" using m mm by (simp_all add: money_m4)
  have bs: "\<bar>ln_totalRepaid loan\<bar> < 10 ^ 14" "\<bar>tp\<bar> < 10 ^ 14" "\<bar>ti\<bar> < 10 ^ 14" "\<bar>tc\<bar> < 10 ^ 14"
    using m mm by (auto simp: money_def)
  have w: "wide (ln_totalRepaid loan + tp)" "wide (ln_totalRepaid loan + tp + ti)"
    "wide (ln_totalRepaid loan + tp + ti + tc)"
    using m4s bs by (auto intro!: wideI places_add)
  have e2: "dp4 E (dplus E (dplus E (dplus E (ln_totalRepaid loan) tp) ti) tc) =
      ln_totalRepaid loan + (tp + ti + tc)"
    using w m4s by (simp add: dplus_exact places_add add.assoc)
  have e3: "max (ln_arrearsAmount loan - tp) 0 = ln_arrearsAmount loan - tp"
    "max (ln_accruedInterest loan - ti) 0 = ln_accruedInterest loan - ti"
    "max (ln_outstandingBalance loan - tc) 0 = ln_outstandingBalance loan - tc"
    using d1 by (simp_all only: max_absorb1)
  have same: "loans s5 = loans s"
  proof -
    have "loans s1 = loans s"
      by (rule only_repayments_simps [OF applyToRows_only [OF inst [unfolded applyInstallmentAllocation_def]]])
    moreover have "loans s4 = loans s1"
      using repaymentLeg_loans [OF l1] repaymentLeg_loans [OF l2] repaymentLeg_loans [OF l3] by simp
    moreover have "loans s5 = loans s4"
      using ovd by (auto simp: overpaymentDeposit_def res_simps split: if_splits
          dest!: ledger_only_postEntry simp: ledger_only_def)
    ultimately show ?thesis by simp
  qed
  let ?f = "\<lambda>l. l\<lparr>ln_arrearsAmount := ln_arrearsAmount loan - tp,
      ln_accruedInterest := ln_accruedInterest loan - ti,
      ln_outstandingBalance := ln_outstandingBalance loan - tc,
      ln_totalRepaid := ln_totalRepaid loan + (tp + ti + tc), ln_status := rs_status r\<rparr>"
  have upd': "updateLoan (ln_id loan) ?f s5 = Inr s6" using upd unfolding e1 e2 e3 .
  have dist: "distinct (map ln_id (loans s5))" using wfl by (simp add: same wf_loans_def)
  note row = updateLoan_row [OF upd' dist mem [folded same] refl]
  have f: "?f loan = repaidLoan r loan" by (simp add: repaidLoan_def r)
  have rows: "loans s' = map (\<lambda>x. if ln_id x = rs_loanId r then repaidLoan r loan else x) (loans s)"
    using row(1) s' by (auto simp: same f r(1))
  have outs: "rs_outstandingBalance r = ln_outstandingBalance loan - rs_toPrincipal r"
    using r(6) by (simp add: e1(3) e3(3) r(4))
  have status: "rs_status r = (if rs_outstandingBalance r = 0 then LoanStatus.FULLY_PAID
       else if ln_status loan = LoanStatus.DEFAULTED then LoanStatus.DEFAULTED else LoanStatus.ACTIVE)"
    using r(7) repaidStatus_exact [OF d1] by (simp add: e1 outs r(4))
  have "loan_in_columns (repaidLoan r loan)" using row(3) by (simp add: f)
  then have "wf_loan (repaidLoan r loan)"
    using d1 m parts m4s
    by (auto simp: wf_loan_def repaidLoan_def loan_in_columns_def r intro!: money_in_column places_add)
  moreover have "map ln_id (loans s') = map ln_id (loans s)"
    by (auto simp: rows repaidLoan_def r(1))
  ultimately have "wf_loans s'" using wfl by (auto simp: wf_loans_def rows simp del: map_map)
  note wfs' = this
  have sp: "waterfallSplit E amount (ln_arrearsAmount loan) (ln_accruedInterest loan)
      (ln_outstandingBalance loan) = (rs_toPenalty r, rs_toInterest r, rs_toPrincipal r, rs_overpayment r)"
    using split by (simp add: r(2-5))
  show thesis by (rule that [OF mem lock r(1)[symmetric] sp rows outs status wfs'])
qed

end

end
