(* ===== verification/Repayment_Properties.thy ===== *)
theory Repayment_Properties
  imports Loan_Repayment Ledger_Properties
begin

text \<open>
  The properties of \<open>loan-repayment.service.ts\<close>, on the lemmas of \<open>Loan_Repayment\<close>: the books,
  the loan row, the instalments, and the runs that show what a repeated reference and an overdue
  instalment do. \<open>desk\<close> is the tenant of the runs: the accounts and ledger of \<open>bank\<close>, an active
  loan of the member who owns account F, and three of its instalments.
\<close>

section \<open>A tenant with a loan\<close>

definition desk_loan :: loan where
  "desk_loan = guarded_loan\<lparr>ln_memberId := ''mF'', ln_principalAmount := 900,
     ln_outstandingBalance := 900, ln_accruedInterest := 50, ln_arrearsAmount := 20\<rparr>"

definition desk_row :: "ident \<Rightarrow> InstallmentStatus \<Rightarrow> rat \<Rightarrow> repayment" where
  "desk_row i st penalty = \<lparr>lr_id = i, lr_tenantId = ''t'', lr_loanId = ''l'', lr_dayNumber = length i,
     lr_amountPaid = 0, lr_dueDate = int (length i), lr_status = st, lr_principalDue = 300,
     lr_interestDue = 25, lr_penaltyDue = penalty, lr_principalPaid = 0, lr_interestPaid = 0,
     lr_penaltyPaid = 0, lr_paidAt = None, lr_lastPenaltyAccrualDate = None, lr_method = ''CASH''\<rparr>"

definition desk :: db where
  "desk = bank\<lparr>loans := [desk_loan],
     repayments := [desk_row ''1'' InstallmentStatus.OVERDUE 20,
       desk_row ''22'' InstallmentStatus.PENDING 0, desk_row ''333'' InstallmentStatus.PENDING 0]\<rparr>"

definition desk_input :: repayment_input where
  "desk_input = \<lparr>ri_tenantId = ''t'', ri_amount = Some 400, ri_reference = ''M1'', ri_processedBy = ''u'',
     ri_memberId = None, ri_loanId = Some ''l'', ri_loanNumber = None, ri_accountReference = None,
     ri_mpesaTxId = None, ri_receipt = None, ri_resultCode = None,
     ri_transactionDate = None, ri_callbackPayload = None\<rparr>"

lemma desk_facts: "wf_db desk" "gl_agrees desk ''t''" "wf_loans desk" "instalments_ok desk"
  "transactionByReference desk ''t'' ''M1'' = None"
  by code_simp+

lemma desk_run: "\<exists>r s'. processRepayment plain_env 7 desk desk_input = (Inr r, s')"
proof -
  have "(case processRepayment plain_env 7 desk desk_input of (Inl _, _) \<Rightarrow> False | (Inr _, _) \<Rightarrow> True)"
    by code_simp
  then show ?thesis by (auto split: prod.splits sum.splits)
qed

section \<open>The operation\<close>

text \<open>The parts of the database that the queue and the audit log do not touch.\<close>

lemma fold_writeAudit:
  "accounts (fold (\<lambda>j. writeAudit (t j) (u j) (a j) (e j)) js s) = accounts s"
  "loans (fold (\<lambda>j. writeAudit (t j) (u j) (a j) (e j)) js s) = loans s"
  "wf_db (fold (\<lambda>j. writeAudit (t j) (u j) (a j) (e j)) js s) = wf_db s"
  "gl_agrees (fold (\<lambda>j. writeAudit (t j) (u j) (a j) (e j)) js s) x = gl_agrees s x"
  by (induction js arbitrary: s) (simp_all add: writeAudit_def)

lemma cancelDelayed_same [simp]:
  "accounts (cancelDelayedGuarantorDebit t l s) = accounts s"
  "loans (cancelDelayedGuarantorDebit t l s) = loans s"
  "wf_db (cancelDelayedGuarantorDebit t l s) = wf_db s"
  "gl_agrees (cancelDelayedGuarantorDebit t l s) x = gl_agrees s x"
  by (simp_all add: cancelDelayedGuarantorDebit_def Let_def fold_writeAudit)

lemma processRepayment_cases:
  assumes "processRepayment E now s inp = (out, s')"
  obtains (refused) "isl out" "s' = s"
    | (failed) e where "out = Inl e"
        "s' = writeAudit (ri_tenantId inp) (ri_processedBy inp) ''LOAN.REPAYMENT.FAILED'' (failureEntity inp) s"
    | (ran) raw r replayed s1 where "out = Inr r" "ri_amount inp = Some raw" "0 < raw"
        "repaymentTransaction E now s inp (dp4 E raw) = Inr ((r, replayed), s1)"
        "accounts s' = accounts s1" "loans s' = loans s1" "wf_db s' = wf_db s1"
        "\<And>t. gl_agrees s' t = gl_agrees s1 t"
proof (cases "ri_amount inp")
  case None
  with assms have "isl out" "s' = s" by (auto simp: processRepayment_def)
  then show thesis by (rule refused)
next
  case (Some raw)
  show thesis
  proof (cases "raw \<le> 0")
    case True
    with assms Some have "isl out" "s' = s" by (auto simp: processRepayment_def)
    then show thesis by (rule refused)
  next
    case pos: False
    show thesis
    proof (cases "repaymentTransaction E now s inp (dp4 E raw)")
      case (Inl e)
      show thesis by (rule failed) (use assms Some pos Inl in \<open>auto simp: processRepayment_def\<close>)
    next
      case (Inr x)
      then obtain r replayed s1 where x: "repaymentTransaction E now s inp (dp4 E raw) = Inr ((r, replayed), s1)"
        by (cases x) auto
      define s2 where "s2 = (if rs_status r \<noteq> LoanStatus.DEFAULTED
        then cancelDelayedGuarantorDebit (ri_tenantId inp) (rs_loanId r) s1 else s1)"
      have s2: "accounts s2 = accounts s1" "loans s2 = loans s1" "wf_db s2 = wf_db s1"
        "gl_agrees s2 t = gl_agrees s1 t" for t
        by (simp_all add: s2_def)
      have "(Inr r, if replayed then s2 else writeAudit (ri_tenantId inp) (ri_processedBy inp)
          ''LOAN.REPAYMENT.WATERFALL'' (rs_loanId r) s2) = (out, s')"
        using assms Some pos x unfolding processRepayment_def s2_def by (simp only: option.case sum.case prod.case Let_def if_False)
      then have out: "out = Inr r" and s': "s' = (if replayed then s2 else writeAudit (ri_tenantId inp)
          (ri_processedBy inp) ''LOAN.REPAYMENT.WATERFALL'' (rs_loanId r) s2)"
        by (simp_all only: prod.inject)
      show thesis
        by (rule ran [OF out Some _ x]) (use pos s2 in \<open>cases replayed; simp add: s'; simp add: writeAudit_def\<close>)+
    qed
  qed
qed

lemma repaymentTransaction_cases:
  assumes "repaymentTransaction E now s inp amount = Inr ((r, replayed), s')"
  obtains (replay) d k where "transactionByReference s (ri_tenantId inp) (ri_reference inp) = Some d"
      "tx_loanId d = Some k" "s' = s" replayed
    | (fresh) "freshRepayment E now s inp amount = Inr (r, s')" "\<not> replayed"
  using assms by (auto simp: repaymentTransaction_def replayedRepayment_def res_simps split: option.splits)

section \<open>Properties\<close>

text \<open>
  C28. Whatever a repayment does (succeeds, is a replay, is refused, or fails and is rolled back),
  the database stays well formed and the FOSA and BOSA balances of every tenant keep agreeing with
  codes 2300 and 2400 of its general ledger.
\<close>

theorem processRepayment_books:
  assumes "decimal_runtime E" and "processRepayment E now s inp = (out, s')" and "wf_db s"
  shows "wf_db s' \<and> (gl_agrees s tenant \<longrightarrow> gl_agrees s' tenant)"
  using assms(2)
proof (cases rule: processRepayment_cases)
  case (ran raw r replayed s1)
  from ran(4) have "wf_db s1 \<and> (gl_agrees s tenant \<longrightarrow> gl_agrees s1 tenant)"
    by (cases rule: repaymentTransaction_cases)
      (use assms(3) decimal_runtime.freshRepayment_books [OF assms(1)] in auto)
  then show ?thesis by (simp add: ran)
qed (use assms(3) in auto)

theorem processRepayment_books_witness:
  "\<exists>r s'. processRepayment plain_env 7 desk desk_input = (Inr r, s') \<and> gl_agrees s' ''t''"
  using desk_run processRepayment_books [OF plain.decimal_runtime_axioms _ desk_facts(1)] desk_facts(2)
  by blast

text \<open>
  C29. A repayment with a new reference reduces exactly one loan, by exactly its parts: the parts add
  up to the amount, penalty is served before interest and interest before principal, arrears,
  accrued interest and outstanding balance go down by their part and the total repaid goes up by
  the three, no figure becomes negative, and the loan is FULLY_PAID exactly when nothing of the
  principal is left. Every other loan is untouched.
\<close>

theorem processRepayment_loan:
  assumes "decimal_runtime E" and "processRepayment E now s inp = (Inr r, s')" and "wf_loans s"
    and "transactionByReference s (ri_tenantId inp) (ri_reference inp) = None"
    and "ri_amount inp = Some amount" and "money (dp4 E amount)"
  shows "\<exists>loan \<in> set (loans s). lockTargetLoan s inp = Inr loan \<and>
    rs_toPenalty r + rs_toInterest r + rs_toPrincipal r + rs_overpayment r = dp4 E amount \<and>
    (0 < rs_toInterest r \<longrightarrow> rs_toPenalty r = ln_arrearsAmount loan) \<and>
    (0 < rs_toPrincipal r \<longrightarrow> rs_toInterest r = ln_accruedInterest loan) \<and>
    (0 < rs_overpayment r \<longrightarrow> rs_toPrincipal r = ln_outstandingBalance loan) \<and>
    loans s' = map (\<lambda>x. if ln_id x = ln_id loan then repaidLoan r loan else x) (loans s) \<and>
    wf_loans s' \<and> (rs_status r = LoanStatus.FULLY_PAID \<longleftrightarrow> rs_toPrincipal r = ln_outstandingBalance loan)"
  using assms(2)
proof (cases rule: processRepayment_cases)
  case (ran raw r' replayed s1)
  have r: "r' = r" and raw: "raw = amount" using ran(1,2) assms(5) by simp_all
  from ran(4) have fresh: "freshRepayment E now s inp (dp4 E amount) = Inr (r, s1)"
    by (cases rule: repaymentTransaction_cases) (simp_all add: assms(4) r raw)
  have nonneg: "0 \<le> dp4 E amount"
    using decimal_runtime.dp4_nonneg [OF assms(1), of amount] ran(3) raw by simp
  show ?thesis
  proof (rule decimal_runtime.freshRepayment_loan [OF assms(1) fresh assms(3,6) nonneg])
    fix loan
    assume l: "loan \<in> set (loans s)" "lockTargetLoan s inp = Inr loan" "ln_id loan = rs_loanId r"
      and split: "waterfallSplit E (dp4 E amount) (ln_arrearsAmount loan) (ln_accruedInterest loan)
        (ln_outstandingBalance loan) = (rs_toPenalty r, rs_toInterest r, rs_toPrincipal r, rs_overpayment r)"
      and rows: "loans s1 = map (\<lambda>x. if ln_id x = rs_loanId r then repaidLoan r loan else x) (loans s)"
      and outs: "rs_outstandingBalance r = ln_outstandingBalance loan - rs_toPrincipal r"
      and st: "rs_status r = (if rs_outstandingBalance r = 0 then LoanStatus.FULLY_PAID
       else if ln_status loan = LoanStatus.DEFAULTED then LoanStatus.DEFAULTED else LoanStatus.ACTIVE)"
      and wf': "wf_loans s1"
    have "wf_loan loan" using l(1) assms(3) by (simp add: wf_loans_def)
    then have m: "money (ln_arrearsAmount loan)" "0 \<le> ln_arrearsAmount loan"
      "money (ln_accruedInterest loan)" "0 \<le> ln_accruedInterest loan"
      "money (ln_outstandingBalance loan)" "0 \<le> ln_outstandingBalance loan"
      by (simp_all add: wf_loan_def)
    note parts = decimal_runtime.received_parts(1) [OF assms(1) split assms(6) nonneg m]
      and prio = decimal_runtime.received_priority [OF assms(1) split assms(6) nonneg m]
    have "0 < rs_toInterest r \<longrightarrow> rs_toPenalty r = ln_arrearsAmount loan"
      "0 < rs_toPrincipal r \<longrightarrow> rs_toInterest r = ln_accruedInterest loan"
      "0 < rs_overpayment r \<longrightarrow> rs_toPrincipal r = ln_outstandingBalance loan"
      using prio by blast+
    note parts this
    moreover have "rs_status r = LoanStatus.FULLY_PAID \<longleftrightarrow> rs_toPrincipal r = ln_outstandingBalance loan"
      by (auto simp: st outs)
    moreover have "wf_loans s'" using wf' ran(6) by (simp add: wf_loans_def)
    moreover have "loans s' = map (\<lambda>x. if ln_id x = ln_id loan then repaidLoan r loan else x) (loans s)"
      unfolding l(3) ran(6) by (rule rows)
    ultimately show ?thesis by (intro bexI [OF _ l(1)] conjI l(2))
  qed
qed simp_all

theorem processRepayment_loan_witness:
  "\<exists>r s'. processRepayment plain_env 7 desk desk_input = (Inr r, s') \<and>
     rs_toPenalty r + rs_toInterest r + rs_toPrincipal r + rs_overpayment r = 400"
proof -
  obtain r s' where run: "processRepayment plain_env 7 desk desk_input = (Inr r, s')" using desk_run by blast
  have in': "transactionByReference desk (ri_tenantId desk_input) (ri_reference desk_input) = None"
    "ri_amount desk_input = Some 400" "money (dp4 plain_env 400)" "dp4 plain_env 400 = 400"
    by code_simp+
  with processRepayment_loan [OF plain.decimal_runtime_axioms run desk_facts(3) in'(1-3)] run
  show ?thesis by auto
qed


text \<open>Only open instalments of the loan are touched.\<close>

lemma applyToRows_keeps:
  assumes "applyToRows E now p i c rows s = Inr s'" and "x \<in> set (repayments s)"
    and "lr_id x \<notin> lr_id ` set rows"
  shows "x \<in> set (repayments s')"
  using assms
proof (induction rows arbitrary: p i c s)
  case Nil
  then show ?case by simp
next
  case (Cons row rows)
  let ?ap = "takeFor E p (lr_penaltyDue row) (lr_penaltyPaid row)"
  let ?ai = "takeFor E i (lr_interestDue row) (lr_interestPaid row)"
  let ?ac = "takeFor E c (instalmentPrincipalDue row) (lr_principalPaid row)"
  have ne: "lr_id x \<noteq> lr_id row" "lr_id x \<notin> lr_id ` set rows" using Cons.prems(3) by auto
  consider (stop) "dplus E (dplus E p i) c \<le> 0"
    | (skip) "\<not> dplus E (dplus E p i) c \<le> 0" "dplus E (dplus E ?ap ?ai) ?ac \<le> 0"
    | (pay) "\<not> dplus E (dplus E p i) c \<le> 0" "\<not> dplus E (dplus E ?ap ?ai) ?ac \<le> 0" by blast
  then show ?case
  proof cases
    case stop
    with Cons.prems show ?thesis by simp
  next
    case skip
    with Cons.prems ne show ?thesis by (auto simp: Let_def intro: Cons.IH)
  next
    case pay
    with Cons.prems obtain s1 p' i' c' where upd: "updateRepayment (lr_id row)
        (\<lambda>r. payInstalment E now ?ap ?ai ?ac row) s = Inr s1"
      and rest: "applyToRows E now p' i' c' rows s1 = Inr s'"
      by (auto simp: Let_def res_simps)
    from upd have "x \<in> set (repayments s1)"
      using Cons.prems(2) ne(1) by (auto simp: updateRepayment_def res_simps Let_def updateMany_def intro!: image_eqI [of _ _ x])
    then show ?thesis using Cons.IH [OF rest _ ne(2)] by simp
  qed
qed

lemma openInstalments_set:
  "set (openInstalments s t l) = {r \<in> set (repayments s). lr_tenantId r = t \<and> lr_loanId r = l \<and>
     lr_status r \<in> {InstallmentStatus.PENDING, InstallmentStatus.PARTIAL}}"
  by (auto simp: openInstalments_def)

lemma openInstalments_distinct:
  "distinct (map lr_id (repayments s)) \<Longrightarrow> distinct (map lr_id (openInstalments s t l))"
  by (auto simp: openInstalments_def distinct_map intro: inj_on_subset)

text \<open>
  Instalments: with amortised rows, none overpaid, the allocation keeps them so; each part
  raises the paid totals of its own column by what it placed, what a part could not place was left
  only because every open instalment of the loan is settled in that column, and a row of another
  loan, or of a status other than PENDING and PARTIAL, keeps every field. OVERDUE rows are of this
  kind: no repayment ever settles one.
\<close>

theorem instalment_allocation:
  assumes "decimal_runtime E" and "applyInstallmentAllocation E now s t l p i c = Inr s'"
    and "instalments_ok s" and "money p" "0 \<le> p" "money i" "0 \<le> i" "money c" "0 \<le> c"
  shows "instalments_ok s' \<and> (\<exists>p' i' c'. 0 \<le> p' \<and> 0 \<le> i' \<and> 0 \<le> c' \<and>
      table_sum lr_penaltyPaid s' = table_sum lr_penaltyPaid s + (p - p') \<and>
      table_sum lr_interestPaid s' = table_sum lr_interestPaid s + (i - i') \<and>
      table_sum lr_principalPaid s' = table_sum lr_principalPaid s + (c - c') \<and>
      (0 < p' \<longrightarrow> p - p' = (\<Sum>r \<leftarrow> openInstalments s t l. lr_penaltyDue r - lr_penaltyPaid r)) \<and>
      (0 < i' \<longrightarrow> i - i' = (\<Sum>r \<leftarrow> openInstalments s t l. lr_interestDue r - lr_interestPaid r)) \<and>
      (0 < c' \<longrightarrow> c - c' = (\<Sum>r \<leftarrow> openInstalments s t l. lr_principalDue r - lr_principalPaid r))) \<and>
    (\<forall>x \<in> set (repayments s). lr_loanId x \<noteq> l \<or>
       lr_status x \<notin> {InstallmentStatus.PENDING, InstallmentStatus.PARTIAL} \<longrightarrow> x \<in> set (repayments s'))"
proof -
  note run = assms(2) [unfolded applyInstallmentAllocation_def]
  have d: "distinct (map lr_id (repayments s))" using assms(3) by (simp add: instalments_ok_def)
  have rest: "x \<in> set (repayments s')" if x: "x \<in> set (repayments s)"
    and other: "lr_loanId x \<noteq> l \<or> lr_status x \<notin> {InstallmentStatus.PENDING, InstallmentStatus.PARTIAL}" for x
  proof (rule applyToRows_keeps [OF run x])
    show "lr_id x \<notin> lr_id ` set (openInstalments s t l)"
    proof
      assume "lr_id x \<in> lr_id ` set (openInstalments s t l)"
      then obtain y where y: "y \<in> set (repayments s)" "lr_id x = lr_id y" "lr_loanId y = l"
        "lr_status y \<in> {InstallmentStatus.PENDING, InstallmentStatus.PARTIAL}"
        by (auto simp: openInstalments_set)
      from y(2) have "y = x" by (intro distinct_key_eq [OF d y(1) x]) simp
      with y(3,4) other show False by simp
    qed
  qed
  have "set (openInstalments s t l) \<subseteq> set (repayments s)" by (auto simp: openInstalments_set)
  note acc = decimal_runtime.applyToRows_accounting
    [OF assms(1) run assms(3) this openInstalments_distinct [OF d] assms(4-9)]
  from rest have "\<forall>x \<in> set (repayments s). lr_loanId x \<noteq> l \<or>
       lr_status x \<notin> {InstallmentStatus.PENDING, InstallmentStatus.PARTIAL} \<longrightarrow> x \<in> set (repayments s')"
    by blast
  with acc show ?thesis by (simp only: conj_assoc simp_thms)
qed

theorem instalment_allocation_witness:
  "\<exists>s'. applyInstallmentAllocation plain_env 7 desk ''t'' ''l'' 20 50 330 = Inr s' \<and>
     desk_row ''1'' InstallmentStatus.OVERDUE 20 \<in> set (repayments s')"
proof -
  have "(case applyInstallmentAllocation plain_env 7 desk ''t'' ''l'' 20 50 330 of Inl _ \<Rightarrow> False | Inr _ \<Rightarrow> True)"
    by code_simp
  then obtain s' where run: "applyInstallmentAllocation plain_env 7 desk ''t'' ''l'' 20 50 330 = Inr s'"
    by (auto split: sum.splits)
  have "desk_row ''1'' InstallmentStatus.OVERDUE 20 \<in> set (repayments desk)" "lr_status (desk_row ''1'' InstallmentStatus.OVERDUE 20) =
    InstallmentStatus.OVERDUE" by (simp_all add: desk_def desk_row_def)
  with run instalment_allocation [OF plain.decimal_runtime_axioms run desk_facts(4)]
  show ?thesis by (auto simp: money_def)
qed

definition processTwice :: "db \<Rightarrow> (repayment_summary \<times> repayment_summary \<times> db) option" where
  "processTwice s = (case processRepayment plain_env 7 s desk_input of (out1, s1) \<Rightarrow>
     (case out1 of Inl _ \<Rightarrow> None
      | Inr r1 \<Rightarrow> (case processRepayment plain_env 7 s1 desk_input of (out2, s2) \<Rightarrow>
          (case out2 of Inl _ \<Rightarrow> None | Inr r2 \<Rightarrow> Some (r1, r2, s2)))))"

text \<open>
  The same notification twice: the second run with the same reference is not recognised as a
  replay, because the rows that the first run wrote carry the reference with a suffix. It takes the
  amount off the loan a second time, while the general ledger, whose entries do recognise the
  reference, credits the loan receivable code only once.
\<close>

theorem repeated_reference_counts_twice:
  "(case processTwice desk of None \<Rightarrow> False
    | Some (r1, r2, s2) \<Rightarrow> rs_outstandingBalance r1 = 570 \<and> rs_outstandingBalance r2 = 170 \<and>
        map ln_totalRepaid (loans s2) = [800] \<and>
        gl_credit s2 ''t'' GL_LOAN_RECEIVABLE = gl_credit desk ''t'' GL_LOAN_RECEIVABLE + 330)"
  by code_simp

end
