(* ===== verification/Loan_Schedule.thy ===== *)
theory Loan_Schedule
  imports Loan_Tables
begin

text \<open>
  Dates, the level instalment and the amortisation schedule of
  \<open>src/src/modules/loans/loans.service.ts\<close> (\<open>calculateInstalment\<close>,
  \<open>buildAmortizationSchedule\<close>).

  A date is its number of milliseconds since 1970. \<open>addMonths\<close> is
  \<open>d.setMonth(d.getMonth() + k)\<close> of JavaScript with the server's clock in UTC: a day that the
  target month does not have overflows into the month after it. The n-th power of the package
  decimal.js is the parameter \<open>pow\<close> of \<open>calculateInstalment\<close>.

  The lemmas show that a schedule hands out the whole principal, that no period gives principal
  back when the instalment covers the interest, and that a flat schedule adds up to its interest.
\<close>

section \<open>Dates\<close>

definition daysFromCivil :: "int \<Rightarrow> int \<Rightarrow> int \<Rightarrow> int" where
  "daysFromCivil y m d =
     (let y' = (if m \<le> 2 then y - 1 else y);
          era = y' div 400; yoe = y' mod 400;
          doy = (153 * (if 2 < m then m - 3 else m + 9) + 2) div 5 + d - 1
      in era * 146097 + (yoe * 365 + yoe div 4 - yoe div 100 + doy) - 719468)"

definition civilFromDays :: "int \<Rightarrow> int \<times> int \<times> int" where
  "civilFromDays days =
     (let z = days + 719468; era = z div 146097; doe = z mod 146097;
          yoe = (doe - doe div 1460 + doe div 36524 - doe div 146096) div 365;
          doy = doe - (365 * yoe + yoe div 4 - yoe div 100);
          mp = (5 * doy + 2) div 153;
          d = doy - (153 * mp + 2) div 5 + 1;
          m = (if mp < 10 then mp + 3 else mp - 9)
      in (yoe + era * 400 + (if m \<le> 2 then 1 else 0), m, d))"

definition MS_PER_DAY :: int where "MS_PER_DAY = 86400000"

definition addMonths :: "int \<Rightarrow> nat \<Rightarrow> int" where
  "addMonths date k =
     (let (y, m, d) = civilFromDays (date div MS_PER_DAY);
          m0 = m - 1 + int k
      in (daysFromCivil (y + m0 div 12) (m0 mod 12 + 1) 1 + d - 1) * MS_PER_DAY + date mod MS_PER_DAY)"

text \<open>
  1970-01-01; 31 January 2026 plus one month is 3 March 2026 (February has no 31st); 29 February
  2024 plus twelve months is 1 March 2025; a month-end crosses the year.
\<close>

lemma dates_examples:
  "civilFromDays 0 = (1970, 1, 1)" "daysFromCivil 2026 1 31 = 20484" "civilFromDays 20484 = (2026, 1, 31)"
  "civilFromDays (addMonths (20484 * MS_PER_DAY) 1 div MS_PER_DAY) = (2026, 3, 3)"
  "civilFromDays (addMonths (daysFromCivil 2024 2 29 * MS_PER_DAY) 12 div MS_PER_DAY) = (2025, 3, 1)"
  "civilFromDays (addMonths (daysFromCivil 2026 11 15 * MS_PER_DAY + 5) 3 div MS_PER_DAY) = (2027, 2, 15)"
  "addMonths (daysFromCivil 2026 11 15 * MS_PER_DAY + 5) 3 mod MS_PER_DAY = 5"
  by code_simp+

section \<open>The level instalment\<close>

definition calculateInstalment ::
  "env \<Rightarrow> (rat \<Rightarrow> nat \<Rightarrow> rat) \<Rightarrow> rat \<Rightarrow> rat \<Rightarrow> nat \<Rightarrow> InterestType \<Rightarrow> rat" where
  "calculateInstalment E pow principalAmt annualRate tenureMonths ty =
     (let n = of_nat tenureMonths in
      if ty = InterestType.FLAT then
        (let totalInterest = dtimes E (dtimes E principalAmt annualRate) (ddiv E n 12)
         in ddiv E (dplus E principalAmt totalInterest) n)
      else
        (let r = ddiv E annualRate 12 in
         if r = 0 then ddiv E principalAmt n
         else
           (let onePlusRPowN = pow (dplus E 1 r) tenureMonths
            in ddiv E (dtimes E (dtimes E principalAmt r) onePlusRPowN) (dminus E onePlusRPowN 1))))"

section \<open>The schedule\<close>

record period =
  pd_principalDue :: rat
  pd_interestDue :: rat

text \<open>
  The loops of the two branches: \<open>left\<close> counts the periods still to come, so the last one has
  \<open>left = 1\<close>; the other arguments are the loop's variables.
\<close>

fun flatPeriods :: "env \<Rightarrow> rat \<Rightarrow> rat \<Rightarrow> rat \<Rightarrow> rat \<Rightarrow> nat \<Rightarrow> rat \<Rightarrow> rat \<Rightarrow> period list" where
  "flatPeriods E principalAmt totalInterest interestPerPeriod instalment 0 principalAccrued interestAccrued = []"
| "flatPeriods E principalAmt totalInterest interestPerPeriod instalment (Suc left) principalAccrued interestAccrued =
     (let isLast = (left = 0);
          interestDue = (if isLast then dminus E totalInterest interestAccrued else interestPerPeriod);
          principalDue = (if isLast then dminus E principalAmt principalAccrued
            else dp4 E (dminus E instalment interestPerPeriod))
      in \<lparr>pd_principalDue = principalDue, pd_interestDue = interestDue\<rparr> #
         flatPeriods E principalAmt totalInterest interestPerPeriod instalment left
           (dplus E principalAccrued principalDue) (dplus E interestAccrued interestDue))"

fun reducingPeriods :: "env \<Rightarrow> rat \<Rightarrow> rat \<Rightarrow> rat \<Rightarrow> nat \<Rightarrow> rat \<Rightarrow> rat \<Rightarrow> period list" where
  "reducingPeriods E principalAmt monthlyRate instalment 0 outstanding principalAccrued = []"
| "reducingPeriods E principalAmt monthlyRate instalment (Suc left) outstanding principalAccrued =
     (let isLast = (left = 0);
          interestDue = (if monthlyRate = 0 then 0 else dp4 E (dtimes E outstanding monthlyRate));
          principalDue = (if isLast then dminus E principalAmt principalAccrued
            else min (dp4 E (dminus E instalment interestDue)) outstanding)
      in \<lparr>pd_principalDue = principalDue, pd_interestDue = interestDue\<rparr> #
         reducingPeriods E principalAmt monthlyRate instalment left
           (dp4 E (dminus E outstanding principalDue)) (dplus E principalAccrued principalDue))"

definition flatInterest :: "env \<Rightarrow> rat \<Rightarrow> rat \<Rightarrow> nat \<Rightarrow> rat" where
  "flatInterest E principalAmt annualRate tenureMonths =
     dp4 E (ddiv E (dtimes E (dtimes E principalAmt annualRate) (of_nat tenureMonths)) 12)"

definition buildAmortizationSchedule :: "env \<Rightarrow> rat \<Rightarrow> rat \<Rightarrow> nat \<Rightarrow> InterestType \<Rightarrow> rat \<Rightarrow> period list" where
  "buildAmortizationSchedule E principalAmt annualRate tenureMonths ty instalment =
     (if ty = InterestType.FLAT then
        (let totalInterest = flatInterest E principalAmt annualRate tenureMonths;
             interestPerPeriod = dp4 E (ddiv E totalInterest (of_nat tenureMonths))
         in flatPeriods E principalAmt totalInterest interestPerPeriod instalment tenureMonths 0 0)
      else
        reducingPeriods E principalAmt (ddiv E annualRate 12) instalment tenureMonths principalAmt 0)"

lemma flatPeriods_length [simp]: "length (flatPeriods E p ti ipp inst n pa ia) = n"
  by (induction n arbitrary: pa ia) (simp_all add: Let_def)

lemma reducingPeriods_length [simp]: "length (reducingPeriods E p r inst n out pa) = n"
  by (induction n arbitrary: out pa) (simp_all add: Let_def)

lemma schedule_length [simp]: "length (buildAmortizationSchedule E p r n ty inst) = n"
  by (simp add: buildAmortizationSchedule_def Let_def)

context decimal_runtime
begin

lemma flatPeriods_sums:
  assumes "0 < n" and "m4 p" "m4 ti" "m4 pa" "m4 ia" "m4 ipp"
    and "\<bar>p\<bar> < 10 ^ 14" "\<bar>ti\<bar> < 10 ^ 14"
    and "\<bar>pa\<bar> + of_nat n * \<bar>dp4 E (dminus E inst ipp)\<bar> < 10 ^ 15" "\<bar>ia\<bar> + of_nat n * \<bar>ipp\<bar> < 10 ^ 15"
  shows "sum_list (map pd_principalDue (flatPeriods E p ti ipp inst n pa ia)) = p - pa"
    and "sum_list (map pd_interestDue (flatPeriods E p ti ipp inst n pa ia)) = ti - ia"
proof -
  define q where "q = dp4 E (dminus E inst ipp)"
  have q: "m4 q" by (simp add: q_def)
  have "sum_list (map pd_principalDue (flatPeriods E p ti ipp inst n pa ia)) = p - pa \<and>
      sum_list (map pd_interestDue (flatPeriods E p ti ipp inst n pa ia)) = ti - ia"
    using assms(1,4,5,9,10) unfolding q_def [symmetric]
  proof (induction n arbitrary: pa ia)
    case 0
    then show ?case by simp
  next
    case (Suc n)
    have nn: "0 \<le> of_nat n * \<bar>q\<bar>" "0 \<le> of_nat n * \<bar>ipp\<bar>" by simp_all
    have b: "\<bar>pa\<bar> < 10 ^ 15" "\<bar>ia\<bar> < 10 ^ 15" "\<bar>q\<bar> < 10 ^ 15" "\<bar>ipp\<bar> < 10 ^ 15"
      using Suc.prems(4,5) [unfolded of_nat_Suc distrib_right mult_1] nn abs_ge_zero [of pa]
        abs_ge_zero [of ia] abs_ge_zero [of q] abs_ge_zero [of ipp] by linarith+
    show ?case
    proof (cases "n = 0")
      case True
      have "dminus E p pa = p - pa" "dminus E ti ia = ti - ia"
        using assms(2,3,7,8) Suc.prems(2,3) b
        by (auto intro!: dminus_exact wideI places_diff)
      with True show ?thesis by (simp add: Let_def)
    next
      case False
      have e: "dplus E pa q = pa + q" "dplus E ia ipp = ia + ipp"
        using Suc.prems(2,3) q assms(6) b by (auto intro!: dplus_exact wideI places_add)
      have "\<bar>pa + q\<bar> + of_nat n * \<bar>q\<bar> < 10 ^ 15" "\<bar>ia + ipp\<bar> + of_nat n * \<bar>ipp\<bar> < 10 ^ 15"
        using Suc.prems(4,5) [unfolded of_nat_Suc distrib_right mult_1] abs_triangle_ineq [of pa q]
          abs_triangle_ineq [of ia ipp] by linarith+
      from Suc.IH [OF _ _ _ this] False Suc.prems(2,3) q assms(6) show ?thesis
        by (simp add: Let_def e places_add flip: q_def)
    qed
  qed
  then show "sum_list (map pd_principalDue (flatPeriods E p ti ipp inst n pa ia)) = p - pa"
    "sum_list (map pd_interestDue (flatPeriods E p ti ipp inst n pa ia)) = ti - ia" by blast+
qed

text \<open>The interest that a balance bears in a month, when the rate is exact enough.\<close>

lemma interest_covered:
  assumes "0 \<le> x" "x \<le> p" "0 \<le> r" and "p * r < 10 ^ 14" and "p * r + 1 / 100 \<le> inst"
  shows "0 \<le> dp4 E (dtimes E x r)" "dp4 E (dtimes E x r) \<le> inst"
proof -
  have xr: "0 \<le> x * r" "x * r \<le> p * r" using assms(1-3) by (auto intro: mult_right_mono)
  show "0 \<le> dp4 E (dtimes E x r)" using xr by (intro dp4_nonneg) (simp add: dtimes_def sig_nonneg)
  have "\<bar>x * r\<bar> / 10 ^ 19 \<le> 10 ^ 14 / 10 ^ 19"
    using xr assms(4) by (intro divide_right_mono) auto
  then have "\<bar>sig_round E (x * r) - x * r\<bar> \<le> 1 / 100000"
    using sig_error [of "x * r"] by simp
  then have "dtimes E x r \<le> x * r + 1 / 100000" unfolding dtimes_def by linarith
  moreover have "dp4 E (dtimes E x r) \<le> dtimes E x r + 1 / (2 * 10 ^ 4)"
    using half_up_error [of 4 "dtimes E x r"] unfolding dec_places_half_up by linarith
  ultimately show "dp4 E (dtimes E x r) \<le> inst" using xr(2) assms(5) by simp
qed

text \<open>A share of the flat interest.\<close>

lemma per_period_bound:
  assumes "0 \<le> ti" "ti < 10 ^ 11" "0 < n"
  shows "\<bar>dp4 E (ddiv E ti (of_nat n))\<bar> < 10 ^ 11 + 1"
proof -
  have n: "1 \<le> (of_nat n :: rat)" using assms(3) by simp
  have "ti * 1 \<le> ti * of_nat n" using assms(1) n by (rule mult_left_mono [rotated])
  then have x: "0 \<le> ti / of_nat n" "ti / of_nat n \<le> ti"
    using assms(1,3) by (simp_all add: field_simps)
  have "\<bar>ti / of_nat n\<bar> / 10 ^ 19 \<le> 10 ^ 11 / 10 ^ 19"
    using x assms(2) by (intro divide_right_mono) auto
  then have "\<bar>sig_round E (ti / of_nat n) - ti / of_nat n\<bar> \<le> 1 / 100"
    using sig_error [of "ti / of_nat n"] by simp
  then have "\<bar>ddiv E ti (of_nat n)\<bar> \<le> ti + 1 / 100" unfolding ddiv_def using x by linarith
  moreover have "\<bar>dp4 E (ddiv E ti (of_nat n)) - ddiv E ti (of_nat n)\<bar> \<le> 1 / 2"
    using half_up_error [of 4 "ddiv E ti (of_nat n)"] unfolding dec_places_half_up by simp
  ultimately show ?thesis using assms(2) by linarith
qed

lemma reducingPeriods_sums:
  assumes "0 < n" and "money p" "money inst" and "0 \<le> r" "p * r < 10 ^ 14" "p * r + 1 / 100 \<le> inst"
    and "m4 out" "m4 pa" "0 \<le> out" "0 \<le> pa" "pa + out = p"
  shows "sum_list (map pd_principalDue (reducingPeriods E p r inst n out pa)) = out \<and>
    (\<forall>pd \<in> set (reducingPeriods E p r inst n out pa). 0 \<le> pd_principalDue pd \<and> 0 \<le> pd_interestDue pd)"
  using assms(1,7-11)
proof (induction n arbitrary: out pa)
  case 0
  then show ?case by simp
next
  case (Suc n)
  define i where "i = (if r = 0 then 0 else dp4 E (dtimes E out r))"
  have "out \<le> p" using Suc.prems by linarith
  from interest_covered [OF Suc.prems(4) this assms(4-6)] have i: "0 \<le> i" "i \<le> inst" "m4 i"
    using assms(4,6) \<open>out \<le> p\<close> Suc.prems(4) mult_nonneg_nonneg [of p r] by (auto simp: i_def)
  have pb: "\<bar>p\<bar> < 10 ^ 14" "m4 p" and ib: "\<bar>inst\<bar> < 10 ^ 14" "m4 inst"
    using assms(2,3) by (simp_all add: money_def)
  show ?case
  proof (cases "n = 0")
    case True
    have "dminus E p pa = p - pa"
      using pb Suc.prems by (intro dminus_exact wideI places_diff) auto
    with True Suc.prems i show ?thesis by (simp add: Let_def i_def [symmetric])
  next
    case False
    define q where "q = min (dp4 E (dminus E inst i)) out"
    have "dminus E inst i = inst - i"
      using ib i by (intro dminus_exact wideI places_diff) auto
    then have q: "m4 q" "0 \<le> q" "q \<le> out"
      using i ib Suc.prems by (auto simp: q_def places_diff intro: places_min)
    have e: "dp4 E (dminus E out q) = out - q" "dplus E pa q = pa + q"
    proof -
      have "wide (out - q)" "wide (pa + q)"
        using q Suc.prems pb by (auto intro!: wideI places_diff places_add)
      then show "dp4 E (dminus E out q) = out - q" "dplus E pa q = pa + q"
        by (simp_all add: dminus_exact dplus_exact wide_def)
    qed
    have "sum_list (map pd_principalDue (reducingPeriods E p r inst n (out - q) (pa + q))) = out - q \<and>
      (\<forall>pd \<in> set (reducingPeriods E p r inst n (out - q) (pa + q)). 0 \<le> pd_principalDue pd \<and> 0 \<le> pd_interestDue pd)"
      using False q Suc.prems by (intro Suc.IH) (auto intro: places_diff places_add)
    with False q(2) i(1) show ?thesis
      by (simp add: Let_def i_def [symmetric] q_def [symmetric] e)
  qed
qed

end

section \<open>Properties\<close>

text \<open>
  C35. A reducing-balance schedule hands out exactly the principal, one period per month, and no
  period has a negative part, when the instalment exceeds the first month's interest by a cent.
\<close>

theorem reducing_schedule:
  assumes "decimal_runtime E" and "0 < n" and "money p" "0 \<le> p" "money inst"
    and "r = ddiv E annualRate 12" "0 \<le> r" "p * r < 10 ^ 14" "p * r + 1 / 100 \<le> inst"
    and "ty \<noteq> InterestType.FLAT"
  shows "sum_list (map pd_principalDue (buildAmortizationSchedule E p annualRate n ty inst)) = p \<and>
    length (buildAmortizationSchedule E p annualRate n ty inst) = n \<and>
    (\<forall>pd \<in> set (buildAmortizationSchedule E p annualRate n ty inst).
       0 \<le> pd_principalDue pd \<and> 0 \<le> pd_interestDue pd)"
proof -
  have "m4 p" using assms(3) by (rule money_m4)
  with decimal_runtime.reducingPeriods_sums [OF assms(1,2,3,5,7-9), of p 0] assms(4,10)
  show ?thesis by (simp add: buildAmortizationSchedule_def assms(6))
qed

theorem reducing_schedule_witness:
  "sum_list (map pd_principalDue
     (buildAmortizationSchedule plain_env 1000 (12 / 100) 6 InterestType.REDUCING_BALANCE 173)) = 1000"
  using reducing_schedule [OF plain.decimal_runtime_axioms, of 6 1000 173 "1 / 100" "12 / 100"
      InterestType.REDUCING_BALANCE]
  by (simp add: money_def plain_env_def ddiv_def places_iff)

text \<open>
  A flat schedule hands out exactly the principal and exactly the flat interest of the whole
  tenure, whatever the rounding of the single periods, for tenures of up to a hundred years.
\<close>

theorem flat_schedule:
  assumes "decimal_runtime E" and "0 < n" "n \<le> 1200" and "money p" "money inst"
    and "0 \<le> flatInterest E p annualRate n" "flatInterest E p annualRate n < 10 ^ 11"
    and "\<bar>inst\<bar> < 10 ^ 11"
  shows "sum_list (map pd_principalDue (buildAmortizationSchedule E p annualRate n InterestType.FLAT inst)) = p \<and>
    sum_list (map pd_interestDue (buildAmortizationSchedule E p annualRate n InterestType.FLAT inst)) =
      flatInterest E p annualRate n"
proof -
  define ti where "ti = flatInterest E p annualRate n"
  define ipp where "ipp = dp4 E (ddiv E ti (of_nat n))"
  have ti: "m4 ti" "0 \<le> ti" "ti < 10 ^ 11" using assms(6,7)
    by (simp_all add: ti_def flatInterest_def decimal_runtime.dec_places_half_up [OF assms(1)])
  have ipp: "m4 ipp" "\<bar>ipp\<bar> < (10 ^ 11 + 1)"
    using decimal_runtime.per_period_bound [OF assms(1) ti(2,3) assms(2)]
    by (simp_all add: ipp_def decimal_runtime.dec_places_half_up [OF assms(1)])
  have inst: "m4 inst" using assms(5) by (rule money_m4)
  have "dminus E inst ipp = inst - ipp"
    by (rule decimal_runtime.dminus_exact [OF assms(1)])
      (use inst ipp assms(8) in \<open>auto intro!: wideI places_diff\<close>)
  then have "dp4 E (dminus E inst ipp) = inst - ipp"
    using inst ipp by (simp add: decimal_runtime.dp4_exact [OF assms(1)] places_diff)
  then have q: "\<bar>dp4 E (dminus E inst ipp)\<bar> \<le> (2 * 10 ^ 11 + 1)"
    using ipp(2) assms(8) by simp
  have n: "of_nat n \<le> (1200 :: rat)" using assms(3) of_nat_mono [of n 1200, where 'a = rat] by simp
  have "of_nat n * \<bar>dp4 E (dminus E inst ipp)\<bar> \<le> 1200 * (2 * 10 ^ 11 + 1 :: rat)"
    "of_nat n * \<bar>ipp\<bar> \<le> 1200 * (10 ^ 11 + 1 :: rat)"
    by (rule mult_mono; use q n ipp(2) in simp)+

  with decimal_runtime.flatPeriods_sums [OF assms(1,2), of p ti 0 0 ipp inst] ti ipp(1) assms(4)
  show ?thesis
    by (simp add: buildAmortizationSchedule_def Let_def ipp_def ti_def money_def)
qed

theorem flat_schedule_witness:
  "sum_list (map pd_principalDue (buildAmortizationSchedule plain_env 1000 (1 / 10) 7 InterestType.FLAT (15119 / 100))) = 1000"
proof -
  have "0 \<le> flatInterest plain_env 1000 (1 / 10) 7" "flatInterest plain_env 1000 (1 / 10) 7 < 10 ^ 11"
    "money (15119 / 100)" "money 1000" by code_simp+
  with flat_schedule [OF plain.decimal_runtime_axioms, of 7 1000 "15119 / 100" "1 / 10"]
  show ?thesis by simp
qed

end
