(* ===== verification/Loan_Disbursement.thy ===== *)
theory Loan_Disbursement
  imports Loan_Approval Loan_Schedule Ledger_Properties
begin

text \<open>
  Disbursement: \<open>disburse\<close> of \<open>src/src/modules/loans/loans.service.ts\<close>.

  The operation checks the loan, the approval chain, the member and the account outside the
  database transaction; the transaction checks the loan and the guarantor gate again, posts the
  principal and the processing fee through the ledger, marks the loan and writes its schedule. Of
  the result the model keeps the transaction row, the new balance and the due date; the rows' own
  time of creation is not modelled.
\<close>

section \<open>The operation\<close>

definition disbursementReference :: "ident \<Rightarrow> string" where
  "disbursementReference loanId = ''LOAN-DISBURSEMENT-'' @ loanId"

definition feeReference :: "ident \<Rightarrow> string" where
  "feeReference loanId = ''LOAN-DISBURSEMENT-'' @ loanId @ ''-FEE''"

record disbursal =
  dr_transaction :: txn
  dr_newBalance :: rat
  dr_dueDate :: "int option"

text \<open>One row of the schedule; the database fills the columns that the code leaves out.\<close>

definition scheduleRow :: "env \<Rightarrow> ident \<Rightarrow> ident \<Rightarrow> int \<Rightarrow> nat \<Rightarrow> nat \<Rightarrow> period \<Rightarrow> repayment" where
  "scheduleRow E tenantId loanId disbursedAt gracePeriodMonths i pd =
     \<lparr>lr_id = '''', lr_tenantId = tenantId, lr_loanId = loanId, lr_dayNumber = i + 1, lr_amountPaid = 0,
      lr_dueDate = addMonths disbursedAt (gracePeriodMonths + i + 1), lr_status = InstallmentStatus.PENDING,
      lr_principalDue = dp4 E (pd_principalDue pd), lr_interestDue = dp4 E (pd_interestDue pd),
      lr_penaltyDue = 0, lr_principalPaid = 0, lr_interestPaid = 0, lr_penaltyPaid = 0,
      lr_paidAt = None, lr_lastPenaltyAccrualDate = None, lr_method = ''SCHEDULED''\<rparr>"

text \<open>\<open>createMany\<close> with \<open>skipDuplicates\<close>: a row that violates a unique key is left out.\<close>

definition duplicateInstalment :: "repayment \<Rightarrow> repayment \<Rightarrow> bool" where
  "duplicateInstalment r x \<longleftrightarrow> lr_id x = lr_id r \<or>
     (lr_loanId x = lr_loanId r \<and> lr_dayNumber x = lr_dayNumber r \<and> lr_tenantId x = lr_tenantId r)"

fun createRepayments :: "env \<Rightarrow> repayment list \<Rightarrow> db \<Rightarrow> db res" where
  "createRepayments E [] s = Inr s"
| "createRepayments E (row # rows) s =
     (let r = row\<lparr>lr_id := uuid E (id_count s)\<rparr>;
          s1 = s\<lparr>id_count := Suc (id_count s)\<rparr> in
      rbind (ensure (repayment_in_columns r) NumericFieldOverflow) (\<lambda>_.
      if \<exists>x \<in> set (repayments s). duplicateInstalment r x then createRepayments E rows s1
      else createRepayments E rows (s1\<lparr>repayments := repayments s1 @ [r]\<rparr>)))"

definition loanSchedule :: "env \<Rightarrow> loan \<Rightarrow> InterestType \<Rightarrow> period list" where
  "loanSchedule E l ty = buildAmortizationSchedule E (ln_principalAmount l) (ln_interestRate l)
     (ln_tenureMonths l) ty (ln_monthlyInstalment l)"

definition createSchedule :: "env \<Rightarrow> int \<Rightarrow> ident \<Rightarrow> loan \<Rightarrow> InterestType \<Rightarrow> db \<Rightarrow> db res" where
  "createSchedule E disbursedAt tenantId l ty s =
     createRepayments E
       (map (\<lambda>(i, pd). scheduleRow E tenantId (ln_id l) disbursedAt (ln_gracePeriodMonths l) i pd)
         (enumerate 0 (loanSchedule E l ty))) s"

definition principalEntry :: "ident \<Rightarrow> ident \<Rightarrow> ident \<Rightarrow> ident \<Rightarrow> rat \<Rightarrow> entry_params" where
  "principalEntry tenantId loanId accountId disbursedBy amount =
     \<lparr>ep_tenantId = tenantId, ep_reference = disbursementReference loanId,
      ep_journalType = JournalEntryType.LOAN_DISBURSEMENT, ep_accountId = accountId,
      ep_amount = amount, ep_direction = CREDIT, ep_actorId = Some disbursedBy,
      ep_linkedTransactionId = None, ep_loanId = Some loanId\<rparr>"

definition feeEntry :: "ident \<Rightarrow> ident \<Rightarrow> ident \<Rightarrow> ident \<Rightarrow> rat \<Rightarrow> entry_params" where
  "feeEntry tenantId loanId accountId disbursedBy amount =
     \<lparr>ep_tenantId = tenantId, ep_reference = feeReference loanId,
      ep_journalType = JournalEntryType.FEE_CHARGE, ep_accountId = accountId,
      ep_amount = amount, ep_direction = DEBIT, ep_actorId = Some disbursedBy,
      ep_linkedTransactionId = None, ep_loanId = Some loanId\<rparr>"

text \<open>The processing fee, if any, after the principal's transaction row.\<close>

definition chargeFee :: "env \<Rightarrow> ident \<Rightarrow> ident \<Rightarrow> ident \<Rightarrow> ident \<Rightarrow> rat \<Rightarrow> txn \<Rightarrow> db \<Rightarrow> (txn \<times> db) res" where
  "chargeFee E tenantId loanId accountId disbursedBy processingFee principalTxn s =
     (if 0 < processingFee then
        rbind (postEntry E True s (feeEntry tenantId loanId accountId disbursedBy processingFee))
          (\<lambda>((feeTxn, _), s'). Inr (feeTxn, s'))
      else Inr (principalTxn, s))"

definition disburseTx ::
  "env \<Rightarrow> int \<Rightarrow> db \<Rightarrow> ident \<Rightarrow> ident \<Rightarrow> ident \<Rightarrow> ident \<Rightarrow> (disbursal \<times> db) res" where
  "disburseTx E now s loanId tenantId disbursedBy accountId =
     rbind (required (NotFoundException ''Loan not found'') (loanById s loanId tenantId)) (\<lambda>locked.
     rbind (required (NotFoundException ''Loan not found'') (productOf s locked)) (\<lambda>pdt.
     rbind (ensure (ln_status locked \<noteq> LoanStatus.ACTIVE)
       (ConflictException ''Loan has already been disbursed and is ACTIVE.'')) (\<lambda>_.
     rbind (ensure (ln_status locked = LoanStatus.APPROVED)
       (BadRequestException ''Cannot disburse a loan in this status. Expected APPROVED.'')) (\<lambda>_.
     rbind (assertPassed E s tenantId loanId) (\<lambda>_.
     let txPrincipal = ln_principalAmount locked; processingFee = ln_processingFee locked in
     rbind (ensure (\<not> dminus E txPrincipal processingFee < 0)
       (BadRequestException ''Processing fee cannot exceed loan principal.'')) (\<lambda>_.
     rbind (postEntry E True s (principalEntry tenantId loanId accountId disbursedBy txPrincipal))
       (\<lambda>((principalTxn, _), s1).
     rbind (chargeFee E tenantId loanId accountId disbursedBy processingFee principalTxn s1)
       (\<lambda>(lastTxn, s2).
     let dueDate = addMonths now (ln_gracePeriodMonths locked + ln_tenureMonths locked) in
     rbind (updateLoan loanId (\<lambda>l. l\<lparr>ln_status := LoanStatus.ACTIVE, ln_disbursedAt := Some now,
         ln_dueDate := Some dueDate, ln_repaymentScheduleGenerated := True\<rparr>) s2) (\<lambda>s3.
     rbind (if ln_repaymentScheduleGenerated locked then Inr s3
       else createSchedule E now tenantId locked (lp_interestType pdt) s3) (\<lambda>s4.
     Inr (\<lparr>dr_transaction = principalTxn, dr_newBalance = tx_balanceAfter lastTxn,
            dr_dueDate = Some dueDate\<rparr>,
          writeAudit tenantId disbursedBy ''LOAN.DISBURSE'' loanId s4)))))))))))"

definition replayedDisbursal :: "db \<Rightarrow> ident \<Rightarrow> loan \<Rightarrow> (disbursal \<times> db) res" where
  "replayedDisbursal s tenantId l =
     rbind (required (ConflictException ''Loan is ACTIVE but its disbursement transaction could not be found'')
       (transactionByReference s tenantId (disbursementReference (ln_id l)))) (\<lambda>existing.
     let finalTxn = (case transactionByReference s tenantId (feeReference (ln_id l)) of
           Some fee \<Rightarrow> fee | None \<Rightarrow> existing) in
     Inr (\<lparr>dr_transaction = existing, dr_newBalance = tx_balanceAfter finalTxn,
            dr_dueDate = ln_dueDate l\<rparr>, s))"

definition disburse ::
  "env \<Rightarrow> int \<Rightarrow> db \<Rightarrow> ident \<Rightarrow> ident \<Rightarrow> ident \<Rightarrow> bool \<Rightarrow> (disbursal \<times> db) res" where
  "disburse E now s loanId tenantId disbursedBy disburseToMpesa =
     rbind (ensure (\<not> disburseToMpesa)
       (BadRequestException ''Direct M-Pesa disbursement is disabled'')) (\<lambda>_.
     rbind (required (NotFoundException ''Loan not found'') (loanById s loanId tenantId)) (\<lambda>loan.
     if ln_status loan = LoanStatus.ACTIVE then replayedDisbursal s tenantId loan
     else
       rbind (ensure (ln_status loan = LoanStatus.APPROVED)
         (BadRequestException ''Cannot disburse a loan in this status. Expected APPROVED.'')) (\<lambda>_.
       rbind (ensure (isChainApproved s loanId tenantId)
         (BadRequestException ''This loan requires MANAGER and TELLER sign-off before disbursement'')) (\<lambda>_.
       rbind (ensure (case findFirst (\<lambda>m. mb_id m = ln_memberId loan \<and> mb_tenantId m = tenantId) (members s) of
           None \<Rightarrow> False | Some m \<Rightarrow> mb_kycStatus m = KycStatus.APPROVED)
         (BadRequestException ''KYC must be approved before loan disbursement.'')) (\<lambda>_.
       rbind (required (BadRequestException ''Member has no active FOSA account.'')
         (accountFor s tenantId FOSA (ln_memberId loan))) (\<lambda>fosaAccount.
       disburseTx E now s loanId tenantId disbursedBy (acc_id fosaAccount)))))))"

section \<open>Lemmas\<close>

text \<open>Writing the schedule changes the instalments only.\<close>

definition schedule_only :: "db \<Rightarrow> db \<Rightarrow> bool" where
  "schedule_only s s' \<longleftrightarrow> s' = s\<lparr>repayments := repayments s', id_count := id_count s'\<rparr>"

lemma schedule_only_refl [simp]: "schedule_only s s"
  by (simp add: schedule_only_def)

lemma schedule_onlyI: "schedule_only s (s\<lparr>id_count := n, repayments := rows\<rparr>)"
  "schedule_only s (s\<lparr>id_count := n\<rparr>)"
  by (simp_all add: schedule_only_def)

lemma schedule_only_trans:
  assumes "schedule_only s s'" and "schedule_only s' s''"
  shows "schedule_only s s''"
proof -
  have "s'\<lparr>repayments := x, id_count := n\<rparr> = s\<lparr>repayments := x, id_count := n\<rparr>" for x n
    by (subst assms(1) [unfolded schedule_only_def]) simp
  then show ?thesis using assms(2) by (simp add: schedule_only_def)
qed
lemma createRepayments_only: "createRepayments E rows s = Inr s' \<Longrightarrow> schedule_only s s'"
proof (induction rows arbitrary: s)
  case Nil
  then show ?case by simp
next
  case (Cons row rows)
  let ?s1 = "s\<lparr>id_count := Suc (id_count s)\<rparr>"
  obtain s2 where "schedule_only s s2" "createRepayments E rows s2 = Inr s'"
  proof (cases "\<exists>x \<in> set (repayments s). duplicateInstalment (row\<lparr>lr_id := uuid E (id_count s)\<rparr>) x")
    case True
    with Cons.prems that [of ?s1] schedule_onlyI(2) [of s] show thesis
      by (auto simp: Let_def res_simps)
  next
    case False
    with Cons.prems that [of "?s1\<lparr>repayments := repayments s @ [row\<lparr>lr_id := uuid E (id_count s)\<rparr>]\<rparr>"]
      schedule_onlyI(1) [of s] show thesis by (auto simp: Let_def res_simps)
  qed
  with Cons.IH schedule_only_trans show ?case by blast
qed

lemma schedule_only_simps:
  assumes "schedule_only s s'"
  shows "accounts s' = accounts s" "loans s' = loans s" "transactions s' = transactions s"
    "wf_db s' = wf_db s" "gl_agrees s' t = gl_agrees s t" "loanById s' k t = loanById s k t"
    "transactionByReference s' t r = transactionByReference s t r" "guarantors s' = guarantors s"
  by (subst assms [unfolded schedule_only_def], simp add: loanById_def transactionByReference_def)+

lemma disburseTx_steps:
  assumes "disburseTx E now s l t u k = Inr (r, s')"
  obtains loan pdt e s1 lastTxn s2 s3 s4 where "loanById s l t = Some loan"
    "productOf s loan = Some pdt"
    "ln_status loan = LoanStatus.APPROVED" "assertPassed E s t l = Inr ()"
    "\<not> dminus E (ln_principalAmount loan) (ln_processingFee loan) < 0"
    "postEntry E True s (principalEntry t l k u (ln_principalAmount loan)) = Inr ((dr_transaction r, e), s1)"
    "chargeFee E t l k u (ln_processingFee loan) (dr_transaction r) s1 = Inr (lastTxn, s2)"
    "dr_newBalance r = tx_balanceAfter lastTxn"
    "updateLoan l (\<lambda>x. x\<lparr>ln_status := LoanStatus.ACTIVE, ln_disbursedAt := Some now,
       ln_dueDate := dr_dueDate r, ln_repaymentScheduleGenerated := True\<rparr>) s2 = Inr s3"
    "schedule_only s3 s4" "s' = writeAudit t u ''LOAN.DISBURSE'' l s4"
proof -
  note run = assms [unfolded disburseTx_def Let_def]
  from run obtain loan where loan: "loanById s l t = Some loan" by (auto simp: res_simps)
  from run obtain pdt where pdt: "productOf s loan = Some pdt" by (auto simp: res_simps loan)
  note run = run [unfolded loan pdt required_Some rbind.simps]
  from run have st: "ln_status loan = LoanStatus.APPROVED" and gate: "assertPassed E s t l = Inr ()"
    and fee: "\<not> dminus E (ln_principalAmount loan) (ln_processingFee loan) < 0"
    by (auto simp: res_simps)
  have st': "ln_status loan \<noteq> LoanStatus.ACTIVE" by (simp add: st)
  note run = run [unfolded ensure_def if_P [OF st'] if_P [OF st] if_P [OF fee] gate rbind.simps]
  from run obtain x s1 where "postEntry E True s (principalEntry t l k u (ln_principalAmount loan)) = Inr (x, s1)"
    by (rule rbind_Inr_pairE)
  then obtain ptxn e where post: "postEntry E True s (principalEntry t l k u (ln_principalAmount loan)) =
      Inr ((ptxn, e), s1)" by (cases x) auto
  note run = run [unfolded post rbind.simps prod.case]
  from run obtain lastTxn s2 where ch: "chargeFee E t l k u (ln_processingFee loan) ptxn s1 = Inr (lastTxn, s2)"
    by (rule rbind_Inr_pairE)
  note run = run [unfolded ch rbind.simps prod.case]
  from run obtain s3 where upd: "updateLoan l (\<lambda>x. x\<lparr>ln_status := LoanStatus.ACTIVE, ln_disbursedAt := Some now,
      ln_dueDate := Some (addMonths now (ln_gracePeriodMonths loan + ln_tenureMonths loan)),
      ln_repaymentScheduleGenerated := True\<rparr>) s2 = Inr s3" by (rule rbind_InrE)
  note run = run [unfolded upd rbind.simps]
  from run obtain s4 where sch: "(if ln_repaymentScheduleGenerated loan then Inr s3
      else createSchedule E now t loan (lp_interestType pdt) s3) = Inr s4" by (rule rbind_InrE)
  note run = run [unfolded sch rbind.simps]
  have "schedule_only s3 s4" using sch
    by (auto simp: createSchedule_def dest: createRepayments_only split: if_splits)
  moreover have r: "r = \<lparr>dr_transaction = ptxn, dr_newBalance = tx_balanceAfter lastTxn,
      dr_dueDate = Some (addMonths now (ln_gracePeriodMonths loan + ln_tenureMonths loan))\<rparr>"
    and "s' = writeAudit t u ''LOAN.DISBURSE'' l s4"
    using run by simp_all
  ultimately show thesis
    by (intro that [OF loan pdt st gate fee, of e s1 lastTxn s2 s3 s4]) (simp_all add: post ch upd)
qed


lemma feeReference_other [simp]: "feeReference l \<noteq> disbursementReference l" "disbursementReference l \<noteq> feeReference l"
  by (simp_all add: feeReference_def disbursementReference_def)

lemma balances_moveBalance:
  "map acc_balance (accounts (moveBalance k d s)) =
   map (\<lambda>x. if acc_id x = k then acc_balance x + d else acc_balance x) (accounts s)"
  by (simp add: moveBalance_def if_distrib cong: if_cong)

text \<open>The loan's row after a disbursement.\<close>

definition disbursedLoan :: "int \<Rightarrow> disbursal \<Rightarrow> loan \<Rightarrow> loan" where
  "disbursedLoan now r loan = loan\<lparr>ln_status := LoanStatus.ACTIVE, ln_disbursedAt := Some now,
     ln_dueDate := dr_dueDate r, ln_repaymentScheduleGenerated := True\<rparr>"

context decimal_runtime
begin

text \<open>The fee leaves the account of the principal, or nothing happens.\<close>

lemma chargeFee_effects:
  assumes run: "chargeFee E t l k u fee ptxn s = Inr (lastTxn, s')" and wf: "wf_db s"
    and new: "transactionByReference s t (feeReference l) = None" and fee: "money fee" "0 \<le> fee"
    and a: "active_account s t k a" "tx_balanceAfter ptxn = acc_balance a"
  shows "wf_db s' \<and> ledger_only s s' \<and> (\<forall>x. gl_agrees s x \<longrightarrow> gl_agrees s' x) \<and>
    map acc_balance (accounts s') = map (\<lambda>x. if acc_id x = k then acc_balance x - fee else acc_balance x) (accounts s) \<and>
    tx_balanceAfter lastTxn = acc_balance a - fee \<and>
    (\<exists>ts. transactions s' = transactions s @ ts \<and> (ts = [] \<and> lastTxn = ptxn \<or>
       ts = [lastTxn] \<and> tx_tenantId lastTxn = t \<and> tx_reference lastTxn = feeReference l))"
proof (cases "0 < fee")
  case False
  then have "fee = 0" using fee(2) by simp
  then show ?thesis using run wf a(2) by (auto simp: chargeFee_def intro!: map_cong)
next
  case True
  let ?p = "feeEntry t l k u fee"
  from run True obtain e where post: "postEntry E True s ?p = Inr ((lastTxn, e), s')"
    by (auto simp: chargeFee_def res_simps)
  have p: "ep_tenantId ?p = t" "ep_reference ?p = feeReference l" "ep_accountId ?p = k"
    "ep_direction ?p = DEBIT" "ep_amount ?p = fee" "direction_fits (ep_journalType ?p) (ep_direction ?p)"
    by (simp_all add: feeEntry_def direction_fits_def)
  have d: "signed DEBIT (dp4 E fee) = - fee" using fee(1) by (simp add: signed_def money_m4)
  show ?thesis
  proof (rule posted [OF post wf _ p(6)])
    show "transactionByReference s (ep_tenantId ?p) (ep_reference ?p) = None" using new p by simp
    fix b
    assume q: "wf_db s'" "ledger_only s s'" "\<And>x. gl_agrees s x \<Longrightarrow> gl_agrees s' x"
      "accounts s' = accounts (moveBalance (ep_accountId ?p) (signed (ep_direction ?p) (dp4 E (ep_amount ?p))) s)"
      "transactions s' = transactions s @ [lastTxn]" "tx_tenantId lastTxn = ep_tenantId ?p"
      "tx_reference lastTxn = ep_reference ?p" "active_account s (ep_tenantId ?p) (ep_accountId ?p) b"
      "tx_balanceAfter lastTxn = acc_balance b + signed (ep_direction ?p) (dp4 E (ep_amount ?p))"
    have "b = a" using q(8) a(1) wf
      by (auto simp: active_account_def p wf_db_def wf_accounts_def intro: distinct_key_eq)
    moreover have "map acc_balance (accounts s') =
        map (\<lambda>x. if acc_id x = k then acc_balance x - fee else acc_balance x) (accounts s)"
      by (simp add: q(4) p d balances_moveBalance)
    ultimately show ?thesis using q by (simp add: p d)
  qed
qed

end


lemma disburse_cases:
  assumes "disburse E now s l t u m = Inr (r, s')" and "loanById s l t = Some loan"
    and "ln_status loan = LoanStatus.APPROVED"
  obtains mb a where "\<not> m" "isChainApproved s l t" "mb \<in> set (members s)" "mb_id mb = ln_memberId loan"
    "mb_tenantId mb = t" "mb_kycStatus mb = KycStatus.APPROVED" "accountFor s t FOSA (ln_memberId loan) = Some a"
    "disburseTx E now s l t u (acc_id a) = Inr (r, s')"
  using assms
  by (auto simp: disburse_def res_simps split: option.splits if_splits dest!: findFirst_Some)

lemma transactionByReference_append:
  "transactions s' = transactions s @ ts \<Longrightarrow>
   transactionByReference s' t ref = (case transactionByReference s t ref of Some x \<Rightarrow> Some x
     | None \<Rightarrow> findFirst (\<lambda>x. tx_tenantId x = t \<and> tx_reference x = ref) ts)"
  by (simp add: transactionByReference_def findFirst_append split: option.splits)

context decimal_runtime
begin

lemma disburseTx_effects:
  assumes run: "disburseTx E now s l t u (acc_id a) = Inr (r, s')" and wf: "wf_db s" "wf_loans s"
    and loan: "loanById s l t = Some loan"
    and money: "money (ln_principalAmount loan)" "money (ln_processingFee loan)" "0 \<le> ln_processingFee loan"
    and new: "transactionByReference s t (disbursementReference l) = None"
      "transactionByReference s t (feeReference l) = None"
    and a: "active_account s t (acc_id a) a"
  shows "assertPassed E s t l = Inr () \<and> ln_processingFee loan \<le> ln_principalAmount loan \<and>
    wf_db s' \<and> (\<forall>x. gl_agrees s x \<longrightarrow> gl_agrees s' x) \<and>
    map acc_balance (accounts s') = map (\<lambda>x. if acc_id x = acc_id a
      then acc_balance x + (ln_principalAmount loan - ln_processingFee loan) else acc_balance x) (accounts s) \<and>
    dr_newBalance r = acc_balance a + (ln_principalAmount loan - ln_processingFee loan) \<and>
    loanById s' l t = Some (disbursedLoan now r loan) \<and>
    transactionByReference s' t (disbursementReference l) = Some (dr_transaction r) \<and>
    (case transactionByReference s' t (feeReference l) of
       Some fee \<Rightarrow> tx_balanceAfter fee = dr_newBalance r | None \<Rightarrow> tx_balanceAfter (dr_transaction r) = dr_newBalance r)"
proof (rule disburseTx_steps [OF run])
  fix loan' pdt e s1 lastTxn s2 s3 s4
  let ?k = "acc_id a" let ?p = "principalEntry t l (acc_id a) u (ln_principalAmount loan)"
  assume "loanById s l t = Some loan'" and gate: "assertPassed E s t l = Inr ()"
    and net: "\<not> dminus E (ln_principalAmount loan') (ln_processingFee loan') < 0"
    and post': "postEntry E True s (principalEntry t l ?k u (ln_principalAmount loan')) = Inr ((dr_transaction r, e), s1)"
    and ch': "chargeFee E t l ?k u (ln_processingFee loan') (dr_transaction r) s1 = Inr (lastTxn, s2)"
    and bal: "dr_newBalance r = tx_balanceAfter lastTxn"
    and upd: "updateLoan l (\<lambda>x. x\<lparr>ln_status := LoanStatus.ACTIVE, ln_disbursedAt := Some now,
       ln_dueDate := dr_dueDate r, ln_repaymentScheduleGenerated := True\<rparr>) s2 = Inr s3"
    and sch: "schedule_only s3 s4" and s': "s' = writeAudit t u ''LOAN.DISBURSE'' l s4"
  with loan have same: "loan' = loan" by simp
  note post = post' [unfolded same] and ch = ch' [unfolded same]
  have p: "ep_tenantId ?p = t" "ep_reference ?p = disbursementReference l" "ep_accountId ?p = ?k"
    "ep_direction ?p = CREDIT" "ep_amount ?p = ln_principalAmount loan"
    "direction_fits (ep_journalType ?p) (ep_direction ?p)"
    by (simp_all add: principalEntry_def direction_fits_def)
  have d: "signed CREDIT (dp4 E (ln_principalAmount loan)) = ln_principalAmount loan"
    using money(1) by (simp add: signed_def money_m4)
  have new1: "transactionByReference s (ep_tenantId ?p) (ep_reference ?p) = None" using new p by simp
  obtain b where q: "wf_db s1" "ledger_only s s1" "\<And>x. gl_agrees s x \<Longrightarrow> gl_agrees s1 x"
    "accounts s1 = accounts (moveBalance ?k (ln_principalAmount loan) s)"
    "transactions s1 = transactions s @ [dr_transaction r]" "tx_tenantId (dr_transaction r) = t"
    "tx_reference (dr_transaction r) = disbursementReference l" "active_account s t ?k b"
    "tx_balanceAfter (dr_transaction r) = acc_balance b + ln_principalAmount loan"
    by (rule posted [OF post wf(1) new1 p(6)]) (unfold p d, blast)
  have b: "b = a" using q(8) a wf
    by (auto simp: active_account_def wf_db_def wf_accounts_def intro: distinct_key_eq)
  let ?a1 = "a\<lparr>acc_balance := acc_balance a + ln_principalAmount loan, acc_version := acc_version a + 1\<rparr>"
  have a1: "active_account s1 t ?k ?a1"
    using a unfolding active_account_def q(4) by (force simp: moveBalance_def)
  have ref1: "transactionByReference s1 t (feeReference l) = None"
    using new(2) q(7) by (simp add: transactionByReference_append [OF q(5)])
  have "tx_balanceAfter (dr_transaction r) = acc_balance ?a1" using q(9) b by simp
  note fee = chargeFee_effects [OF ch q(1) ref1 money(2,3) a1 this]
  then obtain ts where ts: "transactions s2 = transactions s1 @ ts"
    "ts = [] \<and> lastTxn = dr_transaction r \<or> ts = [lastTxn] \<and> tx_tenantId lastTxn = t \<and>
       tx_reference lastTxn = feeReference l" by blast
  from upd have s3: "s3 = s2\<lparr>loans := loans s3\<rparr>" and rows: "loans s3 = map (\<lambda>x. if ln_id x = l
      then disbursedLoan now r x else x) (loans s2)"
    by (auto simp: updateLoan_Inr disbursedLoan_def)
  have s3': "accounts s3 = accounts s2" "transactions s3 = transactions s2" "wf_db s3 = wf_db s2"
    "gl_agrees s3 x = gl_agrees s2 x" for x
    by (subst s3, simp)+
  note sch = schedule_only_simps [OF sch]
  have tail: "accounts s' = accounts s2" "transactions s' = transactions s2" "wf_db s' = wf_db s2"
    "gl_agrees s' x = gl_agrees s2 x" "loans s' = loans s3" for x
    using sch s3' by (simp_all add: s' writeAudit_def)
  have "ledger_only s s2" using q(2) fee by (auto intro: ledger_only_trans)
  then have "loans s2 = loans s" by (simp add: ledger_only_def)
  then have "loanById s' l t = map_option (\<lambda>x. if ln_id x = l then disbursedLoan now r x else x) (loanById s l t)"
    unfolding loanById_def tail rows
    by (simp only:) (rule findFirst_map, simp add: disbursedLoan_def)
  then have l': "loanById s' l t = Some (disbursedLoan now r loan)"
    using loan loanById_Some(2) [OF loan] by simp
  have "transactions s' = transactions s @ dr_transaction r # ts" by (simp add: tail ts q)
  note refs = transactionByReference_append [OF this]
  have "transactionByReference s' t (disbursementReference l) = Some (dr_transaction r)"
    using new q(6,7) by (simp add: refs)
  moreover have "case transactionByReference s' t (feeReference l) of
       Some fee \<Rightarrow> tx_balanceAfter fee = dr_newBalance r | None \<Rightarrow> tx_balanceAfter (dr_transaction r) = dr_newBalance r"
    using new q(6,7) ts(2) by (auto simp: refs bal)
  moreover have "map acc_balance (accounts s') = map (\<lambda>x. if acc_id x = ?k
      then acc_balance x + (ln_principalAmount loan - ln_processingFee loan) else acc_balance x) (accounts s)"
    using fee unfolding tail q(4) by (auto simp: moveBalance_def intro!: map_cong)
  moreover have "ln_processingFee loan \<le> ln_principalAmount loan"
    using net money by (simp add: same dminus_money)
  ultimately show ?thesis using gate fee l' q(3) by (simp add: tail bal)
qed

end

section \<open>Properties\<close>

definition payout_loan :: loan where
  "payout_loan = guarded_loan\<lparr>ln_memberId := ''mF'', ln_status := LoanStatus.APPROVED,
     ln_principalAmount := 600, ln_processingFee := 30, ln_tenureMonths := 2,
     ln_monthlyInstalment := 310, ln_interestRate := 1 / 5, ln_repaymentScheduleGenerated := False\<rparr>"

definition payout :: db where
  "payout = bank\<lparr>loans := [payout_loan], loanProducts := [office_product],
     guarantors := [office_guarantor 600],
     members := [\<lparr>mb_id = ''mF'', mb_tenantId = ''t'', mb_userId = ''v'', mb_isActive = True,
       mb_kycStatus = KycStatus.APPROVED, mb_accountStatus = AccountStatus.ACTIVE, mb_isBlacklisted = False\<rparr>]\<rparr>"

lemma payout_facts:
  "wf_db payout" "wf_loans payout" "loanById payout ''l'' ''t'' = Some payout_loan"
  "ln_status payout_loan = LoanStatus.APPROVED" "money (ln_principalAmount payout_loan)"
  "money (ln_processingFee payout_loan)" "0 \<le> ln_processingFee payout_loan"
  "transactionByReference payout ''t'' (disbursementReference ''l'') = None"
  "transactionByReference payout ''t'' (feeReference ''l'') = None"
  by code_simp+

lemma payout_run: "\<exists>r s'. disburse plain_env 7 payout ''l'' ''t'' ''u'' False = Inr (r, s')"
proof -
  have "(case disburse plain_env 7 payout ''l'' ''t'' ''u'' False of Inl _ \<Rightarrow> False | Inr _ \<Rightarrow> True)"
    by code_simp
  then show ?thesis by (auto split: sum.splits)
qed

text \<open>
  C30. A disbursement of an APPROVED loan happens only when the approval chain is complete, the
  guarantor gate is open, the member's identity is verified and the fee does not exceed the
  principal. Then the member's active FOSA account gains the principal less the fee and no other
  balance moves, the books stay well formed and in agreement with the general ledger, and the loan
  is ACTIVE with its dates and its schedule flag set.
\<close>

theorem disburse_sound:
  assumes "decimal_runtime E" and "disburse E now s l t u mpesa = Inr (r, s')" and "wf_db s" "wf_loans s"
    and "loanById s l t = Some loan" "ln_status loan = LoanStatus.APPROVED"
    and "money (ln_principalAmount loan)" "money (ln_processingFee loan)" "0 \<le> ln_processingFee loan"
    and "transactionByReference s t (disbursementReference l) = None"
    and "transactionByReference s t (feeReference l) = None"
  shows "isChainApproved s l t \<and> assertPassed E s t l = Inr () \<and>
    (\<exists>m \<in> set (members s). mb_id m = ln_memberId loan \<and> mb_kycStatus m = KycStatus.APPROVED) \<and>
    ln_processingFee loan \<le> ln_principalAmount loan \<and>
    (\<exists>a. accountFor s t FOSA (ln_memberId loan) = Some a \<and>
       map acc_balance (accounts s') = map (\<lambda>x. if acc_id x = acc_id a
         then acc_balance x + (ln_principalAmount loan - ln_processingFee loan) else acc_balance x) (accounts s) \<and>
       dr_newBalance r = acc_balance a + (ln_principalAmount loan - ln_processingFee loan)) \<and>
    wf_db s' \<and> (gl_agrees s tenant \<longrightarrow> gl_agrees s' tenant) \<and>
    loanById s' l t = Some (disbursedLoan now r loan)"
proof (rule disburse_cases [OF assms(2,5,6)])
  fix mb a
  assume chain: "isChainApproved s l t" and mb: "mb \<in> set (members s)" "mb_id mb = ln_memberId loan"
    "mb_kycStatus mb = KycStatus.APPROVED" and a: "accountFor s t FOSA (ln_memberId loan) = Some a"
    and run: "disburseTx E now s l t u (acc_id a) = Inr (r, s')"
  have "active_account s t (acc_id a) a"
    using accountFor_Some [OF a] by (simp add: active_account_def)
  note eff = decimal_runtime.disburseTx_effects [OF assms(1) run assms(3,4,5,7-11) this]
  show ?thesis
    by (intro conjI bexI [of _ mb] exI [of _ a]) (use chain mb a eff in blast)+
qed

theorem disburse_sound_witness:
  "\<exists>r s'. disburse plain_env 7 payout ''l'' ''t'' ''u'' False = Inr (r, s') \<and> wf_db s' \<and>
     loanById s' ''l'' ''t'' = Some (disbursedLoan 7 r payout_loan)"
  using payout_run disburse_sound [OF plain.decimal_runtime_axioms _ payout_facts(1-9)] by blast

text \<open>
  Disbursing is idempotent: after a disbursement, every further request for the loan by any
  user reports the same transaction, the same balance and the same due date, and changes nothing.
\<close>

theorem disburse_idempotent:
  assumes "decimal_runtime E" and "disburse E now s l t u mpesa = Inr (r, s')" and "wf_db s" "wf_loans s"
    and "loanById s l t = Some loan" "ln_status loan = LoanStatus.APPROVED"
    and "money (ln_principalAmount loan)" "money (ln_processingFee loan)" "0 \<le> ln_processingFee loan"
    and "transactionByReference s t (disbursementReference l) = None"
    and "transactionByReference s t (feeReference l) = None"
  shows "disburse E later s' l t u' False = Inr (r, s')"
proof (rule disburse_cases [OF assms(2,5,6)])
  fix mb a
  assume a: "accountFor s t FOSA (ln_memberId loan) = Some a"
    and run: "disburseTx E now s l t u (acc_id a) = Inr (r, s')"
  have "active_account s t (acc_id a) a"
    using accountFor_Some [OF a] by (simp add: active_account_def)
  note eff = decimal_runtime.disburseTx_effects [OF assms(1) run assms(3,4,5,7-11) this]
  have id: "ln_id loan = l" using loanById_Some [OF assms(5)] by simp
  from eff show ?thesis
    by (cases r; cases "transactionByReference s' t (feeReference l)")
      (auto simp: disburse_def replayedDisbursal_def disbursedLoan_def id ensure_def Let_def)
qed

theorem disburse_idempotent_witness:
  "\<exists>r s'. disburse plain_env 7 payout ''l'' ''t'' ''u'' False = Inr (r, s') \<and>
     disburse plain_env 9 s' ''l'' ''t'' ''w'' False = Inr (r, s')"
  using payout_run disburse_idempotent [OF plain.decimal_runtime_axioms _ payout_facts(1-9)] by blast

end
