(* ===== verification/Hold_Frames.thy ===== *)
theory Hold_Frames
  imports Guarantor_Holds Ledger_Laws
begin

text \<open>
  What placing and releasing guarantor holds leaves alone, for the services that do both in the
  middle of a larger transaction: a \<open>hold_step\<close> changes frozen savings, versions, guarantor rows
  and the audit log, and nothing else, so balances and general ledger keep agreeing.
\<close>

section \<open>Steps on holds\<close>

definition purse :: "account \<Rightarrow> account" where
  "purse a = a\<lparr>acc_frozenSavings := 0, acc_version := 0\<rparr>"

definition hold_step :: "db \<Rightarrow> db \<Rightarrow> bool" where
  "hold_step s s' \<longleftrightarrow>
     s' = s\<lparr>accounts := accounts s', guarantors := guarantors s', auditLog := auditLog s'\<rparr> \<and>
     map purse (accounts s') = map purse (accounts s) \<and> (wf_db s \<longrightarrow> wf_db s')"

lemma hold_step_refl [simp]: "hold_step s s"
  by (simp add: hold_step_def)

lemma hold_step_trans:
  assumes "hold_step s s'" and "hold_step s' s''"
  shows "hold_step s s''"
proof -
  have "s'\<lparr>accounts := x, guarantors := y, auditLog := z\<rparr> = s\<lparr>accounts := x, guarantors := y, auditLog := z\<rparr>" for x y z
    by (subst conjunct1 [OF assms(1) [unfolded hold_step_def]]) simp
  then show ?thesis using assms by (simp add: hold_step_def)
qed

lemma hold_step_writeAudit [simp]: "hold_step s (writeAudit t u a e s)"
  by (simp add: hold_step_def writeAudit_def)

lemma hold_step_updateGuarantors: "updateGuarantors P f s = Inr (n, s') \<Longrightarrow> hold_step s s'"
  by (auto simp: updateGuarantors_Inr hold_step_def)

lemma hold_step_updateAccounts:
  assumes upd: "updateAccounts P f s = Inr (n, s')" and "\<And>a. purse (f a) = purse a"
    and "\<And>a. m4 (acc_frozenSavings a) \<Longrightarrow> m4 (acc_frozenSavings (f a))"
  shows "hold_step s s'"
proof -
  from upd have s': "s' = s\<lparr>accounts := map (\<lambda>r. if P r then f r else r) (accounts s)\<rparr>"
    and cols: "\<forall>a \<in> set (accounts s'). account_in_columns a"
    by (auto simp: updateAccounts_Inr)
  have p: "map purse (accounts s') = map purse (accounts s)" using assms(2) by (simp add: s')
  have g: "g (f a) = g a" if "\<And>x. g (purse x) = g x" for g :: "account \<Rightarrow> 'b" and a
    using assms(2) [of a] that by metis
  have eqs: "acc_id (f a) = acc_id a" "acc_balance (f a) = acc_balance a"
    "acc_lockedBalance (f a) = acc_lockedBalance a" "acc_minimumBalance (f a) = acc_minimumBalance a" for a
    by (rule g, simp add: purse_def)+
  have "wf_account a" if "wf_db s" "a \<in> set (accounts s')" for a
  proof -
    from that(2) obtain b where b: "b \<in> set (accounts s)" "a = (if P b then f b else b)" by (auto simp: s')
    then have w: "wf_account b" using that(1) by (simp add: wf_db_def wf_accounts_def)
    have "account_in_columns a" using cols that(2) by blast
    then show ?thesis using w b(2) assms(3) [of b] eqs [of b]
      by (auto simp: wf_account_def account_in_columns_def money_m4 intro: money_in_column split: if_splits)
  qed
  moreover have "map acc_id (accounts s') = map acc_id (accounts s)" using eqs by (simp add: s')
  ultimately have "wf_db s \<longrightarrow> wf_db s'"
    by (auto simp: wf_db_def wf_accounts_def wf_gl_def wf_transactions_def wf_journal_def s' simp del: map_map)
  then show ?thesis using p by (simp add: hold_step_def s')
qed

lemma hold_step_foldM:
  assumes "foldM f s xs = Inr s'" and "\<And>s x s'. f s x = Inr s' \<Longrightarrow> hold_step s s'"
  shows "hold_step s s'"
  using assms(1)
proof (rule foldM_inv [where P = "\<lambda>x. hold_step s x"])
qed (use assms(2) hold_step_trans in auto)

text \<open>Every quantity that ignores frozen savings and versions is the same after a step.\<close>

lemma hold_step_map:
  assumes "hold_step s s'" and "\<And>a. g (purse a) = g a"
  shows "map g (accounts s') = map g (accounts s)"
proof -
  have *: "map g (map purse xs) = map g xs" for xs by (simp add: assms(2))
  have "map purse (accounts s') = map purse (accounts s)" using assms(1) by (simp add: hold_step_def)
  then show ?thesis using * by metis
qed

lemma hold_step_same:
  assumes "hold_step s s'"
  shows "loans s' = loans s" "repayments s' = repayments s" "transactions s' = transactions s"
    "journalEntries s' = journalEntries s" "glAccounts s' = glAccounts s" "loanProducts s' = loanProducts s"
    "members s' = members s" "users s' = users s" "approvalChains s' = approvalChains s"
    "map acc_balance (accounts s') = map acc_balance (accounts s)"
    "wf_db s \<Longrightarrow> wf_db s'" "gl_agrees s' t = gl_agrees s t" "loanById s' k t = loanById s k t"
    "transactionByReference s' t ref = transactionByReference s t ref"
proof -
  note eq = conjunct1 [OF assms [unfolded hold_step_def]]
  show same: "loans s' = loans s" "repayments s' = repayments s" "transactions s' = transactions s"
    "journalEntries s' = journalEntries s" "glAccounts s' = glAccounts s" "loanProducts s' = loanProducts s"
    "members s' = members s" "users s' = users s" "approvalChains s' = approvalChains s"
    by (subst eq, simp)+
  show "map acc_balance (accounts s') = map acc_balance (accounts s)"
    by (rule hold_step_map [OF assms]) (simp add: purse_def)
  show "wf_db s \<Longrightarrow> wf_db s'" using assms by (simp add: hold_step_def)
  have dep: "deposits s' x ty = deposits s x ty" for x ty
  proof -
    let ?v = "\<lambda>a. if acc_tenantId a = x \<and> acc_accountType a = ty then acc_balance a else 0"
    have "map ?v (accounts s') = map ?v (accounts s)"
      by (rule hold_step_map [OF assms]) (simp add: purse_def)
    moreover have "deposits s x ty = sum_list (map ?v (accounts s))" for s
      by (simp add: deposits_def sum_list_filter_split)
    ultimately show ?thesis by simp
  qed
  show "gl_agrees s' t = gl_agrees s t"
    using dep gl_credit_cong [OF same(5,4)] by (simp add: gl_agrees_iff)
  show "loanById s' k t = loanById s k t" by (simp add: loanById_def same)
  show "transactionByReference s' t ref = transactionByReference s t ref"
    by (simp add: transactionByReference_def same)
qed

end
