(* ===== verification/Account_Writes.thy ===== *)
theory Account_Writes
  imports Ledger_Laws Loan_Tables
begin

text \<open>
  The pattern that repayment, recovery and default offset share: the service writes the balance of an
  account itself, records the transaction, and posts the general-ledger side with
  \<open>postGlOnlyLegEntry\<close>. The lemmas say what each half does to deposits and general ledger, so
  that a service that does both keeps them in agreement.
\<close>

section \<open>The account half\<close>

lemma account_written:
  assumes upd: "updateAccounts P f s = Inr (n, s')"
    and wf: "wf_db s" and a: "a \<in> set (accounts s)" "P a" and P: "\<And>x. P x \<Longrightarrow> acc_id x = acc_id a"
    and f: "\<And>x. acc_id (f x) = acc_id x" "\<And>x. acc_tenantId (f x) = acc_tenantId x"
      "\<And>x. acc_accountType (f x) = acc_accountType x"
    and m: "m4 (acc_balance (f a))" "m4 (acc_lockedBalance (f a))" "m4 (acc_frozenSavings (f a))"
      "m4 (acc_minimumBalance (f a))"
  shows "wf_db s' \<and> s' = s\<lparr>accounts := accounts s'\<rparr> \<and>
    accounts s' = map (\<lambda>x. if acc_id x = acc_id a then f a else x) (accounts s) \<and>
    (\<forall>t ty. deposits s' t ty = deposits s t ty +
       (if acc_tenantId a = t \<and> acc_accountType a = ty then acc_balance (f a) - acc_balance a else 0))"
proof -
  have d: "distinct (map acc_id (accounts s))" using wf by (simp add: wf_db_def wf_accounts_def)
  have same: "x = a" if "x \<in> set (accounts s)" "acc_id x = acc_id a" for x
    using that a(1) d by (auto intro: distinct_key_eq)
  from upd have s': "s' = s\<lparr>accounts := map (\<lambda>x. if P x then f x else x) (accounts s)\<rparr>"
    and cols: "\<forall>x \<in> set (accounts s'). account_in_columns x"
    by (auto simp: updateAccounts_Inr)
  have rows: "accounts s' = map (\<lambda>x. if acc_id x = acc_id a then f a else x) (accounts s)"
  proof -
    have "(if P x then f x else x) = (if acc_id x = acc_id a then f a else x)" if "x \<in> set (accounts s)" for x
      using that same [OF that] P [of x] a(2) by (cases "acc_id x = acc_id a") auto
    then show ?thesis by (simp add: s')
  qed
  have "wf_account x" if x: "x \<in> set (accounts s')" for x
  proof (cases "x = f a")
    case True
    moreover have "account_in_columns x" using cols x by blast
    ultimately show ?thesis using m by (auto simp: wf_account_def account_in_columns_def intro: money_in_column)
  next
    case False
    with x have "x \<in> set (accounts s)" unfolding rows by (auto split: if_splits)
    then show ?thesis using wf by (simp add: wf_db_def wf_accounts_def)
  qed
  moreover have "map acc_id (accounts s') = map acc_id (accounts s)" using f(1) by (simp add: s')
  ultimately have "wf_db s'" using wf
    by (auto simp: wf_db_def wf_accounts_def wf_gl_def wf_transactions_def wf_journal_def s' simp del: map_map)
  moreover have "deposits s' t ty = deposits s t ty +
       (if acc_tenantId a = t \<and> acc_accountType a = ty then acc_balance (f a) - acc_balance a else 0)" for t ty
    unfolding s' by (rule deposits_update [where k = "acc_id a" and P = P and f = f, OF d a P f(2,3)])
  ultimately show ?thesis using rows by (simp add: s')
qed

section \<open>The ledger half\<close>

definition no_entry :: "db \<Rightarrow> ident \<Rightarrow> string \<Rightarrow> bool" where
  "no_entry s t ref \<longleftrightarrow> (\<forall>j \<in> set (journalEntries s). je_tenantId j = t \<longrightarrow> je_entryNumber j \<noteq> jeLedgerNumber ref)"

lemma no_entry_cong: "journalEntries s = journalEntries s' \<Longrightarrow> no_entry s = no_entry s'"
  by (intro ext) (simp add: no_entry_def)

lemma jeLedgerNumber_inj [simp]: "jeLedgerNumber x = jeLedgerNumber y \<longleftrightarrow> x = y"
  by (simp add: jeLedgerNumber_def)

context decimal_runtime
begin

text \<open>
  A fresh entry of the service for an amount taken from an account: the deposit code of the
  account's type loses the amount, and no other table changes.
\<close>

lemma account_entry:
  assumes run: "postGlOnlyLegEntry E s t ref lg amt (memberDepositsCode ty) tx actor jt = Inr ((e, r), s')"
    and wf: "wf_db s" and amt: "m4 amt" and new: "no_entry s t ref"
  shows "wf_db s'" "accounts s' = accounts s" "transactions s' = transactions s" "ledger_only s s'"
    "gl_credit s' t' (memberDepositsCode ty') = gl_credit s t' (memberDepositsCode ty') -
       (if t' = t \<and> ty' = ty then amt else 0)"
    "\<And>ref'. no_entry s t ref' \<Longrightarrow> ref' \<noteq> ref \<Longrightarrow> no_entry s' t ref'"
proof -
  note ef = postGlOnlyLegEntry_effects [OF run wf]
  show "wf_db s'" "accounts s' = accounts s" "transactions s' = transactions s" using ef by simp_all
  show "ledger_only s s'" by (rule ledger_only_postGlOnlyLegEntry [OF run])
  have "\<not> r \<and> (\<forall>ref'. no_entry s t ref' \<longrightarrow> ref' \<noteq> ref \<longrightarrow> no_entry s' t ref')"
    using run
  proof (cases rule: postGlOnlyLegEntry_cases)
    case (replayed s0)
    from findFirst_Some [OF replayed(4)] new show ?thesis by (auto simp: no_entry_def)
  next
    case (fresh s0 u d c)
    have "journalEntries s0 = journalEntries s" by (rule cache_same(4) [OF fresh(1)])
    with fresh show ?thesis by (auto simp: createJournalEntry_Inr no_entry_def ledgerJournalEntry_def)
  qed
  then have r: "\<not> r" and new': "\<And>ref'. no_entry s t ref' \<Longrightarrow> ref' \<noteq> ref \<Longrightarrow> no_entry s' t ref'" by blast+
  show "\<And>ref'. no_entry s t ref' \<Longrightarrow> ref' \<noteq> ref \<Longrightarrow> no_entry s' t ref'" by (rule new')
  have "memberDepositsCode x \<noteq> legCreditCode lg" for x by (rule memberDepositsCode_legCreditCode)
  then show "gl_credit s' t' (memberDepositsCode ty') = gl_credit s t' (memberDepositsCode ty') -
       (if t' = t \<and> ty' = ty then amt else 0)"
    using ef(8) [of t' "memberDepositsCode ty'"] r amt
    by (cases ty; cases ty') (auto simp: code_effect_def)
qed

text \<open>Both halves: an amount leaves an account, with its guarantor row, transaction and entry.\<close>

lemma taken_from_account:
  assumes upd: "updateAccounts P f s = Inr (n, s1)" and guar: "updateGuarantors Q g s1 = Inr (m, s2)"
    and tx: "createTransaction E row s2 = Inr (txn, s3)"
    and post: "postGlOnlyLegEntry E s3 t ref lg x (memberDepositsCode ty) (tx_id txn) actor jt = Inr ((e, r), s4)"
    and wf: "wf_db s" and a: "a \<in> set (accounts s)" "P a" "acc_tenantId a = t" "acc_accountType a = ty"
    and P: "\<And>y. P y \<Longrightarrow> acc_id y = acc_id a"
    and f: "\<And>y. acc_id (f y) = acc_id y" "\<And>y. acc_tenantId (f y) = acc_tenantId y"
      "\<And>y. acc_accountType (f y) = acc_accountType y"
    and m: "m4 (acc_balance (f a))" "m4 (acc_lockedBalance (f a))" "m4 (acc_frozenSavings (f a))"
      "m4 (acc_minimumBalance (f a))" and bal: "acc_balance (f a) = acc_balance a - x"
    and row: "tx_tenantId row = t" "tx_reference row = ref" "m4 (tx_amount row)" "m4 (tx_balanceBefore row)"
      "m4 (tx_balanceAfter row)"
    and x: "m4 x" and new: "no_entry s t ref"
  shows "wf_db s4 \<and> (\<forall>y. gl_agrees s y \<longrightarrow> gl_agrees s4 y) \<and>
    accounts s4 = map (\<lambda>y. if acc_id y = acc_id a then f a else y) (accounts s) \<and>
    guarantors s4 = map (\<lambda>y. if Q y then g y else y) (guarantors s) \<and> loans s4 = loans s \<and>
    transactions s4 = transactions s @ [txn] \<and> tx_tenantId txn = t \<and> tx_reference txn = ref \<and>
    (\<forall>ref'. no_entry s t ref' \<longrightarrow> ref' \<noteq> ref \<longrightarrow> no_entry s4 t ref')"
proof -
  have w: "wf_db s1 \<and> s1 = s\<lparr>accounts := accounts s1\<rparr> \<and>
    accounts s1 = map (\<lambda>x. if acc_id x = acc_id a then f a else x) (accounts s) \<and>
    (\<forall>t ty. deposits s1 t ty = deposits s t ty +
       (if acc_tenantId a = t \<and> acc_accountType a = ty then acc_balance (f a) - acc_balance a else 0))"
    by (rule account_written [OF upd wf a(1,2) P f m])
  then have w1: "wf_db s1" and e1: "s1 = s\<lparr>accounts := accounts s1\<rparr>"
    and acc: "accounts s1 = map (\<lambda>x. if acc_id x = acc_id a then f a else x) (accounts s)"
    and dep: "\<And>y z. deposits s1 y z = deposits s y z + (if t = y \<and> ty = z then - x else 0)"
    using a(3,4) bal by auto
  have f1: "transactions s1 = transactions s" "journalEntries s1 = journalEntries s" "glAccounts s1 = glAccounts s"
    "loans s1 = loans s" "guarantors s1 = guarantors s" by (subst e1, simp)+
  from guar obtain rows where s2: "s2 = s1\<lparr>guarantors := rows\<rparr>" "rows = map (\<lambda>y. if Q y then g y else y) (guarantors s)"
    by (auto simp: updateGuarantors_Inr f1)
  have w3: "wf_db s3" by (rule createTransaction_wf [OF tx]) (use w1 row in \<open>simp_all add: s2\<close>)
  have f3: "accounts s3 = accounts s1" "journalEntries s3 = journalEntries s" "glAccounts s3 = glAccounts s"
    "loans s3 = loans s" "guarantors s3 = rows" "transactions s3 = transactions s @ [txn]"
    "tx_tenantId txn = t" "tx_reference txn = ref"
    using tx row by (auto simp: createTransaction_Inr s2(1) f1)
  have n3: "no_entry s3 = no_entry s" by (rule no_entry_cong) (simp add: f3)
  note ent = account_entry [OF post w3 x, unfolded n3, OF new]
  have "gl_agrees s4 y" if "gl_agrees s y" for y
  proof (rule agreement_step [OF that, where x = "\<lambda>z. if t = y \<and> ty = z then - x else 0"])
    fix z
    have "deposits s4 y z = deposits s1 y z" by (rule deposits_cong) (simp add: ent(2) f3)
    then show "deposits s4 y z = deposits s y z + (if t = y \<and> ty = z then - x else 0)" by (simp add: dep)
    have "gl_credit s3 y c = gl_credit s y c" for c by (rule gl_credit_cong) (simp_all add: f3)
    then show "gl_credit s4 y (memberDepositsCode z) = gl_credit s y (memberDepositsCode z) +
        (if t = y \<and> ty = z then - x else 0)"
      using ent(5) [of y z] by auto
  qed
  moreover have "loans s4 = loans s" "guarantors s4 = rows" using ent(4) by (simp_all add: ledger_only_def f3)
  ultimately show ?thesis using ent(1,2,3,6) f3 acc s2(2) by simp
qed

end

end
