(* ===== verification/Loan_Closing.thy ===== *)
theory Loan_Closing
  imports Loan_Approval Loan_Schedule Waterfall Hold_Frames Ledger_Properties Account_Writes
begin

text \<open>
  Rejection, guarantor answers and repayment from the member's own account:
  \<open>reject\<close>, \<open>respondAsGuarantor\<close>, \<open>checkAndAdvanceLoanStatus\<close>, \<open>repay\<close> and
  \<open>releaseGuarantorHoldsOnFullRepayment\<close> of \<open>src/src/modules/loans/loans.service.ts\<close>.

  The audit rows of the releases carry a hash of the previous row, which is not modelled.
\<close>

section \<open>Rejection\<close>

definition rejectableStatuses :: "LoanStatus list" where
  "rejectableStatuses = [LoanStatus.PENDING_APPROVAL, LoanStatus.PENDING_GUARANTORS, LoanStatus.PENDING_REVIEW]"

definition heldGuarantors :: "db \<Rightarrow> ident \<Rightarrow> ident \<Rightarrow> guarantor list" where
  "heldGuarantors s tenantId loanId =
     filter (\<lambda>g. lg_tenantId g = tenantId \<and> lg_loanId g = loanId \<and>
       lg_status g = GuarantorStatus.ACCEPTED \<and> lg_holdReleasedAt g = None) (guarantors s)"

text \<open>The two writes of a release: the account gives the amount back, the row is marked.\<close>

definition releaseWrites :: "int \<Rightarrow> ident \<Rightarrow> ident \<Rightarrow> ident \<Rightarrow> rat \<Rightarrow> db \<Rightarrow> db res" where
  "releaseWrites now tenantId guarantorId accountId releaseAmount s =
     rbind (updateAccounts (\<lambda>a. acc_id a = accountId \<and> acc_tenantId a = tenantId \<and> acc_isActive a)
       (\<lambda>a. a\<lparr>acc_frozenSavings := acc_frozenSavings a - releaseAmount,
              acc_version := acc_version a + 1\<rparr>) s) (\<lambda>(_, s1).
     rbind (updateGuarantors (\<lambda>x. lg_id x = guarantorId \<and> lg_tenantId x = tenantId)
       (\<lambda>x. x\<lparr>lg_holdReleasedAt := Some now\<rparr>) s1) (\<lambda>(_, s2). Inr s2))"

definition rejectRelease :: "env \<Rightarrow> int \<Rightarrow> ident \<Rightarrow> AccountType \<Rightarrow> db \<Rightarrow> guarantor \<Rightarrow> db res" where
  "rejectRelease E now tenantId ty s g =
     (case accountFor s tenantId ty (lg_memberId g) of
        None \<Rightarrow> Inr s
      | Some account \<Rightarrow>
        (let releaseAmount = dp4 E (min (acc_frozenSavings account) (lg_guaranteedAmount g)) in
         if releaseAmount \<le> 0 then Inr s
         else releaseWrites now tenantId (lg_id g) (acc_id account) releaseAmount s))"

definition rejectLoan :: "env \<Rightarrow> int \<Rightarrow> db \<Rightarrow> ident \<Rightarrow> ident \<Rightarrow> ident \<Rightarrow> db res" where
  "rejectLoan E now s loanId tenantId rejectedBy =
     rbind (required (NotFoundException ''Loan not found'') (loanById s loanId tenantId)) (\<lambda>loan.
     rbind (required (InternalError ''LoanProduct'') (productOf s loan)) (\<lambda>pdt.
     rbind (ensure (ln_status loan \<in> set rejectableStatuses)
       (BadRequestException ''Cannot reject a loan in this status'')) (\<lambda>_.
     rbind (foldM (rejectRelease E now tenantId (resolveAccountType pdt)) s
       (heldGuarantors s tenantId loanId)) (\<lambda>s1.
     rbind (updateLoan loanId (\<lambda>l. l\<lparr>ln_status := LoanStatus.REJECTED\<rparr>) s1) (\<lambda>s2.
     Inr (writeAudit tenantId rejectedBy ''LOAN.REJECT'' loanId s2))))))"

section \<open>The older answer of a guarantor\<close>

definition checkAndAdvanceLoanStatus :: "env \<Rightarrow> db \<Rightarrow> ident \<Rightarrow> ident \<Rightarrow> db res" where
  "checkAndAdvanceLoanStatus E s loanId tenantId =
     (case findFirst (\<lambda>l. ln_id l = loanId \<and> ln_tenantId l = tenantId \<and>
         ln_status l = LoanStatus.PENDING_GUARANTORS) (loans s) of
        None \<Rightarrow> Inr s
      | Some loan \<Rightarrow>
        (let totalAccepted = dsum E lg_guaranteedAmount
               (filter (\<lambda>g. lg_loanId g = loanId \<and> lg_status g = GuarantorStatus.ACCEPTED) (guarantors s));
             minCoverage = dtimes E (ln_principalAmount loan) 1
         in if minCoverage \<le> totalAccepted
            then updateLoan loanId (\<lambda>l. l\<lparr>ln_status := LoanStatus.PENDING_APPROVAL\<rparr>) s
            else Inr s))"

definition respondAsGuarantor ::
  "env \<Rightarrow> db \<Rightarrow> ident \<Rightarrow> ident \<Rightarrow> bool \<Rightarrow> ident \<Rightarrow> (GuarantorStatus \<times> db) res" where
  "respondAsGuarantor E s loanId memberId accept tenantId =
     rbind (required (NotFoundException ''LoanGuarantor record not found for this loan'')
       (findFirst (\<lambda>g. lg_loanId g = loanId \<and> lg_memberId g = memberId \<and> lg_tenantId g = tenantId)
         (guarantors s))) (\<lambda>g.
     rbind (ensure (lg_status g = GuarantorStatus.PENDING)
       (BadRequestException ''You have already answered this guarantee request'')) (\<lambda>_.
     let newStatus = (if accept then GuarantorStatus.ACCEPTED else GuarantorStatus.REJECTED) in
     rbind (updateGuarantors (\<lambda>x. lg_id x = lg_id g) (\<lambda>x. x\<lparr>lg_status := newStatus\<rparr>) s) (\<lambda>(_, s1).
     let s2 = writeAudit tenantId memberId
           (if accept then ''LOAN.GUARANTOR_ACCEPTED'' else ''LOAN.GUARANTOR_REJECTED'') (lg_id g) s1 in
     rbind (checkAndAdvanceLoanStatus E s2 loanId tenantId) (\<lambda>s3. Inr (newStatus, s3)))))"

section \<open>Full repayment releases the guarantors\<close>

definition releaseRepaidHold ::
  "env \<Rightarrow> int \<Rightarrow> ident \<Rightarrow> ident \<Rightarrow> (ident \<Rightarrow> account option) \<Rightarrow> db \<Rightarrow> guarantor \<Rightarrow> db res" where
  "releaseRepaidHold E now tenantId actorId accountMap s g =
     (case accountMap (lg_memberId g) of
        None \<Rightarrow> Inr s
      | Some account \<Rightarrow>
        (let releaseAmount = dp4 E (min (acc_frozenSavings account) (lg_guaranteedAmount g)) in
         if releaseAmount \<le> 0 then Inr s
         else rbind (releaseWrites now tenantId (lg_id g) (acc_id account) releaseAmount s) (\<lambda>s1.
           Inr (writeAudit tenantId actorId ''GUARANTOR.HOLD_RELEASED_LOAN_REPAID'' (lg_id g) s1))))"

definition releaseGuarantorHoldsOnFullRepayment ::
  "env \<Rightarrow> int \<Rightarrow> ident \<Rightarrow> ident \<Rightarrow> ident \<Rightarrow> db \<Rightarrow> db res" where
  "releaseGuarantorHoldsOnFullRepayment E now tenantId loanId actorId s =
     (case loanById s loanId tenantId of
        None \<Rightarrow> Inr s
      | Some loan \<Rightarrow>
        (let gs = heldGuarantors s tenantId loanId in
         if gs = [] then Inr s
         else
           rbind (required (InternalError ''LoanProduct'') (productOf s loan)) (\<lambda>pdt.
           foldM (releaseRepaidHold E now tenantId actorId
               (memberAccount s tenantId (resolveAccountType pdt) (map lg_memberId gs))) s gs)))"

section \<open>Repayment from the FOSA account\<close>

text \<open>
  The reference of a request without an idempotency key carries the amount and the minute. An
  amount is written as JavaScript writes a number with at most six decimals.
\<close>

function showInt :: "int \<Rightarrow> string" where
  "showInt n = (if n < 10 then [char_of (48 + n)] else showInt (n div 10) @ [char_of (48 + n mod 10)])"
  by auto
termination
  by (relation "measure nat") auto

declare showInt.simps [simp del]

definition padded :: "nat \<Rightarrow> int \<Rightarrow> string" where
  "padded width n = replicate (width - length (showInt n)) CHR ''0'' @ showInt n"

definition showNumber :: "rat \<Rightarrow> string" where
  "showNumber x =
     (let scaled = \<lfloor>x * 1000000\<rfloor>;
          fraction = rev (dropWhile (\<lambda>c. c = CHR ''0'') (rev (padded 6 (scaled mod 1000000))))
      in showInt (scaled div 1000000) @ (if fraction = [] then [] else CHR ''.'' # fraction))"
definition isoMinute :: "int \<Rightarrow> string" where
  "isoMinute now =
     (let (y, m, d) = civilFromDays (now div MS_PER_DAY);
          minutes = (now mod MS_PER_DAY) div 60000
      in padded 4 y @ padded 2 m @ padded 2 d @ padded 2 (minutes div 60) @ padded 2 (minutes mod 60))"

definition repayReference :: "ident \<Rightarrow> ident \<Rightarrow> rat \<Rightarrow> int \<Rightarrow> string option \<Rightarrow> string" where
  "repayReference tenantId loanId amountKes now idempotencyKey =
     (if truthy idempotencyKey then ''REPAY-'' @ tenantId @ ''-'' @ the idempotencyKey
      else ''TXN-REPAY-'' @ tenantId @ ''-'' @ loanId @ ''-'' @ showNumber amountKes @ ''-'' @ isoMinute now)"

lemma repayReference_example:
  "repayReference ''t'' ''l'' (2501 / 2) (20484 * MS_PER_DAY + 47100000) None =
     ''TXN-REPAY-t-l-1250.5-202601311305''"
  by code_simp

record repay_result =
  rp_transaction :: txn
  rp_newOutstandingBalance :: rat
  rp_toPenalties :: rat
  rp_toInterest :: rat
  rp_toPrincipal :: rat

definition accountLeg ::
  "env \<Rightarrow> ident \<Rightarrow> string \<Rightarrow> leg \<Rightarrow> rat \<Rightarrow> ident \<Rightarrow> ident \<Rightarrow> db \<Rightarrow> db res" where
  "accountLeg E tenantId reference l amount transactionId processedBy s =
     (if 0 < amount then
        rbind (postAccountSourcedRepaymentLegEntry E s tenantId reference l amount FOSA transactionId processedBy)
          (\<lambda>(_, s'). Inr s')
      else Inr s)"

definition clamped :: "env \<Rightarrow> rat \<Rightarrow> rat" where
  "clamped E x = (if x < 0 then 0 else dp4 E x)"

definition repayFresh ::
  "env \<Rightarrow> int \<Rightarrow> db \<Rightarrow> ident \<Rightarrow> rat \<Rightarrow> ident \<Rightarrow> ident \<Rightarrow> ident \<Rightarrow> string \<Rightarrow> (repay_result \<times> db) res" where
  "repayFresh E now s loanId amount tenantId processedBy accountId reference =
     rbind (required (NotFoundException ''FOSA account not found or inactive'')
       (findFirst (\<lambda>a. acc_id a = accountId \<and> acc_tenantId a = tenantId \<and> acc_isActive a) (accounts s))) (\<lambda>acc.
     rbind (required (NotFoundException ''Loan not found'') (loanById s loanId tenantId)) (\<lambda>currentLoan.
     rbind (ensure (ln_status currentLoan = LoanStatus.ACTIVE)
       (BadRequestException ''Loan status changed during concurrent processing'')) (\<lambda>_.
     let balBefore = acc_balance acc;
         outstanding = ln_outstandingBalance currentLoan;
         accrued = ln_accruedInterest currentLoan;
         arrears = ln_arrearsAmount currentLoan;
         actualRepayment = cappedRepayment E amount arrears accrued outstanding in
     rbind (ensure (\<not> balBefore < actualRepayment)
       (UnprocessableEntityException ''Insufficient FOSA balance'')) (\<lambda>_.
     let (toArrears, toInterest, toPrincipal, _) = repaySplit E amount arrears accrued outstanding;
         newArrearsAmount = dminus E arrears toArrears;
         newAccruedInterest = dminus E accrued toInterest;
         newOutstanding = dminus E outstanding toPrincipal;
         balAfter = dminus E balBefore actualRepayment in
     rbind (createTransaction E
       \<lparr>tx_id = '''', tx_tenantId = tenantId, tx_accountId = accountId, tx_loanId = Some loanId,
        tx_type = TransactionType.LOAN_REPAYMENT, tx_status = TransactionStatus.COMPLETED,
        tx_amount = dp4 E actualRepayment, tx_balanceBefore = dp4 E balBefore,
        tx_balanceAfter = dp4 E balAfter, tx_reference = reference, tx_processedBy = processedBy,
        tx_linkedTransactionId = None\<rparr> s) (\<lambda>(txn, s1).
     rbind (updateAccounts (\<lambda>a. acc_id a = accountId) (\<lambda>a. a\<lparr>acc_balance := dp4 E balAfter\<rparr>) s1) (\<lambda>(_, s2).
     rbind (accountLeg E tenantId (reference @ ''-PENALTY'') leg.PENALTY toArrears (tx_id txn) processedBy s2) (\<lambda>s3.
     rbind (accountLeg E tenantId (reference @ ''-INTEREST'') leg.INTEREST toInterest (tx_id txn) processedBy s3) (\<lambda>s4.
     rbind (accountLeg E tenantId (reference @ ''-PRINCIPAL'') leg.PRINCIPAL toPrincipal (tx_id txn) processedBy s4) (\<lambda>s5.
     let newStatus = (if newOutstanding \<le> 0 then LoanStatus.FULLY_PAID else LoanStatus.ACTIVE) in
     rbind (updateLoan loanId (\<lambda>l. l\<lparr>ln_outstandingBalance := clamped E newOutstanding,
         ln_accruedInterest := clamped E newAccruedInterest, ln_arrearsAmount := clamped E newArrearsAmount,
         ln_totalRepaid := ln_totalRepaid l + to_number E (dp4 E actualRepayment), ln_status := newStatus\<rparr>) s5) (\<lambda>s6.
     rbind (if newStatus = LoanStatus.FULLY_PAID
       then releaseGuarantorHoldsOnFullRepayment E now tenantId loanId processedBy s6 else Inr s6) (\<lambda>s7.
     Inr (\<lparr>rp_transaction = txn, rp_newOutstandingBalance = max 0 newOutstanding,
            rp_toPenalties = toArrears, rp_toInterest = toInterest, rp_toPrincipal = toPrincipal\<rparr>,
          writeAudit tenantId processedBy ''LOAN.REPAYMENT'' loanId s7))))))))))))"

definition repayTx ::
  "env \<Rightarrow> int \<Rightarrow> db \<Rightarrow> ident \<Rightarrow> rat \<Rightarrow> ident \<Rightarrow> ident \<Rightarrow> ident \<Rightarrow> string \<Rightarrow> (repay_result \<times> db) res" where
  "repayTx E now s loanId amount tenantId processedBy accountId reference =
     (case transactionByReference s tenantId reference of
        Some existingReplay \<Rightarrow>
          rbind (required (NotFoundException ''Loan not found'') (loanById s loanId tenantId)) (\<lambda>currentLoan.
          Inr (\<lparr>rp_transaction = existingReplay,
                 rp_newOutstandingBalance = max 0 (ln_outstandingBalance currentLoan),
                 rp_toPenalties = 0, rp_toInterest = 0, rp_toPrincipal = 0\<rparr>, s))
      | None \<Rightarrow> repayFresh E now s loanId amount tenantId processedBy accountId reference)"

definition repayLoan ::
  "env \<Rightarrow> int \<Rightarrow> db \<Rightarrow> ident \<Rightarrow> rat \<Rightarrow> ident \<Rightarrow> ident \<Rightarrow> string option \<Rightarrow> (repay_result \<times> db) res" where
  "repayLoan E now s loanId amountKes tenantId processedBy idempotencyKey =
     rbind (ensure (\<not> amountKes \<le> 0) (BadRequestException ''Repayment amount must be positive'')) (\<lambda>_.
     rbind (required (NotFoundException ''Active loan not found'')
       (findFirst (\<lambda>l. ln_id l = loanId \<and> ln_tenantId l = tenantId \<and> ln_status l = LoanStatus.ACTIVE) (loans s))) (\<lambda>loan.
     rbind (required (BadRequestException ''No active FOSA account for repayment'')
       (accountFor s tenantId FOSA (ln_memberId loan))) (\<lambda>fosaAccount.
     repayTx E now s loanId amountKes tenantId processedBy (acc_id fosaAccount)
       (repayReference tenantId loanId amountKes now idempotencyKey))))"

section \<open>Lemmas: releases\<close>

lemma releaseWrites_hold:
  assumes "releaseWrites now t g k x s = Inr s'" and "m4 x"
  shows "hold_step s s'"
proof -
  from assms(1) obtain n s1 m where
    u: "updateAccounts (\<lambda>a. acc_id a = k \<and> acc_tenantId a = t \<and> acc_isActive a)
       (\<lambda>a. a\<lparr>acc_frozenSavings := acc_frozenSavings a - x, acc_version := acc_version a + 1\<rparr>) s = Inr (n, s1)"
    and g: "updateGuarantors (\<lambda>x. lg_id x = g \<and> lg_tenantId x = t)
       (\<lambda>x. x\<lparr>lg_holdReleasedAt := Some now\<rparr>) s1 = Inr (m, s')"
    by (auto simp: releaseWrites_def res_simps)
  have "hold_step s s1"
    by (rule hold_step_updateAccounts [OF u]) (use assms(2) in \<open>auto simp: purse_def intro: places_diff\<close>)
  then show ?thesis using hold_step_updateGuarantors [OF g] by (rule hold_step_trans)
qed

context decimal_runtime
begin

lemma rejectRelease_hold: "rejectRelease E now t ty s g = Inr s' \<Longrightarrow> hold_step s s'"
  by (auto simp: rejectRelease_def Let_def intro: releaseWrites_hold split: option.splits if_splits)

lemma releaseRepaidHold_hold: "releaseRepaidHold E now t u am s g = Inr s' \<Longrightarrow> hold_step s s'"
  by (auto simp: releaseRepaidHold_def Let_def res_simps split: option.splits if_splits
      intro!: hold_step_trans [OF releaseWrites_hold hold_step_writeAudit])

lemma releaseOnFullRepayment_hold:
  "releaseGuarantorHoldsOnFullRepayment E now t l u s = Inr s' \<Longrightarrow> hold_step s s'"
  by (auto simp: releaseGuarantorHoldsOnFullRepayment_def Let_def res_simps split: option.splits if_splits
      dest: hold_step_foldM [OF _ releaseRepaidHold_hold])

end

section \<open>Lemmas: repayment from the account\<close>

context decimal_runtime
begin

lemma accountLeg_effects:
  assumes run: "accountLeg E t ref lg amt tx u s = Inr s'" and wf: "wf_db s"
    and amt: "m4 amt" "0 \<le> amt" and new: "no_entry s t ref"
  shows "wf_db s' \<and> accounts s' = accounts s \<and> transactions s' = transactions s \<and> ledger_only s s' \<and>
    (\<forall>t' ty'. gl_credit s' t' (memberDepositsCode ty') = gl_credit s t' (memberDepositsCode ty') -
       (if t' = t \<and> ty' = FOSA then amt else 0)) \<and>
    (\<forall>ref'. no_entry s t ref' \<longrightarrow> ref' \<noteq> ref \<longrightarrow> no_entry s' t ref')"
proof (cases "0 < amt")
  case False
  with amt(2) have "amt = 0" by simp
  then show ?thesis using run wf by (simp add: accountLeg_def)
next
  case True
  with run obtain e r where
    post: "postGlOnlyLegEntry E s t ref lg amt (memberDepositsCode FOSA) tx (Some u)
      JournalEntryType.LOAN_REPAYMENT = Inr ((e, r), s')"
    by (auto simp: accountLeg_def postAccountSourcedRepaymentLegEntry_def res_simps)
  show ?thesis using account_entry [OF post wf amt(1) new] by blast
qed

end


text \<open>The loan row that \<open>repay\<close> writes.\<close>

definition reducedLoan :: "env \<Rightarrow> rat \<Rightarrow> rat \<Rightarrow> rat \<Rightarrow> rat \<Rightarrow> loan \<Rightarrow> loan" where
  "reducedLoan E newArrears newAccrued newOutstanding paid l =
     l\<lparr>ln_outstandingBalance := clamped E newOutstanding, ln_accruedInterest := clamped E newAccrued,
       ln_arrearsAmount := clamped E newArrears, ln_totalRepaid := ln_totalRepaid l + to_number E (dp4 E paid),
       ln_status := (if newOutstanding \<le> 0 then LoanStatus.FULLY_PAID else LoanStatus.ACTIVE)\<rparr>"

definition repayRow :: "env \<Rightarrow> ident \<Rightarrow> ident \<Rightarrow> ident \<Rightarrow> rat \<Rightarrow> rat \<Rightarrow> string \<Rightarrow> ident \<Rightarrow> txn" where
  "repayRow E t k l paid before ref u =
     \<lparr>tx_id = '''', tx_tenantId = t, tx_accountId = k, tx_loanId = Some l,
      tx_type = TransactionType.LOAN_REPAYMENT, tx_status = TransactionStatus.COMPLETED,
      tx_amount = dp4 E paid, tx_balanceBefore = dp4 E before,
      tx_balanceAfter = dp4 E (dminus E before paid), tx_reference = ref, tx_processedBy = u,
      tx_linkedTransactionId = None\<rparr>"

context decimal_runtime
begin

lemma repayFresh_steps:
  assumes "repayFresh E now s l amount t u k ref = Inr (r, s')"
  obtains acc loan ta ti tp rest paid txn s1 n s2 s3 s4 s5 s6 s7 where
    "findFirst (\<lambda>a. acc_id a = k \<and> acc_tenantId a = t \<and> acc_isActive a) (accounts s) = Some acc"
    "loanById s l t = Some loan" "ln_status loan = LoanStatus.ACTIVE"
    "paid = cappedRepayment E amount (ln_arrearsAmount loan) (ln_accruedInterest loan) (ln_outstandingBalance loan)"
    "paid \<le> acc_balance acc"
    "repaySplit E amount (ln_arrearsAmount loan) (ln_accruedInterest loan) (ln_outstandingBalance loan) =
       (ta, ti, tp, rest)"
    "createTransaction E (repayRow E t k l paid (acc_balance acc) ref u) s = Inr (txn, s1)"
    "updateAccounts (\<lambda>a. acc_id a = k) (\<lambda>a. a\<lparr>acc_balance := dp4 E (dminus E (acc_balance acc) paid)\<rparr>) s1 = Inr (n, s2)"
    "accountLeg E t (ref @ ''-PENALTY'') leg.PENALTY ta (tx_id txn) u s2 = Inr s3"
    "accountLeg E t (ref @ ''-INTEREST'') leg.INTEREST ti (tx_id txn) u s3 = Inr s4"
    "accountLeg E t (ref @ ''-PRINCIPAL'') leg.PRINCIPAL tp (tx_id txn) u s4 = Inr s5"
    "updateLoan l (reducedLoan E (dminus E (ln_arrearsAmount loan) ta) (dminus E (ln_accruedInterest loan) ti)
       (dminus E (ln_outstandingBalance loan) tp) paid) s5 = Inr s6"
    "hold_step s6 s7" "s' = writeAudit t u ''LOAN.REPAYMENT'' l s7"
    "rp_transaction r = txn" "rp_toPenalties r = ta" "rp_toInterest r = ti" "rp_toPrincipal r = tp"
proof -
  note run = assms [unfolded repayFresh_def]
  from run obtain acc where acc: "findFirst (\<lambda>a. acc_id a = k \<and> acc_tenantId a = t \<and> acc_isActive a)
      (accounts s) = Some acc" by (auto simp: res_simps)
  from run obtain loan where loan: "loanById s l t = Some loan" by (auto simp: res_simps acc)
  define paid where "paid = cappedRepayment E amount (ln_arrearsAmount loan) (ln_accruedInterest loan)
    (ln_outstandingBalance loan)"
  obtain ta ti tp rest where sp: "repaySplit E amount (ln_arrearsAmount loan) (ln_accruedInterest loan)
      (ln_outstandingBalance loan) = (ta, ti, tp, rest)" by (metis surj_pair)
  note run = run [unfolded acc loan required_Some rbind.simps Let_def sp prod.case, folded paid_def]
  from run have st: "ln_status loan = LoanStatus.ACTIVE" and bal: "\<not> acc_balance acc < paid"
    by (auto simp: res_simps)
  note run = run [unfolded ensure_def if_P [OF st] if_P [OF bal] rbind.simps]
  note run = run [folded repayRow_def]
  from run obtain txn s1 where tx: "createTransaction E (repayRow E t k l paid (acc_balance acc) ref u) s = Inr (txn, s1)"
    by (rule rbind_Inr_pairE)
  note run = run [unfolded tx rbind.simps prod.case]
  from run obtain n s2 where up: "updateAccounts (\<lambda>a. acc_id a = k)
      (\<lambda>a. a\<lparr>acc_balance := dp4 E (dminus E (acc_balance acc) paid)\<rparr>) s1 = Inr (n, s2)" by (rule rbind_Inr_pairE)
  note run = run [unfolded up rbind.simps prod.case]
  from run obtain s3 where l1: "accountLeg E t (ref @ ''-PENALTY'') leg.PENALTY ta (tx_id txn) u s2 = Inr s3"
    by (rule rbind_InrE)
  note run = run [unfolded l1 rbind.simps]
  from run obtain s4 where l2: "accountLeg E t (ref @ ''-INTEREST'') leg.INTEREST ti (tx_id txn) u s3 = Inr s4"
    by (rule rbind_InrE)
  note run = run [unfolded l2 rbind.simps]
  from run obtain s5 where l3: "accountLeg E t (ref @ ''-PRINCIPAL'') leg.PRINCIPAL tp (tx_id txn) u s4 = Inr s5"
    by (rule rbind_InrE)
  note run = run [unfolded l3 rbind.simps, folded reducedLoan_def]
  from run obtain s6 where upd: "updateLoan l (reducedLoan E (dminus E (ln_arrearsAmount loan) ta)
      (dminus E (ln_accruedInterest loan) ti) (dminus E (ln_outstandingBalance loan) tp) paid) s5 = Inr s6"
    by (rule rbind_InrE)
  note run = run [unfolded upd rbind.simps]
  from run obtain s7 where rel: "(if (if dminus E (ln_outstandingBalance loan) tp \<le> 0 then LoanStatus.FULLY_PAID
        else LoanStatus.ACTIVE) = LoanStatus.FULLY_PAID
      then releaseGuarantorHoldsOnFullRepayment E now t l u s6 else Inr s6) = Inr s7" by (rule rbind_InrE)
  have hold: "hold_step s6 s7"
    using rel by (auto intro: releaseOnFullRepayment_hold split: if_splits)
  note run = run [unfolded rel rbind.simps]
  from run have r: "rp_transaction r = txn" "rp_toPenalties r = ta" "rp_toInterest r = ti" "rp_toPrincipal r = tp"
    and s': "s' = writeAudit t u ''LOAN.REPAYMENT'' l s7" by auto
  show thesis
    by (rule that [OF acc loan st paid_def _ sp tx up l1 l2 l3 upd hold s' r]) (use bal in simp)
qed

end

text \<open>The transaction row and the balance that goes with it.\<close>

lemma balance_written:
  assumes upd: "updateAccounts (\<lambda>x. acc_id x = k) (\<lambda>x. x\<lparr>acc_balance := b\<rparr>) s = Inr (n, s')"
    and wf: "wf_db s" and a: "a \<in> set (accounts s)" "acc_id a = k" and b: "m4 b"
  shows "wf_db s' \<and> transactions s' = transactions s \<and> journalEntries s' = journalEntries s \<and>
    glAccounts s' = glAccounts s \<and> loans s' = loans s \<and> repayments s' = repayments s \<and>
    map acc_balance (accounts s') = map (\<lambda>x. if acc_id x = k then b else acc_balance x) (accounts s) \<and>
    (\<forall>t ty. deposits s' t ty = deposits s t ty +
       (if acc_tenantId a = t \<and> acc_accountType a = ty then b - acc_balance a else 0))"
proof -
  have "m4 (acc_lockedBalance a)" "m4 (acc_frozenSavings a)" "m4 (acc_minimumBalance a)"
    using wf a(1) by (auto simp: wf_db_def wf_accounts_def wf_account_def money_m4)
  then have w: "wf_db s' \<and> s' = s\<lparr>accounts := accounts s'\<rparr> \<and>
    accounts s' = map (\<lambda>x. if acc_id x = acc_id a then a\<lparr>acc_balance := b\<rparr> else x) (accounts s) \<and>
    (\<forall>t ty. deposits s' t ty = deposits s t ty +
       (if acc_tenantId a = t \<and> acc_accountType a = ty then acc_balance (a\<lparr>acc_balance := b\<rparr>) - acc_balance a else 0))"
    by (intro account_written [OF upd wf a(1)]) (use a b in simp_all)
  have eq: "s' = s\<lparr>accounts := accounts s'\<rparr>" using w by blast
  have "transactions s' = transactions s" "journalEntries s' = journalEntries s" "glAccounts s' = glAccounts s"
    "loans s' = loans s" "repayments s' = repayments s" by (subst eq, simp)+
  with w a(2) show ?thesis by (simp add: o_def if_distrib cong: if_cong)
qed

context decimal_runtime
begin

text \<open>The three entries of a repayment take their sum off the FOSA deposits code.\<close>

lemma accountLegs_effects:
  assumes run: "accountLeg E t (ref @ ''-PENALTY'') leg.PENALTY x tx u s = Inr s1"
      "accountLeg E t (ref @ ''-INTEREST'') leg.INTEREST y tx u s1 = Inr s2"
      "accountLeg E t (ref @ ''-PRINCIPAL'') leg.PRINCIPAL z tx u s2 = Inr s3"
    and wf: "wf_db s" and amt: "m4 x" "0 \<le> x" "m4 y" "0 \<le> y" "m4 z" "0 \<le> z"
    and new: "no_entry s t (ref @ ''-PENALTY'')" "no_entry s t (ref @ ''-INTEREST'')"
      "no_entry s t (ref @ ''-PRINCIPAL'')"
  shows "wf_db s3 \<and> accounts s3 = accounts s \<and> transactions s3 = transactions s \<and> ledger_only s s3 \<and>
    (\<forall>t' ty'. gl_credit s3 t' (memberDepositsCode ty') = gl_credit s t' (memberDepositsCode ty') -
       (if t' = t \<and> ty' = FOSA then x + y + z else 0))"
proof -
  note e1 = accountLeg_effects [OF run(1) wf amt(1,2) new(1)]
  then have n1: "no_entry s1 t (ref @ ''-INTEREST'')" "no_entry s1 t (ref @ ''-PRINCIPAL'')" and w1: "wf_db s1"
    using new(2,3) by simp_all
  note e2 = accountLeg_effects [OF run(2) w1 amt(3,4) n1(1)]
  then have n2: "no_entry s2 t (ref @ ''-PRINCIPAL'')" and w2: "wf_db s2" using n1(2) by simp_all
  note e3 = accountLeg_effects [OF run(3) w2 amt(5,6) n2]
  have "ledger_only s s3"
    using ledger_only_trans [OF ledger_only_trans [of s s1 s2], of s3] e1 e2 e3 by simp
  then show ?thesis using e1 e2 e3 by simp
qed

end

text \<open>The loan row after a repayment from the account.\<close>

definition paidDown :: "rat \<Rightarrow> rat \<Rightarrow> rat \<Rightarrow> loan \<Rightarrow> loan" where
  "paidDown toPenalties toInterest toPrincipal loan = loan\<lparr>
     ln_outstandingBalance := ln_outstandingBalance loan - toPrincipal,
     ln_accruedInterest := ln_accruedInterest loan - toInterest,
     ln_arrearsAmount := ln_arrearsAmount loan - toPenalties,
     ln_totalRepaid := ln_totalRepaid loan + (toPenalties + toInterest + toPrincipal),
     ln_status := (if toPrincipal = ln_outstandingBalance loan then LoanStatus.FULLY_PAID else LoanStatus.ACTIVE)\<rparr>"

context decimal_runtime
begin

text \<open>What a repayment from the account does to balances, books and the loan.\<close>

lemma repayFresh_effects:
  assumes run: "repayFresh E now s l amount t u k ref = Inr (r, s')" and wf: "wf_db s" "wf_loans s"
    and amt: "money amount" "0 \<le> amount" and small: "amount < 10 ^ 11"
    and new: "no_entry s t (ref @ ''-PENALTY'')" "no_entry s t (ref @ ''-INTEREST'')"
      "no_entry s t (ref @ ''-PRINCIPAL'')"
    and a: "a \<in> set (accounts s)" "acc_id a = k" "acc_tenantId a = t" "acc_accountType a = FOSA"
  shows "\<exists>loan rest. loanById s l t = Some loan \<and> ln_status loan = LoanStatus.ACTIVE \<and>
    repaySplit E amount (ln_arrearsAmount loan) (ln_accruedInterest loan) (ln_outstandingBalance loan) =
      (rp_toPenalties r, rp_toInterest r, rp_toPrincipal r, rest) \<and>
    amount - rest \<le> acc_balance a \<and>
    map acc_balance (accounts s') =
      map (\<lambda>x. if acc_id x = k then acc_balance a - (amount - rest) else acc_balance x) (accounts s) \<and>
    loans s' = map (\<lambda>x. if ln_id x = l then paidDown (rp_toPenalties r) (rp_toInterest r) (rp_toPrincipal r) loan
      else x) (loans s) \<and>
    wf_loans s' \<and> wf_db s' \<and> (\<forall>x. gl_agrees s x \<longrightarrow> gl_agrees s' x) \<and> repayments s' = repayments s"
proof (rule repayFresh_steps [OF run])
  fix acc loan ta ti tp rest paid txn s1 n s2 s3 s4 s5 s6 s7
  assume acc: "findFirst (\<lambda>a. acc_id a = k \<and> acc_tenantId a = t \<and> acc_isActive a) (accounts s) = Some acc"
    and loan: "loanById s l t = Some loan" and st: "ln_status loan = LoanStatus.ACTIVE"
    and paid: "paid = cappedRepayment E amount (ln_arrearsAmount loan) (ln_accruedInterest loan) (ln_outstandingBalance loan)"
    and bal: "paid \<le> acc_balance acc"
    and sp: "repaySplit E amount (ln_arrearsAmount loan) (ln_accruedInterest loan) (ln_outstandingBalance loan) =
       (ta, ti, tp, rest)"
    and tx: "createTransaction E (repayRow E t k l paid (acc_balance acc) ref u) s = Inr (txn, s1)"
    and upd: "updateAccounts (\<lambda>a. acc_id a = k)
      (\<lambda>a. a\<lparr>acc_balance := dp4 E (dminus E (acc_balance acc) paid)\<rparr>) s1 = Inr (n, s2)"
    and legs: "accountLeg E t (ref @ ''-PENALTY'') leg.PENALTY ta (tx_id txn) u s2 = Inr s3"
      "accountLeg E t (ref @ ''-INTEREST'') leg.INTEREST ti (tx_id txn) u s3 = Inr s4"
      "accountLeg E t (ref @ ''-PRINCIPAL'') leg.PRINCIPAL tp (tx_id txn) u s4 = Inr s5"
    and lu: "updateLoan l (reducedLoan E (dminus E (ln_arrearsAmount loan) ta) (dminus E (ln_accruedInterest loan) ti)
       (dminus E (ln_outstandingBalance loan) tp) paid) s5 = Inr s6"
    and hold: "hold_step s6 s7" and s': "s' = writeAudit t u ''LOAN.REPAYMENT'' l s7"
    and r: "rp_transaction r = txn" "rp_toPenalties r = ta" "rp_toInterest r = ti" "rp_toPrincipal r = tp"
  have aa: "acc = a" using findFirst_Some [OF acc] a(1,2) wf(1)
    by (auto simp: wf_db_def wf_accounts_def intro: distinct_key_eq)
  have wl: "wf_loan loan" using loanById_Some [OF loan] wf(2) by (simp add: wf_loans_def)
  then have m: "money (ln_arrearsAmount loan)" "0 \<le> ln_arrearsAmount loan"
    "money (ln_accruedInterest loan)" "0 \<le> ln_accruedInterest loan"
    "money (ln_outstandingBalance loan)" "0 \<le> ln_outstandingBalance loan" by (simp_all add: wf_loan_def)
  note parts = debited_parts [OF sp amt m] and mny = debited_money [OF sp amt m]
  have pd: "paid = amount - rest" "paid = ta + ti + tp"
  proof -
    have "paid = min amount (ln_arrearsAmount loan + ln_accruedInterest loan + ln_outstandingBalance loan)"
      unfolding paid using m by (simp add: cappedRepayment_exact)
    moreover have "rest = amount - paid" using sp unfolding paid repaySplit_def Let_def by blast
    ultimately show "paid = amount - rest" "paid = ta + ti + tp" using parts(1) by linarith+
  qed
  have mp: "money paid" by (rule money_shrink [OF amt(1)]) (use pd parts amt mny in \<open>simp_all add: money_m4 places_add\<close>)
  have ma: "money (acc_balance a)" using a(1) wf(1) by (simp add: wf_db_def wf_accounts_def wf_account_def)
  have p0: "0 \<le> paid" using pd(2) parts by linarith
  have "money (acc_balance a - paid)" using ma mp p0 bal by (simp add: aa money_diff)
  then have after: "dp4 E (dminus E (acc_balance acc) paid) = acc_balance a - paid"
    using ma mp by (simp add: aa dminus_money money_m4)
  have w1: "wf_db s1" by (rule createTransaction_wf [OF tx wf(1)]) (simp_all add: repayRow_def)
  have f1: "accounts s1 = accounts s" "journalEntries s1 = journalEntries s" "glAccounts s1 = glAccounts s"
    "loans s1 = loans s" "repayments s1 = repayments s" using tx by (auto simp: createTransaction_Inr)
  have e2: "wf_db s2 \<and> transactions s2 = transactions s1 \<and> journalEntries s2 = journalEntries s1 \<and>
      glAccounts s2 = glAccounts s1 \<and> loans s2 = loans s1 \<and> repayments s2 = repayments s1 \<and>
      map acc_balance (accounts s2) = map (\<lambda>x. if acc_id x = k then acc_balance a - paid else acc_balance x) (accounts s1) \<and>
      (\<forall>t ty. deposits s2 t ty = deposits s1 t ty +
         (if acc_tenantId a = t \<and> acc_accountType a = ty then acc_balance a - paid - acc_balance a else 0))"
    by (rule balance_written [OF upd [unfolded after] w1]) (use a f1 ma mp in \<open>auto simp: money_m4 intro: places_diff\<close>)
  have n2: "no_entry s2 t ref' = no_entry s t ref'" for ref' using e2 f1 by (simp add: no_entry_def)
  have e5: "wf_db s5 \<and> accounts s5 = accounts s2 \<and> transactions s5 = transactions s2 \<and> ledger_only s2 s5 \<and>
    (\<forall>t' ty'. gl_credit s5 t' (memberDepositsCode ty') = gl_credit s2 t' (memberDepositsCode ty') -
       (if t' = t \<and> ty' = FOSA then ta + ti + tp else 0))"
    by (rule accountLegs_effects [OF legs]) (use e2 mny parts new n2 in \<open>simp_all add: money_m4\<close>)
  have l5: "loans s5 = loans s" "repayments s5 = repayments s" using e5 e2 f1 by (simp_all add: ledger_only_def)
  note lo = updateLoan_row [OF lu]
  have row: "reducedLoan E (dminus E (ln_arrearsAmount loan) ta) (dminus E (ln_accruedInterest loan) ti)
       (dminus E (ln_outstandingBalance loan) tp) paid x =
     x\<lparr>ln_outstandingBalance := ln_outstandingBalance loan - tp, ln_accruedInterest := ln_accruedInterest loan - ti,
       ln_arrearsAmount := ln_arrearsAmount loan - ta, ln_totalRepaid := ln_totalRepaid x + paid,
       ln_status := (if tp = ln_outstandingBalance loan then LoanStatus.FULLY_PAID else LoanStatus.ACTIVE)\<rparr>" for x
  proof -
    have "clamped E (dminus E y z) = y - z" if "money y" "money z" "0 \<le> z" "z \<le> y" for y z
      using that by (simp add: clamped_def dminus_money money_diff money_m4 places_diff)
    moreover have "dminus E (ln_outstandingBalance loan) tp \<le> 0 \<longleftrightarrow> tp = ln_outstandingBalance loan"
      using m mny parts by (auto simp: dminus_money)
    moreover have "to_number E paid = paid" using mp p0 pd(2) small parts by (intro number_exact) (simp_all add: money_m4)
    ultimately show ?thesis using m mny parts mp by (simp add: reducedLoan_def money_m4)
  qed
  have lid: "loan \<in> set (loans s)" "ln_id loan = l" using loanById_Some [OF loan] by simp_all
  have dl: "distinct (map ln_id (loans s))" using wf(2) by (simp add: wf_loans_def)
  have same5: "distinct (map ln_id (loans s5))" "loan \<in> set (loans s5)" using dl lid(1) by (simp_all add: l5)
  let ?new = "paidDown ta ti tp loan"
  have new_row: "reducedLoan E (dminus E (ln_arrearsAmount loan) ta) (dminus E (ln_accruedInterest loan) ti)
       (dminus E (ln_outstandingBalance loan) tp) paid loan = ?new"
    by (simp only: row paidDown_def pd(2) [symmetric])
  have rid: "ln_id (reducedLoan E (dminus E (ln_arrearsAmount loan) ta) (dminus E (ln_accruedInterest loan) ti)
       (dminus E (ln_outstandingBalance loan) tp) paid x) = ln_id x" for x
    by (simp add: reducedLoan_def)
  have ls: "loans s6 = map (\<lambda>x. if ln_id x = l then ?new else x) (loans s)"
    using updateLoan_row(1) [OF lu same5 lid(2) rid] by (simp add: new_row l5)
  have "loan_in_columns ?new"
    using updateLoan_row(3) [OF lu same5 lid(2) rid] by (simp add: new_row)
  then have "wf_loan ?new" using m mny parts wl
    by (auto simp: wf_loan_def paidDown_def loan_in_columns_def money_m4 intro!: money_in_column places_add places_diff money_diff)
  then have wl6: "wf_loans s6" using wf(2) lid(2) by (auto simp: wf_loans_def ls paidDown_def o_def if_distrib cong: if_cong)
  note same7 = hold_step_same [OF hold]
  have w5: "wf_db s5" using e5 by simp
  have agree: "gl_agrees s5 x" if "gl_agrees s x" for x
  proof (rule agreement_step [OF that, where x = "\<lambda>ty. if t = x \<and> FOSA = ty then - paid else 0"])
    fix ty
    have "deposits s5 x ty = deposits s2 x ty" "deposits s1 x ty = deposits s x ty"
      by (rule deposits_cong; use e5 f1 in simp)+
    then show "deposits s5 x ty = deposits s x ty + (if t = x \<and> FOSA = ty then - paid else 0)"
      using e2 a(3,4) by auto
    have "gl_credit s2 x c = gl_credit s x c" for c by (rule gl_credit_cong) (use e2 f1 in simp_all)
    then show "gl_credit s5 x (memberDepositsCode ty) = gl_credit s x (memberDepositsCode ty) +
        (if t = x \<and> FOSA = ty then - paid else 0)"
      using e5 pd(2) by auto
  qed
  obtain rows where s6: "s6 = s5\<lparr>loans := rows\<rparr>" using lu by (auto simp: updateLoan_Inr)
  have w7: "wf_db s7" by (rule same7(11)) (simp add: s6 w5)
  have g7: "gl_agrees s7 x" if "gl_agrees s x" for x using agree [OF that] by (simp add: same7(12) s6)
  have b7: "map acc_balance (accounts s7) = map (\<lambda>x. if acc_id x = k then acc_balance a - paid else acc_balance x) (accounts s)"
  proof -
    have "map acc_balance (accounts s7) = map acc_balance (accounts s5)" by (simp only: same7(10)) (simp add: s6)
    then show ?thesis using e5 e2 f1 by (simp add: o_def if_distrib cong: if_cong)
  qed
  have rp7: "repayments s7 = repayments s" by (simp add: same7(2) s6 l5)
  have fin: "accounts s' = accounts s7" "loans s' = loans s6" "repayments s' = repayments s" "wf_db s'"
    "wf_loans s'" "\<And>x. gl_agrees s' x = gl_agrees s7 x"
    using rp7 w7 wl6 same7(1) by (simp_all add: s' writeAudit_def wf_loans_def)
  show ?thesis
    unfolding r fin(1,2)
    by (intro exI [of _ loan] exI [of _ rest] conjI allI impI loan st sp b7 [unfolded pd(1)] ls fin(3-5))
      (use bal aa g7 fin(6) pd(1) in simp_all)
qed

end


context decimal_runtime
begin

text \<open>The row that a later request with the same reference finds.\<close>

lemma accountLeg_transactions:
  assumes "accountLeg E t ref lg x tx u s = Inr s'"
  shows "transactions s' = transactions s"
proof -
  have "transactions s2 = transactions s" if post: "postGlOnlyLegEntry E s a b c d e f g h = Inr ((i, j), s2)"
    for a b c d e f g h i j s2
    using post
  proof (cases rule: postGlOnlyLegEntry_cases)
    case (replayed s0)
    then show ?thesis using cache_same(2) [OF replayed(1)] by simp
  next
    case (fresh s0 x y z)
    then show ?thesis using cache_same(2) [OF fresh(1)] createJournalEntry_frame(3) [OF fresh(5)] by simp
  qed
  note post = this
  show ?thesis
  proof (cases "0 < x")
    case True
    with assms obtain e r where "postGlOnlyLegEntry E s t ref lg x (memberDepositsCode FOSA) tx (Some u)
        JournalEntryType.LOAN_REPAYMENT = Inr ((e, r), s')"
      by (auto simp: accountLeg_def postAccountSourcedRepaymentLegEntry_def res_simps)
    then show ?thesis by (rule post)
  qed (use assms in \<open>simp add: accountLeg_def\<close>)
qed

lemma repayFresh_recorded:
  assumes run: "repayFresh E now s l amount t u k ref = Inr (r, s')"
    and new: "transactionByReference s t ref = None"
  shows "transactionByReference s' t ref = Some (rp_transaction r)"
proof (rule repayFresh_steps [OF run])
  fix acc loan ta ti tp paid txn s1 n s2 s3 s4 s5 s6 s7
  assume tx: "createTransaction E (repayRow E t k l paid (acc_balance acc) ref u) s = Inr (txn, s1)"
    and upd: "updateAccounts (\<lambda>a. acc_id a = k)
      (\<lambda>a. a\<lparr>acc_balance := dp4 E (dminus E (acc_balance acc) paid)\<rparr>) s1 = Inr (n, s2)"
    and legs: "accountLeg E t (ref @ ''-PENALTY'') leg.PENALTY ta (tx_id txn) u s2 = Inr s3"
      "accountLeg E t (ref @ ''-INTEREST'') leg.INTEREST ti (tx_id txn) u s3 = Inr s4"
      "accountLeg E t (ref @ ''-PRINCIPAL'') leg.PRINCIPAL tp (tx_id txn) u s4 = Inr s5"
    and lu: "updateLoan l (reducedLoan E (dminus E (ln_arrearsAmount loan) ta) (dminus E (ln_accruedInterest loan) ti)
       (dminus E (ln_outstandingBalance loan) tp) paid) s5 = Inr s6"
    and hold: "hold_step s6 s7" and s': "s' = writeAudit t u ''LOAN.REPAYMENT'' l s7"
    and r: "rp_transaction r = txn"
  have "transactions s7 = transactions s2"
    using hold_step_same(3) [OF hold] lu legs [THEN accountLeg_transactions] by (simp add: updateLoan_Inr)
  also have "\<dots> = transactions s @ [txn]"
    using upd createTransaction_frame(4) [OF tx] by (simp add: updateAccounts_Inr)
  finally have "transactions s' = transactions s @ [txn]" by (simp add: s' writeAudit_def)
  moreover have "tx_tenantId txn = t" "tx_reference txn = ref"
    using tx by (simp_all add: createTransaction_Inr repayRow_def)
  ultimately show ?thesis using new
    by (simp add: transactionByReference_def findFirst_append r)
qed

end

end
