(* ===== verification/Closing_Properties.thy ===== *)
theory Closing_Properties
  imports Loan_Closing Repayment_Properties
begin

text \<open>
  The properties of rejection and of repayment from the member's account, with runs on the
  tenant \<open>desk\<close>.
\<close>

section \<open>Rejection\<close>

text \<open>A release only lowers frozen savings, and not below zero.\<close>

definition frozen_falls :: "db \<Rightarrow> db \<Rightarrow> bool" where
  "frozen_falls s s' \<longleftrightarrow> list_all2 (\<lambda>x y. acc_frozenSavings y \<le> acc_frozenSavings x \<and>
     (0 \<le> acc_frozenSavings x \<longrightarrow> 0 \<le> acc_frozenSavings y)) (accounts s) (accounts s')"

lemma frozen_falls_refl [simp]: "frozen_falls s s"
  by (simp add: frozen_falls_def list_all2_same)

lemma frozen_falls_trans: "frozen_falls s s' \<Longrightarrow> frozen_falls s' s'' \<Longrightarrow> frozen_falls s s''"
  unfolding frozen_falls_def by (erule list_all2_trans [rotated], assumption) auto

lemma releaseWrites_falls:
  assumes run: "releaseWrites now t g k x s = Inr s'" and wf: "wf_db s"
    and a: "a \<in> set (accounts s)" "acc_id a = k" and x: "0 < x" "x \<le> acc_frozenSavings a"
  shows "frozen_falls s s'"
proof -
  from run have acc: "accounts s' = map (\<lambda>y. if acc_id y = k \<and> acc_tenantId y = t \<and> acc_isActive y
      then y\<lparr>acc_frozenSavings := acc_frozenSavings y - x, acc_version := acc_version y + 1\<rparr> else y) (accounts s)"
    by (auto simp: releaseWrites_def res_simps updateAccounts_Inr updateGuarantors_Inr)
  have "y = a" if "y \<in> set (accounts s)" "acc_id y = k" for y
    using that a wf by (auto simp: wf_db_def wf_accounts_def intro: distinct_key_eq)
  then show ?thesis using x
    by (auto simp: frozen_falls_def acc list_all2_map2 list_all2_same)
qed

context decimal_runtime
begin

lemma rejectRelease_falls:
  assumes run: "rejectRelease E now t ty s g = Inr s'" and wf: "wf_db s"
  shows "wf_db s' \<and> frozen_falls s s'"
proof -
  have "wf_db s'" using rejectRelease_hold [OF run] wf by (simp add: hold_step_same)
  moreover have "frozen_falls s s'"
  proof (cases "accountFor s t ty (lg_memberId g)")
    case None
    then show ?thesis using run by (simp add: rejectRelease_def)
  next
    case (Some a)
    note a = accountFor_Some [OF Some]
    let ?x = "dp4 E (min (acc_frozenSavings a) (lg_guaranteedAmount g))"
    have m: "m4 (acc_frozenSavings a)" using wf a(1) by (simp add: wf_db_def wf_accounts_def wf_account_def money_m4)
    have le: "?x \<le> acc_frozenSavings a" by (rule dp4_le) (simp_all add: m)
    show ?thesis
    proof (cases "?x \<le> 0")
      case True
      then show ?thesis using run Some by (simp add: rejectRelease_def)
    next
      case False
      then have "releaseWrites now t (lg_id g) (acc_id a) ?x s = Inr s'"
        using run Some by (simp add: rejectRelease_def Let_def)
      then show ?thesis using releaseWrites_falls [OF _ wf a(1) refl] False le by simp
    qed
  qed
  ultimately show ?thesis by simp
qed

lemma rejectReleases_falls:
  assumes "foldM (rejectRelease E now t ty) s gs = Inr s'" and "wf_db s"
  shows "wf_db s' \<and> frozen_falls s s' \<and> hold_step s s'"
  using assms(1)
proof (rule foldM_inv [where P = "\<lambda>x. wf_db x \<and> frozen_falls s x \<and> hold_step s x"])
  fix x g y
  assume "wf_db x \<and> frozen_falls s x \<and> hold_step s x" and "rejectRelease E now t ty x g = Inr y"
  then show "wf_db y \<and> frozen_falls s y \<and> hold_step s y"
    using rejectRelease_falls rejectRelease_hold frozen_falls_trans hold_step_trans by metis
qed (use assms(2) in auto)

end

text \<open>
  C31. Rejecting a loan is possible in three states only and ends in REJECTED, whatever else the
  loan holds. It moves no money: balances, transactions, journal entries and every other loan stay
  as they were, frozen savings are only released, none below zero, and the books stay well formed.
\<close>

theorem reject_releases:
  assumes "decimal_runtime E" and "rejectLoan E now s l t u = Inr s'" and "wf_db s"
  shows "\<exists>loan. loanById s l t = Some loan \<and>
    ln_status loan \<in> {LoanStatus.PENDING_APPROVAL, LoanStatus.PENDING_GUARANTORS, LoanStatus.PENDING_REVIEW} \<and>
    loans s' = map (\<lambda>x. if ln_id x = l then x\<lparr>ln_status := LoanStatus.REJECTED\<rparr> else x) (loans s) \<and>
    map acc_balance (accounts s') = map acc_balance (accounts s) \<and> frozen_falls s s' \<and>
    transactions s' = transactions s \<and> journalEntries s' = journalEntries s \<and> wf_db s'"
proof -
  from assms(2) obtain loan pdt s1 s2 where
    loan: "loanById s l t = Some loan" "ln_status loan \<in> set rejectableStatuses"
    and rel: "foldM (rejectRelease E now t (resolveAccountType pdt)) s (heldGuarantors s t l) = Inr s1"
    and upd: "updateLoan l (\<lambda>l. l\<lparr>ln_status := LoanStatus.REJECTED\<rparr>) s1 = Inr s2"
    and s': "s' = writeAudit t u ''LOAN.REJECT'' l s2"
    by (auto simp: rejectLoan_def res_simps)
  note falls = decimal_runtime.rejectReleases_falls [OF assms(1) rel assms(3)]
  note same = hold_step_same [of s s1]
  from upd have s2: "s2 = s1\<lparr>loans := map (\<lambda>x. if ln_id x = l then x\<lparr>ln_status := LoanStatus.REJECTED\<rparr> else x) (loans s1)\<rparr>"
    by (simp add: updateLoan_Inr)
  have "frozen_falls s s'" using falls by (simp add: frozen_falls_def s' s2 writeAudit_def)
  moreover have "accounts s' = accounts s1" "transactions s' = transactions s1" "journalEntries s' = journalEntries s1"
    "wf_db s' = wf_db s1" by (simp_all add: s' s2) (simp_all add: writeAudit_def)
  moreover have "loans s' = map (\<lambda>x. if ln_id x = l then x\<lparr>ln_status := LoanStatus.REJECTED\<rparr> else x) (loans s)"
    using same(1) falls by (simp add: s' s2 writeAudit_def)
  ultimately show ?thesis using loan falls same
    by (intro exI [of _ loan]) (simp add: rejectableStatuses_def)
qed

definition pending_desk :: db where
  "pending_desk = desk\<lparr>loans := [desk_loan\<lparr>ln_status := LoanStatus.PENDING_REVIEW\<rparr>],
     loanProducts := [office_product], guarantors := [office_guarantor 200\<lparr>lg_memberId := ''mF''\<rparr>],
     accounts := map (\<lambda>a. a\<lparr>acc_frozenSavings := 300\<rparr>) (accounts desk)\<rparr>"

definition frozen_after :: "db res \<Rightarrow> rat list" where
  "frozen_after out = (case out of Inl _ \<Rightarrow> [] | Inr s \<Rightarrow> map acc_frozenSavings (accounts s))"

lemma pending_desk_run: "frozen_after (rejectLoan plain_env 7 pending_desk ''l'' ''t'' ''u'') = [100, 300]"
  by code_simp

theorem reject_releases_witness:
  "\<exists>s'. rejectLoan plain_env 7 pending_desk ''l'' ''t'' ''u'' = Inr s' \<and>
     map acc_frozenSavings (accounts s') = [100, 300] \<and> frozen_falls pending_desk s'"
proof -
  obtain s' where run: "rejectLoan plain_env 7 pending_desk ''l'' ''t'' ''u'' = Inr s'"
    and fr: "map acc_frozenSavings (accounts s') = [100, 300]"
    using pending_desk_run by (auto simp: frozen_after_def split: sum.splits)
  have "wf_db pending_desk" by code_simp
  from reject_releases [OF plain.decimal_runtime_axioms run this]
  have "frozen_falls pending_desk s'" by (elim exE conjE)
  with run fr show ?thesis by (intro exI conjI)
qed

section \<open>Repayment from the account\<close>

definition fresh_reference :: "db \<Rightarrow> ident \<Rightarrow> string \<Rightarrow> bool" where
  "fresh_reference s t ref \<longleftrightarrow> transactionByReference s t ref = None \<and>
     no_entry s t (ref @ ''-PENALTY'') \<and> no_entry s t (ref @ ''-INTEREST'') \<and> no_entry s t (ref @ ''-PRINCIPAL'')"

lemma repayLoan_Inr:
  assumes "repayLoan E now s l amount t u key = Inr out"
  obtains loan a where "loan \<in> set (loans s)" "ln_id loan = l" "ln_tenantId loan = t"
    "accountFor s t FOSA (ln_memberId loan) = Some a" "0 < amount"
    "repayTx E now s l amount t u (acc_id a) (repayReference t l amount now key) = Inr out"
  using assms by (auto simp: repayLoan_def res_simps dest!: findFirst_Some)

lemma repayTx_fresh:
  "transactionByReference s t ref = None \<Longrightarrow>
   repayTx E now s l amount t u k ref = repayFresh E now s l amount t u k ref"
  by (simp add: repayTx_def)

text \<open>
  A repayment of less than 10^11 shillings from the member's FOSA account with a new reference takes from it exactly
  the three parts, which are the amount asked or the whole debt if that is less, and never more than
  the balance. Interest is served only after the penalties and principal only after the interest; the
  loan goes down by exactly the parts and becomes FULLY_PAID exactly when no principal is left; no
  other balance and no other loan changes; FOSA and BOSA balances keep agreeing with the ledger.
\<close>

theorem repay_exact:
  assumes "decimal_runtime E" and "repayLoan E now s l amount t u key = Inr (r, s')" and "wf_db s" "wf_loans s"
    and "money amount" and "fresh_reference s t (repayReference t l amount now key)" and "amount < 10 ^ 11"
  shows "\<exists>loan a paid. loanById s l t = Some loan \<and> accountFor s t FOSA (ln_memberId loan) = Some a \<and>
    paid = rp_toPenalties r + rp_toInterest r + rp_toPrincipal r \<and>
    paid = min amount (ln_arrearsAmount loan + ln_accruedInterest loan + ln_outstandingBalance loan) \<and>
    paid \<le> acc_balance a \<and>
    (0 < rp_toInterest r \<longrightarrow> rp_toPenalties r = ln_arrearsAmount loan) \<and>
    (0 < rp_toPrincipal r \<longrightarrow> rp_toInterest r = ln_accruedInterest loan) \<and>
    map acc_balance (accounts s') =
      map (\<lambda>x. if acc_id x = acc_id a then acc_balance a - paid else acc_balance x) (accounts s) \<and>
    loans s' = map (\<lambda>x. if ln_id x = l then paidDown (rp_toPenalties r) (rp_toInterest r) (rp_toPrincipal r) loan
      else x) (loans s) \<and>
    wf_db s' \<and> wf_loans s' \<and> (gl_agrees s tenant \<longrightarrow> gl_agrees s' tenant)"
proof (rule repayLoan_Inr [OF assms(2)])
  let ?ref = "repayReference t l amount now key"
  fix lo a
  assume lo: "lo \<in> set (loans s)" "ln_id lo = l" "ln_tenantId lo = t"
    and a: "accountFor s t FOSA (ln_memberId lo) = Some a" and pos: "0 < amount"
    and tx: "repayTx E now s l amount t u (acc_id a) ?ref = Inr (r, s')"
  have new: "transactionByReference s t ?ref = None" "no_entry s t (?ref @ ''-PENALTY'')"
    "no_entry s t (?ref @ ''-INTEREST'')" "no_entry s t (?ref @ ''-PRINCIPAL'')"
    using assms(6) by (simp_all add: fresh_reference_def)
  note acc = accountFor_Some [OF a]
  have run: "repayFresh E now s l amount t u (acc_id a) ?ref = Inr (r, s')"
    using tx by (simp only: repayTx_fresh [OF new(1)])
  obtain loan rest where loan: "loanById s l t = Some loan"
    and sp: "repaySplit E amount (ln_arrearsAmount loan) (ln_accruedInterest loan) (ln_outstandingBalance loan) =
      (rp_toPenalties r, rp_toInterest r, rp_toPrincipal r, rest)"
    and rest: "amount - rest \<le> acc_balance a" "map acc_balance (accounts s') =
      map (\<lambda>x. if acc_id x = acc_id a then acc_balance a - (amount - rest) else acc_balance x) (accounts s)"
      "loans s' = map (\<lambda>x. if ln_id x = l then paidDown (rp_toPenalties r) (rp_toInterest r) (rp_toPrincipal r) loan
        else x) (loans s)" "wf_loans s'" "wf_db s'" "gl_agrees s tenant \<longrightarrow> gl_agrees s' tenant"
    using decimal_runtime.repayFresh_effects [OF assms(1) run assms(3-5) less_imp_le [OF pos] assms(7) new(2-4) acc(1) refl acc(2,4)]
    by blast
  note lid = loanById_Some [OF loan]
  have "lo = loan" using lo lid assms(4) by (auto simp: wf_loans_def intro: distinct_key_eq)
  have m: "money (ln_arrearsAmount loan)" "0 \<le> ln_arrearsAmount loan"
    "money (ln_accruedInterest loan)" "0 \<le> ln_accruedInterest loan"
    "money (ln_outstandingBalance loan)" "0 \<le> ln_outstandingBalance loan"
    using lid(1) assms(4) by (simp_all add: wf_loans_def wf_loan_def)
  note args = assms(1) sp assms(5) less_imp_le [OF pos] m
  note parts = decimal_runtime.debited_parts [OF args]
  have paid: "amount - rest = rp_toPenalties r + rp_toInterest r + rp_toPrincipal r" using parts(1) by simp
  have total: "rp_toPenalties r + rp_toInterest r + rp_toPrincipal r =
      min amount (ln_arrearsAmount loan + ln_accruedInterest loan + ln_outstandingBalance loan)"
    by (rule decimal_runtime.debited_total [OF args])
  show ?thesis
    by (intro exI [of _ loan] exI [of _ a] exI [of _ "rp_toPenalties r + rp_toInterest r + rp_toPrincipal r"]
        conjI loan refl total rest [unfolded paid])
      (use a \<open>lo = loan\<close> decimal_runtime.debited_priority [OF args] in simp_all)
qed

lemma desk_repayment:
  "fresh_reference desk ''t'' (repayReference ''t'' ''l'' 960 7 (Some ''k''))" "money 960"
  "\<not> isl (repayLoan plain_env 7 desk ''l'' 960 ''t'' ''u'' (Some ''k''))"
  by code_simp+

theorem repay_exact_witness:
  "\<exists>r s'. repayLoan plain_env 7 desk ''l'' 960 ''t'' ''u'' (Some ''k'') = Inr (r, s') \<and>
     wf_loans s' \<and> gl_agrees s' ''t''"
proof -
  obtain r s' where run: "repayLoan plain_env 7 desk ''l'' 960 ''t'' ''u'' (Some ''k'') = Inr (r, s')"
    using not_isl [OF desk_repayment(3)] by blast
  have "(960 :: rat) < 10 ^ 11" by simp
  from repay_exact [OF plain.decimal_runtime_axioms run desk_facts(1,3) desk_repayment(2,1) this, of "''t''"] desk_facts(2)
  have "wf_loans s'" "gl_agrees s' ''t''" by (elim exE conjE, simp)+
  with run show ?thesis by blast
qed

text \<open>
  A key is spent once: after a repayment with an idempotency key, every further request of the
  tenant with this key, whatever its amount, its user and even its loan, changes nothing and is
  answered with the first transaction and no parts.
\<close>

theorem repay_key_once:
  assumes "decimal_runtime E" and "repayLoan E now s l amount t u (Some k) = Inr (r, s')" and "k \<noteq> ''''"
    and "repayLoan E later s' l' amount' t u' (Some k) = Inr (r', s'')"
    and "transactionByReference s t (''REPAY-'' @ t @ ''-'' @ k) = None"
  shows "s'' = s' \<and> rp_transaction r' = rp_transaction r \<and>
    rp_toPenalties r' = 0 \<and> rp_toInterest r' = 0 \<and> rp_toPrincipal r' = 0"
proof (rule repayLoan_Inr [OF assms(2)])
  fix a
  let ?ref = "''REPAY-'' @ t @ ''-'' @ k"
  have ref: "repayReference t x y z (Some k) = ?ref" for x y z
    using assms(3) by (simp add: repayReference_def truthy_def)
  assume "repayTx E now s l amount t u (acc_id a) (repayReference t l amount now (Some k)) = Inr (r, s')"
  then have run: "repayFresh E now s l amount t u (acc_id a) ?ref = Inr (r, s')"
    by (simp only: ref repayTx_fresh [OF assms(5)])
  have recorded: "transactionByReference s' t ?ref = Some (rp_transaction r)"
    by (rule decimal_runtime.repayFresh_recorded [OF assms(1) run assms(5)])
  from assms(4) show ?thesis
    by (rule repayLoan_Inr) (use recorded in \<open>auto simp: ref repayTx_def res_simps\<close>)
qed

theorem repay_key_once_witness:
  "\<exists>r s'. repayLoan plain_env 7 desk ''l'' 960 ''t'' ''u'' (Some ''k'') = Inr (r, s') \<and>
     (\<exists>r'. repayLoan plain_env 9 s' ''l'' 10 ''t'' ''w'' (Some ''k'') = Inr (r', s') \<and>
        rp_transaction r' = rp_transaction r)"
proof -
  obtain r s' where run: "repayLoan plain_env 7 desk ''l'' 960 ''t'' ''u'' (Some ''k'') = Inr (r, s')"
    using not_isl [OF desk_repayment(3)] by blast
  have "\<not> isl (rbind (repayLoan plain_env 7 desk ''l'' 960 ''t'' ''u'' (Some ''k''))
      (\<lambda>x. repayLoan plain_env 9 (snd x) ''l'' 10 ''t'' ''w'' (Some ''k'')))" by code_simp
  then have "\<not> isl (repayLoan plain_env 9 s' ''l'' 10 ''t'' ''w'' (Some ''k''))" by (simp add: run)
  from not_isl [OF this] obtain r' s'' where
    again: "repayLoan plain_env 9 s' ''l'' 10 ''t'' ''w'' (Some ''k'') = Inr (r', s'')" by blast
  have "transactionByReference desk ''t'' (''REPAY-'' @ ''t'' @ ''-'' @ ''k'') = None" by code_simp
  then have "s'' = s' \<and> rp_transaction r' = rp_transaction r"
    using repay_key_once [OF plain.decimal_runtime_axioms run _ again] by simp
  with run again show ?thesis by blast
qed

definition balances_after :: "(repay_result \<times> db) res \<Rightarrow> (rat \<times> rat) list \<times> rat list" where
  "balances_after out = (case out of Inl _ \<Rightarrow> ([], [])
     | Inr x \<Rightarrow> (map (\<lambda>a. (acc_balance a, acc_lockedBalance a)) (accounts (snd x)),
         map lr_principalPaid (repayments (snd x))))"

text \<open>
  The floor of the ledger does not hold here: a repayment takes the balance of account F from
  1000 to 40 although 100 of it are locked and 50 are its minimum. The instalments of the loan do
  not learn of the repayment.
\<close>

theorem repay_spends_locked_funds:
  "balances_after (repayLoan plain_env 7 desk ''l'' 960 ''t'' ''u'' (Some ''k'')) =
     ([(40, 100), (500, 100)], [0, 0, 0])"
  by code_simp

end
