(* ===== verification/Guarantor_Recovery.thy ===== *)
theory Guarantor_Recovery
  imports Guarantor_Holds Account_Writes
begin

text \<open>
  Taking a defaulted loan's amount from its guarantors:
  \<open>src/src/modules/loans/loan-recovery.service.ts\<close> (\<open>initiateGuarantorRecovery\<close>,
  \<open>recoverFromGuarantors\<close>, \<open>allocateRecovery\<close>).

  The lock in Redis is the argument \<open>locked\<close>: whether another run holds it. The attempt id of
  \<open>randomUUID\<close> is the next identifier of the database's supply. The column \<open>recoveryDate\<close>, the
  descriptions and the metadata of audit rows are not modelled.
\<close>

section \<open>References and the notice job\<close>

definition guarantorForfeitureReference :: "ident \<Rightarrow> ident \<Rightarrow> ident \<Rightarrow> ident \<Rightarrow> string" where
  "guarantorForfeitureReference tenantId loanId accountId recoveryAttemptId =
     ''GUAR_FORFEIT-'' @ tenantId @ ''-'' @ loanId @ ''-'' @ accountId @ ''-'' @ recoveryAttemptId"

lemma forfeitureReference_inj [simp]:
  "guarantorForfeitureReference t l k x = guarantorForfeitureReference t l k' x \<longleftrightarrow> k = k'"
  by (simp add: guarantorForfeitureReference_def)

record recovery_notice =
  rn_loanId :: ident
  rn_tenantId :: ident
  rn_actorId :: ident
  rn_defaultAmount :: rat
  rn_noticeDate :: int

definition GUARANTOR_RECOVERY_NOTICE_JOB :: string where
  "GUARANTOR_RECOVERY_NOTICE_JOB = ''guarantor-recovery-notice''"

text \<open>
  The queue keeps one job per job id: adding a second one with the same id leaves the first. The
  result carries the id and the payload.
\<close>

definition queueJob :: "delayed_job \<Rightarrow> db \<Rightarrow> db" where
  "queueJob job s = (if \<exists>j \<in> set (delayedJobs s). dj_id j = dj_id job then s
     else s\<lparr>delayedJobs := delayedJobs s @ [job]\<rparr>)"

definition positiveDefault :: "rat option \<Rightarrow> rat res" where
  "positiveDefault defaultAmount =
     rbind (required (BadRequestException ''INVALID_DEFAULT_AMOUNT'') defaultAmount) (\<lambda>amount.
     rbind (ensure (\<not> amount \<le> 0) (BadRequestException ''INVALID_DEFAULT_AMOUNT'')) (\<lambda>_. Inr amount))"

definition initiateGuarantorRecovery ::
  "env \<Rightarrow> int \<Rightarrow> db \<Rightarrow> ident \<Rightarrow> ident \<Rightarrow> rat option \<Rightarrow> ident \<Rightarrow> ((string \<times> recovery_notice) \<times> db) res" where
  "initiateGuarantorRecovery E now s loanId tenantId defaultAmount actorId =
     rbind (positiveDefault defaultAmount) (\<lambda>amount.
     rbind (required (NotFoundException ''Loan not found'') (loanById s loanId tenantId)) (\<lambda>loan.
     let gracePeriod = (case productOf s loan of None \<Rightarrow> 14 | Some p \<Rightarrow> lp_gracePeriodDays p) in
     rbind (ensure (\<not> (ln_arrearsDays loan < gracePeriod \<and> ln_status loan \<noteq> LoanStatus.DEFAULTED))
       (BadRequestException ''GUARANTOR_RECOVERY_NOTICE_REQUIRES_DEFAULT'')) (\<lambda>_.
     let jobId = GUARANTOR_RECOVERY_NOTICE_JOB @ ''.'' @ tenantId @ ''.'' @ loanId;
         payload = \<lparr>rn_loanId = loanId, rn_tenantId = tenantId, rn_actorId = actorId,
           rn_defaultAmount = dp4 E amount, rn_noticeDate = now\<rparr>;
         s1 = queueJob \<lparr>dj_id = jobId, dj_name = GUARANTOR_RECOVERY_NOTICE_JOB, dj_tenantId = tenantId,
           dj_loanId = loanId\<rparr> s
     in Inr ((jobId, payload), writeAudit tenantId actorId ''GUARANTOR_RECOVERY.NOTICE_QUEUED'' loanId s1))))"

section \<open>Allocation\<close>

record recovery_allocation =
  ra_guarantor :: guarantor
  ra_deduction :: rat
  ra_account :: "account option"

definition acceptedGuarantors :: "db \<Rightarrow> ident \<Rightarrow> ident \<Rightarrow> guarantor list" where
  "acceptedGuarantors s tenantId loanId = sort_key lg_createdAt
     (filter (\<lambda>g. lg_loanId g = loanId \<and> lg_tenantId g = tenantId \<and>
        lg_status g = GuarantorStatus.ACCEPTED \<and> lg_holdReleasedAt g = None) (guarantors s))"

definition recoveryCapacity :: "env \<Rightarrow> rat \<Rightarrow> rat \<Rightarrow> account option \<Rightarrow> guarantor \<Rightarrow> rat" where
  "recoveryCapacity E sumHolds outstanding account g =
     (let remaining = dminus E (lg_guaranteedAmount g) (lg_recoveredAmount g);
          guaranteeCapacity = (if 0 < sumHolds \<and> outstanding < sumHolds
            then dp4 E (dtimes E remaining (ddiv E outstanding sumHolds)) else remaining);
          accountCapacity = (case account of None \<Rightarrow> 0 | Some a \<Rightarrow> min (acc_balance a) (acc_frozenSavings a))
      in dp4 E (min guaranteeCapacity accountCapacity))"

text \<open>The loop over the capacities: remaining debt and remaining capacity go down together.\<close>

fun shareOut :: "env \<Rightarrow> rat \<Rightarrow> rat \<Rightarrow> rat list \<Rightarrow> rat list" where
  "shareOut E remainingDebt remainingCapacity [] = []"
| "shareOut E remainingDebt remainingCapacity (capacity # cs) =
     (if remainingDebt = 0 \<or> remainingCapacity = 0 \<or> capacity \<le> 0
      then 0 # shareOut E remainingDebt remainingCapacity cs
      else
        (let proportionalShare = dp4 E (ddiv E (dtimes E remainingDebt capacity) remainingCapacity);
             deduction = dp4 E (min capacity (min proportionalShare remainingDebt))
         in deduction # shareOut E (dp4 E (dminus E remainingDebt deduction))
              (dp4 E (dminus E remainingCapacity capacity)) cs))"

definition allocateRecovery ::
  "env \<Rightarrow> db \<Rightarrow> ident \<Rightarrow> guarantor list \<Rightarrow> AccountType \<Rightarrow> rat \<Rightarrow> rat \<Rightarrow> recovery_allocation list" where
  "allocateRecovery E s tenantId gs accountType defaultAmount outstandingBalance =
     (let sumHolds = dsum E lg_guaranteedAmount gs;
          accountMap = memberAccount s tenantId accountType (map lg_memberId gs);
          capacities = map (\<lambda>g. recoveryCapacity E sumHolds outstandingBalance (accountMap (lg_memberId g)) g) gs;
          deductions = shareOut E (dp4 E defaultAmount) (dsum E (\<lambda>c. c) capacities) capacities
      in map (\<lambda>(g, d). \<lparr>ra_guarantor = g, ra_deduction = d, ra_account = accountMap (lg_memberId g)\<rparr>)
           (zip gs deductions))"

section \<open>Recovery\<close>

record recovery_summary =
  rv_totalRecovered :: rat
  rv_remainingDebt :: rat

definition recoverOne ::
  "env \<Rightarrow> int \<Rightarrow> ident \<Rightarrow> ident \<Rightarrow> ident \<Rightarrow> ident \<Rightarrow> AccountType \<Rightarrow> rat \<times> db \<Rightarrow> recovery_allocation \<Rightarrow> (rat \<times> db) res" where
  "recoverOne E now tenantId loanId actorId attempt accountType st allocation =
     (let (totalRecovered, s) = st in
      if ra_deduction allocation = 0 then Inr st
      else case ra_account allocation of None \<Rightarrow> Inr st
      | Some account \<Rightarrow>
        (let reference = guarantorForfeitureReference tenantId loanId (acc_id account) attempt in
         if transactionByReference s tenantId reference \<noteq> None then Inr st
         else rbind (required (ConflictException ''Concurrent balance modification, retry'')
             (findFirst (\<lambda>a. acc_id a = acc_id account) (accounts s))) (\<lambda>locked.
           let balanceBefore = acc_balance locked;
               frozenSavings = acc_frozenSavings locked;
               actualDeduction = dp4 E (min (ra_deduction allocation) (min balanceBefore frozenSavings)) in
           if actualDeduction \<le> 0 then Inr st
           else
             (let balanceAfter = dp4 E (dminus E balanceBefore actualDeduction);
                  remainingFrozen = dp4 E (dminus E frozenSavings actualDeduction) in
              rbind (updateAccounts (\<lambda>a. acc_id a = acc_id account \<and> acc_tenantId a = tenantId \<and>
                  acc_isActive a \<and> acc_version a = acc_version locked)
                (\<lambda>a. a\<lparr>acc_balance := balanceAfter, acc_frozenSavings := acc_frozenSavings a - actualDeduction,
                       acc_version := acc_version a + 1\<rparr>) s) (\<lambda>(count, s1).
              rbind (ensure (count = 1) (ConflictException ''Concurrent balance modification, retry'')) (\<lambda>_.
              rbind (updateGuarantors (\<lambda>g. lg_id g = lg_id (ra_guarantor allocation) \<and> lg_tenantId g = tenantId \<and>
                  lg_status g = GuarantorStatus.ACCEPTED)
                (\<lambda>g. g\<lparr>lg_recoveredAmount := lg_recoveredAmount g + actualDeduction,
                       lg_holdReleasedAt := (if remainingFrozen \<le> 0 then Some now else lg_holdReleasedAt g)\<rparr>) s1)
                (\<lambda>(guarantorCount, s2).
              rbind (ensure (guarantorCount = 1) (BadRequestException ''RECOVERY_GUARANTOR_UPDATE_FAILED'')) (\<lambda>_.
              rbind (createTransaction E
                \<lparr>tx_id = '''', tx_tenantId = tenantId, tx_accountId = acc_id account, tx_loanId = Some loanId,
                 tx_type = TransactionType.LOAN_REPAYMENT, tx_status = TransactionStatus.COMPLETED,
                 tx_amount = actualDeduction, tx_balanceBefore = dp4 E balanceBefore,
                 tx_balanceAfter = balanceAfter, tx_reference = reference, tx_processedBy = actorId,
                 tx_linkedTransactionId = None\<rparr> s2) (\<lambda>(txn, s3).
              rbind (postGuarantorForfeitureEntry E s3 tenantId reference actualDeduction accountType
                  (tx_id txn) (Some actorId)) (\<lambda>(_, s4).
              Inr (dplus E totalRecovered actualDeduction,
                writeAudit tenantId actorId ''AUDIT_RECOVERY'' (lg_id (ra_guarantor allocation)) s4)))))))))))"

definition recoverFromGuarantorsLocked ::
  "env \<Rightarrow> int \<Rightarrow> db \<Rightarrow> ident \<Rightarrow> ident \<Rightarrow> rat \<Rightarrow> ident \<Rightarrow> (recovery_summary \<times> db) res" where
  "recoverFromGuarantorsLocked E now s loanId tenantId defaultAmount actorId =
     (let attempt = uuid E (id_count s); s0 = s\<lparr>id_count := Suc (id_count s)\<rparr> in
      rbind (required (NotFoundException ''Loan not found'') (loanById s0 loanId tenantId)) (\<lambda>loan.
      let gs = acceptedGuarantors s0 tenantId loanId in
      rbind (ensure (gs \<noteq> []) (BadRequestException ''NO_ACCEPTED_GUARANTORS'')) (\<lambda>_.
      rbind (required (InternalError ''LoanProduct'') (productOf s0 loan)) (\<lambda>pdt.
      let accountType = resolveAccountType pdt;
          allocations = allocateRecovery E s0 tenantId gs accountType defaultAmount (ln_outstandingBalance loan) in
      rbind (foldM (recoverOne E now tenantId loanId actorId attempt accountType) (0, s0) allocations)
        (\<lambda>(totalRecovered, s1).
      rbind (if 0 < totalRecovered
        then (let outstandingDeduction = dp4 E (min (ln_outstandingBalance loan) totalRecovered) in
          updateLoan loanId (\<lambda>l. l\<lparr>ln_outstandingBalance := ln_outstandingBalance l - outstandingDeduction\<rparr>) s1)
        else Inr s1) (\<lambda>s2.
      Inr (\<lparr>rv_totalRecovered = totalRecovered,
             rv_remainingDebt = max (dminus E defaultAmount totalRecovered) 0\<rparr>, s2)))))))"

definition recoverFromGuarantors ::
  "env \<Rightarrow> int \<Rightarrow> bool \<Rightarrow> db \<Rightarrow> ident \<Rightarrow> ident \<Rightarrow> rat option \<Rightarrow> ident \<Rightarrow> (recovery_summary \<times> db) res" where
  "recoverFromGuarantors E now locked s loanId tenantId defaultAmount actorId =
     rbind (positiveDefault defaultAmount) (\<lambda>amount.
     rbind (ensure (\<not> locked) (ConflictException ''GUARANTOR_FORFEITURE_LOCKED'')) (\<lambda>_.
     recoverFromGuarantorsLocked E now s loanId tenantId amount actorId))"

section \<open>Lemmas: allocation\<close>

context decimal_runtime
begin

text \<open>Rounding to four places does not fall below a multiple that the value nearly reaches.\<close>

lemma dp4_reaches:
  assumes "m4 m" and "m - 1 / 20000 < y"
  shows "m \<le> dp4 E y"
proof -
  have "\<bar>half_up 4 y - y\<bar> \<le> 1 / (2 * 10 ^ 4)" by (rule half_up_error)
  then have "\<bar>half_up 4 y - y\<bar> \<le> 1 / 20000" by simp
  with assms(2) have gt: "m - 1 / 10000 < half_up 4 y" by linarith
  have "m4 (half_up 4 y)" by simp
  then obtain i j :: int where "half_up 4 y * 10 ^ 4 = of_int i" "m * 10 ^ 4 = of_int j"
    using assms(1) by (auto simp: places_iff)
  with gt have "of_int j - 1 < (of_int i :: rat)" "half_up 4 y = of_int i / 10 ^ 4" "m = of_int j / 10 ^ 4" by simp_all
  then have "j \<le> i" by linarith
  then have "m \<le> half_up 4 y" using \<open>half_up 4 y = _\<close> \<open>m = _\<close> by simp
  then show ?thesis by (simp add: dec_places_half_up)
qed

text \<open>The proportional share is off by less than half of the last place.\<close>

lemma share_error:
  assumes "0 \<le> d" "d < 10 ^ 14" "0 < c" "c \<le> t"
  shows "\<bar>ddiv E (dtimes E d c) t - d * c / t\<bar> < 1 / 30000"
proof -
  define x where "x = d * c / t"
  have t: "0 < t" using assms by linarith
  have "d * c \<le> d * t" using assms by (intro mult_left_mono)
  then have x: "0 \<le> x" "x \<le> d" using assms t by (auto simp: x_def pos_divide_le_eq)
  have y: "\<bar>dtimes E d c - d * c\<bar> \<le> d * c / 10 ^ 19"
    using sig_error [of "d * c"] assms by (simp add: dtimes_def)
  have "\<bar>dtimes E d c / t - x\<bar> = \<bar>dtimes E d c - d * c\<bar> / t"
    using t by (simp add: x_def diff_divide_distrib [symmetric] abs_divide)
  also have "\<dots> \<le> d * c / 10 ^ 19 / t" using y t by (intro divide_right_mono) auto
  finally have 1: "\<bar>dtimes E d c / t - x\<bar> \<le> x / 10 ^ 19" by (simp add: x_def field_simps)
  have 2: "\<bar>ddiv E (dtimes E d c) t - dtimes E d c / t\<bar> \<le> \<bar>dtimes E d c / t\<bar> / 10 ^ 19"
    using sig_error [of "dtimes E d c / t"] by (simp add: ddiv_def)
  have "x / 10 ^ 19 \<le> x" using x(1) by simp
  with 1 have "\<bar>dtimes E d c / t\<bar> \<le> 2 * x" using x(1) by linarith
  then have "\<bar>dtimes E d c / t\<bar> / 10 ^ 19 \<le> 2 * x / 10 ^ 19" by (intro divide_right_mono) auto
  with 1 2 have "\<bar>ddiv E (dtimes E d c) t - x\<bar> \<le> 3 * x / 10 ^ 19" by linarith
  moreover have "3 * x / 10 ^ 19 < 1 / 30000" using x assms(2) by simp
  ultimately have "\<bar>ddiv E (dtimes E d c) t - x\<bar> < 1 / 30000" by (rule le_less_trans)
  then show ?thesis by (simp only: x_def)
qed

lemma shareOut_settled: "shareOut E 0 t cs = replicate (length cs) 0"
  by (induction cs) auto

text \<open>
  The loop hands out exactly the smaller of debt and capacity: rounding never leaves a remainder
  with the guarantors while debt is left, nor takes more than asked.
\<close>

lemma shareOut_complete:
  assumes "money d" "0 \<le> d" and "\<And>c. c \<in> set cs \<Longrightarrow> m4 c \<and> 0 \<le> c" and "t = sum_list cs" and "t < 10 ^ 16"
  shows "sum_list (shareOut E d t cs) = min d t \<and> length (shareOut E d t cs) = length cs \<and>
    (\<forall>x \<in> set (zip (shareOut E d t cs) cs). m4 (fst x) \<and> 0 \<le> fst x \<and> fst x \<le> snd x)"
  using assms
proof (induction cs arbitrary: d t)
  case Nil
  then show ?case by simp
next
  case (Cons c cs)
  have c: "m4 c" "0 \<le> c" and cs: "\<And>c. c \<in> set cs \<Longrightarrow> m4 c \<and> 0 \<le> c" using Cons.prems(3) by auto
  have nn: "0 \<le> sum_list cs" by (rule sum_list_nonneg) (use cs in auto)
  have t: "t = c + sum_list cs" using Cons.prems(4) by simp
  show ?case
  proof (cases "d = 0")
    case True
    then show ?thesis using Cons.prems(3) c nn by (simp add: shareOut_settled sum_list_replicate t) (auto simp: set_zip)
  next
    case d: False
    show ?thesis
    proof (cases "c \<le> 0")
      case True
      then have "c = 0" using c by simp
      moreover have "t < 10 ^ 16" "t = sum_list cs" using t Cons.prems(5) \<open>c = 0\<close> by simp_all
      ultimately show ?thesis using Cons.IH [OF Cons.prems(1,2) cs, of t] by simp
    next
      case False
      then have pos: "0 < c" "0 < t" "c \<le> t" using t nn by simp_all
      let ?y = "ddiv E (dtimes E d c) t"
      let ?x = "d * c / t"
      have d1: "m4 d" "d < 10 ^ 14" using Cons.prems(1,2) by (simp_all add: money_def)
      have err: "\<bar>?y - ?x\<bar> < 1 / 30000"
        by (rule share_error [OF Cons.prems(2) d1(2) pos(1,3)])
      have y0: "0 \<le> ?y" using Cons.prems(2) pos by (simp add: dtimes_nonneg ddiv_nonneg)
      define x where "x = min c (min (dp4 E ?y) d)"
      have reach: "m \<le> dp4 E ?y" if "m4 m" "m \<le> ?x" for m
        by (rule dp4_reaches [OF that(1)]) (use err that(2) in linarith)
      have mx: "m4 x" unfolding x_def using c(1) d1(1) by (intro places_min) simp_all
      have x: "0 \<le> x" "x \<le> c" "x \<le> d"
        using c(2) Cons.prems(2) dp4_nonneg [OF y0] by (simp_all add: x_def)
      have ded: "dp4 E x = x" using mx by simp
      have my: "money x" by (rule money_shrink [OF Cons.prems(1) mx]) (use x in simp)
      have md: "money (d - x)" using Cons.prems(1) my x by (auto intro: money_diff)
      have nd: "dp4 E (dminus E d x) = d - x" using Cons.prems(1) my md by (simp add: dminus_money money_m4)
      have mcs: "m4 (sum_list cs)" using places_sum_list [of cs 4 "\<lambda>x. x"] cs by simp
      have "wide (t - c)" by (rule wideI) (use t mcs nn Cons.prems(5) c in auto)
      then have nt: "dp4 E (dminus E t c) = sum_list cs" using mcs t by (simp add: dminus_exact)
      have "min d t = x + min (d - x) (sum_list cs)"
      proof (cases "t \<le> d")
        case True
        then have "c * t \<le> d * c" using pos by (simp add: mult.commute)
        then have "c \<le> ?x" using pos by (simp add: pos_le_divide_eq)
        from reach [OF c(1) this] have "x = c" using True pos by (simp add: x_def)
        then show ?thesis using True t by simp
      next
        case False
        have "0 \<le> (t - d) * (t - c)" using False pos by (intro mult_nonneg_nonneg) auto
        then have "(d - sum_list cs) * t \<le> d * c" by (simp add: t algebra_simps)
        then have "d - sum_list cs \<le> ?x" using pos by (simp add: pos_le_divide_eq)
        moreover have "m4 (d - sum_list cs)" using d1(1) mcs by (rule places_diff)
        ultimately have "d - sum_list cs \<le> dp4 E ?y" by (intro reach)
        then have "d - sum_list cs \<le> x" using False t nn by (simp add: x_def)
        then show ?thesis using False by simp
      qed
      moreover have "sum_list (shareOut E (d - x) (sum_list cs) cs) = min (d - x) (sum_list cs) \<and>
          length (shareOut E (d - x) (sum_list cs) cs) = length cs \<and>
          (\<forall>p \<in> set (zip (shareOut E (d - x) (sum_list cs) cs) cs). m4 (fst p) \<and> 0 \<le> fst p \<and> fst p \<le> snd p)"
        by (rule Cons.IH [OF md _ cs refl]) (use x t Cons.prems(5) c in auto)
      moreover have "shareOut E d t (c # cs) = x # shareOut E (d - x) (sum_list cs) cs"
        using d pos by (simp add: Let_def x_def [symmetric] ded nd nt)
      ultimately show ?thesis using mx x by simp
    qed
  qed
qed

end

section \<open>Lemmas: one guarantor\<close>

text \<open>A reference without a transaction has no entry either: the run's attempt id is new.\<close>

definition attempt_backed :: "db \<Rightarrow> ident \<Rightarrow> ident \<Rightarrow> ident \<Rightarrow> bool" where
  "attempt_backed s t l att \<longleftrightarrow> (\<forall>k. transactionByReference s t (guarantorForfeitureReference t l k att) = None \<longrightarrow>
     no_entry s t (guarantorForfeitureReference t l k att))"

definition funded :: "db \<Rightarrow> bool" where
  "funded s \<longleftrightarrow> (\<forall>a \<in> set (accounts s). 0 \<le> acc_balance a \<and> 0 \<le> acc_frozenSavings a)"

definition account_key :: "account \<Rightarrow> ident \<times> ident \<times> AccountType" where
  "account_key a = (acc_id a, acc_tenantId a, acc_accountType a)"

definition total_balance :: "db \<Rightarrow> rat" where
  "total_balance s = sum_list (map acc_balance (accounts s))"

text \<open>What a guarantor loses: \<open>x\<close> from balance and hold, booked, and added to what it has paid.\<close>

definition taken :: "ident \<Rightarrow> ident \<Rightarrow> ident \<Rightarrow> guarantor \<Rightarrow> rat \<Rightarrow> db \<Rightarrow> db \<Rightarrow> bool" where
  "taken t l att g x s s' \<longleftrightarrow> m4 x \<and> 0 \<le> x \<and> wf_db s' \<and> (\<forall>y. gl_agrees s y \<longrightarrow> gl_agrees s' y) \<and>
     attempt_backed s' t l att \<and> loans s' = loans s \<and>
     map account_key (accounts s') = map account_key (accounts s) \<and> total_balance s' = total_balance s - x \<and>
     (funded s \<longrightarrow> funded s') \<and>
     (\<exists>h Q. (\<forall>y. Q y \<longrightarrow> lg_id y = lg_id g) \<and> guarantors s' = map (\<lambda>y. if Q y
        then y\<lparr>lg_recoveredAmount := lg_recoveredAmount y + x, lg_holdReleasedAt := h y\<rparr> else y) (guarantors s))"

lemma taken_nothing: "wf_db s \<Longrightarrow> attempt_backed s t l att \<Longrightarrow> taken t l att g 0 s s"
  unfolding taken_def by (auto intro!: exI [of _ "\<lambda>_. None"] exI [of _ "\<lambda>_. False"])

context decimal_runtime
begin

lemma forfeiture_taken:
  assumes upd: "updateAccounts P f s = Inr (n, s1)" and guar: "updateGuarantors Q q s1 = Inr (m, s2)"
    and tx: "createTransaction E row s2 = Inr (txn, s3)"
    and post: "postGuarantorForfeitureEntry E s3 t ref x ty (tx_id txn) actor = Inr (e, s4)"
    and wf: "wf_db s" and a: "a \<in> set (accounts s)" "P a" "acc_tenantId a = t" "acc_accountType a = ty"
    and P: "\<And>y. P y \<Longrightarrow> acc_id y = acc_id a"
    and f: "\<And>y. account_key (f y) = account_key y" "acc_lockedBalance (f a) = acc_lockedBalance a"
      "acc_minimumBalance (f a) = acc_minimumBalance a"
    and m: "acc_balance (f a) = acc_balance a - x" "acc_frozenSavings (f a) = acc_frozenSavings a - x"
    and row: "tx_tenantId row = t" "tx_reference row = ref" "m4 (tx_amount row)" "m4 (tx_balanceBefore row)"
      "m4 (tx_balanceAfter row)"
    and x: "m4 x" "0 \<le> x" "x \<le> acc_balance a" "x \<le> acc_frozenSavings a"
    and ref: "ref = guarantorForfeitureReference t l k att" and new: "transactionByReference s t ref = None"
    and backed: "attempt_backed s t l att"
    and Q: "\<And>y. Q y \<Longrightarrow> lg_id y = lg_id g"
      "q = (\<lambda>y. y\<lparr>lg_recoveredAmount := lg_recoveredAmount y + x, lg_holdReleasedAt := h y\<rparr>)"
  shows "taken t l att g x s (writeAudit t' u' act ent s4)"
proof -
  obtain e1 r where post': "postGlOnlyLegEntry E s3 t ref leg.PRINCIPAL x (memberDepositsCode ty) (tx_id txn) actor
      JournalEntryType.LOAN_REPAYMENT = Inr ((e1, r), s4)"
    using post by (cases e) (simp add: postGuarantorForfeitureEntry_def)
  have keys: "acc_id (f y) = acc_id y" "acc_tenantId (f y) = acc_tenantId y" "acc_accountType (f y) = acc_accountType y" for y
    using f(1) [of y] by (simp_all add: account_key_def)
  have wa: "wf_account a" using wf a(1) by (simp add: wf_db_def wf_accounts_def)
  then have am: "m4 (acc_balance a)" "m4 (acc_lockedBalance a)" "m4 (acc_frozenSavings a)" "m4 (acc_minimumBalance a)"
    by (simp_all add: wf_account_def money_m4)
  have d: "distinct (map acc_id (accounts s))" using wf by (simp add: wf_db_def wf_accounts_def)
  have no: "no_entry s t ref" using backed new by (simp add: attempt_backed_def ref)
  have eff: "wf_db s4 \<and> (\<forall>y. gl_agrees s y \<longrightarrow> gl_agrees s4 y) \<and>
    accounts s4 = map (\<lambda>y. if acc_id y = acc_id a then f a else y) (accounts s) \<and>
    guarantors s4 = map (\<lambda>y. if Q y then q y else y) (guarantors s) \<and> loans s4 = loans s \<and>
    transactions s4 = transactions s @ [txn] \<and> tx_tenantId txn = t \<and> tx_reference txn = ref \<and>
    (\<forall>ref'. no_entry s t ref' \<longrightarrow> ref' \<noteq> ref \<longrightarrow> no_entry s4 t ref')"
    by (rule taken_from_account [OF upd guar tx post' wf a P keys _ _ _ _ m(1) row x(1) no])
      (use am f m x in \<open>simp_all add: places_diff\<close>)
  then have acc: "accounts s4 = map (\<lambda>y. if acc_id y = acc_id a then f a else y) (accounts s)" by blast
  have same: "y = a" if "y \<in> set (accounts s)" "acc_id y = acc_id a" for y
    using that a(1) d by (auto intro: distinct_key_eq)
  have "map account_key (accounts s4) = map account_key (accounts s)"
    using f(1) same by (auto simp: acc)
  moreover have "total_balance s4 = total_balance s - x"
    unfolding total_balance_def acc
    using sum_list_update_key [of acc_id "accounts s" a "\<lambda>y. acc_id y = acc_id a" "acc_id a" acc_balance "\<lambda>_. f a"]
      d a(1) m(1) by simp
  moreover have "funded s \<longrightarrow> funded s4"
    using m x(3,4) by (auto simp: funded_def acc)
  moreover have "attempt_backed s4 t l att"
  proof (unfold attempt_backed_def, intro allI impI)
    fix k'
    assume none: "transactionByReference s4 t (guarantorForfeitureReference t l k' att) = None"
    then have "k' \<noteq> k" "transactionByReference s t (guarantorForfeitureReference t l k' att) = None"
      using eff by (auto simp: transactionByReference_def findFirst_append ref split: option.splits if_splits)
    then show "no_entry s4 t (guarantorForfeitureReference t l k' att)"
      using backed eff by (simp add: attempt_backed_def ref)
  qed
  moreover have "\<exists>h Q. (\<forall>y. Q y \<longrightarrow> lg_id y = lg_id g) \<and> guarantors s4 = map (\<lambda>y. if Q y
        then y\<lparr>lg_recoveredAmount := lg_recoveredAmount y + x, lg_holdReleasedAt := h y\<rparr> else y) (guarantors s)"
    using eff Q by (intro exI [of _ h] exI [of _ Q]) simp
  ultimately have "taken t l att g x s s4" using eff x(1,2) unfolding taken_def by blast
  moreover have "attempt_backed (writeAudit t' u' act ent s4) = attempt_backed s4"
    by (simp add: attempt_backed_def fun_eq_iff writeAudit_def transactionByReference_def no_entry_def)
  moreover have "funded (writeAudit t' u' act ent s4) = funded s4" "total_balance (writeAudit t' u' act ent s4) = total_balance s4"
    by (simp_all add: funded_def total_balance_def writeAudit_def)
  ultimately show ?thesis by (simp add: taken_def) (simp add: writeAudit_def)
qed

end

context decimal_runtime
begin

lemma recoverOne_taken:
  assumes run: "recoverOne E now t l u att ty (so_far, s) al = Inr (so_far', s')"
    and wf: "wf_db s" and backed: "attempt_backed s t l att"
    and acc: "\<And>b. ra_account al = Some b \<Longrightarrow> (acc_id b, t, ty) \<in> set (map account_key (accounts s))"
    and ded: "m4 (ra_deduction al)" "0 \<le> ra_deduction al"
    and tot: "m4 so_far" "0 \<le> so_far" "so_far + ra_deduction al < 10 ^ 15"
  shows "\<exists>x. x \<le> ra_deduction al \<and> so_far' = so_far + x \<and> taken t l att (ra_guarantor al) x s s'"
proof -
  have idle: "taken t l att (ra_guarantor al) 0 s s" by (rule taken_nothing [OF wf backed])
  have none: ?thesis if "(so_far', s') = (so_far, s)"
  proof (rule exI [of _ 0], intro conjI)
    have "s' = s" "so_far' = so_far" using that by simp_all
    then show "0 \<le> ra_deduction al" "so_far' = so_far + 0" using ded(2) by simp_all
    show "taken t l att (ra_guarantor al) 0 s s'" unfolding \<open>s' = s\<close> by (rule idle)
  qed
  show ?thesis
  proof (cases "ra_deduction al = 0 \<or> ra_account al = None")
    case True
    then have "recoverOne E now t l u att ty (so_far, s) al = Inr (so_far, s)"
      by (elim disjE) (simp_all add: recoverOne_def)
    then have "(so_far', s') = (so_far, s)" using run by simp
    then show ?thesis by (rule none)
  next
    case False
    then obtain b where b: "ra_account al = Some b" and nz: "ra_deduction al \<noteq> 0" by auto
    define ref where "ref = guarantorForfeitureReference t l (acc_id b) att"
    note run = run [unfolded recoverOne_def Let_def prod.case if_not_P [OF nz] b option.case, folded ref_def]
    show ?thesis
    proof (cases "transactionByReference s t ref = None")
      case False
      then have "(so_far', s') = (so_far, s)" using run by simp
      then show ?thesis by (rule none)
    next
      case new: True
      then have nnew: "\<not> transactionByReference s t ref \<noteq> None" by simp
      note run = run [unfolded if_not_P [OF nnew]]
      from run obtain a where fa: "findFirst (\<lambda>a. acc_id a = acc_id b) (accounts s) = Some a"
        by (auto simp: res_simps)
      note run = run [unfolded fa required_Some rbind.simps]
      from findFirst_Some [OF fa] have a: "a \<in> set (accounts s)" "acc_id a = acc_id b" by simp_all
      have d: "distinct (map acc_id (accounts s))" using wf by (simp add: wf_db_def wf_accounts_def)
      obtain c where c: "c \<in> set (accounts s)" "acc_id c = acc_id b" "acc_tenantId c = t" "acc_accountType c = ty"
        using acc [OF b] by (auto simp: account_key_def)
      have "c = a" by (rule distinct_key_eq [OF d c(1) a(1)]) (simp add: a(2) c(2))
      then have aty: "acc_tenantId a = t" "acc_accountType a = ty" using c by simp_all
      have wa: "wf_account a" using wf a(1) by (simp add: wf_db_def wf_accounts_def)
      then have am: "money (acc_balance a)" "money (acc_frozenSavings a)" by (simp_all add: wf_account_def)
      define x where "x = min (ra_deduction al) (min (acc_balance a) (acc_frozenSavings a))"
      have mx: "m4 x" unfolding x_def using am ded by (intro places_min) (simp_all add: money_m4)
      have xx: "dp4 E (min (ra_deduction al) (min (acc_balance a) (acc_frozenSavings a))) = x"
        using mx by (simp add: x_def)
      note run = run [unfolded xx]
      show ?thesis
      proof (cases "x \<le> 0")
        case True
        then have "(so_far', s') = (so_far, s)" using run by simp
        then show ?thesis by (rule none)
      next
        case pos: False
        have x: "0 \<le> x" "x \<le> ra_deduction al" "x \<le> acc_balance a" "x \<le> acc_frozenSavings a"
          using pos unfolding x_def by linarith+
        have "money x" by (rule money_shrink [OF am(1) mx]) (use x in simp)
        then have after: "dp4 E (dminus E (acc_balance a) x) = acc_balance a - x"
          using am(1) x money_m4 by (simp add: dminus_money places_diff money_m4)
        have before: "dp4 E (acc_balance a) = acc_balance a" using am(1) by (simp add: money_m4)
        have tx: "dplus E so_far x = so_far + x"
          by (rule dplus_exact, rule wideI) (use tot mx x in \<open>auto intro: places_add\<close>)
        note run = run [unfolded if_not_P [OF pos] after before tx]
        let ?P = "\<lambda>y. acc_id y = acc_id b \<and> acc_tenantId y = t \<and> acc_isActive y \<and> acc_version y = acc_version a"
        let ?f = "\<lambda>y. y\<lparr>acc_balance := acc_balance a - x, acc_frozenSavings := acc_frozenSavings y - x,
          acc_version := acc_version y + 1\<rparr>"
        let ?Q = "\<lambda>y. lg_id y = lg_id (ra_guarantor al) \<and> lg_tenantId y = t \<and> lg_status y = GuarantorStatus.ACCEPTED"
        let ?h = "\<lambda>y. if dp4 E (dminus E (acc_frozenSavings a) x) \<le> 0 then Some now else lg_holdReleasedAt y"
        from run obtain n s1 where upd: "updateAccounts ?P ?f s = Inr (n, s1)" by (rule rbind_Inr_pairE)
        note run = run [unfolded upd rbind.simps prod.case]
        from run have n: "n = 1" by (auto simp: res_simps)
        note run = run [unfolded n ensure_def if_True rbind.simps simp_thms]
        from run obtain m s2 where guar: "updateGuarantors ?Q (\<lambda>y. y\<lparr>lg_recoveredAmount := lg_recoveredAmount y + x,
            lg_holdReleasedAt := ?h y\<rparr>) s1 = Inr (m, s2)" by (rule rbind_Inr_pairE)
        note run = run [unfolded guar rbind.simps prod.case]
        from run have m: "m = 1" by (auto simp: res_simps split: if_splits)
        note run = run [unfolded m if_True rbind.simps simp_thms]
        from run obtain txn s3 where tx: "createTransaction E
            \<lparr>tx_id = '''', tx_tenantId = t, tx_accountId = acc_id b, tx_loanId = Some l,
             tx_type = TransactionType.LOAN_REPAYMENT, tx_status = TransactionStatus.COMPLETED,
             tx_amount = x, tx_balanceBefore = acc_balance a, tx_balanceAfter = acc_balance a - x,
             tx_reference = ref, tx_processedBy = u, tx_linkedTransactionId = None\<rparr> s2 = Inr (txn, s3)"
          by (rule rbind_Inr_pairE)
        note run = run [unfolded tx rbind.simps prod.case]
        from run obtain e s4 where post: "postGuarantorForfeitureEntry E s3 t ref x ty (tx_id txn) (Some u) = Inr (e, s4)"
          by (rule rbind_Inr_pairE)
        note run = run [unfolded post rbind.simps prod.case]
        have "filter ?P (accounts s) \<noteq> []" using upd n by (auto simp: updateAccounts_Inr)
        then obtain z where z: "z \<in> set (accounts s)" "?P z" by (auto simp: filter_empty_conv)
        have "z = a" by (rule distinct_key_eq [OF d z(1) a(1)]) (use z a in simp)
        with z have Pa: "?P a" by simp
        have "taken t l att (ra_guarantor al) x s (writeAudit t u ''AUDIT_RECOVERY'' (lg_id (ra_guarantor al)) s4)"
          by (rule forfeiture_taken [OF upd guar tx post wf a(1) Pa aty _ _ _ _ _ _ _ _ _ _ _ mx x(1,3,4) ref_def new backed _ refl])
            (use a am mx in \<open>simp_all add: account_key_def money_m4 places_diff\<close>)
        moreover have "so_far' = so_far + x" "s' = writeAudit t u ''AUDIT_RECOVERY'' (lg_id (ra_guarantor al)) s4"
          using run by simp_all
        ultimately show ?thesis using x(2) by blast
      qed
    qed
  qed
qed

end

section \<open>Lemmas: capacities\<close>

definition within_guarantee :: "db \<Rightarrow> bool" where
  "within_guarantee s \<longleftrightarrow> (\<forall>g \<in> set (guarantors s). lg_recoveredAmount g \<le> lg_guaranteedAmount g)"

context decimal_runtime
begin

lemma dp4_stays:
  assumes "m4 m" and "y < m + 1 / 20000"
  shows "dp4 E y \<le> m"
proof -
  have "- m \<le> dp4 E (- y)" by (rule dp4_reaches) (use assms in \<open>auto intro: places_minus\<close>)
  then show ?thesis by (simp add: dec_places_half_up half_up_minus)
qed

text \<open>Scaling by a ratio below one never rounds an amount up past itself.\<close>

lemma scaled_le:
  assumes "money r" "0 \<le> r" and "0 \<le> o'" "o' < h"
  shows "0 \<le> dp4 E (dtimes E r (ddiv E o' h))" and "dp4 E (dtimes E r (ddiv E o' h)) \<le> r"
proof -
  let ?q = "ddiv E o' h"
  have q0: "0 \<le> o' / h" "o' / h \<le> 1" using assms(3,4) by (auto simp: divide_le_eq)
  have "\<bar>?q - o' / h\<bar> \<le> \<bar>o' / h\<bar> / 10 ^ 19" unfolding ddiv_def by (rule sig_error)
  also have "\<dots> \<le> 1 / 10 ^ 19" using q0 by (intro divide_right_mono) auto
  finally have "\<bar>?q - o' / h\<bar> \<le> 1 / 10 ^ 19" .
  then have q: "0 \<le> ?q" "?q \<le> 1 + 1 / 10 ^ 19"
    using q0 ddiv_nonneg [of o' h] assms(3,4) by linarith+
  then show "0 \<le> dp4 E (dtimes E r ?q)" using assms(2) by (intro dp4_nonneg dtimes_nonneg)
  have r: "m4 r" "r < 10 ^ 14" using assms(1,2) by (simp_all add: money_def)
  have "r * ?q \<le> r * (1 + 1 / 10 ^ 19)" using q(2) assms(2) by (intro mult_left_mono)
  then have rq: "r * ?q \<le> r + r / 10 ^ 19" by (simp add: algebra_simps)
  have "\<bar>dtimes E r ?q - r * ?q\<bar> \<le> \<bar>r * ?q\<bar> / 10 ^ 19" using sig_error by (simp add: dtimes_def)
  moreover have "\<bar>r * ?q\<bar> \<le> 2 * r" using rq q(1) assms(2) by simp
  then have "\<bar>r * ?q\<bar> / 10 ^ 19 \<le> 2 * r / 10 ^ 19" by (intro divide_right_mono) auto
  ultimately have le: "dtimes E r ?q \<le> r + 3 * r / 10 ^ 19" using rq by linarith
  have "3 * r / 10 ^ 19 < 1 / 20000" using r(2) by simp
  with le have "dtimes E r ?q < r + 1 / 20000" by linarith
  then show "dp4 E (dtimes E r ?q) \<le> r" by (rule dp4_stays [OF r(1)])
qed

lemma recoveryCapacity_bounds:
  assumes g: "money (lg_guaranteedAmount g)" "money (lg_recoveredAmount g)" "0 \<le> lg_recoveredAmount g"
      "lg_recoveredAmount g \<le> lg_guaranteedAmount g"
    and out: "0 \<le> outstanding"
    and acc: "\<And>a. account = Some a \<Longrightarrow> money (acc_balance a) \<and> money (acc_frozenSavings a) \<and>
      0 \<le> acc_balance a \<and> 0 \<le> acc_frozenSavings a"
  shows "m4 (recoveryCapacity E h outstanding account g) \<and> 0 \<le> recoveryCapacity E h outstanding account g \<and>
    recoveryCapacity E h outstanding account g < 10 ^ 14 \<and>
    recoveryCapacity E h outstanding account g \<le> lg_guaranteedAmount g - lg_recoveredAmount g"
proof -
  define r where "r = lg_guaranteedAmount g - lg_recoveredAmount g"
  have r: "dminus E (lg_guaranteedAmount g) (lg_recoveredAmount g) = r" "money r" "0 \<le> r"
    using g by (simp_all add: r_def dminus_money money_diff)
  define c where "c = (if 0 < h \<and> outstanding < h then dp4 E (dtimes E r (ddiv E outstanding h)) else r)"
  have c: "m4 c" "0 \<le> c" "c \<le> r"
    using scaled_le [OF r(2,3) out] r(2,3) by (auto simp: c_def money_m4)
  define k where "k = (case account of None \<Rightarrow> 0 | Some a \<Rightarrow> min (acc_balance a) (acc_frozenSavings a))"
  have k: "m4 k" "0 \<le> k"
    using acc by (auto simp: k_def money_m4 intro: places_min split: option.splits)
  have "recoveryCapacity E h outstanding account g = dp4 E (min c k)"
    by (simp only: recoveryCapacity_def Let_def r(1) c_def k_def)
  also have "\<dots> = min c k" by (rule dp4_exact) (use c(1) k(1) in \<open>rule places_min\<close>)
  finally have eq: "recoveryCapacity E h outstanding account g = min c k" .
  have "r < 10 ^ 14" using r(2,3) by (simp add: money_def)
  moreover have "m4 (min c k)" using c(1) k(1) by (rule places_min)
  ultimately show ?thesis using c k unfolding eq r_def [symmetric] by auto
qed

lemma sum_capacities_fit:
  assumes "\<And>c. c \<in> set cs \<Longrightarrow> c < (10 ^ 14 :: rat)" and "length cs \<le> 99"
  shows "sum_list cs < 10 ^ 16"
proof -
  have "sum_list cs \<le> of_nat (length cs) * 10 ^ 14"
    using assms(1) by (induction cs) (auto simp: algebra_simps intro: less_imp_le add_mono)
  also have "\<dots> \<le> 99 * 10 ^ 14" using assms(2) by (intro mult_right_mono) auto
  finally show ?thesis by simp
qed

text \<open>The hypotheses on the database that make capacities non-negative amounts.\<close>

lemma allocateRecovery_shares:
  fixes t :: ident and ty :: AccountType
  assumes wf: "wf_db s" "wf_guarantors s" "funded s" "within_guarantee s"
    and gs: "set gs \<subseteq> set (guarantors s)" "length gs \<le> 99"
    and d: "money (dp4 E d)" "0 \<le> d" and out: "0 \<le> outstanding"
  defines "cap \<equiv> \<lambda>g. recoveryCapacity E (dsum E lg_guaranteedAmount gs) outstanding
      (memberAccount s t ty (map lg_memberId gs) (lg_memberId g)) g"
  defines "als \<equiv> allocateRecovery E s t gs ty d outstanding"
  shows "sum_list (map ra_deduction als) = min (dp4 E d) (sum_list (map cap gs))"
    and "map ra_guarantor als = gs"
    and "\<And>al. al \<in> set als \<Longrightarrow> m4 (ra_deduction al) \<and> 0 \<le> ra_deduction al \<and>
      ra_deduction al \<le> cap (ra_guarantor al) \<and>
      ra_deduction al \<le> lg_guaranteedAmount (ra_guarantor al) - lg_recoveredAmount (ra_guarantor al)"
    and "\<And>al b. al \<in> set als \<Longrightarrow> ra_account al = Some b \<Longrightarrow> (acc_id b, t, ty) \<in> set (map account_key (accounts s))"
proof -
  have cap: "m4 (cap g) \<and> 0 \<le> cap g \<and> cap g < 10 ^ 14 \<and> cap g \<le> lg_guaranteedAmount g - lg_recoveredAmount g"
    if "g \<in> set gs" for g
    unfolding cap_def
  proof (rule recoveryCapacity_bounds [OF _ _ _ _ out])
    have "g \<in> set (guarantors s)" using that gs(1) by blast
    then show "money (lg_guaranteedAmount g)" "money (lg_recoveredAmount g)" "0 \<le> lg_recoveredAmount g"
      "lg_recoveredAmount g \<le> lg_guaranteedAmount g"
      using wf(2,4) by (simp_all add: wf_guarantors_def within_guarantee_def)
    fix a
    assume "memberAccount s t ty (map lg_memberId gs) (lg_memberId g) = Some a"
    then have "a \<in> set (accounts s)" by (rule memberAccount_Some)
    then show "money (acc_balance a) \<and> money (acc_frozenSavings a) \<and> 0 \<le> acc_balance a \<and> 0 \<le> acc_frozenSavings a"
      using wf(1,3) by (auto simp: wf_db_def wf_accounts_def wf_account_def funded_def)
  qed
  let ?cs = "map cap gs"
  have cs: "\<And>c. c \<in> set ?cs \<Longrightarrow> m4 c \<and> 0 \<le> c" using cap by auto
  have fit: "sum_list ?cs < 10 ^ 16"
    by (rule sum_capacities_fit) (use cap gs(2) in auto)
  have tot: "dsum E (\<lambda>c. c) ?cs = sum_list ?cs"
    using dsum_exact [of ?cs "\<lambda>c. c"] cs fit by simp
  define ds where "ds = shareOut E (dp4 E d) (sum_list ?cs) ?cs"
  have ds: "sum_list ds = min (dp4 E d) (sum_list ?cs) \<and> length ds = length ?cs \<and>
    (\<forall>x \<in> set (zip ds ?cs). m4 (fst x) \<and> 0 \<le> fst x \<and> fst x \<le> snd x)"
    unfolding ds_def by (rule shareOut_complete [OF d(1) dp4_nonneg [OF d(2)] cs refl fit])
  have als: "als = map (\<lambda>(g, x). \<lparr>ra_guarantor = g, ra_deduction = x,
      ra_account = memberAccount s t ty (map lg_memberId gs) (lg_memberId g)\<rparr>) (zip gs ds)"
    by (unfold als_def allocateRecovery_def Let_def ds_def tot [symmetric], unfold cap_def, rule refl)
  have len: "length gs = length ds" using ds by simp
  have "map ra_deduction als = map snd (zip gs ds)" "map ra_guarantor als = map fst (zip gs ds)"
    by (simp_all add: als split_def)
  then show "sum_list (map ra_deduction als) = min (dp4 E d) (sum_list (map cap gs))" "map ra_guarantor als = gs"
    by (simp_all only: map_fst_zip [OF len] map_snd_zip [OF len] conjunct1 [OF ds])
  show "m4 (ra_deduction al) \<and> 0 \<le> ra_deduction al \<and> ra_deduction al \<le> cap (ra_guarantor al) \<and>
      ra_deduction al \<le> lg_guaranteedAmount (ra_guarantor al) - lg_recoveredAmount (ra_guarantor al)"
    if "al \<in> set als" for al
  proof -
    from that obtain i where i: "i < length gs" "ra_guarantor al = gs ! i" "ra_deduction al = ds ! i"
      using len by (auto simp: als set_zip)
    then have "(ds ! i, ?cs ! i) \<in> set (zip ds ?cs)" using len by (auto simp: set_zip)
    with ds have "m4 (ds ! i) \<and> 0 \<le> ds ! i \<and> ds ! i \<le> ?cs ! i" by fastforce
    then show ?thesis using i cap [of "gs ! i"] by auto
  qed
  show "(acc_id b, t, ty) \<in> set (map account_key (accounts s))" if "al \<in> set als" "ra_account al = Some b" for al b
  proof -
    from that(1) [unfolded als set_map] obtain p where "al = (case p of (g, x) \<Rightarrow> \<lparr>ra_guarantor = g,
        ra_deduction = x, ra_account = memberAccount s t ty (map lg_memberId gs) (lg_memberId g)\<rparr>)"
      by (rule imageE)
    then have "ra_account al = memberAccount s t ty (map lg_memberId gs) (lg_memberId (fst p))"
      by (simp add: split_def)
    then have "memberAccount s t ty (map lg_memberId gs) (lg_memberId (fst p)) = Some b" using that(2) by simp
    from memberAccount_Some [OF this] show ?thesis by (auto simp: account_key_def intro!: image_eqI [of _ _ b])
  qed
qed

end

section \<open>Lemmas: the run\<close>

lemma taken_mono:
  assumes "taken t l att g x s s'" and "attempt_backed s t l att"
  shows "wf_db s'" "\<And>y. gl_agrees s y \<Longrightarrow> gl_agrees s' y" "attempt_backed s' t l att" "loans s' = loans s"
    "set (map account_key (accounts s')) = set (map account_key (accounts s))"
    "total_balance s' = total_balance s - x" "funded s \<Longrightarrow> funded s'" "0 \<le> x" "m4 x"
    "map lg_id (guarantors s') = map lg_id (guarantors s)"
    "\<And>y. y \<in> set (guarantors s) \<Longrightarrow> lg_id y \<noteq> lg_id g \<Longrightarrow> y \<in> set (guarantors s')"
    "\<lbrakk>distinct (map lg_id (guarantors s)); g \<in> set (guarantors s); x \<le> lg_guaranteedAmount g - lg_recoveredAmount g;
      within_guarantee s\<rbrakk> \<Longrightarrow> within_guarantee s'"
proof -
  from assms(1) obtain h Q where Q: "\<And>y. Q y \<Longrightarrow> lg_id y = lg_id g"
    and gs: "guarantors s' = map (\<lambda>y. if Q y
        then y\<lparr>lg_recoveredAmount := lg_recoveredAmount y + x, lg_holdReleasedAt := h y\<rparr> else y) (guarantors s)"
    by (auto simp: taken_def)
  show "wf_db s'" "\<And>y. gl_agrees s y \<Longrightarrow> gl_agrees s' y" "attempt_backed s' t l att" "loans s' = loans s"
    "set (map account_key (accounts s')) = set (map account_key (accounts s))"
    "total_balance s' = total_balance s - x" "funded s \<Longrightarrow> funded s'" "0 \<le> x" "m4 x"
    using assms(1) unfolding taken_def by (simp_all only: simp_thms)
  show "map lg_id (guarantors s') = map lg_id (guarantors s)" by (simp add: gs)
  show "\<And>y. y \<in> set (guarantors s) \<Longrightarrow> lg_id y \<noteq> lg_id g \<Longrightarrow> y \<in> set (guarantors s')"
    using Q by (force simp: gs)
  assume d: "distinct (map lg_id (guarantors s))" "g \<in> set (guarantors s)"
    and x: "x \<le> lg_guaranteedAmount g - lg_recoveredAmount g" and w: "within_guarantee s"
  have "y = g" if "y \<in> set (guarantors s)" "Q y" for y
    by (rule distinct_key_eq [OF d(1) that(1) d(2) Q [OF that(2)]])
  then show "within_guarantee s'" using x w by (auto simp: within_guarantee_def gs)
qed

text \<open>
  The contract of a loop that charges guarantors one after the other, whatever it carries along: each
  turn takes at most the bound of its guarantor. Recovery and default offset are such loops.
\<close>

locale guarantor_charge =
  fixes step :: "'st \<times> db \<Rightarrow> 'i \<Rightarrow> ('st \<times> db) res"
    and amount_of :: "'st \<Rightarrow> rat" and guarantor_of :: "'i \<Rightarrow> guarantor" and bound :: "'i \<Rightarrow> rat"
    and fits :: "'i \<Rightarrow> (ident \<times> ident \<times> AccountType) set \<Rightarrow> bool" and t l att :: ident
  assumes step_taken:
    "\<lbrakk>step (st, s) i = Inr (st', s'); wf_db s; attempt_backed s t l att;
      fits i (set (map account_key (accounts s))); m4 (bound i); 0 \<le> bound i;
      m4 (amount_of st); 0 \<le> amount_of st; amount_of st + bound i < 10 ^ 15\<rbrakk> \<Longrightarrow>
     \<exists>x. x \<le> bound i \<and> amount_of st' = amount_of st + x \<and> taken t l att (guarantor_of i) x s s'"
begin

lemma charge_all:
  assumes "foldM step (st, s) is = Inr (st', s')"
    and "wf_db s" and "attempt_backed s t l att"
    and "\<And>i. i \<in> set is \<Longrightarrow> fits i (set (map account_key (accounts s)))"
    and "\<And>i. i \<in> set is \<Longrightarrow> m4 (bound i) \<and> 0 \<le> bound i \<and>
      bound i \<le> lg_guaranteedAmount (guarantor_of i) - lg_recoveredAmount (guarantor_of i) \<and>
      guarantor_of i \<in> set (guarantors s)"
    and "m4 (amount_of st)" "0 \<le> amount_of st" "amount_of st + sum_list (map bound is) < 10 ^ 15"
    and "distinct (map lg_id (guarantors s))" "distinct (map (\<lambda>i. lg_id (guarantor_of i)) is)"
    and "within_guarantee s"
  shows "amount_of st \<le> amount_of st' \<and> amount_of st' \<le> amount_of st + sum_list (map bound is) \<and>
    m4 (amount_of st') \<and> wf_db s' \<and> (\<forall>y. gl_agrees s y \<longrightarrow> gl_agrees s' y) \<and> loans s' = loans s \<and>
    total_balance s' = total_balance s - (amount_of st' - amount_of st) \<and> (funded s \<longrightarrow> funded s') \<and>
    within_guarantee s'"
  using assms
proof (induction "is" arbitrary: st s)
  case Nil
  then show ?case by simp
next
  case (Cons i "is")
  note bnd = Cons.prems(5) [of i, simplified]
  have rest: "0 \<le> sum_list (map bound is)"
    by (rule sum_list_nonneg) (use Cons.prems(5) in auto)
  from Cons.prems(1) obtain st1 s1 where one: "step (st, s) i = Inr (st1, s1)"
    and more: "foldM step (st1, s1) is = Inr (st', s')"
    by (auto simp: res_simps)
  have fit: "fits i (set (map account_key (accounts s)))" by (rule Cons.prems(4)) simp
  have "amount_of st + bound i < 10 ^ 15" using Cons.prems(8) rest by simp
  from step_taken [OF one Cons.prems(2,3) fit _ _ Cons.prems(6,7) this] bnd
  obtain x where x: "x \<le> bound i" "amount_of st1 = amount_of st + x" and tk: "taken t l att (guarantor_of i) x s s1"
    by blast
  note mono = taken_mono [OF tk Cons.prems(3)]
  have ids: "lg_id (guarantor_of j) \<noteq> lg_id (guarantor_of i)" if "j \<in> set is" for j
    using that Cons.prems(10) by (auto simp: image_iff)
  have "amount_of st1 \<le> amount_of st' \<and> amount_of st' \<le> amount_of st1 + sum_list (map bound is) \<and>
    m4 (amount_of st') \<and> wf_db s' \<and> (\<forall>y. gl_agrees s1 y \<longrightarrow> gl_agrees s' y) \<and> loans s' = loans s1 \<and>
    total_balance s' = total_balance s1 - (amount_of st' - amount_of st1) \<and> (funded s1 \<longrightarrow> funded s') \<and>
    within_guarantee s'"
  proof (rule Cons.IH [OF more mono(1,3)])
    show "m4 (amount_of st1)" unfolding x(2) using Cons.prems(6) mono(9) by (rule places_add)
    show "0 \<le> amount_of st1" using Cons.prems(7) mono(8) x(2) by simp
    show "amount_of st1 + sum_list (map bound is) < 10 ^ 15" using Cons.prems(8) x by simp
    show "distinct (map lg_id (guarantors s1))" using Cons.prems(9) by (simp only: mono(10))
    show "distinct (map (\<lambda>i. lg_id (guarantor_of i)) is)" using Cons.prems(10) by simp
    show "within_guarantee s1"
      by (rule mono(12) [OF Cons.prems(9) _ _ Cons.prems(11)]) (use bnd x in auto)
    fix j
    assume j: "j \<in> set is"
    show "fits j (set (map account_key (accounts s1)))"
      unfolding mono(5) by (rule Cons.prems(4)) (simp add: j)
    show "m4 (bound j) \<and> 0 \<le> bound j \<and>
      bound j \<le> lg_guaranteedAmount (guarantor_of j) - lg_recoveredAmount (guarantor_of j) \<and>
      guarantor_of j \<in> set (guarantors s1)"
      using Cons.prems(5) [of j] mono(11) [OF _ ids [OF j]] j by simp
  qed
  then show ?case using mono(2,4,6,7,8) x by auto
qed

end

definition allocation_fits :: "ident \<Rightarrow> AccountType \<Rightarrow> recovery_allocation \<Rightarrow> (ident \<times> ident \<times> AccountType) set \<Rightarrow> bool" where
  "allocation_fits t ty al keys \<longleftrightarrow> (\<forall>b. ra_account al = Some b \<longrightarrow> (acc_id b, t, ty) \<in> keys)"

sublocale decimal_runtime \<subseteq> recovering: guarantor_charge "recoverOne E now t l u att ty" "\<lambda>x. x" ra_guarantor
    ra_deduction "allocation_fits t ty" t l att for now t l u att ty
proof
  show "\<exists>x. x \<le> ra_deduction i \<and> st' = st + x \<and> taken t l att (ra_guarantor i) x s s'"
    if "recoverOne E now t l u att ty (st, s) i = Inr (st', s')" "wf_db s" "attempt_backed s t l att"
      "allocation_fits t ty i (set (map account_key (accounts s)))" "m4 (ra_deduction i)" "0 \<le> ra_deduction i"
      "m4 st" "0 \<le> st" "st + ra_deduction i < 10 ^ 15" for st s i st' s'
    by (rule recoverOne_taken [OF that(1-3) _ that(5-9)]) (use that(4) in \<open>simp add: allocation_fits_def\<close>)
qed

interpretation ref_recovering: guarantor_charge "recoverOne ref_env now t l u att ty" "\<lambda>x. x" ra_guarantor
    ra_deduction "allocation_fits t ty" t l att for now t l u att ty
  by (rule ref.recovering.guarantor_charge_axioms)

end
