(* ===== verification/Default_Offset.thy ===== *)
theory Default_Offset
  imports Guarantor_Recovery Loan_State_Machine
begin

text \<open>
  The nightly forfeiture of guarantees of non-performing loans:
  \<open>offsetLoan\<close> of \<open>src/src/modules/queue/processors/guarantor-default-offset.processor.ts\<close>.

  As in \<open>Guarantor_Recovery\<close>, \<open>locked\<close> says whether another run holds the lock of the loan. The
  notices carry the guarantor, the amount and what is left of the guarantee; the contact data of the
  guarantor and the sending of the notices are not modelled. The loan is read and written in one
  serial transaction, so the comparison of \<open>updatedAt\<close> always holds.
\<close>

section \<open>The code\<close>

record forfeiture_notice =
  fn_memberId :: ident
  fn_amountForfeited :: rat
  fn_remainingGuarantee :: rat

definition offsetOne ::
  "env \<Rightarrow> int \<Rightarrow> ident \<Rightarrow> ident \<Rightarrow> ident \<Rightarrow> (rat \<times> forfeiture_notice list) \<times> db \<Rightarrow> guarantor \<Rightarrow>
   ((rat \<times> forfeiture_notice list) \<times> db) res" where
  "offsetOne E now tenantId loanId attempt st g =
     (let ((totalForfeited, notices), s) = st in
      case accountFor s tenantId BOSA (lg_memberId g) of None \<Rightarrow> Inr st
      | Some account \<Rightarrow>
        (let remainingGuarantee = max (dminus E (lg_guaranteedAmount g) (lg_recoveredAmount g)) 0;
             balance = acc_balance account;
             frozenSavings = acc_frozenSavings account;
             amount = dp4 E (min remainingGuarantee (min balance frozenSavings)) in
         if amount \<le> 0 then Inr st
         else
           (let reference = guarantorForfeitureReference tenantId loanId (acc_id account) attempt in
            if transactionByReference s tenantId reference \<noteq> None then Inr st
            else
              (let balanceAfter = dp4 E (dminus E balance amount);
                   frozenAfter = dp4 E (dminus E frozenSavings amount) in
               rbind (updateAccounts (\<lambda>a. acc_id a = acc_id account \<and> acc_tenantId a = tenantId \<and>
                   acc_version a = acc_version account \<and> acc_balance a = balance \<and> acc_frozenSavings a = frozenSavings)
                 (\<lambda>a. a\<lparr>acc_balance := balanceAfter, acc_frozenSavings := frozenAfter,
                        acc_version := acc_version a + 1\<rparr>) s) (\<lambda>(count, s1).
               rbind (ensure (count = 1) (InternalError ''Account OCC update failed'')) (\<lambda>_.
               rbind (updateGuarantors (\<lambda>x. lg_id x = lg_id g \<and> lg_tenantId x = tenantId \<and>
                   lg_status x = GuarantorStatus.ACCEPTED \<and> lg_holdReleasedAt x = None)
                 (\<lambda>x. x\<lparr>lg_recoveredAmount := lg_recoveredAmount x + amount, lg_holdReleasedAt := Some now\<rparr>) s1)
                 (\<lambda>(_, s2).
               rbind (createTransaction E
                 \<lparr>tx_id = '''', tx_tenantId = tenantId, tx_accountId = acc_id account, tx_loanId = Some loanId,
                  tx_type = TransactionType.WITHDRAWAL, tx_status = TransactionStatus.COMPLETED,
                  tx_amount = amount, tx_balanceBefore = balance, tx_balanceAfter = balanceAfter,
                  tx_reference = reference, tx_processedBy = ''SYSTEM'', tx_linkedTransactionId = None\<rparr> s2)
                 (\<lambda>(txn, s3).
               rbind (postGuarantorForfeitureEntry E s3 tenantId reference amount BOSA (tx_id txn) None) (\<lambda>(_, s4).
               Inr ((dp4 E (dplus E totalForfeited amount),
                   notices @ [\<lparr>fn_memberId = lg_memberId g, fn_amountForfeited = amount,
                     fn_remainingGuarantee = dminus E remainingGuarantee amount\<rparr>]),
                 writeAudit tenantId ''SYSTEM'' ''GUARANTOR.DEFAULT_OFFSET.FORFEITED'' (lg_id g) s4))))))))))"

definition offsetCandidate :: "loan \<Rightarrow> bool" where
  "offsetCandidate l \<longleftrightarrow> ln_status l \<notin> {LoanStatus.FULLY_PAID, LoanStatus.WRITTEN_OFF} \<and>
     (ln_staging l = LoanStaging.NPL \<or> 90 < ln_arrearsDays l)"

definition offsetAttempt :: "env \<Rightarrow> ident option \<Rightarrow> nat \<Rightarrow> ident" where
  "offsetAttempt E jobId n = (if truthy jobId then the jobId @ ''-'' @ uuid E n else uuid E n)"

definition offsetLoanLocked ::
  "env \<Rightarrow> int \<Rightarrow> db \<Rightarrow> ident \<Rightarrow> ident \<Rightarrow> ident option \<Rightarrow> ((rat \<times> forfeiture_notice list) \<times> db) res" where
  "offsetLoanLocked E now s loanId tenantId jobId =
     (let attempt = offsetAttempt E jobId (id_count s);
          s0 = s\<lparr>id_count := Suc (id_count s)\<rparr> in
      case findFirst (\<lambda>l. ln_id l = loanId \<and> ln_tenantId l = tenantId \<and> offsetCandidate l) (loans s0) of
        None \<Rightarrow> Inr ((0, []), s0)
      | Some loan \<Rightarrow>
        (let gs = acceptedGuarantors s0 tenantId loanId in
         if gs = [] then Inr ((0, []), s0)
         else
           rbind (foldM (offsetOne E now tenantId loanId attempt) ((0, []), s0) gs)
             (\<lambda>((totalForfeited, notices), s1).
           if totalForfeited \<le> 0 then Inr ((0, []), s1)
           else
             (let outstandingBefore = ln_outstandingBalance loan;
                  outstandingDeduction = dp4 E (min outstandingBefore totalForfeited);
                  outstandingAfter = dp4 E (dminus E outstandingBefore outstandingDeduction);
                  nextStatus = (if outstandingAfter \<le> 0 then LoanStatus.FULLY_PAID else LoanStatus.WRITTEN_OFF) in
              rbind (updateLoan loanId (\<lambda>l. l\<lparr>
                  ln_outstandingBalance := (if outstandingAfter \<le> 0 then 0 else outstandingAfter),
                  ln_status := nextStatus,
                  ln_staging := (if nextStatus = LoanStatus.FULLY_PAID then LoanStaging.PERFORMING else LoanStaging.NPL),
                  ln_arrearsAmount := (if outstandingAfter \<le> 0 then 0 else ln_arrearsAmount l)\<rparr>) s1) (\<lambda>s2.
              Inr ((totalForfeited, notices),
                writeAudit tenantId ''SYSTEM'' ''LOAN.DEFAULT_OFFSET.APPLIED'' loanId s2))))))"

definition offsetLoan ::
  "env \<Rightarrow> int \<Rightarrow> bool \<Rightarrow> db \<Rightarrow> ident \<Rightarrow> ident \<Rightarrow> ident option \<Rightarrow> ((rat \<times> forfeiture_notice list) \<times> db) res" where
  "offsetLoan E now locked s loanId tenantId jobId =
     (if locked then Inr ((0, []), s) else offsetLoanLocked E now s loanId tenantId jobId)"

section \<open>Lemmas: one guarantor\<close>

definition open_guarantee :: "guarantor \<Rightarrow> rat" where
  "open_guarantee g = lg_guaranteedAmount g - lg_recoveredAmount g"

context decimal_runtime
begin

lemma offsetOne_taken:
  assumes run: "offsetOne E now t l att (st, s) g = Inr (st', s')"
    and wf: "wf_db s" and backed: "attempt_backed s t l att"
    and g: "money (lg_guaranteedAmount g)" "money (lg_recoveredAmount g)" "0 \<le> open_guarantee g"
    and tot: "m4 (fst st)" "0 \<le> fst st" "fst st + open_guarantee g < 10 ^ 15"
  shows "\<exists>x. x \<le> open_guarantee g \<and> fst st' = fst st + x \<and> taken t l att g x s s'"
proof -
  have none: ?thesis if "(st', s') = (st, s)"
  proof (rule exI [of _ 0], intro conjI)
    have eq: "s' = s" "st' = st" using that by simp_all
    show "0 \<le> open_guarantee g" by (rule g(3))
    show "fst st' = fst st + 0" by (simp add: eq)
    show "taken t l att g 0 s s'" unfolding eq by (rule taken_nothing [OF wf backed])
  qed
  obtain so_far notices where st: "st = (so_far, notices)" by (cases st)
  have rem: "max (dminus E (lg_guaranteedAmount g) (lg_recoveredAmount g)) 0 = open_guarantee g"
    using g by (simp add: dminus_money open_guarantee_def)
  note run = run [unfolded offsetOne_def st Let_def prod.case rem]
  show ?thesis
  proof (cases "accountFor s t BOSA (lg_memberId g)")
    case None
    then show ?thesis using run by (intro none) (simp add: st)
  next
    case (Some a)
    note a = accountFor_Some [OF Some]
    have wa: "wf_account a" using wf a(1) by (simp add: wf_db_def wf_accounts_def)
    then have am: "money (acc_balance a)" "money (acc_frozenSavings a)" by (simp_all add: wf_account_def)
    have mg: "m4 (open_guarantee g)" using g(1,2) by (simp add: open_guarantee_def places_diff money_m4)
    define x where "x = min (open_guarantee g) (min (acc_balance a) (acc_frozenSavings a))"
    have mx: "m4 x" unfolding x_def using am mg by (intro places_min) (simp_all add: money_m4)
    have xx: "dp4 E (min (open_guarantee g) (min (acc_balance a) (acc_frozenSavings a))) = x"
      using mx by (simp add: x_def)
    note run = run [unfolded Some option.case xx]
    define ref where "ref = guarantorForfeitureReference t l (acc_id a) att"
    note run = run [folded ref_def]
    show ?thesis
    proof (cases "x \<le> 0 \<or> transactionByReference s t ref \<noteq> None")
      case True
      then have "(st', s') = (st, s)" using run by (auto simp: st split: if_splits)
      then show ?thesis by (rule none)
    next
      case False
      then have pos: "\<not> x \<le> 0" and new: "transactionByReference s t ref = None" by simp_all
      have nnew: "\<not> transactionByReference s t ref \<noteq> None" using new by simp
      have x: "0 \<le> x" "x \<le> open_guarantee g" "x \<le> acc_balance a" "x \<le> acc_frozenSavings a"
        using pos unfolding x_def by linarith+
      have nx: "money x" by (rule money_shrink [OF am(1) mx]) (use x in simp)
      have after: "dp4 E (dminus E (acc_balance a) x) = acc_balance a - x"
        "dp4 E (dminus E (acc_frozenSavings a) x) = acc_frozenSavings a - x"
        using am nx mx by (simp_all add: dminus_money places_diff money_m4)
      have so: "dp4 E (dplus E so_far x) = so_far + x"
      proof -
        have "m4 (so_far + x)" using tot(1) mx by (simp add: st places_add)
        moreover then have "wide (so_far + x)" by (rule wideI) (use tot x in \<open>simp add: st\<close>)
        ultimately show ?thesis by (simp add: dplus_exact)
      qed
      note run = run [unfolded if_not_P [OF pos] if_not_P [OF nnew] after so]
      let ?P = "\<lambda>y. acc_id y = acc_id a \<and> acc_tenantId y = t \<and> acc_version y = acc_version a \<and>
        acc_balance y = acc_balance a \<and> acc_frozenSavings y = acc_frozenSavings a"
      let ?f = "\<lambda>y. y\<lparr>acc_balance := acc_balance a - x, acc_frozenSavings := acc_frozenSavings a - x,
        acc_version := acc_version y + 1\<rparr>"
      let ?Q = "\<lambda>y. lg_id y = lg_id g \<and> lg_tenantId y = t \<and> lg_status y = GuarantorStatus.ACCEPTED \<and>
        lg_holdReleasedAt y = None"
      from run obtain n s1 where upd: "updateAccounts ?P ?f s = Inr (n, s1)" by (rule rbind_Inr_pairE)
      note run = run [unfolded upd rbind.simps prod.case]
      from run have n: "n = 1" by (auto simp: res_simps)
      note run = run [unfolded n ensure_def if_True rbind.simps simp_thms]
      from run obtain m s2 where guar: "updateGuarantors ?Q (\<lambda>y. y\<lparr>lg_recoveredAmount := lg_recoveredAmount y + x,
          lg_holdReleasedAt := Some now\<rparr>) s1 = Inr (m, s2)" by (rule rbind_Inr_pairE)
      note run = run [unfolded guar rbind.simps prod.case]
      from run obtain txn s3 where tx: "createTransaction E
          \<lparr>tx_id = '''', tx_tenantId = t, tx_accountId = acc_id a, tx_loanId = Some l,
           tx_type = TransactionType.WITHDRAWAL, tx_status = TransactionStatus.COMPLETED,
           tx_amount = x, tx_balanceBefore = acc_balance a, tx_balanceAfter = acc_balance a - x,
           tx_reference = ref, tx_processedBy = ''SYSTEM'', tx_linkedTransactionId = None\<rparr> s2 = Inr (txn, s3)"
        by (rule rbind_Inr_pairE)
      note run = run [unfolded tx rbind.simps prod.case]
      from run obtain e s4 where post: "postGuarantorForfeitureEntry E s3 t ref x BOSA (tx_id txn) None = Inr (e, s4)"
        by (rule rbind_Inr_pairE)
      note run = run [unfolded post rbind.simps prod.case]
      have Pa: "?P a" using a(2) by simp
      have "taken t l att g x s (writeAudit t ''SYSTEM'' ''GUARANTOR.DEFAULT_OFFSET.FORFEITED'' (lg_id g) s4)"
        by (rule forfeiture_taken [OF upd guar tx post wf a(1) Pa a(2,4) _ _ _ _ _ _ _ _ _ _ _ mx x(1,3,4) ref_def new backed _ refl])
          (use a am mx in \<open>simp_all add: account_key_def money_m4 places_diff\<close>)
      moreover have "fst st' = fst st + x" "s' = writeAudit t ''SYSTEM'' ''GUARANTOR.DEFAULT_OFFSET.FORFEITED'' (lg_id g) s4"
        using run by (auto simp: st)
      ultimately show ?thesis using x(2) by blast
    qed
  qed
qed

end

definition guarantee_fits :: "guarantor \<Rightarrow> (ident \<times> ident \<times> AccountType) set \<Rightarrow> bool" where
  "guarantee_fits g keys \<longleftrightarrow> money (lg_guaranteedAmount g) \<and> money (lg_recoveredAmount g)"

sublocale decimal_runtime \<subseteq> forfeiting: guarantor_charge "offsetOne E now t l att" fst "\<lambda>g. g"
    open_guarantee guarantee_fits t l att for now t l att
proof
  show "\<exists>x. x \<le> open_guarantee i \<and> fst st' = fst st + x \<and> taken t l att i x s s'"
    if "offsetOne E now t l att (st, s) i = Inr (st', s')" "wf_db s" "attempt_backed s t l att"
      "guarantee_fits i (set (map account_key (accounts s)))" "m4 (open_guarantee i)" "0 \<le> open_guarantee i"
      "m4 (fst st)" "0 \<le> fst st" "fst st + open_guarantee i < 10 ^ 15" for st s i st' s'
    by (rule offsetOne_taken [OF that(1-3) _ _ that(6-9)]) (use that(4) in \<open>simp_all add: guarantee_fits_def\<close>)
qed

interpretation ref_forfeiting: guarantor_charge "offsetOne ref_env now t l att" fst "\<lambda>g. g"
    open_guarantee guarantee_fits t l att for now t l att
  by (rule ref.forfeiting.guarantor_charge_axioms)

end
