(* ===== verification/Recovery_Properties.thy ===== *)
theory Recovery_Properties
  imports Default_Offset Repayment_Properties Loan_Approval
begin

text \<open>
  The properties of recovery and default offset. \<open>claim\<close> is the tenant of the runs: the books of
  \<open>bank\<close>, an overdue loan of 900, and two guarantors of 100 each with holds on their FOSA and BOSA
  accounts.
\<close>

section \<open>A tenant with a defaulted loan\<close>

definition claim_guarantor :: "ident \<Rightarrow> ident \<Rightarrow> rat \<Rightarrow> guarantor" where
  "claim_guarantor i m x = office_guarantor x\<lparr>lg_id := i, lg_memberId := m\<rparr>"

definition claim_loan :: loan where
  "claim_loan = desk_loan\<lparr>ln_memberId := ''x'', ln_arrearsDays := 91\<rparr>"

definition claim_accounts :: "account list" where
  "claim_accounts = map (\<lambda>a. a\<lparr>acc_frozenSavings := 100\<rparr>)
     [bank_account ''F'' FOSA 600, bank_account ''G'' FOSA 330, bank_account ''H'' FOSA 70, bank_account ''B'' BOSA 500]"

definition claim :: db where
  "claim = desk\<lparr>accounts := claim_accounts, loans := [claim_loan], loanProducts := [office_product],
     guarantors := [claim_guarantor ''g1'' ''mF'' 100, claim_guarantor ''g2'' ''mG'' 100,
       claim_guarantor ''g3'' ''mH'' 100, claim_guarantor ''g4'' ''mB'' 80]\<rparr>"

lemma claim_rows: "wf_db claim"
  by code_simp

lemma claim_facts: "wf_guarantors claim" "funded claim" "within_guarantee claim"
  by code_simp+

text \<open>The same tenant with one guarantor, for the runs.\<close>

definition single_claim :: db where
  "single_claim = claim\<lparr>guarantors := [claim_guarantor ''g1'' ''mF'' 100]\<rparr>"

lemma single_claim_rows: "wf_db single_claim" "wf_loans single_claim" "wf_guarantors single_claim"
  "funded single_claim" "within_guarantee single_claim" "length (acceptedGuarantors single_claim ''t'' ''l'') \<le> 99"
  by (simp add: single_claim_def claim_rows, code_simp+)

lemma single_claim_agrees: "gl_agrees single_claim ''t''"
  by code_simp

lemma single_claim_backed: "attempt_backed single_claim ''t'' ''l'' att"
  by (simp add: attempt_backed_def no_entry_def single_claim_def claim_def desk_def bank_def opening_entry_def
      jeLedgerNumber_def guarantorForfeitureReference_def)

section \<open>Allocation\<close>

text \<open>
  C32. The allocation of a default is complete: whatever the proportional shares round to, the
  deductions add up to exactly the default or to everything the guarantors can give, whichever is less,
  and no guarantor is asked for more than its capacity or for more than it still guarantees.
\<close>

theorem allocation_complete:
  assumes "decimal_runtime E" and "wf_db s" "wf_guarantors s" "funded s" "within_guarantee s"
    and "set gs \<subseteq> set (guarantors s)" "length gs \<le> 99" and "money (dp4 E d)" "0 \<le> d" and "0 \<le> outstanding"
  shows "sum_list (map ra_deduction (allocateRecovery E s t gs ty d outstanding)) =
      min (dp4 E d) (\<Sum>g \<leftarrow> gs. recoveryCapacity E (dsum E lg_guaranteedAmount gs) outstanding
        (memberAccount s t ty (map lg_memberId gs) (lg_memberId g)) g) \<and>
    map ra_guarantor (allocateRecovery E s t gs ty d outstanding) = gs \<and>
    (\<forall>al \<in> set (allocateRecovery E s t gs ty d outstanding). 0 \<le> ra_deduction al \<and>
       ra_deduction al \<le> recoveryCapacity E (dsum E lg_guaranteedAmount gs) outstanding
         (memberAccount s t ty (map lg_memberId gs) (lg_memberId (ra_guarantor al))) (ra_guarantor al) \<and>
       ra_deduction al \<le> lg_guaranteedAmount (ra_guarantor al) - lg_recoveredAmount (ra_guarantor al))"
  using decimal_runtime.allocateRecovery_shares [OF assms] by blast

theorem allocation_complete_witness:
  "map ra_deduction (allocateRecovery plain_env claim ''t'' (guarantors claim) FOSA 100 900) =
     [370370 / 10000, 370371 / 10000, 259259 / 10000, 0] \<and>
   sum_list (map ra_deduction (allocateRecovery plain_env claim ''t'' (guarantors claim) FOSA 100 900)) = 100"
proof -
  have "map ra_deduction (allocateRecovery plain_env claim ''t'' (guarantors claim) FOSA 100 900) =
     [370370 / 10000, 370371 / 10000, 259259 / 10000, 0]" by code_simp
  moreover have "money (dp4 plain_env 100)" "dp4 plain_env 100 = 100" "length (guarantors claim) \<le> 99"
    "(\<Sum>g \<leftarrow> guarantors claim. recoveryCapacity plain_env (dsum plain_env lg_guaranteedAmount (guarantors claim)) 900
        (memberAccount claim ''t'' FOSA (map lg_memberId (guarantors claim)) (lg_memberId g)) g) = 270"
    by code_simp+
  ultimately show ?thesis
    using allocation_complete [OF plain.decimal_runtime_axioms claim_rows claim_facts, of "guarantors claim" 100 900 "''t''" FOSA]
    by simp
qed

section \<open>Recovery\<close>

text \<open>The loan row after its guarantors paid \<open>x\<close>.\<close>

definition offsetBy :: "rat \<Rightarrow> loan \<Rightarrow> loan" where
  "offsetBy x loan = loan\<lparr>ln_outstandingBalance := ln_outstandingBalance loan - min (ln_outstandingBalance loan) x\<rparr>"

lemma id_count_same [simp]:
  "attempt_backed (s\<lparr>id_count := n\<rparr>) = attempt_backed s" "funded (s\<lparr>id_count := n\<rparr>) = funded s"
  "within_guarantee (s\<lparr>id_count := n\<rparr>) = within_guarantee s" "wf_guarantors (s\<lparr>id_count := n\<rparr>) = wf_guarantors s"
  "loanById (s\<lparr>id_count := n\<rparr>) = loanById s" "acceptedGuarantors (s\<lparr>id_count := n\<rparr>) = acceptedGuarantors s"
  "total_balance (s\<lparr>id_count := n\<rparr>) = total_balance s" "productOf (s\<lparr>id_count := n\<rparr>) = productOf s"
  by (simp_all add: fun_eq_iff attempt_backed_def funded_def within_guarantee_def wf_guarantors_def
      loanById_def acceptedGuarantors_def total_balance_def productOf_def transactionByReference_def no_entry_def)

lemma acceptedGuarantors_rows:
  "set (acceptedGuarantors s t l) \<subseteq> set (guarantors s)"
  "wf_guarantors s \<Longrightarrow> distinct (map lg_id (acceptedGuarantors s t l))"
proof -
  show "set (acceptedGuarantors s t l) \<subseteq> set (guarantors s)" by (auto simp: acceptedGuarantors_def)
  assume "wf_guarantors s"
  then have "distinct (map lg_id (guarantors s))" by (simp add: wf_guarantors_def)
  then have "distinct (guarantors s)" "inj_on lg_id (set (guarantors s))" by (simp_all add: distinct_map)
  then show "distinct (map lg_id (acceptedGuarantors s t l))"
    by (auto simp: acceptedGuarantors_def distinct_map intro: inj_on_subset)
qed

text \<open>The last step of both: the loan goes down by what was taken, and by no more than it owes.\<close>

lemma loan_offset:
  assumes upd: "updateLoan l f s1 = Inr s2" and wf: "wf_loans s" and ls: "loans s1 = loans s"
    and loan: "loan \<in> set (loans s)" "ln_id loan = l" and f: "\<And>x. ln_id (f x) = ln_id x"
    and new: "ln_outstandingBalance (f loan) = ln_outstandingBalance loan - min (ln_outstandingBalance loan) x"
      "ln_accruedInterest (f loan) = ln_accruedInterest loan" "ln_totalRepaid (f loan) = ln_totalRepaid loan"
      "ln_arrearsAmount (f loan) \<in> {0, ln_arrearsAmount loan}" and x: "m4 x" "0 \<le> x"
  shows "wf_loans s2 \<and> loans s2 = map (\<lambda>y. if ln_id y = l then f loan else y) (loans s)"
proof -
  have d: "distinct (map ln_id (loans s1))" using wf by (simp add: wf_loans_def ls)
  have rows: "loans s2 = map (\<lambda>y. if ln_id y = l then f loan else y) (loans s)"
    using updateLoan_row(1) [OF upd d _ loan(2) f] loan(1) by (simp add: ls)
  have wl: "wf_loan loan" using wf loan(1) by (simp add: wf_loans_def)
  have "money (ln_outstandingBalance loan - min (ln_outstandingBalance loan) x)"
    by (rule money_shrink [of "ln_outstandingBalance loan"])
      (use wl x in \<open>auto simp: wf_loan_def money_m4 intro!: places_diff places_min\<close>)
  then have "wf_loan (f loan)" using wl new by (auto simp: wf_loan_def)
  moreover have "map ln_id (loans s2) = map ln_id (loans s)"
    using f loan(2) by (simp add: rows o_def if_distrib cong: if_cong) 
  ultimately have "wf_loans s2" using wf by (auto simp: wf_loans_def rows simp del: map_map)
  then show ?thesis using rows by blast
qed

context decimal_runtime
begin

lemma recoverLocked_effects:
  assumes run: "recoverFromGuarantorsLocked E now s l t d u = Inr (r, s')"
    and wf: "wf_db s" "wf_loans s" "wf_guarantors s" "funded s" "within_guarantee s"
    and new: "attempt_backed s t l (uuid E (id_count s))"
    and d: "money (dp4 E d)" "0 \<le> d" and len: "length (acceptedGuarantors s t l) \<le> 99"
  shows "\<exists>loan. loanById s l t = Some loan \<and> 0 \<le> rv_totalRecovered r \<and> rv_totalRecovered r \<le> dp4 E d \<and>
    total_balance s' = total_balance s - rv_totalRecovered r \<and> funded s' \<and> within_guarantee s' \<and>
    loans s' = map (\<lambda>x. if ln_id x = l then offsetBy (rv_totalRecovered r) loan else x) (loans s) \<and>
    wf_loans s' \<and> wf_db s' \<and> (\<forall>y. gl_agrees s y \<longrightarrow> gl_agrees s' y)"
proof -
  define s0 where "s0 = s\<lparr>id_count := Suc (id_count s)\<rparr>"
  let ?att = "uuid E (id_count s)"
  note run = run [unfolded recoverFromGuarantorsLocked_def Let_def, folded s0_def]
  from run obtain loan where loan: "loanById s0 l t = Some loan" by (auto simp: res_simps)
  note run = run [unfolded loan required_Some rbind.simps]
  from run obtain pdt where pdt: "productOf s0 loan = Some pdt" by (auto simp: res_simps)
  note run = run [unfolded pdt required_Some rbind.simps]
  let ?gs = "acceptedGuarantors s0 t l"
  let ?ty = "resolveAccountType pdt"
  define als where "als = allocateRecovery E s0 t ?gs ?ty d (ln_outstandingBalance loan)"
  from run obtain fin s1 where fold: "foldM (recoverOne E now t l u ?att ?ty) (0, s0) als = Inr (fin, s1)"
    and rest: "rbind (if 0 < fin then updateLoan l (\<lambda>x. x\<lparr>ln_outstandingBalance :=
        ln_outstandingBalance x - dp4 E (min (ln_outstandingBalance loan) fin)\<rparr>) s1 else Inr s1)
      (\<lambda>s2. Inr (\<lparr>rv_totalRecovered = fin, rv_remainingDebt = max (dminus E d fin) 0\<rparr>, s2)) = Inr (r, s')"
    by (auto simp: res_simps als_def)
  have w0: "wf_db s0" "wf_guarantors s0" "funded s0" "within_guarantee s0" "attempt_backed s0 t l ?att"
    "length ?gs \<le> 99" "guarantors s0 = guarantors s"
    using wf new len by (simp_all add: s0_def)
  have lo: "loan \<in> set (loans s)" "ln_id loan = l" "loanById s l t = Some loan"
    using loan loanById_Some [of s0 l t loan] by (simp_all add: s0_def)
  have wl: "wf_loan loan" using wf(2) lo(1) by (simp add: wf_loans_def)
  have out: "0 \<le> ln_outstandingBalance loan" using wl by (simp add: wf_loan_def)
  note shares = allocateRecovery_shares [where t = t and ty = ?ty, OF w0(1-4) acceptedGuarantors_rows(1) w0(6) d out, folded als_def]
  have mem: "ra_guarantor al \<in> set (guarantors s0)" if "al \<in> set als" for al
  proof -
    have "ra_guarantor al \<in> set (map ra_guarantor als)" using that by simp
    then show ?thesis unfolding shares(2) using acceptedGuarantors_rows(1) by blast
  qed
  have "fin \<le> 0 + sum_list (map ra_deduction als) \<and> 0 \<le> fin \<and> m4 fin \<and> wf_db s1 \<and>
    (\<forall>y. gl_agrees s0 y \<longrightarrow> gl_agrees s1 y) \<and> loans s1 = loans s0 \<and>
    total_balance s1 = total_balance s0 - (fin - 0) \<and> (funded s0 \<longrightarrow> funded s1) \<and> within_guarantee s1"
  proof -
    have "0 \<le> fin \<and> fin \<le> 0 + sum_list (map ra_deduction als) \<and> m4 fin \<and> wf_db s1 \<and>
      (\<forall>y. gl_agrees s0 y \<longrightarrow> gl_agrees s1 y) \<and> loans s1 = loans s0 \<and>
      total_balance s1 = total_balance s0 - (fin - 0) \<and> (funded s0 \<longrightarrow> funded s1) \<and> within_guarantee s1"
    proof (rule recovering.charge_all [OF fold w0(1,5)])
      show "0 + sum_list (map ra_deduction als) < 10 ^ 15"
        using d(1) by (simp add: shares(1) money_def)
      show "distinct (map lg_id (guarantors s0))" using w0(2) by (simp add: wf_guarantors_def)
      have "map (\<lambda>al. lg_id (ra_guarantor al)) als = map lg_id (map ra_guarantor als)" by simp
      then show "distinct (map (\<lambda>al. lg_id (ra_guarantor al)) als)"
        unfolding shares(2) using acceptedGuarantors_rows(2) [OF w0(2)] by simp
    qed (use w0(4) shares(3,4) mem in \<open>auto simp: allocation_fits_def\<close>)
    then show ?thesis by blast
  qed
  then have fin: "0 \<le> fin" "fin \<le> dp4 E d" "m4 fin" "wf_db s1" "\<And>y. gl_agrees s y \<Longrightarrow> gl_agrees s1 y"
    "loans s1 = loans s" "total_balance s1 = total_balance s - fin" "funded s1" "within_guarantee s1"
    using w0(3) by (simp_all add: shares(1) s0_def)
  have r: "rv_totalRecovered r = fin" using rest by (auto simp: res_simps split: if_splits)
  have mf: "dp4 E (min (ln_outstandingBalance loan) fin) = min (ln_outstandingBalance loan) fin"
    using wl fin(3) by (intro dp4_exact places_min) (simp_all add: wf_loan_def money_m4)
  show ?thesis
  proof (cases "0 < fin")
    case True
    with rest have upd: "updateLoan l (\<lambda>x. x\<lparr>ln_outstandingBalance :=
        ln_outstandingBalance x - min (ln_outstandingBalance loan) fin\<rparr>) s1 = Inr s'"
      by (auto simp: res_simps mf)
    have off: "wf_loans s' \<and> loans s' = map (\<lambda>y. if ln_id y = l then loan\<lparr>ln_outstandingBalance :=
        ln_outstandingBalance loan - min (ln_outstandingBalance loan) fin\<rparr> else y) (loans s)"
      by (rule loan_offset [OF upd wf(2) fin(6) lo(1,2) _ _ _ _ _ fin(3,1)]) simp_all
    obtain rows where s': "s' = s1\<lparr>loans := rows\<rparr>" using upd by (auto simp: updateLoan_Inr)
    have "total_balance s' = total_balance s1" "funded s' = funded s1" "within_guarantee s' = within_guarantee s1"
      "wf_db s' = wf_db s1" "\<And>y. gl_agrees s' y = gl_agrees s1 y"
      by (simp_all add: s' total_balance_def funded_def within_guarantee_def)
    then show ?thesis using fin lo(3) off by (intro exI [of _ loan] conjI) (simp_all add: r offsetBy_def)
  next
    case False
    then have f0: "fin = 0" using fin(1) by simp
    have "s' = s1" using rest by (simp add: f0)
    moreover have "offsetBy 0 loan = loan" using out by (simp add: offsetBy_def)
    then have "map (\<lambda>x. if ln_id x = l then offsetBy 0 loan else x) (loans s) = loans s"
      using lo wf(2) by (intro map_idI) (auto simp: wf_loans_def dest: distinct_key_eq)
    ultimately show ?thesis unfolding r unfolding f0 using fin lo(3) wf(2)
      by (intro exI [of _ loan]) (simp add: f0 wf_loans_def)
  qed
qed

end

text \<open>
  C33. A recovery takes from the guarantors together at most the amount of the default and reports
  exactly what left their balances. The loan goes down by it and never below zero, no guarantor's balance
  or hold becomes negative and none pays more than it guaranteed, and balances and general ledger keep
  agreeing.
\<close>

theorem recovery_books:
  assumes "decimal_runtime E" and "recoverFromGuarantors E now locked s l t (Some d) u = Inr (r, s')"
    and "wf_db s" "wf_loans s" "wf_guarantors s" "funded s" "within_guarantee s"
    and "attempt_backed s t l (uuid E (id_count s))" and "money (dp4 E d)"
    and "length (acceptedGuarantors s t l) \<le> 99"
  shows "\<exists>loan. loanById s l t = Some loan \<and> 0 \<le> rv_totalRecovered r \<and> rv_totalRecovered r \<le> dp4 E d \<and>
    total_balance s' = total_balance s - rv_totalRecovered r \<and> funded s' \<and> within_guarantee s' \<and>
    loans s' = map (\<lambda>x. if ln_id x = l then offsetBy (rv_totalRecovered r) loan else x) (loans s) \<and>
    wf_loans s' \<and> wf_db s' \<and> (\<forall>tenant. gl_agrees s tenant \<longrightarrow> gl_agrees s' tenant)"
proof -
  from assms(2) have "recoverFromGuarantorsLocked E now s l t d u = Inr (r, s')" "0 \<le> d"
    by (auto simp: recoverFromGuarantors_def positiveDefault_def res_simps)
  from decimal_runtime.recoverLocked_effects [OF assms(1) this(1) assms(3-9) this(2) assms(10)]
  show ?thesis by blast
qed

theorem recovery_books_witness:
  "\<exists>r s'. recoverFromGuarantors plain_env 7 False single_claim ''l'' ''t'' (Some 100) ''u'' = Inr (r, s') \<and>
     0 \<le> rv_totalRecovered r \<and> rv_totalRecovered r \<le> 100 \<and> gl_agrees s' ''t''"
proof -
  have "\<not> isl (recoverFromGuarantors plain_env 7 False single_claim ''l'' ''t'' (Some 100) ''u'')" by code_simp
  from not_isl [OF this] obtain r s' where
    run: "recoverFromGuarantors plain_env 7 False single_claim ''l'' ''t'' (Some 100) ''u'' = Inr (r, s')" by blast
  have d: "money (dp4 plain_env 100)" "dp4 plain_env 100 = 100" by code_simp+
  from recovery_books [OF plain.decimal_runtime_axioms run single_claim_rows(1-5) single_claim_backed d(1) single_claim_rows(6)]
    single_claim_agrees d(2)
  have "0 \<le> rv_totalRecovered r" "rv_totalRecovered r \<le> 100" "gl_agrees s' ''t''" by (elim exE conjE, simp)+
  with run show ?thesis by blast
qed

section \<open>Default offset\<close>

text \<open>The loan row after a forfeiture of \<open>x\<close>.\<close>

definition forfeitedLoan :: "rat \<Rightarrow> loan \<Rightarrow> loan" where
  "forfeitedLoan x loan = (offsetBy x loan)\<lparr>
     ln_status := (if ln_outstandingBalance loan \<le> x then LoanStatus.FULLY_PAID else LoanStatus.WRITTEN_OFF),
     ln_staging := (if ln_outstandingBalance loan \<le> x then LoanStaging.PERFORMING else LoanStaging.NPL),
     ln_arrearsAmount := (if ln_outstandingBalance loan \<le> x then 0 else ln_arrearsAmount loan)\<rparr>"

context decimal_runtime
begin

lemma sum_open_fits:
  assumes "wf_guarantors s" "set gs \<subseteq> set (guarantors s)" "length gs \<le> 9"
  shows "sum_list (map open_guarantee gs) < 10 ^ 15"
proof -
  have "open_guarantee g \<le> 10 ^ 14" if "g \<in> set gs" for g
  proof -
    have "g \<in> set (guarantors s)" using assms(2) that by blast
    then have "\<bar>lg_guaranteedAmount g\<bar> < 10 ^ 14" "0 \<le> lg_recoveredAmount g"
      using assms(1) unfolding wf_guarantors_def money_def by blast+
    then show ?thesis unfolding open_guarantee_def by linarith
  qed
  then have "sum_list (map open_guarantee gs) \<le> of_nat (length gs) * 10 ^ 14"
    by (induction gs) (auto simp: algebra_simps intro: add_mono)
  also have "\<dots> \<le> 9 * 10 ^ 14" using assms(3) by (intro mult_right_mono) auto
  finally show ?thesis by simp
qed

lemma offsetLocked_effects:
  assumes run: "offsetLoanLocked E now s l t job = Inr ((x, notices), s')"
    and wf: "wf_db s" "wf_loans s" "wf_guarantors s" "funded s" "within_guarantee s"
    and new: "attempt_backed s t l (offsetAttempt E job (id_count s))"
    and len: "length (acceptedGuarantors s t l) \<le> 9"
  shows "0 \<le> x \<and> total_balance s' = total_balance s - x \<and> funded s' \<and> within_guarantee s' \<and>
    wf_loans s' \<and> wf_db s' \<and> (\<forall>y. gl_agrees s y \<longrightarrow> gl_agrees s' y) \<and>
    (x = 0 \<and> loans s' = loans s \<or> 0 < x \<and> (\<exists>loan \<in> set (loans s). ln_id loan = l \<and> ln_tenantId loan = t \<and>
       offsetCandidate loan \<and> loans s' = map (\<lambda>y. if ln_id y = l then forfeitedLoan x loan else y) (loans s)))"
proof -
  define s0 where "s0 = s\<lparr>id_count := Suc (id_count s)\<rparr>"
  let ?att = "offsetAttempt E job (id_count s)"
  note run = run [unfolded offsetLoanLocked_def Let_def, folded s0_def]
  have w0: "wf_db s0" "wf_guarantors s0" "funded s0" "within_guarantee s0" "attempt_backed s0 t l ?att"
    "length (acceptedGuarantors s0 t l) \<le> 9" "loans s0 = loans s" "total_balance s0 = total_balance s"
    "\<And>y. gl_agrees s0 y = gl_agrees s y"
    using wf new len by (simp_all add: s0_def)
  have same: ?thesis if "x = 0" "s' = s0" using that w0 wf(2) by (simp add: wf_loans_def)
  show ?thesis
  proof (cases "findFirst (\<lambda>l'. ln_id l' = l \<and> ln_tenantId l' = t \<and> offsetCandidate l') (loans s0)")
    case None
    then show ?thesis using run by (intro same) simp_all
  next
    case (Some loan)
    note run = run [unfolded Some option.case]
    have lo: "loan \<in> set (loans s)" "ln_id loan = l" "ln_tenantId loan = t" "offsetCandidate loan"
      using findFirst_Some [OF Some] w0(7) by simp_all
    show ?thesis
    proof (cases "acceptedGuarantors s0 t l = []")
      case True
      then show ?thesis using run by (intro same) simp_all
    next
      case False
      let ?gs = "acceptedGuarantors s0 t l"
      note run = run [unfolded if_not_P [OF False]]
      from run obtain st s1 where fold: "foldM (offsetOne E now t l ?att) ((0, []), s0) ?gs = Inr (st, s1)"
        by (rule rbind_Inr_pairE)
      obtain fin ns where st: "st = (fin, ns)" by (cases st)
      note run = run [unfolded fold rbind.simps prod.case st]
      have gs: "g \<in> set (guarantors s0)" "money (lg_guaranteedAmount g)" "money (lg_recoveredAmount g)"
        "0 \<le> open_guarantee g" "m4 (open_guarantee g)" if "g \<in> set ?gs" for g
      proof -
        show g: "g \<in> set (guarantors s0)" using acceptedGuarantors_rows(1) that by blast
        then show m: "money (lg_guaranteedAmount g)" "money (lg_recoveredAmount g)"
          using w0(2) by (simp_all add: wf_guarantors_def)
        show "0 \<le> open_guarantee g" using g w0(4) by (simp add: within_guarantee_def open_guarantee_def)
        show "m4 (open_guarantee g)" using m by (simp add: open_guarantee_def money_m4 places_diff)
      qed
      have "fst (0, [] :: forfeiture_notice list) \<le> fst st \<and>
        fst st \<le> fst (0, [] :: forfeiture_notice list) + sum_list (map open_guarantee ?gs) \<and> m4 (fst st) \<and> wf_db s1 \<and>
        (\<forall>y. gl_agrees s0 y \<longrightarrow> gl_agrees s1 y) \<and> loans s1 = loans s0 \<and>
        total_balance s1 = total_balance s0 - (fst st - fst (0, [] :: forfeiture_notice list)) \<and>
        (funded s0 \<longrightarrow> funded s1) \<and> within_guarantee s1"
      proof (rule forfeiting.charge_all [OF fold w0(1,5)])
        show "fst (0, [] :: forfeiture_notice list) + sum_list (map open_guarantee ?gs) < 10 ^ 15"
          using sum_open_fits [OF w0(2) acceptedGuarantors_rows(1) w0(6)] by simp
        show "distinct (map lg_id (guarantors s0))" using w0(2) by (simp add: wf_guarantors_def)
        show "distinct (map (\<lambda>i. lg_id i) ?gs)" using acceptedGuarantors_rows(2) [OF w0(2)] by simp
      qed (use w0(4) gs in \<open>auto simp: guarantee_fits_def open_guarantee_def [symmetric]\<close>)
      then have fin: "0 \<le> fin" "m4 fin" "wf_db s1" "\<And>y. gl_agrees s y \<Longrightarrow> gl_agrees s1 y" "loans s1 = loans s"
        "total_balance s1 = total_balance s - fin" "funded s1" "within_guarantee s1"
        using w0 by (simp_all add: st)
      show ?thesis
      proof (cases "fin \<le> 0")
        case True
        then have "x = 0" "s' = s1" "fin = 0" using run fin(1) by simp_all
        then show ?thesis using fin wf(2) by (simp add: wf_loans_def)
      next
        case pos: False
        note run = run [unfolded if_not_P [OF pos]]
        have wl: "wf_loan loan" using wf(2) lo(1) by (simp add: wf_loans_def)
        then have mo: "money (ln_outstandingBalance loan)" "0 \<le> ln_outstandingBalance loan" by (simp_all add: wf_loan_def)
        define y where "y = min (ln_outstandingBalance loan) fin"
        have my: "m4 y" unfolding y_def using mo fin(2) by (intro places_min) (simp_all add: money_m4)
        have y: "0 \<le> y" "y \<le> ln_outstandingBalance loan" using mo fin(1) by (simp_all add: y_def)
        have ny: "money y" by (rule money_shrink [OF mo(1) my]) (use y in simp)
        have ded: "dp4 E (min (ln_outstandingBalance loan) fin) = y" using my by (simp add: y_def)
        have aft: "dp4 E (dminus E (ln_outstandingBalance loan) y) = ln_outstandingBalance loan - y"
          using mo ny my by (simp add: dminus_money money_m4 places_diff)
        note run = run [unfolded ded aft]
        let ?z = "ln_outstandingBalance loan - y"
        let ?st = "if ?z \<le> 0 then LoanStatus.FULLY_PAID else LoanStatus.WRITTEN_OFF"
        let ?f = "\<lambda>l. l\<lparr>ln_outstandingBalance := (if ?z \<le> 0 then 0 else ?z), ln_status := ?st,
           ln_staging := (if ?st = LoanStatus.FULLY_PAID then LoanStaging.PERFORMING else LoanStaging.NPL),
           ln_arrearsAmount := (if ?z \<le> 0 then 0 else ln_arrearsAmount l)\<rparr>"
        from run obtain s2 where upd: "updateLoan l ?f s1 = Inr s2" by (rule rbind_InrE)
        note run = run [unfolded upd rbind.simps]
        have zz: "?z \<le> 0 \<longleftrightarrow> ln_outstandingBalance loan \<le> fin" "?z \<le> 0 \<Longrightarrow> ?z = 0"
          using y unfolding y_def by linarith+
        have off: "wf_loans s2 \<and> loans s2 = map (\<lambda>y. if ln_id y = l then ?f loan else y) (loans s)"
          by (rule loan_offset [OF upd wf(2) fin(5) lo(1,2) _ _ _ _ _ fin(2,1)])
            (use zz(2) in \<open>simp_all add: y_def\<close>)
        have "?f loan = forfeitedLoan fin loan"
          using zz by (simp add: forfeitedLoan_def offsetBy_def y_def)
        with off have rows: "wf_loans s2" "loans s2 = map (\<lambda>y. if ln_id y = l then forfeitedLoan fin loan else y) (loans s)"
          by simp_all
        obtain rows' where s2: "s2 = s1\<lparr>loans := rows'\<rparr>" using upd by (auto simp: updateLoan_Inr)
        have x: "x = fin" and s': "s' = writeAudit t ''SYSTEM'' ''LOAN.DEFAULT_OFFSET.APPLIED'' l s2"
          using run by simp_all
        have "total_balance s' = total_balance s1" "funded s' = funded s1" "within_guarantee s' = within_guarantee s1"
          "wf_db s' = wf_db s1" "\<And>y. gl_agrees s' y = gl_agrees s1 y" "loans s' = loans s2" "wf_loans s' = wf_loans s2"
          by (simp_all add: s' s2) (simp_all add: total_balance_def funded_def within_guarantee_def wf_loans_def writeAudit_def)
        then show ?thesis using fin rows lo pos
          by (intro conjI disjI2 bexI [of _ loan]) (simp_all add: x)
      qed
    qed
  qed
qed

end

text \<open>
  C34. A forfeiture reports exactly what left the guarantors' balances: either nothing, and then the
  loans are as before, or an amount that takes one non-performing loan down, to zero and FULLY_PAID when
  it covers the loan and to WRITTEN_OFF otherwise. No balance or hold becomes negative, no guarantor pays
  more than it guaranteed, and balances and general ledger keep agreeing.
\<close>

theorem offset_books:
  assumes "decimal_runtime E" and "offsetLoan E now locked s l t job = Inr ((x, notices), s')"
    and "wf_db s" "wf_loans s" "wf_guarantors s" "funded s" "within_guarantee s"
    and "attempt_backed s t l (offsetAttempt E job (id_count s))" and "length (acceptedGuarantors s t l) \<le> 9"
  shows "0 \<le> x \<and> total_balance s' = total_balance s - x \<and> funded s' \<and> within_guarantee s' \<and>
    wf_loans s' \<and> wf_db s' \<and> (\<forall>tenant. gl_agrees s tenant \<longrightarrow> gl_agrees s' tenant) \<and>
    (x = 0 \<and> loans s' = loans s \<or> 0 < x \<and> (\<exists>loan \<in> set (loans s). ln_id loan = l \<and> ln_tenantId loan = t \<and>
       offsetCandidate loan \<and> loans s' = map (\<lambda>y. if ln_id y = l then forfeitedLoan x loan else y) (loans s)))"
proof (cases locked)
  case True
  then show ?thesis using assms(2-7) by (simp add: offsetLoan_def)
next
  case False
  then have "offsetLoanLocked E now s l t job = Inr ((x, notices), s')" using assms(2) by (simp add: offsetLoan_def)
  from decimal_runtime.offsetLocked_effects [OF assms(1) this assms(3-9)] show ?thesis .
qed

definition short_claim :: db where
  "short_claim = single_claim\<lparr>guarantors := [claim_guarantor ''g4'' ''mB'' 100],
     accounts := [bank_account ''F'' FOSA 1000, (bank_account ''B'' BOSA 40)\<lparr>acc_frozenSavings := 100\<rparr>]\<rparr>"

lemma short_claim_facts: "wf_db short_claim" "wf_loans short_claim" "wf_guarantors short_claim"
  "funded short_claim" "within_guarantee short_claim" "length (acceptedGuarantors short_claim ''t'' ''l'') \<le> 9"
  by code_simp+

lemma short_claim_backed: "attempt_backed short_claim ''t'' ''l'' att"
  by (simp add: attempt_backed_def no_entry_def short_claim_def single_claim_def claim_def desk_def bank_def
      opening_entry_def jeLedgerNumber_def guarantorForfeitureReference_def)

lemma short_claim_run: "\<not> isl (offsetLoan plain_env 7 False short_claim ''l'' ''t'' None)"
  by code_simp

theorem offset_books_witness:
  "\<exists>x ns s'. offsetLoan plain_env 7 False short_claim ''l'' ''t'' None = Inr ((x, ns), s') \<and>
     total_balance s' = total_balance short_claim - x \<and> within_guarantee s'"
proof -
  from not_isl [OF short_claim_run] obtain x ns s' where
    run: "offsetLoan plain_env 7 False short_claim ''l'' ''t'' None = Inr ((x, ns), s')" by (metis surj_pair)
  from offset_books [OF plain.decimal_runtime_axioms run short_claim_facts(1-5) short_claim_backed short_claim_facts(6)]
  have "total_balance s' = total_balance short_claim - x" "within_guarantee s'" by simp_all
  with run show ?thesis by blast
qed

definition after_offset :: "((rat \<times> forfeiture_notice list) \<times> db) res \<Rightarrow>
   rat \<times> (rat \<times> rat) list \<times> bool list \<times> LoanStatus list" where
  "after_offset out = (case out of Inl _ \<Rightarrow> (0, [], [], [])
     | Inr x \<Rightarrow> (fst (fst x), map (\<lambda>a. (acc_balance a, acc_frozenSavings a)) (accounts (snd x)),
         map (\<lambda>g. lg_holdReleasedAt g \<noteq> None) (guarantors (snd x)), map ln_status (loans (snd x))))"

text \<open>
  A forfeiture that finds less balance than was pledged takes what there is, marks the hold as
  released and leaves the rest of it frozen: no later release gives the 60 back, because only
  unreleased guarantees are looked at. It charges the BOSA account although the product's holds are on
  FOSA accounts, and it writes off a loan that is ACTIVE, which the table of transitions does not allow.
\<close>

theorem offset_strands_hold:
  "after_offset (offsetLoan plain_env 7 False short_claim ''l'' ''t'' None) =
     (40, [(1000, 0), (0, 60)], [True], [LoanStatus.WRITTEN_OFF]) \<and>
   map ln_status (loans short_claim) = [LoanStatus.ACTIVE] \<and>
   \<not> canTransition LoanStatus.ACTIVE LoanStatus.WRITTEN_OFF \<and>
   map resolveAccountType (loanProducts short_claim) = [FOSA]"
  by (intro conjI; code_simp)

end
