(* ===== verification/Guarantor_Response.thy ===== *)
theory Guarantor_Response
  imports Guarantor_Holds Loan_State_Machine Hold_Frames
begin

text \<open>
  The answers of guarantors, by themselves or overridden by an administrator:
  \<open>src/src/loans/guarantor-response.service.ts\<close>.

  The idempotency service is the argument \<open>reserve\<close>: what \<open>checkAndReserve\<close> answers for a key. An
  action that is neither ACCEPT nor DECLINE is \<open>None\<close>. The notification row of a declined request, the
  text messages to the officers, notes and the metadata of audit rows are not modelled.
\<close>

section \<open>Arguments and results\<close>

datatype workflow_action = ACCEPT | DECLINE

datatype decision_source = MEMBER | ADMIN_OVERRIDE | SYSTEM_EXPIRY

datatype matcher = memberId ident | idOrMemberId ident

record decision =
  ds_loanId :: ident
  ds_tenantId :: ident
  ds_actorUserId :: ident
  ds_matcher :: matcher
  ds_action :: "workflow_action option"
  ds_acknowledged :: bool
  ds_source :: decision_source

record decision_result =
  dc_loanId :: ident
  dc_guarantorId :: ident
  dc_memberId :: ident
  dc_status :: GuarantorStatus
  dc_loanStatus :: LoanStatus
  dc_remainingCoverage :: "rat option"

section \<open>The code\<close>

definition lockGuarantor :: "db \<Rightarrow> ident \<Rightarrow> ident \<Rightarrow> matcher \<Rightarrow> guarantor option" where
  "lockGuarantor s tenantId loanId m =
     (case m of
        memberId k \<Rightarrow> findFirst (\<lambda>g. lg_tenantId g = tenantId \<and> lg_loanId g = loanId \<and> lg_memberId g = k) (guarantors s)
      | idOrMemberId k \<Rightarrow> findFirst (\<lambda>g. lg_tenantId g = tenantId \<and> lg_loanId g = loanId \<and>
          (lg_id g = k \<or> lg_memberId g = k)) (guarantors s))"

definition assertGuarantorCanAccept :: "db \<Rightarrow> ident \<Rightarrow> ident \<Rightarrow> unit res" where
  "assertGuarantorCanAccept s tenantId k =
     rbind (required (BadRequestException ''GUARANTOR_NOT_ACTIVE'')
       (findFirst (\<lambda>m. mb_id m = k \<and> mb_tenantId m = tenantId \<and> mb_isActive m \<and>
          mb_accountStatus m = AccountStatus.ACTIVE) (members s))) (\<lambda>m.
     ensure (mb_kycStatus m = KycStatus.APPROVED) (BadRequestException ''GUARANTOR_KYC_NOT_VERIFIED''))"

definition releaseAcceptedHold ::
  "env \<Rightarrow> int \<Rightarrow> ident \<Rightarrow> ident \<Rightarrow> AccountType \<Rightarrow> db \<Rightarrow> guarantor \<Rightarrow> db res" where
  "releaseAcceptedHold E now tenantId actorId accountType s g =
     (if lg_holdReleasedAt g \<noteq> None then Inr s
      else
        rbind (releaseGuarantorHolds E s tenantId [(lg_memberId g, Some (lg_guaranteedAmount g))] accountType) (\<lambda>s1.
        rbind (updateGuarantors (\<lambda>x. lg_id x = lg_id g \<and> lg_tenantId x = tenantId)
          (\<lambda>x. x\<lparr>lg_holdReleasedAt := Some now\<rparr>) s1) (\<lambda>(_, s2).
        Inr (writeAudit tenantId actorId ''GUARANTOR.HOLD_RELEASED'' (lg_id g) s2))))"

definition releaseAcceptedHolds ::
  "env \<Rightarrow> int \<Rightarrow> ident \<Rightarrow> ident \<Rightarrow> loan_product \<Rightarrow> guarantor list \<Rightarrow> db \<Rightarrow> db res" where
  "releaseAcceptedHolds E now tenantId actorId product accepted s =
     foldM (releaseAcceptedHold E now tenantId actorId (resolveAccountType product)) s accepted"

definition setPendingLoan :: "ident \<Rightarrow> ident \<Rightarrow> LoanStatus \<Rightarrow> db \<Rightarrow> db" where
  "setPendingLoan tenantId loanId st s =
     s\<lparr>loans := fst (updateMany (\<lambda>l. ln_id l = loanId \<and> ln_tenantId l = tenantId \<and>
         ln_status l = LoanStatus.PENDING_GUARANTORS) (\<lambda>l. l\<lparr>ln_status := st\<rparr>) (loans s))\<rparr>"

definition coverageOf :: "env \<Rightarrow> loan \<Rightarrow> loan_product \<Rightarrow> rat" where
  "coverageOf E loan product = dtimes E (ln_principalAmount loan)
     (case lp_guarantorCoverageRatio product of None \<Rightarrow> 1 | Some r \<Rightarrow> r)"

definition loanGuarantorRows :: "db \<Rightarrow> ident \<Rightarrow> ident \<Rightarrow> guarantor list" where
  "loanGuarantorRows s tenantId loanId =
     filter (\<lambda>g. lg_tenantId g = tenantId \<and> lg_loanId g = loanId) (guarantors s)"

definition withStatus :: "GuarantorStatus \<Rightarrow> guarantor list \<Rightarrow> guarantor list" where
  "withStatus st gs = filter (\<lambda>g. lg_status g = st) gs"

definition applyLoanState ::
  "env \<Rightarrow> int \<Rightarrow> db \<Rightarrow> ident \<Rightarrow> ident \<Rightarrow> loan \<Rightarrow> loan_product \<Rightarrow> ident \<Rightarrow> GuarantorStatus \<Rightarrow>
   ((LoanStatus \<times> rat option) \<times> db) res" where
  "applyLoanState E now s tenantId loanId loan product actorId latestStatus =
     (if ln_status loan \<noteq> LoanStatus.PENDING_GUARANTORS then Inr ((ln_status loan, None), s)
      else
        (let gs = loanGuarantorRows s tenantId loanId;
             accepted = withStatus GuarantorStatus.ACCEPTED gs;
             pending = withStatus GuarantorStatus.PENDING gs;
             totalAccepted = dsum E lg_guaranteedAmount accepted;
             requiredCoverage = coverageOf E loan product;
             remainingCoverage = dp4 E (max (dminus E requiredCoverage totalAccepted) 0);
             hasDecline = (\<exists>g \<in> set gs. lg_status g = GuarantorStatus.REJECTED \<or> lg_status g = GuarantorStatus.EXPIRED);
             criteriaMet = (pending = [] \<and> lp_minGuarantors product \<le> int (length accepted) \<and>
               requiredCoverage \<le> totalAccepted)
         in if criteriaMet then
              Inr ((LoanStatus.PENDING_APPROVAL, Some 0),
                writeAudit tenantId actorId ''LOAN.PENDING_APPROVAL'' loanId
                  (setPendingLoan tenantId loanId LoanStatus.PENDING_APPROVAL s))
            else
              (let activeGuarantors = int (length accepted + length pending);
                   availableReplacementSlots = max 0 (lp_maxGuarantors product - activeGuarantors);
                   replacementStillFeasible = (lp_minGuarantors product \<le> activeGuarantors + availableReplacementSlots);
                   noOneLeftPending = (pending = []);
                   shouldTerminallyReject = (latestStatus = GuarantorStatus.EXPIRED \<or>
                     (noOneLeftPending \<and> \<not> (hasDecline \<and> replacementStillFeasible)))
               in if shouldTerminallyReject then
                    rbind (releaseAcceptedHolds E now tenantId actorId product accepted s) (\<lambda>s1.
                    Inr ((LoanStatus.REJECTED_GUARANTOR_DECLINE, Some remainingCoverage),
                      writeAudit tenantId actorId ''LOAN.REJECTED_GUARANTOR_DECLINE'' loanId
                        (setPendingLoan tenantId loanId LoanStatus.REJECTED_GUARANTOR_DECLINE s1)))
                  else Inr ((ln_status loan, Some remainingCoverage),
                    if hasDecline then writeAudit tenantId actorId ''LOAN.GUARANTOR_REPLACEMENT_INVITABLE'' loanId s
                    else s))))"

definition CONSENT_WINDOW :: int where
  "CONSENT_WINDOW = 72 * 60 * 60 * 1000"

fun guarantor_status_name :: "GuarantorStatus \<Rightarrow> string" where
  "guarantor_status_name GuarantorStatus.PENDING = ''PENDING''"
| "guarantor_status_name GuarantorStatus.ACCEPTED = ''ACCEPTED''"
| "guarantor_status_name GuarantorStatus.REJECTED = ''REJECTED''"
| "guarantor_status_name GuarantorStatus.EXPIRED = ''EXPIRED''"
| "guarantor_status_name GuarantorStatus.RELEASED = ''RELEASED''"

definition decidedStatus :: "int \<Rightarrow> decision \<Rightarrow> guarantor \<Rightarrow> GuarantorStatus" where
  "decidedStatus now args g =
     (if ds_source args = SYSTEM_EXPIRY \<or> lg_invitedAt g + CONSENT_WINDOW < now then GuarantorStatus.EXPIRED
      else if ds_action args = Some ACCEPT then GuarantorStatus.ACCEPTED else GuarantorStatus.REJECTED)"

definition pledgeFor :: "env \<Rightarrow> db \<Rightarrow> ident \<Rightarrow> guarantor \<Rightarrow> AccountType \<Rightarrow> db res" where
  "pledgeFor E s tenantId g accountType =
     rbind (assertGuarantorCanAccept s tenantId (lg_memberId g)) (\<lambda>_.
     placeGuarantorHolds E s tenantId [(lg_memberId g, Some (lg_guaranteedAmount g))] accountType)"

definition applyDecision :: "env \<Rightarrow> int \<Rightarrow> db \<Rightarrow> decision \<Rightarrow> (decision_result \<times> db) res" where
  "applyDecision E now s args =
     rbind (ensure (ds_action args \<noteq> None) (BadRequestException ''INVALID_GUARANTOR_ACTION'')) (\<lambda>_.
     rbind (ensure (\<not> (ds_action args = Some ACCEPT \<and> ds_source args = decision_source.MEMBER \<and> \<not> ds_acknowledged args))
       (BadRequestException ''DIGITAL_ACKNOWLEDGMENT_REQUIRED'')) (\<lambda>_.
     rbind (required (NotFoundException ''Guarantor request not found'')
       (lockGuarantor s (ds_tenantId args) (ds_loanId args) (ds_matcher args))) (\<lambda>g.
     rbind (ensure (lg_status g = GuarantorStatus.PENDING) (ConflictException ''Guarantor request already answered'')) (\<lambda>_.
     rbind (required (NotFoundException ''Loan not found'') (loanById s (ds_loanId args) (ds_tenantId args))) (\<lambda>loan.
     rbind (required (InternalError ''LoanProduct'') (productOf s loan)) (\<lambda>pdt.
     let nextStatus = decidedStatus now args g in
     rbind (if nextStatus = GuarantorStatus.ACCEPTED
       then pledgeFor E s (ds_tenantId args) g (resolveAccountType pdt) else Inr s) (\<lambda>s1.
     rbind (updateGuarantors (\<lambda>x. lg_id x = lg_id g \<and> lg_tenantId x = ds_tenantId args \<and>
         lg_status x = GuarantorStatus.PENDING)
       (\<lambda>x. x\<lparr>lg_status := nextStatus, lg_holdPlacedAt :=
          (if nextStatus = GuarantorStatus.ACCEPTED then Some now else lg_holdPlacedAt x)\<rparr>) s1) (\<lambda>(_, s2).
     let s3 = (if nextStatus = GuarantorStatus.ACCEPTED
           then writeAudit (ds_tenantId args) (ds_actorUserId args) ''GUARANTOR.HOLD_PLACED'' (lg_id g) s2 else s2);
         s4 = writeAudit (ds_tenantId args) (ds_actorUserId args)
           (if ds_source args = ADMIN_OVERRIDE then ''GUARANTOR.ADMIN_OVERRIDE''
            else ''GUARANTOR.'' @ guarantor_status_name nextStatus) (lg_id g) s3 in
     rbind (applyLoanState E now s4 (ds_tenantId args) (ds_loanId args) loan pdt (ds_actorUserId args) nextStatus)
       (\<lambda>((loanStatus, remaining), s5).
     Inr (\<lparr>dc_loanId = ds_loanId args, dc_guarantorId = lg_id g, dc_memberId = lg_memberId g,
            dc_status = nextStatus, dc_loanStatus = loanStatus, dc_remainingCoverage = remaining\<rparr>, s5))))))))))"

datatype reservation = COMPLETED decision_result | PROCESSING | RESERVED

definition respondAsMember ::
  "env \<Rightarrow> int \<Rightarrow> (string \<Rightarrow> reservation) \<Rightarrow> db \<Rightarrow> ident \<Rightarrow> ident \<Rightarrow> workflow_action option \<Rightarrow> bool \<Rightarrow> ident \<Rightarrow> ident \<Rightarrow>
   string option \<Rightarrow> (decision_result \<times> db) res" where
  "respondAsMember E now reserve s loanId guarantorMemberId action acknowledged tenantId actorUserId idempotencyHeader =
     (let headerKey = (case idempotencyHeader of None \<Rightarrow> '''' | Some h \<Rightarrow> trim h) in
      rbind (ensure (headerKey \<noteq> '''') (BadRequestException ''IDEMPOTENCY_KEY_REQUIRED'')) (\<lambda>_.
      rbind (required (ForbiddenException ''Not authorized to respond to this guarantor request'')
        (findFirst (\<lambda>m. mb_id m = guarantorMemberId \<and> mb_tenantId m = tenantId \<and> mb_isActive m \<and>
           mb_userId m = actorUserId) (members s))) (\<lambda>_.
      case reserve (''guarantor:response:'' @ loanId @ '':'' @ guarantorMemberId @ '':'' @ headerKey) of
        COMPLETED r \<Rightarrow> Inr (r, s)
      | PROCESSING \<Rightarrow> Inl (ConflictException ''Guarantor response is already processing'')
      | RESERVED \<Rightarrow> applyDecision E now s
          \<lparr>ds_loanId = loanId, ds_tenantId = tenantId, ds_actorUserId = actorUserId,
           ds_matcher = memberId guarantorMemberId, ds_action = action, ds_acknowledged = acknowledged,
           ds_source = decision_source.MEMBER\<rparr>)))"

definition adminOverride ::
  "env \<Rightarrow> int \<Rightarrow> db \<Rightarrow> ident \<Rightarrow> ident \<Rightarrow> workflow_action option \<Rightarrow> bool \<Rightarrow> string option \<Rightarrow> ident \<Rightarrow> ident \<Rightarrow>
   (decision_result \<times> db) res" where
  "adminOverride E now s loanId guarantorIdOrMemberId action acknowledged notes tenantId actorUserId =
     rbind (ensure ((case notes of None \<Rightarrow> '''' | Some n \<Rightarrow> trim n) \<noteq> '''')
       (BadRequestException ''ADMIN_OVERRIDE_REASON_REQUIRED'')) (\<lambda>_.
     applyDecision E now s
       \<lparr>ds_loanId = loanId, ds_tenantId = tenantId, ds_actorUserId = actorUserId,
        ds_matcher = idOrMemberId guarantorIdOrMemberId, ds_action = action, ds_acknowledged = acknowledged,
        ds_source = ADMIN_OVERRIDE\<rparr>)"

section \<open>Lemmas: holds\<close>

context decimal_runtime
begin

lemma placeHold_hold: "placeHold E t ty s g = Inr s' \<Longrightarrow> hold_step s s'"
  by (auto simp: placeHold_def Let_def res_simps intro!: hold_step_updateAccounts
      simp: purse_def places_add)

lemma releaseHold_hold: "releaseHold E t ty s g = Inr s' \<Longrightarrow> hold_step s s'"
  by (auto simp: releaseHold_def Let_def res_simps intro!: hold_step_updateAccounts
      simp: purse_def places_diff split: option.splits if_splits)

lemma placeHolds_hold: "placeGuarantorHolds E s t noms ty = Inr s' \<Longrightarrow> hold_step s s'"
  by (auto simp: placeGuarantorHolds_def res_simps dest: hold_step_foldM [OF _ placeHold_hold])

lemma releaseHolds_hold: "releaseGuarantorHolds E s t noms ty = Inr s' \<Longrightarrow> hold_step s s'"
  by (auto simp: releaseGuarantorHolds_def res_simps dest: hold_step_foldM [OF _ releaseHold_hold])

lemma releaseAcceptedHold_hold:
  assumes "releaseAcceptedHold E now t u ty s g = Inr s'"
  shows "hold_step s s'"
proof (cases "lg_holdReleasedAt g = None")
  case False
  then show ?thesis using assms by (simp add: releaseAcceptedHold_def)
next
  case True
  with assms obtain s1 n s2 where rel: "releaseGuarantorHolds E s t [(lg_memberId g, Some (lg_guaranteedAmount g))] ty = Inr s1"
    and upd: "updateGuarantors (\<lambda>x. lg_id x = lg_id g \<and> lg_tenantId x = t) (\<lambda>x. x\<lparr>lg_holdReleasedAt := Some now\<rparr>) s1 = Inr (n, s2)"
    and s': "s' = writeAudit t u ''GUARANTOR.HOLD_RELEASED'' (lg_id g) s2"
    by (auto simp: releaseAcceptedHold_def res_simps)
  have "hold_step s s2" by (rule hold_step_trans [OF releaseHolds_hold [OF rel] hold_step_updateGuarantors [OF upd]])
  then show ?thesis unfolding s' by (rule hold_step_trans) simp
qed

lemma releaseAcceptedHolds_hold: "releaseAcceptedHolds E now t u p gs s = Inr s' \<Longrightarrow> hold_step s s'"
  unfolding releaseAcceptedHolds_def by (rule hold_step_foldM [OF _ releaseAcceptedHold_hold])

end

section \<open>Lemmas: the loan\<close>

lemma setPendingLoan_same:
  "wf_db (setPendingLoan t l st s) = wf_db s" "map acc_balance (accounts (setPendingLoan t l st s)) = map acc_balance (accounts s)"
  "transactions (setPendingLoan t l st s) = transactions s" "journalEntries (setPendingLoan t l st s) = journalEntries s"
  "guarantors (setPendingLoan t l st s) = guarantors s"
  by (simp_all add: setPendingLoan_def)

lemma setPendingLoan_row:
  assumes "loanById s l t = Some loan" "ln_status loan = LoanStatus.PENDING_GUARANTORS" "wf_loans s" "loans s1 = loans s"
  shows "loans (setPendingLoan t l st s1) = map (\<lambda>x. if ln_id x = l then x\<lparr>ln_status := st\<rparr> else x) (loans s)"
proof -
  note lo = loanById_Some [OF assms(1)]
  have same: "x = loan" if "x \<in> set (loans s)" "ln_id x = l" for x
    using that lo assms(3) by (auto simp: wf_loans_def intro: distinct_key_eq)
  have "(if ln_id x = l \<and> ln_tenantId x = t \<and> ln_status x = LoanStatus.PENDING_GUARANTORS
      then x\<lparr>ln_status := st\<rparr> else x) = (if ln_id x = l then x\<lparr>ln_status := st\<rparr> else x)"
    if "x \<in> set (loans s)" for x
    using same [OF that] lo(3) assms(2) by (cases "ln_id x = l") simp_all
  then show ?thesis by (simp add: setPendingLoan_def assms(4))
qed

context decimal_runtime
begin

lemma applyLoanState_effects:
  assumes run: "applyLoanState E now s t l loan pdt u latest = Inr ((st, remaining), s')"
    and loan: "loanById s l t = Some loan" and wf: "wf_db s" "wf_loans s"
  shows "wf_db s' \<and> map acc_balance (accounts s') = map acc_balance (accounts s) \<and>
    transactions s' = transactions s \<and> journalEntries s' = journalEntries s \<and>
    loans s' = map (\<lambda>x. if ln_id x = l then x\<lparr>ln_status := st\<rparr> else x) (loans s) \<and>
    (st = ln_status loan \<or> canTransition (ln_status loan) st) \<and>
    (st = LoanStatus.PENDING_APPROVAL \<and> ln_status loan = LoanStatus.PENDING_GUARANTORS \<longrightarrow>
       withStatus GuarantorStatus.PENDING (loanGuarantorRows s' t l) = [] \<and>
       lp_minGuarantors pdt \<le> int (length (withStatus GuarantorStatus.ACCEPTED (loanGuarantorRows s' t l))) \<and>
       coverageOf E loan pdt \<le> dsum E lg_guaranteedAmount (withStatus GuarantorStatus.ACCEPTED (loanGuarantorRows s' t l)))"
proof -
  note lo = loanById_Some [OF loan]
  have "x = loan" if "x \<in> set (loans s)" "ln_id x = l" for x
    using that lo wf(2) by (auto simp: wf_loans_def intro: distinct_key_eq)
  then have same: "loans s = map (\<lambda>x. if ln_id x = l then x\<lparr>ln_status := z\<rparr> else x) (loans s)" if "z = ln_status loan" for z
    using that by (intro map_idI [symmetric]) auto
  let ?gs = "loanGuarantorRows s t l"
  let ?met = "withStatus GuarantorStatus.PENDING ?gs = [] \<and>
    lp_minGuarantors pdt \<le> int (length (withStatus GuarantorStatus.ACCEPTED ?gs)) \<and>
    coverageOf E loan pdt \<le> dsum E lg_guaranteedAmount (withStatus GuarantorStatus.ACCEPTED ?gs)"
  consider (idle) "ln_status loan \<noteq> LoanStatus.PENDING_GUARANTORS" | (met) "ln_status loan = LoanStatus.PENDING_GUARANTORS" ?met
    | (unmet) "ln_status loan = LoanStatus.PENDING_GUARANTORS" "\<not> ?met" by blast
  then show ?thesis
  proof cases
    case idle
    then have "st = ln_status loan" "s' = s" using run by (simp_all add: applyLoanState_def)
    then show ?thesis using idle wf(1) same [of st] by simp
  next
    case met
    then have r: "st = LoanStatus.PENDING_APPROVAL"
      "s' = writeAudit t u ''LOAN.PENDING_APPROVAL'' l (setPendingLoan t l LoanStatus.PENDING_APPROVAL s)"
      using run by (simp_all add: applyLoanState_def Let_def)
    have w: "loans s' = loans (setPendingLoan t l LoanStatus.PENDING_APPROVAL s)" "guarantors s' = guarantors s"
      "accounts s' = accounts s" "transactions s' = transactions s" "journalEntries s' = journalEntries s" "wf_db s'"
      using wf(1) by (simp_all add: r(2) setPendingLoan_same) (simp_all add: writeAudit_def setPendingLoan_def)
    have "loanGuarantorRows s' = loanGuarantorRows s" by (intro ext) (simp add: loanGuarantorRows_def w(2))
    then show ?thesis using met(2) w setPendingLoan_row [OF loan met(1) wf(2) refl] met(1)
      by (simp add: r(1) canTransition_def)
  next
    case unmet
    note run = run [unfolded applyLoanState_def Let_def if_not_P [OF unmet(2)]]
    have npg: "\<not> ln_status loan \<noteq> LoanStatus.PENDING_GUARANTORS" using unmet(1) by simp
    note run = run [unfolded if_not_P [OF npg]]
    from run consider (stays) "st = LoanStatus.PENDING_GUARANTORS" "hold_step s s'"
      | (dead) s1 where "st = LoanStatus.REJECTED_GUARANTOR_DECLINE" "hold_step s s1"
        "s' = writeAudit t u ''LOAN.REJECTED_GUARANTOR_DECLINE'' l (setPendingLoan t l LoanStatus.REJECTED_GUARANTOR_DECLINE s1)"
      using unmet(1) by (auto simp: res_simps split: if_splits dest: releaseAcceptedHolds_hold)
    then show ?thesis
    proof cases
      case stays
      then show ?thesis using unmet(1) wf(1) same [of st] hold_step_same [OF stays(2)] by simp
    next
      case dead
      have w: "loans s' = loans (setPendingLoan t l LoanStatus.REJECTED_GUARANTOR_DECLINE s1)"
        "accounts s' = accounts s1" "transactions s' = transactions s1" "journalEntries s' = journalEntries s1" "wf_db s' = wf_db s1"
        by (simp_all add: dead(3) setPendingLoan_same) (simp_all add: writeAudit_def setPendingLoan_def)
      note h = hold_step_same [OF dead(2)]
      show ?thesis using w h wf(1) setPendingLoan_row [OF loan unmet(1) wf(2) h(1)] unmet(1)
        by (simp add: dead(1) canTransition_def)
    qed
  qed
qed

end

context decimal_runtime
begin

lemma applyDecision_steps:
  assumes "applyDecision E now s args = Inr (r, s')"
  obtains loan pdt s4 remaining u latest where
    "loanById s (ds_loanId args) (ds_tenantId args) = Some loan" "productOf s loan = Some pdt" "hold_step s s4"
    "applyLoanState E now s4 (ds_tenantId args) (ds_loanId args) loan pdt u latest =
       Inr ((dc_loanStatus r, remaining), s')"
proof -
  note run = assms [unfolded applyDecision_def]
  from run have ok: "ds_action args \<noteq> None" "\<not> (ds_action args = Some ACCEPT \<and>
      ds_source args = decision_source.MEMBER \<and> \<not> ds_acknowledged args)" by (auto simp: res_simps)
  note run = run [unfolded ensure_def if_P [OF ok(1)] if_P [OF ok(2)] rbind.simps]
  from run obtain g where g: "lockGuarantor s (ds_tenantId args) (ds_loanId args) (ds_matcher args) = Some g"
    by (auto simp: res_simps)
  note run = run [unfolded g required_Some rbind.simps]
  from run have pend: "lg_status g = GuarantorStatus.PENDING" by (auto split: if_splits)
  note run = run [unfolded if_P [OF pend] rbind.simps]
  from run obtain loan where loan: "loanById s (ds_loanId args) (ds_tenantId args) = Some loan" by (auto simp: res_simps)
  note run = run [unfolded loan required_Some rbind.simps]
  from run obtain pdt where pdt: "productOf s loan = Some pdt" by (auto simp: res_simps)
  note run = run [unfolded pdt required_Some rbind.simps Let_def]
  let ?next = "decidedStatus now args g"
  from run obtain s1 where pl: "(if ?next = GuarantorStatus.ACCEPTED
      then pledgeFor E s (ds_tenantId args) g (resolveAccountType pdt) else Inr s) = Inr s1" by (rule rbind_InrE)
  note run = run [unfolded pl rbind.simps]
  have h1: "hold_step s s1"
    using pl by (auto simp: pledgeFor_def res_simps split: if_splits dest: placeHolds_hold)
  from run obtain n s2 where upd: "updateGuarantors (\<lambda>x. lg_id x = lg_id g \<and> lg_tenantId x = ds_tenantId args \<and>
         lg_status x = GuarantorStatus.PENDING)
       (\<lambda>x. x\<lparr>lg_status := ?next, lg_holdPlacedAt :=
          (if ?next = GuarantorStatus.ACCEPTED then Some now else lg_holdPlacedAt x)\<rparr>) s1 = Inr (n, s2)"
    by (rule rbind_Inr_pairE)
  note run = run [unfolded upd rbind.simps prod.case]
  let ?s3 = "if ?next = GuarantorStatus.ACCEPTED
    then writeAudit (ds_tenantId args) (ds_actorUserId args) ''GUARANTOR.HOLD_PLACED'' (lg_id g) s2 else s2"
  let ?s4 = "writeAudit (ds_tenantId args) (ds_actorUserId args) (if ds_source args = ADMIN_OVERRIDE
    then ''GUARANTOR.ADMIN_OVERRIDE'' else ''GUARANTOR.'' @ guarantor_status_name ?next) (lg_id g) ?s3"
  have h3: "hold_step s2 ?s3" by simp
  have h4: "hold_step s ?s4"
    by (rule hold_step_trans [OF hold_step_trans [OF hold_step_trans [OF h1
      hold_step_updateGuarantors [OF upd]] h3] hold_step_writeAudit])
  from run obtain out s5 where state: "applyLoanState E now ?s4 (ds_tenantId args) (ds_loanId args) loan pdt
      (ds_actorUserId args) ?next = Inr (out, s5)" by (rule rbind_Inr_pairE)
  obtain st remaining where out: "out = (st, remaining)" by (rule prod.exhaust)
  note run = run [unfolded state out rbind.simps prod.case sum.inject prod.inject]
  have "dc_loanStatus r = st" using conjunct1 [OF run, symmetric] by simp
  with state conjunct2 [OF run] have "applyLoanState E now ?s4 (ds_tenantId args) (ds_loanId args) loan pdt
      (ds_actorUserId args) ?next = Inr ((dc_loanStatus r, remaining), s')" by (simp only: out)
  then show thesis by (rule that [OF loan pdt h4])
qed

end

section \<open>Properties\<close>

text \<open>
  C36. Answering a guarantee moves no money: balances, transactions and journal entries stay. The
  loan's status is kept or moves along the table of transitions, and no other loan changes. A loan that
  the answer sends to approval is fully backed at that moment: nobody is left to answer, enough
  guarantors have accepted, and what they guarantee covers the principal times the ratio of the product.
\<close>

theorem decision_sound:
  assumes "decimal_runtime E" and "applyDecision E now s args = Inr (r, s')" and "wf_db s" "wf_loans s"
  shows "\<exists>loan pdt. loanById s (ds_loanId args) (ds_tenantId args) = Some loan \<and> productOf s loan = Some pdt \<and>
    wf_db s' \<and> map acc_balance (accounts s') = map acc_balance (accounts s) \<and>
    transactions s' = transactions s \<and> journalEntries s' = journalEntries s \<and>
    loans s' = map (\<lambda>x. if ln_id x = ds_loanId args then x\<lparr>ln_status := dc_loanStatus r\<rparr> else x) (loans s) \<and>
    (dc_loanStatus r = ln_status loan \<or> canTransition (ln_status loan) (dc_loanStatus r)) \<and>
    (dc_loanStatus r = LoanStatus.PENDING_APPROVAL \<and> ln_status loan = LoanStatus.PENDING_GUARANTORS \<longrightarrow>
       withStatus GuarantorStatus.PENDING (loanGuarantorRows s' (ds_tenantId args) (ds_loanId args)) = [] \<and>
       lp_minGuarantors pdt \<le> int (length (withStatus GuarantorStatus.ACCEPTED
         (loanGuarantorRows s' (ds_tenantId args) (ds_loanId args)))) \<and>
       coverageOf E loan pdt \<le> dsum E lg_guaranteedAmount (withStatus GuarantorStatus.ACCEPTED
         (loanGuarantorRows s' (ds_tenantId args) (ds_loanId args))))"
proof (rule decimal_runtime.applyDecision_steps [OF assms(1,2)])
  fix loan pdt s4 remaining u latest
  assume loan: "loanById s (ds_loanId args) (ds_tenantId args) = Some loan" "productOf s loan = Some pdt"
    and hold: "hold_step s s4"
    and state: "applyLoanState E now s4 (ds_tenantId args) (ds_loanId args) loan pdt u latest =
      Inr ((dc_loanStatus r, remaining), s')"
  note h = hold_step_same [OF hold]
  have "loanById s4 (ds_loanId args) (ds_tenantId args) = Some loan" using loan(1) h(13) by simp
  from decimal_runtime.applyLoanState_effects [OF assms(1) state this h(11) [OF assms(3)]] assms(4) h(1)
  show ?thesis unfolding h(1,3,4,10) wf_loans_def using loan by (intro exI [of _ loan] exI [of _ pdt]) blast
qed

definition consent_member :: "ident \<Rightarrow> member" where
  "consent_member i = \<lparr>mb_id = i, mb_tenantId = ''t'', mb_userId = ''u'' @ i, mb_isActive = True,
     mb_kycStatus = KycStatus.APPROVED, mb_accountStatus = AccountStatus.ACTIVE, mb_isBlacklisted = False\<rparr>"

definition consent_request :: "ident \<Rightarrow> ident \<Rightarrow> guarantor" where
  "consent_request i m = \<lparr>lg_id = i, lg_tenantId = ''t'', lg_loanId = ''l'', lg_memberId = m,
     lg_status = GuarantorStatus.PENDING, lg_guaranteedAmount = 100, lg_recoveredAmount = 0,
     lg_invitedAt = 0, lg_holdPlacedAt = None, lg_holdReleasedAt = None, lg_createdAt = 0\<rparr>"

definition consent :: "LoanStatus \<Rightarrow> db" where
  "consent st = empty_db\<lparr>accounts := [pledger ''1'' 500 0], members := [consent_member ''m1''],
     loans := [guarded_loan\<lparr>ln_status := st\<rparr>],
     loanProducts := [pledge_product\<lparr>lp_minGuarantors := 1\<rparr>], guarantors := [consent_request ''g1'' ''m1'']\<rparr>"

definition consent_answer :: decision where
  "consent_answer = \<lparr>ds_loanId = ''l'', ds_tenantId = ''t'', ds_actorUserId = ''um1'',
     ds_matcher = memberId ''m1'', ds_action = Some ACCEPT, ds_acknowledged = True, ds_source = decision_source.MEMBER\<rparr>"

definition after_answer :: "(decision_result \<times> db) res \<Rightarrow> LoanStatus option \<times> rat list \<times> GuarantorStatus list" where
  "after_answer out = (case out of Inl _ \<Rightarrow> (None, [], [])
     | Inr x \<Rightarrow> (Some (dc_loanStatus (fst x)), map acc_frozenSavings (accounts (snd x)), map lg_status (guarantors (snd x))))"

lemma consent_accepts:
  "after_answer (applyDecision plain_env 7 (consent LoanStatus.PENDING_GUARANTORS) consent_answer) =
     (Some LoanStatus.PENDING_APPROVAL, [100], [GuarantorStatus.ACCEPTED])"
  by code_simp

theorem decision_sound_witness:
  "\<exists>r s'. applyDecision plain_env 7 (consent LoanStatus.PENDING_GUARANTORS) consent_answer = Inr (r, s') \<and>
     dc_loanStatus r = LoanStatus.PENDING_APPROVAL \<and> wf_db s' \<and>
     map acc_balance (accounts s') = map acc_balance (accounts (consent LoanStatus.PENDING_GUARANTORS))"
proof -
  obtain r s' where run: "applyDecision plain_env 7 (consent LoanStatus.PENDING_GUARANTORS) consent_answer = Inr (r, s')"
    and st: "dc_loanStatus r = LoanStatus.PENDING_APPROVAL"
    using consent_accepts by (auto simp: after_answer_def split: sum.splits)
  have "wf_db (consent LoanStatus.PENDING_GUARANTORS)" "wf_loans (consent LoanStatus.PENDING_GUARANTORS)" by code_simp+
  from decision_sound [OF plain.decimal_runtime_axioms run this]
  have "wf_db s' \<and> map acc_balance (accounts s') = map acc_balance (accounts (consent LoanStatus.PENDING_GUARANTORS))"
    by (elim exE conjE) (intro conjI)
  with run st show ?thesis by blast
qed

text \<open>
  The status of the loan is not looked at before the hold is placed: a guarantor who still has an open
  request accepts after the loan was rejected, and its savings are frozen for a loan that is over.
\<close>

theorem accept_freezes_for_dead_loan:
  "after_answer (applyDecision plain_env 7 (consent LoanStatus.REJECTED_GUARANTOR_DECLINE) consent_answer) =
     (Some LoanStatus.REJECTED_GUARANTOR_DECLINE, [100], [GuarantorStatus.ACCEPTED])"
  by code_simp

end
