(* ===== verification/Guarantor_Expiry.thy ===== *)
theory Guarantor_Expiry
  imports Guarantor_Response
begin

text \<open>
  The sweep over unanswered guarantee requests,
  \<open>src/src/modules/queue/processors/guarantor-expiry.consumer.ts\<close>.

  An expired request is closed, a hold placed for it is released, and the loan that waited for it is
  rejected together with the holds of the guarantors who had accepted. The sweep of one tenant is one
  database transaction; a job without a tenant sweeps the active tenants one after the other
  (they are an argument, the table of tenants is not modelled), and a failure leaves the tenants before
  it swept. The actor of the audit rows is null, written as the empty identifier.

  Theorems: what a sweep of a tenant does, row by row, to guarantors and loans, and that nothing
  else moves.
\<close>

section \<open>One request\<close>

definition rejectLoanForGuarantorTimeout ::
  "env \<Rightarrow> int \<Rightarrow> ident \<Rightarrow> ident \<Rightarrow> loan_product \<Rightarrow> db \<Rightarrow> db res" where
  "rejectLoanForGuarantorTimeout E now tenantId loanId product s =
     (case findFirst (\<lambda>l. ln_id l = loanId \<and> ln_tenantId l = tenantId \<and>
        ln_status l = LoanStatus.PENDING_GUARANTORS) (loans s) of
        None \<Rightarrow> Inr s
      | Some loan \<Rightarrow>
        (let acceptedRows = withStatus GuarantorStatus.ACCEPTED (loanGuarantorRows s tenantId loanId) in
         rbind (foldM (releaseAcceptedHold E now tenantId '''' (resolveAccountType product)) s acceptedRows) (\<lambda>s1.
         rbind (assertTransition (ln_status loan) LoanStatus.REJECTED_GUARANTOR_DECLINE) (\<lambda>_.
         Inr (writeAudit tenantId '''' ''LOAN.REJECTED_GUARANTOR_DECLINE'' loanId
           (setPendingLoan tenantId loanId LoanStatus.REJECTED_GUARANTOR_DECLINE s1))))))"

definition expireGuarantor ::
  "env \<Rightarrow> int \<Rightarrow> ident \<Rightarrow> db \<Rightarrow> guarantor \<times> loan_product \<Rightarrow> db res" where
  "expireGuarantor E now tenantId s row =
     (let (g, product) = row; held = (lg_holdPlacedAt g \<noteq> None) in
      rbind (if held then releaseGuarantorHolds E s tenantId
          [(lg_memberId g, Some (lg_guaranteedAmount g))] (resolveAccountType product) else Inr s) (\<lambda>s1.
      rbind (updateGuarantors (\<lambda>x. lg_id x = lg_id g \<and> lg_tenantId x = tenantId \<and>
          lg_status x = GuarantorStatus.PENDING)
        (\<lambda>x. x\<lparr>lg_status := GuarantorStatus.EXPIRED, lg_holdReleasedAt :=
           (if held then Some now else lg_holdReleasedAt x)\<rparr>) s1) (\<lambda>(_, s2).
      let s3 = (if held then writeAudit tenantId '''' ''GUARANTOR.HOLD_RELEASED'' (lg_id g) s2 else s2);
          s4 = writeAudit tenantId '''' ''GUARANTOR.EXPIRED'' (lg_id g) s3 in
      rejectLoanForGuarantorTimeout E now tenantId (lg_loanId g) product s4)))"

section \<open>The sweep\<close>

text \<open>The rows are read with their loan's product before the first of them is treated.\<close>

definition requestProduct :: "db \<Rightarrow> guarantor \<Rightarrow> (guarantor \<times> loan_product) res" where
  "requestProduct s g =
     rbind (required (InternalError ''Loan'') (findFirst (\<lambda>l. ln_id l = lg_loanId g) (loans s))) (\<lambda>loan.
     rbind (required (InternalError ''LoanProduct'') (productOf s loan)) (\<lambda>pdt. Inr (g, pdt)))"

fun requestProducts :: "db \<Rightarrow> guarantor list \<Rightarrow> (guarantor \<times> loan_product) list res" where
  "requestProducts s [] = Inr []"
| "requestProducts s (g # gs) =
     rbind (requestProduct s g) (\<lambda>r. rbind (requestProducts s gs) (\<lambda>rs. Inr (r # rs)))"

definition unanswered :: "ident \<Rightarrow> int \<Rightarrow> guarantor \<Rightarrow> bool" where
  "unanswered tenantId cutoff g \<longleftrightarrow> lg_tenantId g = tenantId \<and> lg_status g = GuarantorStatus.PENDING \<and>
     lg_invitedAt g < cutoff"

definition expireTenantGuarantors :: "env \<Rightarrow> int \<Rightarrow> ident \<Rightarrow> int \<Rightarrow> db \<Rightarrow> db res" where
  "expireTenantGuarantors E now tenantId cutoff s =
     rbind (requestProducts s (filter (unanswered tenantId cutoff) (guarantors s))) (\<lambda>expired.
     foldM (expireGuarantor E now tenantId) s expired)"

definition expireSpecificGuarantor :: "env \<Rightarrow> int \<Rightarrow> ident \<Rightarrow> ident \<Rightarrow> ident \<Rightarrow> db \<Rightarrow> db res" where
  "expireSpecificGuarantor E now tenantId loanId guarantorId s =
     (case findFirst (\<lambda>g. lg_tenantId g = tenantId \<and> lg_loanId g = loanId \<and>
        lg_status g = GuarantorStatus.PENDING \<and> (lg_id g = guarantorId \<or> lg_memberId g = guarantorId)) (guarantors s) of
        None \<Rightarrow> Inr s
      | Some g \<Rightarrow> rbind (requestProduct s g) (expireGuarantor E now tenantId s))"

text \<open>The tenants are swept in their own transactions: the exception comes with the database it leaves.\<close>

fun sweepTenants :: "env \<Rightarrow> int \<Rightarrow> int \<Rightarrow> ident list \<Rightarrow> db \<Rightarrow> exn option \<times> db" where
  "sweepTenants E now cutoff [] s = (None, s)"
| "sweepTenants E now cutoff (t # ts) s =
     (case expireTenantGuarantors E now t cutoff s of
        Inl e \<Rightarrow> (Some e, s)
      | Inr s' \<Rightarrow> sweepTenants E now cutoff ts s')"

record expiry_job =
  ej_name :: string
  ej_tenantId :: "ident option"
  ej_loanId :: "ident option"
  ej_guarantorId :: "ident option"
  ej_cutoff :: "int option"

definition GUARANTOR_EXPIRY_CHECK_JOB :: string where
  "GUARANTOR_EXPIRY_CHECK_JOB = ''guarantor-expiry-check''"

definition expiryProcess :: "env \<Rightarrow> int \<Rightarrow> ident list \<Rightarrow> expiry_job \<Rightarrow> db \<Rightarrow> exn option \<times> db" where
  "expiryProcess E now activeTenants job s =
     (if ej_name job \<noteq> GUARANTOR_EXPIRY_CHECK_JOB then (None, s)
      else
        (let cutoff = (case ej_cutoff job of Some c \<Rightarrow> c | None \<Rightarrow> now - CONSENT_WINDOW) in
         case (ej_tenantId job, ej_loanId job, ej_guarantorId job) of
           (Some t, Some l, Some g) \<Rightarrow>
             (case expireSpecificGuarantor E now t l g s of Inl e \<Rightarrow> (Some e, s) | Inr s' \<Rightarrow> (None, s'))
         | (Some t, _, _) \<Rightarrow> sweepTenants E now cutoff [t] s
         | (None, _, _) \<Rightarrow> sweepTenants E now cutoff activeTenants s))"

definition runHourlyExpirySweep :: "env \<Rightarrow> int \<Rightarrow> ident list \<Rightarrow> db \<Rightarrow> exn option \<times> db" where
  "runHourlyExpirySweep E now activeTenants s = sweepTenants E now (now - CONSENT_WINDOW) activeTenants s"

section \<open>Lemmas\<close>

definition unreleased :: "guarantor \<Rightarrow> guarantor" where
  "unreleased g = g\<lparr>lg_holdReleasedAt := None\<rparr>"

definition expiredRow :: "ident \<Rightarrow> ident set \<Rightarrow> guarantor \<Rightarrow> guarantor" where
  "expiredRow t ids x = (if lg_id x \<in> ids \<and> lg_tenantId x = t \<and> lg_status x = GuarantorStatus.PENDING
     then x\<lparr>lg_status := GuarantorStatus.EXPIRED\<rparr> else x)"

definition rejectedRow :: "ident \<Rightarrow> ident set \<Rightarrow> loan \<Rightarrow> loan" where
  "rejectedRow t ids l = (if ln_id l \<in> ids \<and> ln_tenantId l = t \<and> ln_status l = LoanStatus.PENDING_GUARANTORS
     then l\<lparr>ln_status := LoanStatus.REJECTED_GUARANTOR_DECLINE\<rparr> else l)"

lemma unreleased_simps [simp]:
  "lg_id (unreleased g) = lg_id g" "lg_tenantId (unreleased g) = lg_tenantId g" "lg_loanId (unreleased g) = lg_loanId g"
  "lg_status (unreleased g) = lg_status g" "unreleased (g\<lparr>lg_holdReleasedAt := x\<rparr>) = unreleased g"
  by (simp_all add: unreleased_def)

lemma treated_none [simp]: "expiredRow t {} = (\<lambda>x. x)" "rejectedRow t {} = (\<lambda>l. l)"
  by (auto simp: expiredRow_def rejectedRow_def)

lemma expiredRow_twice: "expiredRow t B (expiredRow t A x) = expiredRow t (A \<union> B) x"
  by (auto simp: expiredRow_def)

lemma rejectedRow_twice: "rejectedRow t B (rejectedRow t A l) = rejectedRow t (A \<union> B) l"
  by (auto simp: rejectedRow_def)

lemma expiredRow_unreleased: "expiredRow t A (unreleased x) = unreleased (expiredRow t A x)"
  by (simp add: expiredRow_def unreleased_def)

text \<open>Which holds are marked released never shrinks.\<close>

definition kept_released :: "db \<Rightarrow> db \<Rightarrow> bool" where
  "kept_released s s' \<longleftrightarrow> list_all2 (\<lambda>x y. lg_id y = lg_id x \<and> (lg_holdReleasedAt x \<noteq> None \<longrightarrow> lg_holdReleasedAt y \<noteq> None))
     (guarantors s) (guarantors s')"

lemma kept_released_eq [simp]: "guarantors s' = guarantors s \<Longrightarrow> kept_released s s'"
  by (simp add: kept_released_def list_all2_same)

lemma kept_released_trans: "kept_released s s' \<Longrightarrow> kept_released s' s'' \<Longrightarrow> kept_released s s''"
  unfolding kept_released_def by (erule (1) list_all2_trans [rotated]) auto

lemma kept_released_update:
  assumes "updateGuarantors P f s = Inr (n, s')"
    and "\<And>x. lg_id (f x) = lg_id x" "\<And>x. lg_holdReleasedAt x \<noteq> None \<Longrightarrow> lg_holdReleasedAt (f x) \<noteq> None"
  shows "kept_released s s'"
  using assms by (auto simp: updateGuarantors_Inr kept_released_def list_all2_map2 list_all2_same)

text \<open>Every row after a run of steps comes from one before.\<close>

lemma row_before:
  assumes "kept_released s s'" and "map unreleased (guarantors s') = map (unreleased \<circ> f) (guarantors s)"
    and "x \<in> set (guarantors s')"
  obtains y where "y \<in> set (guarantors s)" "unreleased x = unreleased (f y)"
    "lg_holdReleasedAt y \<noteq> None \<Longrightarrow> lg_holdReleasedAt x \<noteq> None"
proof -
  from assms(3) obtain i where i: "i < length (guarantors s')" "x = guarantors s' ! i" by (auto simp: in_set_conv_nth)
  note l2 = assms(1) [unfolded kept_released_def]
  have len: "i < length (guarantors s)" using i(1) list_all2_lengthD [OF l2] by simp
  have "unreleased x = unreleased (f (guarantors s ! i))"
    using arg_cong [OF assms(2), of "\<lambda>xs. xs ! i"] len i by simp
  moreover have "lg_holdReleasedAt (guarantors s ! i) \<noteq> None \<Longrightarrow> lg_holdReleasedAt x \<noteq> None"
    using list_all2_nthD [OF l2 len] i(2) by blast
  ultimately show thesis using that len nth_mem by blast
qed

lemma unreleased_eqD:
  assumes "unreleased x = unreleased y"
  shows "lg_id x = lg_id y" "lg_tenantId x = lg_tenantId y" "lg_loanId x = lg_loanId y" "lg_status x = lg_status y"
  using assms unreleased_simps(1-4) by metis+

lemma hold_step_loans:
  assumes "hold_step s s'"
  shows "hold_step (s\<lparr>loans := x\<rparr>) (s'\<lparr>loans := x\<rparr>)"
proof -
  note h = assms [unfolded hold_step_def]
  have "s'\<lparr>loans := x\<rparr> = s\<lparr>loans := x, accounts := accounts s', guarantors := guarantors s', auditLog := auditLog s'\<rparr>"
    by (rule trans [OF arg_cong [OF conjunct1 [OF h], of "\<lambda>y. y\<lparr>loans := x\<rparr>"]]) simp
  moreover have "wf_db s \<longrightarrow> wf_db (s'\<lparr>loans := x\<rparr>)" using h by simp
  ultimately show ?thesis unfolding hold_step_def using conjunct2 [OF h] by (intro conjI) simp_all
qed

context decimal_runtime
begin

lemma releaseHold_guarantors: "releaseHold E t ty s g = Inr s' \<Longrightarrow> guarantors s' = guarantors s"
  by (auto simp: releaseHold_def Let_def res_simps updateAccounts_Inr split: option.splits if_splits)

lemma releaseHolds_guarantors:
  assumes "releaseGuarantorHolds E s t noms ty = Inr s'"
  shows "guarantors s' = guarantors s"
proof -
  from assms obtain ns where "foldM (releaseHold E t ty) s ns = Inr s'"
    by (auto simp: releaseGuarantorHolds_def res_simps)
  then show ?thesis
    by (rule foldM_inv [where P = "\<lambda>x. guarantors x = guarantors s"]) (auto dest: releaseHold_guarantors)
qed

lemma releaseAcceptedHold_rows:
  assumes "releaseAcceptedHold E now t u ty s g = Inr s'"
  shows "map unreleased (guarantors s') = map unreleased (guarantors s) \<and> kept_released s s' \<and>
    (\<forall>x \<in> set (guarantors s'). lg_id x = lg_id g \<and> lg_tenantId x = t \<and> lg_holdReleasedAt g = None \<longrightarrow> lg_holdReleasedAt x \<noteq> None)"
proof (cases "lg_holdReleasedAt g = None")
  case False
  then show ?thesis using assms by (auto simp: releaseAcceptedHold_def)
next
  case True
  with assms obtain s1 n s2 where rel: "releaseGuarantorHolds E s t [(lg_memberId g, Some (lg_guaranteedAmount g))] ty = Inr s1"
    and upd: "updateGuarantors (\<lambda>x. lg_id x = lg_id g \<and> lg_tenantId x = t) (\<lambda>x. x\<lparr>lg_holdReleasedAt := Some now\<rparr>) s1 = Inr (n, s2)"
    and s': "s' = writeAudit t u ''GUARANTOR.HOLD_RELEASED'' (lg_id g) s2"
    by (auto simp: releaseAcceptedHold_def res_simps)
  note g1 = releaseHolds_guarantors [OF rel]
  have "kept_released s s'"
    using kept_released_trans [OF kept_released_eq [OF g1] kept_released_update [OF upd]]
    by (simp add: kept_released_def s' writeAudit_def)
  moreover from upd have "guarantors s2 = map (\<lambda>x. if lg_id x = lg_id g \<and> lg_tenantId x = t
      then x\<lparr>lg_holdReleasedAt := Some now\<rparr> else x) (guarantors s1)" by (simp add: updateGuarantors_Inr)
  then have "guarantors s' = map (\<lambda>x. if lg_id x = lg_id g \<and> lg_tenantId x = t
      then x\<lparr>lg_holdReleasedAt := Some now\<rparr> else x) (guarantors s)" by (simp add: s' writeAudit_def g1)
  note eq = this
  have "map unreleased (guarantors s') = map unreleased (guarantors s)" unfolding eq by simp
  moreover have "\<forall>x \<in> set (guarantors s'). lg_id x = lg_id g \<and> lg_tenantId x = t \<longrightarrow> lg_holdReleasedAt x \<noteq> None"
  proof (intro ballI impI)
    fix x
    assume x: "x \<in> set (guarantors s')" "lg_id x = lg_id g \<and> lg_tenantId x = t"
    from x(1) obtain y where "x = (if lg_id y = lg_id g \<and> lg_tenantId y = t
        then y\<lparr>lg_holdReleasedAt := Some now\<rparr> else y)" unfolding eq by (elim imageE list.set_map [THEN equalityD1, THEN subsetD, elim_format])
    with x(2) show "lg_holdReleasedAt x \<noteq> None" by (cases "lg_id y = lg_id g \<and> lg_tenantId y = t") simp_all
  qed
  ultimately show ?thesis by blast
qed

lemma releaseAcceptedHolds_rows:
  assumes "foldM (releaseAcceptedHold E now t u ty) s gs = Inr s'"
  shows "map unreleased (guarantors s') = map unreleased (guarantors s) \<and> kept_released s s' \<and>
    (\<forall>x \<in> set (guarantors s'). \<forall>g \<in> set gs. lg_id x = lg_id g \<and> lg_tenantId x = t \<and> lg_holdReleasedAt g = None
       \<longrightarrow> lg_holdReleasedAt x \<noteq> None)"
  using assms
proof (induction gs arbitrary: s)
  case Nil
  then show ?case by simp
next
  case (Cons g gs)
  from Cons.prems obtain s1 where one: "releaseAcceptedHold E now t u ty s g = Inr s1"
    and rest: "foldM (releaseAcceptedHold E now t u ty) s1 gs = Inr s'" by (auto simp: res_simps)
  note r1 = releaseAcceptedHold_rows [OF one] and r2 = Cons.IH [OF rest]
  have "lg_holdReleasedAt x \<noteq> None"
    if x: "x \<in> set (guarantors s')" "lg_id x = lg_id g" "lg_tenantId x = t" "lg_holdReleasedAt g = None" for x
  proof -
    from row_before [OF conjunct1 [OF conjunct2 [OF r2]] _ x(1), of id] r2
    obtain y where y: "y \<in> set (guarantors s1)" "unreleased x = unreleased y"
      "lg_holdReleasedAt y \<noteq> None \<Longrightarrow> lg_holdReleasedAt x \<noteq> None" by auto
    then have "lg_holdReleasedAt y \<noteq> None" using r1 unreleased_eqD [OF y(2)] x(2-4) by metis
    then show ?thesis by (rule y(3))
  qed
  then show ?case using r1 r2 kept_released_trans by auto
qed

text \<open>What one sweep step does, for the set of treated requests and of rejected loans.\<close>

lemma rejectLoan_effects:
  assumes "rejectLoanForGuarantorTimeout E now t k p s = Inr s'"
  shows "hold_step (s\<lparr>loans := map (rejectedRow t {k}) (loans s)\<rparr>) s' \<and>
    map unreleased (guarantors s') = map unreleased (guarantors s) \<and> kept_released s s' \<and>
    (\<forall>x \<in> set (guarantors s'). lg_loanId x = k \<and> lg_tenantId x = t \<and> lg_status x = GuarantorStatus.ACCEPTED \<and>
       (\<exists>l \<in> set (loans s). ln_id l = k \<and> ln_tenantId l = t \<and> ln_status l = LoanStatus.PENDING_GUARANTORS)
       \<longrightarrow> lg_holdReleasedAt x \<noteq> None)"
proof (cases "\<exists>l \<in> set (loans s). ln_id l = k \<and> ln_tenantId l = t \<and> ln_status l = LoanStatus.PENDING_GUARANTORS")
  case False
  then have none: "findFirst (\<lambda>l. ln_id l = k \<and> ln_tenantId l = t \<and> ln_status l = LoanStatus.PENDING_GUARANTORS) (loans s) = None"
    by (auto simp: table_simps)
  have same: "s\<lparr>loans := map (rejectedRow t {k}) (loans s)\<rparr> = s"
    using False loan_table.update_miss [of s "\<lambda>_. False"] by (simp add: map_idI rejectedRow_def)
  have s': "s' = s" using assms none by (simp add: rejectLoanForGuarantorTimeout_def)
  show ?thesis unfolding s' same
    by (intro conjI hold_step_refl refl kept_released_eq) (use False in blast)
next
  case True
  then obtain l where l: "findFirst (\<lambda>l. ln_id l = k \<and> ln_tenantId l = t \<and> ln_status l = LoanStatus.PENDING_GUARANTORS) (loans s) = Some l"
    by (elim bexE) (drule (1) findFirst_ex, elim exE)
  let ?gs = "withStatus GuarantorStatus.ACCEPTED (loanGuarantorRows s t k)"
  from assms l obtain s1 where run: "foldM (releaseAcceptedHold E now t '''' (resolveAccountType p)) s ?gs = Inr s1"
    and s': "s' = writeAudit t '''' ''LOAN.REJECTED_GUARANTOR_DECLINE'' k (setPendingLoan t k LoanStatus.REJECTED_GUARANTOR_DECLINE s1)"
    by (auto simp: rejectLoanForGuarantorTimeout_def Let_def res_simps)
  note rows = releaseAcceptedHolds_rows [OF run]
  have hold: "hold_step s s1" by (rule hold_step_foldM [OF run releaseAcceptedHold_hold])
  have g': "guarantors s' = guarantors s1" by (simp add: s' writeAudit_def setPendingLoan_def)
  have "setPendingLoan t k LoanStatus.REJECTED_GUARANTOR_DECLINE s1 = s1\<lparr>loans := map (rejectedRow t {k}) (loans s)\<rparr>"
    by (simp add: setPendingLoan_def hold_step_same(1) [OF hold] rejectedRow_def)
  then have "hold_step (s\<lparr>loans := map (rejectedRow t {k}) (loans s)\<rparr>) s'"
    unfolding s' by (simp only:) (rule hold_step_trans [OF hold_step_loans [OF hold] hold_step_writeAudit])
  moreover have "lg_holdReleasedAt x \<noteq> None" if x: "x \<in> set (guarantors s')" "lg_loanId x = k" "lg_tenantId x = t"
      "lg_status x = GuarantorStatus.ACCEPTED" for x
  proof -
    from row_before [of s s' id x] rows x(1)
    obtain y where y: "y \<in> set (guarantors s)" "unreleased x = unreleased y"
      "lg_holdReleasedAt y \<noteq> None \<Longrightarrow> lg_holdReleasedAt x \<noteq> None" by (auto simp: g' kept_released_def)
    note eqs = unreleased_eqD [OF y(2)]
    show ?thesis
    proof (cases "lg_holdReleasedAt y = None")
      case True
      moreover have "y \<in> set ?gs" using y(1) x(2-4) eqs by (simp add: withStatus_def loanGuarantorRows_def)
      ultimately show ?thesis using rows x(1,3) eqs(1) unfolding g' by metis
    qed (rule y(3))
  qed
  ultimately show ?thesis using rows by (simp add: g' kept_released_def)
qed

lemma expireGuarantor_effects:
  assumes "expireGuarantor E now t s (g, p) = Inr s'"
  shows "hold_step (s\<lparr>loans := map (rejectedRow t {lg_loanId g}) (loans s)\<rparr>) s' \<and>
    map unreleased (guarantors s') = map (unreleased \<circ> expiredRow t {lg_id g}) (guarantors s) \<and> kept_released s s' \<and>
    (\<forall>x \<in> set (guarantors s'). lg_loanId x = lg_loanId g \<and> lg_tenantId x = t \<and> lg_status x = GuarantorStatus.ACCEPTED \<and>
       (\<exists>l \<in> set (loans s). ln_id l = lg_loanId g \<and> ln_tenantId l = t \<and> ln_status l = LoanStatus.PENDING_GUARANTORS)
       \<longrightarrow> lg_holdReleasedAt x \<noteq> None)"
proof -
  from assms obtain s1 n s2 where rel: "(if lg_holdPlacedAt g \<noteq> None then releaseGuarantorHolds E s t
          [(lg_memberId g, Some (lg_guaranteedAmount g))] (resolveAccountType p) else Inr s) = Inr s1"
    and upd: "updateGuarantors (\<lambda>x. lg_id x = lg_id g \<and> lg_tenantId x = t \<and> lg_status x = GuarantorStatus.PENDING)
        (\<lambda>x. x\<lparr>lg_status := GuarantorStatus.EXPIRED, lg_holdReleasedAt :=
           (if lg_holdPlacedAt g \<noteq> None then Some now else lg_holdReleasedAt x)\<rparr>) s1 = Inr (n, s2)"
    and rej: "rejectLoanForGuarantorTimeout E now t (lg_loanId g) p (writeAudit t '''' ''GUARANTOR.EXPIRED'' (lg_id g)
      (if lg_holdPlacedAt g \<noteq> None then writeAudit t '''' ''GUARANTOR.HOLD_RELEASED'' (lg_id g) s2 else s2)) = Inr s'"
    unfolding expireGuarantor_def Let_def prod.case by (elim rbind_InrE rbind_Inr_pairE) (simp only: prod.case)
  define s4 where "s4 = writeAudit t '''' ''GUARANTOR.EXPIRED'' (lg_id g)
      (if lg_holdPlacedAt g \<noteq> None then writeAudit t '''' ''GUARANTOR.HOLD_RELEASED'' (lg_id g) s2 else s2)"
  have g1: "hold_step s s1" "guarantors s1 = guarantors s"
    using rel by (auto split: if_splits dest: releaseHolds_guarantors releaseHolds_hold)
  have "hold_step s2 s4" by (simp add: s4_def hold_step_def writeAudit_def)
  then have hold: "hold_step s s4" using g1(1) hold_step_updateGuarantors [OF upd] hold_step_trans by blast
  have g4: "guarantors s4 = guarantors s2" by (simp add: s4_def writeAudit_def)
  have kept: "kept_released s s4"
    using kept_released_trans [OF kept_released_eq [OF g1(2)] kept_released_update [OF upd]] by (simp add: kept_released_def g4)
  have rows: "map unreleased (guarantors s4) = map (unreleased \<circ> expiredRow t {lg_id g}) (guarantors s)"
    using upd by (auto simp: updateGuarantors_Inr g1(2) g4 expiredRow_def unreleased_def)
  have loans: "loans s4 = loans s" by (rule hold_step_same(1) [OF hold])
  note r = rejectLoan_effects [OF rej [folded s4_def], unfolded loans]
  show ?thesis
  proof (intro conjI)
    show "hold_step (s\<lparr>loans := map (rejectedRow t {lg_loanId g}) (loans s)\<rparr>) s'"
      by (rule hold_step_trans [OF hold_step_loans [OF hold] conjunct1 [OF r]])
    show "kept_released s s'" using kept r kept_released_trans by blast
  qed (use r rows in simp_all)
qed

lemma expireAll_effects:
  assumes "foldM (expireGuarantor E now t) s rs = Inr s'"
  shows "hold_step (s\<lparr>loans := map (rejectedRow t ((lg_loanId \<circ> fst) ` set rs)) (loans s)\<rparr>) s' \<and>
    map unreleased (guarantors s') = map (unreleased \<circ> expiredRow t ((lg_id \<circ> fst) ` set rs)) (guarantors s) \<and>
    kept_released s s' \<and>
    (\<forall>x \<in> set (guarantors s'). lg_loanId x \<in> (lg_loanId \<circ> fst) ` set rs \<and> lg_tenantId x = t \<and>
       lg_status x = GuarantorStatus.ACCEPTED \<and>
       (\<exists>l \<in> set (loans s). ln_id l = lg_loanId x \<and> ln_tenantId l = t \<and> ln_status l = LoanStatus.PENDING_GUARANTORS)
       \<longrightarrow> lg_holdReleasedAt x \<noteq> None)"
  using assms
proof (induction rs arbitrary: s)
  case Nil
  then have s': "s' = s" by simp
  have same: "s\<lparr>loans := map (rejectedRow t ((lg_loanId \<circ> fst) ` set ([] :: (guarantor \<times> loan_product) list))) (loans s)\<rparr> = s"
    by (simp add: rejectedRow_def)
  show ?case unfolding s' same
    by (intro conjI hold_step_refl kept_released_eq refl) (simp_all add: expiredRow_def)
next
  case (Cons r rs)
  obtain g p where r: "r = (g, p)" by (rule prod.exhaust)
  from Cons.prems obtain s1 where one: "expireGuarantor E now t s (g, p) = Inr s1"
    and rest: "foldM (expireGuarantor E now t) s1 rs = Inr s'" by (auto simp: res_simps r)
  let ?L = "(lg_loanId \<circ> fst) ` set rs" and ?G = "(lg_id \<circ> fst) ` set rs" and ?k = "lg_loanId g"
  note e1 = expireGuarantor_effects [OF one] and e2 = Cons.IH [OF rest]
  have l1: "loans s1 = map (rejectedRow t {?k}) (loans s)" using hold_step_same(1) [OF conjunct1 [OF e1]] by simp
  have "map (rejectedRow t ?L) (loans s1) = map (rejectedRow t ({?k} \<union> ?L)) (loans s)"
    by (simp add: l1 rejectedRow_twice del: Un_insert_left)
  then have hold: "hold_step (s\<lparr>loans := map (rejectedRow t ({?k} \<union> ?L)) (loans s)\<rparr>) s'"
    using hold_step_trans [OF hold_step_loans [OF conjunct1 [OF e1], of "map (rejectedRow t ?L) (loans s1)"] conjunct1 [OF e2]]
    by simp
  have kept1: "kept_released s s1" and kept2: "kept_released s1 s'" using e1 e2 by blast+
  have exp: "map (expiredRow t A) (map unreleased xs) = map (unreleased \<circ> expiredRow t A) xs" for A xs
    by (simp add: expiredRow_unreleased)
  have "map unreleased (guarantors s') = map (expiredRow t ?G) (map unreleased (guarantors s1))"
    using e2 unfolding exp by blast
  also have "\<dots> = map (unreleased \<circ> expiredRow t ({lg_id g} \<union> ?G)) (guarantors s)"
    using e1 by (simp add: expiredRow_twice expiredRow_unreleased)
  finally have rows: "map unreleased (guarantors s') = map (unreleased \<circ> expiredRow t ({lg_id g} \<union> ?G)) (guarantors s)" .
  have rel: "lg_holdReleasedAt x \<noteq> None" if x: "x \<in> set (guarantors s')" "lg_loanId x \<in> {?k} \<union> ?L" "lg_tenantId x = t"
      "lg_status x = GuarantorStatus.ACCEPTED" and l: "l \<in> set (loans s)" "ln_id l = lg_loanId x" "ln_tenantId l = t"
      "ln_status l = LoanStatus.PENDING_GUARANTORS" for x l
  proof (cases "lg_loanId x = ?k")
    case True
    obtain y where y: "y \<in> set (guarantors s1)" "unreleased x = unreleased (expiredRow t ?G y)"
      "lg_holdReleasedAt y \<noteq> None \<Longrightarrow> lg_holdReleasedAt x \<noteq> None"
      by (rule row_before [OF kept2 conjunct1 [OF conjunct2 [OF e2]] x(1)]) blast
    have "lg_loanId y = ?k" "lg_tenantId y = t" "lg_status y = GuarantorStatus.ACCEPTED"
      using unreleased_eqD [OF y(2)] x(3,4) True by (auto simp: expiredRow_def split: if_splits)
    then have "lg_holdReleasedAt y \<noteq> None" using e1 y(1) l True by auto
    then show ?thesis by (rule y(3))
  next
    case False
    then have "l \<in> set (loans s1)" using l by (force simp: l1 rejectedRow_def)
    then show ?thesis using e2 x l(2-4) False by blast
  qed
  have ids: "(lg_loanId \<circ> fst) ` set (r # rs) = {?k} \<union> ?L" "(lg_id \<circ> fst) ` set (r # rs) = {lg_id g} \<union> ?G"
    by (simp_all add: r)
  show ?case unfolding ids using hold rows kept_released_trans [OF kept1 kept2] rel by blast
qed

lemma requestProducts_rows: "requestProducts s gs = Inr rs \<Longrightarrow> map fst rs = gs"
  by (induction gs arbitrary: rs) (auto simp: res_simps requestProduct_def)

end

section \<open>The sweep completes\<close>

lemma foldM_total:
  assumes "P s" and "\<And>s x. x \<in> set xs \<Longrightarrow> P s \<Longrightarrow> \<exists>s'. f s x = Inr s' \<and> P s'"
  shows "\<exists>s'. foldM f s xs = Inr s' \<and> P s'"
  using assms
proof (induction xs arbitrary: s)
  case Nil
  then show ?case by simp
next
  case (Cons x xs)
  then obtain s1 where "f s x = Inr s1" "P s1" by (metis list.set_intros(1))
  moreover have "\<exists>s'. foldM f s1 xs = Inr s' \<and> P s'"
    by (rule Cons.IH [OF \<open>P s1\<close>]) (use Cons.prems(2) in auto)
  ultimately show ?case by simp
qed

definition sweepable :: "db \<Rightarrow> bool" where
  "sweepable s \<longleftrightarrow> wf_db s \<and> (\<forall>g \<in> set (guarantors s). in_column (lg_recoveredAmount g) \<and>
     0 < lg_guaranteedAmount g \<and> m4 (lg_guaranteedAmount g))"

text \<open>A step that keeps the amounts of the guarantor rows keeps \<open>sweepable\<close>.\<close>

lemma sweepable_step:
  assumes "sweepable s" and "wf_db s'"
    and "map unreleased (guarantors s') = map (unreleased \<circ> expiredRow t G) (guarantors s)"
  shows "sweepable s'"
proof -
  have "\<exists>y \<in> set (guarantors s). lg_recoveredAmount x = lg_recoveredAmount y \<and> lg_guaranteedAmount x = lg_guaranteedAmount y"
    if "x \<in> set (guarantors s')" for x
  proof -
    from that have "unreleased x \<in> set (map unreleased (guarantors s'))" by simp
    then obtain y where "y \<in> set (guarantors s)" "unreleased x = unreleased (expiredRow t G y)"
      unfolding assms(3) by auto
    moreover have "lg_recoveredAmount z = lg_recoveredAmount (unreleased z)" "lg_guaranteedAmount z = lg_guaranteedAmount (unreleased z)" for z
      by (simp_all add: unreleased_def)
    moreover have "lg_recoveredAmount (expiredRow t G z) = lg_recoveredAmount z"
      "lg_guaranteedAmount (expiredRow t G z) = lg_guaranteedAmount z" for z by (simp_all add: expiredRow_def)
    ultimately show ?thesis by metis
  qed
  then show ?thesis using assms(1,2) by (fastforce simp: sweepable_def)
qed

context decimal_runtime
begin

lemma releaseHold_total:
  assumes wf: "wf_accounts s" and x: "0 < x" "m4 x"
  shows "\<exists>s'. releaseHold E t ty s (m, x) = Inr s'"
proof (cases "accountFor s t ty m")
  case None
  then show ?thesis by (simp add: releaseHold_def)
next
  case (Some a)
  note af = accountFor_Some [OF Some]
  note w = wf_accountD [OF wf_accountsD(2) [OF wf af(1)]]
  let ?P = "\<lambda>b. acc_tenantId b = t \<and> acc_isActive b" and ?r = "min (acc_frozenSavings a) x"
  have P: "?P a" using af by simp
  have r: "m4 ?r" using w(3) x by (intro places_min) (simp_all add: money_m4)
  have "money (acc_frozenSavings a - ?r)"
    by (rule money_shrink [OF w(3)]) (use w(3) r x in \<open>auto simp: money_m4 min_def intro: places_diff\<close>)
  then have wf': "wf_accounts (freeze (acc_id a) (- ?r) s)" by (intro freeze_wf [OF wf af(1)]) simp
  have "updateAccounts (\<lambda>b. acc_id b = acc_id a \<and> ?P b)
      (\<lambda>b. b\<lparr>acc_frozenSavings := acc_frozenSavings b + - ?r, acc_version := acc_version b + 1\<rparr>) s =
      Inr (1, freeze (acc_id a) (- ?r) s)"
    unfolding updateAccounts_Inr matching_freeze [OF wf af(1), of ?P, OF P]
    using unique_match [OF wf_accountsD(1) [OF wf] af(1) refl, of ?P, OF P] wf'
    by (auto simp: wf_accounts_def intro: wf_account_in_columns)
  then show ?thesis using r by (simp add: releaseHold_def Some Let_def)
qed

lemma releaseHolds_total:
  assumes "sweepable s" and "0 < x" "m4 x"
  shows "\<exists>s'. releaseGuarantorHolds E s t [(m, Some x)] ty = Inr s' \<and> hold_step s s' \<and> sweepable s'"
proof -
  have "wf_accounts s" using assms(1) by (simp add: sweepable_def wf_db_def)
  then obtain s' where "releaseHold E t ty s (m, x) = Inr s'" using releaseHold_total assms(2,3) by blast
  then have run: "releaseGuarantorHolds E s t [(m, Some x)] ty = Inr s'"
    using assms(2) by (simp add: releaseGuarantorHolds_def normalizeGuarantors_def)
  note h = releaseHolds_hold [OF run] and g = releaseHolds_guarantors [OF run]
  have "sweepable s'" using assms(1) hold_step_same(11) [OF h] by (simp add: sweepable_def g)
  then show ?thesis using run h by blast
qed

lemma releaseAcceptedHold_total:
  assumes "sweepable s" and "0 < lg_guaranteedAmount g" "m4 (lg_guaranteedAmount g)"
  shows "\<exists>s'. releaseAcceptedHold E now t u ty s g = Inr s' \<and> sweepable s'"
proof (cases "lg_holdReleasedAt g = None")
  case False
  then show ?thesis using assms(1) by (simp add: releaseAcceptedHold_def)
next
  case True
  obtain s1 where rel: "releaseGuarantorHolds E s t [(lg_memberId g, Some (lg_guaranteedAmount g))] ty = Inr s1"
    and s1: "sweepable s1" using releaseHolds_total [OF assms] by blast
  define s2 where "s2 = s1\<lparr>guarantors := map (\<lambda>x. if lg_id x = lg_id g \<and> lg_tenantId x = t
    then x\<lparr>lg_holdReleasedAt := Some now\<rparr> else x) (guarantors s1)\<rparr>"
  have "\<exists>n. updateGuarantors (\<lambda>x. lg_id x = lg_id g \<and> lg_tenantId x = t) (\<lambda>x. x\<lparr>lg_holdReleasedAt := Some now\<rparr>) s1 = Inr (n, s2)"
    using s1 by (auto simp: updateGuarantors_Inr s2_def sweepable_def)
  then have run: "\<exists>s'. releaseAcceptedHold E now t u ty s g = Inr s'" using True rel by (auto simp: releaseAcceptedHold_def)
  then obtain s' where s': "releaseAcceptedHold E now t u ty s g = Inr s'" by blast
  have "wf_db s'" using hold_step_same(11) [OF releaseAcceptedHold_hold [OF s']] assms(1) by (simp add: sweepable_def)
  then have "sweepable s'"
    by (rule sweepable_step [where G = "{}" and t = t, OF assms(1)])
      (use releaseAcceptedHold_rows [OF s'] in \<open>simp add: expiredRow_def comp_def\<close>)
  then show ?thesis using s' by blast
qed

lemma rejectLoan_total:
  assumes "sweepable s"
  shows "\<exists>s'. rejectLoanForGuarantorTimeout E now t k p s = Inr s'"
proof (cases "findFirst (\<lambda>l. ln_id l = k \<and> ln_tenantId l = t \<and> ln_status l = LoanStatus.PENDING_GUARANTORS) (loans s)")
  case None
  then show ?thesis by (simp add: rejectLoanForGuarantorTimeout_def)
next
  case (Some l)
  let ?gs = "withStatus GuarantorStatus.ACCEPTED (loanGuarantorRows s t k)"
  have gs: "g \<in> set ?gs \<Longrightarrow> 0 < lg_guaranteedAmount g \<and> m4 (lg_guaranteedAmount g)" for g
    using assms by (auto simp: sweepable_def withStatus_def loanGuarantorRows_def)
  have "\<exists>s1. foldM (releaseAcceptedHold E now t '''' (resolveAccountType p)) s ?gs = Inr s1 \<and> sweepable s1"
    by (rule foldM_total [where P = sweepable, OF assms]) (use releaseAcceptedHold_total gs in blast)
  moreover have "ln_status l = LoanStatus.PENDING_GUARANTORS" using findFirst_Some [OF Some] by simp
  then have "assertTransition (ln_status l) LoanStatus.REJECTED_GUARANTOR_DECLINE = Inr ()"
    by (simp add: assertTransition_def canTransition_def)
  ultimately show ?thesis using Some by (auto simp: rejectLoanForGuarantorTimeout_def Let_def)
qed

lemma expireGuarantor_total:
  assumes "sweepable s" and "0 < lg_guaranteedAmount g" "m4 (lg_guaranteedAmount g)"
  shows "\<exists>s'. expireGuarantor E now t s (g, p) = Inr s' \<and> sweepable s'"
proof -
  let ?rel = "if lg_holdPlacedAt g \<noteq> None then releaseGuarantorHolds E s t
          [(lg_memberId g, Some (lg_guaranteedAmount g))] (resolveAccountType p) else Inr s"
  have "\<exists>s1. ?rel = Inr s1 \<and> sweepable s1"
    using releaseHolds_total [OF assms, of t "lg_memberId g" "resolveAccountType p"] assms(1)
    by (cases "lg_holdPlacedAt g = None") auto
  then obtain s1 where rel: "?rel = Inr s1" and s1: "sweepable s1" by blast
  let ?P = "\<lambda>x. lg_id x = lg_id g \<and> lg_tenantId x = t \<and> lg_status x = GuarantorStatus.PENDING"
  let ?f = "\<lambda>x. x\<lparr>lg_status := GuarantorStatus.EXPIRED, lg_holdReleasedAt :=
           (if lg_holdPlacedAt g \<noteq> None then Some now else lg_holdReleasedAt x)\<rparr>"
  define s2 where "s2 = s1\<lparr>guarantors := map (\<lambda>x. if ?P x then ?f x else x) (guarantors s1)\<rparr>"
  have upd: "\<exists>n. updateGuarantors ?P ?f s1 = Inr (n, s2)"
    using s1 by (auto simp: updateGuarantors_Inr s2_def sweepable_def)
  let ?s4 = "writeAudit t '''' ''GUARANTOR.EXPIRED'' (lg_id g)
      (if lg_holdPlacedAt g \<noteq> None then writeAudit t '''' ''GUARANTOR.HOLD_RELEASED'' (lg_id g) s2 else s2)"
  have "sweepable s2" using s1 by (auto simp: sweepable_def s2_def)
  then have "sweepable ?s4" by (simp add: sweepable_def writeAudit_def)
  then obtain s' where rej: "rejectLoanForGuarantorTimeout E now t (lg_loanId g) p ?s4 = Inr s'"
    using rejectLoan_total by blast
  have run: "expireGuarantor E now t s (g, p) = Inr s'"
    using rel upd rej by (auto simp: expireGuarantor_def Let_def)
  note ef = expireGuarantor_effects [OF run]
  have "wf_db s'" using hold_step_same(11) [OF conjunct1 [OF ef]] assms(1) by (simp add: sweepable_def)
  then have "sweepable s'" by (rule sweepable_step [OF assms(1)]) (use ef in blast)
  then show ?thesis using run by blast
qed

end

text \<open>The foreign keys from a guarantor row to its loan and from there to the product.\<close>

definition linked :: "db \<Rightarrow> bool" where
  "linked s \<longleftrightarrow> lg_loanId ` set (guarantors s) \<subseteq> ln_id ` set (loans s) \<and>
     (\<forall>l \<in> set (loans s). productOf s l \<noteq> None)"

lemma requestProducts_total:
  assumes "linked s" and "set gs \<subseteq> set (guarantors s)"
  shows "\<exists>rs. requestProducts s gs = Inr rs"
  using assms(2)
proof (induction gs)
  case Nil
  then show ?case by simp
next
  case (Cons g gs)
  obtain l0 where "l0 \<in> set (loans s)" "ln_id l0 = lg_loanId g" using assms(1) Cons.prems by (auto simp: linked_def)
  from findFirst_ex [OF this(1), of "\<lambda>l. ln_id l = lg_loanId g"] this(2)
  obtain l where l: "findFirst (\<lambda>l. ln_id l = lg_loanId g) (loans s) = Some l" by blast
  then have "productOf s l \<noteq> None" using assms(1) by (auto simp: linked_def dest: findFirst_Some)
  then have "\<exists>p. requestProduct s g = Inr (g, p)" using l by (auto simp: requestProduct_def)
  then show ?case using Cons by auto
qed

lemma linked_step:
  assumes "linked s" and hold: "hold_step (s\<lparr>loans := map (rejectedRow t L) (loans s)\<rparr>) s'"
    and rows: "map unreleased (guarantors s') = map (unreleased \<circ> expiredRow t G) (guarantors s)"
  shows "linked s'"
proof -
  have l: "loans s' = map (rejectedRow t L) (loans s)" and p: "loanProducts s' = loanProducts s"
    using hold_step_same(1,6) [OF hold] by simp_all
  have "map (lg_loanId \<circ> unreleased) (guarantors s') = map lg_loanId (guarantors s)"
    using arg_cong [OF rows, of "map lg_loanId"] by (simp add: expiredRow_def comp_def if_distrib cong: if_cong)
  then have "lg_loanId ` set (guarantors s') = lg_loanId ` set (guarantors s)"
    by (metis (no_types, lifting) comp_apply list.map_cong0 list.set_map unreleased_simps(3))
  moreover have "map ln_id (loans s') = map ln_id (loans s)" by (simp add: l rejectedRow_def)
  then have "ln_id ` set (loans s') = ln_id ` set (loans s)" by (metis list.set_map)
  moreover have "productOf s' (rejectedRow t L y) = productOf s y" for y
    by (simp add: productOf_def p rejectedRow_def)
  ultimately show ?thesis using assms(1) by (auto simp: l linked_def)
qed

section \<open>Properties\<close>

lemma expireTenant_effects:
  assumes "decimal_runtime E" and run: "expireTenantGuarantors E now t cutoff s = Inr s'"
    and keys: "distinct (map lg_id (guarantors s))"
  shows "hold_step (s\<lparr>loans := map (rejectedRow t (lg_loanId ` {g \<in> set (guarantors s). unanswered t cutoff g})) (loans s)\<rparr>) s' \<and>
    map unreleased (guarantors s') =
      map (unreleased \<circ> expiredRow t (lg_id ` {g \<in> set (guarantors s). unanswered t cutoff g})) (guarantors s) \<and>
    map unreleased (guarantors s') = map (\<lambda>g. unreleased (if unanswered t cutoff g
       then g\<lparr>lg_status := GuarantorStatus.EXPIRED\<rparr> else g)) (guarantors s) \<and>
    (\<forall>x \<in> set (guarantors s'). lg_loanId x \<in> lg_loanId ` {g \<in> set (guarantors s). unanswered t cutoff g} \<and>
       lg_tenantId x = t \<and> lg_status x = GuarantorStatus.ACCEPTED \<and>
       (\<exists>l \<in> set (loans s). ln_id l = lg_loanId x \<and> ln_tenantId l = t \<and> ln_status l = LoanStatus.PENDING_GUARANTORS)
       \<longrightarrow> lg_holdReleasedAt x \<noteq> None)"
proof -
  from run obtain rs where rs: "requestProducts s (filter (unanswered t cutoff) (guarantors s)) = Inr rs"
    and fold: "foldM (expireGuarantor E now t) s rs = Inr s'"
    by (auto simp: expireTenantGuarantors_def res_simps)
  have "map fst rs = filter (unanswered t cutoff) (guarantors s)" by (rule decimal_runtime.requestProducts_rows [OF assms(1) rs])
  then have "fst ` set rs = {g \<in> set (guarantors s). unanswered t cutoff g}"
    by (metis list.set_map set_filter)
  then have ids: "(lg_loanId \<circ> fst) ` set rs = lg_loanId ` {g \<in> set (guarantors s). unanswered t cutoff g}"
    "(lg_id \<circ> fst) ` set rs = lg_id ` {g \<in> set (guarantors s). unanswered t cutoff g}"
    by (simp_all only: image_comp [symmetric])
  have "expiredRow t (lg_id ` {g \<in> set (guarantors s). unanswered t cutoff g}) g =
      (if unanswered t cutoff g then g\<lparr>lg_status := GuarantorStatus.EXPIRED\<rparr> else g)" if g: "g \<in> set (guarantors s)" for g
  proof (cases "unanswered t cutoff g")
    case True
    then show ?thesis using g by (auto simp: expiredRow_def unanswered_def)
  next
    case False
    then have "lg_id g \<notin> lg_id ` {g \<in> set (guarantors s). unanswered t cutoff g}"
      using g distinct_key_eq [OF keys g] by auto
    with False show ?thesis by (simp add: expiredRow_def)
  qed
  then have "map (unreleased \<circ> expiredRow t (lg_id ` {g \<in> set (guarantors s). unanswered t cutoff g})) (guarantors s) =
      map (\<lambda>g. unreleased (if unanswered t cutoff g then g\<lparr>lg_status := GuarantorStatus.EXPIRED\<rparr> else g)) (guarantors s)"
    by simp
  then show ?thesis using decimal_runtime.expireAll_effects [OF assms(1) fold, unfolded ids] by simp
qed

text \<open>
  The sweep of a tenant does exactly this: every request that is unanswered since before the cutoff
  becomes EXPIRED, every loan that was waiting for guarantors and has such a request is rejected, and the
  holds of its accepted guarantors are marked as released. No other status, no other column of a
  guarantor and no other loan changes, no balance moves and nothing is posted.
\<close>

theorem expiry_sweep_exact:
  assumes "decimal_runtime E" and "expireTenantGuarantors E now t cutoff s = Inr s'"
    and "wf_db s" and "distinct (map lg_id (guarantors s))"
  shows "map (\<lambda>g. g\<lparr>lg_holdReleasedAt := None\<rparr>) (guarantors s') =
      map (\<lambda>g. (if unanswered t cutoff g then g\<lparr>lg_status := GuarantorStatus.EXPIRED\<rparr> else g)\<lparr>lg_holdReleasedAt := None\<rparr>)
        (guarantors s) \<and>
    loans s' = map (\<lambda>l. if ln_tenantId l = t \<and> ln_status l = LoanStatus.PENDING_GUARANTORS \<and>
        (\<exists>g \<in> set (guarantors s). unanswered t cutoff g \<and> lg_loanId g = ln_id l)
      then l\<lparr>ln_status := LoanStatus.REJECTED_GUARANTOR_DECLINE\<rparr> else l) (loans s) \<and>
    (\<forall>g \<in> set (guarantors s'). \<forall>l \<in> set (loans s). lg_loanId g = ln_id l \<and> lg_tenantId g = t \<and>
       lg_status g = GuarantorStatus.ACCEPTED \<and> ln_tenantId l = t \<and> ln_status l = LoanStatus.PENDING_GUARANTORS \<and>
       (\<exists>r \<in> set (guarantors s). unanswered t cutoff r \<and> lg_loanId r = ln_id l) \<longrightarrow> lg_holdReleasedAt g \<noteq> None) \<and>
    wf_db s' \<and> map acc_balance (accounts s') = map acc_balance (accounts s) \<and>
    transactions s' = transactions s \<and> journalEntries s' = journalEntries s"
proof -
  note ef = expireTenant_effects [OF assms(1,2,4)]
  note h = hold_step_same [OF conjunct1 [OF ef]]
  have "loans s' = map (\<lambda>l. if ln_tenantId l = t \<and> ln_status l = LoanStatus.PENDING_GUARANTORS \<and>
        (\<exists>g \<in> set (guarantors s). unanswered t cutoff g \<and> lg_loanId g = ln_id l)
      then l\<lparr>ln_status := LoanStatus.REJECTED_GUARANTOR_DECLINE\<rparr> else l) (loans s)"
  proof -
    have "k \<in> lg_loanId ` {g \<in> set (guarantors s). unanswered t cutoff g} \<longleftrightarrow>
        (\<exists>g \<in> set (guarantors s). unanswered t cutoff g \<and> lg_loanId g = k)" for k by auto
    then show ?thesis using h(1) by (simp add: rejectedRow_def conj_ac)
  qed
  moreover have "wf_db s'" using h(11) assms(3) by simp
  moreover have "map (\<lambda>g. g\<lparr>lg_holdReleasedAt := None\<rparr>) (guarantors s') =
      map (\<lambda>g. (if unanswered t cutoff g then g\<lparr>lg_status := GuarantorStatus.EXPIRED\<rparr> else g)\<lparr>lg_holdReleasedAt := None\<rparr>)
        (guarantors s)"
    using conjunct1 [OF conjunct2 [OF conjunct2 [OF ef]]] unfolding unreleased_def .
  moreover have "map acc_balance (accounts s') = map acc_balance (accounts s)" "transactions s' = transactions s"
    "journalEntries s' = journalEntries s" using h(3,4,10) by simp_all
  moreover have "\<forall>g \<in> set (guarantors s'). \<forall>l \<in> set (loans s). lg_loanId g = ln_id l \<and> lg_tenantId g = t \<and>
       lg_status g = GuarantorStatus.ACCEPTED \<and> ln_tenantId l = t \<and> ln_status l = LoanStatus.PENDING_GUARANTORS \<and>
       (\<exists>r \<in> set (guarantors s). unanswered t cutoff r \<and> lg_loanId r = ln_id l) \<longrightarrow> lg_holdReleasedAt g \<noteq> None"
  proof (intro ballI impI, elim conjE bexE)
    fix g l r
    assume g: "g \<in> set (guarantors s')" "l \<in> set (loans s)" "lg_loanId g = ln_id l" "lg_tenantId g = t"
      "lg_status g = GuarantorStatus.ACCEPTED" "ln_tenantId l = t" "ln_status l = LoanStatus.PENDING_GUARANTORS"
      and r: "r \<in> set (guarantors s)" "unanswered t cutoff r" "lg_loanId r = ln_id l"
    have "lg_loanId g = lg_loanId r" using g(3) r(3) by simp
    then have mem: "lg_loanId g \<in> lg_loanId ` {g \<in> set (guarantors s). unanswered t cutoff g}" using r(1,2) by blast
    show "lg_holdReleasedAt g \<noteq> None"
      by (rule bspec [OF conjunct2 [OF conjunct2 [OF conjunct2 [OF ef]]] g(1), THEN mp])
        (intro conjI mem g(4,5) bexI [OF _ g(2)], simp_all only: g(3,6,7))
  qed
  ultimately show ?thesis by blast
qed

definition overdue_consent :: db where
  "overdue_consent = (consent LoanStatus.PENDING_GUARANTORS)\<lparr>accounts := [pledger ''1'' 500 0, pledger ''2'' 500 100],
     guarantors := [consent_request ''g1'' ''m1'',
       (consent_request ''g2'' ''m2'')\<lparr>lg_status := GuarantorStatus.ACCEPTED, lg_holdPlacedAt := Some 1\<rparr>]\<rparr>"

definition after_sweep :: "db res \<Rightarrow> (GuarantorStatus list \<times> rat list) option" where
  "after_sweep out = (case out of Inl _ \<Rightarrow> None
     | Inr x \<Rightarrow> Some (map lg_status (guarantors x), map acc_frozenSavings (accounts x)))"

lemma overdue_swept:
  "after_sweep (expireTenantGuarantors plain_env 9 ''t'' 5 overdue_consent) =
     Some ([GuarantorStatus.EXPIRED, GuarantorStatus.ACCEPTED], [0, 0])"
  by code_simp

theorem expiry_sweep_exact_witness:
  "\<exists>s'. expireTenantGuarantors plain_env 9 ''t'' 5 overdue_consent = Inr s' \<and>
     map ln_status (loans s') = [LoanStatus.REJECTED_GUARANTOR_DECLINE] \<and> wf_db s' \<and>
     map acc_frozenSavings (accounts s') = [0, 0]"
proof -
  obtain s' where run: "expireTenantGuarantors plain_env 9 ''t'' 5 overdue_consent = Inr s'"
    and fr: "map acc_frozenSavings (accounts s') = [0, 0]"
    using overdue_swept by (auto simp: after_sweep_def split: sum.splits)
  have "wf_db overdue_consent" "distinct (map lg_id (guarantors overdue_consent))" by code_simp+
  note ex = expiry_sweep_exact [OF plain.decimal_runtime_axioms run this]
  have "map ln_status (map (\<lambda>l. if ln_tenantId l = ''t'' \<and> ln_status l = LoanStatus.PENDING_GUARANTORS \<and>
        (\<exists>g \<in> set (guarantors overdue_consent). unanswered ''t'' 5 g \<and> lg_loanId g = ln_id l)
      then l\<lparr>ln_status := LoanStatus.REJECTED_GUARANTOR_DECLINE\<rparr> else l) (loans overdue_consent)) =
      [LoanStatus.REJECTED_GUARANTOR_DECLINE]" by code_simp
  then have "map ln_status (loans s') = [LoanStatus.REJECTED_GUARANTOR_DECLINE]"
    using conjunct1 [OF conjunct2 [OF ex]] by simp
  moreover have "wf_db s'" using ex by (elim conjE)
  ultimately show ?thesis using run fr by (intro exI [of _ s'] conjI)
qed

text \<open>A database that one sweep leaves is again one that a sweep can treat.\<close>

lemma expireTenant_total:
  assumes "decimal_runtime E" and "sweepable s" "linked s" "distinct (map lg_id (guarantors s))"
  shows "\<exists>s'. expireTenantGuarantors E now t cutoff s = Inr s' \<and> sweepable s' \<and> linked s' \<and>
    distinct (map lg_id (guarantors s'))"
proof -
  let ?gs = "filter (unanswered t cutoff) (guarantors s)"
  obtain rs where rs: "requestProducts s ?gs = Inr rs" using requestProducts_total [OF assms(3), of ?gs] by auto
  have "map fst rs = ?gs" by (rule decimal_runtime.requestProducts_rows [OF assms(1) rs])
  then have rows: "fst ` set rs = set ?gs" by (metis list.set_map)
  have amt: "0 < lg_guaranteedAmount (fst x) \<and> m4 (lg_guaranteedAmount (fst x))" if "x \<in> set rs" for x
  proof -
    have "fst x \<in> fst ` set rs" using that by simp
    then have "fst x \<in> set (guarantors s)" unfolding rows by simp
    then show ?thesis using assms(2) by (simp add: sweepable_def)
  qed
  have "\<exists>s'. foldM (expireGuarantor E now t) s rs = Inr s' \<and> sweepable s'"
  proof (rule foldM_total [where P = sweepable, OF assms(2)])
    fix s x
    assume "x \<in> set rs" "sweepable s"
    then show "\<exists>s'. expireGuarantor E now t s x = Inr s' \<and> sweepable s'"
      using decimal_runtime.expireGuarantor_total [OF assms(1), of s "fst x" now t "snd x"] amt by simp
  qed
  then obtain s' where s': "expireTenantGuarantors E now t cutoff s = Inr s'" "sweepable s'"
    using rs by (auto simp: expireTenantGuarantors_def)
  note ef = expireTenant_effects [OF assms(1) s'(1) assms(4)]
  have "linked s'" by (rule linked_step [OF assms(3)]) (use ef in blast)+
  moreover have "map (lg_id \<circ> unreleased) (guarantors s') = map lg_id (guarantors s)"
    using arg_cong [OF conjunct1 [OF conjunct2 [OF ef]], of "map lg_id"]
    by (simp add: expiredRow_def comp_def if_distrib cong: if_cong)
  then have "map lg_id (guarantors s') = map lg_id (guarantors s)" by (simp add: comp_def)
  ultimately show ?thesis using s' assms(4) by (metis (no_types))
qed

lemma sweepTenants_clears:
  assumes "decimal_runtime E" and "sweepable s" "linked s" "distinct (map lg_id (guarantors s))"
  shows "\<exists>s'. sweepTenants E now cutoff ts s = (None, s') \<and>
    (\<forall>g \<in> set (guarantors s'). lg_tenantId g \<in> set ts \<longrightarrow> \<not> unanswered (lg_tenantId g) cutoff g) \<and>
    (\<forall>g \<in> set (guarantors s'). \<forall>t. unanswered t cutoff g \<longrightarrow> (\<exists>x \<in> set (guarantors s). unreleased x = unreleased g))"
  using assms(2-4)
proof (induction ts arbitrary: s)
  case Nil
  then show ?case by auto
next
  case (Cons t ts)
  obtain s1 where s1: "expireTenantGuarantors E now t cutoff s = Inr s1" "sweepable s1" "linked s1"
    "distinct (map lg_id (guarantors s1))" using expireTenant_total [OF assms(1) Cons.prems] by blast
  from Cons.IH [OF s1(2-4)] obtain s' where s': "sweepTenants E now cutoff ts s1 = (None, s')"
    and done1: "\<forall>g \<in> set (guarantors s'). lg_tenantId g \<in> set ts \<longrightarrow> \<not> unanswered (lg_tenantId g) cutoff g"
    and old: "\<forall>g \<in> set (guarantors s'). \<forall>t. unanswered t cutoff g \<longrightarrow> (\<exists>x \<in> set (guarantors s1). unreleased x = unreleased g)"
    by blast
  have un: "unanswered y cutoff (unreleased g) = unanswered y cutoff g" for y g
    by (simp add: unanswered_def unreleased_def)
  note rows = conjunct1 [OF conjunct2 [OF conjunct2 [OF expireTenant_effects [OF assms(1) s1(1) Cons.prems(3)]]]]
  have clear: "\<not> unanswered t cutoff x \<and> (\<forall>y. unanswered y cutoff x \<longrightarrow> (\<exists>z \<in> set (guarantors s). unreleased z = unreleased x))"
    if "x \<in> set (guarantors s1)" for x
  proof -
    from that have "unreleased x \<in> set (map unreleased (guarantors s1))" by simp
    then obtain z where z: "z \<in> set (guarantors s)"
      "unreleased x = unreleased (if unanswered t cutoff z then z\<lparr>lg_status := GuarantorStatus.EXPIRED\<rparr> else z)"
      unfolding rows by auto
    show ?thesis
    proof (cases "unanswered t cutoff z")
      case True
      then have "lg_status x = GuarantorStatus.EXPIRED" using arg_cong [OF z(2), of lg_status] by simp
      then show ?thesis by (simp add: unanswered_def)
    next
      case False
      then show ?thesis using z un by metis
    qed
  qed
  have "\<not> unanswered (lg_tenantId g) cutoff g" if "g \<in> set (guarantors s')" "lg_tenantId g = t" for g
    using old clear that un by metis
  moreover have "\<exists>x \<in> set (guarantors s). unreleased x = unreleased g" if "g \<in> set (guarantors s')" "unanswered y cutoff g" for g y
    using old clear that un by metis
  ultimately have "(\<forall>g \<in> set (guarantors s'). lg_tenantId g \<in> set (t # ts) \<longrightarrow> \<not> unanswered (lg_tenantId g) cutoff g) \<and>
    (\<forall>g \<in> set (guarantors s'). \<forall>t. unanswered t cutoff g \<longrightarrow> (\<exists>x \<in> set (guarantors s). unreleased x = unreleased g))"
    using done1 by auto
  then show ?case using s1(1) s' by simp
qed

text \<open>
  C37. The hourly sweep always completes, and afterwards no active tenant has a request that is unanswered
  for more than 72 hours: on a well-formed database whose guarantors pledge positive amounts, nothing in
  it can fail.
\<close>

theorem hourly_sweep_clears:
  assumes "decimal_runtime E" and "wf_db s"
    and "\<forall>g \<in> set (guarantors s). in_column (lg_recoveredAmount g) \<and> 0 < lg_guaranteedAmount g \<and> m4 (lg_guaranteedAmount g)"
    and "linked s" and "distinct (map lg_id (guarantors s))"
  shows "\<exists>s'. runHourlyExpirySweep E now activeTenants s = (None, s') \<and>
    (\<forall>g \<in> set (guarantors s'). lg_tenantId g \<in> set activeTenants \<and> lg_status g = GuarantorStatus.PENDING \<longrightarrow>
       now - 72 * 3600 * 1000 \<le> lg_invitedAt g)"
proof -
  have "sweepable s" using assms(2,3) by (simp add: sweepable_def)
  from sweepTenants_clears [OF assms(1) this assms(4,5), of now "now - CONSENT_WINDOW" activeTenants]
  show ?thesis by (fastforce simp: runHourlyExpirySweep_def unanswered_def CONSENT_WINDOW_def not_less)
qed

theorem hourly_sweep_clears_witness:
  "\<exists>s'. runHourlyExpirySweep plain_env (CONSENT_WINDOW + 5) [''u'', ''t''] overdue_consent = (None, s') \<and>
     (\<forall>g \<in> set (guarantors s'). lg_tenantId g \<in> set [''u'', ''t''] \<and> lg_status g = GuarantorStatus.PENDING \<longrightarrow>
       CONSENT_WINDOW + 5 - 72 * 3600 * 1000 \<le> lg_invitedAt g)"
proof -
  have "wf_db overdue_consent" "\<forall>g \<in> set (guarantors overdue_consent). in_column (lg_recoveredAmount g) \<and>
      0 < lg_guaranteedAmount g \<and> m4 (lg_guaranteedAmount g)" "linked overdue_consent"
    "distinct (map lg_id (guarantors overdue_consent))" by code_simp+
  then show ?thesis by (rule hourly_sweep_clears [OF plain.decimal_runtime_axioms])
qed

end
