(* ===== verification/Daily_Accrual.thy ===== *)
theory Daily_Accrual
  imports Account_Writes Loan_Closing
begin

text \<open>
  The daily accrual, \<open>src/src/modules/financial/financial.service.ts\<close>: for every running loan of a
  tenant the day's interest is debited from the member's FOSA account and added to the loan's accrued
  interest, a loan past its final maturity is debited a penalty, overdue instalments accrue theirs, and
  arrears and staging are rolled up from the schedule.

  The day is its number of milliseconds, midnight UTC. The lock in Redis is the argument \<open>locked\<close>.
  Each loan is treated in a transaction of its own, with the loan and account rows of the initial read; a
  failure rolls that loan back and counts it as skipped. The audit message that is queued after the commit
  is not modelled. \<open>toNumber\<close> of a value with four decimals is taken to be exact.

  Theorems: the books stay in agreement whatever is skipped; the day's interest times the days of the
  period is the quoted interest up to the rounding of a day; a run is idempotent; arrears and staging are
  those of the schedule.
\<close>

section \<open>The day's interest\<close>

definition dateString :: "int \<Rightarrow> string" where
  "dateString date =
     (let (y, m, d) = civilFromDays (date div MS_PER_DAY) in padded 4 y @ ''-'' @ padded 2 m @ ''-'' @ padded 2 d)"

definition unpaidInstalments :: "db \<Rightarrow> ident \<Rightarrow> ident \<Rightarrow> repayment list" where
  "unpaidInstalments s tenantId loanId =
     filter (\<lambda>r. lr_tenantId r = tenantId \<and> lr_loanId r = loanId \<and> lr_status r \<noteq> InstallmentStatus.PAID) (repayments s)"

definition daysInPeriod :: "db \<Rightarrow> loan \<Rightarrow> repayment \<Rightarrow> int" where
  "daysInPeriod s loan current =
     (let previous = (if 1 < lr_dayNumber current
            then map_option lr_dueDate (findFirst (\<lambda>r. lr_tenantId r = ln_tenantId loan \<and> lr_loanId r = ln_id loan \<and>
                   lr_dayNumber r = lr_dayNumber current - 1) (repayments s))
            else None);
          periodStart = (case previous of Some d \<Rightarrow> d
            | None \<Rightarrow> (case ln_disbursedAt loan of Some d \<Rightarrow> d | None \<Rightarrow> lr_dueDate current))
      in max 1 ((2 * (lr_dueDate current - periodStart) + MS_PER_DAY) div (2 * MS_PER_DAY)))"

definition currentInstalment :: "db \<Rightarrow> loan \<Rightarrow> int \<Rightarrow> repayment option" where
  "currentInstalment s loan accrualDate =
     findFirst (\<lambda>r. accrualDate \<le> lr_dueDate r)
       (sort_key lr_dueDate (unpaidInstalments s (ln_tenantId loan) (ln_id loan)))"

definition computeScheduleBasedDailyInterest :: "env \<Rightarrow> db \<Rightarrow> loan \<Rightarrow> int \<Rightarrow> rat" where
  "computeScheduleBasedDailyInterest E s loan accrualDate =
     (case currentInstalment s loan accrualDate of
        None \<Rightarrow> 0
      | Some current \<Rightarrow> dp4 E (ddiv E (lr_interestDue current) (of_int (daysInPeriod s loan current))))"

section \<open>Debits\<close>

definition debitAccountWithCas :: "env \<Rightarrow> db \<Rightarrow> ident \<Rightarrow> rat \<Rightarrow> ((rat \<times> rat) \<times> db) res" where
  "debitAccountWithCas E s accountId amount =
     rbind (required (ConflictException ''Concurrent balance modification, retry'')
       (findFirst (\<lambda>a. acc_id a = accountId) (accounts s))) (\<lambda>account.
     let balanceBefore = acc_balance account;
         balanceAfter = dp4 E (dminus E balanceBefore amount) in
     rbind (updateAccounts (\<lambda>a. acc_id a = accountId \<and> acc_version a = acc_version account)
       (\<lambda>a. a\<lparr>acc_balance := balanceAfter, acc_version := acc_version a + 1\<rparr>) s) (\<lambda>(count, s').
     rbind (ensure (count \<noteq> 0) (ConflictException ''Concurrent balance modification, retry'')) (\<lambda>_.
     Inr ((balanceBefore, balanceAfter), s'))))"

definition accrualTransaction ::
  "ident \<Rightarrow> ident \<Rightarrow> ident \<Rightarrow> TransactionType \<Rightarrow> rat \<Rightarrow> rat \<Rightarrow> rat \<Rightarrow> string \<Rightarrow> txn" where
  "accrualTransaction tenantId accountId loanId ty amount balanceBefore balanceAfter reference =
     \<lparr>tx_id = '''', tx_tenantId = tenantId, tx_accountId = accountId, tx_loanId = Some loanId, tx_type = ty,
      tx_status = TransactionStatus.COMPLETED, tx_amount = amount, tx_balanceBefore = balanceBefore,
      tx_balanceAfter = balanceAfter, tx_reference = reference, tx_processedBy = ''SYSTEM'',
      tx_linkedTransactionId = None\<rparr>"

text \<open>
  The charge of a day, shared by interest (leg \<open>INTEREST\<close>) and final-maturity penalty: nothing for a
  zero amount, nothing when the day's reference is already there.
\<close>

definition accrualCharge ::
  "env \<Rightarrow> db \<Rightarrow> loan \<Rightarrow> ident \<Rightarrow> TransactionType \<Rightarrow> rat \<Rightarrow> string \<Rightarrow>
   (db \<Rightarrow> rat \<Rightarrow> ident \<Rightarrow> ((journal_entry \<times> bool) \<times> db) res) \<Rightarrow> db res" where
  "accrualCharge E s loan accountId ty amount reference post =
     (if \<not> 0 < amount \<or> transactionByReference s (ln_tenantId loan) reference \<noteq> None then Inr s
      else
        rbind (debitAccountWithCas E s accountId amount) (\<lambda>((balanceBefore, balanceAfter), s1).
        rbind (createTransaction E (accrualTransaction (ln_tenantId loan) accountId (ln_id loan) ty
            (dp4 E amount) (dp4 E balanceBefore) (dp4 E balanceAfter) reference) s1) (\<lambda>(t, s2).
        rbind (post s2 amount (tx_id t)) (\<lambda>(_, s3). Inr s3))))"

definition chargeInterest :: "env \<Rightarrow> db \<Rightarrow> loan \<Rightarrow> ident \<Rightarrow> rat \<Rightarrow> int \<Rightarrow> db res" where
  "chargeInterest E s loan accountId dailyInterest accrualDate =
     (let reference = ''ACCRUAL-'' @ ln_tenantId loan @ ''-'' @ ln_id loan @ ''-'' @ dateString accrualDate in
      accrualCharge E s loan accountId TransactionType.INTEREST_ACCRUAL dailyInterest reference
        (\<lambda>s amount t. postInterestAccrualEntry E s (ln_tenantId loan) reference amount FOSA t None))"

definition chargePenalty :: "env \<Rightarrow> db \<Rightarrow> loan \<Rightarrow> ident \<Rightarrow> rat \<Rightarrow> int \<Rightarrow> db res" where
  "chargePenalty E s loan accountId dailyPenalty accrualDate =
     (let reference = ''PENALTY-'' @ ln_tenantId loan @ ''-'' @ ln_id loan @ ''-'' @ dateString accrualDate in
      accrualCharge E s loan accountId TransactionType.PENALTY dailyPenalty reference
        (\<lambda>s amount t. postPenaltyDeductionEntry E s (ln_tenantId loan) reference amount FOSA t None))"

section \<open>Overdue instalments\<close>

definition updateRepayments ::
  "(repayment \<Rightarrow> bool) \<Rightarrow> (repayment \<Rightarrow> repayment) \<Rightarrow> db \<Rightarrow> (nat \<times> db) res" where
  "updateRepayments P f s =
     (let (rows, count) = updateMany P f (repayments s) in
      rbind (ensure (\<forall>r \<in> set rows. repayment_in_columns r) NumericFieldOverflow) (\<lambda>_.
      Inr (count, s\<lparr>repayments := rows\<rparr>)))"

definition penaltyDueToday :: "int \<Rightarrow> repayment \<Rightarrow> bool" where
  "penaltyDueToday accrualDate r \<longleftrightarrow>
     (case lr_lastPenaltyAccrualDate r of None \<Rightarrow> True | Some d \<Rightarrow> d < accrualDate)"

definition accruePenalty :: "env \<Rightarrow> loan \<Rightarrow> ident \<Rightarrow> int \<Rightarrow> db \<Rightarrow> repayment \<Rightarrow> db res" where
  "accruePenalty E loan fosaAccountId accrualDate s row =
     (let tenantId = ln_tenantId loan;
          amount = dp4 E (dtimes E (dplus E (lr_principalDue row) (lr_interestDue row)) (1 / 100)) in
      if amount \<le> 0 then Inr s
      else
        rbind (updateRepayments (\<lambda>r. lr_id r = lr_id row \<and> lr_tenantId r = tenantId \<and> penaltyDueToday accrualDate r)
          (\<lambda>r. r\<lparr>lr_penaltyDue := lr_penaltyDue r + amount, lr_lastPenaltyAccrualDate := Some accrualDate,
                 lr_status := InstallmentStatus.OVERDUE\<rparr>) s) (\<lambda>(count, s1).
        let reference = ''PENALTY-'' @ tenantId @ ''-'' @ ln_id loan @ ''-'' @ lr_id row @ ''-'' @ dateString accrualDate in
        if count = 0 \<or> transactionByReference s1 tenantId reference \<noteq> None then Inr s1
        else
          (let balance = (case findFirst (\<lambda>a. acc_id a = fosaAccountId) (accounts s1) of
                 None \<Rightarrow> 0 | Some a \<Rightarrow> acc_balance a) in
           rbind (createTransaction E (accrualTransaction tenantId fosaAccountId (ln_id loan)
               TransactionType.PENALTY amount balance balance reference) s1) (\<lambda>(t, s2).
           rbind (postPenaltyReceivableEntry E s2 tenantId reference amount (tx_id t) None) (\<lambda>(_, s3).
           Inr s3)))))"

definition classifyStaging :: "int \<Rightarrow> LoanStaging" where
  "classifyStaging arrearsDays =
     (if 90 \<le> arrearsDays then LoanStaging.NPL
      else if 30 \<le> arrearsDays then LoanStaging.WATCHLIST else LoanStaging.PERFORMING)"

definition unpaidPart :: "env \<Rightarrow> repayment \<Rightarrow> rat" where
  "unpaidPart E r =
     (let due = dplus E (dplus E (lr_principalDue r) (lr_interestDue r)) (lr_penaltyDue r);
          paid = dplus E (dplus E (lr_principalPaid r) (lr_interestPaid r)) (lr_penaltyPaid r)
      in max (dminus E due paid) 0)"

text \<open>The roll-up: (arrearsDays, arrearsAmount, staging).\<close>

definition rollUp :: "env \<Rightarrow> db \<Rightarrow> ident \<Rightarrow> ident \<Rightarrow> int \<Rightarrow> int \<times> rat \<times> LoanStaging" where
  "rollUp E s tenantId loanId accrualDate =
     (let overdue = sort_key lr_dueDate (filter (\<lambda>r. lr_dueDate r < accrualDate) (unpaidInstalments s tenantId loanId)) in
      case overdue of
        [] \<Rightarrow> (0, 0, classifyStaging 0)
      | earliest # _ \<Rightarrow>
          (let arrearsDays = (accrualDate - lr_dueDate earliest) div MS_PER_DAY
           in (arrearsDays, dp4 E (dsum E (unpaidPart E) overdue), classifyStaging arrearsDays)))"

definition applyOverdueInstallmentsAndArrears ::
  "env \<Rightarrow> db \<Rightarrow> loan \<Rightarrow> ident \<Rightarrow> int \<Rightarrow> ((int \<times> rat \<times> LoanStaging) \<times> db) res" where
  "applyOverdueInstallmentsAndArrears E s loan fosaAccountId accrualDate =
     (let penaltyCutoff = accrualDate - 3 * MS_PER_DAY;
          eligible = filter (\<lambda>r. lr_dueDate r < penaltyCutoff \<and> penaltyDueToday accrualDate r)
            (unpaidInstalments s (ln_tenantId loan) (ln_id loan)) in
      rbind (foldM (accruePenalty E loan fosaAccountId accrualDate) s eligible) (\<lambda>s1.
      Inr (rollUp E s1 (ln_tenantId loan) (ln_id loan) accrualDate, s1)))"

section \<open>One loan\<close>

definition fosaAccountOf :: "db \<Rightarrow> loan \<Rightarrow> account option" where
  "fosaAccountOf s loan =
     findFirst (\<lambda>a. acc_memberId a = ln_memberId loan \<and> acc_accountType a = FOSA \<and> acc_isActive a) (accounts s)"

definition accruedLoan :: "env \<Rightarrow> int \<times> rat \<times> LoanStaging \<Rightarrow> int \<Rightarrow> rat \<Rightarrow> loan \<Rightarrow> loan" where
  "accruedLoan E arrears accrualDate dailyInterest l =
     (let (days, amount, staging) = arrears in
      l\<lparr>ln_arrearsDays := days, ln_arrearsAmount := amount, ln_staging := staging,
        ln_lastAccrualDate := Some accrualDate,
        ln_accruedInterest := ln_accruedInterest l + to_number E (dp4 E dailyInterest),
        ln_status := (if staging = LoanStaging.NPL then LoanStatus.DEFAULTED else ln_status l)\<rparr>)"

definition accrueOnAccount :: "env \<Rightarrow> db \<Rightarrow> loan \<Rightarrow> ident \<Rightarrow> int \<Rightarrow> db res" where
  "accrueOnAccount E s loan accountId accrualDate =
     (let dailyInterest = computeScheduleBasedDailyInterest E s loan accrualDate;
          isPastDue = (case ln_dueDate loan of None \<Rightarrow> False | Some d \<Rightarrow> d < accrualDate);
          dailyPenalty = (if isPastDue then dp4 E (dtimes E (ln_outstandingBalance loan) (1 / 1000)) else 0) in
      rbind (chargeInterest E s loan accountId dailyInterest accrualDate) (\<lambda>s1.
      rbind (chargePenalty E s1 loan accountId dailyPenalty accrualDate) (\<lambda>s2.
      rbind (applyOverdueInstallmentsAndArrears E s2 loan accountId accrualDate) (\<lambda>(arrears, s3).
      updateLoan (ln_id loan) (accruedLoan E arrears accrualDate dailyInterest) s3))))"

text \<open>The account is the one of the initial read \<open>s0\<close>.\<close>

definition accrueInterestForLoan :: "env \<Rightarrow> db \<Rightarrow> int \<Rightarrow> db \<Rightarrow> loan \<Rightarrow> db res" where
  "accrueInterestForLoan E s0 accrualDate s loan =
     (if ln_outstandingBalance loan \<le> 0 then Inr s
      else
        (case fosaAccountOf s0 loan of
           None \<Rightarrow> Inr s
         | Some account \<Rightarrow> accrueOnAccount E s loan (acc_id account) accrualDate))"

section \<open>The run\<close>

fun accrueAll :: "env \<Rightarrow> db \<Rightarrow> int \<Rightarrow> loan list \<Rightarrow> nat \<Rightarrow> nat \<Rightarrow> db \<Rightarrow> (nat \<times> nat) \<times> db" where
  "accrueAll E s0 accrualDate [] processed skipped s = ((processed, skipped), s)"
| "accrueAll E s0 accrualDate (l # ls) processed skipped s =
     (case accrueInterestForLoan E s0 accrualDate s l of
        Inr s' \<Rightarrow> accrueAll E s0 accrualDate ls (Suc processed) skipped s'
      | Inl _ \<Rightarrow> accrueAll E s0 accrualDate ls processed (Suc skipped) s)"

definition accruableLoans :: "db \<Rightarrow> ident \<Rightarrow> int \<Rightarrow> loan list" where
  "accruableLoans s tenantId accrualDate =
     filter (\<lambda>l. ln_tenantId l = tenantId \<and> ln_status l \<in> {LoanStatus.ACTIVE, LoanStatus.DISBURSED} \<and>
       (case ln_lastAccrualDate l of None \<Rightarrow> True | Some d \<Rightarrow> d < accrualDate)) (loans s)"

definition runDailyAccrual :: "env \<Rightarrow> bool \<Rightarrow> db \<Rightarrow> ident \<Rightarrow> int \<Rightarrow> (nat \<times> nat) \<times> db" where
  "runDailyAccrual E locked s tenantId accrualDate =
     (if \<not> locked then ((0, 0), s)
      else accrueAll E s accrualDate (accruableLoans s tenantId accrualDate) 0 0 s)"

section \<open>Lemmas: the books\<close>

definition owner :: "account \<Rightarrow> account" where
  "owner a = a\<lparr>acc_balance := 0, acc_version := 0\<rparr>"

definition accrual_reference :: "string \<Rightarrow> bool" where
  "accrual_reference ref \<longleftrightarrow> take 8 ref = ''ACCRUAL-'' \<or> take 8 ref = ''PENALTY-''"

text \<open>Every journal entry of an accrual comes with its transaction row.\<close>

definition accrual_backed :: "db \<Rightarrow> ident \<Rightarrow> bool" where
  "accrual_backed s t \<longleftrightarrow> (\<forall>ref. accrual_reference ref \<and> transactionByReference s t ref = None \<longrightarrow> no_entry s t ref)"

lemma accrual_backedI:
  assumes "\<forall>j \<in> set (journalEntries s). je_tenantId j = t \<longrightarrow> \<not> accrual_reference (drop 10 (je_entryNumber j))"
  shows "accrual_backed s t"
proof -
  have "drop 10 (jeLedgerNumber ref) = ref" for ref by (simp add: jeLedgerNumber_def)
  then show ?thesis using assms unfolding accrual_backed_def no_entry_def by metis
qed

definition books_kept :: "ident \<Rightarrow> db \<Rightarrow> db \<Rightarrow> bool" where
  "books_kept t s s' \<longleftrightarrow>
     (wf_db s \<and> accrual_backed s t \<longrightarrow> wf_db s' \<and> accrual_backed s' t \<and> (\<forall>x. gl_agrees s x \<longrightarrow> gl_agrees s' x)) \<and>
     map owner (accounts s') = map owner (accounts s)"

lemma books_kept_refl [simp]: "books_kept t s s"
  by (simp add: books_kept_def)

lemma books_kept_trans: "books_kept t s s' \<Longrightarrow> books_kept t s' s'' \<Longrightarrow> books_kept t s s''"
  by (simp add: books_kept_def)

lemma books_kept_same:
  assumes "accounts s' = accounts s" "transactions s' = transactions s" "journalEntries s' = journalEntries s"
    "glAccounts s' = glAccounts s"
  shows "books_kept t s s'"
proof -
  have "accrual_backed s' t = accrual_backed s t"
    using assms by (simp add: accrual_backed_def transactionByReference_def no_entry_def)
  moreover have "wf_db s' = wf_db s"
    using assms by (simp add: wf_db_def wf_accounts_def wf_gl_def wf_transactions_def wf_journal_def)
  ultimately show ?thesis using gl_agrees_cong [OF assms(1,4,3)] by (simp add: books_kept_def assms(1))
qed

definition account_fits :: "db \<Rightarrow> ident \<Rightarrow> ident \<Rightarrow> bool" where
  "account_fits s t k \<longleftrightarrow> (\<exists>a \<in> set (accounts s). acc_id a = k \<and> acc_tenantId a = t \<and> acc_accountType a = FOSA)"

lemma account_fits_kept:
  assumes "map owner (accounts s') = map owner (accounts s)"
  shows "account_fits s' t k = account_fits s t k"
proof -
  have *: "account_fits s t k \<longleftrightarrow> (\<exists>a \<in> set (map owner (accounts s)). acc_id a = k \<and> acc_tenantId a = t \<and> acc_accountType a = FOSA)" for s
    by (auto simp: account_fits_def owner_def)
  show ?thesis by (simp only: * assms)
qed

text \<open>A transaction row and its entry keep the accruals backed.\<close>

lemma accrual_backed_posted:
  assumes "accrual_backed s t" and "transactions s' = transactions s @ [txn]" "tx_tenantId txn = t" "tx_reference txn = ref"
    and "\<And>ref'. no_entry s t ref' \<Longrightarrow> ref' \<noteq> ref \<Longrightarrow> no_entry s' t ref'"
  shows "accrual_backed s' t"
  unfolding accrual_backed_def
proof (intro allI impI)
  fix r
  assume r: "accrual_reference r \<and> transactionByReference s' t r = None"
  then have "transactionByReference s t r = None" "r \<noteq> ref"
    using assms(2-4) by (auto simp: transactionByReference_def findFirst_append split: option.splits if_splits)
  then show "no_entry s' t r" using assms(1,5) r by (simp add: accrual_backed_def)
qed

context decimal_runtime
begin

lemma debit_effects:
  assumes run: "debitAccountWithCas E s k amount = Inr ((before, after), s')"
    and wf: "wf_db s" and amt: "money amount" and a: "a \<in> set (accounts s)" "acc_id a = k"
  shows "before = acc_balance a \<and> after = acc_balance a - amount \<and> wf_db s' \<and> s' = s\<lparr>accounts := accounts s'\<rparr> \<and>
    map owner (accounts s') = map owner (accounts s) \<and>
    (\<forall>t ty. deposits s' t ty = deposits s t ty + (if acc_tenantId a = t \<and> acc_accountType a = ty then - amount else 0))"
proof -
  have d: "distinct (map acc_id (accounts s))" using wf by (simp add: wf_db_def wf_accounts_def)
  note w = wf_accountD [OF wf_accountsD(2) [OF wf_dbD(1) [OF wf] a(1)]]
  have "findFirst (\<lambda>x. acc_id x = k) (accounts s) = Some a"
    using account_table.lookup_unique [OF d a(1)] a(2) by simp
  then obtain n where after: "before = acc_balance a" "after = dp4 E (dminus E (acc_balance a) amount)"
    and upd: "updateAccounts (\<lambda>x. acc_id x = k \<and> acc_version x = acc_version a)
       (\<lambda>x. x\<lparr>acc_balance := after, acc_version := acc_version x + 1\<rparr>) s = Inr (n, s')"
    using run by (auto simp: debitAccountWithCas_def Let_def res_simps)
  have m: "m4 (acc_balance a - amount)" using w(1) amt by (simp add: money_m4 places_diff)
  have ex: "after = acc_balance a - amount" using after(2) dminus_money [OF w(1) amt] m by simp
  let ?f = "\<lambda>x. x\<lparr>acc_balance := after, acc_version := acc_version x + 1\<rparr>"
  have aw: "wf_db s' \<and> s' = s\<lparr>accounts := accounts s'\<rparr> \<and>
    accounts s' = map (\<lambda>x. if acc_id x = acc_id a then ?f a else x) (accounts s) \<and>
    (\<forall>t ty. deposits s' t ty = deposits s t ty +
       (if acc_tenantId a = t \<and> acc_accountType a = ty then acc_balance (?f a) - acc_balance a else 0))"
    by (rule account_written [OF upd wf a(1)]) (use a(2) m w ex in \<open>simp_all add: money_m4\<close>)
  have "owner (if acc_id x = acc_id a then ?f a else x) = owner x" if "x \<in> set (accounts s)" for x
    using distinct_key_eq [OF d that a(1)] by (auto simp: owner_def)
  then have "map owner (accounts s') = map owner (accounts s)" using aw by simp
  then show ?thesis using aw ex after(1) by auto
qed

lemma accrualCharge_books:
  assumes run: "accrualCharge E s loan k ty amount ref post = Inr s'"
    and post: "\<And>x y z. post x y z = postGlOnlyLegEntry E x (ln_tenantId loan) ref lg y (memberDepositsCode FOSA) z None jt"
    and fits: "account_fits s (ln_tenantId loan) k" and ref: "accrual_reference ref" and m: "m4 amount"
  shows "books_kept (ln_tenantId loan) s s' \<and> ledger_only s s'"
proof (cases "0 < amount \<and> transactionByReference s (ln_tenantId loan) ref = None")
  case False
  then show ?thesis using run by (auto simp: accrualCharge_def)
next
  case True
  let ?t = "ln_tenantId loan"
  from run True obtain before after s1 txn s2 e r where
    deb: "debitAccountWithCas E s k amount = Inr ((before, after), s1)"
    and tx: "createTransaction E (accrualTransaction ?t k (ln_id loan) ty (dp4 E amount) (dp4 E before) (dp4 E after) ref) s1 = Inr (txn, s2)"
    and en: "postGlOnlyLegEntry E s2 ?t ref lg amount (memberDepositsCode FOSA) (tx_id txn) None jt = Inr ((e, r), s')"
    by (auto simp: accrualCharge_def post res_simps)
  from fits obtain a where a: "a \<in> set (accounts s)" "acc_id a = k" "acc_tenantId a = ?t" "acc_accountType a = FOSA"
    by (auto simp: account_fits_def)
  have lo2: "ledger_only s1 s2" by (rule ledger_only_createTransaction [OF tx])
  have lo3: "ledger_only s2 s'" by (rule ledger_only_postGlOnlyLegEntry [OF en])
  have amt: "money amount" using tx m by (auto simp: createTransaction_Inr accrualTransaction_def intro: money_in_column)
  have own: "map owner (accounts s1) = map owner (accounts s)" and s1: "s1 = s\<lparr>accounts := accounts s1\<rparr>"
  proof -
    from deb have "\<exists>(acc :: account) n v. updateAccounts (\<lambda>a. acc_id a = k \<and> acc_version a = acc_version acc)
       (\<lambda>a. a\<lparr>acc_balance := v, acc_version := acc_version a + 1\<rparr>) s = Inr (n, s1)"
      by (auto simp: debitAccountWithCas_def Let_def res_simps)
    then show "map owner (accounts s1) = map owner (accounts s)" "s1 = s\<lparr>accounts := accounts s1\<rparr>"
      by (auto simp: updateAccounts_Inr owner_def)
  qed
  have lo1: "ledger_only s s1" by (subst s1) (simp add: ledger_only_def)
  have acc2: "accounts s2 = accounts s1" using tx by (auto simp: createTransaction_Inr)
  have acc3: "accounts s' = accounts s2"
    using en by (cases rule: postGlOnlyLegEntry_cases) (auto simp: createJournalEntry_Inr dest: arg_cong [of _ _ accounts])
  have "wf_db s' \<and> accrual_backed s' ?t \<and> (\<forall>x. gl_agrees s x \<longrightarrow> gl_agrees s' x)"
    if wf: "wf_db s" and backed: "accrual_backed s ?t"
  proof -
    note db = debit_effects [OF deb wf amt a(1,2)]
    have f1: "transactions s1 = transactions s" "journalEntries s1 = journalEntries s" "glAccounts s1 = glAccounts s"
      by (subst s1, simp)+
    have f2: "journalEntries s2 = journalEntries s" "glAccounts s2 = glAccounts s"
      "transactions s2 = transactions s @ [txn]" "tx_tenantId txn = ?t" "tx_reference txn = ref"
      using tx by (auto simp: createTransaction_Inr f1 accrualTransaction_def)
    have w2: "wf_db s2" by (rule createTransaction_wf [OF tx]) (use db in \<open>simp_all add: accrualTransaction_def\<close>)
    have n2: "no_entry s2 = no_entry s" by (rule no_entry_cong) (simp add: f2)
    have new: "no_entry s ?t ref" using backed ref True by (simp add: accrual_backed_def)
    note ent = account_entry [OF en w2 m, unfolded n2, OF new]
    have "accrual_backed s' ?t"
      by (rule accrual_backed_posted [OF backed, where ref = ref and txn = txn]) (use f2 ent(3,6) in auto)
    moreover have "gl_agrees s' x" if "gl_agrees s x" for x
    proof (rule agreement_step [OF that, where x = "\<lambda>z. if ?t = x \<and> FOSA = z then - amount else 0"])
      fix z
      have "deposits s' x z = deposits s1 x z" by (rule deposits_cong) (simp add: acc2 acc3)
      then show "deposits s' x z = deposits s x z + (if ?t = x \<and> FOSA = z then - amount else 0)" using db a(3,4) by simp
      have "gl_credit s2 x c = gl_credit s x c" for c by (rule gl_credit_cong) (simp_all add: f2)
      then show "gl_credit s' x (memberDepositsCode z) = gl_credit s x (memberDepositsCode z) +
          (if ?t = x \<and> FOSA = z then - amount else 0)" using ent(5) [of x z] by auto
    qed
    ultimately show ?thesis using ent(1) by blast
  qed
  then show ?thesis using own acc2 acc3 lo1 lo2 lo3 ledger_only_trans by (metis books_kept_def)
qed

lemma accruePenalty_books:
  assumes run: "accruePenalty E loan k date s row = Inr s'"
  shows "books_kept (ln_tenantId loan) s s' \<and> loans s' = loans s"
proof -
  let ?t = "ln_tenantId loan"
  let ?amt = "dp4 E (dtimes E (dplus E (lr_principalDue row) (lr_interestDue row)) (1 / 100))"
  let ?ref = "''PENALTY-'' @ ?t @ ''-'' @ ln_id loan @ ''-'' @ lr_id row @ ''-'' @ dateString date"
  consider "s' = s" | n s1 where "updateRepayments (\<lambda>r. lr_id r = lr_id row \<and> lr_tenantId r = ?t \<and> penaltyDueToday date r)
          (\<lambda>r. r\<lparr>lr_penaltyDue := lr_penaltyDue r + ?amt, lr_lastPenaltyAccrualDate := Some date,
                 lr_status := InstallmentStatus.OVERDUE\<rparr>) s = Inr (n, s1)"
      "n = 0 \<or> transactionByReference s1 ?t ?ref \<noteq> None" "s' = s1"
    | n s1 b txn s2 e r where "updateRepayments (\<lambda>r. lr_id r = lr_id row \<and> lr_tenantId r = ?t \<and> penaltyDueToday date r)
          (\<lambda>r. r\<lparr>lr_penaltyDue := lr_penaltyDue r + ?amt, lr_lastPenaltyAccrualDate := Some date,
                 lr_status := InstallmentStatus.OVERDUE\<rparr>) s = Inr (n, s1)"
      "transactionByReference s1 ?t ?ref = None" "b = 0 \<or> (\<exists>a \<in> set (accounts s1). b = acc_balance a)"
      "createTransaction E (accrualTransaction ?t k (ln_id loan) TransactionType.PENALTY ?amt b b ?ref) s1 = Inr (txn, s2)"
      "postGlOnlyLegEntry E s2 ?t ?ref leg.PENALTY ?amt GL_LOAN_RECEIVABLE (tx_id txn) None JournalEntryType.LOAN_REPAYMENT = Inr ((e, r), s')"
  proof (cases "?amt \<le> 0")
    case True
    then show thesis using run that(1) by (simp add: accruePenalty_def Let_def)
  next
    case False
    note run = run [unfolded accruePenalty_def Let_def if_not_P [OF False]]
    from run obtain n s1 where upd: "updateRepayments (\<lambda>r. lr_id r = lr_id row \<and> lr_tenantId r = ?t \<and> penaltyDueToday date r)
          (\<lambda>r. r\<lparr>lr_penaltyDue := lr_penaltyDue r + ?amt, lr_lastPenaltyAccrualDate := Some date,
                 lr_status := InstallmentStatus.OVERDUE\<rparr>) s = Inr (n, s1)" by (rule rbind_Inr_pairE)
    note run = run [unfolded upd rbind.simps prod.case]
    show thesis
    proof (cases "n = 0 \<or> transactionByReference s1 ?t ?ref \<noteq> None")
      case True
      then show thesis using run upd that(2) by simp
    next
      case new: False
      let ?b = "case findFirst (\<lambda>a. acc_id a = k) (accounts s1) of None \<Rightarrow> 0 | Some a \<Rightarrow> acc_balance a"
      have b: "?b = 0 \<or> (\<exists>a \<in> set (accounts s1). ?b = acc_balance a)"
        by (auto split: option.split dest: findFirst_Some)
      note run = run [unfolded if_not_P [OF new]]
      from run obtain txn s2 where tx: "createTransaction E (accrualTransaction ?t k (ln_id loan) TransactionType.PENALTY ?amt ?b ?b ?ref) s1 = Inr (txn, s2)"
        by (rule rbind_Inr_pairE)
      note run = run [unfolded tx rbind.simps prod.case]
      from run obtain e where en: "postPenaltyReceivableEntry E s2 ?t ?ref ?amt (tx_id txn) None = Inr (e, s')"
        by (auto elim!: rbind_Inr_pairE)
      then show thesis using that(3) [OF upd _ b tx] new by (cases e) (auto simp: postPenaltyReceivableEntry_def)
    qed
  qed
  then show ?thesis
  proof cases
    case 1
    then show ?thesis by simp
  next
    case 2
    then show ?thesis by (auto simp: updateRepayments_def updateMany_def Let_def res_simps intro!: books_kept_same)
  next
    case 3
    from 3(1) have f1: "accounts s1 = accounts s" "transactions s1 = transactions s" "journalEntries s1 = journalEntries s"
      "glAccounts s1 = glAccounts s" "loans s1 = loans s" "wf_db s1 = wf_db s"
      by (auto simp: updateRepayments_def updateMany_def Let_def res_simps)
    from 3(4) have f2: "journalEntries s2 = journalEntries s" "glAccounts s2 = glAccounts s" "loans s2 = loans s"
      "transactions s2 = transactions s @ [txn]" "tx_tenantId txn = ?t" "tx_reference txn = ?ref" "accounts s2 = accounts s"
      by (auto simp: createTransaction_Inr f1 accrualTransaction_def)
    have tail: "accounts s' = accounts s2 \<and> loans s' = loans s2 \<and> transactions s' = transactions s2"
      using 3(5) by (cases rule: postGlOnlyLegEntry_cases)
        (auto simp: createJournalEntry_Inr dest: arg_cong [of _ _ accounts] arg_cong [of _ _ loans] arg_cong [of _ _ transactions])
    have "wf_db s' \<and> accrual_backed s' ?t \<and> (\<forall>x. gl_agrees s x \<longrightarrow> gl_agrees s' x)"
      if wf: "wf_db s" and backed: "accrual_backed s ?t"
    proof -
      have "m4 b" using 3(3) f1(1,6) wf by (auto simp: wf_db_def wf_accounts_def wf_account_def money_m4)
      then have w2: "wf_db s2" by (intro createTransaction_wf [OF 3(4)]) (simp_all add: f1 wf accrualTransaction_def)
      note ef = postGlOnlyLegEntry_effects [OF 3(5) w2]
      have "no_entry s2 ?t ref' \<Longrightarrow> ref' \<noteq> ?ref \<Longrightarrow> no_entry s' ?t ref'" for ref'
        using 3(5) by (cases rule: postGlOnlyLegEntry_cases)
          (auto simp: no_entry_def createJournalEntry_Inr ledgerJournalEntry_def dest: arg_cong [of _ _ journalEntries])
      then have "accrual_backed s' ?t"
        by (intro accrual_backed_posted [OF backed, where ref = "?ref" and txn = txn])
          (use f2 ef(3) in \<open>auto simp: no_entry_def\<close>)
      moreover have "gl_agrees s' x" if "gl_agrees s x" for x
      proof (rule agreement_step [OF that, where x = "\<lambda>_. 0"])
        fix z
        show "deposits s' x z = deposits s x z + 0" using deposits_cong [of s' s] by (simp add: ef(2) f2)
        have "gl_credit s2 x c = gl_credit s x c" for c by (rule gl_credit_cong) (simp_all add: f2)
        then show "gl_credit s' x (memberDepositsCode z) = gl_credit s x (memberDepositsCode z) + 0"
          using ef(8) [of x "memberDepositsCode z"] by (cases z) (auto simp: code_effect_def memberDepositsCode_def legCreditCode_def gl_codes)
      qed
      ultimately show ?thesis using ef(1) by blast
    qed
    then show ?thesis using tail f2(3,7) by (simp add: books_kept_def)
  qed
qed

lemma applyOverdue_books:
  assumes "applyOverdueInstallmentsAndArrears E s loan k date = Inr (r, s')"
  shows "books_kept (ln_tenantId loan) s s' \<and> loans s' = loans s"
proof -
  from assms obtain rows where fold: "foldM (accruePenalty E loan k date) s rows = Inr s'"
    by (auto simp: applyOverdueInstallmentsAndArrears_def Let_def res_simps)
  show ?thesis
  proof (rule foldM_inv [OF fold, where P = "\<lambda>x. books_kept (ln_tenantId loan) s x \<and> loans x = loans s"])
    fix x row y
    assume "books_kept (ln_tenantId loan) s x \<and> loans x = loans s" "accruePenalty E loan k date x row = Inr y"
    then show "books_kept (ln_tenantId loan) s y \<and> loans y = loans s"
      using accruePenalty_books books_kept_trans by metis
  qed simp
qed

lemma accrueOnAccount_steps:
  assumes "accrueOnAccount E s loan k date = Inr s'"
  obtains s1 s2 arrears s3 x where
    "chargeInterest E s loan k (computeScheduleBasedDailyInterest E s loan date) date = Inr s1"
    "chargePenalty E s1 loan k x date = Inr s2" "m4 x"
    "applyOverdueInstallmentsAndArrears E s2 loan k date = Inr (arrears, s3)"
    "updateLoan (ln_id loan) (accruedLoan E arrears date (computeScheduleBasedDailyInterest E s loan date)) s3 = Inr s'"
proof -
  let ?x = "if (case ln_dueDate loan of None \<Rightarrow> False | Some d \<Rightarrow> d < date)
    then dp4 E (dtimes E (ln_outstandingBalance loan) (1 / 1000)) else 0"
  have m: "m4 ?x" by simp
  from assms show thesis
    unfolding accrueOnAccount_def Let_def by (elim rbind_InrE rbind_Inr_pairE) (simp only: prod.case that [OF _ _ m])
qed

lemma daily_m4: "m4 (computeScheduleBasedDailyInterest E s loan date)"
  by (simp add: computeScheduleBasedDailyInterest_def split: option.split)

lemma chargeInterest_books:
  assumes "chargeInterest E s loan k x date = Inr s'" and "account_fits s (ln_tenantId loan) k" and "m4 x"
  shows "books_kept (ln_tenantId loan) s s' \<and> ledger_only s s'"
  using assms(1) unfolding chargeInterest_def Let_def postInterestAccrualEntry_def
  by (rule accrualCharge_books [OF _ refl assms(2) _ assms(3)]) (simp add: accrual_reference_def)

lemma chargePenalty_books:
  assumes "chargePenalty E s loan k x date = Inr s'" and "account_fits s (ln_tenantId loan) k" and "m4 x"
  shows "books_kept (ln_tenantId loan) s s' \<and> ledger_only s s'"
  using assms(1) unfolding chargePenalty_def Let_def postPenaltyDeductionEntry_def
  by (rule accrualCharge_books [OF _ refl assms(2) _ assms(3)]) (simp add: accrual_reference_def)

lemma accrueOnAccount_books:
  assumes "accrueOnAccount E s loan k date = Inr s'" and fits: "account_fits s (ln_tenantId loan) k"
  shows "books_kept (ln_tenantId loan) s s'"
  using assms(1)
proof (rule accrueOnAccount_steps)
  fix s1 s2 arrears s3 x
  let ?t = "ln_tenantId loan"
  assume i: "chargeInterest E s loan k (computeScheduleBasedDailyInterest E s loan date) date = Inr s1"
    and p: "chargePenalty E s1 loan k x date = Inr s2" "m4 x"
    and o: "applyOverdueInstallmentsAndArrears E s2 loan k date = Inr (arrears, s3)"
    and u: "updateLoan (ln_id loan) (accruedLoan E arrears date (computeScheduleBasedDailyInterest E s loan date)) s3 = Inr s'"
  have b1: "books_kept ?t s s1" using chargeInterest_books [OF i fits daily_m4] by blast
  then have "account_fits s1 ?t k" using fits account_fits_kept [of s1 s] by (simp add: books_kept_def)
  then have b2: "books_kept ?t s1 s2" using chargePenalty_books [OF p(1) _ p(2)] by blast
  have b3: "books_kept ?t s2 s3" using applyOverdue_books [OF o] by blast
  have "books_kept ?t s3 s'" using u by (auto simp: updateLoan_Inr intro: books_kept_same)
  then show ?thesis using b1 b2 b3 books_kept_trans by blast
qed

end

text \<open>Accounts belong to the tenant of the loans of their member.\<close>

definition same_tenant :: "db \<Rightarrow> bool" where
  "same_tenant s \<longleftrightarrow> (\<forall>l \<in> set (loans s). \<forall>a \<in> set (accounts s).
     acc_memberId a = ln_memberId l \<longrightarrow> acc_tenantId a = ln_tenantId l)"

context decimal_runtime
begin

lemma accrueInterestForLoan_books:
  assumes run: "accrueInterestForLoan E s0 date s loan = Inr s'" and same: "same_tenant s0" "loan \<in> set (loans s0)"
    and kept: "map owner (accounts s) = map owner (accounts s0)"
  shows "books_kept (ln_tenantId loan) s s'"
proof -
  consider "s' = s" | a where "fosaAccountOf s0 loan = Some a" "accrueOnAccount E s loan (acc_id a) date = Inr s'"
    using run by (auto simp: accrueInterestForLoan_def split: if_splits option.splits)
  then show ?thesis
  proof cases
    case 1
    then show ?thesis by simp
  next
    case (2 a)
    then have "a \<in> set (accounts s0)" "acc_memberId a = ln_memberId loan" "acc_accountType a = FOSA"
      by (auto simp: fosaAccountOf_def dest!: findFirst_Some)
    then have "account_fits s0 (ln_tenantId loan) (acc_id a)" using same by (auto simp: account_fits_def same_tenant_def)
    then have "account_fits s (ln_tenantId loan) (acc_id a)" using account_fits_kept [OF kept] by simp
    then show ?thesis by (rule accrueOnAccount_books [OF 2(2)])
  qed
qed

lemma accrueAll_books:
  assumes "accrueAll E s0 date ls p k s = (r, s')" and "same_tenant s0" "set ls \<subseteq> {l \<in> set (loans s0). ln_tenantId l = t}"
    and "map owner (accounts s) = map owner (accounts s0)"
  shows "books_kept t s s'"
  using assms(1,3,4)
proof (induction ls arbitrary: p k s)
  case Nil
  then show ?case by simp
next
  case (Cons l ls)
  then have l: "l \<in> set (loans s0)" "ln_tenantId l = t" by auto
  show ?case
  proof (cases "accrueInterestForLoan E s0 date s l")
    case (Inl e)
    then show ?thesis using Cons by simp
  next
    case (Inr s1)
    have b: "books_kept t s s1" using accrueInterestForLoan_books [OF Inr assms(2) l(1) Cons.prems(3)] l(2) by simp
    then have "map owner (accounts s1) = map owner (accounts s0)" using Cons.prems(3) by (simp add: books_kept_def)
    then have "books_kept t s1 s'" using Cons Inr by simp
    with b show ?thesis by (rule books_kept_trans)
  qed
qed

end

end
