(* ===== verification/Accrual_Properties.thy ===== *)
theory Accrual_Properties
  imports Daily_Accrual Repayment_Properties "HOL-Library.Multiset"
begin

text \<open>
  What the daily accrual guarantees: the books, the amount of a day's interest, idempotence of a run, and
  arrears that are those of the schedule; and two ways in which its figures are charged again by the
  repayment services.
\<close>

section \<open>The loan row\<close>

context decimal_runtime
begin

lemma accrueOnAccount_loans:
  assumes run: "accrueOnAccount E s loan k date = Inr s'" and fits: "account_fits s (ln_tenantId loan) k"
  shows "loans s' = map (\<lambda>x. if ln_id x = ln_id loan
      then accruedLoan E (rollUp E s' (ln_tenantId loan) (ln_id loan) date) date
        (computeScheduleBasedDailyInterest E s loan date) x else x) (loans s)"
  using run
proof (rule accrueOnAccount_steps)
  fix s1 s2 arrears s3 x
  let ?t = "ln_tenantId loan"
  assume i: "chargeInterest E s loan k (computeScheduleBasedDailyInterest E s loan date) date = Inr s1"
    and p: "chargePenalty E s1 loan k x date = Inr s2" "m4 x"
    and o: "applyOverdueInstallmentsAndArrears E s2 loan k date = Inr (arrears, s3)"
    and u: "updateLoan (ln_id loan) (accruedLoan E arrears date (computeScheduleBasedDailyInterest E s loan date)) s3 = Inr s'"
  note c1 = chargeInterest_books [OF i fits daily_m4]
  then have "account_fits s1 ?t k" using fits account_fits_kept [of s1 s] by (simp add: books_kept_def)
  note c2 = chargePenalty_books [OF p(1) this p(2)]
  have loans3: "loans s3 = loans s" using c1 c2 applyOverdue_books [OF o] by (simp add: ledger_only_def)
  have "arrears = rollUp E s3 ?t (ln_id loan) date"
    using o by (auto simp: applyOverdueInstallmentsAndArrears_def Let_def res_simps)
  moreover have "rollUp E s3 = rollUp E s'"
    using u by (intro ext) (simp add: updateLoan_Inr rollUp_def unpaidInstalments_def)
  ultimately have arrears: "arrears = rollUp E s' ?t (ln_id loan) date" by simp
  have "loans s' = map (\<lambda>x. if ln_id x = ln_id loan
      then accruedLoan E arrears date (computeScheduleBasedDailyInterest E s loan date) x else x) (loans s)"
    using u by (auto simp: updateLoan_Inr loans3)
  then show ?thesis unfolding arrears .
qed

end

text \<open>Loans that a run passes over without an error: nothing outstanding, or no FOSA account.\<close>

definition silent :: "db \<Rightarrow> loan \<Rightarrow> bool" where
  "silent s l \<longleftrightarrow> ln_outstandingBalance l \<le> 0 \<or> fosaAccountOf s l = None"

lemma fosaAccountOf_kept:
  assumes "map owner (accounts s') = map owner (accounts s)" and "ln_memberId l' = ln_memberId l"
  shows "fosaAccountOf s' l' = None \<longleftrightarrow> fosaAccountOf s l = None"
proof -
  have *: "fosaAccountOf s l = None \<longleftrightarrow> (\<forall>a \<in> set (map owner (accounts s)).
      \<not> (acc_memberId a = ln_memberId l \<and> acc_accountType a = FOSA \<and> acc_isActive a))" for s l
    by (auto simp: fosaAccountOf_def table_simps owner_def)
  show ?thesis by (simp only: * assms)
qed

lemma accrueAll_silent:
  assumes "\<forall>l \<in> set ls. silent s0 l"
  shows "accrueAll E s0 date ls p k s = ((p + length ls, k), s)"
  using assms by (induction ls arbitrary: p) (auto simp: accrueInterestForLoan_def silent_def split: option.split)

lemma accrueAll_skipped:
  "accrueAll E s0 date ls p k s = ((p', k'), s') \<Longrightarrow> k \<le> k'"
  by (induction ls arbitrary: p k s) (fastforce split: sum.splits)+

text \<open>How a loan row can have changed: its key, member and balance are kept, and it is either untouched or done.\<close>

definition run_row :: "int \<Rightarrow> loan \<Rightarrow> loan \<Rightarrow> bool" where
  "run_row date x y \<longleftrightarrow> ln_id y = ln_id x \<and> ln_tenantId y = ln_tenantId x \<and> ln_memberId y = ln_memberId x \<and>
     ln_outstandingBalance y = ln_outstandingBalance x \<and> (y = x \<or> ln_lastAccrualDate y = Some date)"

lemma run_row_refl [simp]: "run_row date x x"
  by (simp add: run_row_def)

lemma run_row_trans: "run_row date x y \<Longrightarrow> run_row date y z \<Longrightarrow> run_row date x z"
  by (auto simp: run_row_def)

lemma run_row_accrued: "run_row date x (accruedLoan E arrears date i x)"
  by (simp add: run_row_def accruedLoan_def split: prod.split)

context decimal_runtime
begin

lemma accrueInterest_rows:
  assumes run: "accrueInterestForLoan E s0 date s l = Inr s'" and same: "same_tenant s0" "l \<in> set (loans s0)"
    and kept: "map owner (accounts s) = map owner (accounts s0)"
  shows "list_all2 (run_row date) (loans s) (loans s') \<and>
    (\<not> silent s0 l \<longrightarrow> (\<forall>x \<in> set (loans s'). ln_id x = ln_id l \<longrightarrow> ln_lastAccrualDate x = Some date))"
proof (cases "silent s0 l")
  case True
  then have "s' = s" using run by (auto simp: accrueInterestForLoan_def silent_def split: option.splits)
  then show ?thesis using True by (simp add: list_all2_same)
next
  case False
  then obtain a where a: "fosaAccountOf s0 l = Some a" and go: "accrueOnAccount E s l (acc_id a) date = Inr s'"
    using run by (auto simp: accrueInterestForLoan_def silent_def)
  then have "a \<in> set (accounts s0)" "acc_memberId a = ln_memberId l" "acc_accountType a = FOSA"
    by (auto simp: fosaAccountOf_def dest!: findFirst_Some)
  then have "account_fits s0 (ln_tenantId l) (acc_id a)" using same by (auto simp: account_fits_def same_tenant_def)
  then have "account_fits s (ln_tenantId l) (acc_id a)" using account_fits_kept [OF kept] by simp
  note rows = accrueOnAccount_loans [OF go this]
  define f where "f = accruedLoan E (rollUp E s' (ln_tenantId l) (ln_id l) date) date (computeScheduleBasedDailyInterest E s l date)"
  have f: "run_row date x (f x)" "ln_lastAccrualDate (f x) = Some date" for x
    unfolding f_def by (rule run_row_accrued, simp add: accruedLoan_def split: prod.split)
  note rows = rows [folded f_def]
  show ?thesis using f by (auto simp: rows list_all2_map2 list_all2_same run_row_def)
qed

lemma accrueAll_rows:
  assumes "accrueAll E s0 date ls p 0 s = ((p', 0), s')" and "same_tenant s0" "set ls \<subseteq> set (loans s0)"
    and "map owner (accounts s) = map owner (accounts s0)"
  shows "list_all2 (run_row date) (loans s) (loans s') \<and> map owner (accounts s') = map owner (accounts s0) \<and>
    (\<forall>l \<in> set ls. \<not> silent s0 l \<longrightarrow> (\<forall>x \<in> set (loans s'). ln_id x = ln_id l \<longrightarrow> ln_lastAccrualDate x = Some date))"
  using assms(1,3,4)
proof (induction ls arbitrary: p s)
  case Nil
  then show ?case by (simp add: list_all2_same)
next
  case (Cons l ls)
  show ?case
  proof (cases "accrueInterestForLoan E s0 date s l")
    case (Inl e)
    then show ?thesis using Cons.prems(1) by (auto dest: accrueAll_skipped)
  next
    case (Inr s1)
    have l: "l \<in> set (loans s0)" using Cons.prems(2) by simp
    note one = accrueInterest_rows [OF Inr assms(2) l Cons.prems(3)]
    have own: "map owner (accounts s1) = map owner (accounts s0)"
      using accrueInterestForLoan_books [OF Inr assms(2) l Cons.prems(3)] Cons.prems(3) by (simp add: books_kept_def)
    have ih: "list_all2 (run_row date) (loans s1) (loans s') \<and> map owner (accounts s') = map owner (accounts s0) \<and>
      (\<forall>l \<in> set ls. \<not> silent s0 l \<longrightarrow> (\<forall>x \<in> set (loans s'). ln_id x = ln_id l \<longrightarrow> ln_lastAccrualDate x = Some date))"
      using Cons.IH [OF _ _ own] Cons.prems(1,2) Inr by simp
    have "list_all2 (run_row date) (loans s) (loans s')"
      using conjunct1 [OF one] conjunct1 [OF ih] by (rule list_all2_trans [rotated]) (erule (1) run_row_trans)
    moreover have "ln_lastAccrualDate y = Some date" if y: "y \<in> set (loans s')" "ln_id y = ln_id l" "\<not> silent s0 l" for y
    proof -
      from y(1) obtain i where i: "i < length (loans s')" "y = loans s' ! i" by (auto simp: in_set_conv_nth)
      have len: "i < length (loans s1)" using i(1) list_all2_lengthD [OF conjunct1 [OF ih]] by simp
      have row: "run_row date (loans s1 ! i) y" using list_all2_nthD [OF conjunct1 [OF ih] len] i(2) by simp
      then have "ln_lastAccrualDate (loans s1 ! i) = Some date" using one y(2,3) len by (simp add: run_row_def)
      then show ?thesis using row by (auto simp: run_row_def)
    qed
    ultimately show ?thesis using ih by auto
  qed
qed

end

section \<open>The share of a day\<close>

context decimal_runtime
begin

lemma day_share:
  assumes "money i" and "0 \<le> i" and "1 \<le> d"
  shows "0 \<le> dp4 E (ddiv E i d) \<and> \<bar>d * dp4 E (ddiv E i d) - i\<bar> \<le> d / 10000"
proof -
  let ?q = "ddiv E i d"
  have q0: "0 \<le> i / d" using assms(2,3) by simp
  have "\<bar>?q - i / d\<bar> \<le> (i / d) / 10 ^ 19" using sig_error [of "i / d"] q0 by (simp add: ddiv_def)
  then have "d * \<bar>?q - i / d\<bar> \<le> d * ((i / d) / 10 ^ 19)" using assms(3) by (intro mult_left_mono) simp_all
  also have "\<dots> = i / 10 ^ 19" using assms(3) by simp
  also have "\<dots> \<le> 1 / 20000" using money_bound [OF assms(1)] assms(2) by simp
  finally have e1: "d * \<bar>?q - i / d\<bar> \<le> 1 / 20000" .
  have "\<bar>dp4 E ?q - ?q\<bar> \<le> 1 / 20000" using half_up_error [of 4 ?q] by (simp add: dec_places_half_up)
  then have e2: "d * \<bar>dp4 E ?q - ?q\<bar> \<le> d / 20000" using assms(3) by (simp add: mult_left_mono)
  have "d * dp4 E ?q - i = d * (dp4 E ?q - ?q) + d * (?q - i / d)" using assms(3) by (simp add: field_simps)
  then have "\<bar>d * dp4 E ?q - i\<bar> \<le> \<bar>d * (dp4 E ?q - ?q)\<bar> + \<bar>d * (?q - i / d)\<bar>" by (simp only: abs_triangle_ineq)
  also have "\<dots> = d * \<bar>dp4 E ?q - ?q\<bar> + d * \<bar>?q - i / d\<bar>" using assms(3) by (simp add: abs_mult)
  also have "\<dots> \<le> d / 20000 + 1 / 20000" using e1 e2 by simp
  also have "\<dots> \<le> d / 10000" using assms(3) by simp
  finally show ?thesis using dp4_nonneg [OF ddiv_nonneg [OF assms(2)], of d] assms(3) by simp
qed

end

section \<open>Properties\<close>

text \<open>
  C38. Whatever the run of a tenant accrues, skips or rolls back, the database stays well formed and the
  FOSA and BOSA balances of every tenant keep agreeing with codes 2300 and 2400 of its general ledger, and
  every journal entry of an accrual has its transaction.
\<close>

theorem accrual_books:
  assumes "decimal_runtime E" and "runDailyAccrual E locked s t date = (counts, s')"
    and "wf_db s" "accrual_backed s t" "same_tenant s"
  shows "wf_db s' \<and> accrual_backed s' t \<and> (\<forall>tenant. gl_agrees s tenant \<longrightarrow> gl_agrees s' tenant)"
proof (cases locked)
  case True
  then have run: "accrueAll E s date (accruableLoans s t date) 0 0 s = (counts, s')"
    using assms(2) by (simp add: runDailyAccrual_def)
  have "books_kept t s s'"
    by (rule decimal_runtime.accrueAll_books [OF assms(1) run assms(5)]) (auto simp: accruableLoans_def)
  then show ?thesis using assms(3,4) by (simp add: books_kept_def)
qed (use assms in \<open>simp add: runDailyAccrual_def\<close>)

text \<open>
  The day's interest is never negative, and accrued over the days of the period it makes up the quoted
  interest of the instalment to within a hundredth of a cent for each day, whatever the days and the
  interest type.
\<close>

theorem daily_interest_covers_period:
  assumes "decimal_runtime E" and "currentInstalment s loan date = Some r"
    and "money (lr_interestDue r)" "0 \<le> lr_interestDue r"
  shows "0 \<le> computeScheduleBasedDailyInterest E s loan date \<and>
    \<bar>of_int (daysInPeriod s loan r) * computeScheduleBasedDailyInterest E s loan date - lr_interestDue r\<bar>
      \<le> of_int (daysInPeriod s loan r) / 10000"
proof -
  let ?d = "daysInPeriod s loan r"
  have "1 \<le> ?d" by (simp add: daysInPeriod_def Let_def)
  then have d: "1 \<le> (of_int ?d :: rat)" by simp
  have "computeScheduleBasedDailyInterest E s loan date = dp4 E (ddiv E (lr_interestDue r) (of_int ?d))"
    by (simp add: computeScheduleBasedDailyInterest_def assms(2))
  then show ?thesis using decimal_runtime.day_share [OF assms(1,3,4) d] by simp
qed

text \<open>
  A run is idempotent: when it has skipped nothing, a second run of the same day, whatever the lock
  says, changes nothing at all.
\<close>

theorem accrual_once:
  assumes "decimal_runtime E" and "runDailyAccrual E True s t date = ((processed, 0), s')" and "same_tenant s"
  shows "snd (runDailyAccrual E locked s' t date) = s'"
proof -
  have run: "accrueAll E s date (accruableLoans s t date) 0 0 s = ((processed, 0), s')"
    using assms(2) by (simp add: runDailyAccrual_def)
  note rows = decimal_runtime.accrueAll_rows [OF assms(1) run assms(3) _ refl]
  have sub: "set (accruableLoans s t date) \<subseteq> set (loans s)" by (auto simp: accruableLoans_def)
  note rows = rows [OF sub]
  have "silent s' l" if l: "l \<in> set (accruableLoans s' t date)" for l
  proof -
    from l have "l \<in> set (loans s')" and open_loan: "ln_lastAccrualDate l \<noteq> Some date" by (auto simp: accruableLoans_def)
    then obtain i where i: "i < length (loans s')" "l = loans s' ! i" by (auto simp: in_set_conv_nth)
    have len: "i < length (loans s)" using i(1) list_all2_lengthD [OF conjunct1 [OF rows]] by simp
    have "run_row date (loans s ! i) l" using list_all2_nthD [OF conjunct1 [OF rows] len] i(2) by simp
    then have "l = loans s ! i" using open_loan by (auto simp: run_row_def)
    then have "l \<in> set (accruableLoans s t date)" using l len by (auto simp: accruableLoans_def)
    then have "silent s l" using rows open_loan \<open>l \<in> set (loans s')\<close> by blast
    then show ?thesis using fosaAccountOf_kept [of s' s l l] rows by (simp add: silent_def)
  qed
  then show ?thesis by (simp add: runDailyAccrual_def accrueAll_silent)
qed

text \<open>The arrears that the schedule shows on a day.\<close>

definition overdueRows :: "db \<Rightarrow> loan \<Rightarrow> int \<Rightarrow> repayment list" where
  "overdueRows s l date = filter (\<lambda>r. lr_dueDate r < date) (unpaidInstalments s (ln_tenantId l) (ln_id l))"

definition unpaidOf :: "repayment \<Rightarrow> rat" where
  "unpaidOf r = max 0 (lr_principalDue r + lr_interestDue r + lr_penaltyDue r -
     (lr_principalPaid r + lr_interestPaid r + lr_penaltyPaid r))"

definition daysOverdue :: "db \<Rightarrow> loan \<Rightarrow> int \<Rightarrow> int" where
  "daysOverdue s l date = (if overdueRows s l date = [] then 0
     else (date - Min (lr_dueDate ` set (overdueRows s l date))) div MS_PER_DAY)"

definition rows_money :: "db \<Rightarrow> bool" where
  "rows_money s \<longleftrightarrow> (\<forall>r \<in> set (repayments s). money (lr_principalDue r) \<and> money (lr_interestDue r) \<and> money (lr_penaltyDue r) \<and>
     money (lr_principalPaid r) \<and> money (lr_interestPaid r) \<and> money (lr_penaltyPaid r))"

lemma hd_sort_key:
  fixes f :: "'r \<Rightarrow> 'k :: linorder"
  assumes "sort_key f xs = x # ys"
  shows "f x = Min (f ` set xs)"
proof (rule Min_eqI [symmetric])
  have "set (x # ys) = set xs" using assms by (metis set_sort)
  moreover have "sorted (map f (x # ys))" using assms sorted_sort_key by metis
  ultimately show "f x \<in> f ` set xs" "\<And>y. y \<in> f ` set xs \<Longrightarrow> f x \<le> y" by auto
qed simp

context decimal_runtime
begin

lemma unpaidPart_exact:
  assumes "money (lr_principalDue r)" "money (lr_interestDue r)" "money (lr_penaltyDue r)"
    "money (lr_principalPaid r)" "money (lr_interestPaid r)" "money (lr_penaltyPaid r)"
  shows "unpaidPart E r = unpaidOf r \<and> m4 (unpaidOf r) \<and> 0 \<le> unpaidOf r"
proof -
  note b = assms [THEN money_bound] and m = assms [THEN money_m4]
  have w: "wide (lr_principalDue r + lr_interestDue r)" "wide (lr_principalPaid r + lr_interestPaid r)"
    "wide (lr_principalDue r + lr_interestDue r + lr_penaltyDue r)"
    "wide (lr_principalPaid r + lr_interestPaid r + lr_penaltyPaid r)"
    "wide (lr_principalDue r + lr_interestDue r + lr_penaltyDue r - (lr_principalPaid r + lr_interestPaid r + lr_penaltyPaid r))"
    using b m by (auto simp: wide_def intro: places_add places_diff)
  then show ?thesis by (simp add: unpaidPart_def unpaidOf_def dplus_exact dminus_exact Let_def max.commute wide_def places_max)
qed

lemma rollUp_exact:
  assumes rows: "rows_money s" and total: "sum_list (map unpaidOf (overdueRows s l date)) < 10 ^ 16"
  shows "rollUp E s (ln_tenantId l) (ln_id l) date =
    (daysOverdue s l date, sum_list (map unpaidOf (overdueRows s l date)), classifyStaging (daysOverdue s l date))"
proof -
  let ?rows = "overdueRows s l date"
  have ex: "unpaidPart E r = unpaidOf r \<and> m4 (unpaidOf r) \<and> 0 \<le> unpaidOf r" if "r \<in> set ?rows" for r
    using rows that by (intro unpaidPart_exact) (auto simp: rows_money_def overdueRows_def unpaidInstalments_def)
  have perm: "sum_list (map unpaidOf (sort_key lr_dueDate ?rows)) = sum_list (map unpaidOf ?rows)"
    by (metis mset_map mset_sort sum_mset_sum_list)
  have "sum_list (map (unpaidPart E) (sort_key lr_dueDate ?rows)) = sum_list (map unpaidOf (sort_key lr_dueDate ?rows))"
    using ex by (intro arg_cong [where f = sum_list] map_cong) simp_all
  then have sums: "sum_list (map (unpaidPart E) (sort_key lr_dueDate ?rows)) = sum_list (map unpaidOf ?rows)" using perm by simp
  have "dsum E (unpaidPart E) (sort_key lr_dueDate ?rows) = sum_list (map unpaidOf ?rows)"
    unfolding sums [symmetric] by (rule dsum_exact) (use ex total sums in simp_all)
  moreover have "m4 (sum_list (map unpaidOf ?rows))" using ex by (intro places_sum_list) simp
  ultimately have amount: "dp4 E (dsum E (unpaidPart E) (sort_key lr_dueDate ?rows)) = sum_list (map unpaidOf ?rows)" by simp
  show ?thesis
  proof (cases "sort_key lr_dueDate ?rows")
    case Nil
    then have "?rows = []" by (metis length_0_conv length_sort)
    then show ?thesis by (simp add: rollUp_def daysOverdue_def flip: overdueRows_def)
  next
    case (Cons r rs)
    then have "?rows \<noteq> []" by auto
    then have "daysOverdue s l date = (date - lr_dueDate r) div MS_PER_DAY"
      using hd_sort_key [OF Cons] by (simp add: daysOverdue_def)
    then show ?thesis using amount Cons by (simp add: rollUp_def Let_def flip: overdueRows_def)
  qed
qed

end

text \<open>
  Arrears are those of the schedule: after an accrual the loan shows the days since the earliest unpaid
  instalment fell due and exactly what is unpaid of all instalments past due, penalties of the day included;
  its staging follows from the days (30 watchlist, 90 non-performing), and it is DEFAULTED from the
  ninetieth day on. No other loan changes.
\<close>

theorem arrears_of_schedule:
  assumes "decimal_runtime E" and "accrueInterestForLoan E s date s l = Inr s'" and "same_tenant s"
    and "l \<in> set (loans s)" "0 < ln_outstandingBalance l" "fosaAccountOf s l \<noteq> None"
    and "rows_money s'" "sum_list (map unpaidOf (overdueRows s' l date)) < 10 ^ 16"
  shows "loans s' = map (\<lambda>x. if ln_id x = ln_id l then x\<lparr>
      ln_arrearsDays := daysOverdue s' l date,
      ln_arrearsAmount := sum_list (map unpaidOf (overdueRows s' l date)),
      ln_staging := (if 90 \<le> daysOverdue s' l date then LoanStaging.NPL
        else if 30 \<le> daysOverdue s' l date then LoanStaging.WATCHLIST else LoanStaging.PERFORMING),
      ln_lastAccrualDate := Some date,
      ln_accruedInterest := ln_accruedInterest x + to_number E (computeScheduleBasedDailyInterest E s l date),
      ln_status := (if 90 \<le> daysOverdue s' l date then LoanStatus.DEFAULTED else ln_status x)\<rparr> else x) (loans s)"
proof -
  from assms(6) obtain a where a: "fosaAccountOf s l = Some a" by blast
  then have "a \<in> set (accounts s)" "acc_memberId a = ln_memberId l" "acc_accountType a = FOSA"
    by (auto simp: fosaAccountOf_def dest!: findFirst_Some)
  then have fits: "account_fits s (ln_tenantId l) (acc_id a)" using assms(3,4) by (auto simp: account_fits_def same_tenant_def)
  have go: "accrueOnAccount E s l (acc_id a) date = Inr s'" using assms(2,5) a by (simp add: accrueInterestForLoan_def)
  have m: "dp4 E (computeScheduleBasedDailyInterest E s l date) = computeScheduleBasedDailyInterest E s l date"
    by (simp add: decimal_runtime.dp4_exact [OF assms(1) decimal_runtime.daily_m4 [OF assms(1)]])
  have "(if classifyStaging d = LoanStaging.NPL then x else y) = (if 90 \<le> d then x else y)" for d and x y :: LoanStatus
    by (simp add: classifyStaging_def)
  then show ?thesis
    unfolding decimal_runtime.accrueOnAccount_loans [OF assms(1) go fits] decimal_runtime.rollUp_exact [OF assms(1,7,8)]
    by (simp add: accruedLoan_def m classifyStaging_def)
qed

section \<open>A day at the desk\<close>

text \<open>
  One instalment of 100 with 10 interest fell due ten days ago, the other, 800 with 31 interest over 31
  days, is current.
\<close>

definition accrual_desk :: db where
  "accrual_desk = bank\<lparr>loans := [desk_loan\<lparr>ln_arrearsAmount := 0, ln_accruedInterest := 0\<rparr>],
     repayments := [(desk_row ''1'' InstallmentStatus.PENDING 0)\<lparr>lr_principalDue := 100, lr_interestDue := 10,
         lr_dueDate := 10 * MS_PER_DAY\<rparr>,
       (desk_row ''22'' InstallmentStatus.PENDING 0)\<lparr>lr_principalDue := 800, lr_interestDue := 31,
         lr_dueDate := 41 * MS_PER_DAY\<rparr>]\<rparr>"

definition accrual_loan :: loan where
  "accrual_loan = hd (loans accrual_desk)"

definition after_accrual :: db where
  "after_accrual = snd (runDailyAccrual plain_env True accrual_desk ''t'' (20 * MS_PER_DAY))"

lemma accrual_run:
  "fst (runDailyAccrual plain_env True accrual_desk ''t'' (20 * MS_PER_DAY)) = (1, 0)"
  "map ln_arrearsAmount (loans after_accrual) = [1111 / 10]"
  "map acc_balance (accounts after_accrual) = [999, 500]"
  by code_simp+

lemma accrual_desk_facts:
  "wf_db accrual_desk" "same_tenant accrual_desk" "gl_agrees accrual_desk ''t''" "accrual_backed accrual_desk ''t''"
proof -
  show "accrual_backed accrual_desk ''t''" by (rule accrual_backedI) code_simp
qed code_simp+

theorem accrual_books_witness:
  "wf_db after_accrual \<and> gl_agrees after_accrual ''t''"
  using accrual_books [OF plain.decimal_runtime_axioms _ accrual_desk_facts(1,4,2), of True "20 * MS_PER_DAY"
    "fst (runDailyAccrual plain_env True accrual_desk ''t'' (20 * MS_PER_DAY))" after_accrual]
    accrual_desk_facts(3) by (simp add: after_accrual_def)

theorem daily_interest_covers_period_witness:
  "\<bar>31 * computeScheduleBasedDailyInterest plain_env accrual_desk accrual_loan (20 * MS_PER_DAY) - 31\<bar> \<le> 31 / 10000"
proof -
  let ?r = "(desk_row ''22'' InstallmentStatus.PENDING 0)\<lparr>lr_principalDue := 800, lr_interestDue := 31, lr_dueDate := 41 * MS_PER_DAY\<rparr>"
  have cur: "currentInstalment accrual_desk accrual_loan (20 * MS_PER_DAY) = Some ?r" by code_simp
  have d: "daysInPeriod accrual_desk accrual_loan ?r = 31" "lr_interestDue ?r = 31" "money (lr_interestDue ?r)" by code_simp+
  show ?thesis
    using daily_interest_covers_period [OF plain.decimal_runtime_axioms cur d(3)] by (simp add: d(1,2))
qed

theorem accrual_once_witness:
  "snd (runDailyAccrual plain_env False after_accrual ''t'' (20 * MS_PER_DAY)) = after_accrual \<and>
   snd (runDailyAccrual plain_env True after_accrual ''t'' (20 * MS_PER_DAY)) = after_accrual"
proof -
  have run: "runDailyAccrual plain_env True accrual_desk ''t'' (20 * MS_PER_DAY) = ((1, 0), after_accrual)"
    using accrual_run(1) by (simp add: after_accrual_def prod_eq_iff)
  show ?thesis using accrual_once [OF plain.decimal_runtime_axioms run accrual_desk_facts(2)] by blast
qed

lemma accrual_step: "accrueInterestForLoan plain_env accrual_desk (20 * MS_PER_DAY) accrual_desk accrual_loan = Inr after_accrual"
proof -
  have "accruableLoans accrual_desk ''t'' (20 * MS_PER_DAY) = [accrual_loan]" by code_simp
  then show ?thesis using accrual_run(1)
    by (auto simp: after_accrual_def runDailyAccrual_def split: sum.splits)
qed

theorem arrears_of_schedule_witness:
  "map ln_arrearsAmount (loans after_accrual) = [sum_list (map unpaidOf (overdueRows after_accrual accrual_loan (20 * MS_PER_DAY)))] \<and>
   daysOverdue after_accrual accrual_loan (20 * MS_PER_DAY) = 10"
proof -
  have "rows_money after_accrual" "sum_list (map unpaidOf (overdueRows after_accrual accrual_loan (20 * MS_PER_DAY))) < 10 ^ 16"
    "daysOverdue after_accrual accrual_loan (20 * MS_PER_DAY) = 10" by code_simp+
  moreover have "accrual_loan \<in> set (loans accrual_desk)" "0 < ln_outstandingBalance accrual_loan"
    "fosaAccountOf accrual_desk accrual_loan \<noteq> None" "loans accrual_desk = [accrual_loan]" by code_simp+
  ultimately show ?thesis
    using arrears_of_schedule [OF plain.decimal_runtime_axioms accrual_step accrual_desk_facts(2)] by simp
qed

text \<open>
  The arrears that the accrual writes contain principal and interest, and the repayment service takes all of
  them for penalties; the interest that was debited from the account is collected again. Here the member is
  debited 1 of interest and pays 112.1: the penalty income grows by 112.2 although the only penalty ever
  charged is 1.1, the interest income by 2 although one day of interest is 1, and the outstanding principal
  is still 900 although the instalment of 100 has been paid.
\<close>

definition loan_view :: "db \<Rightarrow> rat \<times> rat \<times> rat list \<times> rat list" where
  "loan_view s = (gl_credit s ''t'' GL_PENALTY_INCOME, gl_credit s ''t'' GL_INTEREST_INCOME,
     map ln_outstandingBalance (loans s), map ln_arrearsAmount (loans s))"

theorem arrears_collected_as_penalty:
  "loan_view (snd (processRepayment plain_env 7 after_accrual (desk_input\<lparr>ri_amount := Some (1121 / 10)\<rparr>))) =
     (1122 / 10, 2, [900], [0])"
  by code_simp

text \<open>The debit of a day looks at no floor: locked funds and minimum balance do not stop it.\<close>

theorem accrual_ignores_floor:
  "map acc_balance (accounts (snd (runDailyAccrual plain_env True
     (accrual_desk\<lparr>accounts := [(bank_account ''F'' FOSA 0), bank_account ''B'' BOSA 500]\<rparr>) ''t'' (20 * MS_PER_DAY)))) = [-1, 500]"
  by code_simp

text \<open>The rounding of a day is lost: 100 over 31 days accrues 99.9998.\<close>

lemma month_of_interest: "31 * dp4 plain_env (ddiv plain_env 100 31) = 999998 / 10000"
  by code_simp

end
