(* ===== verification/Mpesa_Messages.thy ===== *)
theory Mpesa_Messages
  imports Loan_Schedule
begin

text \<open>
  Reading the messages of the payment provider: \<open>src/src/modules/mpesa/utils/mpesa.utils.ts\<close>,
  \<open>mpesa/dto/mpesa-callback.dto.ts\<close>, the phone normalizer
  \<open>data-import/utils/phone-normalizer.ts\<close> and the comparison of an answer with the payment it
  belongs to (\<open>findB2cCallbackMismatches\<close> of the callback processor,
  \<open>findMwaloniResponseMismatches\<close> of the service).

  Numbers in a text are read as exact decimals, with a sign, digits and a point: the exponent form
  of JavaScript does not occur after the code has stripped other characters. A timestamp that is no
  date is \<open>None\<close>; a day that the month does not have runs over into the next, as in the engine.

  Theorems: a reference that the service builds is routed to what it was built for; a normalized
  phone number is a Kenyan number in international form, and normalizing it again changes nothing.
\<close>

section \<open>Numbers and digits\<close>

definition isDigit :: "char \<Rightarrow> bool" where
  "isDigit c \<longleftrightarrow> c \<in> set ''0123456789''"

definition digitValue :: "char \<Rightarrow> nat" where
  "digitValue c = length (takeWhile (\<lambda>d. d \<noteq> c) ''0123456789'')"

definition natOf :: "string \<Rightarrow> nat" where
  "natOf x = foldl (\<lambda>n c. 10 * n + digitValue c) 0 x"

definition startsWith :: "string \<Rightarrow> string \<Rightarrow> bool" where
  "startsWith x p \<longleftrightarrow> take (length p) x = p"

text \<open>\<open>\d+(\.\d*)?\<close> or \<open>\.\d+\<close>, with an optional minus sign.\<close>

definition unsignedDecimal :: "string \<Rightarrow> rat option" where
  "unsignedDecimal x =
     (let whole = takeWhile isDigit x; rest = dropWhile isDigit x in
      case rest of
        [] \<Rightarrow> if whole = [] then None else Some (of_nat (natOf whole))
      | c # decimals \<Rightarrow>
          if c = CHR ''.'' \<and> (\<forall>d \<in> set decimals. isDigit d) \<and> \<not> (whole = [] \<and> decimals = [])
          then Some (of_nat (natOf whole) + of_nat (natOf decimals) / 10 ^ length decimals) else None)"

definition decimalOf :: "string \<Rightarrow> rat option" where
  "decimalOf x = (case x of [] \<Rightarrow> None
     | c # rest \<Rightarrow> if c = CHR ''-'' then map_option uminus (unsignedDecimal rest) else unsignedDecimal x)"

text \<open>The text without everything but digits, points and minus signs.\<close>

definition numericText :: "string \<Rightarrow> string" where
  "numericText x = trim (filter (\<lambda>c. isDigit c \<or> c = CHR ''.'' \<or> c = CHR ''-'') x)"

lemma decimal_examples:
  "decimalOf ''1500.50'' = Some (3001 / 2)" "decimalOf ''-.5'' = Some (- 1 / 2)" "decimalOf ''7.'' = Some 7"
  "decimalOf ''.'' = None" "decimalOf ''1-2'' = None"
  by (simp_all add: decimalOf_def unsignedDecimal_def isDigit_def natOf_def digitValue_def)

section \<open>References\<close>

datatype ParsedRefType = LOAN_REPAYMENT | DEPOSIT

record parsed_reference =
  pr_type :: ParsedRefType
  pr_target :: string
  pr_isMemberIdDeposit :: bool

definition parseReference :: "string \<Rightarrow> parsed_reference" where
  "parseReference accountReference =
     (if startsWith accountReference ''LOAN-'' then
        \<lparr>pr_type = ParsedRefType.LOAN_REPAYMENT, pr_target = trim (drop (length ''LOAN-'') accountReference),
         pr_isMemberIdDeposit = False\<rparr>
      else if startsWith accountReference ''DEPOSIT-'' then
        \<lparr>pr_type = ParsedRefType.DEPOSIT, pr_target = trim (drop (length ''DEPOSIT-'') accountReference),
         pr_isMemberIdDeposit = True\<rparr>
      else \<lparr>pr_type = ParsedRefType.DEPOSIT, pr_target = trim accountReference,
         pr_isMemberIdDeposit = False\<rparr>)"

datatype DepositPurpose = SAVINGS | LOAN_REPAYMENT

definition buildAccountRef :: "DepositPurpose \<Rightarrow> string \<Rightarrow> string" where
  "buildAccountRef purpose accountRef =
     (if purpose = DepositPurpose.LOAN_REPAYMENT then take 30 (''LOAN-'' @ accountRef) else take 30 accountRef)"

definition stkReference :: "string \<Rightarrow> string" where "stkReference k = ''STK-'' @ k"
definition b2cReference :: "string \<Rightarrow> string" where "b2cReference k = ''B2C-'' @ k"
definition c2bReference :: "string \<Rightarrow> string" where "c2bReference k = ''C2B-'' @ k"

text \<open>An optional text as a condition: the empty text counts as none.\<close>

definition nonEmpty :: "string option \<Rightarrow> string option" where
  "nonEmpty x = (case x of Some y \<Rightarrow> if y = '''' then None else Some y | None \<Rightarrow> None)"

lemma nonEmpty_Some [simp]: "nonEmpty x = Some y \<longleftrightarrow> x = Some y \<and> y \<noteq> ''''"
  by (auto simp: nonEmpty_def split: option.splits)

section \<open>Timestamps\<close>

text \<open>\<open>YYYYMMDDHHmmss\<close> in East African time, three hours ahead of UTC.\<close>

definition parseDarajaTimestamp :: "int \<Rightarrow> string \<Rightarrow> int option" where
  "parseDarajaTimestamp now ts =
     (if length ts < 14 then Some now
      else
        (let part = (\<lambda>i k. int (natOf (take k (drop i ts))));
             y = part 0 4; m = part 4 2; d = part 6 2; h = part 8 2; mi = part 10 2; sec = part 12 2
         in if (\<forall>c \<in> set (take 14 ts). isDigit c) \<and> 1 \<le> m \<and> m \<le> 12 \<and> 1 \<le> d \<and> d \<le> 31 \<and>
              h < 24 \<and> mi < 60 \<and> sec < 60
            then Some ((daysFromCivil y m 1 + d - 1) * MS_PER_DAY + ((h * 60 + mi) * 60 + sec) * 1000 - 3 * 3600000)
            else None))"

lemma timestamp_examples:
  "parseDarajaTimestamp 5 ''20260720143015'' =
     Some (daysFromCivil 2026 7 20 * MS_PER_DAY + 11 * 3600000 + 30 * 60000 + 15000)"
  "parseDarajaTimestamp 5 ''2026'' = Some 5" "parseDarajaTimestamp 5 ''20261330143015'' = None"
  "parseDarajaTimestamp 5 ''20260230143015'' = parseDarajaTimestamp 5 ''20260302143015''"
  by code_simp+

section \<open>Metadata\<close>

text \<open>\<open>Object.fromEntries\<close>: of two items with one name the later one counts.\<close>

definition entryOf :: "string \<Rightarrow> (string \<times> string) list \<Rightarrow> string option" where
  "entryOf name items = map_option snd (findFirst (\<lambda>(n, _). n = name) (rev items))"

definition parseStkMeta :: "(string \<times> string option) list option \<Rightarrow> (string \<times> string) list" where
  "parseStkMeta items = (case items of None \<Rightarrow> []
     | Some is \<Rightarrow> List.map_filter (\<lambda>(n, v). map_option (Pair n) v) is)"

definition parseB2cResultMeta :: "(string \<times> string) list option \<Rightarrow> (string \<times> string) list" where
  "parseB2cResultMeta params = (case params of None \<Rightarrow> [] | Some ps \<Rightarrow> ps)"

section \<open>Phone numbers\<close>

record normalize_result =
  nr_normalized :: "string option"
  nr_original :: "string option"
  nr_errorCode :: "string option"

abbreviation nr_isValid :: "normalize_result \<Rightarrow> bool" where
  "nr_isValid r \<equiv> nr_errorCode r = None"

definition isValidKenyanLocal9 :: "string \<Rightarrow> bool" where
  "isValidKenyanLocal9 local \<longleftrightarrow> length local = 9 \<and> hd local \<in> {CHR ''7'', CHR ''1''}"

definition phoneOk :: "string \<Rightarrow> string \<Rightarrow> normalize_result" where
  "phoneOk original p = \<lparr>nr_normalized = Some p, nr_original = Some original, nr_errorCode = None\<rparr>"

definition phoneBad :: "string option \<Rightarrow> string \<Rightarrow> normalize_result" where
  "phoneBad original code = \<lparr>nr_normalized = None, nr_original = original, nr_errorCode = Some code\<rparr>"

definition phoneDigits :: "string \<Rightarrow> string" where
  "phoneDigits original =
     (let digits = filter (\<lambda>c. isDigit c \<or> c = CHR ''+'') original in
      if startsWith digits ''+'' then drop 1 digits else digits)"

definition normalizePhone :: "string option \<Rightarrow> normalize_result" where
  "normalizePhone raw =
     (case map_option trim raw of
        None \<Rightarrow> phoneBad None ''PHONE_EMPTY''
      | Some original \<Rightarrow>
        if original = '''' \<or> original = ''0'' then phoneBad (Some original) ''PHONE_EMPTY''
        else
          (let digits = phoneDigits original in
           if startsWith digits ''254'' \<and> length digits = 12 then
             (if isValidKenyanLocal9 (drop 3 digits) then phoneOk original digits
              else phoneBad (Some original) ''PHONE_INVALID_FORMAT'')
           else if startsWith digits ''0'' \<and> length digits = 10 then
             (if isValidKenyanLocal9 (drop 1 digits) then phoneOk original (''254'' @ drop 1 digits)
              else phoneBad (Some original) ''PHONE_INVALID_FORMAT'')
           else if length digits = 9 then
             (if startsWith digits ''7'' then phoneOk original (''254'' @ digits)
              else phoneBad (Some original) ''PHONE_INVALID_FORMAT'')
           else phoneBad (Some original) ''PHONE_INVALID_FORMAT''))"

text \<open>\<open>/^254[71]\d{8}$/\<close>\<close>

definition isValidE164Phone :: "string \<Rightarrow> bool" where
  "isValidE164Phone phone \<longleftrightarrow> length phone = 12 \<and> startsWith phone ''254'' \<and>
     phone ! 3 \<in> {CHR ''7'', CHR ''1''} \<and> (\<forall>c \<in> set (drop 4 phone). isDigit c)"

text \<open>The leftmost match of \<open>/(?:\+?254|0)?[17]\d{8}/\<close>: the optional prefix is tried first.\<close>

definition localNumber :: "string \<Rightarrow> string option" where
  "localNumber x =
     (if length x \<ge> 9 \<and> hd x \<in> {CHR ''1'', CHR ''7''} \<and> (\<forall>c \<in> set (take 8 (tl x)). isDigit c)
      then Some (take 9 x) else None)"

definition phoneAt :: "string \<Rightarrow> string option" where
  "phoneAt x =
     (case findFirst (startsWith x) [''+254'', ''254'', ''0''] of
        Some p \<Rightarrow> map_option ((@) p) (localNumber (drop (length p) x))
      | None \<Rightarrow> localNumber x)"

fun firstPhone :: "string \<Rightarrow> string option" where
  "firstPhone [] = None"
| "firstPhone (c # cs) = (case phoneAt (c # cs) of Some p \<Rightarrow> Some p | None \<Rightarrow> firstPhone cs)"

definition extractPhoneFromProviderText :: "string \<Rightarrow> string option" where
  "extractPhoneFromProviderText value =
     (case firstPhone value of None \<Rightarrow> None | Some p \<Rightarrow> nr_normalized (normalizePhone (Some p)))"

lemma phone_examples:
  "nr_normalized (normalizePhone (Some '' 0712 345678 '')) = Some ''254712345678''"
  "nr_normalized (normalizePhone (Some ''+254 112345678'')) = Some ''254112345678''"
  "nr_normalized (normalizePhone (Some ''115483804'')) = None"
  "extractPhoneFromProviderText ''254722000000 - John Doe'' = Some ''254722000000''"
  "extractPhoneFromProviderText ''Jane 0722000000'' = Some ''254722000000''"
  "extractPhoneFromProviderText ''no number'' = None"
  by code_simp+

section \<open>Comparing an answer with its payment\<close>

definition lowerChar :: "char \<Rightarrow> char" where
  "lowerChar c = (if 65 \<le> (of_char c :: nat) \<and> (of_char c :: nat) \<le> 90 then char_of ((of_char c :: nat) + 32) else c)"

definition toLowerCase :: "string \<Rightarrow> string" where "toLowerCase = map lowerChar"

text \<open>A value \<open>null\<close> is the same as no value; a member of the object itself goes before nested ones.\<close>

fun findFieldValue :: "string \<Rightarrow> json \<Rightarrow> json option"
  and findInItems :: "string \<Rightarrow> json list \<Rightarrow> json option"
  and findInMembers :: "string \<Rightarrow> (string \<times> json) list \<Rightarrow> json option" where
  "findFieldValue targetKey (JArray items) = findInItems targetKey items"
| "findFieldValue targetKey (JObject entries) =
     (case findFirst (\<lambda>(k, _). toLowerCase k = targetKey) entries of
        Some (_, v) \<Rightarrow> if v = JNull then None else Some v
      | None \<Rightarrow> findInMembers targetKey entries)"
| "findFieldValue targetKey _ = None"
| "findInItems targetKey [] = None"
| "findInItems targetKey (v # vs) =
     (case findFieldValue targetKey v of Some x \<Rightarrow> Some x | None \<Rightarrow> findInItems targetKey vs)"
| "findInMembers targetKey [] = None"
| "findInMembers targetKey ((k, v) # ms) =
     (case findFieldValue targetKey v of Some x \<Rightarrow> Some x | None \<Rightarrow> findInMembers targetKey ms)"

definition toFiniteNumber :: "json \<Rightarrow> rat option" where
  "toFiniteNumber v = (case v of JNumber x \<Rightarrow> Some x
     | JString x \<Rightarrow> if numericText x = '''' then None else decimalOf (numericText x)
     | _ \<Rightarrow> None)"

fun extractNumericField :: "json \<Rightarrow> string list \<Rightarrow> rat option" where
  "extractNumericField v [] = None"
| "extractNumericField v (name # names) =
     (case findFieldValue (toLowerCase name) v of
        None \<Rightarrow> extractNumericField v names
      | Some found \<Rightarrow> (case toFiniteNumber found of Some x \<Rightarrow> Some x | None \<Rightarrow> extractNumericField v names))"

definition wantedString :: "string list \<Rightarrow> string \<times> json \<Rightarrow> bool" where
  "wantedString wanted m \<longleftrightarrow> toLowerCase (fst m) \<in> set wanted \<and>
     (case snd m of JString x \<Rightarrow> trim x \<noteq> '''' | _ \<Rightarrow> False)"

definition trimmedString :: "json \<Rightarrow> string option" where
  "trimmedString v = (case v of JString x \<Rightarrow> Some (trim x) | _ \<Rightarrow> None)"

fun extractStringField :: "string list \<Rightarrow> json \<Rightarrow> string option"
  and stringInItems :: "string list \<Rightarrow> json list \<Rightarrow> string option"
  and stringInMembers :: "string list \<Rightarrow> (string \<times> json) list \<Rightarrow> string option" where
  "extractStringField wanted (JArray items) = stringInItems wanted items"
| "extractStringField wanted (JObject entries) =
     (case findFirst (wantedString wanted) entries of
        Some (_, v) \<Rightarrow> trimmedString v
      | None \<Rightarrow> stringInMembers wanted entries)"
| "extractStringField wanted _ = None"
| "stringInItems wanted [] = None"
| "stringInItems wanted (v # vs) =
     (case extractStringField wanted v of Some x \<Rightarrow> Some x | None \<Rightarrow> stringInItems wanted vs)"
| "stringInMembers wanted [] = None"
| "stringInMembers wanted ((k, v) # ms) =
     (case extractStringField wanted v of Some x \<Rightarrow> Some x | None \<Rightarrow> stringInMembers wanted ms)"

text \<open>An answer of the provider: its status, and its other members.\<close>

record mwaloni_response =
  mr_status :: "string option"
  mr_members :: "(string \<times> json) list"

definition providerStatus :: "mwaloni_response \<Rightarrow> string" where
  "providerStatus r = trim (case mr_status r of None \<Rightarrow> '''' | Some x \<Rightarrow> x)"

definition isMwaloniSuccess :: "string \<Rightarrow> bool" where
  "isMwaloniSuccess status \<longleftrightarrow> status = ''00''"

definition isMwaloniPending :: "string \<Rightarrow> bool" where
  "isMwaloniPending status \<longleftrightarrow> toLowerCase status \<in>
     set [''02'', ''03'', ''pending'', ''processing'', ''queued'', ''in_progress'']"

definition differs :: "'a option \<Rightarrow> 'a option \<Rightarrow> bool" where
  "differs x y \<longleftrightarrow> (case (x, y) of (Some a, Some b) \<Rightarrow> a \<noteq> b | _ \<Rightarrow> False)"

definition findMwaloniResponseMismatches :: "env \<Rightarrow> mpesa_transaction \<Rightarrow> mwaloni_response \<Rightarrow> string list" where
  "findMwaloniResponseMismatches E m r =
     (let body = JObject (mr_members r);
          providerOrder = extractStringField [''ordernumber'', ''order_number'', ''conversationid''] body;
          providerAmount = extractNumericField body
            [''amount'', ''transactionAmount'', ''TransactionAmount'', ''transAmount'', ''TransAmount''];
          providerPhone = extractStringField [''phone'', ''phonenumber'', ''account_number'', ''accountnumber'',
            ''msisdn'', ''receiverphone''] body;
          phoneOf = (\<lambda>p. nr_normalized (normalizePhone (Some p)))
      in (if differs providerOrder (mt_conversationId m) then [''ORDER_NUMBER_MISMATCH''] else []) @
         (case providerAmount of None \<Rightarrow> []
          | Some x \<Rightarrow> if dp4 E x = dp4 E (mt_amount m) then [] else [''AMOUNT_MISMATCH'']) @
         (case providerPhone of None \<Rightarrow> []
          | Some p \<Rightarrow> if differs (phoneOf p) (phoneOf (mt_phoneNumber m)) then [''PHONE_MISMATCH''] else []))"

definition findB2cCallbackMismatches ::
  "env \<Rightarrow> mpesa_transaction \<Rightarrow> (string \<times> string) list \<Rightarrow> string list res" where
  "findB2cCallbackMismatches E m metadata =
     rbind (case entryOf ''TransactionAmount'' metadata of
         None \<Rightarrow> Inr []
       | Some x \<Rightarrow>
           if numericText x = '''' then Inr [''AMOUNT_MISMATCH'']
           else rbind (required (InternalError ''Invalid decimal'') (decimalOf (numericText x))) (\<lambda>a.
             Inr (if dp4 E a = dp4 E (mt_amount m) then [] else [''AMOUNT_MISMATCH'']))) (\<lambda>amounts.
     let receiver = (case entryOf ''ReceiverPartyPublicName'' metadata of
           None \<Rightarrow> None | Some name \<Rightarrow> extractPhoneFromProviderText name);
         expected = nr_normalized (normalizePhone (Some (mt_phoneNumber m))) in
     Inr (amounts @ (if differs receiver expected then [''PHONE_MISMATCH''] else [])))"

section \<open>Properties\<close>

lemma startsWith_append [simp]: "startsWith (p @ x) p"
  by (simp add: startsWith_def)

lemma startsWith_simps [simp]:
  "startsWith x []" "startsWith (c # x) (d # p) \<longleftrightarrow> c = d \<and> startsWith x p" "\<not> startsWith [] (d # p)"
  by (auto simp: startsWith_def)

lemma startsWith_iff: "startsWith x p \<longleftrightarrow> (\<exists>y. x = p @ y)"
  unfolding startsWith_def by (metis append_eq_conv_conj)

text \<open>
  What the service builds, the callback reads back: a loan number of at most 25 characters
  without outer blanks comes back as the target of a loan repayment, and an account number of at
  most 30 that has neither of the two prefixes as the target of a deposit to that account.
\<close>

theorem reference_roundtrip:
  assumes "trim ref = ref"
    and "purpose = DepositPurpose.LOAN_REPAYMENT \<Longrightarrow> length ref \<le> 25"
    and "purpose = SAVINGS \<Longrightarrow> length ref \<le> 30 \<and> \<not> startsWith ref ''LOAN-'' \<and> \<not> startsWith ref ''DEPOSIT-''"
  shows "parseReference (buildAccountRef purpose ref) =
    \<lparr>pr_type = (if purpose = SAVINGS then ParsedRefType.DEPOSIT else ParsedRefType.LOAN_REPAYMENT),
     pr_target = ref, pr_isMemberIdDeposit = False\<rparr>"
proof (cases purpose)
  case SAVINGS
  with assms show ?thesis by (simp add: buildAccountRef_def parseReference_def)
next
  case LOAN_REPAYMENT
  with assms(2) have "buildAccountRef purpose ref = ''LOAN-'' @ ref" by (simp add: buildAccountRef_def)
  moreover have "startsWith (''LOAN-'' @ ref) ''LOAN-''" by (rule startsWith_append)
  ultimately show ?thesis using LOAN_REPAYMENT assms(1) by (simp add: parseReference_def)
qed

theorem reference_roundtrip_witness:
  "parseReference (buildAccountRef DepositPurpose.LOAN_REPAYMENT ''LN-2026-000001'') =
     \<lparr>pr_type = ParsedRefType.LOAN_REPAYMENT, pr_target = ''LN-2026-000001'', pr_isMemberIdDeposit = False\<rparr>"
proof -
  have "trim ''LN-2026-000001'' = ''LN-2026-000001''" by code_simp
  from reference_roundtrip [OF this, of DepositPurpose.LOAN_REPAYMENT] show ?thesis by simp
qed

lemma trim_digits:
  assumes "\<forall>c \<in> set x. isDigit c"
  shows "trim x = x"
proof -
  have no: "\<not> jsSpace c" if "isDigit c" for c using that by (auto simp: isDigit_def jsSpace_def)
  have "dropWhile jsSpace y = y" if "\<forall>c \<in> set y. isDigit c" for y
    using that no by (cases y) auto
  with assms show ?thesis by (simp add: trim_def)
qed

lemma phoneDigits_digits:
  assumes "\<forall>c \<in> set x. isDigit c"
  shows "phoneDigits x = x"
proof -
  have f: "filter (\<lambda>c. isDigit c \<or> c = CHR ''+'') x = x" using assms by (simp add: filter_id_conv)
  have "\<not> isDigit (CHR ''+'')" by (simp add: isDigit_def)
  then have "\<not> startsWith x ''+''" using assms by (cases x) auto
  with f show ?thesis by (simp add: phoneDigits_def)
qed

lemma normalizePhone_E164:
  assumes "isValidE164Phone p"
  shows "nr_normalized (normalizePhone (Some p)) = Some p"
proof -
  obtain r where r: "p = ''254'' @ r" using assms by (auto simp: isValidE164Phone_def startsWith_iff)
  with assms obtain c q where q: "r = c # q" "c = CHR ''7'' \<or> c = CHR ''1''" "length q = 8" "\<forall>x \<in> set q. isDigit x"
    by (cases r) (auto simp: isValidE164Phone_def)
  have d: "\<forall>x \<in> set p. isDigit x" using r q by (auto simp: isDigit_def)
  have "trim p = p" "phoneDigits p = p" by (rule trim_digits [OF d], rule phoneDigits_digits [OF d])
  moreover have "startsWith p ''254''" "length p = 12" "drop 3 p = r" "p \<noteq> ''0''" "p \<noteq> ''''" using r q by simp_all
  moreover have "isValidKenyanLocal9 r" using q by (auto simp: isValidKenyanLocal9_def)
  ultimately show ?thesis by (simp add: normalizePhone_def phoneOk_def Let_def)
qed

lemma phoneDigits_set:
  assumes "CHR ''+'' \<notin> set (phoneDigits x)" and "c \<in> set (phoneDigits x)"
  shows "isDigit c"
proof -
  have "set (phoneDigits x) \<subseteq> set (filter (\<lambda>c. isDigit c \<or> c = CHR ''+'') x)"
    by (auto simp only: phoneDigits_def Let_def dest: in_set_dropD split: if_splits)
  then have "isDigit c \<or> c = CHR ''+''" using assms(2) by auto
  with assms show ?thesis by blast
qed

lemma E164_of_local:
  assumes "isValidKenyanLocal9 l" and "\<forall>c \<in> set l. isDigit c"
  shows "isValidE164Phone (''254'' @ l)"
proof (cases l)
  case Nil
  with assms show ?thesis by (simp add: isValidKenyanLocal9_def)
next
  case (Cons c q)
  with assms show ?thesis by (auto simp: isValidKenyanLocal9_def isValidE164Phone_def)
qed

lemma normalizePhone_cases:
  assumes "nr_normalized (normalizePhone (Some raw)) = Some p"
  obtains l where "p = ''254'' @ l" "isValidKenyanLocal9 l" "set l \<subseteq> set (phoneDigits (trim raw))"
    "nr_isValid (normalizePhone (Some raw))"
proof -
  define d where "d = phoneDigits (trim raw)"
  note n = normalizePhone_def [of "Some raw", unfolded option.map option.case d_def [symmetric] Let_def]
  consider (full) "p = d" "startsWith d ''254''" "isValidKenyanLocal9 (drop 3 d)" "nr_isValid (normalizePhone (Some raw))"
    | (zero) "p = ''254'' @ drop 1 d" "isValidKenyanLocal9 (drop 1 d)" "nr_isValid (normalizePhone (Some raw))"
    | (short) "p = ''254'' @ d" "length d = 9" "startsWith d ''7''" "nr_isValid (normalizePhone (Some raw))"
    using assms by (simp only: n phoneOk_def phoneBad_def if_distrib [of nr_normalized] if_distrib [of nr_errorCode]
        normalize_result.simps split: if_splits) simp_all
  then show thesis
  proof cases
    case full
    then have "p = ''254'' @ drop 3 d" by (auto simp: startsWith_iff)
    with full show thesis by (intro that [of "drop 3 d"]) (auto simp: d_def dest: in_set_dropD)
  next
    case zero
    then show thesis by (intro that [of "drop 1 d"]) (auto simp: d_def dest: in_set_dropD)
  next
    case short
    then have "isValidKenyanLocal9 d" by (cases d) (auto simp: isValidKenyanLocal9_def)
    with short show thesis by (intro that [of d]) (auto simp: d_def)
  qed
qed

text \<open>
  C40. A number that normalizes, from a text with a plus sign at most in front, is a Kenyan number in
  the international form, and normalizing the result again gives the same number.
\<close>

theorem normalizePhone_sound:
  assumes "nr_normalized (normalizePhone (Some raw)) = Some p" and "CHR ''+'' \<notin> set (phoneDigits (trim raw))"
  shows "isValidE164Phone p \<and> nr_normalized (normalizePhone (Some p)) = Some p \<and> nr_isValid (normalizePhone (Some raw))"
proof -
  from assms(1) obtain l where l: "p = ''254'' @ l" "isValidKenyanLocal9 l" "set l \<subseteq> set (phoneDigits (trim raw))"
    "nr_isValid (normalizePhone (Some raw))" by (rule normalizePhone_cases)
  have "\<forall>c \<in> set l. isDigit c" using phoneDigits_set [OF assms(2)] l(3) by blast
  with l show ?thesis using E164_of_local normalizePhone_E164 by blast
qed

theorem normalizePhone_sound_witness:
  "isValidE164Phone ''254712345678'' \<and> nr_normalized (normalizePhone (Some ''254712345678'')) = Some ''254712345678''"
proof -
  have "nr_normalized (normalizePhone (Some ''+254 712 345 678'')) = Some ''254712345678''"
    "CHR ''+'' \<notin> set (phoneDigits (trim ''+254 712 345 678''))" by code_simp+
  from normalizePhone_sound [OF this] show ?thesis by blast
qed

text \<open>
  The premise on the plus sign is needed: only a leading one is taken off, and the check of the
  local part looks at its length and its first character.
\<close>

theorem inner_plus_is_accepted:
  "nr_normalized (normalizePhone (Some ''2547+1234567'')) = Some ''2547+1234567'' \<and>
   \<not> isValidE164Phone ''2547+1234567''"
  by code_simp

end
