(* ===== verification/Mpesa_Payouts.thy ===== *)
theory Mpesa_Payouts
  imports Mpesa_Messages Ledger_Laws Loan_Closing
begin

text \<open>
  The way of a withdrawal to mobile money: the debit and the payout intent
  (\<open>withdrawMpesa\<close> of \<open>src/src/modules/members/member-portal.service.ts\<close>), the outbox that puts intents
  into the queue (\<open>mpesa/mpesa-payout-outbox.service.ts\<close>), the worker of the queue
  (\<open>mpesa/processors/mpesa-disbursement.processor.ts\<close>), and the dispatch to the provider with the
  treatment of its answers (\<open>executeB2cDisbursement\<close> and what it calls in
  \<open>mpesa/mpesa.service.ts\<close>).

  What the provider answers is the record \<open>provider\<close>, an argument of every operation that asks it; no
  answer (an exception of the HTTP client) is \<open>None\<close>. An order that is sent is noted in
  \<open>providerOrders\<close>. An operation with several transactions returns its result or exception together with
  what has been committed. Writing an audit row outside a transaction is taken to succeed, free texts
  of results are left out, and metrics and log lines are not modelled.
\<close>

section \<open>Statuses\<close>

definition LOCAL_CREATED :: string where "LOCAL_CREATED = ''LOCAL_CREATED''"
definition SEND_ATTEMPTED :: string where "SEND_ATTEMPTED = ''PROVIDER_SEND_ATTEMPTED''"
definition ACCEPTED_STATE :: string where "ACCEPTED_STATE = ''PROVIDER_ACCEPTED''"
definition OUTCOME_UNKNOWN :: string where "OUTCOME_UNKNOWN = ''PROVIDER_OUTCOME_UNKNOWN''"
definition COMPLETED_STATE :: string where "COMPLETED_STATE = ''COMPLETED''"
definition FAILED_STATE :: string where "FAILED_STATE = ''FAILED''"

lemmas provider_states = LOCAL_CREATED_def SEND_ATTEMPTED_def ACCEPTED_STATE_def OUTCOME_UNKNOWN_def
  COMPLETED_STATE_def FAILED_STATE_def

definition openStatus :: "mpesa_transaction \<Rightarrow> bool" where
  "openStatus m \<longleftrightarrow> mt_status m = TransactionStatus.PENDING \<or> mt_status m = TransactionStatus.RECON_PENDING"

definition mpesaById :: "db \<Rightarrow> ident \<Rightarrow> mpesa_transaction option" where
  "mpesaById s k = findFirst (\<lambda>m. mt_id m = k) (mpesaTransactions s)"

record provider =
  pv_enabled :: bool
  pv_send :: "string \<Rightarrow> string \<Rightarrow> rat \<Rightarrow> mwaloni_response option"
  pv_getStatus :: "string \<Rightarrow> mwaloni_response option"

section \<open>The request of the member\<close>

definition resolveMember :: "db \<Rightarrow> ident \<Rightarrow> ident \<Rightarrow> (member \<times> user) res" where
  "resolveMember s userId tenantId =
     rbind (required (NotFoundException ''Member profile not found for this user'')
       (findFirst (\<lambda>m. mb_userId m = userId \<and> mb_tenantId m = tenantId \<and> mb_isActive m) (members s))) (\<lambda>m.
     rbind (required (InternalError ''User of the member'')
       (findFirst (\<lambda>u. us_id u = mb_userId m) (users s))) (\<lambda>u. Inr (m, u)))"

definition auditWithdrawalRejection :: "ident \<Rightarrow> ident \<Rightarrow> ident \<Rightarrow> db \<Rightarrow> db" where
  "auditWithdrawalRejection tenantId userId memberId s =
     writeAudit tenantId userId ''MPESA.WITHDRAW.REJECTED'' memberId s"

definition resolveProfileWithdrawalPhone ::
  "ident \<Rightarrow> ident \<Rightarrow> member \<Rightarrow> user \<Rightarrow> string option \<Rightarrow> db \<Rightarrow> string res \<times> db" where
  "resolveProfileWithdrawalPhone tenantId userId m u requestedPhone s =
     (let candidates = remdups (List.map_filter (\<lambda>p. nr_normalized (normalizePhone p)) [us_phone u, us_phoneNumber u]);
          requested = (case requestedPhone of None \<Rightarrow> None
            | Some p \<Rightarrow> if p = '''' then None else Some (normalizePhone (Some p)));
          reject = (\<lambda>message. (Inl (BadRequestException message), auditWithdrawalRejection tenantId userId (mb_id m) s))
      in if (case requested of None \<Rightarrow> False | Some r \<Rightarrow> \<not> nr_isValid r)
         then reject ''Withdrawal phone number is invalid''
         else case candidates of
           [] \<Rightarrow> reject ''Add your member phone number in your profile''
         | [profilePhone] \<Rightarrow>
             (case requested of
                Some r \<Rightarrow> if differs (nr_normalized r) (Some profilePhone)
                  then reject ''Withdrawal destination must match your member profile phone number''
                  else (Inr profilePhone, s)
              | None \<Rightarrow> (Inr profilePhone, s))
         | _ \<Rightarrow> reject ''Your profile phone records need verification'')"

record withdraw_response =
  wd_transactionId :: ident
  wd_payoutIntentId :: ident

definition availableFosa :: "env \<Rightarrow> account \<Rightarrow> rat" where
  "availableFosa E a =
     (let minimum = (if acc_allowsNegative a then 0 else acc_minimumBalance a) in
      max 0 (dminus E (dminus E (dminus E (acc_balance a) (acc_lockedBalance a)) (acc_frozenSavings a)) minimum))"

definition withdrawalReference :: "ident \<Rightarrow> ident \<Rightarrow> string \<Rightarrow> string" where
  "withdrawalReference tenantId memberId idempotencyKey =
     ''MPESA_WD-'' @ tenantId @ ''-'' @ memberId @ ''-'' @ idempotencyKey"

definition withdrawalEntry :: "ident \<Rightarrow> string \<Rightarrow> ident \<Rightarrow> rat \<Rightarrow> ident \<Rightarrow> entry_params" where
  "withdrawalEntry tenantId reference accountId amount userId =
     \<lparr>ep_tenantId = tenantId, ep_reference = reference, ep_journalType = JournalEntryType.WITHDRAWAL,
      ep_accountId = accountId, ep_amount = amount, ep_direction = DEBIT, ep_actorId = Some userId,
      ep_linkedTransactionId = None, ep_loanId = None\<rparr>"

definition upsertPayoutIntent :: "env \<Rightarrow> payout_intent \<Rightarrow> db \<Rightarrow> (payout_intent \<times> db) res" where
  "upsertPayoutIntent E row s =
     (case findFirst (\<lambda>p. pi_dispatchKey p = pi_dispatchKey row) (payoutIntents s) of
        Some existing \<Rightarrow> Inr (existing, s)
      | None \<Rightarrow>
        (let r = row\<lparr>pi_id := uuid E (id_count s)\<rparr> in
         rbind (ensure (\<forall>p \<in> set (payoutIntents s). pi_id p \<noteq> pi_id r \<and> pi_jobId p \<noteq> pi_jobId r \<and>
             pi_sourceTransactionId p \<noteq> pi_sourceTransactionId r)
           (UniqueConstraintViolation ''MpesaPayoutIntent'')) (\<lambda>_.
         rbind (ensure (in_column (pi_amount r)) NumericFieldOverflow) (\<lambda>_.
         Inr (r, s\<lparr>payoutIntents := payoutIntents s @ [r], id_count := Suc (id_count s)\<rparr>)))))"

definition withdrawalIntent :: "ident \<Rightarrow> ident \<Rightarrow> ident \<Rightarrow> ident \<Rightarrow> string \<Rightarrow> rat \<Rightarrow> ident \<Rightarrow> int \<Rightarrow> payout_intent" where
  "withdrawalIntent tenantId txId accountId memberId phone amount userId now =
     \<lparr>pi_id = '''', pi_tenantId = tenantId, pi_dispatchKey = ''FOSA_WITHDRAWAL:'' @ tenantId @ '':'' @ txId,
      pi_jobId = ''fosa-withdraw-'' @ txId, pi_referenceType = ''FOSA_WITHDRAWAL'', pi_referenceId = accountId,
      pi_sourceTransactionId = txId, pi_memberId = Some memberId, pi_accountId = Some accountId,
      pi_phoneNumber = phone, pi_amount = amount, pi_triggeredBy = userId, pi_status = OutboxStatus.PENDING,
      pi_attempts = 0, pi_nextRetryAt = None, pi_mpesaTransactionId = None, pi_updatedAt = now\<rparr>"

text \<open>The transaction of a withdrawal; the fee of the code is zero.\<close>

definition withdrawTx ::
  "env \<Rightarrow> int \<Rightarrow> db \<Rightarrow> ident \<Rightarrow> ident \<Rightarrow> string \<Rightarrow> rat \<Rightarrow> ident \<Rightarrow> string \<Rightarrow> (withdraw_response \<times> db) res" where
  "withdrawTx E now s memberId userId phone amount tenantId idempotencyKey =
     (let totalDeduction = dplus E amount 0 in
      rbind (required (NotFoundException ''No active FOSA account found for withdrawal'')
        (findFirst (\<lambda>a. acc_memberId a = memberId \<and> acc_tenantId a = tenantId \<and> acc_accountType a = FOSA \<and>
           acc_isActive a) (accounts s))) (\<lambda>fosaAccount.
      rbind (ensure (\<not> availableFosa E fosaAccount < totalDeduction)
        (BadRequestException ''Insufficient available FOSA balance'')) (\<lambda>_.
      rbind (postEntry E True s (withdrawalEntry tenantId (withdrawalReference tenantId memberId idempotencyKey)
          (acc_id fosaAccount) totalDeduction userId)) (\<lambda>((t, _), s1).
      let s2 = writeAudit tenantId userId ''MPESA.WITHDRAW.INITIATED'' (tx_id t) s1 in
      rbind (upsertPayoutIntent E (withdrawalIntent tenantId (tx_id t) (acc_id fosaAccount) memberId phone
          (dp4 E amount) userId now) s2) (\<lambda>(intent, s3).
      Inr (\<lparr>wd_transactionId = tx_id t, wd_payoutIntentId = pi_id intent\<rparr>, s3))))))"

section \<open>The outbox\<close>

definition RETRY_DELAY_MS :: int where "RETRY_DELAY_MS = 60000"
definition STALE_PROCESSING_MS :: int where "STALE_PROCESSING_MS = 5 * 60000"

definition updateIntent :: "(payout_intent \<Rightarrow> bool) \<Rightarrow> (payout_intent \<Rightarrow> payout_intent) \<Rightarrow> db \<Rightarrow> db" where
  "updateIntent P f s = s\<lparr>payoutIntents := fst (updateMany P f (payoutIntents s))\<rparr>"

definition markQueueFailure :: "int \<Rightarrow> ident \<Rightarrow> db \<Rightarrow> db" where
  "markQueueFailure now intentId s = updateIntent (\<lambda>p. pi_id p = intentId)
     (\<lambda>p. p\<lparr>pi_status := OutboxStatus.FAILED, pi_attempts := pi_attempts p + 1,
        pi_nextRetryAt := Some (now + RETRY_DELAY_MS), pi_updatedAt := now\<rparr>) s"

text \<open>A queue keeps one job of an identifier: adding it again does nothing.\<close>

definition addPayoutJob :: "payout_job \<Rightarrow> db \<Rightarrow> db" where
  "addPayoutJob j s = (if \<exists>x \<in> set (payoutQueue s). pj_jobId x = pj_jobId j then s
     else s\<lparr>payoutQueue := payoutQueue s @ [j]\<rparr>)"

definition addTimeoutJob :: "timeout_job \<Rightarrow> db \<Rightarrow> db" where
  "addTimeoutJob j s = (if \<exists>x \<in> set (timeoutQueue s). tj_jobId x = tj_jobId j then s
     else s\<lparr>timeoutQueue := timeoutQueue s @ [j]\<rparr>)"

definition intentJob :: "payout_intent \<Rightarrow> payout_job" where
  "intentJob p = \<lparr>pj_jobId = pi_jobId p, pj_payoutIntentId = Some (pi_id p), pj_referenceType = pi_referenceType p,
     pj_referenceId = pi_referenceId p, pj_tenantId = pi_tenantId p, pj_phone = pi_phoneNumber p,
     pj_amount = pi_amount p, pj_triggeredBy = pi_triggeredBy p,
     pj_sourceTransactionId = Some (pi_sourceTransactionId p)\<rparr>"

text \<open>\<open>queueUp\<close> says that the queue can be reached.\<close>

definition dispatchIntent :: "int \<Rightarrow> bool \<Rightarrow> ident \<Rightarrow> db \<Rightarrow> bool \<times> db" where
  "dispatchIntent now queueUp intentId s =
     (case findFirst (\<lambda>p. pi_id p = intentId) (payoutIntents s) of
        None \<Rightarrow> (False, s)
      | Some intent \<Rightarrow>
        if pi_status intent = OutboxStatus.DELIVERED \<or> pi_status intent = OutboxStatus.DEAD_LETTER then (False, s)
        else if pi_referenceType intent \<noteq> ''FOSA_WITHDRAWAL'' \<and> pi_referenceType intent \<noteq> ''LOAN_DISBURSEMENT''
        then (False, markQueueFailure now intentId s)
        else if queueUp then
          (True, updateIntent (\<lambda>p. pi_id p = intentId)
            (\<lambda>p. p\<lparr>pi_status := OutboxStatus.PROCESSING, pi_nextRetryAt := None, pi_updatedAt := now\<rparr>)
            (addPayoutJob (intentJob intent) s))
        else (False, markQueueFailure now intentId s))"

definition dueIntent :: "int \<Rightarrow> payout_intent \<Rightarrow> bool" where
  "dueIntent now p \<longleftrightarrow>
     (pi_status p \<in> {OutboxStatus.PENDING, OutboxStatus.FAILED} \<and>
        (case pi_nextRetryAt p of None \<Rightarrow> True | Some d \<Rightarrow> d \<le> now)) \<or>
     (pi_status p = OutboxStatus.PROCESSING \<and> pi_updatedAt p < now - STALE_PROCESSING_MS)"

definition dispatchDueIntents :: "int \<Rightarrow> (ident \<Rightarrow> bool) \<Rightarrow> nat \<Rightarrow> db \<Rightarrow> nat \<times> db" where
  "dispatchDueIntents now queueUp limit s =
     fold (\<lambda>p (queued, s). let (q, s') = dispatchIntent now (queueUp (pi_id p)) (pi_id p) s
         in (if q then queued + 1 else queued, s'))
       (take limit (filter (dueIntent now) (payoutIntents s))) (0, s)"

definition intentKey :: "ident option \<Rightarrow> ident option \<Rightarrow> payout_intent \<Rightarrow> bool" where
  "intentKey payoutIntentId sourceTransactionId p \<longleftrightarrow>
     (case nonEmpty payoutIntentId of Some k \<Rightarrow> pi_id p = k
      | None \<Rightarrow> (case nonEmpty sourceTransactionId of Some k \<Rightarrow> pi_sourceTransactionId p = k | None \<Rightarrow> False))"

definition markDelivered :: "int \<Rightarrow> ident option \<Rightarrow> ident option \<Rightarrow> ident \<Rightarrow> db \<Rightarrow> (unit \<times> db) res" where
  "markDelivered now payoutIntentId sourceTransactionId mpesaTransactionId s =
     (let s' = updateIntent (\<lambda>p. intentKey payoutIntentId sourceTransactionId p \<and> pi_status p \<noteq> OutboxStatus.DEAD_LETTER)
          (\<lambda>p. p\<lparr>pi_status := OutboxStatus.DELIVERED, pi_mpesaTransactionId := Some mpesaTransactionId,
             pi_nextRetryAt := None, pi_updatedAt := now\<rparr>) s
      in rbind (ensure (distinct (List.map_filter pi_mpesaTransactionId (payoutIntents s')))
           (UniqueConstraintViolation ''MpesaPayoutIntent.mpesaTransactionId'')) (\<lambda>_. Inr ((), s')))"

definition markDeadLetter :: "int \<Rightarrow> payout_job \<Rightarrow> db \<Rightarrow> (unit \<times> db) res" where
  "markDeadLetter now j s =
     (let intent = findFirst (intentKey (pj_payoutIntentId j) (pj_sourceTransactionId j)) (payoutIntents s);
          auditEntityId = (case intent of Some p \<Rightarrow> pi_id p
            | None \<Rightarrow> (case coalesce (pj_payoutIntentId j) (pj_sourceTransactionId j) of
                Some k \<Rightarrow> k | None \<Rightarrow> pj_jobId j));
          requestId = ''audit.MPESA.DISBURSEMENT.DLQ.'' @ pj_tenantId j @ ''.'' @ auditEntityId;
          audit = auditAtomic (pj_tenantId j) ''SYSTEM'' ''MPESA.DISBURSEMENT.DLQ'' auditEntityId requestId
      in case intent of
           Some p \<Rightarrow>
             if pi_status p = OutboxStatus.DEAD_LETTER then Inr ((), s)
             else rbind (audit (updateIntent (\<lambda>x. pi_id x = pi_id p)
               (\<lambda>x. x\<lparr>pi_status := OutboxStatus.DEAD_LETTER, pi_attempts := pi_attempts x + 1,
                  pi_nextRetryAt := None, pi_updatedAt := now\<rparr>) s)) (\<lambda>s'. Inr ((), s'))
         | None \<Rightarrow>
             if \<exists>a \<in> set (auditLog s). au_requestId a = Some requestId then Inr ((), s)
             else rbind (audit s) (\<lambda>s'. Inr ((), s')))"

text \<open>The withdrawal of the member: the store of idempotency keys is the argument.\<close>

datatype withdraw_reservation = COMPLETED string withdraw_response | PROCESSING | RESERVED

definition executeWithdrawMpesa ::
  "env \<Rightarrow> int \<Rightarrow> bool \<Rightarrow> db \<Rightarrow> ident \<Rightarrow> ident \<Rightarrow> string \<Rightarrow> rat \<Rightarrow> ident \<Rightarrow> string \<Rightarrow> withdraw_response res \<times> db" where
  "executeWithdrawMpesa E now queueUp s memberId userId phone amount tenantId idempotencyKey =
     andThen (committed s (withdrawTx E now s memberId userId phone amount tenantId idempotencyKey)) (\<lambda>r s1.
     (Inr r, snd (dispatchIntent now queueUp (wd_payoutIntentId r) s1)))"

definition withdrawMpesa ::
  "env \<Rightarrow> int \<Rightarrow> bool \<Rightarrow> (string \<Rightarrow> rat \<Rightarrow> string) \<Rightarrow> (string \<Rightarrow> withdraw_reservation) \<Rightarrow> db \<Rightarrow> ident \<Rightarrow>
   string option \<Rightarrow> rat \<Rightarrow> ident \<Rightarrow> string option \<Rightarrow> withdraw_response res \<times> db" where
  "withdrawMpesa E now queueUp payloadHash reserve s userId requestedPhone amount tenantId idempotencyKey =
     (let key = (case idempotencyKey of None \<Rightarrow> '''' | Some k \<Rightarrow> trim k) in
      if key = '''' then (Inl (BadRequestException ''IDEMPOTENCY_KEY_REQUIRED''), s)
      else andThen (committed s (rbind (resolveMember s userId tenantId) (\<lambda>mu. Inr (mu, s)))) (\<lambda>(m, u) s.
        andThen (resolveProfileWithdrawalPhone tenantId userId m u requestedPhone s) (\<lambda>phone s.
        case reserve (''mpesa:withdraw:'' @ tenantId @ '':'' @ mb_id m @ '':'' @ key) of
          COMPLETED hash response \<Rightarrow>
            if hash \<noteq> payloadHash phone amount
            then (Inl (BadRequestException ''IDEMPOTENCY_KEY_REUSED_WITH_DIFFERENT_PAYLOAD''), s)
            else (Inr response, s)
        | PROCESSING \<Rightarrow> (Inl (ConflictException ''Withdrawal request is already processing''), s)
        | RESERVED \<Rightarrow> executeWithdrawMpesa E now queueUp s (mb_id m) userId phone amount tenantId key)))"

section \<open>Answers of the provider\<close>

text \<open>The three results of an answer: refreshed, terminal, status.\<close>

type_synonym refresh = "bool \<times> bool \<times> TransactionStatus option"

definition auditId :: "string \<Rightarrow> mpesa_transaction \<Rightarrow> string" where
  "auditId action m = ''audit.'' @ action @ ''.'' @ mt_tenantId m @ ''.'' @ mt_id m"

definition markMwaloniOutcomeUnknown :: "int \<Rightarrow> ident \<Rightarrow> db \<Rightarrow> (unit \<times> db) res" where
  "markMwaloniOutcomeUnknown now k s =
     (case mpesaById s k of
        None \<Rightarrow> Inr ((), s)
      | Some row \<Rightarrow>
        (let (count, s1) = touchMpesa (\<lambda>m. mt_id m = k \<and> openStatus m)
               (\<lambda>m. m\<lparr>mt_status := TransactionStatus.RECON_PENDING, mt_providerSubmissionState := Some OUTCOME_UNKNOWN,
                  mt_failureReason := Some ''MWALONI_PROVIDER_SEND_OUTCOME_UNKNOWN''\<rparr>) s
         in if count = 0 then Inr ((), s1)
            else rbind (auditAtomic (mt_tenantId row) ''SYSTEM'' ''MWALONI.B2C.SEND_AMBIGUOUS'' k
                (auditId ''MWALONI.B2C.SEND_AMBIGUOUS'' row) s1) (\<lambda>s2. Inr ((), s2))))"

definition markMwaloniMismatchReconciliation :: "int \<Rightarrow> mpesa_transaction \<Rightarrow> db \<Rightarrow> (unit \<times> db) res" where
  "markMwaloniMismatchReconciliation now row s =
     (let (count, s1) = touchMpesa (\<lambda>m. mt_id m = mt_id row \<and> openStatus m)
            (\<lambda>m. m\<lparr>mt_status := TransactionStatus.RECON_PENDING, mt_providerSubmissionState := Some OUTCOME_UNKNOWN,
               mt_failureReason := Some ''MWALONI_PROVIDER_RESPONSE_MISMATCH'',
               mt_callbackPayload := Some OtherPayload\<rparr>) s
      in if count = 0 then Inr ((), s1)
         else rbind (auditAtomic (mt_tenantId row) ''SYSTEM'' ''MWALONI.B2C.RESPONSE_MISMATCH'' (mt_id row)
             (auditId ''MWALONI.B2C.RESPONSE_MISMATCH'' row) s1) (\<lambda>s2. Inr ((), s2)))"

definition completeMwaloni :: "int \<Rightarrow> ident \<Rightarrow> db \<Rightarrow> (unit \<times> db) res" where
  "completeMwaloni now k s =
     (let (count, s1) = touchMpesa (\<lambda>m. mt_id m = k \<and> openStatus m)
            (\<lambda>m. m\<lparr>mt_status := TransactionStatus.COMPLETED, mt_providerSubmissionState := Some COMPLETED_STATE,
               mt_resultCode := Some 0, mt_callbackPayload := Some OtherPayload, mt_transactionDate := Some now\<rparr>) s
      in rbind (required (NotFoundException ''No MpesaTransaction found'') (mpesaById s1 k)) (\<lambda>row.
         Inr ((), if 0 < count then writeAudit (mt_tenantId row) ''SYSTEM'' ''MWALONI.B2C.COMPLETED'' k s1 else s1)))"

definition failMwaloniTransaction :: "env \<Rightarrow> ident \<Rightarrow> int option \<Rightarrow> string \<Rightarrow> db \<Rightarrow> (unit \<times> db) res" where
  "failMwaloniTransaction E k resultCode failureReason s =
     rbind (required (NotFoundException ''Mwaloni B2C transaction not found'') (mpesaById s k)) (\<lambda>row.
     if \<not> openStatus row then Inr ((), s)
     else
       (let s1 = snd (touchMpesa (\<lambda>m. mt_id m = k)
              (\<lambda>m. m\<lparr>mt_status := TransactionStatus.FAILED, mt_providerSubmissionState := Some FAILED_STATE,
                 mt_resultCode := resultCode, mt_failureReason := Some failureReason,
                 mt_callbackPayload := Some OtherPayload\<rparr>) s)
        in rbind (case (mt_referenceType row = Some ''FOSA_WITHDRAWAL'', mt_transactionId row) of
              (True, Some original) \<Rightarrow>
                rbind (reverseTransaction E True s1 (mt_tenantId row) original None) (\<lambda>(_, s2). Inr s2)
            | _ \<Rightarrow> Inr s1) (\<lambda>s2.
           Inr ((), writeAudit (mt_tenantId row) ''SYSTEM'' ''MWALONI.B2C.FAILED_REFUNDED'' k s2))))"

definition statusCode :: "string \<Rightarrow> int option" where
  "statusCode status = (if status \<noteq> '''' \<and> (\<forall>c \<in> set status. isDigit c) then Some (int (natOf status)) else None)"

definition applyMwaloniStatus :: "env \<Rightarrow> int \<Rightarrow> ident \<Rightarrow> mwaloni_response \<Rightarrow> db \<Rightarrow> refresh res \<times> db" where
  "applyMwaloniStatus E now k response s =
     (let status = providerStatus response in
      case mpesaById s k of
        None \<Rightarrow> (Inl (NotFoundException ''Mwaloni B2C transaction not found''), s)
      | Some current \<Rightarrow>
        if findMwaloniResponseMismatches E current response \<noteq> [] then
          andThen (committed s (markMwaloniMismatchReconciliation now current s)) (\<lambda>_ s1.
          (Inr (True, False, Some TransactionStatus.RECON_PENDING), s1))
        else if isMwaloniSuccess status then
          andThen (committed s (completeMwaloni now k s)) (\<lambda>_ s1.
          (Inr (True, True, Some TransactionStatus.COMPLETED), s1))
        else if isMwaloniPending status then
          (Inr (True, False, Some TransactionStatus.PENDING),
           snd (touchMpesa (\<lambda>m. mt_id m = k) (\<lambda>m. m\<lparr>mt_callbackPayload := Some OtherPayload\<rparr>) s))
        else
          andThen (committed s (failMwaloniTransaction E k (statusCode status)
            (if status = '''' then ''MWALONI_STATUS_UNKNOWN'' else ''MWALONI_STATUS_'' @ status) s)) (\<lambda>_ s1.
          (Inr (True, True, Some TransactionStatus.FAILED), s1)))"

definition refreshMwaloniB2cStatus :: "env \<Rightarrow> provider \<Rightarrow> int \<Rightarrow> ident \<Rightarrow> db \<Rightarrow> refresh res \<times> db" where
  "refreshMwaloniB2cStatus E pv now k s =
     (if \<not> pv_enabled pv then (Inr (False, False, None), s)
      else case mpesaById s k of
        None \<Rightarrow> (Inr (False, False, None), s)
      | Some m \<Rightarrow>
        (case nonEmpty (mt_conversationId m) of
           None \<Rightarrow> (Inr (False, False, None), s)
         | Some conversationId \<Rightarrow>
           if mt_type m \<noteq> B2C then (Inr (False, False, None), s)
           else if \<not> openStatus m then (Inr (False, True, Some (mt_status m)), s)
           else case pv_getStatus pv conversationId of
             None \<Rightarrow> (Inl (InternalError ''Mwaloni request failed''), s)
           | Some response \<Rightarrow> applyMwaloniStatus E now k response s))"

definition refreshMwaloniB2cStatusByConversation ::
  "env \<Rightarrow> provider \<Rightarrow> int \<Rightarrow> ident \<Rightarrow> string \<Rightarrow> db \<Rightarrow> refresh res \<times> db" where
  "refreshMwaloniB2cStatusByConversation E pv now tenantId conversationId s =
     (case findFirst (\<lambda>m. mt_tenantId m = tenantId \<and> mt_conversationId m = Some conversationId \<and> mt_type m = B2C)
        (mpesaTransactions s) of
        None \<Rightarrow> (Inr (False, False, None), s)
      | Some m \<Rightarrow> refreshMwaloniB2cStatus E pv now (mt_id m) s)"

section \<open>Sending an order\<close>

definition scheduleB2cTimeoutCheck :: "ident \<Rightarrow> string \<Rightarrow> ident \<Rightarrow> string \<Rightarrow> db \<Rightarrow> db" where
  "scheduleB2cTimeoutCheck referenceId referenceType tenantId conversationId s =
     addTimeoutJob \<lparr>tj_jobId = ''b2c-timeout.'' @ conversationId, tj_referenceId = referenceId,
       tj_referenceType = referenceType, tj_tenantId = tenantId, tj_conversationId = conversationId\<rparr> s"

definition submitMwaloniMobilePayout ::
  "env \<Rightarrow> provider \<Rightarrow> int \<Rightarrow> ident \<Rightarrow> string \<Rightarrow> payout_job \<Rightarrow> db \<Rightarrow> (string \<times> ident) res \<times> db" where
  "submitMwaloniMobilePayout E pv now k orderNumber j s =
     (let (count, s1) = touchMpesa
            (\<lambda>m. mt_id m = k \<and> openStatus m \<and> mt_providerSubmissionState m = Some LOCAL_CREATED)
            (\<lambda>m. m\<lparr>mt_providerSubmissionState := Some SEND_ATTEMPTED, mt_providerSendAttemptedAt := Some now\<rparr>) s;
          unknown = (\<lambda>s. andThen (committed s (markMwaloniOutcomeUnknown now k s)) (\<lambda>_ s'.
            (Inr (orderNumber, k),
             scheduleB2cTimeoutCheck (pj_referenceId j) (pj_referenceType j) (pj_tenantId j) orderNumber s')))
      in if count = 0 then
           (case mpesaById s1 k of
              None \<Rightarrow> (Inl (NotFoundException ''No MpesaTransaction found''), s1)
            | Some m \<Rightarrow> (Inr (case mt_conversationId m of None \<Rightarrow> orderNumber | Some c \<Rightarrow> c, k), s1))
         else
           (let s2 = writeAudit (pj_tenantId j) (pj_triggeredBy j) ''MWALONI.B2C.SEND_ATTEMPTED'' k s1;
                s3 = s2\<lparr>providerOrders := providerOrders s2 @ [orderNumber]\<rparr>
            in case pv_send pv orderNumber (pj_phone j) (pj_amount j) of
                 None \<Rightarrow> unknown s3
               | Some response \<Rightarrow>
                 (let s4 = snd (touchMpesa (\<lambda>m. mt_id m = k)
                        (\<lambda>m. m\<lparr>mt_providerSubmissionState := Some ACCEPTED_STATE\<rparr>) s3)
                  in case applyMwaloniStatus E now k response s4 of
                       (Inr _, s5) \<Rightarrow> (Inr (orderNumber, k), s5)
                     | (Inl _, s5) \<Rightarrow> unknown s5)))"

definition buildMwaloniOrderNumber :: "int \<Rightarrow> payout_job \<Rightarrow> string" where
  "buildMwaloniOrderNumber now j = (case nonEmpty (pj_sourceTransactionId j) of
     Some k \<Rightarrow> ''MWD-'' @ k | None \<Rightarrow> ''MWD-'' @ pj_referenceId j @ ''-'' @ showInt now)"

definition b2cRow :: "env \<Rightarrow> int \<Rightarrow> payout_job \<Rightarrow> ident \<Rightarrow> string \<Rightarrow> string \<Rightarrow> mpesa_transaction" where
  "b2cRow E now j memberId accountReference orderNumber =
     \<lparr>mt_id = '''', mt_tenantId = pj_tenantId j, mt_transactionId = nonEmpty (pj_sourceTransactionId j),
      mt_checkoutRequestId = None, mt_phoneNumber = pj_phone j, mt_amount = dp4 E (pj_amount j),
      mt_status = TransactionStatus.PENDING, mt_resultCode = None, mt_receipt = None,
      mt_callbackPayload = Some OtherPayload, mt_createdAt = now, mt_accountReference = Some accountReference,
      mt_conversationId = Some orderNumber, mt_originatorConversationId = None, mt_loanId = None, mt_memberId = Some memberId,
      mt_reference = b2cReference orderNumber, mt_transactionDate = None, mt_type = B2C, mt_failureReason = None,
      mt_referenceId = Some (pj_referenceId j), mt_referenceType = Some (pj_referenceType j),
      mt_providerSubmissionState = Some LOCAL_CREATED, mt_providerSendAttemptedAt = None,
      mt_reconciliationDueAt = Some (now + 30 * 60 * 1000), mt_reconciliationAttemptCount = 0,
      mt_reconciliationNextRetryAt = None, mt_reconciliationLockedAt = None, mt_reconciliationLockedBy = None,
      mt_manualReviewRequired = False, mt_manualReviewReason = None, mt_reconciliationLastReason = None\<rparr>"

definition executeMwaloniMobilePayout ::
  "env \<Rightarrow> provider \<Rightarrow> int \<Rightarrow> payout_job \<Rightarrow> ident \<Rightarrow> string \<Rightarrow> db \<Rightarrow> (string \<times> ident) res \<times> db" where
  "executeMwaloniMobilePayout E pv now j memberId accountReference s =
     (let orderNumber = buildMwaloniOrderNumber now j in
      case findFirst (\<lambda>m. mt_reference m = b2cReference orderNumber) (mpesaTransactions s) of
        Some existing \<Rightarrow>
          if mt_providerSubmissionState existing = Some LOCAL_CREATED
          then submitMwaloniMobilePayout E pv now (mt_id existing) orderNumber j s
          else if openStatus existing then
            andThen (refreshMwaloniB2cStatus E pv now (mt_id existing) s) (\<lambda>_ s1. (Inr (orderNumber, mt_id existing), s1))
          else (Inr (orderNumber, mt_id existing), s)
      | None \<Rightarrow>
          andThen (committed s (rbind (createMpesa E (b2cRow E now j memberId accountReference orderNumber) s)
            (\<lambda>(row, s1). Inr (row, writeAudit (pj_tenantId j) (pj_triggeredBy j) ''MWALONI.B2C.INITIATED'' (mt_id row) s1))))
          (\<lambda>row s1.
          andThen (submitMwaloniMobilePayout E pv now (mt_id row) orderNumber j s1) (\<lambda>_ s2.
          (Inr (orderNumber, mt_id row),
           scheduleB2cTimeoutCheck (pj_referenceId j) (pj_referenceType j) (pj_tenantId j) orderNumber s2))))"

definition providerUnavailable :: exn where
  "providerUnavailable = InternalError ''Mwaloni B2C payment wallet is not enabled or available''"

definition executeB2cDisbursement ::
  "env \<Rightarrow> provider \<Rightarrow> int \<Rightarrow> payout_job \<Rightarrow> db \<Rightarrow> (string \<times> ident) res \<times> db" where
  "executeB2cDisbursement E pv now j s =
     (if pj_referenceType j = ''LOAN_DISBURSEMENT''
      then (Inl (BadRequestException ''Direct M-Pesa loan disbursement execution is disabled''), s)
      else case findFirst (\<lambda>a. acc_id a = pj_referenceId j) (accounts s) of
        None \<Rightarrow> (Inl (NotFoundException ''FOSA account not found for withdrawal''), s)
      | Some account \<Rightarrow>
        (let existing = (case nonEmpty (pj_sourceTransactionId j) of None \<Rightarrow> None
               | Some k \<Rightarrow> findFirst (\<lambda>m. mt_transactionId m = Some k) (mpesaTransactions s))
         in case existing of
              Some m \<Rightarrow>
                (case nonEmpty (mt_conversationId m) of
                   None \<Rightarrow> (Inl (BadRequestException ''B2C dispatch is already in an ambiguous provider state''), s)
                 | Some conversationId \<Rightarrow>
                   if mt_providerSubmissionState m = Some LOCAL_CREATED then
                     (if \<not> pv_enabled pv then (Inl providerUnavailable, s)
                      else submitMwaloniMobilePayout E pv now (mt_id m) conversationId j s)
                   else
                     (let s1 = (if openStatus m then scheduleB2cTimeoutCheck
                            (case mt_referenceId m of None \<Rightarrow> pj_referenceId j | Some r \<Rightarrow> r)
                            (case mt_referenceType m of None \<Rightarrow> pj_referenceType j | Some r \<Rightarrow> r)
                            (mt_tenantId m) conversationId s else s)
                      in andThen
                        (if mt_providerSubmissionState m \<in> {Some SEND_ATTEMPTED, Some OUTCOME_UNKNOWN}
                         then committed s1 (markMwaloniOutcomeUnknown now (mt_id m) s1) else (Inr (), s1))
                        (\<lambda>_ s2. (Inr (conversationId, mt_id m), s2))))
            | None \<Rightarrow>
                if \<not> pv_enabled pv then (Inl providerUnavailable, s)
                else executeMwaloniMobilePayout E pv now j (acc_memberId account) (acc_accountNumber account) s))"

text \<open>The worker of the queue.\<close>

definition processPayoutJob :: "env \<Rightarrow> provider \<Rightarrow> int \<Rightarrow> payout_job \<Rightarrow> db \<Rightarrow> unit res \<times> db" where
  "processPayoutJob E pv now j s =
     andThen (executeB2cDisbursement E pv now j s) (\<lambda>(_, mpesaTxId) s1.
     committed s1 (markDelivered now (pj_payoutIntentId j) (pj_sourceTransactionId j) mpesaTxId s1))"

definition onPayoutJobFailed :: "int \<Rightarrow> nat \<Rightarrow> nat \<Rightarrow> payout_job \<Rightarrow> db \<Rightarrow> unit res \<times> db" where
  "onPayoutJobFailed now attemptsMade attempts j s =
     (if attemptsMade < attempts then (Inr (), s) else committed s (markDeadLetter now j s))"

end
