(* ===== verification/Mpesa_Callbacks.thy ===== *)
theory Mpesa_Callbacks
  imports Mpesa_Payouts Loan_Repayment
begin

text \<open>
  Mobile-money deposits and the callbacks of the payment provider: the request for a deposit
  (\<open>initiateDeposit\<close> of \<open>src/src/modules/mpesa/mpesa.service.ts\<close>), the durable inbox
  (\<open>persistCallbackPayload\<close>, \<open>enqueueCallbackInbox\<close>), the worker
  (\<open>queue/processors/mpesa-callback.processor.ts\<close>) with its handlers for the three kinds of message, and
  the two jobs that give up on deposits without an answer (\<open>mpesa/mpesa-stk-timeout.service.ts\<close>,
  \<open>mpesa/jobs/stk-expiry.processor.ts\<close>).

  The date of a message is the argument \<open>jsDate\<close> where the source gives a text to \<open>new Date\<close>. Domain events, the cache of the
  dashboard and metrics are not modelled; the audit rows that go with a correlation id are.
\<close>

section \<open>Posting a deposit\<close>

record ledger_params =
  pl_tenantId :: ident
  pl_memberId :: "ident option"
  pl_accountReference :: string
  pl_amount :: rat
  pl_receipt :: string
  pl_mpesaTxId :: ident
  pl_payload :: callback_payload
  pl_resultCode :: int
  pl_transactionDate :: "int option"

definition mpesaRequestId :: "string \<Rightarrow> ident \<Rightarrow> string \<Rightarrow> string" where
  "mpesaRequestId action tenantId k = ''audit.'' @ action @ ''.'' @ tenantId @ ''.'' @ k"

definition resolveDefaultFosaByMember :: "db \<Rightarrow> ident \<Rightarrow> ident \<Rightarrow> string res" where
  "resolveDefaultFosaByMember s memberId tenantId =
     rbind (required (InternalError ''No FOSA account for member'')
       (findFirst (\<lambda>a. acc_memberId a = memberId \<and> acc_tenantId a = tenantId \<and> acc_accountType a = FOSA \<and>
          acc_isActive a) (accounts s))) (\<lambda>a. Inr (acc_accountNumber a))"

definition depositReference :: "string \<Rightarrow> ident \<Rightarrow> string" where
  "depositReference receipt tenantId = ''MPESA_DEP-'' @ receipt @ ''-'' @ tenantId"

definition depositEntry :: "ledger_params \<Rightarrow> ident \<Rightarrow> entry_params" where
  "depositEntry p accountId =
     \<lparr>ep_tenantId = pl_tenantId p, ep_reference = depositReference (pl_receipt p) (pl_tenantId p),
      ep_journalType = JournalEntryType.MPESA_DEPOSIT, ep_accountId = accountId, ep_amount = pl_amount p,
      ep_direction = CREDIT, ep_actorId = None, ep_linkedTransactionId = None, ep_loanId = None\<rparr>"

definition settleMpesa :: "ledger_params \<Rightarrow> ident \<Rightarrow> db \<Rightarrow> db res" where
  "settleMpesa p txId s =
     rbind (required (InternalError ''Invalid Date'') (pl_transactionDate p)) (\<lambda>date.
     updateMpesa (pl_mpesaTxId p) (\<lambda>m. m\<lparr>mt_transactionId := Some txId,
       mt_status := TransactionStatus.COMPLETED, mt_resultCode := Some (pl_resultCode p),
       mt_receipt := Some (pl_receipt p), mt_transactionDate := Some date,
       mt_callbackPayload := Some (pl_payload p)\<rparr>) s)"

text \<open>An account that is not found leaves everything as it is.\<close>

definition depositTx :: "env \<Rightarrow> ledger_params \<Rightarrow> string \<Rightarrow> db \<Rightarrow> (unit \<times> db) res" where
  "depositTx E p accountNumber s =
     (case findFirst (\<lambda>a. acc_accountNumber a = accountNumber \<and> acc_tenantId a = pl_tenantId p \<and> acc_isActive a)
        (accounts s) of
        None \<Rightarrow> Inr ((), s)
      | Some account \<Rightarrow>
        rbind (postEntry E True s (depositEntry p (acc_id account))) (\<lambda>((t, _), s1).
        rbind (settleMpesa p (tx_id t) s1) (\<lambda>s2.
        Inr ((), writeAudit (pl_tenantId p) ''SYSTEM'' ''MPESA.DEPOSIT.COMPLETED'' (pl_mpesaTxId p) s2))))"

definition repaymentInput :: "ledger_params \<Rightarrow> string \<Rightarrow> repayment_input" where
  "repaymentInput p loanNumber =
     \<lparr>ri_tenantId = pl_tenantId p, ri_amount = Some (pl_amount p), ri_reference = ''MPESA-'' @ pl_receipt p,
      ri_processedBy = ''MPESA_SYSTEM'', ri_memberId = pl_memberId p, ri_loanId = None,
      ri_loanNumber = Some loanNumber, ri_accountReference = Some (pl_accountReference p),
      ri_mpesaTxId = Some (pl_mpesaTxId p), ri_receipt = Some (pl_receipt p),
      ri_resultCode = Some (pl_resultCode p), ri_transactionDate = pl_transactionDate p,
      ri_callbackPayload = Some (pl_payload p)\<rparr>"

definition postLedgerEntry :: "env \<Rightarrow> int \<Rightarrow> ledger_params \<Rightarrow> db \<Rightarrow> unit res \<times> db" where
  "postLedgerEntry E now p s =
     (let parsed = parseReference (pl_accountReference p) in
      if pr_type parsed = ParsedRefType.LOAN_REPAYMENT then
        (if pl_transactionDate p = None
         then (Inl (InternalError ''Invalid Date''), writeAudit (pl_tenantId p) ''MPESA_SYSTEM''
            ''LOAN.REPAYMENT.FAILED'' (failureEntity (repaymentInput p (pr_target parsed))) s)
         else andThen (processRepayment E now s (repaymentInput p (pr_target parsed))) (\<lambda>r s1.
           (Inr (), createAuditOnce (pl_tenantId p) ''SYSTEM'' ''MPESA.LOAN_REPAYMENT.COMPLETED'' (pl_mpesaTxId p)
              (mpesaRequestId ''MPESA.LOAN_REPAYMENT.COMPLETED'' (pl_tenantId p) (pl_receipt p)) s1)))
      else andThen (committed s (rbind
          (if pr_isMemberIdDeposit parsed then resolveDefaultFosaByMember s (pr_target parsed) (pl_tenantId p)
           else Inr (pr_target parsed)) (\<lambda>n. Inr (n, s)))) (\<lambda>accountNumber s.
        committed s (depositTx E p accountNumber s)))"

section \<open>The result of a push request\<close>

definition failStk :: "stk_callback \<Rightarrow> mpesa_transaction \<Rightarrow> db \<Rightarrow> (unit \<times> db) res" where
  "failStk cb m s =
     (let (count, s1) = touchMpesa (\<lambda>x. mt_id x = mt_id m \<and> mt_status x = TransactionStatus.PENDING)
            (\<lambda>x. x\<lparr>mt_status := TransactionStatus.FAILED, mt_resultCode := Some (sc_resultCode cb),
               mt_callbackPayload := Some (StkPayload cb)\<rparr>) s
      in if count = 0 then Inr ((), s1)
         else rbind (auditAtomic (mt_tenantId m) ''SYSTEM'' ''MPESA.DEPOSIT.FAILED'' (mt_id m)
             (mpesaRequestId ''MPESA.DEPOSIT.FAILED'' (mt_tenantId m) (mt_id m)) s1) (\<lambda>s2. Inr ((), s2)))"

definition stkParams :: "int \<Rightarrow> stk_callback \<Rightarrow> mpesa_transaction \<Rightarrow> string \<Rightarrow> ledger_params" where
  "stkParams now cb m receipt =
     \<lparr>pl_tenantId = mt_tenantId m, pl_memberId = mt_memberId m,
      pl_accountReference = (case mt_accountReference m of None \<Rightarrow> '''' | Some r \<Rightarrow> r), pl_amount = mt_amount m,
      pl_receipt = receipt, pl_mpesaTxId = mt_id m, pl_payload = StkPayload cb, pl_resultCode = sc_resultCode cb,
      pl_transactionDate = (case entryOf ''TransactionDate'' (parseStkMeta (sc_items cb)) of
         None \<Rightarrow> Some now | Some ts \<Rightarrow> if ts = '''' then Some now else parseDarajaTimestamp now ts)\<rparr>"

text \<open>The second phase, with the row that the first phase has read.\<close>

definition applyStk :: "env \<Rightarrow> int \<Rightarrow> stk_callback \<Rightarrow> mpesa_transaction \<Rightarrow> db \<Rightarrow> unit res \<times> db" where
  "applyStk E now cb m s =
     (if sc_resultCode cb \<noteq> 0 then committed s (failStk cb m s)
      else (case entryOf ''MpesaReceiptNumber'' (parseStkMeta (sc_items cb)) of
          Some receipt \<Rightarrow> postLedgerEntry E now (stkParams now cb m receipt) s
        | None \<Rightarrow> postLedgerEntry E now (stkParams now cb m (uuid E (id_count s)))
            (s\<lparr>id_count := Suc (id_count s)\<rparr>)))"

definition handleStkCallback :: "env \<Rightarrow> int \<Rightarrow> stk_callback \<Rightarrow> db \<Rightarrow> unit res \<times> db" where
  "handleStkCallback E now cb s =
     (case findFirst (\<lambda>m. mt_checkoutRequestId m = Some (sc_checkoutRequestID cb)) (mpesaTransactions s) of
        None \<Rightarrow> (Inr (), s)
      | Some m \<Rightarrow> if mt_status m \<noteq> TransactionStatus.PENDING then (Inr (), s) else applyStk E now cb m s)"

section \<open>Direct payments\<close>

definition c2bRow :: "env \<Rightarrow> int \<Rightarrow> c2b_callback \<Rightarrow> rat \<Rightarrow> ident \<Rightarrow> int \<Rightarrow> mpesa_transaction" where
  "c2bRow E now cb amount tenantId date =
     \<lparr>mt_id = '''', mt_tenantId = tenantId, mt_transactionId = None, mt_checkoutRequestId = None,
      mt_phoneNumber = cb_msisdn cb, mt_amount = dp4 E amount, mt_status = TransactionStatus.PENDING,
      mt_resultCode = None, mt_receipt = Some (cb_transID cb), mt_callbackPayload = Some (C2bPayload cb),
      mt_createdAt = now, mt_accountReference = Some (cb_billRefNumber cb), mt_conversationId = None, mt_originatorConversationId = None,
      mt_loanId = None, mt_memberId = None, mt_reference = c2bReference (cb_transID cb),
      mt_transactionDate = Some date, mt_type = C2B, mt_failureReason = None, mt_referenceId = None,
      mt_referenceType = None, mt_providerSubmissionState = None, mt_providerSendAttemptedAt = None,
      mt_reconciliationDueAt = None, mt_reconciliationAttemptCount = 0, mt_reconciliationNextRetryAt = None,
      mt_reconciliationLockedAt = None, mt_reconciliationLockedBy = None, mt_manualReviewRequired = False,
      mt_manualReviewReason = None, mt_reconciliationLastReason = None\<rparr>"

text \<open>A payment that cannot be attributed is kept as failed, for reconciliation by hand.\<close>

definition rejectC2b ::
  "env \<Rightarrow> int \<Rightarrow> c2b_callback \<Rightarrow> rat \<Rightarrow> ident \<Rightarrow> ident option \<Rightarrow> int \<Rightarrow> db \<Rightarrow> (unit \<times> db) res" where
  "rejectC2b E now cb amount tenantId persistedTxId code s =
     rbind (required (InternalError ''Invalid Date'') (parseDarajaTimestamp now (cb_transTime cb))) (\<lambda>date.
     rbind (case persistedTxId of
         Some k \<Rightarrow> rbind (updateMpesa k (\<lambda>m. m\<lparr>mt_tenantId := tenantId, mt_status := TransactionStatus.FAILED,
             mt_resultCode := Some code, mt_callbackPayload := Some (C2bPayload cb),
             mt_transactionDate := Some date\<rparr>) s) (\<lambda>s1. Inr (k, s1))
       | None \<Rightarrow> rbind (createMpesa E ((c2bRow E now cb amount tenantId date)\<lparr>mt_status := TransactionStatus.FAILED,
             mt_resultCode := Some code\<rparr>) s) (\<lambda>(m, s1). Inr (mt_id m, s1))) (\<lambda>(k, s1).
     rbind (auditAtomic tenantId ''SYSTEM'' ''MPESA.C2B.REJECTED'' k
         (mpesaRequestId ''MPESA.C2B.REJECTED'' tenantId (cb_transID cb)) s1) (\<lambda>s2.
     Inr ((), s2))))"

definition claimC2b ::
  "env \<Rightarrow> int \<Rightarrow> c2b_callback \<Rightarrow> rat \<Rightarrow> account \<Rightarrow> ident option \<Rightarrow> db \<Rightarrow> (ident \<times> db) res" where
  "claimC2b E now cb amount account persistedTxId s =
     rbind (required (InternalError ''Invalid Date'') (parseDarajaTimestamp now (cb_transTime cb))) (\<lambda>date.
     (case persistedTxId of
        Some k \<Rightarrow> rbind (updateMpesa k (\<lambda>m. m\<lparr>mt_tenantId := acc_tenantId account,
            mt_memberId := Some (acc_memberId account), mt_type := C2B, mt_phoneNumber := cb_msisdn cb,
            mt_amount := dp4 E amount, mt_accountReference := Some (cb_billRefNumber cb),
            mt_receipt := Some (cb_transID cb), mt_reference := c2bReference (cb_transID cb),
            mt_status := TransactionStatus.PENDING, mt_callbackPayload := Some (C2bPayload cb),
            mt_transactionDate := Some date\<rparr>) s) (\<lambda>s1. Inr (k, s1))
      | None \<Rightarrow> rbind (createMpesa E ((c2bRow E now cb amount (acc_tenantId account) date)
            \<lparr>mt_memberId := Some (acc_memberId account)\<rparr>) s) (\<lambda>(m, s1). Inr (mt_id m, s1))))"

definition c2bParams :: "int \<Rightarrow> c2b_callback \<Rightarrow> rat \<Rightarrow> account \<Rightarrow> ident \<Rightarrow> ledger_params" where
  "c2bParams now cb amount account k =
     \<lparr>pl_tenantId = acc_tenantId account, pl_memberId = Some (acc_memberId account),
      pl_accountReference = cb_billRefNumber cb, pl_amount = amount, pl_receipt = cb_transID cb, pl_mpesaTxId = k,
      pl_payload = C2bPayload cb, pl_resultCode = 0, pl_transactionDate = parseDarajaTimestamp now (cb_transTime cb)\<rparr>"

definition ignoreUnique :: "unit res \<times> db \<Rightarrow> unit res \<times> db" where
  "ignoreUnique r = (case r of (Inl (UniqueConstraintViolation c), s) \<Rightarrow> (Inr (), s) | _ \<Rightarrow> r)"

definition handleC2bCallback ::
  "env \<Rightarrow> int \<Rightarrow> c2b_callback \<Rightarrow> ident option \<Rightarrow> ident option \<Rightarrow> db \<Rightarrow> unit res \<times> db" where
  "handleC2bCallback E now cb resolvedTenantId persistedTxId s =
     (let existing = findFirst (\<lambda>m. mt_receipt m = Some (cb_transID cb)) (mpesaTransactions s);
          duplicate = (case existing of None \<Rightarrow> False
            | Some m \<Rightarrow> Some (mt_id m) \<noteq> persistedTxId \<or> mt_status m \<noteq> TransactionStatus.PENDING);
          tenant = (case resolvedTenantId of None \<Rightarrow> None
            | Some t \<Rightarrow> if t = '''' \<or> t = ''resolve-in-processor'' then None else Some t);
          fallbackTenantId = (case tenant of None \<Rightarrow> ''UNRESOLVED'' | Some t \<Rightarrow> t)
      in if duplicate then (Inr (), s)
         else case decimalOf (cb_transAmount cb) of
           None \<Rightarrow> (Inl (InternalError ''Invalid decimal''), s)
         | Some amount \<Rightarrow>
           ignoreUnique (case filter (\<lambda>a. acc_accountNumber a = cb_billRefNumber cb \<and>
               (case tenant of None \<Rightarrow> True | Some t \<Rightarrow> acc_tenantId a = t)) (accounts s) of
             [] \<Rightarrow> committed s (rejectC2b E now cb amount fallbackTenantId persistedTxId 9999 s)
           | [account] \<Rightarrow>
               andThen (committed s (claimC2b E now cb amount account persistedTxId s)) (\<lambda>k s1.
               postLedgerEntry E now (c2bParams now cb amount account k) s1)
           | _ \<Rightarrow> committed s (rejectC2b E now cb amount fallbackTenantId persistedTxId 9998 s)))"

section \<open>The result of a payout\<close>

definition markB2cCallbackMismatch :: "b2c_result \<Rightarrow> mpesa_transaction \<Rightarrow> db \<Rightarrow> (unit \<times> db) res" where
  "markB2cCallbackMismatch cb m s =
     (let (count, s1) = touchMpesa (\<lambda>x. mt_id x = mt_id m \<and> openStatus x)
            (\<lambda>x. x\<lparr>mt_status := TransactionStatus.RECON_PENDING, mt_resultCode := Some (br_resultCode cb),
               mt_failureReason := Some ''B2C_CALLBACK_MISMATCH'', mt_callbackPayload := Some (B2cPayload cb)\<rparr>) s
      in if count = 0 then Inr ((), s1)
         else rbind (auditAtomic (mt_tenantId m) ''SYSTEM'' ''MPESA.DISBURSEMENT.CALLBACK_MISMATCH'' (mt_id m)
             (mpesaRequestId ''MPESA.DISBURSEMENT.CALLBACK_MISMATCH'' (mt_tenantId m)
                (mt_id m @ ''.'' @ br_transactionID cb)) s1) (\<lambda>s2. Inr ((), s2)))"

definition failedB2c :: "b2c_result \<Rightarrow> mpesa_transaction \<Rightarrow> mpesa_transaction" where
  "failedB2c cb x = x\<lparr>mt_status := TransactionStatus.FAILED, mt_resultCode := Some (br_resultCode cb),
     mt_callbackPayload := Some (B2cPayload cb)\<rparr>"

definition refundB2c :: "env \<Rightarrow> b2c_result \<Rightarrow> mpesa_transaction \<Rightarrow> ident \<Rightarrow> db \<Rightarrow> (unit \<times> db) res" where
  "refundB2c E cb m original s =
     (let (count, s1) = touchMpesa (\<lambda>x. mt_id x = mt_id m \<and> openStatus x) (failedB2c cb) s
      in if count = 0 then Inr ((), s1)
         else rbind (reverseTransaction E True s1 (mt_tenantId m) original None) (\<lambda>(_, s2).
           Inr ((), writeAudit (mt_tenantId m) ''SYSTEM'' ''MPESA.DISBURSEMENT.FAILED_REFUNDED'' (mt_id m) s2)))"

definition NO_LINKED_LEDGER :: string where
  "NO_LINKED_LEDGER = ''B2C_FAILURE_NO_LINKED_LEDGER_TRANSACTION''"

definition reviewB2c :: "b2c_result \<Rightarrow> mpesa_transaction \<Rightarrow> db \<Rightarrow> (unit \<times> db) res" where
  "reviewB2c cb m s =
     (let (count, s1) = touchMpesa (\<lambda>x. mt_id x = mt_id m \<and> openStatus x \<and> mt_failureReason x \<noteq> Some NO_LINKED_LEDGER)
            (\<lambda>x. x\<lparr>mt_status := TransactionStatus.RECON_PENDING, mt_resultCode := Some (br_resultCode cb),
               mt_failureReason := Some NO_LINKED_LEDGER, mt_callbackPayload := Some (B2cPayload cb)\<rparr>) s
      in if count = 0 then Inr ((), s1)
         else rbind (auditAtomic (mt_tenantId m) ''SYSTEM'' ''MPESA.DISBURSEMENT.FAILURE_MANUAL_REVIEW_REQUIRED''
             (mt_id m) (mpesaRequestId ''MPESA.DISBURSEMENT.FAILURE_MANUAL_REVIEW_REQUIRED'' (mt_tenantId m) (mt_id m)) s1)
           (\<lambda>s2. Inr ((), s2)))"

definition failB2c :: "b2c_result \<Rightarrow> mpesa_transaction \<Rightarrow> db \<Rightarrow> (unit \<times> db) res" where
  "failB2c cb m s =
     (let (count, s1) = touchMpesa (\<lambda>x. mt_id x = mt_id m \<and> openStatus x) (failedB2c cb) s
      in if count = 0 then Inr ((), s1)
         else rbind (auditAtomic (mt_tenantId m) ''SYSTEM'' ''MPESA.DISBURSEMENT.FAILED'' (mt_id m)
             (mpesaRequestId ''MPESA.DISBURSEMENT.FAILED'' (mt_tenantId m) (mt_id m)) s1) (\<lambda>s2. Inr ((), s2)))"

text \<open>The flag says whether the row was still open.\<close>

definition completeB2c ::
  "int \<Rightarrow> b2c_result \<Rightarrow> mpesa_transaction \<Rightarrow> string \<Rightarrow> int option \<Rightarrow> db \<Rightarrow> (bool \<times> db) res" where
  "completeB2c now cb m receipt completedAt s =
     rbind (required (InternalError ''Invalid Date'') completedAt) (\<lambda>date.
     rbind (writeMpesa (\<lambda>x. mt_id x = mt_id m \<and> openStatus x)
       (\<lambda>x. x\<lparr>mt_status := TransactionStatus.COMPLETED, mt_resultCode := Some (br_resultCode cb),
          mt_receipt := Some receipt, mt_transactionDate := Some date,
          mt_callbackPayload := Some (B2cPayload cb)\<rparr>) s) (\<lambda>(count, s1).
     if count = 0 then Inr (False, s1)
     else Inr (True, writeAudit (mt_tenantId m) ''SYSTEM'' ''MPESA.DISBURSEMENT.COMPLETED'' (mt_id m) s1)))"

definition fosaOf :: "db \<Rightarrow> ident \<Rightarrow> ident \<Rightarrow> account option" where
  "fosaOf s memberId tenantId = findFirst (\<lambda>a. acc_memberId a = memberId \<and> acc_tenantId a = tenantId \<and>
     acc_accountType a = FOSA \<and> acc_isActive a) (accounts s)"

definition postDisbursementLedger :: "env \<Rightarrow> ledger_params \<Rightarrow> ident \<Rightarrow> db \<Rightarrow> (bool \<times> db) res" where
  "postDisbursementLedger E p loanId s =
     (case findFirst (\<lambda>l. ln_id l = loanId) (loans s) of
        None \<Rightarrow> Inr (False, s)
      | Some loan \<Rightarrow>
        rbind (required (InternalError ''No active FOSA account for member'')
          (fosaOf s (ln_memberId loan) (pl_tenantId p))) (\<lambda>fosa.
        rbind (postEntry E True s
          \<lparr>ep_tenantId = pl_tenantId p, ep_reference = ''MPESA-B2C-'' @ pl_receipt p,
           ep_journalType = JournalEntryType.LOAN_DISBURSEMENT, ep_accountId = acc_id fosa, ep_amount = pl_amount p,
           ep_direction = CREDIT, ep_actorId = None, ep_linkedTransactionId = None, ep_loanId = Some loanId\<rparr>)
          (\<lambda>((t, _), s1).
        rbind (required (InternalError ''Invalid Date'') (pl_transactionDate p)) (\<lambda>date.
        rbind (if ln_status loan = LoanStatus.APPROVED then updateLoan loanId
            (\<lambda>l. l\<lparr>ln_status := LoanStatus.DISBURSED, ln_disbursedAt := Some date\<rparr>) s1 else Inr s1) (\<lambda>s2.
        rbind (settleMpesa p (tx_id t) s2) (\<lambda>s3. Inr (True, s3)))))))"

definition b2cParams :: "b2c_result \<Rightarrow> mpesa_transaction \<Rightarrow> string \<Rightarrow> int option \<Rightarrow> ledger_params" where
  "b2cParams cb m receipt completedAt =
     \<lparr>pl_tenantId = mt_tenantId m, pl_memberId = mt_memberId m, pl_accountReference = '''', pl_amount = mt_amount m,
      pl_receipt = receipt, pl_mpesaTxId = mt_id m, pl_payload = B2cPayload cb, pl_resultCode = br_resultCode cb,
      pl_transactionDate = completedAt\<rparr>"

text \<open>The answer for a row \<open>m\<close> that has been read before.\<close>

definition applyB2c ::
  "env \<Rightarrow> int \<Rightarrow> (string \<Rightarrow> int option) \<Rightarrow> b2c_result \<Rightarrow> mpesa_transaction \<Rightarrow> db \<Rightarrow> unit res \<times> db" where
  "applyB2c E now jsDate cb m s =
     (let meta = parseB2cResultMeta (br_parameters cb) in
      case findB2cCallbackMismatches E m meta of
        Inl e \<Rightarrow> (Inl e, s)
      | Inr (_ # _) \<Rightarrow> committed s (markB2cCallbackMismatch cb m s)
      | Inr [] \<Rightarrow>
        if br_resultCode cb \<noteq> 0 then
          (if mt_referenceType m = Some ''FOSA_WITHDRAWAL'' \<and> mt_transactionId m \<noteq> None
           then committed s (refundB2c E cb m (the (mt_transactionId m)) s)
           else if mt_referenceType m = Some ''FOSA_WITHDRAWAL'' \<and> mt_referenceId m \<noteq> None
           then committed s (reviewB2c cb m s)
           else committed s (failB2c cb m s))
        else
          (let receipt = (case entryOf ''TransactionReceipt'' meta of Some r \<Rightarrow> r | None \<Rightarrow> br_transactionID cb);
               completedAt = (case entryOf ''TransactionCompletedDateTime'' meta of
                 None \<Rightarrow> Some now | Some d \<Rightarrow> if d = '''' then Some now else jsDate d)
           in if mt_referenceType m = Some ''FOSA_WITHDRAWAL'' then
                andThen (committed s (completeB2c now cb m receipt completedAt s)) (\<lambda>claimed s1.
                (Inr (), if claimed then s1
                  else createAuditOnce (mt_tenantId m) ''SYSTEM'' ''MPESA.WITHDRAWAL.LATE_SUCCESS_AFTER_AUTO_REFUND''
                    (mt_id m) (mpesaRequestId ''MPESA.WITHDRAWAL.LATE_SUCCESS_AFTER_AUTO_REFUND'' (mt_tenantId m)
                      (mt_id m @ ''.'' @ receipt)) s1))
              else case mt_loanId m of
                Some loanId \<Rightarrow>
                  andThen (committed s (postDisbursementLedger E (b2cParams cb m receipt completedAt) loanId s)) (\<lambda>posted s1.
                  (Inr (), if posted then createAuditOnce (mt_tenantId m) ''SYSTEM'' ''MPESA.DISBURSEMENT.COMPLETED''
                      (mt_id m) (mpesaRequestId ''MPESA.DISBURSEMENT.COMPLETED'' (mt_tenantId m) (mt_id m)) s1
                    else s1))
              | None \<Rightarrow> (Inr (), s)))"

definition handleB2cCallback ::
  "env \<Rightarrow> int \<Rightarrow> (string \<Rightarrow> int option) \<Rightarrow> b2c_result \<Rightarrow> db \<Rightarrow> unit res \<times> db" where
  "handleB2cCallback E now jsDate cb s =
     (case findFirst (\<lambda>m. mt_conversationId m = Some (br_conversationID cb)) (mpesaTransactions s) of
        None \<Rightarrow> (Inr (), s)
      | Some m \<Rightarrow> if \<not> openStatus m then (Inr (), s) else applyB2c E now jsDate cb m s)"

section \<open>The worker and its inbox\<close>

definition updateInbox :: "ident \<Rightarrow> (callback_inbox \<Rightarrow> callback_inbox) \<Rightarrow> db \<Rightarrow> db" where
  "updateInbox k f s = s\<lparr>callbackInbox := fst (updateMany (\<lambda>i. ci_id i = k) f (callbackInbox s))\<rparr>"

definition handlePayload ::
  "env \<Rightarrow> int \<Rightarrow> (string \<Rightarrow> int option) \<Rightarrow> callback_payload \<Rightarrow> ident \<Rightarrow> ident option \<Rightarrow> db \<Rightarrow> unit res \<times> db" where
  "handlePayload E now jsDate payload tenantId mpesaTransactionId s =
     (case payload of
        StkPayload cb \<Rightarrow> handleStkCallback E now cb s
      | C2bPayload cb \<Rightarrow> handleC2bCallback E now cb (Some tenantId) mpesaTransactionId s
      | B2cPayload cb \<Rightarrow> handleB2cCallback E now jsDate cb s
      | OtherPayload \<Rightarrow> (Inr (), s))"

text \<open>A failure is noted in the inbox, to be tried again in a minute, and thrown on.\<close>

definition finishInbox :: "int \<Rightarrow> ident option \<Rightarrow> unit res \<times> db \<Rightarrow> unit res \<times> db" where
  "finishInbox now inboxId r =
     (case inboxId of
        None \<Rightarrow> r
      | Some k \<Rightarrow>
        (case r of
           (Inr _, s) \<Rightarrow> (Inr (), updateInbox k (\<lambda>i. i\<lparr>ci_status := OutboxStatus.DELIVERED,
             ci_nextRetryAt := None, ci_updatedAt := now\<rparr>) s)
         | (Inl e, s) \<Rightarrow> (Inl e, updateInbox k (\<lambda>i. i\<lparr>ci_status := OutboxStatus.FAILED,
             ci_attempts := ci_attempts i + 1, ci_nextRetryAt := Some (now + 60000), ci_updatedAt := now\<rparr>) s)))"

definition processCallback ::
  "env \<Rightarrow> int \<Rightarrow> (string \<Rightarrow> int option) \<Rightarrow> callback_job \<Rightarrow> db \<Rightarrow> unit res \<times> db" where
  "processCallback E now jsDate j s =
     (let run = (\<lambda>payload tenantId mpesaTransactionId.
            finishInbox now (kj_callbackInboxId j) (handlePayload E now jsDate payload tenantId mpesaTransactionId s));
          withoutInbox = (case kj_callbackPayload j of
              Some payload \<Rightarrow> run payload (kj_tenantId j) (kj_mpesaTransactionId j)
            | None \<Rightarrow>
                (case kj_mpesaTransactionId j of
                   None \<Rightarrow> (Inl (InternalError ''M-Pesa callback job has no payload''), s)
                 | Some k \<Rightarrow>
                   (case mpesaById s k of
                      None \<Rightarrow> (Inl (InternalError ''M-Pesa callback payload not found''), s)
                    | Some m \<Rightarrow>
                      (case mt_callbackPayload m of
                         None \<Rightarrow> (Inl (InternalError ''M-Pesa callback payload not found''), s)
                       | Some payload \<Rightarrow> run payload (mt_tenantId m) (Some k)))))
      in case kj_callbackInboxId j of
           None \<Rightarrow> withoutInbox
         | Some k \<Rightarrow>
           (case findFirst (\<lambda>i. ci_id i = k) (callbackInbox s) of
              None \<Rightarrow> (Inl (InternalError ''M-Pesa callback inbox row not found''), s)
            | Some inbox \<Rightarrow>
              if ci_status inbox = OutboxStatus.DELIVERED then (Inr (), s)
              else run (ci_payload inbox) (ci_tenantId inbox)
                (coalesce (ci_mpesaTransactionId inbox) (kj_mpesaTransactionId j))))"

definition callbackUniqueKey :: "ident \<Rightarrow> string \<Rightarrow> string \<Rightarrow> string" where
  "callbackUniqueKey tenantId callbackType uniqueId = ''MPESA:'' @ tenantId @ '':'' @ callbackType @ '':'' @ uniqueId"

definition upsertInbox ::
  "env \<Rightarrow> int \<Rightarrow> ident \<Rightarrow> ident \<Rightarrow> string \<Rightarrow> string \<Rightarrow> callback_payload \<Rightarrow> db \<Rightarrow> (ident \<times> db) res" where
  "upsertInbox E now tenantId mpesaTxId callbackType uniqueId payload s =
     (let key = callbackUniqueKey tenantId callbackType uniqueId in
      case findFirst (\<lambda>i. ci_uniqueKey i = key) (callbackInbox s) of
        Some inbox \<Rightarrow> Inr (ci_id inbox, updateInbox (ci_id inbox)
          (\<lambda>i. i\<lparr>ci_payload := payload, ci_mpesaTransactionId := Some mpesaTxId, ci_updatedAt := now\<rparr>) s)
      | None \<Rightarrow> Inr (uuid E (id_count s), s\<lparr>callbackInbox := callbackInbox s @
          [\<lparr>ci_id = uuid E (id_count s), ci_tenantId = tenantId, ci_callbackType = callbackType,
            ci_providerUniqueId = uniqueId, ci_uniqueKey = key, ci_payload = payload,
            ci_mpesaTransactionId = Some mpesaTxId, ci_status = OutboxStatus.PENDING, ci_attempts = 0,
            ci_nextRetryAt = None, ci_updatedAt = now\<rparr>], id_count := Suc (id_count s)\<rparr>))"

definition persistCallbackPayload ::
  "env \<Rightarrow> int \<Rightarrow> callback_payload \<Rightarrow> string \<Rightarrow> string \<Rightarrow> ident \<Rightarrow> db \<Rightarrow> (ident \<times> db) res" where
  "persistCallbackPayload E now payload callbackType uniqueId tenantId s =
     (let resolvedTenantId = (if tenantId \<noteq> '''' \<and> tenantId \<noteq> ''resolve-in-processor'' then tenantId else ''UNRESOLVED'');
          store = (\<lambda>m s. upsertInbox E now (mt_tenantId m) (mt_id m) callbackType uniqueId payload s);
          known = (\<lambda>found. rbind (required (InternalError ''callback has no MpesaTransaction'') found) (\<lambda>m.
            store m (snd (touchMpesa (\<lambda>x. mt_id x = mt_id m) (\<lambda>x. x\<lparr>mt_callbackPayload := Some payload\<rparr>) s))))
      in case payload of
           StkPayload cb \<Rightarrow> known (findFirst (\<lambda>m. mt_checkoutRequestId m = Some (sc_checkoutRequestID cb)) (mpesaTransactions s))
         | B2cPayload cb \<Rightarrow> known (findFirst (\<lambda>m. mt_conversationId m = Some (br_conversationID cb) \<or>
             mt_originatorConversationId m = Some (br_originatorConversationID cb)) (mpesaTransactions s))
         | C2bPayload cb \<Rightarrow>
             rbind (required (InternalError ''Invalid decimal'') (decimalOf (cb_transAmount cb))) (\<lambda>amount.
             rbind (required (InternalError ''Invalid Date'') (parseDarajaTimestamp now (cb_transTime cb))) (\<lambda>date.
             (case findFirst (\<lambda>m. mt_reference m = c2bReference (cb_transID cb)) (mpesaTransactions s) of
                Some m \<Rightarrow> store m (snd (touchMpesa (\<lambda>x. mt_id x = mt_id m)
                  (\<lambda>x. x\<lparr>mt_callbackPayload := Some payload, mt_transactionDate := Some date\<rparr>) s))
              | None \<Rightarrow> rbind (createMpesa E (c2bRow E now cb amount resolvedTenantId date) s) (\<lambda>(m, s1). store m s1))))
         | OtherPayload \<Rightarrow> Inl (InternalError ''Unsupported M-Pesa callback structure''))"

definition safeJobChar :: "char \<Rightarrow> char" where
  "safeJobChar c = (let n = of_char c :: nat in
     if (65 \<le> n \<and> n \<le> 90) \<or> (97 \<le> n \<and> n \<le> 122) \<or> isDigit c \<or> c \<in> set ''_.:-'' then c else CHR ''-'')"

definition callbackJobId :: "callback_inbox \<Rightarrow> string" where
  "callbackJobId i = map safeJobChar (''mpesa-callback-'' @ ci_tenantId i @ ''-'' @ ci_callbackType i @ ''-'' @
     ci_providerUniqueId i)"

definition addCallbackJob :: "callback_job \<Rightarrow> db \<Rightarrow> db" where
  "addCallbackJob j s = (if \<exists>x \<in> set (callbackQueue s). kj_jobId x = kj_jobId j then s
     else s\<lparr>callbackQueue := callbackQueue s @ [j]\<rparr>)"

definition CALLBACK_RETRY_DELAY_MS :: int where "CALLBACK_RETRY_DELAY_MS = 60000"

definition enqueueCallbackInbox :: "int \<Rightarrow> bool \<Rightarrow> ident \<Rightarrow> db \<Rightarrow> bool \<times> db" where
  "enqueueCallbackInbox now queueUp inboxId s =
     (case findFirst (\<lambda>i. ci_id i = inboxId) (callbackInbox s) of
        None \<Rightarrow> (False, s)
      | Some inbox \<Rightarrow>
        if ci_status inbox = OutboxStatus.DELIVERED then (False, s)
        else if queueUp then
          (True, updateInbox inboxId (\<lambda>i. i\<lparr>ci_status := OutboxStatus.PROCESSING, ci_nextRetryAt := None, ci_updatedAt := now\<rparr>)
            (addCallbackJob \<lparr>kj_jobId = callbackJobId inbox, kj_tenantId = ci_tenantId inbox,
               kj_mpesaTransactionId = ci_mpesaTransactionId inbox, kj_callbackInboxId = Some inboxId,
               kj_callbackPayload = None, kj_callbackType = ci_callbackType inbox\<rparr> s))
        else (False, updateInbox inboxId (\<lambda>i. i\<lparr>ci_status := OutboxStatus.FAILED, ci_attempts := ci_attempts i + 1,
            ci_nextRetryAt := Some (now + CALLBACK_RETRY_DELAY_MS), ci_updatedAt := now\<rparr>) s))"

definition enqueueCallback ::
  "env \<Rightarrow> int \<Rightarrow> bool \<Rightarrow> callback_payload \<Rightarrow> string \<Rightarrow> string \<Rightarrow> ident \<Rightarrow> db \<Rightarrow> unit res \<times> db" where
  "enqueueCallback E now queueUp payload callbackType uniqueId tenantId s =
     andThen (committed s (persistCallbackPayload E now payload callbackType uniqueId tenantId s)) (\<lambda>inboxId s1.
     (Inr (), snd (enqueueCallbackInbox now queueUp inboxId s1)))"

definition dueInbox :: "int \<Rightarrow> callback_inbox \<Rightarrow> bool" where
  "dueInbox now i \<longleftrightarrow>
     (ci_status i \<in> {OutboxStatus.PENDING, OutboxStatus.FAILED} \<and>
        (case ci_nextRetryAt i of None \<Rightarrow> True | Some d \<Rightarrow> d \<le> now)) \<or>
     (ci_status i = OutboxStatus.PROCESSING \<and> ci_updatedAt i < now - 5 * 60000)"

definition dispatchPendingCallbackInbox :: "int \<Rightarrow> (ident \<Rightarrow> bool) \<Rightarrow> nat \<Rightarrow> db \<Rightarrow> nat \<times> db" where
  "dispatchPendingCallbackInbox now queueUp limit s =
     fold (\<lambda>i (queued, s). let (q, s') = enqueueCallbackInbox now (queueUp (ci_id i)) (ci_id i) s
         in (if q then queued + 1 else queued, s'))
       (take limit (filter (dueInbox now) (callbackInbox s))) (0, s)"

section \<open>Requests for a deposit\<close>

text \<open>\<open>Math.round\<close>, and the request: \<open>daraja\<close> answers with the identifier of the push, or not at all.\<close>

definition mathRound :: "rat \<Rightarrow> int" where "mathRound x = \<lfloor>x + 1 / 2\<rfloor>"

definition verifyAccountRef :: "db \<Rightarrow> DepositPurpose \<Rightarrow> string \<Rightarrow> ident \<Rightarrow> unit res" where
  "verifyAccountRef s purpose accountRef tenantId =
     (if purpose = DepositPurpose.LOAN_REPAYMENT
      then rbind (validateLoanForRepayment s accountRef tenantId) (\<lambda>_. Inr ())
      else rbind (required (NotFoundException ''Account not found or inactive'')
        (findFirst (\<lambda>a. acc_accountNumber a = accountRef \<and> acc_tenantId a = tenantId \<and> acc_isActive a) (accounts s)))
        (\<lambda>_. Inr ()))"

definition stkRow :: "env \<Rightarrow> int \<Rightarrow> ident \<Rightarrow> ident \<Rightarrow> ident option \<Rightarrow> string \<Rightarrow> string \<Rightarrow> rat \<Rightarrow> string \<Rightarrow> mpesa_transaction" where
  "stkRow E now tenantId memberId loanId checkoutRequestId phone amount accountRef =
     \<lparr>mt_id = '''', mt_tenantId = tenantId, mt_transactionId = None, mt_checkoutRequestId = Some checkoutRequestId,
      mt_phoneNumber = phone, mt_amount = dp4 E amount, mt_status = TransactionStatus.PENDING,
      mt_resultCode = None, mt_receipt = None, mt_callbackPayload = None, mt_createdAt = now,
      mt_accountReference = Some accountRef, mt_conversationId = None, mt_originatorConversationId = None, mt_loanId = loanId,
      mt_memberId = Some memberId, mt_reference = stkReference checkoutRequestId, mt_transactionDate = None,
      mt_type = STK_PUSH, mt_failureReason = None, mt_referenceId = None, mt_referenceType = None,
      mt_providerSubmissionState = None, mt_providerSendAttemptedAt = None, mt_reconciliationDueAt = None,
      mt_reconciliationAttemptCount = 0, mt_reconciliationNextRetryAt = None, mt_reconciliationLockedAt = None,
      mt_reconciliationLockedBy = None, mt_manualReviewRequired = False, mt_manualReviewReason = None,
      mt_reconciliationLastReason = None\<rparr>"

datatype deposit_reservation = COMPLETED "string \<times> ident" | PROCESSING | RESERVED

definition initiateDeposit ::
  "env \<Rightarrow> int \<Rightarrow> (string \<Rightarrow> deposit_reservation) \<Rightarrow> int \<Rightarrow> int \<Rightarrow> (string \<Rightarrow> int \<Rightarrow> string \<Rightarrow> string option) \<Rightarrow> db \<Rightarrow>
   string \<Rightarrow> rat \<Rightarrow> DepositPurpose \<Rightarrow> string \<Rightarrow> ident \<Rightarrow> ident \<Rightarrow> string option \<Rightarrow> (string \<times> ident) res \<times> db" where
  "initiateDeposit E now reserve currentCount maxPerDay daraja s phone amount purpose accountRef tenantId userId idempotencyKey =
     (let key = (case idempotencyKey of None \<Rightarrow> '''' | Some k \<Rightarrow> trim k) in
      if key = '''' then (Inl (BadRequestException ''IDEMPOTENCY_KEY_REQUIRED''), s)
      else case findFirst (\<lambda>m. mb_userId m = userId \<and> mb_tenantId m = tenantId) (members s) of
        None \<Rightarrow> (Inl (BadRequestException ''No member profile found for this user''), s)
      | Some member \<Rightarrow>
        (case reserve (''mpesa:stk:'' @ tenantId @ '':'' @ mb_id member @ '':'' @ key) of
           COMPLETED r \<Rightarrow> (Inr r, s)
         | PROCESSING \<Rightarrow> (Inl (BadRequestException ''STK push request is already processing''), s)
         | RESERVED \<Rightarrow>
           if maxPerDay < currentCount then (Inl (BadRequestException ''STK Push limit reached''), s)
           else
             (let ref = buildAccountRef purpose accountRef in
              case verifyAccountRef s purpose ref tenantId of
                Inl e \<Rightarrow> (Inl e, s)
              | Inr _ \<Rightarrow>
                (case daraja phone (mathRound amount) ref of
                   None \<Rightarrow> (Inl (InternalError ''Daraja request failed''), s)
                 | Some checkoutRequestId \<Rightarrow>
                   andThen (committed s (createMpesa E (stkRow E now tenantId (mb_id member) None checkoutRequestId
                       phone amount ref) s)) (\<lambda>m s1.
                   (Inr (checkoutRequestId, mt_id m),
                    writeAudit tenantId userId ''MPESA.DEPOSIT.INITIATED'' (mt_id m) s1))))))"

definition initiateScheduledStkPush ::
  "env \<Rightarrow> int \<Rightarrow> (string \<Rightarrow> rat \<Rightarrow> string \<Rightarrow> string option) \<Rightarrow> db \<Rightarrow> ident \<Rightarrow> ident \<Rightarrow> ident \<Rightarrow> string \<Rightarrow> rat \<Rightarrow> string \<Rightarrow>
   (string \<times> ident) res \<times> db" where
  "initiateScheduledStkPush E now daraja s loanId memberId tenantId phone amount accountReference =
     (case daraja phone amount accountReference of
        None \<Rightarrow> (Inl (InternalError ''Daraja request failed''), s)
      | Some checkoutRequestId \<Rightarrow>
        andThen (committed s (createMpesa E (stkRow E now tenantId memberId (Some loanId) checkoutRequestId phone
            amount accountReference) s)) (\<lambda>m s1. (Inr (checkoutRequestId, mt_id m), s1)))"

section \<open>Deposits without an answer\<close>

definition STK_TIMEOUT_MS :: int where "STK_TIMEOUT_MS = 2 * 60 * 1000"

definition cleanupStaleStkTransactions :: "int \<Rightarrow> db \<Rightarrow> nat \<times> db" where
  "cleanupStaleStkTransactions now s =
     touchMpesa (\<lambda>m. mt_type m = STK_PUSH \<and> mt_status m = TransactionStatus.PENDING \<and> mt_createdAt m < now - STK_TIMEOUT_MS)
       (\<lambda>m. m\<lparr>mt_status := TransactionStatus.FAILED, mt_resultCode := Some 17\<rparr>) s"

definition stkExpiryProcess :: "int \<Rightarrow> db \<Rightarrow> nat \<times> db" where
  "stkExpiryProcess now s =
     touchMpesa (\<lambda>m. mt_status m = TransactionStatus.PENDING \<and> mt_type m = STK_PUSH \<and> mt_createdAt m < now - 10 * 60 * 1000)
       (\<lambda>m. m\<lparr>mt_status := TransactionStatus.FAILED, mt_failureReason := Some ''STK_TIMEOUT_SWEEP''\<rparr>) s"

end
