(* ===== verification/Mpesa_Reconciliation.thy ===== *)
theory Mpesa_Reconciliation
  imports Mpesa_Callbacks
begin

text \<open>
  Open cases of mobile money: the job that ends the wait for the answer to a payout
  (\<open>src/src/modules/mpesa/processors/mpesa-b2c-timeout.processor.ts\<close>), the reconciliation of withdrawals by
  the sweep and by hand (\<open>mpesa/withdrawal-reconciliation.service.ts\<close>), the daily comparison with the
  ledger (\<open>financial/reconciliation.service.ts\<close>) and the attribution of an unknown payment to an account
  (\<open>matchMpesaTransaction\<close> of \<open>accounting/accounting.service.ts\<close>).

  The thresholds of the configuration are the record \<open>recon_config\<close>. The listing of open cases and the
  gauges are not modelled, nor are the Json columns of an attempt.
\<close>

section \<open>No answer to a payout\<close>

definition timeoutTx :: "timeout_job \<Rightarrow> db \<Rightarrow> (bool \<times> db) res" where
  "timeoutTx j s =
     (let mark = (\<lambda>m s. snd (touchMpesa (\<lambda>x. mt_id x = mt_id m)
            (\<lambda>x. x\<lparr>mt_status := TransactionStatus.RECON_PENDING, mt_failureReason := Some ''B2C_TIMEOUT''\<rparr>) s))
      in case findFirst (\<lambda>m. mt_tenantId m = tj_tenantId j \<and> mt_conversationId m = Some (tj_conversationId j) \<and>
           mt_referenceId m = Some (tj_referenceId j) \<and> mt_referenceType m = Some (tj_referenceType j) \<and>
           mt_status m = TransactionStatus.PENDING) (mpesaTransactions s) of
         None \<Rightarrow> Inr (False, s)
       | Some m \<Rightarrow>
         if tj_referenceType j = ''LOAN_DISBURSEMENT'' then
           (let loanId = (case mt_loanId m of Some l \<Rightarrow> l | None \<Rightarrow> tj_referenceId j) in
            case findFirst (\<lambda>l. ln_id l = loanId \<and> ln_tenantId l = tj_tenantId j) (loans s) of
              None \<Rightarrow> Inr (False, s)
            | Some loan \<Rightarrow>
              if ln_status loan = LoanStatus.DISBURSED \<or> ln_status loan = LoanStatus.APPROVED then
                rbind (updateLoan loanId (\<lambda>l. if ln_status loan = LoanStatus.DISBURSED
                    then l\<lparr>ln_status := LoanStatus.APPROVED\<rparr> else l) s) (\<lambda>s1.
                Inr (True, writeAudit (tj_tenantId j) '''' ''B2C_TIMEOUT_REVERT'' loanId (mark m s1)))
              else Inr (False, s))
         else Inr (True, writeAudit (tj_tenantId j) '''' ''B2C_TIMEOUT_REVERT'' (mt_id m) (mark m s)))"

definition processTimeoutJob :: "env \<Rightarrow> provider \<Rightarrow> int \<Rightarrow> timeout_job \<Rightarrow> db \<Rightarrow> bool res \<times> db" where
  "processTimeoutJob E pv now j s =
     andThen (refreshMwaloniB2cStatusByConversation E pv now (tj_tenantId j) (tj_conversationId j) s)
       (\<lambda>(refreshed, terminal, status) s1. if terminal then (Inr False, s1) else committed s1 (timeoutTx j s1))"

section \<open>Cases of one withdrawal\<close>

record recon_config =
  rc_pendingThresholdMs :: int
  rc_retryIntervalMs :: int
  rc_staleOutboxMs :: int
  rc_manualReviewMs :: int
  rc_lockTtlMs :: int
  rc_maxAttempts :: nat

definition PROVIDER_CONTACT_STATES :: "string list" where
  "PROVIDER_CONTACT_STATES = [SEND_ATTEMPTED, ACCEPTED_STATE, OUTCOME_UNKNOWN, COMPLETED_STATE, FAILED_STATE]"

datatype ReconTrigger = AUTOMATED | MANUAL_REFRESH | MANUAL_COMPLETE | MANUAL_REVERSE

fun triggerName :: "ReconTrigger \<Rightarrow> string" where
  "triggerName AUTOMATED = ''AUTOMATED''"
| "triggerName MANUAL_REFRESH = ''MANUAL_REFRESH''"
| "triggerName MANUAL_COMPLETE = ''MANUAL_COMPLETE''"
| "triggerName MANUAL_REVERSE = ''MANUAL_REVERSE''"

definition requireWithdrawal :: "db \<Rightarrow> ident \<Rightarrow> ident \<Rightarrow> mpesa_transaction res" where
  "requireWithdrawal s k tenantId =
     required (NotFoundException ''M-Pesa FOSA withdrawal transaction not found'')
       (findFirst (\<lambda>m. mt_id m = k \<and> mt_tenantId m = tenantId \<and> mt_referenceType m = Some ''FOSA_WITHDRAWAL'' \<and>
          mt_type m = B2C) (mpesaTransactions s))"

definition requireEvidence :: "string \<Rightarrow> string \<Rightarrow> unit res" where
  "requireEvidence reason evidenceReference =
     ensure (trim reason \<noteq> '''' \<and> trim evidenceReference \<noteq> '''')
       (BadRequestException ''Manual reconciliation requires reason and evidenceReference'')"

definition createAttempt :: "env \<Rightarrow> mpesa_transaction \<Rightarrow> ReconTrigger \<Rightarrow> db \<Rightarrow> (recon_attempt \<times> db) res" where
  "createAttempt E row trigger s =
     (let r = \<lparr>wr_id = uuid E (id_count s), wr_tenantId = mt_tenantId row, wr_mpesaTransactionId = mt_id row,
            wr_attemptNumber = mt_reconciliationAttemptCount row + 1, wr_triggerType = triggerName trigger,
            wr_oldStatus = mt_status row, wr_newStatus = None, wr_reasonCode = None, wr_nextRetryAt = None\<rparr>
      in rbind (ensure (\<forall>a \<in> set (reconAttempts s). \<not> (wr_mpesaTransactionId a = mt_id row \<and>
             wr_attemptNumber a = wr_attemptNumber r))
           (UniqueConstraintViolation ''MpesaWithdrawalReconciliationAttempt'')) (\<lambda>_.
         Inr (r, s\<lparr>reconAttempts := reconAttempts s @ [r], id_count := Suc (id_count s)\<rparr>)))"

definition finishAttempt :: "ident \<Rightarrow> TransactionStatus \<Rightarrow> string \<Rightarrow> int option \<Rightarrow> db \<Rightarrow> db" where
  "finishAttempt attemptId newStatus reasonCode nextRetryAt s =
     s\<lparr>reconAttempts := fst (updateMany (\<lambda>a. wr_id a = attemptId)
        (\<lambda>a. a\<lparr>wr_newStatus := Some newStatus, wr_reasonCode := Some reasonCode, wr_nextRetryAt := nextRetryAt\<rparr>)
        (reconAttempts s))\<rparr>"

definition settledByHand :: "TransactionStatus \<Rightarrow> string \<Rightarrow> mpesa_transaction \<Rightarrow> mpesa_transaction" where
  "settledByHand status reason x = x\<lparr>mt_status := status, mt_manualReviewRequired := False,
     mt_manualReviewReason := None, mt_reconciliationNextRetryAt := None, mt_reconciliationLockedAt := None,
     mt_reconciliationLockedBy := None, mt_reconciliationLastReason := Some reason\<rparr>"

definition claimByHand ::
  "ident \<Rightarrow> ident \<Rightarrow> (mpesa_transaction \<Rightarrow> mpesa_transaction) \<Rightarrow> db \<Rightarrow> db res" where
  "claimByHand k tenantId f s =
     (let (count, s1) = touchMpesa (\<lambda>x. mt_id x = k \<and> mt_tenantId x = tenantId \<and> openStatus x) f s in
      rbind (ensure (count \<noteq> 0) (ConflictException ''Withdrawal is already terminal or being reconciled'')) (\<lambda>_. Inr s1))"

definition markCompletedWithEvidence ::
  "env \<Rightarrow> db \<Rightarrow> ident \<Rightarrow> ident \<Rightarrow> ident \<Rightarrow> string \<Rightarrow> string \<Rightarrow> (unit \<times> db) res" where
  "markCompletedWithEvidence E s k tenantId actorId reason evidenceReference =
     rbind (requireWithdrawal s k tenantId) (\<lambda>row.
     rbind (requireEvidence reason evidenceReference) (\<lambda>_.
     rbind (createAttempt E row MANUAL_COMPLETE s) (\<lambda>(attempt, s1).
     rbind (claimByHand k tenantId (settledByHand TransactionStatus.COMPLETED ''MANUAL_COMPLETED_WITH_EVIDENCE'') s1) (\<lambda>s2.
     Inr ((), writeAudit tenantId actorId ''MPESA.WITHDRAWAL.MANUAL_COMPLETE'' k
       (finishAttempt (wr_id attempt) TransactionStatus.COMPLETED ''MANUAL_COMPLETED_WITH_EVIDENCE'' None s2))))))"

definition reverseConfirmedFailure ::
  "env \<Rightarrow> db \<Rightarrow> ident \<Rightarrow> ident \<Rightarrow> ident \<Rightarrow> string \<Rightarrow> string \<Rightarrow> (ident \<times> db) res" where
  "reverseConfirmedFailure E s k tenantId actorId reason evidenceReference =
     rbind (requireWithdrawal s k tenantId) (\<lambda>row.
     rbind (requireEvidence reason evidenceReference) (\<lambda>_.
     rbind (required (BadRequestException ''No linked ledger debit exists'') (mt_transactionId row)) (\<lambda>originalTransactionId.
     rbind (createAttempt E row MANUAL_REVERSE s) (\<lambda>(attempt, s1).
     rbind (claimByHand k tenantId (\<lambda>x. (settledByHand TransactionStatus.FAILED ''MANUAL_CONFIRMED_PROVIDER_FAILURE'' x)
         \<lparr>mt_failureReason := Some ''MANUAL_CONFIRMED_PROVIDER_FAILURE''\<rparr>) s1) (\<lambda>s2.
     rbind (reverseTransaction E True s2 tenantId originalTransactionId (Some actorId)) (\<lambda>((reversal, _), s3).
     Inr (tx_id reversal, writeAudit tenantId actorId ''MPESA.WITHDRAWAL.MANUAL_REVERSE'' k
       (finishAttempt (wr_id attempt) TransactionStatus.FAILED ''MANUAL_CONFIRMED_PROVIDER_FAILURE'' None s3))))))))"

text \<open>A second sending is refused, after a note of the attempt.\<close>

definition controlledResend :: "db \<Rightarrow> ident \<Rightarrow> ident \<Rightarrow> ident \<Rightarrow> string \<Rightarrow> string \<Rightarrow> unit res \<times> db" where
  "controlledResend s k tenantId actorId reason evidenceReference =
     (case rbind (requireWithdrawal s k tenantId) (\<lambda>_. requireEvidence reason evidenceReference) of
        Inl e \<Rightarrow> (Inl e, s)
      | Inr _ \<Rightarrow> (Inl (BadRequestException ''CONTROLLED_RESEND is blocked''),
          writeAudit tenantId actorId ''MPESA.WITHDRAWAL.MANUAL_RESEND_BLOCKED'' k s))"

section \<open>The sweep\<close>

definition claimRecon :: "recon_config \<Rightarrow> int \<Rightarrow> ident \<Rightarrow> ReconTrigger \<Rightarrow> ident \<Rightarrow> db \<Rightarrow> mpesa_transaction option \<times> db" where
  "claimRecon rc now k trigger actorId s =
     (let (count, s1) = touchMpesa (\<lambda>m. mt_id m = k \<and> openStatus m \<and>
            (case mt_reconciliationLockedAt m of None \<Rightarrow> True | Some d \<Rightarrow> d < now - rc_lockTtlMs rc))
            (\<lambda>m. m\<lparr>mt_reconciliationLockedAt := Some now,
               mt_reconciliationLockedBy := Some (triggerName trigger @ '':'' @ actorId)\<rparr>) s
      in (if count = 0 then None else mpesaById s1 k, s1))"

definition wasProviderContacted :: "mpesa_transaction \<Rightarrow> bool" where
  "wasProviderContacted m \<longleftrightarrow> mt_providerSendAttemptedAt m \<noteq> None \<or>
     (case mt_providerSubmissionState m of None \<Rightarrow> False | Some st \<Rightarrow> st \<in> set PROVIDER_CONTACT_STATES) \<or>
     (case mt_conversationId m of None \<Rightarrow> False | Some c \<Rightarrow> c \<noteq> '''')"

definition shouldManualReview :: "recon_config \<Rightarrow> int \<Rightarrow> mpesa_transaction \<Rightarrow> nat \<Rightarrow> bool" where
  "shouldManualReview rc now m attemptCount \<longleftrightarrow>
     rc_maxAttempts rc \<le> attemptCount \<or> rc_manualReviewMs rc \<le> now - mt_createdAt m"

definition nextRetry :: "recon_config \<Rightarrow> int \<Rightarrow> nat \<Rightarrow> int" where
  "nextRetry rc now attemptCount = now + rc_retryIntervalMs rc * min 8 (2 ^ (attemptCount - 1))"

record recon_outcome =
  oc_reasonCode :: string
  oc_nextRetryAt :: "int option"
  oc_manualReviewRequired :: "bool option"
  oc_manualReviewReason :: "string option"

definition hasMismatch :: "string \<Rightarrow> bool" where
  "hasMismatch x \<longleftrightarrow> (\<exists>i \<in> set [0..<length x]. startsWith (drop i x) ''MISMATCH'')"

definition classifyOutcome :: "recon_config \<Rightarrow> int \<Rightarrow> mpesa_transaction \<Rightarrow> refresh \<Rightarrow> nat \<Rightarrow> recon_outcome" where
  "classifyOutcome rc now row answer attemptCount =
     (let (refreshed, _, status) = answer; review = shouldManualReview rc now row attemptCount in
      if mt_status row = TransactionStatus.COMPLETED then
        \<lparr>oc_reasonCode = ''PROVIDER_CONFIRMED_SUCCESS'', oc_nextRetryAt = None, oc_manualReviewRequired = None,
         oc_manualReviewReason = None\<rparr>
      else if mt_status row = TransactionStatus.FAILED then
        \<lparr>oc_reasonCode = ''PROVIDER_CONFIRMED_FAILURE_REVERSED'', oc_nextRetryAt = None,
         oc_manualReviewRequired = None, oc_manualReviewReason = None\<rparr>
      else if (case mt_failureReason row of None \<Rightarrow> False | Some r \<Rightarrow> hasMismatch r) then
        \<lparr>oc_reasonCode = ''PROVIDER_RESPONSE_MISMATCH'', oc_nextRetryAt = None,
         oc_manualReviewRequired = Some True, oc_manualReviewReason = mt_failureReason row\<rparr>
      else if \<not> refreshed then
        \<lparr>oc_reasonCode = ''PROVIDER_STATUS_NOT_REFRESHED'', oc_nextRetryAt = Some (nextRetry rc now attemptCount),
         oc_manualReviewRequired = Some review, oc_manualReviewReason = None\<rparr>
      else
        \<lparr>oc_reasonCode = (if status = Some TransactionStatus.PENDING then ''PROVIDER_STILL_PENDING''
           else ''PROVIDER_OUTCOME_UNKNOWN''),
         oc_nextRetryAt = Some (nextRetry rc now attemptCount), oc_manualReviewRequired = Some review,
         oc_manualReviewReason = (if review
           then Some ''Automated reconciliation exhausted or exceeded manual review SLA'' else None)\<rparr>)"

definition completeAttemptAndSchedule ::
  "recon_config \<Rightarrow> int \<Rightarrow> ident \<Rightarrow> mpesa_transaction \<Rightarrow> recon_outcome \<Rightarrow> db \<Rightarrow> (unit \<times> db) res" where
  "completeAttemptAndSchedule rc now attemptId before oc s =
     rbind (required (NotFoundException ''No MpesaTransaction found'') (mpesaById s (mt_id before))) (\<lambda>m.
     let attemptCount = mt_reconciliationAttemptCount before + 1;
         review = (case oc_manualReviewRequired oc of Some b \<Rightarrow> b
           | None \<Rightarrow> shouldManualReview rc now before attemptCount);
         nextRetryAt = (if openStatus m \<and> \<not> review
           then Some (case oc_nextRetryAt oc of Some d \<Rightarrow> d | None \<Rightarrow> nextRetry rc now attemptCount) else None);
         s1 = snd (touchMpesa (\<lambda>x. mt_id x = mt_id before) (\<lambda>x. x\<lparr>mt_reconciliationAttemptCount := attemptCount,
             mt_reconciliationNextRetryAt := nextRetryAt, mt_reconciliationLockedAt := None,
             mt_reconciliationLockedBy := None, mt_manualReviewRequired := review,
             mt_manualReviewReason := (if review then Some (case oc_manualReviewReason oc of Some r \<Rightarrow> r
                 | None \<Rightarrow> oc_reasonCode oc) else None),
             mt_reconciliationLastReason := Some (oc_reasonCode oc)\<rparr>) s)
     in Inr ((), finishAttempt attemptId (mt_status m) (oc_reasonCode oc) nextRetryAt s1))"

definition raiseOperationalAlertOnce :: "ident \<Rightarrow> ident \<Rightarrow> string \<Rightarrow> db \<Rightarrow> db" where
  "raiseOperationalAlertOnce tenantId entityId action s =
     (case auditAtomic tenantId ''SYSTEM'' action entityId (mpesaRequestId action tenantId entityId) s of
        Inl _ \<Rightarrow> s
      | Inr s1 \<Rightarrow> s1\<lparr>complianceAlerts := complianceAlerts s1 @
          [\<lparr>ca_tenantId = tenantId, ca_action = action, ca_entityId = entityId\<rparr>]\<rparr>)"

definition auditActionForOutcome :: "string \<Rightarrow> string" where
  "auditActionForOutcome reasonCode =
     (if reasonCode = ''PROVIDER_CONFIRMED_SUCCESS'' then ''MPESA.WITHDRAWAL.RECON_RESOLVED_SUCCESS''
      else if reasonCode = ''PROVIDER_CONFIRMED_FAILURE_REVERSED'' then ''MPESA.WITHDRAWAL.RECON_RESOLVED_FAILURE''
      else if reasonCode = ''PROVIDER_STILL_PENDING'' then ''MPESA.WITHDRAWAL.RECON_STILL_PENDING''
      else if reasonCode = ''PROVIDER_RESPONSE_MISMATCH'' then ''MPESA.WITHDRAWAL.RECON_MISMATCH''
      else ''MPESA.WITHDRAWAL.RECON_UNKNOWN'')"

datatype recon_action = SKIPPED | MANUAL_REVIEW | REFRESHED TransactionStatus bool | RETRY_SCHEDULED

definition reviewUncontacted :: "recon_config \<Rightarrow> int \<Rightarrow> ident \<Rightarrow> mpesa_transaction \<Rightarrow> db \<Rightarrow> recon_action res \<times> db" where
  "reviewUncontacted rc now attemptId claimed s =
     andThen (committed s (completeAttemptAndSchedule rc now attemptId claimed
       \<lparr>oc_reasonCode = ''PROVIDER_NOT_CONTACTED_OR_UNKNOWN_LOCAL_STATE'',
        oc_nextRetryAt = Some (nextRetry rc now (mt_reconciliationAttemptCount claimed + 1)),
        oc_manualReviewRequired = Some True,
        oc_manualReviewReason = Some ''Provider submission was not durably attempted''\<rparr> s)) (\<lambda>_ s1.
     (Inr MANUAL_REVIEW, raiseOperationalAlertOnce (mt_tenantId claimed) (mt_id claimed)
        ''MPESA.WITHDRAWAL.ANOMALY_DETECTED'' s1))"

definition reviewWithProvider ::
  "env \<Rightarrow> recon_config \<Rightarrow> provider \<Rightarrow> int \<Rightarrow> ident \<Rightarrow> ident \<Rightarrow> mpesa_transaction \<Rightarrow> db \<Rightarrow> recon_action res \<times> db" where
  "reviewWithProvider E rc pv now actorId attemptId claimed s =
     (let s1 = writeAudit (mt_tenantId claimed) actorId ''MPESA.WITHDRAWAL.PROVIDER_STATUS_QUERIED'' (mt_id claimed) s in
      andThen (refreshMwaloniB2cStatus E pv now (mt_id claimed) s1) (\<lambda>answer s2.
      case mpesaById s2 (mt_id claimed) of
        None \<Rightarrow> (Inl (NotFoundException ''No MpesaTransaction found''), s2)
      | Some m \<Rightarrow>
        (let oc = classifyOutcome rc now m answer (mt_reconciliationAttemptCount claimed + 1) in
         andThen (committed s2 (completeAttemptAndSchedule rc now attemptId claimed oc s2)) (\<lambda>_ s3.
         (Inr (REFRESHED (mt_status m) (oc_manualReviewRequired oc = Some True)),
          writeAudit (mt_tenantId claimed) actorId (auditActionForOutcome (oc_reasonCode oc)) (mt_id claimed) s3)))))"

definition reconcileTransaction ::
  "env \<Rightarrow> recon_config \<Rightarrow> provider \<Rightarrow> int \<Rightarrow> ident \<Rightarrow> ReconTrigger \<Rightarrow> ident \<Rightarrow> db \<Rightarrow> recon_action res \<times> db" where
  "reconcileTransaction E rc pv now k trigger actorId s =
     (case claimRecon rc now k trigger actorId s of
        (None, s1) \<Rightarrow> (Inr SKIPPED, s1)
      | (Some claimed, s1) \<Rightarrow>
        andThen (committed s1 (createAttempt E claimed trigger s1)) (\<lambda>attempt s2.
        let s3 = writeAudit (mt_tenantId claimed) actorId ''MPESA.WITHDRAWAL.RECON_STARTED'' (mt_id claimed) s2 in
        case (if wasProviderContacted claimed then reviewWithProvider E rc pv now actorId (wr_id attempt) claimed s3
              else reviewUncontacted rc now (wr_id attempt) claimed s3) of
          (Inr r, s4) \<Rightarrow> (Inr r, s4)
        | (Inl _, s4) \<Rightarrow>
            andThen (committed s4 (completeAttemptAndSchedule rc now (wr_id attempt) claimed
              \<lparr>oc_reasonCode = ''PROVIDER_STATUS_UNAVAILABLE'',
               oc_nextRetryAt = Some (nextRetry rc now (mt_reconciliationAttemptCount claimed + 1)),
               oc_manualReviewRequired = Some (shouldManualReview rc now claimed (mt_reconciliationAttemptCount claimed + 1)),
               oc_manualReviewReason = Some ''Provider status unavailable beyond automated retry policy''\<rparr> s4)) (\<lambda>_ s5.
            (Inr RETRY_SCHEDULED, s5))))"

definition refreshProviderStatus ::
  "env \<Rightarrow> recon_config \<Rightarrow> provider \<Rightarrow> int \<Rightarrow> ident \<Rightarrow> ident \<Rightarrow> ident \<Rightarrow> db \<Rightarrow> recon_action res \<times> db" where
  "refreshProviderStatus E rc pv now k tenantId actorId s =
     (case requireWithdrawal s k tenantId of
        Inl e \<Rightarrow> (Inl e, s)
      | Inr row \<Rightarrow> reconcileTransaction E rc pv now (mt_id row) MANUAL_REFRESH actorId s)"

definition eligible :: "recon_config \<Rightarrow> int \<Rightarrow> mpesa_transaction \<Rightarrow> bool" where
  "eligible rc now m \<longleftrightarrow> mt_type m = B2C \<and> mt_referenceType m = Some ''FOSA_WITHDRAWAL'' \<and> openStatus m \<and>
     \<not> mt_manualReviewRequired m \<and>
     (case mt_reconciliationNextRetryAt m of Some d \<Rightarrow> d \<le> now
      | None \<Rightarrow> (case mt_reconciliationDueAt m of Some d \<Rightarrow> d \<le> now
         | None \<Rightarrow> mt_createdAt m \<le> now - rc_pendingThresholdMs rc)) \<and>
     (case mt_reconciliationLockedAt m of None \<Rightarrow> True | Some d \<Rightarrow> d < now - rc_lockTtlMs rc)"

definition selectEligibleProviderTransactions :: "recon_config \<Rightarrow> int \<Rightarrow> db \<Rightarrow> mpesa_transaction list" where
  "selectEligibleProviderTransactions rc now s =
     (let rows = sort_key mt_createdAt (filter (eligible rc now) (mpesaTransactions s)) in
      take 50 (sort_key (\<lambda>m. the (mt_reconciliationNextRetryAt m)) (filter (\<lambda>m. mt_reconciliationNextRetryAt m \<noteq> None) rows) @
        filter (\<lambda>m. mt_reconciliationNextRetryAt m = None) rows))"

fun reconcileAll ::
  "env \<Rightarrow> recon_config \<Rightarrow> provider \<Rightarrow> int \<Rightarrow> mpesa_transaction list \<Rightarrow> nat \<Rightarrow> db \<Rightarrow> nat res \<times> db" where
  "reconcileAll E rc pv now [] n s = (Inr n, s)"
| "reconcileAll E rc pv now (m # ms) n s =
     andThen (reconcileTransaction E rc pv now (mt_id m) AUTOMATED ''SYSTEM'' s) (\<lambda>r s1.
     reconcileAll E rc pv now ms (if r = SKIPPED then n else n + 1) s1)"

definition staleIntent :: "recon_config \<Rightarrow> int \<Rightarrow> payout_intent \<Rightarrow> bool" where
  "staleIntent rc now p \<longleftrightarrow> pi_referenceType p = ''FOSA_WITHDRAWAL'' \<and> pi_status p \<noteq> OutboxStatus.DELIVERED \<and>
     pi_updatedAt p \<le> now - rc_staleOutboxMs rc"

definition detectStaleIntent :: "int \<Rightarrow> bool \<Rightarrow> payout_intent \<Rightarrow> db \<Rightarrow> db" where
  "detectStaleIntent now queueUp p s =
     (if pi_status p = OutboxStatus.DEAD_LETTER
      then raiseOperationalAlertOnce (pi_tenantId p) (pi_id p) ''MPESA.WITHDRAWAL.RECON_DLQ'' s
      else case findFirst (\<lambda>m. mt_transactionId m = Some (pi_sourceTransactionId p) \<and>
             mt_referenceType m = Some ''FOSA_WITHDRAWAL'') (mpesaTransactions s) of
        None \<Rightarrow> raiseOperationalAlertOnce (pi_tenantId p) (pi_id p) ''MPESA.WITHDRAWAL.STALE_PAYOUT_INTENT_DETECTED''
          (snd (dispatchIntent now queueUp (pi_id p) s))
      | Some m \<Rightarrow>
        if mt_providerSendAttemptedAt m \<noteq> None \<or>
           (case mt_providerSubmissionState m of None \<Rightarrow> False | Some st \<Rightarrow> st \<in> set PROVIDER_CONTACT_STATES)
        then raiseOperationalAlertOnce (pi_tenantId p) (pi_id p) ''MPESA.WITHDRAWAL.STALE_PAYOUT_INTENT_WITH_PROVIDER_TX'' s
        else s)"

definition detectStalePayoutIntents :: "recon_config \<Rightarrow> int \<Rightarrow> bool \<Rightarrow> db \<Rightarrow> nat \<times> db" where
  "detectStalePayoutIntents rc now queueUp s =
     (let intents = take 100 (sort_key pi_updatedAt (filter (staleIntent rc now) (payoutIntents s))) in
      (length intents, fold (detectStaleIntent now queueUp) intents s))"

text \<open>\<open>old\<close> says which transactions are older than the cutoff; their times are not modelled.\<close>

definition debitWithoutPayout :: "db \<Rightarrow> txn \<Rightarrow> bool" where
  "debitWithoutPayout s t \<longleftrightarrow> (\<forall>p \<in> set (payoutIntents s). pi_sourceTransactionId p \<noteq> tx_id t) \<and>
     (\<forall>m \<in> set (mpesaTransactions s). mt_transactionId m \<noteq> Some (tx_id t))"

definition detectDebitWithoutPayout :: "(txn \<Rightarrow> bool) \<Rightarrow> db \<Rightarrow> nat \<times> db" where
  "detectDebitWithoutPayout old s =
     (let rows = take 100 (filter (\<lambda>t. tx_type t = TransactionType.WITHDRAWAL \<and> tx_status t = TransactionStatus.COMPLETED \<and>
            startsWith (tx_reference t) ''MPESA_WD-'' \<and> old t) (transactions s));
          bad = filter (debitWithoutPayout s) rows
      in (length bad, fold (\<lambda>t. raiseOperationalAlertOnce (tx_tenantId t) (tx_id t)
            ''MPESA.WITHDRAWAL.DEBIT_WITHOUT_PAYOUT_ANOMALY'') bad s))"

definition runAutomatedSweep ::
  "env \<Rightarrow> recon_config \<Rightarrow> provider \<Rightarrow> int \<Rightarrow> bool \<Rightarrow> (txn \<Rightarrow> bool) \<Rightarrow> db \<Rightarrow> (nat \<times> nat \<times> nat) res \<times> db" where
  "runAutomatedSweep E rc pv now queueUp old s =
     (let (staleOutbox, s1) = detectStalePayoutIntents rc now queueUp s;
          (anomalies, s2) = detectDebitWithoutPayout old s1
      in andThen (reconcileAll E rc pv now (selectEligibleProviderTransactions rc now s2) 0 s2) (\<lambda>n s3.
         (Inr (n, anomalies, staleOutbox), s3)))"

section \<open>The daily comparison\<close>

record recon_report =
  rr_totalDaraja :: rat
  rr_totalPosted :: rat
  rr_mismatches :: "(ident \<times> string) list"
  rr_duplicates :: "ident list"
  rr_autoResolved :: nat

definition emptyReport :: recon_report where
  "emptyReport = \<lparr>rr_totalDaraja = 0, rr_totalPosted = 0, rr_mismatches = [], rr_duplicates = [], rr_autoResolved = 0\<rparr>"

definition reportId :: "mpesa_transaction \<Rightarrow> ident" where
  "reportId m = (case mt_checkoutRequestId m of Some c \<Rightarrow> c | None \<Rightarrow> mt_id m)"

definition compareRow :: "env \<Rightarrow> int \<Rightarrow> int \<Rightarrow> mpesa_transaction \<Rightarrow> recon_report \<times> db \<Rightarrow> recon_report \<times> db" where
  "compareRow E now staleThreshold m rs =
     (let (r, s) = rs;
          posted = (case mt_transactionId m of None \<Rightarrow> None
            | Some k \<Rightarrow> findFirst (\<lambda>t. tx_id t = k) (transactions s));
          (r1, s1) =
            (if mt_status m = TransactionStatus.COMPLETED then
               (let r = r\<lparr>rr_totalDaraja := dplus E (rr_totalDaraja r) (mt_amount m)\<rparr> in
                case posted of
                  None \<Rightarrow> (r\<lparr>rr_mismatches := rr_mismatches r @ [(reportId m, ''MISSING_TRANSACTION'')]\<rparr>, s)
                | Some t \<Rightarrow>
                  (let r = r\<lparr>rr_totalPosted := dplus E (rr_totalPosted r) (tx_amount t)\<rparr> in
                   (if mt_amount m = tx_amount t then r
                    else r\<lparr>rr_mismatches := rr_mismatches r @ [(reportId m, ''AMOUNT_MISMATCH'')]\<rparr>, s)))
             else if mt_status m = TransactionStatus.PENDING \<and> staleThreshold < now - mt_createdAt m then
               (r\<lparr>rr_mismatches := rr_mismatches r @ [(reportId m, ''RECON_PENDING'')],
                  rr_autoResolved := rr_autoResolved r + 1\<rparr>,
                snd (touchMpesa (\<lambda>x. mt_id x = mt_id m) (\<lambda>x. x\<lparr>mt_status := TransactionStatus.RECON_PENDING\<rparr>) s))
             else (r, s));
          dupe = (case mt_receipt m of None \<Rightarrow> False | Some c \<Rightarrow> c \<noteq> '''' \<and>
            (\<exists>x \<in> set (mpesaTransactions s1). mt_tenantId x = mt_tenantId m \<and> mt_receipt x = Some c \<and> mt_id x \<noteq> mt_id m))
      in (if dupe then r1\<lparr>rr_duplicates := rr_duplicates r1 @ [reportId m]\<rparr> else r1, s1))"

text \<open>\<open>locked\<close> says that the lock of the day has been taken before.\<close>

definition runReconciliation :: "env \<Rightarrow> int \<Rightarrow> bool \<Rightarrow> int \<Rightarrow> ident \<Rightarrow> int \<Rightarrow> int \<Rightarrow> db \<Rightarrow> recon_report \<times> db" where
  "runReconciliation E now locked staleThreshold tenantId dateStart dateEnd s =
     (if locked then (emptyReport, s)
      else fold (compareRow E now staleThreshold)
        (filter (\<lambda>m. mt_tenantId m = tenantId \<and> dateStart \<le> mt_createdAt m \<and> mt_createdAt m \<le> dateEnd) (mpesaTransactions s))
        (emptyReport, s))"

section \<open>Attribution by hand\<close>

definition matchReference :: "ident \<Rightarrow> string" where
  "matchReference k = ''MPESA-RECON-'' @ k"

definition matchTx :: "env \<Rightarrow> db \<Rightarrow> mpesa_transaction \<Rightarrow> account \<Rightarrow> ident \<Rightarrow> ident \<Rightarrow> (ident \<times> db) res" where
  "matchTx E s m account tenantId actorId =
     (case transactionByReference s tenantId (matchReference (mt_id m)) of
        Some dup \<Rightarrow> Inr (tx_id dup, s)
      | None \<Rightarrow>
        rbind (required (NotFoundException ''Account disappeared during transaction'')
          (findFirst (\<lambda>a. acc_id a = acc_id account \<and> acc_tenantId a = tenantId \<and> acc_isActive a) (accounts s))) (\<lambda>fresh.
        let amount = dp4 E (mt_amount m); balanceAfter = dp4 E (dplus E (acc_balance fresh) (mt_amount m)) in
        rbind (putAccounts (map (\<lambda>a. if acc_id a = acc_id account \<and> acc_tenantId a = tenantId \<and> acc_isActive a
            then a\<lparr>acc_balance := acc_balance a + amount, acc_version := acc_version a + 1\<rparr> else a) (accounts s)) s) (\<lambda>s1.
        rbind (createTransaction E
          \<lparr>tx_id = '''', tx_tenantId = tenantId, tx_accountId = acc_id account, tx_loanId = None,
           tx_type = TransactionType.DEPOSIT, tx_status = TransactionStatus.COMPLETED, tx_amount = amount,
           tx_balanceBefore = dp4 E (acc_balance fresh), tx_balanceAfter = balanceAfter,
           tx_reference = matchReference (mt_id m), tx_processedBy = actorId, tx_linkedTransactionId = None\<rparr> s1) (\<lambda>(t, s2).
        rbind (findGlAccountPair s2 tenantId GL_CASH ''2000'') (\<lambda>(d, c).
        rbind (createJournalEntry E (ledgerJournalEntry tenantId (''JE-MPESA-RECON-'' @ mt_id m)
            JournalEntryType.MPESA_DEPOSIT (tx_id t) amount actorId d c) s2) (\<lambda>(_, s3).
        rbind (updateMpesa (mt_id m) (\<lambda>x. x\<lparr>mt_transactionId := Some (tx_id t),
            mt_memberId := Some (case mt_memberId m of Some b \<Rightarrow> b | None \<Rightarrow> acc_memberId account),
            mt_status := TransactionStatus.COMPLETED\<rparr>) s3) (\<lambda>s4.
        Inr (tx_id t, s4))))))))"

definition matchMpesaTransaction :: "env \<Rightarrow> db \<Rightarrow> ident \<Rightarrow> ident \<Rightarrow> ident \<Rightarrow> ident \<Rightarrow> (ident \<times> db) res" where
  "matchMpesaTransaction E s mpesaTxId tenantId accountId actorId =
     rbind (required (NotFoundException ''RECON_PENDING M-Pesa transaction not found'')
       (findFirst (\<lambda>m. mt_id m = mpesaTxId \<and> mt_tenantId m = tenantId \<and>
          mt_status m = TransactionStatus.RECON_PENDING \<and> mt_transactionId m = None) (mpesaTransactions s))) (\<lambda>m.
     rbind (required (NotFoundException ''Active account not found in this tenant'')
       (findFirst (\<lambda>a. acc_id a = accountId \<and> acc_tenantId a = tenantId \<and> acc_isActive a) (accounts s))) (\<lambda>account.
     rbind (matchTx E s m account tenantId actorId) (\<lambda>(k, s1).
     Inr (k, writeAudit tenantId actorId ''MPESA.MANUAL_MATCH'' mpesaTxId s1))))"

end
