(* ===== verification/Payout_Invariant.thy ===== *)
theory Payout_Invariant
  imports Mpesa_Reconciliation
begin

text \<open>
  Safety of the withdrawal path across all its steps. A system state changes by any of the
  operations that touch a withdrawal, in any order and any number of times: the request of the
  member, the outbox, the worker, a status poll, the job that ends the wait, the callback of the
  provider, the sweep, and the decisions by hand; the rest of the program is a step that leaves the
  rows of the path alone.

  The invariant ties a row of the path to the WITHDRAWAL that it pays out, with its account and its
  amount: the row is failed exactly when the debit has been given back, and an order that has been
  sent belongs to a row that will not be sent again.
\<close>

section \<open>The invariant\<close>

definition FOSA_WITHDRAWAL :: string where "FOSA_WITHDRAWAL = ''FOSA_WITHDRAWAL''"

definition payoutRow :: "mpesa_transaction \<Rightarrow> bool" where
  "payoutRow m \<longleftrightarrow> mt_referenceType m = Some FOSA_WITHDRAWAL \<or> mt_conversationId m \<noteq> None \<or>
     mt_providerSubmissionState m \<noteq> None \<or> startsWith (mt_reference m) ''B2C-''"

definition orderOf :: "ident \<Rightarrow> string" where "orderOf k = ''MWD-'' @ k"

text \<open>The debit of a payout from account \<open>k\<close> of the amount \<open>x\<close>.\<close>

definition payout_debit :: "txn \<Rightarrow> ident \<Rightarrow> rat \<Rightarrow> bool" where
  "payout_debit t k x \<longleftrightarrow> tx_type t = TransactionType.WITHDRAWAL \<and> tx_accountId t = k \<and> tx_amount t = x \<and> m4 x \<and> 0 < x"

lemma payout_debit_status [simp]: "payout_debit (t\<lparr>tx_status := st\<rparr>) k x = payout_debit t k x"
  by (simp add: payout_debit_def)

definition row_ok :: "db \<Rightarrow> mpesa_transaction \<Rightarrow> bool" where
  "row_ok s m \<longleftrightarrow> (\<exists>t \<in> set (transactions s). mt_transactionId m = Some (tx_id t) \<and> tx_tenantId t = mt_tenantId m \<and>
     mt_conversationId m = Some (orderOf (tx_id t)) \<and> mt_reference m = b2cReference (orderOf (tx_id t)) \<and>
     mt_referenceType m = Some FOSA_WITHDRAWAL \<and>
     (\<exists>k. mt_referenceId m = Some k \<and> payout_debit t k (mt_amount m)) \<and>
     (mt_status m = TransactionStatus.FAILED \<longleftrightarrow> tx_status t = TransactionStatus.REVERSED))"

definition paid_out :: "db \<Rightarrow> ident \<Rightarrow> bool" where
  "paid_out s k \<longleftrightarrow> (\<exists>m \<in> set (mpesaTransactions s). payoutRow m \<and> mt_transactionId m = Some k)"

definition intent_ok :: "db \<Rightarrow> payout_intent \<Rightarrow> bool" where
  "intent_ok s p \<longleftrightarrow> pi_referenceType p = FOSA_WITHDRAWAL \<and> pi_sourceTransactionId p \<noteq> '''' \<and>
     CHR '':'' \<notin> set (pi_sourceTransactionId p) \<and>
     pi_dispatchKey p = ''FOSA_WITHDRAWAL:'' @ pi_tenantId p @ '':'' @ pi_sourceTransactionId p \<and>
     (\<exists>t \<in> set (transactions s). tx_id t = pi_sourceTransactionId p \<and> tx_tenantId t = pi_tenantId p \<and>
        payout_debit t (pi_referenceId p) (pi_amount p) \<and>
        (tx_status t = TransactionStatus.REVERSED \<longrightarrow> paid_out s (tx_id t)))"

definition job_ok :: "db \<Rightarrow> payout_job \<Rightarrow> bool" where
  "job_ok s j \<longleftrightarrow> pj_referenceType j = FOSA_WITHDRAWAL \<and> (\<exists>p \<in> set (payoutIntents s).
     pj_sourceTransactionId j = Some (pi_sourceTransactionId p) \<and> pj_tenantId j = pi_tenantId p \<and>
     pj_referenceId j = pi_referenceId p \<and> pj_amount j = pi_amount p)"

definition reversalReference :: "string \<Rightarrow> bool" where
  "reversalReference x \<longleftrightarrow> (\<exists>y. x = y @ ''-REVERSAL'')"

definition debit_ok :: "db \<Rightarrow> txn \<Rightarrow> bool" where
  "debit_ok s t \<longleftrightarrow> (startsWith (tx_reference t) ''MPESA_WD-'' \<longrightarrow> \<not> reversalReference (tx_reference t) \<longrightarrow>
     (\<exists>p \<in> set (payoutIntents s). pi_sourceTransactionId p = tx_id t \<and> pi_tenantId p = tx_tenantId t))"

definition order_ok :: "db \<Rightarrow> string \<Rightarrow> bool" where
  "order_ok s x \<longleftrightarrow> (\<exists>m \<in> set (mpesaTransactions s). payoutRow m \<and> mt_reference m = b2cReference x \<and>
     mt_providerSubmissionState m \<noteq> Some LOCAL_CREATED)"

definition payout_inv :: "db \<Rightarrow> bool" where
  "payout_inv s \<longleftrightarrow> distinct (map tx_id (transactions s)) \<and> unique_mpesa (mpesaTransactions s) \<and>
     distinct (providerOrders s) \<and> (\<forall>m \<in> set (mpesaTransactions s). payoutRow m \<longrightarrow> row_ok s m) \<and>
     (\<forall>p \<in> set (payoutIntents s). intent_ok s p) \<and> (\<forall>j \<in> set (payoutQueue s). job_ok s j) \<and>
     (\<forall>t \<in> set (transactions s). debit_ok s t) \<and> (\<forall>x \<in> set (providerOrders s). order_ok s x)"

lemmas payout_defs = row_ok_def paid_out_def intent_ok_def job_ok_def debit_ok_def order_ok_def

lemma payout_invD:
  assumes "payout_inv s"
  shows "distinct (map tx_id (transactions s))" "unique_mpesa (mpesaTransactions s)" "distinct (providerOrders s)"
    "m \<in> set (mpesaTransactions s) \<Longrightarrow> payoutRow m \<Longrightarrow> row_ok s m"
    "p \<in> set (payoutIntents s) \<Longrightarrow> intent_ok s p" "j \<in> set (payoutQueue s) \<Longrightarrow> job_ok s j"
    "t \<in> set (transactions s) \<Longrightarrow> debit_ok s t" "x \<in> set (providerOrders s) \<Longrightarrow> order_ok s x"
  using assms by (simp_all add: payout_inv_def)

text \<open>It looks at five tables.\<close>

definition same_path :: "db \<Rightarrow> db \<Rightarrow> bool" where
  "same_path s s' \<longleftrightarrow> transactions s' = transactions s \<and> mpesaTransactions s' = mpesaTransactions s \<and>
     payoutIntents s' = payoutIntents s \<and> payoutQueue s' = payoutQueue s \<and> providerOrders s' = providerOrders s"

lemma payout_inv_frame: "same_path s s' \<Longrightarrow> payout_inv s' = payout_inv s"
  by (simp add: same_path_def payout_inv_def payout_defs)

lemma payout_inv_frames [simp]:
  "payout_inv (s\<lparr>auditLog := a\<rparr>) = payout_inv s"
  "payout_inv (s\<lparr>timeoutQueue := b\<rparr>) = payout_inv s"
  "payout_inv (s\<lparr>reconAttempts := c, id_count := n\<rparr>) = payout_inv s"
  "payout_inv (s\<lparr>reconAttempts := c\<rparr>) = payout_inv s"
  "payout_inv (s\<lparr>complianceAlerts := d\<rparr>) = payout_inv s"
  "payout_inv (s\<lparr>id_count := n\<rparr>) = payout_inv s"
  "payout_inv (writeAudit x u e k s) = payout_inv s"
  by (rule payout_inv_frame, simp add: same_path_def writeAudit_def)+

lemma payout_inv_audits:
  "auditAtomic t u a k r s = Inr s' \<Longrightarrow> payout_inv s' = payout_inv s"
  "payout_inv (createAuditOnce t u a k r s) = payout_inv s"
  "payout_inv (addTimeoutJob j s) = payout_inv s"
  "payout_inv (scheduleB2cTimeoutCheck i ty t c s) = payout_inv s"
  "payout_inv (raiseOperationalAlertOnce t k a s) = payout_inv s"
  "payout_inv (finishAttempt k st rc d s) = payout_inv s"
  by (auto simp: auditAtomic_def createAuditOnce_def addTimeoutJob_def scheduleB2cTimeoutCheck_def finishAttempt_def
      raiseOperationalAlertOnce_def res_simps split: sum.splits)

section \<open>Changes of rows\<close>

text \<open>What an update that settles nothing keeps of a row.\<close>

definition keeps :: "mpesa_transaction \<Rightarrow> mpesa_transaction \<Rightarrow> bool" where
  "keeps m m' \<longleftrightarrow> mt_tenantId m' = mt_tenantId m \<and> mt_transactionId m' = mt_transactionId m \<and>
     mt_conversationId m' = mt_conversationId m \<and> mt_reference m' = mt_reference m \<and>
     mt_referenceType m' = mt_referenceType m \<and> mt_referenceId m' = mt_referenceId m \<and> mt_amount m' = mt_amount m \<and>
     payoutRow m' = payoutRow m \<and>
     (payoutRow m \<longrightarrow> mt_status m' = TransactionStatus.FAILED \<longleftrightarrow> mt_status m = TransactionStatus.FAILED) \<and>
     (mt_providerSubmissionState m' = Some LOCAL_CREATED \<longrightarrow> mt_providerSubmissionState m = Some LOCAL_CREATED)"

lemma keeps_refl [simp]: "keeps m m" by (simp add: keeps_def)

lemma payout_inv_rows:
  assumes inv: "payout_inv s" and u: "unique_mpesa rows"
    and down: "\<forall>m' \<in> set rows. \<exists>m \<in> set (mpesaTransactions s). keeps m m'"
    and up: "\<forall>m \<in> set (mpesaTransactions s). \<exists>m' \<in> set rows. keeps m m'"
  shows "payout_inv (s\<lparr>mpesaTransactions := rows\<rparr>)"
proof -
  let ?s = "s\<lparr>mpesaTransactions := rows\<rparr>"
  have row: "row_ok ?s m'" if "m' \<in> set rows" "payoutRow m'" for m'
  proof -
    from down that obtain m where "m \<in> set (mpesaTransactions s)" "keeps m m'" by blast
    with that have "row_ok s m" using payout_invD(4) [OF inv] by (simp add: keeps_def)
    with \<open>keeps m m'\<close> that show ?thesis by (simp add: row_ok_def keeps_def)
  qed
  have paid: "paid_out ?s k" if "paid_out s k" for k
  proof -
    from that obtain m where m: "m \<in> set (mpesaTransactions s)" "payoutRow m" "mt_transactionId m = Some k"
      by (auto simp: paid_out_def)
    with up obtain m' where "m' \<in> set rows" "keeps m m'" by blast
    with m show ?thesis by (auto simp: paid_out_def keeps_def)
  qed
  have order: "order_ok ?s x" if "order_ok s x" for x
  proof -
    from that obtain m where m: "m \<in> set (mpesaTransactions s)" "payoutRow m" "mt_reference m = b2cReference x"
      "mt_providerSubmissionState m \<noteq> Some LOCAL_CREATED" by (auto simp: order_ok_def)
    with up obtain m' where "m' \<in> set rows" "keeps m m'" by blast
    with m show ?thesis by (auto simp: order_ok_def keeps_def)
  qed
  have "intent_ok ?s p" if "intent_ok s p" for p using that paid by (auto simp: intent_ok_def)
  moreover have "job_ok ?s j = job_ok s j" "debit_ok ?s t = debit_ok s t" for j t
    by (simp_all add: job_ok_def debit_ok_def)
  ultimately show ?thesis using inv u row order by (simp add: payout_inv_def)
qed

text \<open>The unique columns.\<close>

definition same_keys :: "mpesa_transaction \<Rightarrow> mpesa_transaction \<Rightarrow> bool" where
  "same_keys m m' \<longleftrightarrow> mt_id m' = mt_id m \<and> mt_transactionId m' = mt_transactionId m \<and>
     mt_checkoutRequestId m' = mt_checkoutRequestId m \<and> mt_receipt m' = mt_receipt m \<and>
     mt_conversationId m' = mt_conversationId m \<and> mt_originatorConversationId m' = mt_originatorConversationId m \<and>
     mt_reference m' = mt_reference m"

lemma map_filter_update:
  assumes "\<And>m. m \<in> set ms \<Longrightarrow> g (h m) = g m"
  shows "List.map_filter g (map h ms) = List.map_filter g ms"
  using assms by (induction ms) (auto simp: List.map_filter_simps split: option.splits)

lemma unique_update:
  assumes "unique_mpesa ms" and "\<And>m. m \<in> set ms \<Longrightarrow> P m \<Longrightarrow> same_keys m (f m)"
  shows "unique_mpesa (map (\<lambda>m. if P m then f m else m) ms)"
proof -
  let ?h = "\<lambda>m. if P m then f m else m"
  have k: "same_keys m (?h m)" if "m \<in> set ms" for m using assms(2) that by (simp add: same_keys_def)
  have "map mt_id (map ?h ms) = map mt_id ms" "map mt_reference (map ?h ms) = map mt_reference ms"
    using k by (auto simp: same_keys_def)
  moreover have "List.map_filter mt_transactionId (map ?h ms) = List.map_filter mt_transactionId ms"
    "List.map_filter mt_checkoutRequestId (map ?h ms) = List.map_filter mt_checkoutRequestId ms"
    "List.map_filter mt_receipt (map ?h ms) = List.map_filter mt_receipt ms"
    "List.map_filter mt_conversationId (map ?h ms) = List.map_filter mt_conversationId ms"
    "List.map_filter mt_originatorConversationId (map ?h ms) = List.map_filter mt_originatorConversationId ms"
    using k by (auto intro!: map_filter_update simp: same_keys_def)
  ultimately show ?thesis using assms(1) by (simp only: unique_mpesa_def)
qed

lemma touch_inv:
  assumes "payout_inv s"
    and "\<And>m. m \<in> set (mpesaTransactions s) \<Longrightarrow> P m \<Longrightarrow> same_keys m (f m) \<and> keeps m (f m)"
    and "touchMpesa P f s = (n, s')"
  shows "payout_inv s'"
proof -
  let ?rows = "map (\<lambda>m. if P m then f m else m) (mpesaTransactions s)"
  have "payout_inv (s\<lparr>mpesaTransactions := ?rows\<rparr>)"
  proof (rule payout_inv_rows [OF assms(1)])
    show "unique_mpesa ?rows" by (rule unique_update) (use assms(1,2) in \<open>auto simp: payout_inv_def\<close>)
    show "\<forall>m' \<in> set ?rows. \<exists>m \<in> set (mpesaTransactions s). keeps m m'"
    proof
      fix m' assume "m' \<in> set ?rows"
      then obtain m where "m \<in> set (mpesaTransactions s)" "m' = (if P m then f m else m)" by auto
      then show "\<exists>m \<in> set (mpesaTransactions s). keeps m m'"
        using assms(2) by (intro bexI [of _ m]) auto
    qed
    show "\<forall>m \<in> set (mpesaTransactions s). \<exists>m' \<in> set ?rows. keeps m m'"
    proof
      fix m assume m: "m \<in> set (mpesaTransactions s)"
      have "keeps m (if P m then f m else m)" using assms(2) m by simp
      with m show "\<exists>m' \<in> set ?rows. keeps m m'" by (metis (mono_tags, lifting) image_eqI list.set_map)
    qed
  qed
  with assms(3) show ?thesis by (simp add: touchMpesa_def updateMany_def)
qed

lemma touch_inv_snd:
  assumes "payout_inv s"
    and "\<And>m. m \<in> set (mpesaTransactions s) \<Longrightarrow> P m \<Longrightarrow> same_keys m (f m) \<and> keeps m (f m)"
  shows "payout_inv (snd (touchMpesa P f s))"
  by (rule touch_inv [OF assms prod.collapse [symmetric]])

lemmas then_inv = andThen_inv [where P = payout_inv]
lemmas commit_inv = committed_inv [where P = payout_inv]

text \<open>One row per identifier, per debit and per reference.\<close>

lemma map_filter_member: "x \<in> set xs \<Longrightarrow> g x = Some k \<Longrightarrow> k \<in> set (List.map_filter g xs)"
  by (induction xs) (auto simp: List.map_filter_simps split: option.splits)

lemma map_filter_inj:
  "distinct (List.map_filter g xs) \<Longrightarrow> x \<in> set xs \<Longrightarrow> y \<in> set xs \<Longrightarrow> g x = Some k \<Longrightarrow> g y = Some k \<Longrightarrow> x = y"
  by (induction xs) (auto simp: List.map_filter_simps map_filter_member split: option.splits)

lemma row_unique:
  assumes "unique_mpesa ms" and "x \<in> set ms" "y \<in> set ms"
  shows "mt_id x = mt_id y \<Longrightarrow> x = y" "mt_reference x = mt_reference y \<Longrightarrow> x = y"
    "mt_transactionId x = Some k \<Longrightarrow> mt_transactionId y = Some k \<Longrightarrow> x = y"
  using assms distinct_key_eq [of mt_id] distinct_key_eq [of mt_reference] map_filter_inj [of mt_transactionId]
  by (auto simp: unique_mpesa_def)

lemma mpesaById_Some: "mpesaById s k = Some m \<Longrightarrow> m \<in> set (mpesaTransactions s) \<and> mt_id m = k"
  by (auto simp: mpesaById_def dest: findFirst_Some)

text \<open>An open row of the path fails, and its debit is given back.\<close>

definition fails :: "mpesa_transaction \<Rightarrow> mpesa_transaction \<Rightarrow> bool" where
  "fails m m' \<longleftrightarrow> same_keys m m' \<and> mt_tenantId m' = mt_tenantId m \<and> mt_referenceType m' = mt_referenceType m \<and>
     mt_referenceId m' = mt_referenceId m \<and> mt_amount m' = mt_amount m \<and>
     mt_status m' = TransactionStatus.FAILED \<and>
     (mt_providerSubmissionState m' = Some LOCAL_CREATED \<longrightarrow> mt_providerSubmissionState m = Some LOCAL_CREATED)"

lemma refund_inv:
  assumes inv: "payout_inv s" and m: "m \<in> set (mpesaTransactions s)" "payoutRow m" "P m" "mt_transactionId m = Some k"
    and P: "\<And>x. P x \<Longrightarrow> mt_id x = mt_id m" and f: "fails m (f m)"
    and touch: "touchMpesa P f s = (n, s1)" and s1': "same_path s1 s1'"
    and rev: "reverseTransaction E b s1' (mt_tenantId m) k a = Inr ((rv, e), s2)"
  shows "payout_inv s2"
proof -
  let ?h = "\<lambda>x. if x = m then f m else x"
  have P_iff: "P x \<longleftrightarrow> x = m" if "x \<in> set (mpesaTransactions s)" for x
    using row_unique(1) [OF payout_invD(2) [OF inv] that m(1)] P m(3) by blast
  have s1: "mpesaTransactions s1 = map ?h (mpesaTransactions s)" "transactions s1 = transactions s"
    "payoutIntents s1 = payoutIntents s" "payoutQueue s1 = payoutQueue s" "providerOrders s1 = providerOrders s"
    using touch P_iff by (auto simp: touchMpesa_def updateMany_def)
  from rev obtain orig where orig: "orig \<in> set (transactions s1')" "tx_id orig = k"
      "tx_status orig \<noteq> TransactionStatus.REVERSED"
    and tr: "transactions s2 = map (\<lambda>x. if tx_id x = k then x\<lparr>tx_status := TransactionStatus.REVERSED\<rparr> else x)
       (transactions s1') @ [rv]" "tx_id rv \<notin> tx_id ` set (transactions s1')"
      "tx_reference rv = tx_reference orig @ ''-REVERSAL''" "ledger_only s1' s2"
    by (rule reverse_transactions)
  let ?g = "\<lambda>x. if tx_id x = k then x\<lparr>tx_status := TransactionStatus.REVERSED\<rparr> else x"
  have M: "mpesaTransactions s2 = map ?h (mpesaTransactions s)" and T: "transactions s2 = map ?g (transactions s) @ [rv]"
    and rest: "payoutIntents s2 = payoutIntents s" "payoutQueue s2 = payoutQueue s" "providerOrders s2 = providerOrders s"
    using tr s1 s1' by (simp_all add: same_path_def ledger_only_def)
  have fresh: "tx_id rv \<notin> tx_id ` set (transactions s)" using tr(2) s1 s1' by (simp add: same_path_def)
  have fm: "payoutRow (f m)" "same_keys m (f m)" "mt_status (f m) = TransactionStatus.FAILED"
      "mt_transactionId (f m) = Some k"
      "mt_providerSubmissionState (f m) = Some LOCAL_CREATED \<longrightarrow> mt_providerSubmissionState m = Some LOCAL_CREATED"
    using f m payout_invD(4) [OF inv m(1,2)] by (auto simp: fails_def payoutRow_def same_keys_def row_ok_def)
  have tok: "row_ok s2 y" if "y \<in> set (mpesaTransactions s2)" "payoutRow y" for y
  proof -
    from that M obtain x where x: "x \<in> set (mpesaTransactions s)" "y = ?h x" by auto
    have px: "payoutRow x" using that x m by (cases "x = m") auto
    from payout_invD(4) [OF inv x(1) px] obtain t where t: "t \<in> set (transactions s)" "mt_transactionId x = Some (tx_id t)"
        "tx_tenantId t = mt_tenantId x" "mt_conversationId x = Some (orderOf (tx_id t))"
        "mt_reference x = b2cReference (orderOf (tx_id t))" "mt_referenceType x = Some FOSA_WITHDRAWAL"
        "mt_status x = TransactionStatus.FAILED \<longleftrightarrow> tx_status t = TransactionStatus.REVERSED"
        "\<exists>i. mt_referenceId x = Some i \<and> payout_debit t i (mt_amount x)"
      by (auto simp: row_ok_def)
    have "?g t \<in> set (transactions s2)" using t(1) T by auto
    moreover have "mt_transactionId y = Some (tx_id (?g t)) \<and> tx_tenantId (?g t) = mt_tenantId y \<and>
       mt_conversationId y = Some (orderOf (tx_id (?g t))) \<and> mt_reference y = b2cReference (orderOf (tx_id (?g t))) \<and>
       mt_referenceType y = Some FOSA_WITHDRAWAL \<and>
       (\<exists>i. mt_referenceId y = Some i \<and> payout_debit (?g t) i (mt_amount y)) \<and>
       (mt_status y = TransactionStatus.FAILED \<longleftrightarrow> tx_status (?g t) = TransactionStatus.REVERSED)"
    proof (cases "x = m")
      case True
      then show ?thesis using t x m f by (simp add: fails_def same_keys_def)
    next
      case False
      then have "tx_id t \<noteq> k" using row_unique(3) [OF payout_invD(2) [OF inv] x(1) m(1)] t(2) m(4) by auto
      with False show ?thesis using t x by simp
    qed
    ultimately show ?thesis unfolding row_ok_def by blast
  qed
  have up: "?h x \<in> set (mpesaTransactions s2)" if "x \<in> set (mpesaTransactions s)" for x using that M by auto
  have paid: "paid_out s2 i" if "paid_out s i \<or> i = k" for i
  proof (cases "i = k")
    case True
    with up [OF m(1)] fm show ?thesis by (auto simp: paid_out_def)
  next
    case False
    with that obtain x where "x \<in> set (mpesaTransactions s)" "payoutRow x" "mt_transactionId x = Some i"
      by (auto simp: paid_out_def)
    with False m(4) up [of x] show ?thesis by (cases "x = m") (auto simp: paid_out_def)
  qed
  have "intent_ok s2 p" if "p \<in> set (payoutIntents s2)" for p
  proof -
    have "intent_ok s p" using that rest payout_invD(5) [OF inv] by simp
    then obtain t where t: "t \<in> set (transactions s)" "tx_id t = pi_sourceTransactionId p" "tx_tenantId t = pi_tenantId p"
        "tx_status t = TransactionStatus.REVERSED \<longrightarrow> paid_out s (tx_id t)"
        "payout_debit t (pi_referenceId p) (pi_amount p)" and o: "pi_referenceType p = FOSA_WITHDRAWAL"
        "pi_sourceTransactionId p \<noteq> ''''" "CHR '':'' \<notin> set (pi_sourceTransactionId p)"
        "pi_dispatchKey p = ''FOSA_WITHDRAWAL:'' @ pi_tenantId p @ '':'' @ pi_sourceTransactionId p"
      by (auto simp: intent_ok_def)
    have "?g t \<in> set (transactions s2)" using t(1) T by auto
    moreover have "tx_id (?g t) = pi_sourceTransactionId p \<and> tx_tenantId (?g t) = pi_tenantId p \<and>
        payout_debit (?g t) (pi_referenceId p) (pi_amount p) \<and>
        (tx_status (?g t) = TransactionStatus.REVERSED \<longrightarrow> paid_out s2 (tx_id (?g t)))"
      using t paid by auto
    ultimately show ?thesis using o unfolding intent_ok_def by blast
  qed
  moreover have "debit_ok s2 t" if "t \<in> set (transactions s2)" for t
  proof (cases "t = rv")
    case True
    then show ?thesis using tr(3) by (auto simp: debit_ok_def reversalReference_def)
  next
    case False
    with that T obtain u where "u \<in> set (transactions s)" "t = ?g u" by auto
    with payout_invD(7) [OF inv] show ?thesis by (fastforce simp: debit_ok_def rest)
  qed
  moreover have "order_ok s2 i" if "i \<in> set (providerOrders s2)" for i
  proof -
    from that rest payout_invD(8) [OF inv] obtain x where x: "x \<in> set (mpesaTransactions s)" "payoutRow x"
        "mt_reference x = b2cReference i" "mt_providerSubmissionState x \<noteq> Some LOCAL_CREATED"
      by (auto simp: order_ok_def)
    then show ?thesis using up [of x] fm m by (cases "x = m") (auto simp: order_ok_def same_keys_def)
  qed
  moreover have "distinct (map tx_id (transactions s2))"
  proof -
    have "map tx_id (map ?g (transactions s)) = map tx_id (transactions s)" by auto
    then have "map tx_id (transactions s2) = map tx_id (transactions s) @ [tx_id rv]"
      unfolding T by (simp only: map_append list.map)
    with payout_invD(1) [OF inv] fresh show ?thesis by simp
  qed
  moreover have "unique_mpesa (mpesaTransactions s2)"
    unfolding M using unique_update [OF payout_invD(2) [OF inv], of "\<lambda>x. x = m" f] fm(2) by (simp cong: if_cong)
  moreover have "job_ok s2 j" if "j \<in> set (payoutQueue s2)" for j
    using that rest payout_invD(6) [OF inv] by (simp add: job_ok_def)
  ultimately show ?thesis using tok rest payout_invD(3) [OF inv] by (simp add: payout_inv_def)
qed

text \<open>New debits with their intents.\<close>

lemma grow_inv:
  assumes inv: "payout_inv s" and T: "transactions s' = transactions s @ ts" and I: "payoutIntents s' = payoutIntents s @ ps"
    and rest: "mpesaTransactions s' = mpesaTransactions s" "payoutQueue s' = payoutQueue s"
      "providerOrders s' = providerOrders s"
    and d: "distinct (map tx_id (transactions s'))" and t: "\<forall>t \<in> set ts. debit_ok s' t" and p: "\<forall>p \<in> set ps. intent_ok s' p"
  shows "payout_inv s'"
proof -
  have paid: "paid_out s' = paid_out s" by (simp add: paid_out_def rest fun_eq_iff)
  have "row_ok s' m" if "row_ok s m" for m using that T by (auto simp: row_ok_def)
  moreover have "intent_ok s' q" if "intent_ok s q" for q using that T by (auto simp: intent_ok_def paid)
  moreover have "job_ok s' j" if "job_ok s j" for j using that I by (auto simp: job_ok_def)
  moreover have "debit_ok s' u" if "debit_ok s u" for u using that I by (auto simp: debit_ok_def)
  moreover have "order_ok s' = order_ok s" by (simp add: order_ok_def rest fun_eq_iff)
  ultimately show ?thesis using inv d t p by (auto simp: payout_inv_def T I rest)
qed

text \<open>Progress of an intent, and its job in the queue.\<close>

definition same_intent :: "payout_intent \<Rightarrow> payout_intent \<Rightarrow> bool" where
  "same_intent p p' \<longleftrightarrow> pi_referenceType p' = pi_referenceType p \<and> pi_sourceTransactionId p' = pi_sourceTransactionId p \<and>
     pi_dispatchKey p' = pi_dispatchKey p \<and> pi_tenantId p' = pi_tenantId p \<and>
     pi_referenceId p' = pi_referenceId p \<and> pi_amount p' = pi_amount p"

lemma updateIntent_inv:
  assumes inv: "payout_inv s" and f: "\<And>p. same_intent p (f p)"
  shows "payout_inv (updateIntent P f s)"
proof -
  let ?h = "\<lambda>p. if P p then f p else p" and ?s = "updateIntent P f s"
  have h: "same_intent p (?h p)" for p using f by (simp add: same_intent_def)
  have I: "payoutIntents ?s = map ?h (payoutIntents s)" by (simp add: updateIntent_def)
  have up: "?h p \<in> set (payoutIntents ?s)" if "p \<in> set (payoutIntents s)" for p
    unfolding I set_map by (rule imageI [OF that, where f = ?h])
  have job: "job_ok ?s j" if job: "job_ok s j" for j
  proof -
    from job obtain p where "p \<in> set (payoutIntents s)" "pj_sourceTransactionId j = Some (pi_sourceTransactionId p)"
      "pj_tenantId j = pi_tenantId p" "pj_referenceType j = FOSA_WITHDRAWAL" "pj_referenceId j = pi_referenceId p"
      "pj_amount j = pi_amount p" by (auto simp: job_ok_def)
    with h [of p] up [of p] show ?thesis unfolding job_ok_def same_intent_def by (intro conjI bexI [of _ "?h p"]) auto
  qed
  have debit: "debit_ok ?s t" if debit: "debit_ok s t" for t
    unfolding debit_ok_def
  proof (intro impI)
    assume "startsWith (tx_reference t) ''MPESA_WD-''" "\<not> reversalReference (tx_reference t)"
    with debit obtain p where "p \<in> set (payoutIntents s)" "pi_sourceTransactionId p = tx_id t" "pi_tenantId p = tx_tenantId t"
      by (auto simp: debit_ok_def)
    with h [of p] show "\<exists>p \<in> set (payoutIntents ?s). pi_sourceTransactionId p = tx_id t \<and> pi_tenantId p = tx_tenantId t"
      unfolding same_intent_def using up [of p] by (intro bexI [of _ "?h p"]) auto
  qed
  have "intent_ok ?s (?h p)" if "intent_ok s p" for p
    using that h [of p] by (simp add: intent_ok_def paid_out_def updateIntent_def same_intent_def)
  then have "\<forall>q \<in> set (payoutIntents ?s). intent_ok ?s q"
    using payout_invD(5) [OF inv] unfolding I set_map by blast
  moreover have "row_ok ?s = row_ok s" "order_ok ?s = order_ok s"
    by (simp_all add: row_ok_def order_ok_def updateIntent_def fun_eq_iff)
  moreover have "transactions ?s = transactions s" "mpesaTransactions ?s = mpesaTransactions s"
    "payoutQueue ?s = payoutQueue s" "providerOrders ?s = providerOrders s" by (simp_all add: updateIntent_def)
  ultimately show ?thesis using inv job debit by (simp add: payout_inv_def)
qed

lemma addPayoutJob_inv: "payout_inv s \<Longrightarrow> job_ok s j \<Longrightarrow> payout_inv (addPayoutJob j s)"
  by (auto simp: addPayoutJob_def payout_inv_def payout_defs)

lemma dispatchIntent_inv:
  assumes "payout_inv s" and "dispatchIntent now q k s = (b, s')"
  shows "payout_inv s'"
proof (cases "findFirst (\<lambda>p. pi_id p = k) (payoutIntents s)")
  case None
  with assms show ?thesis by (simp add: dispatchIntent_def)
next
  case (Some p)
  then have p: "p \<in> set (payoutIntents s)" by (auto dest: findFirst_Some)
  have job: "job_ok s (intentJob p)"
    using p payout_invD(5) [OF assms(1) p] by (auto simp: job_ok_def intentJob_def intent_ok_def)
  have u: "payout_inv (updateIntent P f t)" if "payout_inv t" "\<And>p. same_intent p (f p)" for P f t
    using that by (rule updateIntent_inv)
  show ?thesis
    using assms Some addPayoutJob_inv [OF assms(1) job]
    by (auto simp: dispatchIntent_def markQueueFailure_def same_intent_def split: if_splits intro!: u)
qed

lemma markDelivered_inv: "payout_inv s \<Longrightarrow> markDelivered now a b k s = Inr (u, s') \<Longrightarrow> payout_inv s'"
  by (auto simp: markDelivered_def Let_def res_simps same_intent_def intro!: updateIntent_inv)

lemma markDeadLetter_inv: "payout_inv s \<Longrightarrow> markDeadLetter now j s = Inr (u, s') \<Longrightarrow> payout_inv s'"
  by (auto simp: markDeadLetter_def Let_def res_simps same_intent_def payout_inv_audits
      intro!: updateIntent_inv split: option.splits if_splits)

text \<open>A new row, and the one sending that it allows.\<close>

lemma newRow_inv:
  assumes E: "decimal_runtime E" and inv: "payout_inv s" and job: "job_ok s j" "pj_sourceTransactionId j = Some k" "k \<noteq> ''''"
    and run: "createMpesa E (b2cRow E now j b a (orderOf k)) s = Inr (r, s')"
  shows "payout_inv s'" "r \<in> set (mpesaTransactions s')" "payoutRow r" "mt_conversationId r = Some (orderOf k)"
proof -
  from run have r: "r = (b2cRow E now j b a (orderOf k))\<lparr>mt_id := uuid E (id_count s)\<rparr>"
    and s': "s' = s\<lparr>mpesaTransactions := mpesaTransactions s @ [r], id_count := Suc (id_count s)\<rparr>"
    and u: "unique_mpesa (mpesaTransactions s @ [r])"
    by (auto simp: createMpesa_def Let_def res_simps)
  show "r \<in> set (mpesaTransactions s')" by (simp add: s')
  show pr: "payoutRow r" and "mt_conversationId r = Some (orderOf k)"
    using job by (auto simp: r b2cRow_def payoutRow_def)
  from job obtain p where p: "p \<in> set (payoutIntents s)" "pi_sourceTransactionId p = k" "pj_tenantId j = pi_tenantId p"
    "pj_referenceType j = FOSA_WITHDRAWAL" "pj_referenceId j = pi_referenceId p" "pj_amount j = pi_amount p"
    by (auto simp: job_ok_def)
  from payout_invD(5) [OF inv p(1)] obtain t where t: "t \<in> set (transactions s)" "tx_id t = k" "tx_tenantId t = pi_tenantId p"
    "tx_status t = TransactionStatus.REVERSED \<longrightarrow> paid_out s k" "payout_debit t (pi_referenceId p) (pi_amount p)"
    using p by (auto simp: intent_ok_def)
  have amount: "dp4 E (pi_amount p) = pi_amount p"
    using t(5) by (intro decimal_runtime.dp4_exact [OF E]) (simp add: payout_debit_def)
  have rk: "mt_transactionId r = Some k" using job(2,3) by (simp add: r b2cRow_def nonEmpty_def)
  have "\<not> paid_out s k"
  proof
    assume "paid_out s k"
    then obtain x where x: "x \<in> set (mpesaTransactions s)" "mt_transactionId x = Some k" by (auto simp: paid_out_def)
    then have "x = r" using row_unique(3) [OF u, of x r k] rk by simp
    with x(1) u show False by (auto simp: unique_mpesa_def)
  qed
  then have row: "row_ok s' r"
    using t p rk job(2) amount unfolding row_ok_def
    by (intro bexI [of _ t]) (auto simp: s' r b2cRow_def b2cReference_def)
  have old: "row_ok s' m = row_ok s m" "debit_ok s' d = debit_ok s d" "job_ok s' i = job_ok s i" for m d i
    by (simp_all add: s' row_ok_def debit_ok_def job_ok_def)
  have "paid_out s' i" if "paid_out s i" for i using that by (auto simp: s' paid_out_def)
  then have "intent_ok s' q" if "intent_ok s q" for q using that by (auto simp: s' intent_ok_def)
  moreover have "order_ok s' x" if "order_ok s x" for x using that by (auto simp: s' order_ok_def)
  moreover have "transactions s' = transactions s" "payoutIntents s' = payoutIntents s" "payoutQueue s' = payoutQueue s"
    "providerOrders s' = providerOrders s" "mpesaTransactions s' = mpesaTransactions s @ [r]" by (simp_all add: s')
  ultimately show "payout_inv s'" using inv u row old by (auto simp: payout_inv_def)
qed

lemma send_inv:
  assumes inv: "payout_inv s" and m: "m \<in> set (mpesaTransactions s)" "payoutRow m" "mt_conversationId m = Some x"
    and touch: "touchMpesa (\<lambda>y. mt_id y = mt_id m \<and> openStatus y \<and> mt_providerSubmissionState y = Some LOCAL_CREATED)
      (\<lambda>y. y\<lparr>mt_providerSubmissionState := Some SEND_ATTEMPTED, mt_providerSendAttemptedAt := Some now\<rparr>) s = (n, s1)"
    and n: "n \<noteq> 0"
  shows "payout_inv (s1\<lparr>providerOrders := providerOrders s1 @ [x]\<rparr>)"
proof -
  have s1: "payout_inv s1"
    by (rule touch_inv [OF inv _ touch]) (auto simp: same_keys_def keeps_def payoutRow_def provider_states)
  from touch n obtain y where "y \<in> set (mpesaTransactions s)" "mt_id y = mt_id m"
      "mt_providerSubmissionState y = Some LOCAL_CREATED" "openStatus y"
    by (auto simp: touchMpesa_def updateMany_def filter_empty_conv)
  then have mL: "mt_providerSubmissionState m = Some LOCAL_CREATED" "openStatus m"
    using row_unique(1) [OF payout_invD(2) [OF inv] _ m(1)] by auto
  have mref: "mt_reference m = b2cReference x"
    using payout_invD(4) [OF inv m(1,2)] m(3) by (auto simp: row_ok_def)
  have o: "providerOrders s1 = providerOrders s" using touch by (auto simp: touchMpesa_def updateMany_def)
  have "x \<notin> set (providerOrders s)"
  proof
    assume "x \<in> set (providerOrders s)"
    from payout_invD(8) [OF inv this] obtain z where "z \<in> set (mpesaTransactions s)" "mt_reference z = b2cReference x"
      "mt_providerSubmissionState z \<noteq> Some LOCAL_CREATED" by (auto simp: order_ok_def)
    then show False using row_unique(2) [OF payout_invD(2) [OF inv] _ m(1), of z] mref mL by auto
  qed
  moreover have "order_ok s1 x"
  proof -
    let ?m = "m\<lparr>mt_providerSubmissionState := Some SEND_ATTEMPTED, mt_providerSendAttemptedAt := Some now\<rparr>"
    have "?m \<in> set (mpesaTransactions s1)" using touch m(1) mL by (auto simp: touchMpesa_def updateMany_def)
    then show ?thesis unfolding order_ok_def
      by (rule bexI [rotated]) (use mref m(3) in \<open>auto simp: payoutRow_def provider_states\<close>)
  qed
  ultimately show ?thesis using s1 o by (auto simp: payout_inv_def payout_defs)
qed

text \<open>Generated identifiers: not empty, and without a colon.\<close>

definition uuid_ok :: "env \<Rightarrow> bool" where
  "uuid_ok E \<longleftrightarrow> (\<forall>n. uuid E n \<noteq> '''' \<and> CHR '':'' \<notin> set (uuid E n))"

lemma postEntry_new_row:
  assumes run: "postEntry E inTx s p = Inr ((t, e), s')" and new: "t \<notin> set (transactions s)"
  shows "(\<exists>n. tx_id t = uuid E n) \<and> JOURNAL_TO_TRANSACTION_TYPE (ep_journalType p) = Some (tx_type t) \<and>
    tx_accountId t = ep_accountId p \<and> tx_amount t = dp4 E (ep_amount p) \<and> 0 < tx_amount t"
proof -
  from run obtain u s0 s1 r where s0: "s0 = s\<lparr>systemUserIdCache := systemUserIdCache s0\<rparr>"
    and pos: "0 < dp4 E (ep_amount p)"
    and body: "postEntryBody E s0 p u (dp4 E (ep_amount p)) = Inr ((t, e, r), s1)"
    by (rule postEntry_cases)
  have tr: "transactions s0 = transactions s" by (subst s0) simp
  have "\<not> r"
  proof
    assume r
    with body have "transactionByReference s0 (ep_tenantId p) (ep_reference p) = Some t"
      by (auto dest: postEntryBody_replayed)
    with new tr show False by (auto simp: transactionByReference_def dest: findFirst_Some)
  qed
  with body have "postEntryBody E s0 p u (dp4 E (ep_amount p)) = Inr ((t, e, False), s1)" by simp
  then show ?thesis by (rule postEntryBody_fresh) (use pos in \<open>auto simp: createTransaction_Inr\<close>)
qed

lemma last_colon:
  assumes "a @ CHR '':'' # x = b @ CHR '':'' # y" and "CHR '':'' \<notin> set x" "CHR '':'' \<notin> set y"
  shows "x = y"
proof -
  have "rev x = takeWhile (\<lambda>c. c \<noteq> CHR '':'') (rev (a @ CHR '':'' # x))"
    using assms(2) by (auto simp: takeWhile_append)
  moreover have "rev y = takeWhile (\<lambda>c. c \<noteq> CHR '':'') (rev (b @ CHR '':'' # y))"
    using assms(3) by (auto simp: takeWhile_append)
  ultimately show ?thesis using assms(1) by (metis rev_rev_ident)
qed

lemma reversal_key:
  assumes "reversalReference (x @ CHR ''-'' # k)"
  shows "reversalReference (CHR ''-'' # k)"
proof -
  from assms obtain y where y: "x @ CHR ''-'' # k = y @ ''-REVERSAL''" by (auto simp: reversalReference_def)
  then consider us where "x = y @ us" "us @ CHR ''-'' # k = ''-REVERSAL''" | us where "CHR ''-'' # k = us @ ''-REVERSAL''"
    by (auto simp: append_eq_append_conv2)
  then show ?thesis
  proof cases
    case 1
    then have "us = []" by (cases us; cases "tl us") (auto simp: append_eq_Cons_conv Cons_eq_append_conv)
    with 1 show ?thesis by (auto simp: reversalReference_def intro: exI [of _ "[]"])
  next
    case 2
    then show ?thesis by (auto simp: reversalReference_def)
  qed
qed

end
