(* ===== verification/Payout_Safety.thy ===== *)
theory Payout_Safety
  imports Payout_Invariant
begin

section \<open>Answers of the provider\<close>

definition isPayout :: "db \<Rightarrow> ident \<Rightarrow> bool" where
  "isPayout s k \<longleftrightarrow> (\<forall>m \<in> set (mpesaTransactions s). mt_id m = k \<longrightarrow> payoutRow m)"

lemmas row_simps = same_keys_def keeps_def fails_def payoutRow_def provider_states openStatus_def isPayout_def

lemma isPayoutI: "payout_inv s \<Longrightarrow> m \<in> set (mpesaTransactions s) \<Longrightarrow> payoutRow m \<Longrightarrow> isPayout s (mt_id m)"
  using row_unique(1) [OF payout_invD(2)] by (metis isPayout_def)

lemma touch_isPayout:
  assumes "touchMpesa P f s = (n, s')" and "isPayout s k"
    and "\<And>m. m \<in> set (mpesaTransactions s) \<Longrightarrow> P m \<Longrightarrow> mt_id (f m) = mt_id m \<and> (payoutRow m \<longrightarrow> payoutRow (f m))"
  shows "isPayout s' k"
  using assms by (fastforce simp: touchMpesa_def updateMany_def isPayout_def)

lemma outcomeUnknown_inv:
  assumes inv: "payout_inv s" and k: "isPayout s k" and run: "markMwaloniOutcomeUnknown now k s = Inr (u, s')"
  shows "payout_inv s'"
proof (cases "mpesaById s k")
  case None
  with run inv show ?thesis by (simp add: markMwaloniOutcomeUnknown_def)
next
  case (Some row)
  obtain n s1 where touch: "touchMpesa (\<lambda>m. mt_id m = k \<and> openStatus m)
      (\<lambda>m. m\<lparr>mt_status := TransactionStatus.RECON_PENDING, mt_providerSubmissionState := Some OUTCOME_UNKNOWN,
         mt_failureReason := Some ''MWALONI_PROVIDER_SEND_OUTCOME_UNKNOWN''\<rparr>) s = (n, s1)" by fastforce
  have "payout_inv s1" by (rule touch_inv [OF inv _ touch]) (use k in \<open>auto simp: row_simps\<close>)
  with run Some touch show ?thesis
    by (auto simp: markMwaloniOutcomeUnknown_def res_simps payout_inv_audits split: if_splits)
qed

lemma mismatch_inv:
  assumes inv: "payout_inv s" and m: "m \<in> set (mpesaTransactions s)" "payoutRow m"
    and run: "markMwaloniMismatchReconciliation now m s = Inr (u, s')"
  shows "payout_inv s'"
proof -
  obtain n s1 where touch: "touchMpesa (\<lambda>x. mt_id x = mt_id m \<and> openStatus x)
      (\<lambda>m. m\<lparr>mt_status := TransactionStatus.RECON_PENDING, mt_providerSubmissionState := Some OUTCOME_UNKNOWN,
         mt_failureReason := Some ''MWALONI_PROVIDER_RESPONSE_MISMATCH'',
         mt_callbackPayload := Some OtherPayload\<rparr>) s = (n, s1)" by fastforce
  have "payout_inv s1"
    by (rule touch_inv [OF inv _ touch]) (use isPayoutI [OF inv m] in \<open>auto simp: row_simps\<close>)
  with run touch show ?thesis
    by (auto simp: markMwaloniMismatchReconciliation_def res_simps payout_inv_audits split: if_splits)
qed

lemma completeMwaloni_inv:
  assumes inv: "payout_inv s" and k: "isPayout s k" and run: "completeMwaloni now k s = Inr (u, s')"
  shows "payout_inv s'"
proof -
  obtain n s1 where touch: "touchMpesa (\<lambda>m. mt_id m = k \<and> openStatus m)
      (\<lambda>m. m\<lparr>mt_status := TransactionStatus.COMPLETED, mt_providerSubmissionState := Some COMPLETED_STATE,
         mt_resultCode := Some 0, mt_callbackPayload := Some OtherPayload, mt_transactionDate := Some now\<rparr>) s = (n, s1)"
    by fastforce
  have "payout_inv s1" by (rule touch_inv [OF inv _ touch]) (use k in \<open>auto simp: row_simps\<close>)
  with run touch show ?thesis by (auto simp: completeMwaloni_def res_simps split: if_splits)
qed

lemma failMwaloni_inv:
  assumes inv: "payout_inv s" and k: "isPayout s k" and run: "failMwaloniTransaction E k rc reason s = Inr (u, s')"
  shows "payout_inv s'"
proof -
  from run obtain row where row: "mpesaById s k = Some row" by (auto simp: failMwaloniTransaction_def res_simps)
  note m = mpesaById_Some [OF row]
  show ?thesis
  proof (cases "openStatus row")
    case False
    with run row inv show ?thesis by (simp add: failMwaloniTransaction_def)
  next
    case True
    have pr: "payoutRow row" using k m by (simp add: isPayout_def)
    from payout_invD(4) [OF inv _ pr] m obtain t where t: "mt_transactionId row = Some t"
      "mt_referenceType row = Some FOSA_WITHDRAWAL" by (auto simp: row_ok_def)
    obtain n s1 where touch: "touchMpesa (\<lambda>m. mt_id m = k)
        (\<lambda>m. m\<lparr>mt_status := TransactionStatus.FAILED, mt_providerSubmissionState := Some FAILED_STATE,
           mt_resultCode := rc, mt_failureReason := Some reason, mt_callbackPayload := Some OtherPayload\<rparr>) s = (n, s1)"
      by fastforce
    from run row True t touch obtain rv e s2 where
      rev: "reverseTransaction E True s1 (mt_tenantId row) t None = Inr ((rv, e), s2)"
      and s': "s' = writeAudit (mt_tenantId row) ''SYSTEM'' ''MWALONI.B2C.FAILED_REFUNDED'' k s2"
      by (auto simp: failMwaloniTransaction_def res_simps FOSA_WITHDRAWAL_def)
    have "payout_inv s2"
      by (rule refund_inv [OF inv _ pr _ t(1) _ _ touch _ rev]) (use m in \<open>auto simp: row_simps same_path_def\<close>)
    then show ?thesis by (simp add: s')
  qed
qed

lemma applyMwaloniStatus_inv:
  assumes inv: "payout_inv s" and k: "isPayout s k"
  shows "payout_inv (snd (applyMwaloniStatus E now k response s))"
proof (cases "mpesaById s k")
  case None
  with inv show ?thesis by (simp add: applyMwaloniStatus_def)
next
  case (Some m)
  note m = mpesaById_Some [OF Some]
  have pr: "payoutRow m" using k m by (simp add: isPayout_def)
  have pend: "payout_inv (snd (touchMpesa (\<lambda>m. mt_id m = k) (\<lambda>m. m\<lparr>mt_callbackPayload := Some OtherPayload\<rparr>) s))"
    by (rule touch_inv_snd [OF inv]) (auto simp: row_simps)
  have c: "payout_inv (snd (andThen (committed s r) (\<lambda>u s1. (f u, s1))))"
    if "\<And>u s'. r = Inr (u, s') \<Longrightarrow> payout_inv s'" for r :: "(unit \<times> db) res" and f :: "unit \<Rightarrow> refresh res"
    by (rule then_inv, rule commit_inv [OF inv]) (auto intro: that)
  show ?thesis
    unfolding applyMwaloniStatus_def Some Let_def
    using pend mismatch_inv [OF inv conjunct1 [OF m] pr] completeMwaloni_inv [OF inv k] failMwaloni_inv [OF inv k]
    by (auto intro!: c)
qed

lemma applyMwaloniStatus_rollback: "applyMwaloniStatus E now k response s = (Inl e, s') \<Longrightarrow> s' = s"
  by (auto simp: applyMwaloniStatus_def Let_def committed_def andThen_def split: option.splits if_splits sum.splits)

lemma refresh_inv: "payout_inv s \<Longrightarrow> payout_inv (snd (refreshMwaloniB2cStatus E pv now k s))"
proof -
  assume inv: "payout_inv s"
  show ?thesis
  proof (cases "mpesaById s k")
    case None
    with inv show ?thesis by (simp add: refreshMwaloniB2cStatus_def)
  next
    case (Some m)
    note m = mpesaById_Some [OF Some]
    show ?thesis
    proof (cases "nonEmpty (mt_conversationId m)")
      case None
      with Some inv show ?thesis by (simp add: refreshMwaloniB2cStatus_def)
    next
      case (Some c)
      then have "payoutRow m" by (auto simp: payoutRow_def)
      then have "isPayout s k" using isPayoutI [OF inv] m by auto
      from applyMwaloniStatus_inv [OF inv this] inv Some \<open>mpesaById s k = Some m\<close> show ?thesis
        by (auto simp: refreshMwaloniB2cStatus_def split: option.splits)
    qed
  qed
qed

lemma refreshBy_inv: "payout_inv s \<Longrightarrow> payout_inv (snd (refreshMwaloniB2cStatusByConversation E pv now t c s))"
  by (auto simp: refreshMwaloniB2cStatusByConversation_def refresh_inv split: option.splits)

section \<open>Sending\<close>

lemma submit_inv:
  assumes inv: "payout_inv s" and m: "m \<in> set (mpesaTransactions s)" "payoutRow m" "mt_conversationId m = Some order"
  shows "payout_inv (snd (submitMwaloniMobilePayout E pv now (mt_id m) order j s))"
proof -
  let ?k = "mt_id m"
  obtain n s1 where touch: "touchMpesa (\<lambda>x. mt_id x = ?k \<and> openStatus x \<and> mt_providerSubmissionState x = Some LOCAL_CREATED)
      (\<lambda>x. x\<lparr>mt_providerSubmissionState := Some SEND_ATTEMPTED, mt_providerSendAttemptedAt := Some now\<rparr>) s = (n, s1)"
    by fastforce
  have s1: "payout_inv s1" by (rule touch_inv [OF inv _ touch]) (auto simp: row_simps)
  have k1: "isPayout s1 ?k"
    by (rule touch_isPayout [OF touch isPayoutI [OF inv m(1,2)]]) (auto simp: row_simps)
  show ?thesis
  proof (cases "n = 0")
    case True
    with touch s1 show ?thesis by (auto simp: submitMwaloniMobilePayout_def split: option.splits)
  next
    case False
    let ?s2 = "writeAudit (pj_tenantId j) (pj_triggeredBy j) ''MWALONI.B2C.SEND_ATTEMPTED'' ?k s1"
    let ?s3 = "?s2\<lparr>providerOrders := providerOrders ?s2 @ [order]\<rparr>"
    have "payout_inv (s1\<lparr>providerOrders := providerOrders s1 @ [order]\<rparr>)" by (rule send_inv [OF inv m touch False])
    moreover have "same_path (s1\<lparr>providerOrders := providerOrders s1 @ [order]\<rparr>) ?s3"
      by (simp add: same_path_def writeAudit_def)
    ultimately have s3: "payout_inv ?s3" using payout_inv_frame by blast
    have k3: "isPayout ?s3 ?k" using k1 by (simp add: isPayout_def writeAudit_def)
    have unknown: "payout_inv (snd (andThen (committed t (markMwaloniOutcomeUnknown now ?k t)) (\<lambda>_ s'.
        (Inr (order, ?k), scheduleB2cTimeoutCheck a b c order s'))))" if "payout_inv t" "isPayout t ?k" for t a b c
      by (rule then_inv, rule commit_inv [OF that(1)])
        (auto simp: payout_inv_audits intro: outcomeUnknown_inv [OF that])
    obtain n4 s4 where touch4: "touchMpesa (\<lambda>x. mt_id x = ?k)
        (\<lambda>x. x\<lparr>mt_providerSubmissionState := Some ACCEPTED_STATE\<rparr>) ?s3 = (n4, s4)" by fastforce
    have s4: "payout_inv s4" by (rule touch_inv [OF s3 _ touch4]) (use k3 in \<open>auto simp: row_simps\<close>)
    have k4: "isPayout s4 ?k" by (rule touch_isPayout [OF touch4 k3]) (auto simp: row_simps)
    have a: "payout_inv (snd (applyMwaloniStatus E now ?k response s4))" for response
      by (rule applyMwaloniStatus_inv [OF s4 k4])
    have call: "submitMwaloniMobilePayout E pv now ?k order j s =
      (let unknown = (\<lambda>s. andThen (committed s (markMwaloniOutcomeUnknown now ?k s)) (\<lambda>_ s'.
            (Inr (order, ?k), scheduleB2cTimeoutCheck (pj_referenceId j) (pj_referenceType j) (pj_tenantId j) order s')))
       in case pv_send pv order (pj_phone j) (pj_amount j) of
            None \<Rightarrow> unknown ?s3
          | Some response \<Rightarrow> (case applyMwaloniStatus E now ?k response s4 of
              (Inr _, s5) \<Rightarrow> (Inr (order, ?k), s5) | (Inl _, s5) \<Rightarrow> unknown s5))"
      using touch touch4 False
      by (cases "pv_send pv order (pj_phone j) (pj_amount j)") (simp_all add: submitMwaloniMobilePayout_def Let_def)
    show ?thesis
    proof (cases "pv_send pv order (pj_phone j) (pj_amount j)")
      case None
      then show ?thesis using unknown [OF s3 k3] by (simp add: call)
    next
      case (Some response)
      show ?thesis
      proof (cases "applyMwaloniStatus E now ?k response s4")
        case (Pair r s5)
        show ?thesis
        proof (cases r)
          case (Inl e)
          with Pair have "s5 = s4" by (simp add: applyMwaloniStatus_rollback)
          with Inl Pair Some unknown [OF s4 k4] show ?thesis by (simp add: call)
        next
          case (Inr x)
          with Pair Some a [of response] show ?thesis by (simp add: call)
        qed
      qed
    qed
  qed
qed

text \<open>The worker takes a job that the outbox has put into the queue.\<close>

lemma executeMwaloni_inv:
  assumes E: "decimal_runtime E" and inv: "payout_inv s" and job: "job_ok s j" "pj_sourceTransactionId j = Some k" "k \<noteq> ''''"
  shows "payout_inv (snd (executeMwaloniMobilePayout E pv now j b a s))"
proof -
  have o: "buildMwaloniOrderNumber now j = orderOf k"
    using job(2,3) by (simp add: buildMwaloniOrderNumber_def orderOf_def nonEmpty_def)
  show ?thesis
  proof (cases "findFirst (\<lambda>m. mt_reference m = b2cReference (orderOf k)) (mpesaTransactions s)")
    case (Some m)
    then have m: "m \<in> set (mpesaTransactions s)" "mt_reference m = b2cReference (orderOf k)"
      by (auto dest: findFirst_Some)
    then have pr: "payoutRow m" by (simp add: payoutRow_def b2cReference_def)
    have "mt_conversationId m = Some (orderOf k)"
      using payout_invD(4) [OF inv m(1) pr] m(2) by (auto simp: row_ok_def b2cReference_def)
    from submit_inv [OF inv m(1) pr this] inv Some o show ?thesis
      by (simp add: executeMwaloniMobilePayout_def refresh_inv then_inv Let_def)
  next
    case None
    let ?run = "createMpesa E (b2cRow E now j b a (orderOf k)) s"
    have step: "payout_inv (snd (andThen (submitMwaloniMobilePayout E pv now (mt_id r) (orderOf k) j (writeAudit x u y z s1))
        (\<lambda>_ s2. (Inr (orderOf k, mt_id r), scheduleB2cTimeoutCheck c d e (orderOf k) s2))))"
      if "?run = Inr (r, s1)" for r s1 x u y z c d e
    proof -
      note new = newRow_inv [OF E inv job that]
      have "payout_inv (snd (submitMwaloniMobilePayout E pv now (mt_id r) (orderOf k) j (writeAudit x u y z s1)))"
        by (rule submit_inv) (use new in \<open>simp_all add: writeAudit_def\<close>)
      then show ?thesis by (rule then_inv) (simp add: payout_inv_audits)
    qed
    show ?thesis
    proof (cases ?run)
      case (Inl e)
      with None o inv show ?thesis by (simp add: executeMwaloniMobilePayout_def)
    next
      case (Inr rs)
      then obtain r s1 where "?run = Inr (r, s1)" by (cases rs) auto
      with None o step show ?thesis by (simp add: executeMwaloniMobilePayout_def Let_def)
    qed
  qed
qed

lemma executeB2c_inv:
  assumes E: "decimal_runtime E" and inv: "payout_inv s" and job: "j \<in> set (payoutQueue s)"
  shows "payout_inv (snd (executeB2cDisbursement E pv now j s))"
proof -
  note j = payout_invD(6) [OF inv job]
  then obtain p where p: "p \<in> set (payoutIntents s)" "pj_sourceTransactionId j = Some (pi_sourceTransactionId p)"
    by (auto simp: job_ok_def)
  have k: "pi_sourceTransactionId p \<noteq> ''''" using payout_invD(5) [OF inv p(1)] by (simp add: intent_ok_def)
  have new: "payout_inv (snd (executeMwaloniMobilePayout E pv now j b a s))" for b a
    by (rule executeMwaloni_inv [OF E inv j p(2) k])
  show ?thesis
  proof (cases "findFirst (\<lambda>m. mt_transactionId m = Some (pi_sourceTransactionId p)) (mpesaTransactions s)")
    case None
    with inv new p k show ?thesis
      by (auto simp: executeB2cDisbursement_def nonEmpty_def split: option.splits)
  next
    case (Some m)
    note found = Some
    then have m: "m \<in> set (mpesaTransactions s)" by (auto dest: findFirst_Some)
    show ?thesis
    proof (cases "nonEmpty (mt_conversationId m)")
      case None
      with inv Some p k show ?thesis
        by (auto simp: executeB2cDisbursement_def nonEmpty_def split: option.splits)
    next
      case (Some c)
      then have pr: "payoutRow m" and c: "mt_conversationId m = Some c" by (auto simp: payoutRow_def)
      have mark: "payout_inv (snd (andThen (committed t (markMwaloniOutcomeUnknown now (mt_id m) t)) (\<lambda>_ s2. (Inr (c, mt_id m), s2))))"
        if "same_path s t" for t :: db
      proof -
        have "payout_inv t" "isPayout t (mt_id m)"
          using that inv payout_inv_frame [OF that] isPayoutI [OF inv m pr] by (simp_all add: isPayout_def same_path_def)
        then show ?thesis by (intro then_inv commit_inv) (auto intro: outcomeUnknown_inv)
      qed
      have st: "same_path s (scheduleB2cTimeoutCheck x y z w s)" for x y z w
        by (simp add: scheduleB2cTimeoutCheck_def addTimeoutJob_def same_path_def)
      define t where "t = (if openStatus m then scheduleB2cTimeoutCheck
            (case mt_referenceId m of None \<Rightarrow> pj_referenceId j | Some r \<Rightarrow> r)
            (case mt_referenceType m of None \<Rightarrow> pj_referenceType j | Some r \<Rightarrow> r) (mt_tenantId m) c s else s)"
      have t: "same_path s t" using st by (simp add: t_def same_path_def)
      have "payout_inv t" using inv payout_inv_frame [OF t] by simp
      have call: "executeB2cDisbursement E pv now j s =
        (if pj_referenceType j = ''LOAN_DISBURSEMENT''
         then (Inl (BadRequestException ''Direct M-Pesa loan disbursement execution is disabled''), s)
         else case findFirst (\<lambda>a. acc_id a = pj_referenceId j) (accounts s) of
           None \<Rightarrow> (Inl (NotFoundException ''FOSA account not found for withdrawal''), s)
         | Some account \<Rightarrow>
            if mt_providerSubmissionState m = Some LOCAL_CREATED then
              (if \<not> pv_enabled pv then (Inl providerUnavailable, s)
               else submitMwaloniMobilePayout E pv now (mt_id m) c j s)
            else andThen (if mt_providerSubmissionState m \<in> {Some SEND_ATTEMPTED, Some OUTCOME_UNKNOWN}
              then committed t (markMwaloniOutcomeUnknown now (mt_id m) t) else (Inr (), t))
              (\<lambda>_ s2. (Inr (c, mt_id m), s2)))"
        using found p(2) k Some by (simp add: t_def executeB2cDisbursement_def nonEmpty_def Let_def cong: option.case_cong)
      show ?thesis
        using inv submit_inv [OF inv m pr c] mark [OF t] \<open>payout_inv t\<close> unfolding call
        by (simp split: option.split)
    qed
  qed
qed

lemma processPayoutJob_inv:
  assumes "decimal_runtime E" and "payout_inv s" and "j \<in> set (payoutQueue s)"
  shows "payout_inv (snd (processPayoutJob E pv now j s))"
proof -
  have "payout_inv (snd (case x of (c, k) \<Rightarrow> committed s1 (markDelivered now a b k s1)))"
    if "payout_inv s1" for x :: "string \<times> ident" and s1 a b
    using commit_inv [OF that, of "markDelivered now a b (snd x) s1"] markDelivered_inv [OF that, of now a b "snd x"]
    by (cases x) auto
  then show ?thesis unfolding processPayoutJob_def
    by (intro then_inv [OF executeB2c_inv [OF assms]]) (simp add: split_beta)
qed

lemma onPayoutJobFailed_inv: "payout_inv s \<Longrightarrow> payout_inv (snd (onPayoutJobFailed now a b j s))"
  using commit_inv [of s "markDeadLetter now j s"] markDeadLetter_inv [of s now j] by (auto simp: onPayoutJobFailed_def)

section \<open>The request\<close>

lemma withdrawTx_steps:
  assumes run: "withdrawTx E now s b u phone amount tenantId key = Inr (w, s')"
  obtains a t e s1 p where
    "postEntry E True s (withdrawalEntry tenantId (withdrawalReference tenantId b key) (acc_id a) (dplus E amount 0) u) =
       Inr ((t, e), s1)"
    "upsertPayoutIntent E (withdrawalIntent tenantId (tx_id t) (acc_id a) b phone (dp4 E amount) u now)
      (writeAudit tenantId u ''MPESA.WITHDRAW.INITIATED'' (tx_id t) s1) = Inr (p, s')"
    "findFirst (\<lambda>a. acc_memberId a = b \<and> acc_tenantId a = tenantId \<and> acc_accountType a = FOSA \<and> acc_isActive a)
       (accounts s) = Some a"
    "\<not> availableFosa E a < dplus E amount 0" "w = \<lparr>wd_transactionId = tx_id t, wd_payoutIntentId = pi_id p\<rparr>"
  using run by (auto simp: withdrawTx_def Let_def res_simps)

lemma withdrawTx_inv:
  assumes inv: "payout_inv s" and E: "decimal_runtime E" "uuid_ok E" and amount: "dplus E amount 0 = amount"
    and key: "\<not> reversalReference (CHR ''-'' # key)"
    and run: "withdrawTx E now s b u phone amount tenantId key = Inr (w, s')"
  shows "payout_inv s'"
proof -
  let ?ref = "withdrawalReference tenantId b key"
  from run obtain a t e s1 p where
    post: "postEntry E True s (withdrawalEntry tenantId ?ref (acc_id a) (dplus E amount 0) u) = Inr ((t, e), s1)"
    and up: "upsertPayoutIntent E (withdrawalIntent tenantId (tx_id t) (acc_id a) b phone (dp4 E amount) u now)
      (writeAudit tenantId u ''MPESA.WITHDRAW.INITIATED'' (tx_id t) s1) = Inr (p, s')"
    and "findFirst (\<lambda>a. acc_memberId a = b \<and> acc_tenantId a = tenantId \<and> acc_accountType a = FOSA \<and> acc_isActive a)
       (accounts s) = Some a"
    and "\<not> availableFosa E a < dplus E amount 0" "w = \<lparr>wd_transactionId = tx_id t, wd_payoutIntentId = pi_id p\<rparr>"
    by (rule withdrawTx_steps)
  note tr = postEntry_transactions [OF post]
  have same: "mpesaTransactions s1 = mpesaTransactions s" "payoutIntents s1 = payoutIntents s"
    "payoutQueue s1 = payoutQueue s" "providerOrders s1 = providerOrders s"
    using ledger_only_postEntry [OF post] by (simp_all add: ledger_only_def)
  have t: "tx_tenantId t = tenantId" "tx_reference t = ?ref" using tr(2,3) by (simp_all add: withdrawalEntry_def)
  have wd: "startsWith ?ref ''MPESA_WD-''" by (simp add: withdrawalReference_def startsWith_iff)
  have nrev: "\<not> reversalReference ?ref"
    using key reversal_key [of "''MPESA_WD-'' @ tenantId @ ''-'' @ b" key] by (auto simp: withdrawalReference_def)
  let ?key = "''FOSA_WITHDRAWAL:'' @ tenantId @ '':'' @ tx_id t"
  show ?thesis
  proof (cases "t \<in> set (transactions s)")
    case True
    then have T: "transactions s1 = transactions s" using tr(1) by force
    from payout_invD(7) [OF inv True] wd nrev t obtain q where q: "q \<in> set (payoutIntents s)"
      "pi_sourceTransactionId q = tx_id t" "pi_tenantId q = tenantId" by (auto simp: debit_ok_def)
    then have "pi_dispatchKey q = ?key" using payout_invD(5) [OF inv q(1)] by (simp add: intent_ok_def)
    with q(1) obtain x where "findFirst (\<lambda>p. pi_dispatchKey p = ?key) (payoutIntents s) = Some x"
      using findFirst_ex [of q "payoutIntents s" "\<lambda>p. pi_dispatchKey p = ?key"] by auto
    with up same have "same_path s s'"
      by (auto simp: upsertPayoutIntent_def withdrawalIntent_def writeAudit_def same_path_def T)
    with inv show ?thesis using payout_inv_frame by blast
  next
    case False
    then have T: "transactions s1 = transactions s @ [t]" "tx_id t \<notin> tx_id ` set (transactions s)"
      "tx_status t = TransactionStatus.COMPLETED" using tr(1) by auto
    from postEntry_new_row [OF post False] obtain n where "tx_id t = uuid E n"
      and row: "tx_type t = TransactionType.WITHDRAWAL" "tx_accountId t = acc_id a" "tx_amount t = dp4 E amount" "0 < tx_amount t"
      by (auto simp: withdrawalEntry_def amount)
    then have debit: "payout_debit t (acc_id a) (dp4 E amount)"
      using decimal_runtime.m4_dp4 [OF E(1)] by (simp add: payout_debit_def)
    from \<open>tx_id t = uuid E n\<close> E(2) have id: "tx_id t \<noteq> ''''" "CHR '':'' \<notin> set (tx_id t)" by (simp_all add: uuid_ok_def)
    have none: "findFirst (\<lambda>p. pi_dispatchKey p = ?key) (payoutIntents s) = None"
    proof (rule ccontr)
      assume "findFirst (\<lambda>p. pi_dispatchKey p = ?key) (payoutIntents s) \<noteq> None"
      then obtain q where q: "q \<in> set (payoutIntents s)" "pi_dispatchKey q = ?key" by (auto dest: findFirst_Some)
      from payout_invD(5) [OF inv q(1)] obtain v where "v \<in> set (transactions s)" "tx_id v = pi_sourceTransactionId q"
        and k: "CHR '':'' \<notin> set (pi_sourceTransactionId q)"
          "pi_tenantId q @ CHR '':'' # pi_sourceTransactionId q = tenantId @ CHR '':'' # tx_id t"
        using q(2) by (auto simp: intent_ok_def)
      moreover have "pi_sourceTransactionId q = tx_id t" by (rule last_colon [OF k(2,1) id(2)])
      ultimately show False using T(2) by (metis imageI)
    qed
    from up none same obtain i n where
      p: "p = (withdrawalIntent tenantId (tx_id t) (acc_id a) b phone (dp4 E amount) u now)\<lparr>pi_id := i\<rparr>"
      and s': "s' = (writeAudit tenantId u ''MPESA.WITHDRAW.INITIATED'' (tx_id t) s1)
        \<lparr>payoutIntents := payoutIntents s @ [p], id_count := n\<rparr>"
      by (auto simp: upsertPayoutIntent_def withdrawalIntent_def writeAudit_def Let_def res_simps)
    have s'_eq: "transactions s' = transactions s @ [t]" "payoutIntents s' = payoutIntents s @ [p]"
      "mpesaTransactions s' = mpesaTransactions s" "payoutQueue s' = payoutQueue s" "providerOrders s' = providerOrders s"
      using T same by (simp_all add: s' writeAudit_def)
    show ?thesis
    proof (rule grow_inv [OF inv s'_eq])
      show "distinct (map tx_id (transactions s'))" using payout_invD(1) [OF inv] T(2) by (simp add: s'_eq)
      show "\<forall>x \<in> set [t]. debit_ok s' x" using t by (simp add: debit_ok_def s'_eq p withdrawalIntent_def)
      show "\<forall>x \<in> set [p]. intent_ok s' x"
        using t id T(3) debit by (simp add: intent_ok_def s'_eq p withdrawalIntent_def FOSA_WITHDRAWAL_def)
    qed
  qed
qed

lemma withdrawMpesa_inv:
  assumes inv: "payout_inv s" and E: "decimal_runtime E" "uuid_ok E" and amount: "dplus E amount 0 = amount"
    and key: "\<And>k. key = Some k \<Longrightarrow> \<not> reversalReference (CHR ''-'' # trim k)"
  shows "payout_inv (snd (withdrawMpesa E now q hash reserve s userId phone amount tenantId key))"
proof (cases key)
  case None
  with inv show ?thesis by (simp add: withdrawMpesa_def Let_def)
next
  case (Some k)
  have ex: "payout_inv (snd (executeWithdrawMpesa E now q t b userId p amount tenantId (trim k)))" if t: "payout_inv t" for t b p
    unfolding executeWithdrawMpesa_def
    by (rule then_inv, rule commit_inv [OF t], erule withdrawTx_inv [OF t E amount key [OF Some]])
      (auto intro: dispatchIntent_inv [OF _ prod.collapse [symmetric]])
  have ph: "payout_inv (snd (resolveProfileWithdrawalPhone tenantId userId m u phone s))" for m u
    using inv by (auto simp: resolveProfileWithdrawalPhone_def Let_def auditWithdrawalRejection_def split: list.splits option.splits if_splits)
  show ?thesis
  proof (cases "trim k = '''' \<or> (\<exists>e. resolveMember s userId tenantId = Inl e)")
    case True
    with Some inv show ?thesis by (auto simp: withdrawMpesa_def Let_def)
  next
    case False
    then obtain m u where mu: "resolveMember s userId tenantId = Inr (m, u)" and k: "trim k \<noteq> ''''"
      by (cases "resolveMember s userId tenantId") auto
    have step: "payout_inv (snd (andThen (resolveProfileWithdrawalPhone tenantId userId m u phone s) f))"
      if "\<And>p t. payout_inv t \<Longrightarrow> payout_inv (snd (f p t))" for f :: "string \<Rightarrow> db \<Rightarrow> withdraw_response res \<times> db"
      by (rule then_inv [OF ph]) (rule that)
    have "payout_inv (snd (case r of
          withdraw_reservation.COMPLETED h response \<Rightarrow> if h \<noteq> hash p amount then (Inl e1, t) else (Inr response, t)
        | withdraw_reservation.PROCESSING \<Rightarrow> (Inl e2, t)
        | withdraw_reservation.RESERVED \<Rightarrow> executeWithdrawMpesa E now q t (mb_id m) userId p amount tenantId (trim k)))"
      if "payout_inv t" for t p r e1 e2
      using that ex by (cases r) auto
    with Some mu k show ?thesis by (auto simp: withdrawMpesa_def Let_def intro!: step)
  qed
qed

lemma dispatchDue_inv:
  assumes "payout_inv s"
  shows "payout_inv (snd (dispatchDueIntents now q limit s))"
proof -
  have "payout_inv (snd (fold (\<lambda>p (n, s). let (b, s') = dispatchIntent now (q (pi_id p)) (pi_id p) s
      in (if b then n + 1 else n, s')) ps (m, t)))" if "payout_inv t" for ps and m :: nat and t
    using that
  proof (induction ps arbitrary: m t)
    case (Cons p ps)
    obtain b t' where d: "dispatchIntent now (q (pi_id p)) (pi_id p) t = (b, t')" by fastforce
    with Cons.IH [OF dispatchIntent_inv [OF Cons.prems d]] show ?case by simp
  qed simp
  with assms show ?thesis by (simp add: dispatchDueIntents_def)
qed

section \<open>The end of the wait, and callbacks\<close>

lemma timeout_inv: "payout_inv s \<Longrightarrow> payout_inv (snd (processTimeoutJob E pv now j s))"
proof -
  assume inv: "payout_inv s"
  have mark: "payout_inv (writeAudit x u a k (snd (touchMpesa (\<lambda>y. mt_id y = mt_id m)
      (\<lambda>y. y\<lparr>mt_status := TransactionStatus.RECON_PENDING, mt_failureReason := Some ''B2C_TIMEOUT''\<rparr>) t)))"
    if t: "payout_inv t" and m: "m \<in> set (mpesaTransactions t)" "mt_status m = TransactionStatus.PENDING" for m t x u a k
  proof -
    have "mt_status y = TransactionStatus.PENDING" if "y \<in> set (mpesaTransactions t)" "mt_id y = mt_id m" for y
      using row_unique(1) [OF payout_invD(2) [OF t] that(1) m(1) that(2)] m(2) by simp
    then have "payout_inv (snd (touchMpesa (\<lambda>y. mt_id y = mt_id m)
        (\<lambda>y. y\<lparr>mt_status := TransactionStatus.RECON_PENDING, mt_failureReason := Some ''B2C_TIMEOUT''\<rparr>) t))"
      by (intro touch_inv_snd [OF t]) (simp add: row_simps)
    then show ?thesis by simp
  qed
  have tx: "payout_inv t'" if t: "payout_inv t" and run: "timeoutTx j t = Inr (b, t')" for t b t'
  proof (cases "findFirst (\<lambda>m. mt_tenantId m = tj_tenantId j \<and> mt_conversationId m = Some (tj_conversationId j) \<and>
           mt_referenceId m = Some (tj_referenceId j) \<and> mt_referenceType m = Some (tj_referenceType j) \<and>
           mt_status m = TransactionStatus.PENDING) (mpesaTransactions t)")
    case None
    with t run show ?thesis by (simp add: timeoutTx_def Let_def)
  next
    case (Some m)
    then have m: "m \<in> set (mpesaTransactions t)" "mt_status m = TransactionStatus.PENDING"
      "mt_conversationId m \<noteq> None" "mt_referenceType m = Some (tj_referenceType j)" by (auto dest: findFirst_Some)
    then have "tj_referenceType j = FOSA_WITHDRAWAL"
      using payout_invD(4) [OF t m(1)] by (auto simp: payoutRow_def row_ok_def)
    with Some run mark [OF t m(1,2)] show ?thesis by (auto simp: timeoutTx_def Let_def FOSA_WITHDRAWAL_def)
  qed
  have "payout_inv (snd (case x of (r, over, st) \<Rightarrow> if over then (Inr False, t) else committed t (timeoutTx j t)))"
    if "payout_inv t" for x :: refresh and t
    using that commit_inv [OF that, of "timeoutTx j t"] tx [OF that] by (cases x) auto
  then show ?thesis unfolding processTimeoutJob_def
    by (intro then_inv [OF refreshBy_inv [OF inv]]) (simp add: split_beta)
qed

text \<open>A row of the path as it has been read at some moment: its identifying columns never change.\<close>

definition read_before :: "db \<Rightarrow> mpesa_transaction \<Rightarrow> bool" where
  "read_before s m \<longleftrightarrow> (\<exists>x \<in> set (mpesaTransactions s). payoutRow x \<and> mt_id m = mt_id x \<and> mt_tenantId m = mt_tenantId x \<and>
     mt_transactionId m = mt_transactionId x \<and> mt_referenceType m = mt_referenceType x)"

lemma completeB2c_inv:
  assumes inv: "payout_inv s" and run: "completeB2c now cb m receipt d s = Inr (b, s')"
  shows "payout_inv s'"
proof -
  let ?P = "\<lambda>x. mt_id x = mt_id m \<and> openStatus x"
  from run obtain date n s1 where w: "writeMpesa ?P
       (\<lambda>x. x\<lparr>mt_status := TransactionStatus.COMPLETED, mt_resultCode := Some (br_resultCode cb),
          mt_receipt := Some receipt, mt_transactionDate := Some date, mt_callbackPayload := Some (B2cPayload cb)\<rparr>) s = Inr (n, s1)"
    and s': "s' = s1 \<or> (\<exists>t u a k. s' = writeAudit t u a k s1)"
  proof -
    from run obtain date n s1 where w: "writeMpesa ?P
       (\<lambda>x. x\<lparr>mt_status := TransactionStatus.COMPLETED, mt_resultCode := Some (br_resultCode cb),
          mt_receipt := Some receipt, mt_transactionDate := Some date, mt_callbackPayload := Some (B2cPayload cb)\<rparr>) s = Inr (n, s1)"
      and b: "(if n = 0 then Inr (False, s1) else Inr (True,
        writeAudit (mt_tenantId m) ''SYSTEM'' ''MPESA.DISBURSEMENT.COMPLETED'' (mt_id m) s1)) = (Inr (b, s') :: (bool \<times> db) res)"
      by (auto simp: completeB2c_def res_simps)
    from b have "s' = s1 \<or> (\<exists>t u a k. s' = writeAudit t u a k s1)" by (auto split: if_splits)
    with w that show ?thesis by blast
  qed
  let ?f = "\<lambda>x. x\<lparr>mt_status := TransactionStatus.COMPLETED, mt_resultCode := Some (br_resultCode cb),
          mt_receipt := Some receipt, mt_transactionDate := Some date, mt_callbackPayload := Some (B2cPayload cb)\<rparr>"
  let ?rows = "map (\<lambda>x. if ?P x then ?f x else x) (mpesaTransactions s)"
  have k: "keeps x (if ?P x then ?f x else x)" for x by (auto simp: row_simps)
  from w have u: "unique_mpesa ?rows" and s1: "s1 = s\<lparr>mpesaTransactions := ?rows\<rparr>"
    by (auto simp: writeMpesa_def updateMany_def res_simps)
  have "payout_inv s1" unfolding s1
  proof (rule payout_inv_rows [OF inv u])
    show "\<forall>m' \<in> set ?rows. \<exists>m \<in> set (mpesaTransactions s). keeps m m'" using k by (metis (no_types, lifting) imageE list.set_map)
    show "\<forall>m \<in> set (mpesaTransactions s). \<exists>m' \<in> set ?rows. keeps m m'" using k by (metis (no_types, lifting) image_eqI list.set_map)
  qed
  with s' show ?thesis by auto
qed

lemma applyB2c_inv:
  assumes inv: "payout_inv s" and m: "read_before s m"
  shows "payout_inv (snd (applyB2c E now jsDate cb m s))"
proof -
  from m obtain x where x: "x \<in> set (mpesaTransactions s)" "payoutRow x" "mt_id m = mt_id x" "mt_tenantId m = mt_tenantId x"
    "mt_transactionId m = mt_transactionId x" "mt_referenceType m = mt_referenceType x" by (auto simp: read_before_def)
  from payout_invD(4) [OF inv x(1,2)] x obtain k where k: "mt_transactionId x = Some k" "mt_transactionId m = Some k"
    "mt_referenceType m = Some ''FOSA_WITHDRAWAL''" by (auto simp: row_ok_def FOSA_WITHDRAWAL_def)
  have mism: "payout_inv s'" if run: "markB2cCallbackMismatch cb m s = Inr (u, s')" for u s'
  proof -
    obtain n s1 where touch: "touchMpesa (\<lambda>x. mt_id x = mt_id m \<and> openStatus x)
        (\<lambda>x. x\<lparr>mt_status := TransactionStatus.RECON_PENDING, mt_resultCode := Some (br_resultCode cb),
           mt_failureReason := Some ''B2C_CALLBACK_MISMATCH'', mt_callbackPayload := Some (B2cPayload cb)\<rparr>) s = (n, s1)"
      by fastforce
    have "payout_inv s1" by (rule touch_inv [OF inv _ touch]) (auto simp: row_simps)
    with run touch show ?thesis
      by (auto simp: markB2cCallbackMismatch_def res_simps payout_inv_audits split: if_splits)
  qed
  have refund: "payout_inv s'" if run: "refundB2c E cb m k s = Inr (u, s')" for u s'
  proof -
    obtain n s1 where touch: "touchMpesa (\<lambda>x. mt_id x = mt_id m \<and> openStatus x) (failedB2c cb) s = (n, s1)" by fastforce
    show ?thesis
    proof (cases "n = 0")
      case True
      then have none: "\<forall>y \<in> set (mpesaTransactions s). \<not> (mt_id y = mt_id m \<and> openStatus y)"
        using touch by (auto simp: touchMpesa_def updateMany_def filter_empty_conv)
      have "payout_inv s1" by (rule touch_inv [OF inv _ touch]) (use none in blast)
      with True run touch show ?thesis by (simp add: refundB2c_def)
    next
      case False
      then obtain y where "y \<in> set (mpesaTransactions s)" "mt_id y = mt_id m" "openStatus y"
        using touch by (auto simp: touchMpesa_def updateMany_def filter_empty_conv)
      then have o: "openStatus x" using row_unique(1) [OF payout_invD(2) [OF inv] _ x(1)] x(3) by metis
      from run touch False x(4) obtain rv e s2 where
        rev: "reverseTransaction E True s1 (mt_tenantId x) k None = Inr ((rv, e), s2)"
        and s': "s' = writeAudit (mt_tenantId m) ''SYSTEM'' ''MPESA.DISBURSEMENT.FAILED_REFUNDED'' (mt_id m) s2"
        by (auto simp: refundB2c_def res_simps)
      have "payout_inv s2"
        by (rule refund_inv [OF inv x(1,2) _ k(1) _ _ touch _ rev])
          (use x o in \<open>auto simp: row_simps failedB2c_def same_path_def\<close>)
      then show ?thesis by (simp add: s')
    qed
  qed
  have c: "payout_inv (snd (committed s r))" if "\<And>u s'. r = Inr (u, s') \<Longrightarrow> payout_inv s'" for r :: "(unit \<times> db) res"
    by (rule commit_inv [OF inv that])
  have finished: "payout_inv (snd (andThen (committed s (completeB2c now cb m receipt d s)) (\<lambda>claimed s1. (Inr (), if claimed then s1
        else createAuditOnce t u a i r s1))))" for receipt d t u a i r
    by (rule then_inv, rule commit_inv [OF inv], erule completeB2c_inv [OF inv]) (simp add: payout_inv_audits)
  show ?thesis
  proof (cases "findB2cCallbackMismatches E m (parseB2cResultMeta (br_parameters cb))")
    case (Inl e)
    with inv show ?thesis by (simp add: applyB2c_def Let_def)
  next
    case (Inr ms)
    then show ?thesis
      using c [OF mism] c [OF refund] finished k
      by (cases ms) (simp_all add: applyB2c_def Let_def)
  qed
qed

lemma handleB2c_inv: "payout_inv s \<Longrightarrow> payout_inv (snd (handleB2cCallback E now jsDate cb s))"
proof -
  assume inv: "payout_inv s"
  show ?thesis
  proof (cases "findFirst (\<lambda>m. mt_conversationId m = Some (br_conversationID cb)) (mpesaTransactions s)")
    case None
    with inv show ?thesis by (simp add: handleB2cCallback_def)
  next
    case (Some m)
    then have "m \<in> set (mpesaTransactions s)" "payoutRow m" by (auto simp: payoutRow_def dest: findFirst_Some)
    then have "read_before s m" by (auto simp: read_before_def)
    with applyB2c_inv [OF inv] inv Some show ?thesis by (simp add: handleB2cCallback_def)
  qed
qed

end
