(* ===== verification/Payout_Paths.thy ===== *)
theory Payout_Paths
  imports Payout_Safety
begin

text \<open>
  All the steps of the withdrawal path together: the decisions by hand, the sweep and the daily
  comparison keep the invariant too, the rest of the program is a step that leaves the rows of the
  path alone, and so the invariant holds in every state that these steps reach from a database
  without mobile money.
\<close>

section \<open>Decisions by hand\<close>

lemma createAttempt_path: "createAttempt E row trigger s = Inr (a, s') \<Longrightarrow> same_path s s'"
  by (auto simp: createAttempt_def Let_def res_simps same_path_def)

lemma requireWithdrawal_payout:
  "requireWithdrawal s k t = Inr m \<Longrightarrow> m \<in> set (mpesaTransactions s) \<and> payoutRow m \<and> mt_id m = k \<and> mt_tenantId m = t"
  by (auto simp: requireWithdrawal_def payoutRow_def FOSA_WITHDRAWAL_def res_simps dest: findFirst_Some)

lemma markCompletedWithEvidence_inv:
  assumes inv: "payout_inv s" and run: "markCompletedWithEvidence E s k t a r e = Inr (u, s')"
  shows "payout_inv s'"
proof -
  from run obtain row attempt s1 s2 where
    c: "createAttempt E row MANUAL_COMPLETE s = Inr (attempt, s1)"
    and claim: "claimByHand k t (settledByHand TransactionStatus.COMPLETED ''MANUAL_COMPLETED_WITH_EVIDENCE'') s1 = Inr s2"
    and s': "s' = writeAudit t a ''MPESA.WITHDRAWAL.MANUAL_COMPLETE'' k
       (finishAttempt (wr_id attempt) TransactionStatus.COMPLETED ''MANUAL_COMPLETED_WITH_EVIDENCE'' None s2)"
    by (auto simp: markCompletedWithEvidence_def res_simps)
  have s1: "payout_inv s1" using payout_inv_frame [OF createAttempt_path [OF c]] inv by simp
  obtain n s3 where touch: "touchMpesa (\<lambda>x. mt_id x = k \<and> mt_tenantId x = t \<and> openStatus x)
      (settledByHand TransactionStatus.COMPLETED ''MANUAL_COMPLETED_WITH_EVIDENCE'') s1 = (n, s3)" by fastforce
  have "payout_inv s3" by (rule touch_inv [OF s1 _ touch]) (auto simp: row_simps settledByHand_def)
  with claim touch show ?thesis by (auto simp: s' payout_inv_audits claimByHand_def res_simps)
qed

lemma reverseConfirmedFailure_inv:
  assumes inv: "payout_inv s" and run: "reverseConfirmedFailure E s k t a r e = Inr (u, s')"
  shows "payout_inv s'"
proof -
  let ?f = "\<lambda>x. (settledByHand TransactionStatus.FAILED ''MANUAL_CONFIRMED_PROVIDER_FAILURE'' x)
         \<lparr>mt_failureReason := Some ''MANUAL_CONFIRMED_PROVIDER_FAILURE''\<rparr>"
  let ?P = "\<lambda>x. mt_id x = k \<and> mt_tenantId x = t \<and> openStatus x"
  from run obtain row i attempt s1 s2 rv w s3 where
    row: "requireWithdrawal s k t = Inr row" and i: "mt_transactionId row = Some i"
    and c: "createAttempt E row MANUAL_REVERSE s = Inr (attempt, s1)" and claim: "claimByHand k t ?f s1 = Inr s2"
    and rev: "reverseTransaction E True s2 t i (Some a) = Inr ((rv, w), s3)"
    and s': "s' = writeAudit t a ''MPESA.WITHDRAWAL.MANUAL_REVERSE'' k
       (finishAttempt (wr_id attempt) TransactionStatus.FAILED ''MANUAL_CONFIRMED_PROVIDER_FAILURE'' None s3)"
    by (auto simp: reverseConfirmedFailure_def res_simps)
  have path: "same_path s s1" by (rule createAttempt_path [OF c])
  have s1: "payout_inv s1" using payout_inv_frame [OF path] inv by simp
  from requireWithdrawal_payout [OF row] path
  have m: "row \<in> set (mpesaTransactions s1)" "payoutRow row" "mt_id row = k" "mt_tenantId row = t"
    by (simp_all add: same_path_def)
  obtain n where touch: "touchMpesa ?P ?f s1 = (n, s2)" "n \<noteq> 0"
    using claim by (auto simp: claimByHand_def res_simps split: prod.splits)
  then obtain y where "y \<in> set (mpesaTransactions s1)" "?P y"
    by (auto simp: touchMpesa_def updateMany_def filter_empty_conv)
  then have o: "openStatus row" using row_unique(1) [OF payout_invD(2) [OF s1] _ m(1)] m(3) by metis
  have "payout_inv s3"
    by (rule refund_inv [OF s1 m(1,2) _ i _ _ touch(1), where s1' = s2])
      (use m o rev in \<open>auto simp: row_simps settledByHand_def same_path_def\<close>)
  then show ?thesis by (simp add: s' payout_inv_audits)
qed

lemma controlledResend_inv: "payout_inv s \<Longrightarrow> payout_inv (snd (controlledResend s k t a r e))"
  by (auto simp: controlledResend_def split: sum.splits)

section \<open>The sweep\<close>

lemma completeAttempt_inv:
  assumes inv: "payout_inv s" and run: "completeAttemptAndSchedule rc now a m oc s = Inr (u, s')"
  shows "payout_inv s'"
proof -
  have "payout_inv (snd (touchMpesa (\<lambda>x. mt_id x = mt_id m) (\<lambda>x. x\<lparr>mt_reconciliationAttemptCount := c,
     mt_reconciliationNextRetryAt := d, mt_reconciliationLockedAt := None, mt_reconciliationLockedBy := None,
     mt_manualReviewRequired := b, mt_manualReviewReason := w, mt_reconciliationLastReason := z\<rparr>) s))" for c d b w z
    by (rule touch_inv_snd [OF inv]) (simp add: row_simps)
  with run show ?thesis by (auto simp: completeAttemptAndSchedule_def Let_def res_simps payout_inv_audits)
qed

lemma claimRecon_inv:
  assumes inv: "payout_inv s" and run: "claimRecon rc now k trigger a s = (r, s')"
  shows "payout_inv s'"
proof -
  let ?P = "\<lambda>m. mt_id m = k \<and> openStatus m \<and>
     (case mt_reconciliationLockedAt m of None \<Rightarrow> True | Some d \<Rightarrow> d < now - rc_lockTtlMs rc)"
  let ?f = "\<lambda>m. m\<lparr>mt_reconciliationLockedAt := Some now,
     mt_reconciliationLockedBy := Some (triggerName trigger @ '':'' @ a)\<rparr>"
  obtain n s1 where touch: "touchMpesa ?P ?f s = (n, s1)" by fastforce
  have "payout_inv s1" by (rule touch_inv [OF inv _ touch]) (simp add: row_simps)
  with run touch show ?thesis by (simp add: claimRecon_def)
qed

lemma reviewUncontacted_inv: "payout_inv s \<Longrightarrow> payout_inv (snd (reviewUncontacted rc now a m s))"
  unfolding reviewUncontacted_def
  by (rule then_inv, rule commit_inv) (auto simp: payout_inv_audits intro: completeAttempt_inv)

lemma reviewWithProvider_inv: "payout_inv s \<Longrightarrow> payout_inv (snd (reviewWithProvider E rc pv now u a m s))"
proof -
  assume inv: "payout_inv s"
  have c: "payout_inv (snd (andThen (committed t (completeAttemptAndSchedule rc now a m oc t))
      (\<lambda>_ s3. (r, writeAudit x u y z s3))))" if "payout_inv t" for t oc x y z and r :: "recon_action res"
    using that by (intro then_inv commit_inv) (auto intro: completeAttempt_inv)
  show ?thesis unfolding reviewWithProvider_def Let_def
    by (rule then_inv [OF refresh_inv]) (auto simp: inv intro: c split: option.split)
qed

lemma reconcile_inv:
  assumes inv: "payout_inv s"
  shows "payout_inv (snd (reconcileTransaction E rc pv now k trigger a s))"
proof -
  obtain c s1 where claim: "claimRecon rc now k trigger a s = (c, s1)" by fastforce
  have s1: "payout_inv s1" by (rule claimRecon_inv [OF inv claim])
  have retry: "payout_inv (snd (andThen (committed t (completeAttemptAndSchedule rc now i m oc t)) (\<lambda>_ s5. (r, s5))))"
    if "payout_inv t" for t i m oc and r :: "recon_action res"
    using that by (intro then_inv commit_inv) (auto intro: completeAttempt_inv)
  have review: "payout_inv (snd (if b then reviewWithProvider E rc pv now a i m t else reviewUncontacted rc now i m t))"
    if "payout_inv t" for t b i m
    using that by (simp add: reviewWithProvider_inv reviewUncontacted_inv)
  have step: "payout_inv (snd (case R of (Inr r, s4) \<Rightarrow> (Inr r, s4)
      | (Inl e, s4) \<Rightarrow> andThen (committed s4 (completeAttemptAndSchedule rc now i m oc s4)) (\<lambda>_ s5. (Inr RETRY_SCHEDULED, s5))))"
    if "payout_inv (snd R)" for R :: "recon_action res \<times> db" and i m oc
    using that retry by (cases R; cases "fst R") auto
  show ?thesis
  proof (cases c)
    case None
    with claim s1 show ?thesis by (simp add: reconcileTransaction_def)
  next
    case (Some m)
    have "payout_inv t" if "createAttempt E m trigger s1 = Inr (x, t)" for x t
      using payout_inv_frame [OF createAttempt_path [OF that]] s1 by simp
    then show ?thesis unfolding reconcileTransaction_def claim Some prod.case option.case Let_def
      by (intro then_inv commit_inv [OF s1] step review) auto
  qed
qed

lemma refreshProvider_inv: "payout_inv s \<Longrightarrow> payout_inv (snd (refreshProviderStatus E rc pv now k t a s))"
  by (auto simp: refreshProviderStatus_def reconcile_inv split: sum.splits)

lemma reconcileAll_inv: "payout_inv s \<Longrightarrow> payout_inv (snd (reconcileAll E rc pv now ms n s))"
  by (induction ms arbitrary: n s) (auto intro!: then_inv reconcile_inv)

lemma detectStaleIntent_inv: "payout_inv s \<Longrightarrow> payout_inv (detectStaleIntent now q p s)"
  using dispatchIntent_inv [OF _ prod.collapse [symmetric], of s now q "pi_id p"]
  by (auto simp: detectStaleIntent_def payout_inv_audits split: option.splits)

lemma fold_inv: "(\<And>x s. P s \<Longrightarrow> P (f x s)) \<Longrightarrow> P s \<Longrightarrow> P (fold f xs s)"
  by (induction xs arbitrary: s) auto

lemma sweep_inv: "payout_inv s \<Longrightarrow> payout_inv (snd (runAutomatedSweep E rc pv now q old s))"
  unfolding runAutomatedSweep_def detectStalePayoutIntents_def detectDebitWithoutPayout_def Let_def prod.case
  by (intro then_inv reconcileAll_inv fold_inv [where P = payout_inv])
    (auto intro: detectStaleIntent_inv simp: payout_inv_audits)

section \<open>The daily comparison\<close>

lemma compareRow_inv:
  assumes inv: "payout_inv (snd rs)" and m: "m \<in> set (mpesaTransactions (snd rs))"
    and run: "compareRow E now st m rs = rs'"
  shows "payout_inv (snd rs') \<and> (\<forall>x \<in> set (mpesaTransactions (snd rs)). mt_id x \<noteq> mt_id m \<longrightarrow>
    x \<in> set (mpesaTransactions (snd rs')))"
proof -
  obtain r s where rs: "rs = (r, s)" by (cases rs)
  let ?t = "snd (touchMpesa (\<lambda>x. mt_id x = mt_id m) (\<lambda>x. x\<lparr>mt_status := TransactionStatus.RECON_PENDING\<rparr>) s)"
  have "snd rs' = s \<or> (mt_status m = TransactionStatus.PENDING \<and> snd rs' = ?t)"
    unfolding run [symmetric] rs compareRow_def by (simp add: Let_def split: option.split)
  moreover have "payout_inv ?t" if "mt_status m = TransactionStatus.PENDING"
  proof (rule touch_inv_snd)
    show "payout_inv s" using inv by (simp add: rs)
    fix x assume "x \<in> set (mpesaTransactions s)" "mt_id x = mt_id m"
    then have "x = m" using row_unique(1) [OF payout_invD(2) [OF inv]] m by (simp add: rs)
    with that show "same_keys x (x\<lparr>mt_status := TransactionStatus.RECON_PENDING\<rparr>) \<and>
        keeps x (x\<lparr>mt_status := TransactionStatus.RECON_PENDING\<rparr>)" by (simp add: row_simps)
  qed
  moreover have "x \<in> set (mpesaTransactions ?t)" if "x \<in> set (mpesaTransactions s)" "mt_id x \<noteq> mt_id m" for x
    using that by (auto simp: touchMpesa_def updateMany_def)
  ultimately show ?thesis using inv by (auto simp: rs)
qed

lemma comparison_inv:
  assumes inv: "payout_inv s"
  shows "payout_inv (snd (runReconciliation E now locked st t d1 d2 s))"
proof -
  have "payout_inv (snd (fold (compareRow E now st) ms rs))"
    if "payout_inv (snd rs)" "distinct (map mt_id ms)" "set ms \<subseteq> set (mpesaTransactions (snd rs))" for ms rs
    using that
  proof (induction ms arbitrary: rs)
    case (Cons m ms)
    have m: "m \<in> set (mpesaTransactions (snd rs))" using Cons.prems(3) by simp
    have c: "payout_inv (snd (compareRow E now st m rs)) \<and> (\<forall>x \<in> set (mpesaTransactions (snd rs)). mt_id x \<noteq> mt_id m \<longrightarrow>
        x \<in> set (mpesaTransactions (snd (compareRow E now st m rs))))"
      by (rule compareRow_inv [OF Cons.prems(1) m refl])
    have "mt_id x \<noteq> mt_id m" if "x \<in> set ms" for x using Cons.prems(2) that by (auto simp: image_iff)
    with c Cons.prems have "payout_inv (snd (fold (compareRow E now st) ms (compareRow E now st m rs)))"
      by (intro Cons.IH) auto
    then show ?case by simp
  qed simp
  moreover have "distinct (map mt_id (filter P (mpesaTransactions s)))" for P
    using payout_invD(2) [OF inv] by (simp add: unique_mpesa_def distinct_map_filter)
  ultimately show ?thesis using inv by (simp add: runReconciliation_def)
qed

section \<open>The rest of the program\<close>

text \<open>
  Any other operation may add debits and credits of its own, change balances and mobile money of
  other kinds, but writes neither a row of the path nor a debit for one. Only operations of the path
  call \<open>reverseTransaction\<close>.
\<close>

definition tx_key :: "txn \<Rightarrow> ident \<times> ident \<times> string \<times> TransactionStatus \<times> TransactionType \<times> ident \<times> rat" where
  "tx_key t = (tx_id t, tx_tenantId t, tx_reference t, tx_status t, tx_type t, tx_accountId t, tx_amount t)"

definition other_step :: "db \<Rightarrow> db \<Rightarrow> bool" where
  "other_step s s' \<longleftrightarrow> distinct (map tx_id (transactions s')) \<and> unique_mpesa (mpesaTransactions s') \<and>
     payoutIntents s' = payoutIntents s \<and> payoutQueue s' = payoutQueue s \<and> providerOrders s' = providerOrders s \<and>
     filter payoutRow (mpesaTransactions s') = filter payoutRow (mpesaTransactions s) \<and>
     (\<exists>ts. map tx_key (transactions s') = map tx_key (transactions s) @ map tx_key ts \<and>
        (\<forall>t \<in> set ts. \<not> startsWith (tx_reference t) ''MPESA_WD-''))"

lemma other_inv:
  assumes inv: "payout_inv s" and step: "other_step s s'"
  shows "payout_inv s'"
proof -
  from step obtain ts where T: "map tx_key (transactions s') = map tx_key (transactions s) @ map tx_key ts"
    and ts: "\<forall>t \<in> set ts. \<not> startsWith (tx_reference t) ''MPESA_WD-''" by (auto simp: other_step_def)
  have K: "tx_key ` set (transactions s') = tx_key ` set (transactions s) \<union> tx_key ` set ts"
    using arg_cong [OF T, of set] by simp
  have up: "\<exists>u \<in> set (transactions s'). tx_key u = tx_key t" if "t \<in> set (transactions s)" for t
  proof -
    have "tx_key t \<in> tx_key ` set (transactions s')" unfolding K using that by simp
    then show ?thesis by (metis imageE)
  qed
  have down: "(\<exists>u \<in> set (transactions s). tx_key u = tx_key t) \<or> \<not> startsWith (tx_reference t) ''MPESA_WD-''"
    if "t \<in> set (transactions s')" for t
  proof -
    from that K have "tx_key t \<in> tx_key ` set (transactions s) \<union> tx_key ` set ts" by blast
    then show ?thesis using ts by (auto simp: tx_key_def)
  qed
  have rows: "m \<in> set (mpesaTransactions s') \<and> payoutRow m \<longleftrightarrow> m \<in> set (mpesaTransactions s) \<and> payoutRow m" for m
  proof -
    have "set (filter payoutRow (mpesaTransactions s')) = set (filter payoutRow (mpesaTransactions s))"
      using step by (simp only: other_step_def)
    then show ?thesis by auto
  qed
  have row: "row_ok s' m" if ok: "row_ok s m" for m
  proof -
    from ok obtain t where "t \<in> set (transactions s)" "mt_transactionId m = Some (tx_id t)" "tx_tenantId t = mt_tenantId m"
      "mt_conversationId m = Some (orderOf (tx_id t))" "mt_reference m = b2cReference (orderOf (tx_id t))"
      "mt_referenceType m = Some FOSA_WITHDRAWAL" "mt_status m = TransactionStatus.FAILED \<longleftrightarrow> tx_status t = TransactionStatus.REVERSED"
      "\<exists>k. mt_referenceId m = Some k \<and> payout_debit t k (mt_amount m)"
      by (auto simp: row_ok_def)
    moreover from this(1) obtain u where "u \<in> set (transactions s')" "tx_key u = tx_key t" using up by blast
    ultimately show ?thesis unfolding row_ok_def
      by (intro bexI [of _ u]) (simp_all add: tx_key_def payout_debit_def)
  qed
  have paid: "paid_out s' = paid_out s" unfolding paid_out_def fun_eq_iff using rows by metis
  have intent: "intent_ok s' p" if ok: "intent_ok s p" for p
  proof -
    from ok obtain t where t: "t \<in> set (transactions s)" "tx_id t = pi_sourceTransactionId p" "tx_tenantId t = pi_tenantId p"
        "tx_status t = TransactionStatus.REVERSED \<longrightarrow> paid_out s (tx_id t)"
        "payout_debit t (pi_referenceId p) (pi_amount p)" by (auto simp: intent_ok_def)
    then obtain u where "u \<in> set (transactions s')" "tx_key u = tx_key t" using up by blast
    with t ok show ?thesis unfolding intent_ok_def paid
      by (intro conjI bexI [of _ u]) (simp_all add: tx_key_def payout_debit_def)
  qed
  have same: "payoutIntents s' = payoutIntents s" "payoutQueue s' = payoutQueue s" "providerOrders s' = providerOrders s"
    using step by (simp_all add: other_step_def)
  have debit: "debit_ok s' t" if "t \<in> set (transactions s')" for t
    using down [OF that]
  proof
    assume "\<exists>u \<in> set (transactions s). tx_key u = tx_key t"
    then obtain u where "u \<in> set (transactions s)" "tx_key u = tx_key t" by blast
    with payout_invD(7) [OF inv, of u] show ?thesis by (simp add: debit_ok_def tx_key_def same)
  qed (simp add: debit_ok_def)
  have order: "order_ok s' = order_ok s" unfolding order_ok_def fun_eq_iff using rows by metis
  show ?thesis unfolding payout_inv_def
  proof (intro conjI ballI impI)
    show "distinct (map tx_id (transactions s'))" "unique_mpesa (mpesaTransactions s')" using step by (simp_all add: other_step_def)
    show "distinct (providerOrders s')" using payout_invD(3) [OF inv] same by simp
    show "row_ok s' m" if "m \<in> set (mpesaTransactions s')" "payoutRow m" for m
      using rows [of m] that row payout_invD(4) [OF inv] by blast
    show "intent_ok s' p" if "p \<in> set (payoutIntents s')" for p using that payout_invD(5) [OF inv] intent same by simp
    show "job_ok s' j" if "j \<in> set (payoutQueue s')" for j
      using that payout_invD(6) [OF inv] by (simp add: job_ok_def same)
    show "debit_ok s' t" if "t \<in> set (transactions s')" for t by (rule debit [OF that])
    show "order_ok s' x" if "x \<in> set (providerOrders s')" for x using that payout_invD(8) [OF inv] by (simp add: order same)
  qed
qed

section \<open>A message that is stored\<close>

text \<open>
  The inbox writes the message into its row before the worker sees it: the payload of a row that is
  there, or a new row for a payment to the till, which is none of the path.
\<close>

lemma payout_inv_inbox [simp]:
  "payout_inv (s\<lparr>callbackInbox := i\<rparr>) = payout_inv s"
  "payout_inv (s\<lparr>callbackInbox := i, id_count := n\<rparr>) = payout_inv s"
  "payout_inv (s\<lparr>callbackQueue := q\<rparr>) = payout_inv s"
  by (rule payout_inv_frame, simp add: same_path_def)+

lemma upsertInbox_inv: "payout_inv s \<Longrightarrow> upsertInbox E now t k ty u p s = Inr (i, s') \<Longrightarrow> payout_inv s'"
  by (auto simp: upsertInbox_def updateInbox_def Let_def split: option.splits)

lemma createC2b_inv:
  assumes inv: "payout_inv s" and run: "createMpesa E (c2bRow E now cb amount t date) s = Inr (m, s')"
  shows "payout_inv s'"
proof (rule other_inv [OF inv])
  have "\<not> payoutRow (c2bRow E now cb amount t date\<lparr>mt_id := i\<rparr>)" for i
    by (simp add: payoutRow_def c2bRow_def c2bReference_def startsWith_iff)
  then show "other_step s s'"
    using run payout_invD(1) [OF inv] by (auto simp: other_step_def createMpesa_def Let_def res_simps intro: exI [of _ "[]"])
qed

lemma persist_inv:
  assumes inv: "payout_inv s" and run: "persistCallbackPayload E now payload ty u t s = Inr (i, s')"
  shows "payout_inv s'"
proof -
  have touched: "payout_inv (snd (touchMpesa P (\<lambda>x. x\<lparr>mt_callbackPayload := p\<rparr>) s))"
    "payout_inv (snd (touchMpesa P (\<lambda>x. x\<lparr>mt_callbackPayload := p, mt_transactionDate := d\<rparr>) s))" for P p d
    by (rule touch_inv_snd [OF inv], simp add: row_simps)+
  from run show ?thesis unfolding persistCallbackPayload_def Let_def
    by (auto simp: res_simps split: callback_payload.splits option.splits
        intro: upsertInbox_inv [OF touched(1)] upsertInbox_inv [OF touched(2)] upsertInbox_inv [OF createC2b_inv [OF inv]])
qed

lemma enqueueCallback_inv: "payout_inv s \<Longrightarrow> payout_inv (snd (enqueueCallback E now q payload ty u t s))"
  unfolding enqueueCallback_def
  by (rule then_inv, rule commit_inv)
    (auto intro: persist_inv simp: enqueueCallbackInbox_def updateInbox_def addCallbackJob_def split: option.splits)

section \<open>Reachable states\<close>

definition payout_start :: "db \<Rightarrow> bool" where
  "payout_start s \<longleftrightarrow> distinct (map tx_id (transactions s)) \<and> mpesaTransactions s = [] \<and> payoutIntents s = [] \<and>
     payoutQueue s = [] \<and> providerOrders s = [] \<and> (\<forall>t \<in> set (transactions s). \<not> startsWith (tx_reference t) ''MPESA_WD-'')"

lemma payout_start_inv: "payout_start s \<Longrightarrow> payout_inv s"
  by (simp add: payout_start_def payout_inv_def unique_mpesa_def debit_ok_def)

text \<open>
  Two restrictions of the request. The idempotency key that the client has chosen must not end in
  \<open>-REVERSAL\<close> once it is trimmed: the code accepts such keys, and \<open>reversal_key_pays_without_debit\<close>
  shows what they do. The amount has at most the twenty significant digits that the addition of the
  fee of zero keeps; a JavaScript number has at most seventeen.
\<close>

inductive payout_path :: "env \<Rightarrow> db \<Rightarrow> bool" for E where
  start: "payout_start s \<Longrightarrow> payout_path E s"
| request: "payout_path E s \<Longrightarrow> dplus E amount 0 = amount \<Longrightarrow> (\<And>k. key = Some k \<Longrightarrow> \<not> reversalReference (CHR ''-'' # trim k)) \<Longrightarrow>
    payout_path E (snd (withdrawMpesa E now q hash reserve s userId phone amount tenantId key))"
| outbox: "payout_path E s \<Longrightarrow> payout_path E (snd (dispatchDueIntents now up limit s))"
| work: "payout_path E s \<Longrightarrow> j \<in> set (payoutQueue s) \<Longrightarrow> payout_path E (snd (processPayoutJob E pv now j s))"
| job_failed: "payout_path E s \<Longrightarrow> payout_path E (snd (onPayoutJobFailed now attempts limit j s))"
| poll: "payout_path E s \<Longrightarrow> payout_path E (snd (refreshMwaloniB2cStatus E pv now k s))"
| wait_over: "payout_path E s \<Longrightarrow> payout_path E (snd (processTimeoutJob E pv now tj s))"
| stored: "payout_path E s \<Longrightarrow> payout_path E (snd (enqueueCallback E now up payload callbackType uniqueId tenantId s))"
| callback: "payout_path E s \<Longrightarrow> payout_path E (snd (handleB2cCallback E now date cb s))"
| late_callback: "payout_path E s \<Longrightarrow> read_before s m \<Longrightarrow> payout_path E (snd (applyB2c E now date cb m s))"
| completed_by_hand: "payout_path E s \<Longrightarrow> markCompletedWithEvidence E s k tenantId actor reason ev = Inr (u, s') \<Longrightarrow>
    payout_path E s'"
| reversed_by_hand: "payout_path E s \<Longrightarrow> reverseConfirmedFailure E s k tenantId actor reason ev = Inr (i, s') \<Longrightarrow>
    payout_path E s'"
| resend: "payout_path E s \<Longrightarrow> payout_path E (snd (controlledResend s k tenantId actor reason ev))"
| sweep: "payout_path E s \<Longrightarrow> payout_path E (snd (runAutomatedSweep E rc pv now up1 old s))"
| refresh_by_hand: "payout_path E s \<Longrightarrow> payout_path E (snd (refreshProviderStatus E rc pv now k tenantId actor s))"
| comparison: "payout_path E s \<Longrightarrow> payout_path E (snd (runReconciliation E now locked st tenantId d1 d2 s))"
| other: "payout_path E s \<Longrightarrow> other_step s s' \<Longrightarrow> payout_path E s'"

lemma payout_path_inv:
  assumes "payout_path E s" and E: "decimal_runtime E" "uuid_ok E"
  shows "payout_inv s"
  using assms(1)
proof (induction rule: payout_path.induct)
  case (start s)
  then show ?case by (rule payout_start_inv)
next
  case (request s amount key)
  then show ?case by (intro withdrawMpesa_inv [OF _ E])
qed (blast intro: dispatchDue_inv processPayoutJob_inv [OF E(1)] enqueueCallback_inv onPayoutJobFailed_inv refresh_inv timeout_inv handleB2c_inv
  applyB2c_inv markCompletedWithEvidence_inv reverseConfirmedFailure_inv controlledResend_inv sweep_inv
  refreshProvider_inv comparison_inv other_inv)+

end
