(* ===== verification/Payout_Properties.thy ===== *)
theory Payout_Properties
  imports Payout_Paths Ledger_Properties
begin

text \<open>
  What the paths of a withdrawal guarantee, with a run of the model in which the provider
  rejects a withdrawal and the member gets the money back.
\<close>

section \<open>A member who withdraws\<close>

definition wallet_env :: env where
  "wallet_env = plain_env\<lparr>uuid := (\<lambda>n. replicate (Suc n) CHR ''i'')\<rparr>"

definition wallet :: db where
  "wallet = bank\<lparr>
     members := [\<lparr>mb_id = ''mF'', mb_tenantId = ''t'', mb_userId = ''u'', mb_isActive = True,
       mb_kycStatus = KycStatus.APPROVED, mb_accountStatus = AccountStatus.ACTIVE, mb_isBlacklisted = False\<rparr>],
     users := users bank @ [\<lparr>us_id = ''u'', us_tenantId = ''t'', us_role = MEMBER,
       us_phone = Some ''0712345678'', us_phoneNumber = None\<rparr>]\<rparr>"

definition wallet_withdraws :: "string \<Rightarrow> db \<Rightarrow> withdraw_response res \<times> db" where
  "wallet_withdraws key s = withdrawMpesa wallet_env 0 True (\<lambda>_ _. '''') (\<lambda>_. withdraw_reservation.RESERVED) s ''u'' None 300 ''t'' (Some key)"

definition provider_says :: "string \<Rightarrow> provider" where
  "provider_says status = \<lparr>pv_enabled = True, pv_send = (\<lambda>_ _ _. Some \<lparr>mr_status = Some ''02'', mr_members = []\<rparr>),
     pv_getStatus = (\<lambda>_. Some \<lparr>mr_status = Some status, mr_members = []\<rparr>)\<rparr>"

definition lastJob :: "db \<Rightarrow> payout_job" where
  "lastJob s = last (payoutQueue s)"

definition wallet_paid :: "string \<Rightarrow> db \<Rightarrow> db" where
  "wallet_paid key s = (let s1 = snd (wallet_withdraws key s) in snd (processPayoutJob wallet_env (provider_says ''99'') 0 (lastJob s1) s1))"

definition polled :: "string \<Rightarrow> db \<Rightarrow> db" where
  "polled status s = snd (refreshMwaloniB2cStatus wallet_env (provider_says status) 0 (mt_id (last (mpesaTransactions s))) s)"

definition payout_view ::
  "db \<Rightarrow> (TransactionStatus \<times> ident option) list \<times> (ident \<times> TransactionStatus) list \<times> string list \<times> rat list" where
  "payout_view s = (map (\<lambda>m. (mt_status m, mt_transactionId m)) (mpesaTransactions s),
     map (\<lambda>t. (tx_id t, tx_status t)) (transactions s), providerOrders s, map acc_balance (accounts s))"

lemma wallet_env_ids: "uuid_ok wallet_env"
  by (simp add: uuid_ok_def wallet_env_def plain_env_def)

interpretation wallet: decimal_runtime wallet_env
  by unfold_locales (auto simp: wallet_env_def plain_env_def)

lemma wallet_views:
  "payout_view (wallet_paid ''k1'' wallet) = ([(TransactionStatus.PENDING, Some ''i'')],
     [(''i'', TransactionStatus.COMPLETED)], [''MWD-i''], [700, 500])"
  "payout_view (polled ''99'' (wallet_paid ''k1'' wallet)) = ([(TransactionStatus.FAILED, Some ''i'')],
     [(''i'', TransactionStatus.REVERSED), (''iiiii'', TransactionStatus.COMPLETED)], [''MWD-i''], [1000, 500])"
  by code_simp+

lemma wallet_start: "payout_start wallet" and wallet_job: "payoutQueue (snd (wallet_withdraws ''k1'' wallet)) \<noteq> []"
  by code_simp+

lemma key_allowed: "\<not> reversalReference ''-k1''"
  by (auto simp: reversalReference_def append_eq_Cons_conv Cons_eq_append_conv)

lemma wallet_path: "payout_path wallet_env (wallet_paid ''k1'' wallet)" (is ?paid)
  and wallet_refund_path: "payout_path wallet_env (polled ''99'' (wallet_paid ''k1'' wallet))"
proof -
  have key: "trim ''k1'' = ''k1''" by code_simp
  have "payout_path wallet_env (snd (wallet_withdraws ''k1'' wallet))"
    unfolding wallet_withdraws_def
    by (intro request start wallet_start) (auto simp: key_allowed key dplus_def wallet_env_def plain_env_def)
  then show paid: ?paid
    unfolding wallet_paid_def Let_def lastJob_def by (rule work) (rule last_in_set [OF wallet_job])
  then show "payout_path wallet_env (polled ''99'' (wallet_paid ''k1'' wallet))" unfolding polled_def by (rule poll)
qed

section \<open>Properties\<close>

text \<open>
  C7. A withdrawal to mobile money is settled once. Start from a database without mobile-money rows,
  intents, jobs and orders and let requests, dispatches, the worker, polls, timeouts, stored messages,
  callbacks (late ones included), decisions by hand, sweeps and daily comparisons follow in any order,
  with two restrictions on a request: its idempotency key, trimmed, does not end in -REVERSAL (the code
  accepts such a key, and reversal_key_pays_without_debit shows that it breaks this property), and its
  amount has no more than twenty significant digits. The rest of the program may do anything that adds
  no row of a payout and no transaction whose reference starts with MPESA_WD-, and that leaves the
  transactions there are; generated identifiers are not empty and contain no colon. Then the row of a
  withdrawal pays out one WITHDRAWAL transaction of its tenant, of the account it names and of exactly its
  positive amount; no other row pays out this transaction; and the row has failed exactly when the
  transaction has been reversed. So a withdrawal that is open or completed keeps its debit, and a failed
  one has been refunded.
\<close>

theorem withdrawal_settled_once:
  assumes "payout_path E s" and "decimal_runtime E" "uuid_ok E" and "m \<in> set (mpesaTransactions s)"
    and "mt_referenceType m = Some ''FOSA_WITHDRAWAL''"
  shows "\<exists>t \<in> set (transactions s). mt_transactionId m = Some (tx_id t) \<and> tx_tenantId t = mt_tenantId m \<and>
    tx_type t = TransactionType.WITHDRAWAL \<and> mt_referenceId m = Some (tx_accountId t) \<and>
    tx_amount t = mt_amount m \<and> 0 < tx_amount t \<and>
    (\<forall>x \<in> set (mpesaTransactions s). mt_transactionId x = Some (tx_id t) \<longrightarrow> x = m) \<and>
    (mt_status m = TransactionStatus.FAILED \<longleftrightarrow> tx_status t = TransactionStatus.REVERSED)"
proof -
  note inv = payout_path_inv [OF assms(1-3)]
  have "row_ok s m" using payout_invD(4) [OF inv assms(4)] assms(5) by (simp add: payoutRow_def FOSA_WITHDRAWAL_def)
  then obtain t where t: "t \<in> set (transactions s)" "mt_transactionId m = Some (tx_id t)" "tx_tenantId t = mt_tenantId m"
    "\<exists>k. mt_referenceId m = Some k \<and> payout_debit t k (mt_amount m)"
    "mt_status m = TransactionStatus.FAILED \<longleftrightarrow> tx_status t = TransactionStatus.REVERSED" by (auto simp: row_ok_def)
  moreover have "x = m" if "x \<in> set (mpesaTransactions s)" "mt_transactionId x = Some (tx_id t)" for x
    using row_unique(3) [OF payout_invD(2) [OF inv] that(1) assms(4) that(2) t(2)] .
  ultimately show ?thesis by (intro bexI [OF _ t(1)]) (auto simp: payout_debit_def)
qed

theorem withdrawal_settled_once_witness:
  "\<exists>m \<in> set (mpesaTransactions (polled ''99'' (wallet_paid ''k1'' wallet))). mt_status m = TransactionStatus.FAILED \<and>
     (\<exists>t \<in> set (transactions (polled ''99'' (wallet_paid ''k1'' wallet))). mt_transactionId m = Some (tx_id t) \<and>
       tx_type t = TransactionType.WITHDRAWAL \<and> tx_amount t = 300 \<and> tx_status t = TransactionStatus.REVERSED)"
proof -
  let ?s = "polled ''99'' (wallet_paid ''k1'' wallet)"
  have "map (\<lambda>m. (mt_status m, mt_transactionId m)) (mpesaTransactions ?s) = [(TransactionStatus.FAILED, Some ''i'')]"
    using wallet_views(2) by (simp only: payout_view_def prod.inject)
  then obtain m where m: "mpesaTransactions ?s = [m]" "mt_status m = TransactionStatus.FAILED" by auto
  have ty: "map (\<lambda>m. (mt_referenceType m, mt_amount m)) (mpesaTransactions ?s) = [(Some ''FOSA_WITHDRAWAL'', 300)]" by code_simp
  with m obtain t where "t \<in> set (transactions ?s)" "mt_transactionId m = Some (tx_id t)"
      "tx_type t = TransactionType.WITHDRAWAL" "tx_amount t = 300" "tx_status t = TransactionStatus.REVERSED"
    using withdrawal_settled_once [OF wallet_refund_path wallet.decimal_runtime_axioms wallet_env_ids, of m] by auto
  with m show ?thesis by auto
qed

text \<open>
  C8. A payout is sent once. Start from a database without mobile-money rows, intents, jobs and orders, let
  requests and all other steps of the withdrawal path follow in any order, and exclude a request whose
  idempotency key, trimmed, ends in -REVERSAL (the code accepts it, and reversal_key_pays_without_debit
  shows that it is paid without a debit) or whose amount has more than twenty significant digits; let the
  rest of the program write no row of a payout and no transaction whose reference starts with MPESA_WD-, and
  let generated identifiers be not empty and without colons. Then no order number goes to the provider a second
  time, and every order that has gone there is the number of a WITHDRAWAL transaction and belongs to the
  row that pays out this transaction, with its tenant, account and positive amount. So the member is paid at
  most once for a debit, however often the worker runs, jobs are repeated or the provider's answer is lost.
\<close>

theorem payout_sent_once:
  assumes "payout_path E s" and "decimal_runtime E" "uuid_ok E"
  shows "distinct (providerOrders s) \<and>
    (\<forall>x \<in> set (providerOrders s). \<exists>t \<in> set (transactions s). \<exists>m \<in> set (mpesaTransactions s).
       x = ''MWD-'' @ tx_id t \<and> tx_type t = TransactionType.WITHDRAWAL \<and> 0 < tx_amount t \<and>
       mt_transactionId m = Some (tx_id t) \<and> mt_conversationId m = Some x \<and> mt_tenantId m = tx_tenantId t \<and>
       mt_referenceId m = Some (tx_accountId t) \<and> mt_amount m = tx_amount t)"
proof (intro conjI ballI)
  note inv = payout_path_inv [OF assms]
  show "distinct (providerOrders s)" by (rule payout_invD(3) [OF inv])
  fix x assume "x \<in> set (providerOrders s)"
  from payout_invD(8) [OF inv this] obtain m where m: "m \<in> set (mpesaTransactions s)" "payoutRow m"
      "mt_reference m = b2cReference x" by (auto simp: order_ok_def)
  from payout_invD(4) [OF inv m(1,2)] obtain t where "t \<in> set (transactions s)" "mt_transactionId m = Some (tx_id t)"
      "tx_tenantId t = mt_tenantId m" "mt_conversationId m = Some (orderOf (tx_id t))"
      "mt_reference m = b2cReference (orderOf (tx_id t))" "\<exists>k. mt_referenceId m = Some k \<and> payout_debit t k (mt_amount m)"
    by (auto simp: row_ok_def)
  with m show "\<exists>t \<in> set (transactions s). \<exists>m \<in> set (mpesaTransactions s).
       x = ''MWD-'' @ tx_id t \<and> tx_type t = TransactionType.WITHDRAWAL \<and> 0 < tx_amount t \<and>
       mt_transactionId m = Some (tx_id t) \<and> mt_conversationId m = Some x \<and> mt_tenantId m = tx_tenantId t \<and>
       mt_referenceId m = Some (tx_accountId t) \<and> mt_amount m = tx_amount t"
    by (intro bexI [of _ t] bexI [of _ m]) (auto simp: payout_debit_def b2cReference_def orderOf_def)
qed

theorem payout_sent_once_witness:
  "providerOrders (wallet_paid ''k1'' wallet) = [''MWD-i''] \<and> distinct (providerOrders (wallet_paid ''k1'' wallet)) \<and>
   (\<exists>t \<in> set (transactions (wallet_paid ''k1'' wallet)). tx_id t = ''i'' \<and> tx_type t = TransactionType.WITHDRAWAL)"
proof -
  have o: "providerOrders (wallet_paid ''k1'' wallet) = [''MWD-i'']"
    using wallet_views(1) by (simp only: payout_view_def prod.inject)
  with payout_sent_once [OF wallet_path wallet.decimal_runtime_axioms wallet_env_ids] show ?thesis by auto
qed

section \<open>The excluded keys\<close>

text \<open>
  The paths exclude a request whose idempotency key ends in \<open>-REVERSAL\<close>. The code accepts such a key.
  A reversal is posted under the reference of the reversed debit with this suffix, so after a refund
  of the key \<open>k1\<close> a request with the key \<open>k1-REVERSAL\<close> finds the reversal under its own reference,
  takes it for its debit, and pays out: the second order of 300 goes to the provider and the account
  keeps its 1000.
\<close>

theorem reversal_key_pays_without_debit:
  "payout_view (polled ''00'' (wallet_paid ''k1-REVERSAL'' (polled ''99'' (wallet_paid ''k1'' wallet)))) =
     ([(TransactionStatus.FAILED, Some ''i''), (TransactionStatus.COMPLETED, Some ''iiiii'')],
      [(''i'', TransactionStatus.REVERSED), (''iiiii'', TransactionStatus.COMPLETED)],
      [''MWD-i'', ''MWD-iiiii''], [1000, 500])"
  by code_simp

end
