(* ===== verification/Withdrawal_Request.thy ===== *)
theory Withdrawal_Request
  imports Payout_Properties
begin

text \<open>The debit of a withdrawal: exact, within what the account has available, with its payout intent.\<close>

context decimal_runtime
begin

lemma availableFosa_le:
  assumes wf: "wf_account a" and "\<not> availableFosa E a < x" and "0 < x"
  shows "x \<le> acc_balance a - acc_lockedBalance a - acc_frozenSavings a - (if acc_allowsNegative a then 0 else acc_minimumBalance a)"
proof -
  let ?m = "if acc_allowsNegative a then 0 else acc_minimumBalance a"
  have m: "money (acc_balance a)" "money (acc_lockedBalance a)" "money (acc_frozenSavings a)" "money ?m"
    using wf by (simp_all add: wf_account_def)
  have d: "dminus E (acc_balance a) (acc_lockedBalance a) = acc_balance a - acc_lockedBalance a"
    by (rule dminus_money [OF m(1,2)])
  have m4: "m4 (acc_balance a)" "m4 (acc_lockedBalance a)" "m4 (acc_frozenSavings a)" "m4 ?m"
    using m by (simp_all only: money_m4)
  have w: "wide (acc_balance a - acc_lockedBalance a - acc_frozenSavings a)"
    by (rule wideI) (use m4 m [THEN money_bound] in \<open>auto intro!: places_diff\<close>)
  have d2: "dminus E (acc_balance a - acc_lockedBalance a) (acc_frozenSavings a) =
      acc_balance a - acc_lockedBalance a - acc_frozenSavings a"
    by (rule dminus_exact [OF w])
  have w: "wide (acc_balance a - acc_lockedBalance a - acc_frozenSavings a - ?m)"
    by (rule wideI) (use m4 m [THEN money_bound] in \<open>auto intro!: places_diff\<close>)
  have "availableFosa E a = max 0 (acc_balance a - acc_lockedBalance a - acc_frozenSavings a - ?m)"
    using dminus_exact [OF w] by (simp only: availableFosa_def d d2 Let_def)
  with assms(2,3) show ?thesis by (simp add: max_def split: if_splits)
qed

end

lemma upsertPayoutIntent_new:
  assumes "upsertPayoutIntent E (withdrawalIntent t k a b phone amount u now) s = Inr (p, s')"
    and "\<forall>p \<in> set (payoutIntents s). pi_dispatchKey p \<noteq> ''FOSA_WITHDRAWAL:'' @ t @ '':'' @ k"
  obtains i n where "p = (withdrawalIntent t k a b phone amount u now)\<lparr>pi_id := i\<rparr>"
    "s' = s\<lparr>payoutIntents := payoutIntents s @ [p], id_count := n\<rparr>"
proof -
  have "findFirst (\<lambda>p. pi_dispatchKey p = ''FOSA_WITHDRAWAL:'' @ t @ '':'' @ k) (payoutIntents s) = None"
  proof (rule ccontr)
    assume "findFirst (\<lambda>p. pi_dispatchKey p = ''FOSA_WITHDRAWAL:'' @ t @ '':'' @ k) (payoutIntents s) \<noteq> None"
    then obtain q where "q \<in> set (payoutIntents s)" "pi_dispatchKey q = ''FOSA_WITHDRAWAL:'' @ t @ '':'' @ k"
      by (auto dest: findFirst_Some)
    with assms(2) show False by simp
  qed
  with assms(1) that show thesis
    by (auto simp: upsertPayoutIntent_def withdrawalIntent_def Let_def res_simps)
qed

lemma withdrawalEntry_simps [simp]:
  "ep_tenantId (withdrawalEntry t ref k x u) = t" "ep_reference (withdrawalEntry t ref k x u) = ref"
  "ep_accountId (withdrawalEntry t ref k x u) = k" "ep_amount (withdrawalEntry t ref k x u) = x"
  "ep_direction (withdrawalEntry t ref k x u) = DEBIT" "ep_journalType (withdrawalEntry t ref k x u) = JournalEntryType.WITHDRAWAL"
  by (simp_all add: withdrawalEntry_def)

lemma withdrawal_posted:
  assumes "decimal_runtime E" and "postEntry E True s (withdrawalEntry t ref k amount u) = Inr ((tr, e), s')" and "wf_db s"
    and "money amount" and "transactionByReference s t ref = None"
  shows "wf_db s'" "gl_agrees s x \<Longrightarrow> gl_agrees s' x" "payoutIntents s' = payoutIntents s" "0 < amount"
    "accounts s' = map (\<lambda>x. if acc_id x = k then x\<lparr>acc_balance := acc_balance x - amount,
         acc_version := acc_version x + 1\<rparr> else x) (accounts s)"
proof -
  let ?p = "withdrawalEntry t ref k amount u"
  have am: "dp4 E amount = amount" using decimal_runtime.dp4_exact [OF assms(1) money_m4 [OF assms(4)]] .
  show "0 < amount" using assms(2) by (rule postEntry_cases) (simp add: am)
  have f: "transactionByReference s (ep_tenantId ?p) (ep_reference ?p) = None"
    "direction_fits (ep_journalType ?p) (ep_direction ?p)"
    using assms(5) by (simp_all add: direction_fits_def)
  show "wf_db s'" "gl_agrees s x \<Longrightarrow> gl_agrees s' x" "payoutIntents s' = payoutIntents s"
    "accounts s' = map (\<lambda>x. if acc_id x = k then x\<lparr>acc_balance := acc_balance x - amount,
         acc_version := acc_version x + 1\<rparr> else x) (accounts s)"
    by (rule decimal_runtime.posted [OF assms(1-3) f], simp add: ledger_only_def am moveBalance_def signed_def)+
qed

text \<open>
  C9. The request for a withdrawal: an accepted request with a new key takes exactly the amount off
  the member's FOSA account and touches no other account; locked and frozen savings and the minimum
  balance together stay covered; the books stay well formed and in agreement; and the payout
  intent that goes with the debit has the member's phone and this amount.
\<close>

theorem withdrawal_debited:
  assumes "decimal_runtime E" and "withdrawTx E now s b u phone amount t key = Inr (w, s')" and "wf_db s"
    and "money amount" and "transactionByReference s t (withdrawalReference t b key) = None"
    and "\<forall>p \<in> set (payoutIntents s). pi_dispatchKey p \<noteq> ''FOSA_WITHDRAWAL:'' @ t @ '':'' @ wd_transactionId w"
  shows "wf_db s' \<and> (\<forall>x. gl_agrees s x \<longrightarrow> gl_agrees s' x) \<and>
    (\<exists>a \<in> set (accounts s). acc_memberId a = b \<and> acc_tenantId a = t \<and> acc_accountType a = FOSA \<and>
       acc_lockedBalance a + acc_frozenSavings a + (if acc_allowsNegative a then 0 else acc_minimumBalance a) \<le>
         acc_balance a - amount \<and>
       accounts s' = map (\<lambda>x. if acc_id x = acc_id a then x\<lparr>acc_balance := acc_balance x - amount,
         acc_version := acc_version x + 1\<rparr> else x) (accounts s)) \<and>
    (\<exists>p. payoutIntents s' = payoutIntents s @ [p] \<and> pi_sourceTransactionId p = wd_transactionId w \<and>
       pi_amount p = amount \<and> pi_phoneNumber p = phone \<and> pi_status p = OutboxStatus.PENDING)"
proof (rule withdrawTx_steps [OF assms(2)])
  fix a tr e s1 p
  assume post: "postEntry E True s (withdrawalEntry t (withdrawalReference t b key) (acc_id a) (dplus E amount 0) u) = Inr ((tr, e), s1)"
    and up: "upsertPayoutIntent E (withdrawalIntent t (tx_id tr) (acc_id a) b phone (dp4 E amount) u now)
      (writeAudit t u ''MPESA.WITHDRAW.INITIATED'' (tx_id tr) s1) = Inr (p, s')"
    and a: "findFirst (\<lambda>a. acc_memberId a = b \<and> acc_tenantId a = t \<and> acc_accountType a = FOSA \<and> acc_isActive a) (accounts s) = Some a"
    and av: "\<not> availableFosa E a < dplus E amount 0" and w: "w = \<lparr>wd_transactionId = tx_id tr, wd_payoutIntentId = pi_id p\<rparr>"
  have am: "dplus E amount 0 = amount" "dp4 E amount = amount"
    using decimal_runtime.dplus_money [OF assms(1,4) money_0] decimal_runtime.dp4_exact [OF assms(1) money_m4 [OF assms(4)]]
    by simp_all
  from a have mem: "a \<in> set (accounts s)" "acc_memberId a = b" "acc_tenantId a = t" "acc_accountType a = FOSA"
    by (auto dest: findFirst_Some)
  note s1 = withdrawal_posted [OF assms(1) post [unfolded am] assms(3-5)]
  have fl: "acc_lockedBalance a + acc_frozenSavings a + (if acc_allowsNegative a then 0 else acc_minimumBalance a) \<le> acc_balance a - amount"
    using decimal_runtime.availableFosa_le [OF assms(1) _ av [unfolded am] s1(4)] mem(1) wf_accountsD(2) [OF wf_dbD(1) [OF assms(3)]]
    by fastforce
  obtain i n where p: "p = (withdrawalIntent t (tx_id tr) (acc_id a) b phone amount u now)\<lparr>pi_id := i\<rparr>"
    and s': "s' = (writeAudit t u ''MPESA.WITHDRAW.INITIATED'' (tx_id tr) s1)\<lparr>payoutIntents := payoutIntents s @ [p], id_count := n\<rparr>"
    by (rule upsertPayoutIntent_new [OF up]) (use assms(6) in \<open>simp_all add: w s1(3) am writeAudit_def\<close>)
  have "accounts s' = accounts s1" "payoutIntents s' = payoutIntents s @ [p]" "wf_db s'" by (simp_all add: s' s1(1) writeAudit_def)
  moreover have "gl_agrees s' x" if "gl_agrees s x" for x using s1(2) [OF that] by (simp add: s')
  ultimately show ?thesis using mem fl s1(5)
    by (intro conjI bexI [of _ a] exI [of _ p]) (simp_all add: p w withdrawalIntent_def)
qed

theorem withdrawal_debited_witness:
  "\<exists>w s'. withdrawTx plain_env 0 wallet ''mF'' ''u'' ''254712345678'' 300 ''t'' ''k1'' = Inr (w, s') \<and> gl_agrees s' ''t'' \<and>
     length (payoutIntents s') = 1"
proof -
  have "\<not> isl (withdrawTx plain_env 0 wallet ''mF'' ''u'' ''254712345678'' 300 ''t'' ''k1'')" by code_simp
  then obtain w s' where run: "withdrawTx plain_env 0 wallet ''mF'' ''u'' ''254712345678'' 300 ''t'' ''k1'' = Inr (w, s')"
    by (auto dest!: not_isl)
  have f: "wf_db wallet" "gl_agrees wallet ''t''" "transactionByReference wallet ''t'' (withdrawalReference ''t'' ''mF'' ''k1'') = None"
    "payoutIntents wallet = []" by code_simp+
  have "money 300" by (simp add: money_def places_of_int [of _ 300, simplified])
  from withdrawal_debited [OF plain.decimal_runtime_axioms run f(1) this f(3)] f(2,4) run show ?thesis by force
qed

end
