(* ===== verification/Deposit_Properties.thy ===== *)
theory Deposit_Properties
  imports Mpesa_Callbacks Ledger_Properties
begin

text \<open>
  Deposits from mobile money: a confirmed push request is credited to the account that it names,
  once, however often the provider repeats its message, and the books agree afterwards.
\<close>

section \<open>Posting\<close>

lemma settleMpesa_Inr:
  "settleMpesa p k s = Inr s' \<Longrightarrow> \<exists>date. s' = s\<lparr>mpesaTransactions := map (\<lambda>m. if mt_id m = pl_mpesaTxId p
      then m\<lparr>mt_transactionId := Some k, mt_status := TransactionStatus.COMPLETED,
        mt_resultCode := Some (pl_resultCode p), mt_receipt := Some (pl_receipt p),
        mt_transactionDate := Some date, mt_callbackPayload := Some (pl_payload p)\<rparr> else m) (mpesaTransactions s)\<rparr>"
  by (auto simp: settleMpesa_def updateMpesa_def updateMany_def res_simps)

lemma depositTx_steps:
  assumes "depositTx E p n s = Inr (u, s')"
    and "findFirst (\<lambda>a. acc_accountNumber a = n \<and> acc_tenantId a = pl_tenantId p \<and> acc_isActive a) (accounts s) = Some a"
  obtains t e s1 s2 where "postEntry E True s (depositEntry p (acc_id a)) = Inr ((t, e), s1)"
    "settleMpesa p (tx_id t) s1 = Inr s2"
    "s' = writeAudit (pl_tenantId p) ''SYSTEM'' ''MPESA.DEPOSIT.COMPLETED'' (pl_mpesaTxId p) s2"
  using assms by (auto simp: depositTx_def res_simps)

lemma depositEntry_simps [simp]:
  "ep_tenantId (depositEntry p k) = pl_tenantId p"
  "ep_reference (depositEntry p k) = depositReference (pl_receipt p) (pl_tenantId p)"
  "ep_journalType (depositEntry p k) = JournalEntryType.MPESA_DEPOSIT" "ep_accountId (depositEntry p k) = k"
  "ep_amount (depositEntry p k) = pl_amount p" "ep_direction (depositEntry p k) = CREDIT"
  by (simp_all add: depositEntry_def)

lemma deposit_fits: "direction_fits JournalEntryType.MPESA_DEPOSIT CREDIT"
  by (simp add: direction_fits_def)

lemma depositTx_fresh:
  assumes "decimal_runtime E" and run: "depositTx E p n s = Inr (u, s')" and wf: "wf_db s"
    and acc: "findFirst (\<lambda>a. acc_accountNumber a = n \<and> acc_tenantId a = pl_tenantId p \<and> acc_isActive a) (accounts s) = Some a"
    and new: "transactionByReference s (pl_tenantId p) (depositReference (pl_receipt p) (pl_tenantId p)) = None"
  obtains t date where "wf_db s'" "\<And>x. gl_agrees s x \<Longrightarrow> gl_agrees s' x"
    "accounts s' = map (\<lambda>x. if acc_id x = acc_id a then x\<lparr>acc_balance := acc_balance x + dp4 E (pl_amount p),
       acc_version := acc_version x + 1\<rparr> else x) (accounts s)"
    "transactions s' = transactions s @ [t]" "tx_tenantId t = pl_tenantId p"
    "tx_reference t = depositReference (pl_receipt p) (pl_tenantId p)"
    "mpesaTransactions s' = map (\<lambda>m. if mt_id m = pl_mpesaTxId p
      then m\<lparr>mt_transactionId := Some (tx_id t), mt_status := TransactionStatus.COMPLETED,
        mt_resultCode := Some (pl_resultCode p), mt_receipt := Some (pl_receipt p),
        mt_transactionDate := Some date, mt_callbackPayload := Some (pl_payload p)\<rparr> else m) (mpesaTransactions s)"
proof (rule depositTx_steps [OF run acc])
  fix t e s1 s2
  assume post: "postEntry E True s (depositEntry p (acc_id a)) = Inr ((t, e), s1)"
    and settle: "settleMpesa p (tx_id t) s1 = Inr s2"
    and s': "s' = writeAudit (pl_tenantId p) ''SYSTEM'' ''MPESA.DEPOSIT.COMPLETED'' (pl_mpesaTxId p) s2"
  from settleMpesa_Inr [OF settle] obtain date where s2: "s2 = s1\<lparr>mpesaTransactions := map (\<lambda>m. if mt_id m = pl_mpesaTxId p
      then m\<lparr>mt_transactionId := Some (tx_id t), mt_status := TransactionStatus.COMPLETED,
        mt_resultCode := Some (pl_resultCode p), mt_receipt := Some (pl_receipt p),
        mt_transactionDate := Some date, mt_callbackPayload := Some (pl_payload p)\<rparr> else m) (mpesaTransactions s1)\<rparr>" by blast
  show thesis
  proof (rule decimal_runtime.posted [OF assms(1) post wf])
    show "transactionByReference s (ep_tenantId (depositEntry p (acc_id a))) (ep_reference (depositEntry p (acc_id a))) = None"
      using new by simp
    show "direction_fits (ep_journalType (depositEntry p (acc_id a))) (ep_direction (depositEntry p (acc_id a)))"
      by (simp add: deposit_fits)
    fix b
    assume *: "wf_db s1" "ledger_only s s1" "\<And>x. gl_agrees s x \<Longrightarrow> gl_agrees s1 x"
      "accounts s1 = accounts (moveBalance (ep_accountId (depositEntry p (acc_id a)))
         (signed (ep_direction (depositEntry p (acc_id a))) (dp4 E (ep_amount (depositEntry p (acc_id a))))) s)"
      "transactions s1 = transactions s @ [t]" "tx_tenantId t = ep_tenantId (depositEntry p (acc_id a))"
      "tx_reference t = ep_reference (depositEntry p (acc_id a))"
    then have "mpesaTransactions s1 = mpesaTransactions s" by (simp add: ledger_only_def)
    with * show thesis
      by (intro that [of t date]) (simp_all add: s' s2 writeAudit_def moveBalance_def signed_def)
  qed
qed

lemma handleStk_deposit:
  assumes "handleStkCallback E now cb s = (Inr (), s')"
    and "findFirst (\<lambda>m. mt_checkoutRequestId m = Some (sc_checkoutRequestID cb)) (mpesaTransactions s) = Some m"
    and "mt_status m = TransactionStatus.PENDING" and "sc_resultCode cb = 0"
    and "entryOf ''MpesaReceiptNumber'' (parseStkMeta (sc_items cb)) = Some receipt"
    and "mt_accountReference m = Some ref" and "pr_type (parseReference ref) = ParsedRefType.DEPOSIT"
    and "\<not> pr_isMemberIdDeposit (parseReference ref)"
  shows "depositTx E (stkParams now cb m receipt) (pr_target (parseReference ref)) s = Inr ((), s')"
  using assms
  by (auto simp: handleStkCallback_def applyStk_def postLedgerEntry_def stkParams_def committed_def andThen_def Let_def
      split: sum.splits prod.splits)

section \<open>Properties\<close>

text \<open>
  C10. A confirmed push request is credited exactly and once. When the provider confirms a request
  that is still open, for an active account that is found and with a new receipt, the account's
  balance grows by the requested amount and no other account changes, one transaction is
  written, the row of the request is completed and names it, the database stays well formed and the
  deposits still agree with the general ledger. The same message again, at any later time, is
  acknowledged and changes nothing.
\<close>

theorem deposit_credited:
  assumes "decimal_runtime E" and "handleStkCallback E now cb s = (Inr (), s')" and "wf_db s" and "gl_agrees s tenant"
    and "findFirst (\<lambda>m. mt_checkoutRequestId m = Some (sc_checkoutRequestID cb)) (mpesaTransactions s) = Some m"
    and "mt_status m = TransactionStatus.PENDING" and "sc_resultCode cb = 0"
    and "entryOf ''MpesaReceiptNumber'' (parseStkMeta (sc_items cb)) = Some receipt"
    and "mt_accountReference m = Some ref" and "pr_type (parseReference ref) = ParsedRefType.DEPOSIT"
    and "\<not> pr_isMemberIdDeposit (parseReference ref)"
    and "findFirst (\<lambda>a. acc_accountNumber a = pr_target (parseReference ref) \<and> acc_tenantId a = mt_tenantId m \<and>
           acc_isActive a) (accounts s) = Some a"
    and "transactionByReference s (mt_tenantId m) (''MPESA_DEP-'' @ receipt @ ''-'' @ mt_tenantId m) = None"
  shows "wf_db s' \<and> gl_agrees s' tenant \<and>
    accounts s' = map (\<lambda>x. if acc_id x = acc_id a then x\<lparr>acc_balance := acc_balance x + dp4 E (mt_amount m),
       acc_version := acc_version x + 1\<rparr> else x) (accounts s) \<and>
    (\<exists>t. transactions s' = transactions s @ [t] \<and>
       (\<forall>r \<in> set (mpesaTransactions s'). mt_id r = mt_id m \<longrightarrow>
          mt_status r = TransactionStatus.COMPLETED \<and> mt_transactionId r = Some (tx_id t))) \<and>
    handleStkCallback E later cb s' = (Inr (), s')"
proof -
  let ?p = "stkParams now cb m receipt"
  note run = handleStk_deposit [OF assms(2,5-11)]
  have p: "pl_tenantId ?p = mt_tenantId m" "pl_amount ?p = mt_amount m" "pl_receipt ?p = receipt" "pl_mpesaTxId ?p = mt_id m"
    by (simp_all add: stkParams_def)
  show ?thesis
  proof (rule depositTx_fresh [OF assms(1) run assms(3)])
    show "findFirst (\<lambda>a. acc_accountNumber a = pr_target (parseReference ref) \<and> acc_tenantId a = pl_tenantId ?p \<and>
        acc_isActive a) (accounts s) = Some a" using assms(12) by (simp add: p)
    show "transactionByReference s (pl_tenantId ?p) (depositReference (pl_receipt ?p) (pl_tenantId ?p)) = None"
      using assms(13) by (simp add: p depositReference_def)
    fix t :: txn and date
    let ?h = "\<lambda>m. if mt_id m = pl_mpesaTxId ?p then m\<lparr>mt_transactionId := Some (tx_id t),
        mt_status := TransactionStatus.COMPLETED, mt_resultCode := Some (pl_resultCode ?p), mt_receipt := Some (pl_receipt ?p),
        mt_transactionDate := Some date, mt_callbackPayload := Some (pl_payload ?p)\<rparr> else m"
    assume *: "wf_db s'" "\<And>x. gl_agrees s x \<Longrightarrow> gl_agrees s' x"
      "accounts s' = map (\<lambda>x. if acc_id x = acc_id a then x\<lparr>acc_balance := acc_balance x + dp4 E (pl_amount ?p),
         acc_version := acc_version x + 1\<rparr> else x) (accounts s)"
      "transactions s' = transactions s @ [t]" "mpesaTransactions s' = map ?h (mpesaTransactions s)"
    have "findFirst (\<lambda>m. mt_checkoutRequestId m = Some (sc_checkoutRequestID cb)) (mpesaTransactions s') = Some (?h m)"
      unfolding *(5) by (subst findFirst_map) (simp_all add: assms(5))
    then have "handleStkCallback E later cb s' = (Inr (), s')" by (simp add: handleStkCallback_def p)
    moreover have "\<forall>r \<in> set (mpesaTransactions s'). mt_id r = mt_id m \<longrightarrow>
        mt_status r = TransactionStatus.COMPLETED \<and> mt_transactionId r = Some (tx_id t)"
      by (auto simp: *(5) p)
    ultimately show ?thesis using *(1-4) assms(4) by (auto simp: p)
  qed
qed

text \<open>A tenant with one open push request of 250 to the FOSA account.\<close>

definition till_row :: mpesa_transaction where
  "till_row = (stkRow plain_env 0 ''t'' ''mF'' None ''ws_1'' ''0712345678'' 250 ''ACC-F'')\<lparr>mt_id := ''x''\<rparr>"

definition till :: db where
  "till = bank\<lparr>mpesaTransactions := [till_row]\<rparr>"

definition confirmation :: "string \<Rightarrow> stk_callback" where
  "confirmation receipt = \<lparr>sc_checkoutRequestID = ''ws_1'', sc_resultCode = 0,
     sc_items = Some [(''Amount'', Some ''250''), (''MpesaReceiptNumber'', Some receipt)]\<rparr>"

definition till_view :: "unit res \<times> db \<Rightarrow> bool \<times> rat list \<times> string list \<times> TransactionStatus list" where
  "till_view r = (isl (fst r), map acc_balance (accounts (snd r)), map tx_reference (transactions (snd r)),
     map mt_status (mpesaTransactions (snd r)))"


lemma till_facts:
  "till_view (handleStkCallback plain_env 60000 (confirmation ''RCP1'') till) =
     (False, [1250, 500], [''MPESA_DEP-RCP1-t''], [TransactionStatus.COMPLETED])"
  "wf_db till" "gl_agrees till ''t''"
  "transactionByReference till ''t'' (''MPESA_DEP-'' @ ''RCP1'' @ ''-'' @ ''t'') = None"
  by code_simp+

theorem deposit_credited_witness:
  "\<exists>s'. handleStkCallback plain_env 60000 (confirmation ''RCP1'') till = (Inr (), s') \<and> gl_agrees s' ''t'' \<and>
     map acc_balance (accounts s') = [1250, 500] \<and>
     handleStkCallback plain_env 90000 (confirmation ''RCP1'') s' = (Inr (), s')"
proof -
  obtain r s' where run: "handleStkCallback plain_env 60000 (confirmation ''RCP1'') till = (r, s')" by fastforce
  then have v: "\<not> isl r" "map acc_balance (accounts s') = [1250, 500]"
    using till_facts(1) by (simp_all only: till_view_def fst_conv snd_conv prod.inject) simp_all
  then have ok: "handleStkCallback plain_env 60000 (confirmation ''RCP1'') till = (Inr (), s')"
    using run by (cases r) auto
  have m: "mt_checkoutRequestId till_row = Some (sc_checkoutRequestID (confirmation ''RCP1''))"
    "mt_status till_row = TransactionStatus.PENDING" "sc_resultCode (confirmation ''RCP1'') = 0"
    "mt_accountReference till_row = Some ''ACC-F''" "mt_tenantId till_row = ''t''"
    by (simp_all add: till_row_def stkRow_def confirmation_def)
  have ref: "entryOf ''MpesaReceiptNumber'' (parseStkMeta (sc_items (confirmation ''RCP1''))) = Some ''RCP1''"
    "pr_type (parseReference ''ACC-F'') = ParsedRefType.DEPOSIT" "\<not> pr_isMemberIdDeposit (parseReference ''ACC-F'')"
    "pr_target (parseReference ''ACC-F'') = ''ACC-F''"
    by code_simp+
  have row: "findFirst (\<lambda>m. mt_checkoutRequestId m = Some (sc_checkoutRequestID (confirmation ''RCP1''))) (mpesaTransactions till) =
      Some till_row"
    using m(1) by (simp add: till_def)
  have acc: "findFirst (\<lambda>a. acc_accountNumber a = pr_target (parseReference ''ACC-F'') \<and> acc_tenantId a = mt_tenantId till_row \<and>
           acc_isActive a) (accounts till) = Some (bank_account ''F'' FOSA 1000)"
    by (simp add: ref(4) m(5) till_def bank_def bank_account_def)
  have "transactionByReference till (mt_tenantId till_row) (''MPESA_DEP-'' @ ''RCP1'' @ ''-'' @ mt_tenantId till_row) = None"
    using till_facts(4) m(5) by simp
  note all = deposit_credited [OF plain.decimal_runtime_axioms ok till_facts(2,3) row m(2,3) ref(1) m(4) ref(2,3) acc this,
      of 90000]
  have "gl_agrees s' ''t''" "handleStkCallback plain_env 90000 (confirmation ''RCP1'') s' = (Inr (), s')"
    by (insert all, elim conjE, assumption)+
  with ok v(2) show ?thesis by (intro exI [of _ s'] conjI)
qed

section \<open>Messages that are lost\<close>

text \<open>
  The job that gives up on a request after two minutes closes the row. A confirmation that comes
  later, from a provider that has taken the money, is acknowledged and credits nobody.
\<close>

theorem late_confirmation_is_lost:
  "till_view (handleStkCallback plain_env 180000 (confirmation ''RCP1'') (snd (cleanupStaleStkTransactions 180000 till))) =
     (False, [1000, 500], [], [TransactionStatus.FAILED])"
  by code_simp

text \<open>
  A direct payment names its target by the bill reference, which is only looked up as an account
  number: a reference with the prefix for a loan or for a member, which the router of references
  describes for such payments too, is rejected with code 9999.
\<close>

definition paybill :: "string \<Rightarrow> c2b_callback" where
  "paybill ref = \<lparr>cb_transID = ''C1'', cb_transTime = ''20250101120000'', cb_transAmount = ''75'', cb_billRefNumber = ref,
     cb_msisdn = ''254712345678''\<rparr>"

theorem prefixed_payment_is_rejected:
  "till_view (handleC2bCallback plain_env 0 (paybill ''DEPOSIT-mF'') (Some ''t'') None bank) =
     (False, [1000, 500], [], [TransactionStatus.FAILED])"
  "till_view (handleC2bCallback plain_env 0 (paybill ''ACC-F'') (Some ''t'') None bank) =
     (False, [1075, 500], [''MPESA_DEP-C1-t''], [TransactionStatus.COMPLETED])"
  by code_simp+

text \<open>A deposit of 100.49 charges the phone 100 and keeps a row of 100.49, which the confirmation credits.\<close>

theorem deposit_charges_another_amount:
  "mathRound (10049 / 100) = 100 \<and>
   mt_amount (stkRow plain_env 0 ''t'' ''m'' None ''ws'' ''p'' (10049 / 100) ''ACC-F'') = 10049 / 100"
  by code_simp

end
