(* ===== verification/Ledger_Integrity.thy ===== *)
theory Ledger_Integrity
  imports Ledger_Properties Daily_Accrual
begin

text \<open>
  The hourly comparison of balances with transactions and of transactions with journal entries
  (\<open>runLedgerIntegrityCheck\<close> and \<open>findGlBypasses\<close> of \<open>src/src/modules/financial/financial.service.ts\<close>), and
  the exposure of a guarantor (\<open>getGuarantorExposure\<close> there).

  What a run reports is a record; the numbers of a report are exact instead of binary floating
  point. The rows of the transaction table stand in the order of their creation.
\<close>

section \<open>The check\<close>

definition CREDIT_TYPES :: "TransactionType list" where
  "CREDIT_TYPES = [TransactionType.DEPOSIT, TransactionType.LOAN_DISBURSEMENT, TransactionType.INTEREST_EARNED,
     TransactionType.DIVIDEND_PAYOUT]"

definition DEBIT_TYPES :: "TransactionType list" where
  "DEBIT_TYPES = [TransactionType.WITHDRAWAL, TransactionType.LOAN_REPAYMENT, TransactionType.INTEREST_ACCRUAL,
     TransactionType.PENALTY, TransactionType.FEE_CHARGE]"

definition aggregateAmount :: "db \<Rightarrow> ident \<Rightarrow> TransactionType list \<Rightarrow> rat" where
  "aggregateAmount s accountId types = sum_list (map tx_amount (filter (\<lambda>t. tx_accountId t = accountId \<and>
     tx_status t = TransactionStatus.COMPLETED \<and> tx_type t \<in> set types) (transactions s)))"

record drift =
  dr_accountId :: ident
  dr_expected :: rat
  dr_actual :: rat
  dr_drift :: rat

definition driftOf :: "env \<Rightarrow> db \<Rightarrow> account \<Rightarrow> drift" where
  "driftOf E s a =
     (let expectedBalance = dminus E (aggregateAmount s (acc_id a) CREDIT_TYPES) (aggregateAmount s (acc_id a) DEBIT_TYPES);
          actualBalance = acc_balance a
      in \<lparr>dr_accountId = acc_id a, dr_expected = expectedBalance, dr_actual = actualBalance,
          dr_drift = \<bar>dminus E actualBalance expectedBalance\<bar>\<rparr>)"

definition hasEntry :: "db \<Rightarrow> txn \<Rightarrow> bool" where
  "hasEntry s t \<longleftrightarrow> (\<exists>j \<in> set (journalEntries s). je_tenantId j = tx_tenantId t \<and>
     je_referenceType j = Some ''TRANSACTION'' \<and>
     (je_referenceId j = Some (tx_id t) \<or> je_referenceId j \<noteq> None \<and> je_referenceId j = tx_linkedTransactionId t))"

definition GL_BYPASS_SCAN_LIMIT :: nat where "GL_BYPASS_SCAN_LIMIT = 500"

definition findGlBypasses :: "db \<Rightarrow> ident \<Rightarrow> txn list \<times> bool" where
  "findGlBypasses s tenantId =
     (let rows = take (GL_BYPASS_SCAN_LIMIT + 1) (rev (filter (\<lambda>t. tx_tenantId t = tenantId \<and>
            tx_status t \<in> {TransactionStatus.COMPLETED, TransactionStatus.REVERSED} \<and> \<not> hasEntry s t) (transactions s)));
          truncated = (GL_BYPASS_SCAN_LIMIT < length rows)
      in (if truncated then take GL_BYPASS_SCAN_LIMIT rows else rows, truncated))"

record integrity_report =
  ir_checked :: nat
  ir_drifts :: "drift list"
  ir_glBypasses :: "txn list"
  ir_glBypassTruncated :: bool

definition runLedgerIntegrityCheck :: "env \<Rightarrow> db \<Rightarrow> ident \<Rightarrow> integrity_report" where
  "runLedgerIntegrityCheck E s tenantId =
     (let rows = filter (\<lambda>a. acc_tenantId a = tenantId \<and> acc_isActive a) (accounts s);
          drifts = filter (\<lambda>d. 1 / 10000 < dr_drift d) (map (driftOf E s) rows);
          (bypasses, truncated) = findGlBypasses s tenantId
      in \<lparr>ir_checked = length rows, ir_drifts = drifts, ir_glBypasses = bypasses, ir_glBypassTruncated = truncated\<rparr>)"

section \<open>Exposure of a guarantor\<close>

record exposure =
  ex_totalExposure :: rat
  ex_fosaBalance :: rat
  ex_exposureRatio :: rat
  ex_canGuarantee :: bool

definition getGuarantorExposure :: "env \<Rightarrow> db \<Rightarrow> ident \<Rightarrow> ident \<Rightarrow> exposure" where
  "getGuarantorExposure E s memberId tenantId =
     (let guarantees = filter (\<lambda>g. lg_memberId g = memberId \<and> lg_tenantId g = tenantId \<and>
            lg_status g = GuarantorStatus.ACCEPTED \<and>
            (\<exists>l \<in> set (loans s). ln_id l = lg_loanId g \<and>
               ln_status l \<in> {LoanStatus.ACTIVE, LoanStatus.DISBURSED, LoanStatus.APPROVED})) (guarantors s);
          totalExposure = dsum E lg_guaranteedAmount guarantees;
          fosaBalance = (case findFirst (\<lambda>a. acc_memberId a = memberId \<and> acc_tenantId a = tenantId \<and>
              acc_accountType a = FOSA \<and> acc_isActive a) (accounts s) of Some a \<Rightarrow> acc_balance a | None \<Rightarrow> 0);
          maxAllowed = dtimes E fosaBalance (3 / 2)
      in \<lparr>ex_totalExposure = totalExposure, ex_fosaBalance = fosaBalance,
          ex_exposureRatio = (if 0 < fosaBalance then ddiv E totalExposure fosaBalance else 0),
          ex_canGuarantee = (totalExposure < maxAllowed)\<rparr>)"

section \<open>Books that reconcile\<close>

definition expected :: "db \<Rightarrow> ident \<Rightarrow> rat" where
  "expected s k = aggregateAmount s k CREDIT_TYPES - aggregateAmount s k DEBIT_TYPES"

definition counted :: "txn \<Rightarrow> bool" where
  "counted t \<longleftrightarrow> tx_type t \<in> set CREDIT_TYPES \<or> tx_type t \<in> set DEBIT_TYPES"

definition weight :: "ident \<Rightarrow> txn \<Rightarrow> rat" where
  "weight k t = (if tx_accountId t = k \<and> tx_status t = TransactionStatus.COMPLETED then
     (if tx_type t \<in> set CREDIT_TYPES then tx_amount t else if tx_type t \<in> set DEBIT_TYPES then - tx_amount t else 0) else 0)"

lemma type_lists: "tx_type t \<in> set CREDIT_TYPES \<Longrightarrow> tx_type t \<notin> set DEBIT_TYPES"
  by (auto simp: CREDIT_TYPES_def DEBIT_TYPES_def)

lemma expected_sum: "expected s k = sum_list (map (weight k) (transactions s))"
proof -
  have "sum_list (map tx_amount (filter (\<lambda>t. tx_accountId t = k \<and> tx_status t = TransactionStatus.COMPLETED \<and>
        tx_type t \<in> set CREDIT_TYPES) ts)) -
      sum_list (map tx_amount (filter (\<lambda>t. tx_accountId t = k \<and> tx_status t = TransactionStatus.COMPLETED \<and>
        tx_type t \<in> set DEBIT_TYPES) ts)) = sum_list (map (weight k) ts)" for ts
    by (induction ts) (auto simp: weight_def dest: type_lists)
  then show ?thesis by (simp add: expected_def aggregateAmount_def)
qed

text \<open>The sign of a counted row is the one of its type.\<close>

definition signed_row :: "txn \<Rightarrow> bool" where
  "signed_row t \<longleftrightarrow> (tx_type t \<in> set CREDIT_TYPES \<longrightarrow> tx_balanceBefore t \<le> tx_balanceAfter t) \<and>
     (tx_type t \<in> set DEBIT_TYPES \<longrightarrow> tx_balanceAfter t < tx_balanceBefore t)"

definition reconciled :: "db \<Rightarrow> bool" where
  "reconciled s \<longleftrightarrow> wf_db s \<and> (\<forall>a \<in> set (accounts s). acc_balance a = expected s (acc_id a)) \<and>
     (\<forall>t \<in> set (transactions s). signed_row t) \<and>
     (\<forall>t \<in> set (transactions s). tx_status t \<in> {TransactionStatus.COMPLETED, TransactionStatus.REVERSED} \<longrightarrow> hasEntry s t)"

lemma reconciledD:
  assumes "reconciled s"
  shows "wf_db s" "a \<in> set (accounts s) \<Longrightarrow> acc_balance a = expected s (acc_id a)"
    "t \<in> set (transactions s) \<Longrightarrow> signed_row t"
    "t \<in> set (transactions s) \<Longrightarrow> tx_status t \<in> {TransactionStatus.COMPLETED, TransactionStatus.REVERSED} \<Longrightarrow> hasEntry s t"
  using assms by (auto simp: reconciled_def)


section \<open>Postings\<close>

lemma hasEntry_mono:
  "hasEntry s t \<Longrightarrow> set (journalEntries s) \<subseteq> set (journalEntries s') \<Longrightarrow> hasEntry s' t"
  by (auto simp: hasEntry_def)

lemma fits_types:
  assumes "JOURNAL_TO_TRANSACTION_TYPE ty = Some tt" and "direction_fits ty dir"
  shows "dir = CREDIT \<Longrightarrow> tt \<in> set CREDIT_TYPES" "dir = DEBIT \<Longrightarrow> tt \<in> set DEBIT_TYPES"
  using assms by (auto simp: direction_fits_def CREDIT_TYPES_def DEBIT_TYPES_def)

lemma balances_moveBalance_all:
  assumes "\<forall>a \<in> set (accounts s). acc_balance a = e (acc_id a)"
    and "accounts s' = accounts (moveBalance k d s)"
  shows "\<forall>a \<in> set (accounts s'). acc_balance a = e (acc_id a) + (if acc_id a = k then d else 0)"
  using assms by (auto simp: moveBalance_def)

lemma reconciled_cache: "reconciled (s\<lparr>systemUserIdCache := c\<rparr>) = reconciled s"
  by (simp add: reconciled_def expected_sum hasEntry_def)

lemma reconciled_same:
  assumes "accounts s' = accounts s" "transactions s' = transactions s" "journalEntries s' = journalEntries s" "wf_db s'"
    and "reconciled s"
  shows "reconciled s'"
  using assms by (simp add: reconciled_def expected_sum hasEntry_def)

lemma postEntry_reconciled:
  assumes E: "decimal_runtime E" and run: "postEntry E inTx s p = Inr ((t, e), s')"
    and fits: "direction_fits (ep_journalType p) (ep_direction p)" and r: "reconciled s"
  shows "reconciled s'"
proof (cases "transactionByReference s (ep_tenantId p) (ep_reference p)")
  case (Some x)
  from postEntry_repeated [OF run Some] decimal_runtime.postEntry_wf [OF E run reconciledD(1) [OF r]]
  show ?thesis by (intro reconciled_same [OF _ _ _ _ r]) auto
next
  case None
  show ?thesis
  proof (rule decimal_runtime.postEntry_fresh_rows [OF E run reconciledD(1) [OF r] None])
    fix a tt u
    assume after: "tx_balanceAfter t = acc_balance a + signed (ep_direction p) (dp4 E (ep_amount p))"
      and before: "tx_balanceBefore t = acc_balance a" and am: "tx_amount t = dp4 E (ep_amount p)" "0 < dp4 E (ep_amount p)"
      and acct: "tx_accountId t = ep_accountId p" and ty: "JOURNAL_TO_TRANSACTION_TYPE (ep_journalType p) = Some tt" "tx_type t = tt"
      and st: "tx_status t = TransactionStatus.COMPLETED"
      and accs: "accounts s' = accounts (moveBalance (ep_accountId p) (signed (ep_direction p) (dp4 E (ep_amount p))) s)"
      and tr: "transactions s' = transactions s @ [t]" and js: "journalEntries s' = journalEntries s @ [e]"
      and e: "je_tenantId e = ep_tenantId p" "je_referenceType e = Some ''TRANSACTION''" "je_referenceId e = Some (tx_id t)"
      and ten: "tx_tenantId t = ep_tenantId p"
    note types = fits_types [OF ty(1) fits]
    have sr: "signed_row t"
      using types ty am after before type_lists [of t]
      by (cases "ep_direction p") (auto simp: signed_row_def signed_def)
    have w: "weight k t = (if k = ep_accountId p then signed (ep_direction p) (dp4 E (ep_amount p)) else 0)" for k
      using types ty am acct st type_lists [of t] by (cases "ep_direction p") (auto simp: weight_def signed_def)
    have "expected s' k = expected s k + (if k = ep_accountId p then signed (ep_direction p) (dp4 E (ep_amount p)) else 0)" for k
      by (simp add: expected_sum tr w)
    then have "\<forall>a \<in> set (accounts s'). acc_balance a = expected s' (acc_id a)"
      using balances_moveBalance_all [OF _ accs, of "expected s"] reconciledD(2) [OF r] by simp
    moreover have "hasEntry s' t" using e ten by (simp add: hasEntry_def js)
    moreover have "hasEntry s' x" if "hasEntry s x" for x using that by (rule hasEntry_mono) (auto simp: js)
    ultimately show ?thesis
      using sr decimal_runtime.postEntry_wf [OF E run reconciledD(1) [OF r]] r by (auto simp: reconciled_def tr)
  qed
qed

section \<open>Reversals\<close>

lemma applyBalanceChange_entries:
  "applyBalanceChange E s t k amount dir = Inr (r, s') \<Longrightarrow> journalEntries s' = journalEntries s"
  by (auto simp: applyBalanceChange_def updateMany_def Let_def res_simps split: option.splits if_splits)

lemma reverse_rows:
  assumes E: "decimal_runtime E" and run: "reverseTransaction E inTx s t k actor = Inr ((rv, e), s')" and wf: "wf_db s"
  obtains orig where "wf_db s'" "orig \<in> set (transactions s)" "tx_id orig = k"
    "tx_status orig \<noteq> TransactionStatus.REVERSED"
    "accounts s' = accounts (moveBalance (tx_accountId orig)
       (if tx_balanceBefore orig \<le> tx_balanceAfter orig then - tx_amount orig else tx_amount orig) s)"
    "transactions s' = map (\<lambda>x. if tx_id x = k then x\<lparr>tx_status := TransactionStatus.REVERSED\<rparr> else x) (transactions s) @ [rv]"
    "tx_type rv = TransactionType.REVERSAL" "tx_tenantId rv = t"
    "journalEntries s' = journalEntries s @ [e]" "je_tenantId e = t" "je_referenceType e = Some ''TRANSACTION''"
    "je_referenceId e = Some (tx_id rv)"
proof -
  from run obtain s0 s1 u where s0: "s0 = s\<lparr>systemUserIdCache := systemUserIdCache s0\<rparr>"
    and body: "reverseTransactionBody E s0 t k u = Inr ((rv, e), s1)"
    and s': "s' = (if \<not> inTx then writeAudit t u ''LEDGER_REVERSE_TRANSACTION'' (tx_id rv) s1 else s1)"
    by (rule reverseTransaction_cases)
  have same: "accounts s' = accounts s1" "journalEntries s' = journalEntries s1" "wf_db s' = wf_db s1"
    by (simp_all add: s' writeAudit_def)
  from run obtain o2 where o2: "o2 \<in> set (transactions s)" "tx_id o2 = k"
    "transactions s' = map (\<lambda>x. if tx_id x = k then x\<lparr>tx_status := TransactionStatus.REVERSED\<rparr> else x) (transactions s) @ [rv]"
    "tx_tenantId rv = t"
    by (rule reverse_transactions)
  have rows: "tx_type rv = TransactionType.REVERSAL" "journalEntries s1 = journalEntries s @ [e]" "je_tenantId e = t"
    "je_referenceType e = Some ''TRANSACTION''" "je_referenceId e = Some (tx_id rv)"
    using body cache_same(4) [OF s0]
    by (auto elim!: reverseTransactionBody_steps simp: createTransaction_Inr createJournalEntry_Inr
        dest!: applyBalanceChange_entries)
  show thesis
  proof (rule decimal_runtime.reverse_effects [OF E body])
    show "wf_db s0" using wf cache_same(5) [OF s0] by simp
    fix orig oe a dlt
    assume orig: "findFirst (\<lambda>x. tx_id x = k \<and> tx_tenantId x = t) (transactions s0) = Some orig"
      and st: "tx_status orig \<noteq> TransactionStatus.REVERSED"
      and dlt: "dlt = (if tx_balanceBefore orig \<le> tx_balanceAfter orig then - tx_amount orig else tx_amount orig)"
      and accs: "accounts s1 = accounts (moveBalance (tx_accountId orig) dlt s0)" and "wf_db s1"
    have "orig \<in> set (transactions s)" "tx_id orig = k"
      using findFirst_Some [OF orig] cache_same(2) [OF s0] by auto
    moreover have "accounts (moveBalance (tx_accountId orig) dlt s0) = accounts (moveBalance (tx_accountId orig) dlt s)"
      using cache_same(1) [OF s0] by (rule moveBalance_cong)
    ultimately show thesis
      using that [of orig] st accs \<open>wf_db s1\<close> same o2(3,4) rows by (simp add: dlt)
  qed
qed

lemma reverse_reconciled:
  assumes E: "decimal_runtime E" and run: "reverseTransaction E inTx s t k actor = Inr ((rv, e), s')" and r: "reconciled s"
    and ok: "\<forall>x \<in> set (transactions s). tx_id x = k \<longrightarrow> counted x \<and> tx_status x \<noteq> TransactionStatus.PENDING \<and>
      tx_status x \<noteq> TransactionStatus.FAILED \<and> tx_status x \<noteq> TransactionStatus.RECON_PENDING"
  shows "reconciled s'"
proof (rule reverse_rows [OF E run reconciledD(1) [OF r]])
  fix orig
  assume wf: "wf_db s'" and o: "orig \<in> set (transactions s)" "tx_id orig = k" "tx_status orig \<noteq> TransactionStatus.REVERSED"
    and accs: "accounts s' = accounts (moveBalance (tx_accountId orig)
       (if tx_balanceBefore orig \<le> tx_balanceAfter orig then - tx_amount orig else tx_amount orig) s)"
    and tr: "transactions s' = map (\<lambda>x. if tx_id x = k then x\<lparr>tx_status := TransactionStatus.REVERSED\<rparr> else x) (transactions s) @ [rv]"
    and rv: "tx_type rv = TransactionType.REVERSAL" "tx_tenantId rv = t"
    and js: "journalEntries s' = journalEntries s @ [e]" "je_tenantId e = t" "je_referenceType e = Some ''TRANSACTION''"
      "je_referenceId e = Some (tx_id rv)"
  let ?h = "\<lambda>x. if tx_id x = k then x\<lparr>tx_status := TransactionStatus.REVERSED\<rparr> else x"
  let ?d = "if tx_balanceBefore orig \<le> tx_balanceAfter orig then - tx_amount orig else tx_amount orig"
  have st: "tx_status orig = TransactionStatus.COMPLETED" "counted orig" using ok o by (cases "tx_status orig"; auto)+
  have ids: "distinct (map tx_id (transactions s))" using wf_dbD(3) [OF reconciledD(1) [OF r]] by (simp add: wf_transactions_def)
  have sg: "signed_row orig" by (rule reconciledD(3) [OF r o(1)])
  have w: "weight k' (?h orig) - weight k' orig = (if k' = tx_accountId orig then ?d else 0)" for k'
    using st sg o(2) type_lists [of orig] by (auto simp: weight_def counted_def signed_row_def)
  have "sum_list (map (weight k') (map ?h (transactions s))) = sum_list (map (weight k') (transactions s)) +
      (weight k' (?h orig) - weight k' orig)" for k'
    using sum_list_update_key [OF ids o(1), of "\<lambda>x. tx_id x = k" k "weight k'" "\<lambda>x. x\<lparr>tx_status := TransactionStatus.REVERSED\<rparr>"] o(2)
    by simp
  moreover have "weight k' rv = 0" for k' by (simp add: weight_def rv CREDIT_TYPES_def DEBIT_TYPES_def)
  ultimately have ex: "expected s' k' = expected s k' + (if k' = tx_accountId orig then ?d else 0)" for k'
    using w [of k'] unfolding expected_sum tr by simp
  have "\<forall>a \<in> set (accounts s'). acc_balance a = expected s' (acc_id a)"
    using balances_moveBalance_all [OF _ accs, of "expected s"] reconciledD(2) [OF r] unfolding ex by blast
  moreover have "signed_row x" if "x \<in> set (transactions s')" for x
    using that reconciledD(3) [OF r] rv(1) unfolding tr by (auto simp: signed_row_def CREDIT_TYPES_def DEBIT_TYPES_def)
  moreover have "hasEntry s' x" if "x \<in> set (transactions s')" "tx_status x \<in> {TransactionStatus.COMPLETED, TransactionStatus.REVERSED}" for x
  proof (cases "x = rv")
    case True
    then show ?thesis using js rv(2) by (simp add: hasEntry_def)
  next
    case False
    with that(1) tr obtain y where y: "y \<in> set (transactions s)" "x = ?h y" by auto
    have "tx_status y \<in> {TransactionStatus.COMPLETED, TransactionStatus.REVERSED}"
      using that(2) y ok by (cases "tx_id y = k"; cases "tx_status y") auto
    then have "hasEntry s y" using y(1) by (intro reconciledD(4) [OF r])
    then have "hasEntry s' y" by (rule hasEntry_mono) (simp add: js(1) subset_insertI)
    then show ?thesis by (cases "tx_id y = k") (simp_all add: y(2) hasEntry_def)
  qed
  ultimately show ?thesis using wf by (simp add: reconciled_def)
qed

text \<open>Runs of the ledger: postings and reversals of counted rows, in any order.\<close>

inductive ledger_run :: "env \<Rightarrow> db \<Rightarrow> db \<Rightarrow> bool" for E s where
  start: "ledger_run E s s"
| posting: "ledger_run E s s1 \<Longrightarrow> postEntry E inTx s1 p = Inr ((t, e), s2) \<Longrightarrow>
    direction_fits (ep_journalType p) (ep_direction p) \<Longrightarrow> ledger_run E s s2"
| reversal: "ledger_run E s s1 \<Longrightarrow> reverseTransaction E inTx s1 t k actor = Inr ((rv, e), s2) \<Longrightarrow>
    \<forall>x \<in> set (transactions s1). tx_id x = k \<longrightarrow> counted x \<and> tx_status x \<noteq> TransactionStatus.PENDING \<and>
      tx_status x \<noteq> TransactionStatus.FAILED \<and> tx_status x \<noteq> TransactionStatus.RECON_PENDING \<Longrightarrow> ledger_run E s s2"

lemma ledger_run_reconciled:
  assumes "ledger_run E s s'" and E: "decimal_runtime E" and "reconciled s"
  shows "reconciled s'"
  using assms(1,3)
proof (induction rule: ledger_run.induct)
  case (posting s1 inTx p t e s2)
  then show ?case using postEntry_reconciled [OF E] by blast
next
  case (reversal s1 inTx t k actor rv e s2)
  then show ?case using reverse_reconciled [OF E] by blast
qed

lemma reconciled_clean:
  assumes "decimal_runtime E" and r: "reconciled s"
  shows "ir_drifts (runLedgerIntegrityCheck E s t) = []" "ir_glBypasses (runLedgerIntegrityCheck E s t) = []"
proof -
  have "dr_drift (driftOf E s a) = 0" if a: "a \<in> set (accounts s)" for a
  proof -
    have m: "money (acc_balance a)" using wf_accountsD(2) [OF wf_dbD(1) [OF reconciledD(1) [OF r]] a] by (rule wf_accountD(1))
    have b: "aggregateAmount s (acc_id a) CREDIT_TYPES - aggregateAmount s (acc_id a) DEBIT_TYPES = acc_balance a"
      using reconciledD(2) [OF r a] by (simp add: expected_def)
    have "dminus E (aggregateAmount s (acc_id a) CREDIT_TYPES) (aggregateAmount s (acc_id a) DEBIT_TYPES) = acc_balance a"
      using decimal_runtime.dminus_exact [OF assms(1), of "aggregateAmount s (acc_id a) CREDIT_TYPES"
          "aggregateAmount s (acc_id a) DEBIT_TYPES"] money_wide [OF m] b by simp
    then show ?thesis using decimal_runtime.dminus_money [OF assms(1) m m] by (simp add: driftOf_def Let_def)
  qed
  then show "ir_drifts (runLedgerIntegrityCheck E s t) = []"
    by (auto simp: runLedgerIntegrityCheck_def Let_def filter_empty_conv split: prod.split)
  have "filter (\<lambda>x. tx_tenantId x = t \<and> tx_status x \<in> {TransactionStatus.COMPLETED, TransactionStatus.REVERSED} \<and>
      \<not> hasEntry s x) (transactions s) = []"
    using reconciledD(4) [OF r] by (auto simp: filter_empty_conv)
  then show "ir_glBypasses (runLedgerIntegrityCheck E s t) = []"
    by (simp add: runLedgerIntegrityCheck_def findGlBypasses_def Let_def)
qed

section \<open>Properties\<close>

text \<open>
  C39. The hourly check raises no false alarm about the ledger's own work: from books that
  reconcile, after any sequence of postings of the supported kinds and of reversals of deposits and
  withdrawals, every balance equals the credits less the debits that the check adds up, and every
  transaction has its journal entry, so a run for any tenant reports neither a drift nor a bypass.
\<close>

theorem integrity_of_ledger_runs:
  assumes "decimal_runtime E" and "ledger_run E s s'" and "reconciled s"
  shows "ir_drifts (runLedgerIntegrityCheck E s' tenant) = [] \<and> ir_glBypasses (runLedgerIntegrityCheck E s' tenant) = []"
  using reconciled_clean [OF assms(1) ledger_run_reconciled [OF assms(2,1,3)]] by blast

text \<open>A tenant whose accounts start empty, with a deposit, a withdrawal and its reversal.\<close>

definition vault :: db where
  "vault = bank\<lparr>accounts := map (\<lambda>a. a\<lparr>acc_balance := 0, acc_lockedBalance := 0, acc_minimumBalance := 0\<rparr>) (accounts bank),
     journalEntries := []\<rparr>"

definition vault_entry :: "string \<Rightarrow> JournalEntryType \<Rightarrow> direction \<Rightarrow> rat \<Rightarrow> entry_params" where
  "vault_entry ref ty dir x = (bank_entry ty dir x)\<lparr>ep_reference := ref\<rparr>"

definition after :: "('a \<times> db) res \<Rightarrow> db" where
  "after r = (case r of Inr (_, s) \<Rightarrow> s | Inl _ \<Rightarrow> empty_db)"

definition paid_in :: db where
  "paid_in = after (postEntry plain_env False vault (vault_entry ''D1'' JournalEntryType.DEPOSIT CREDIT 500))"

definition paid_back :: db where
  "paid_back = after (postEntry plain_env False paid_in (vault_entry ''W1'' JournalEntryType.WITHDRAWAL DEBIT 200))"

definition given_back :: db where
  "given_back = after (reverseTransaction plain_env False paid_back ''t'' (tx_id (last (transactions paid_back))) (Some ''u''))"

definition report_view :: "db \<Rightarrow> (ident \<times> rat) list \<times> string list \<times> rat list" where
  "report_view s = (let r = runLedgerIntegrityCheck plain_env s ''t'' in
     (map (\<lambda>d. (dr_accountId d, dr_drift d)) (ir_drifts r), map tx_reference (ir_glBypasses r), map acc_balance (accounts s)))"


lemma vault_reconciled: "reconciled vault" by code_simp

lemma after_run: "\<not> isl r \<Longrightarrow> \<exists>x e. r = Inr ((x, e), after r)"
  by (cases r) (auto simp: after_def)

lemma vault_steps:
  "\<not> isl (postEntry plain_env False vault (vault_entry ''D1'' JournalEntryType.DEPOSIT CREDIT 500))"
  "\<not> isl (postEntry plain_env False paid_in (vault_entry ''W1'' JournalEntryType.WITHDRAWAL DEBIT 200))"
  "\<not> isl (reverseTransaction plain_env False paid_back ''t'' (tx_id (last (transactions paid_back))) (Some ''u''))"
  by code_simp+

lemma vault_counted:
  "\<forall>x \<in> set (transactions paid_back). tx_id x = tx_id (last (transactions paid_back)) \<longrightarrow> counted x \<and>
     tx_status x \<noteq> TransactionStatus.PENDING \<and> tx_status x \<noteq> TransactionStatus.FAILED \<and>
     tx_status x \<noteq> TransactionStatus.RECON_PENDING"
  by code_simp

lemma vault_fits:
  "direction_fits (ep_journalType (vault_entry ''D1'' JournalEntryType.DEPOSIT CREDIT 500))
      (ep_direction (vault_entry ''D1'' JournalEntryType.DEPOSIT CREDIT 500)) \<and>
   direction_fits (ep_journalType (vault_entry ''W1'' JournalEntryType.WITHDRAWAL DEBIT 200))
      (ep_direction (vault_entry ''W1'' JournalEntryType.WITHDRAWAL DEBIT 200))"
  by code_simp

lemma vault_run: "ledger_run plain_env vault given_back"
proof -
  obtain t1 e1 where 1: "postEntry plain_env False vault (vault_entry ''D1'' JournalEntryType.DEPOSIT CREDIT 500) = Inr ((t1, e1), paid_in)"
    using after_run [OF vault_steps(1), folded paid_in_def] by blast
  obtain t2 e2 where 2: "postEntry plain_env False paid_in (vault_entry ''W1'' JournalEntryType.WITHDRAWAL DEBIT 200) = Inr ((t2, e2), paid_back)"
    using after_run [OF vault_steps(2), folded paid_back_def] by blast
  obtain t3 e3 where 3: "reverseTransaction plain_env False paid_back ''t'' (tx_id (last (transactions paid_back))) (Some ''u'') = Inr ((t3, e3), given_back)"
    using after_run [OF vault_steps(3), folded given_back_def] by blast
  have "ledger_run plain_env vault paid_in" using ledger_run.posting [OF ledger_run.start 1] vault_fits by blast
  then have "ledger_run plain_env vault paid_back" using ledger_run.posting [OF _ 2] vault_fits by blast
  then show ?thesis by (rule ledger_run.reversal [OF _ 3 vault_counted])
qed

theorem integrity_of_ledger_runs_witness:
  "ir_drifts (runLedgerIntegrityCheck plain_env given_back ''t'') = [] \<and>
   ir_glBypasses (runLedgerIntegrityCheck plain_env given_back ''t'') = []"
  by (rule integrity_of_ledger_runs [OF plain.decimal_runtime_axioms vault_run vault_reconciled])

section \<open>Correct books that the check reports\<close>

text \<open>
  \<open>TRANSFER\<close> is in neither list: both accounts of an internal transfer are reported, with the amount
  of the transfer as the drift.
\<close>

theorem transfer_reported_as_drift:
  "report_view paid_in = ([], [], [500, 0]) \<and>
   report_view (after (postInternalTransfer plain_env paid_in ''t'' ''F'' ''B'' 300 ''X1'' ''u'')) =
     ([(''F'', 300), (''B'', 300)], [], [200, 300])"
  by code_simp

text \<open>A reversal is in neither list either: reversing a reversal restores the balance and reports a drift.\<close>

theorem second_reversal_reported_as_drift:
  "report_view given_back = ([], [], [500, 0]) \<and>
   report_view (after (reverseTransaction plain_env False given_back ''t'' (tx_id (last (transactions given_back))) (Some ''u''))) =
     ([(''F'', 200)], [], [300, 0])"
  by code_simp

end
