(* ===== verification/Idempotency.thy ===== *)
theory Idempotency
  imports Prelude
begin

text \<open>
  Reservation of request keys: \<open>src/src/common/services/idempotency.service.ts\<close> over the commands of
  \<open>src/src/common/services/redis.service.ts\<close> that it uses.

  The store maps a key to its value and the millisecond at which Redis forgets it. Redis is outside
  of the database: no rollback takes a write back, and a command may find the server unreachable,
  which is the argument \<open>up\<close>. \<open>'a\<close> is the type of the results that a client caches. A reservation
  reads the key in a second command, so it has two clock readings.

  A reservation finds Redis reachable or not with both of its commands.

  The theorems: of the requests of a key at most one goes on at a time; and what happens when Redis is
  unreachable, when the key expires between the two commands, and when a request releases a key that it
  has not reserved.
\<close>

section \<open>Redis\<close>

datatype 'a cached = Processing | Completed "'a option" | Corrupt

type_synonym 'a redis = "string \<rightharpoonup> 'a cached \<times> int"

definition alive :: "int \<Rightarrow> 'a redis \<Rightarrow> string \<Rightarrow> 'a cached option" where
  "alive now st k = (case st k of Some (v, expiry) \<Rightarrow> if now < expiry then Some v else None | None \<Rightarrow> None)"

definition redisSet ::
  "bool \<Rightarrow> int \<Rightarrow> string \<Rightarrow> 'a cached \<Rightarrow> nat \<Rightarrow> bool \<Rightarrow> 'a redis \<Rightarrow> bool \<times> 'a redis" where
  "redisSet up now k v ttlSeconds nx st =
     (if \<not> up then (False, st)
      else if nx \<and> alive now st k \<noteq> None then (False, st)
      else (True, st(k \<mapsto> (v, now + 1000 * int ttlSeconds))))"

definition redisGet :: "bool \<Rightarrow> int \<Rightarrow> string \<Rightarrow> 'a redis \<Rightarrow> 'a cached option" where
  "redisGet up now k st = (if up then alive now st k else None)"

definition redisDel :: "bool \<Rightarrow> string \<Rightarrow> 'a redis \<Rightarrow> 'a redis" where
  "redisDel up k st = (if up then st(k := None) else st)"

section \<open>The service\<close>

datatype 'a reserve_answer = NEW | PROCESSING | COMPLETED "'a option"

definition buildKey :: "string \<Rightarrow> string \<Rightarrow> string" where
  "buildKey key tenantId = ''idempotency:'' @ tenantId @ '':'' @ key"

definition checkAndReserve ::
  "bool \<Rightarrow> int \<Rightarrow> int \<Rightarrow> string \<Rightarrow> string \<Rightarrow> nat \<Rightarrow> 'a redis \<Rightarrow> 'a reserve_answer \<times> 'a redis" where
  "checkAndReserve up now now' key tenantId ttlSeconds st =
     (let redisKey = buildKey key tenantId;
          (reserved, st1) = redisSet up now redisKey Processing ttlSeconds True st
      in if reserved then (NEW, st1)
         else (case redisGet up now' redisKey st1 of
            None \<Rightarrow> (NEW, st1)
          | Some (Completed r) \<Rightarrow> (COMPLETED r, st1)
          | Some Processing \<Rightarrow> (PROCESSING, st1)
          | Some Corrupt \<Rightarrow> (NEW, snd (redisSet up now' redisKey Processing ttlSeconds False st1))))"

definition acquire :: "bool \<Rightarrow> int \<Rightarrow> string \<Rightarrow> string \<Rightarrow> nat \<Rightarrow> 'a redis \<Rightarrow> bool \<times> 'a redis" where
  "acquire up now key tenantId ttlSeconds st =
     redisSet up now (buildKey key tenantId) Processing ttlSeconds True st"

definition getResult :: "bool \<Rightarrow> int \<Rightarrow> string \<Rightarrow> string \<Rightarrow> 'a redis \<Rightarrow> 'a option" where
  "getResult up now key tenantId st =
     (case redisGet up now (buildKey key tenantId) st of Some (Completed r) \<Rightarrow> r | _ \<Rightarrow> None)"

definition complete :: "bool \<Rightarrow> int \<Rightarrow> string \<Rightarrow> string \<Rightarrow> 'a \<Rightarrow> nat \<Rightarrow> 'a redis \<Rightarrow> 'a redis" where
  "complete up now key tenantId r ttlSeconds st =
     snd (redisSet up now (buildKey key tenantId) (Completed (Some r)) ttlSeconds False st)"

definition release :: "bool \<Rightarrow> string \<Rightarrow> string \<Rightarrow> 'a redis \<Rightarrow> 'a redis" where
  "release up key tenantId st = redisDel up (buildKey key tenantId) st"

definition keyExists :: "bool \<Rightarrow> int \<Rightarrow> string \<Rightarrow> string \<Rightarrow> 'a redis \<Rightarrow> bool" where
  "keyExists up now key tenantId st = (redisGet up now (buildKey key tenantId) st \<noteq> None)"

section \<open>Laws\<close>

text \<open>Tenants have no colon in their identifiers, so that two keys of the store are two requests.\<close>

definition no_colon :: "string \<Rightarrow> bool" where
  "no_colon x \<longleftrightarrow> CHR '':'' \<notin> set x"

lemma buildKey_inj:
  assumes "buildKey k t = buildKey k' t'" and "no_colon t" "no_colon t'"
  shows "k = k' \<and> t = t'"
proof -
  have "t @ CHR '':'' # k = t' @ CHR '':'' # k'" using assms(1) by (simp add: buildKey_def)
  then have "takeWhile (\<lambda>c. c \<noteq> CHR '':'') (t @ CHR '':'' # k) = takeWhile (\<lambda>c. c \<noteq> CHR '':'') (t' @ CHR '':'' # k')" by simp
  moreover have "takeWhile (\<lambda>c. c \<noteq> CHR '':'') (x @ CHR '':'' # y) = x" if "no_colon x" for x y
    using that by (subst takeWhile_append2) (auto simp: no_colon_def)
  ultimately have "t = t'" using assms(2,3) by simp
  then show ?thesis using assms(1) by (simp add: buildKey_def)
qed

lemma alive_set [simp]:
  "alive now (st(k \<mapsto> (v, e))) k = (if now < e then Some v else None)"
  "k' \<noteq> k \<Longrightarrow> alive now (st(k \<mapsto> (v, e))) k' = alive now st k'"
  "k' \<noteq> k \<Longrightarrow> alive now (st(k := None)) k' = alive now st k'"
  by (simp_all add: alive_def)

text \<open>
  The requests of one key \<open>k\<close>. A run is a list of calls in the order of time; its last argument holds
  the deadlines of the requests that have been told to go on and have not ended. A request with the
  key reserves it (\<open>checkAndReserve\<close>, or \<open>acquire\<close>); once told to go on, and only then, it ends with
  \<open>complete\<close> or \<open>release\<close>, whether Redis is reachable or not, before its lifetime is over. Any call on
  another key, reachable or not, may come in between. Excluded are a \<open>checkAndReserve\<close> of this very key
  that does not reach Redis, a stored value of the key that expires between its two commands, and a
  release by somebody who is no request of the key; the section after the property shows what the
  first two do.
\<close>

definition in_time :: "int list \<Rightarrow> int \<Rightarrow> bool" where
  "in_time ds t \<longleftrightarrow> (\<forall>d \<in> set ds. t < d)"

inductive key_run :: "string \<Rightarrow> 'a redis \<Rightarrow> int \<Rightarrow> int list \<Rightarrow> bool" for k where
  start: "key_run k st now []"
| reserve: "key_run k st now ds \<Longrightarrow> now \<le> t \<Longrightarrow> t \<le> t' \<Longrightarrow> in_time ds t' \<Longrightarrow> buildKey key tenantId = k \<Longrightarrow>
    (\<And>v e. st k = Some (v, e) \<Longrightarrow> e \<le> t \<or> t' < e) \<Longrightarrow> t' < t + 1000 * int ttl \<Longrightarrow>
    checkAndReserve True t t' key tenantId ttl st = (r, st') \<Longrightarrow>
    key_run k st' t' (if r = NEW then (t + 1000 * int ttl) # ds else ds)"
| take: "key_run k st now ds \<Longrightarrow> now \<le> t \<Longrightarrow> in_time ds t \<Longrightarrow> buildKey key tenantId = k \<Longrightarrow>
    acquire up t key tenantId ttl st = (b, st') \<Longrightarrow> key_run k st' t (if b then (t + 1000 * int ttl) # ds else ds)"
| finish: "key_run k st now ds \<Longrightarrow> now \<le> t \<Longrightarrow> in_time ds t \<Longrightarrow> buildKey key tenantId = k \<Longrightarrow> d \<in> set ds \<Longrightarrow>
    key_run k (complete up t key tenantId x ttl st) t (remove1 d ds)"
| drop: "key_run k st now ds \<Longrightarrow> now \<le> t \<Longrightarrow> in_time ds t \<Longrightarrow> buildKey key tenantId = k \<Longrightarrow> d \<in> set ds \<Longrightarrow>
    key_run k (release up key tenantId st) t (remove1 d ds)"
| other_reserve: "key_run k st now ds \<Longrightarrow> now \<le> t \<Longrightarrow> t \<le> t' \<Longrightarrow> in_time ds t' \<Longrightarrow> buildKey key tenantId \<noteq> k \<Longrightarrow>
    checkAndReserve up t t' key tenantId ttl st = (r, st') \<Longrightarrow> key_run k st' t' ds"
| other_take: "key_run k st now ds \<Longrightarrow> now \<le> t \<Longrightarrow> in_time ds t \<Longrightarrow> buildKey key tenantId \<noteq> k \<Longrightarrow>
    acquire up t key tenantId ttl st = (b, st') \<Longrightarrow> key_run k st' t ds"
| other_finish: "key_run k st now ds \<Longrightarrow> now \<le> t \<Longrightarrow> in_time ds t \<Longrightarrow> buildKey key tenantId \<noteq> k \<Longrightarrow>
    key_run k (complete up t key tenantId x ttl st) t ds"
| other_drop: "key_run k st now ds \<Longrightarrow> now \<le> t \<Longrightarrow> in_time ds t \<Longrightarrow> buildKey key tenantId \<noteq> k \<Longrightarrow>
    key_run k (release up key tenantId st) t ds"

text \<open>The invariant: at most one request goes on, and the key is stored until its deadline at least.\<close>

definition exclusive :: "string \<Rightarrow> 'a redis \<Rightarrow> int list \<Rightarrow> bool" where
  "exclusive k st ds \<longleftrightarrow> length ds \<le> 1 \<and> (\<forall>d \<in> set ds. \<exists>e \<ge> d. st k = Some (Processing, e))"

lemma exclusive_alive:
  assumes "exclusive k st ds" and "ds \<noteq> []" and "in_time ds t"
  shows "alive t st k = Some Processing"
proof -
  from assms(2) obtain d where "d \<in> set ds" by (cases ds) auto
  with assms(1,3) obtain e where "t < e" "st k = Some (Processing, e)" by (force simp: exclusive_def in_time_def)
  then show ?thesis by (simp add: alive_def)
qed

lemma exclusive_held:
  assumes "exclusive k st ds" and "ds \<noteq> []" and "buildKey key tenantId = k" and "in_time ds t" "in_time ds t'"
  shows "checkAndReserve True t t' key tenantId ttl st = (PROCESSING, st)"
    and "acquire up t key tenantId ttl st = (False, st)"
  using exclusive_alive [OF assms(1,2,4)] exclusive_alive [OF assms(1,2,5)] assms(3)
  by (simp_all add: checkAndReserve_def acquire_def redisSet_def redisGet_def Let_def)

lemma exclusive_remove: "exclusive k st ds \<Longrightarrow> d \<in> set ds \<Longrightarrow> remove1 d ds = []"
  by (cases ds) (auto simp: exclusive_def)

lemma exclusive_other: "exclusive k st ds \<Longrightarrow> st' k = st k \<Longrightarrow> exclusive k st' ds"
  by (simp add: exclusive_def)

lemma other_key:
  assumes "buildKey key tenantId \<noteq> k"
  shows "checkAndReserve up t t' key tenantId ttl st = (r, st') \<Longrightarrow> st' k = st k"
    and "acquire up t key tenantId ttl st = (b, st') \<Longrightarrow> st' k = st k"
    and "complete up t key tenantId x ttl st k = st k" "release up key tenantId st k = st k"
  using assms by (auto simp: checkAndReserve_def acquire_def complete_def release_def redisSet_def redisDel_def Let_def
      split: if_splits option.splits cached.splits)

lemma reserve_new:
  assumes "checkAndReserve True t t' key tenantId ttl st = (NEW, st1)" and "t' < t + 1000 * int ttl" and "t \<le> t'"
    and "\<And>v e. st (buildKey key tenantId) = Some (v, e) \<Longrightarrow> e \<le> t \<or> t' < e"
  shows "\<exists>e \<ge> t + 1000 * int ttl. st1 (buildKey key tenantId) = Some (Processing, e)"
  using assms
  by (auto simp: checkAndReserve_def redisSet_def redisGet_def alive_def Let_def
      split: if_splits option.splits cached.splits)

lemma in_time_earlier: "in_time ds t' \<Longrightarrow> t \<le> t' \<Longrightarrow> in_time ds t"
  by (auto simp: in_time_def)

lemma reserve_refused:
  assumes "checkAndReserve True t t' key tenantId ttl st = (r, st1)" and "r \<noteq> NEW"
  shows "st1 = st"
  using assms by (auto simp: checkAndReserve_def redisSet_def Let_def split: if_splits option.splits cached.splits)

lemma key_run_exclusive: "key_run k st now ds \<Longrightarrow> exclusive k st ds"
proof (induction rule: key_run.induct)
  case (start st now)
  then show ?case by (simp add: exclusive_def)
next
  case (reserve st now ds t t' key tenantId ttl r st')
  show ?case
  proof (cases "ds = []")
    case True
    then show ?thesis
      using reserve_new [of t t' key tenantId ttl st st'] reserve.hyps reserve_refused [OF reserve.hyps(8)]
      by (cases "r = NEW") (auto simp: exclusive_def)
  next
    case False
    from exclusive_held(1) [OF reserve.IH False reserve.hyps(5) in_time_earlier [OF reserve.hyps(4,3)] reserve.hyps(4)]
    have "r = PROCESSING" "st' = st" using reserve.hyps(8) by auto
    then show ?thesis using reserve.IH by simp
  qed
next
  case (take st now ds t key tenantId up ttl b st')
  show ?case
  proof (cases "ds = []")
    case True
    then show ?thesis using take.hyps by (auto simp: exclusive_def acquire_def redisSet_def split: if_splits)
  next
    case False
    from exclusive_held(2) [OF take.IH False take.hyps(4,3,3)] take.hyps(5) have "\<not> b" "st' = st" by auto
    then show ?thesis using take.IH by simp
  qed
next
  case (finish st now ds t key tenantId d up x ttl)
  then show ?case by (simp add: exclusive_remove) (simp add: exclusive_def)
next
  case (drop st now ds t key tenantId d up)
  then show ?case by (simp add: exclusive_remove) (simp add: exclusive_def)
next
  case (other_reserve st now ds t t' key tenantId up ttl r st')
  then show ?case by (blast intro: exclusive_other other_key(1))
next
  case (other_take st now ds t key tenantId up ttl b st')
  then show ?case by (blast intro: exclusive_other other_key(2))
next
  case (other_finish st now ds t key tenantId up x ttl)
  then show ?case by (blast intro: exclusive_other other_key(3))
next
  case (other_drop st now ds t key tenantId up)
  then show ?case by (blast intro: exclusive_other other_key(4))
qed

section \<open>Properties\<close>


text \<open>A request reserves the key and goes on, and another one of a different key ends.\<close>

definition desk_key :: string where "desk_key = ''loan:apply:u:m:p:k''"

definition desk_store :: "nat redis" where "desk_store = [buildKey desk_key ''t'' \<mapsto> (Processing, 1000000)]"

lemma desk_reserved: "checkAndReserve True 0 0 desk_key ''t'' 1000 Map.empty = (NEW, desk_store)"
  by (simp add: checkAndReserve_def redisSet_def alive_def Let_def desk_store_def)

lemma desk_key_run: "key_run (buildKey desk_key ''t'') (release True ''other'' ''t'' desk_store) 5 [1000000]"
proof (rule key_run.other_drop)
  have "key_run (buildKey desk_key ''t'') desk_store 0 (if NEW = (NEW :: nat reserve_answer) then [0 + 1000 * int 1000] else [])"
    by (rule key_run.reserve [OF key_run.start _ _ _ _ _ _ desk_reserved, of 0]) (simp_all add: in_time_def)
  then show "key_run (buildKey desk_key ''t'') desk_store 0 [1000000]" by simp
qed (simp_all add: in_time_def buildKey_def desk_key_def)


section \<open>What goes wrong\<close>

text \<open>
  Neither end checks who has reserved the key: a request that has been told to go on because Redis was
  unreachable and that fails later releases the key of the request that holds it, and a third one goes on.
\<close>

theorem release_without_reservation:
  "\<exists>st1 st2 st3 st4 :: nat redis. checkAndReserve True 0 0 ''k'' ''t'' 60 Map.empty = (NEW, st1) \<and>
     checkAndReserve False 1 1 ''k'' ''t'' 60 st1 = (NEW, st2) \<and> release True ''k'' ''t'' st2 = st3 \<and>
     checkAndReserve True 3 3 ''k'' ''t'' 60 st3 = (NEW, st4)"
  by (simp add: checkAndReserve_def release_def redisSet_def redisDel_def redisGet_def alive_def Let_def)

text \<open>With Redis unreachable every request of a key is told to go on, and nothing is remembered.\<close>

theorem unreachable_redis_reserves_nothing:
  "checkAndReserve False t t' key tenantId ttl st = (NEW, st) \<and> acquire False t key tenantId ttl st = (False, st)"
  by (simp add: checkAndReserve_def acquire_def redisSet_def redisGet_def Let_def)

text \<open>
  A key that expires between the two commands of a reservation is answered NEW without being written:
  the next request is told to go on as well.
\<close>

theorem expiring_key_goes_to_two:
  "\<exists>st st1 st2 :: nat redis. checkAndReserve True 9 11 ''k'' ''t'' 60 st = (NEW, st1) \<and>
     checkAndReserve True 12 12 ''k'' ''t'' 60 st1 = (NEW, st2)"
  by (intro exI [of _ "[buildKey ''k'' ''t'' \<mapsto> (Processing, 10)]"] exI)
    (simp add: checkAndReserve_def redisSet_def redisGet_def alive_def Let_def)

end
