(* ===== verification/Loan_Application.thy ===== *)
theory Loan_Application
  imports Loan_Closing Guarantor_Holds Idempotency
begin

text \<open>
  The application of a member for a loan: \<open>src/src/modules/loans/loan-application.service.ts\<close>, and the
  request for guarantors of \<open>src/src/modules/members/member-portal.controller.ts\<close> that leads to it.

  An application checks the member, the product, the savings and every nominated guarantor, takes a
  number from the counter of the tenant, and writes the loan with one unanswered request for each
  guarantor. The jobs that remind of a request or let it lapse and the messages are not part of the
  database. The reason why a guarantor is refused is a text without its amounts. The year of a loan
  number is the one of the server's clock in UTC; a number in a message is exact. \<open>pow\<close> is the power
  of decimal.js; a value that decimal.js makes not a number is None.
\<close>

section \<open>Savings and limits\<close>

definition accountsOf :: "db \<Rightarrow> ident \<Rightarrow> ident \<Rightarrow> account list" where
  "accountsOf s memberId tenantId =
     filter (\<lambda>a. acc_memberId a = memberId \<and> acc_tenantId a = tenantId \<and> acc_isActive a) (accounts s)"

definition sumAvailableSavings :: "env \<Rightarrow> account list \<Rightarrow> AccountType \<Rightarrow> rat" where
  "sumAvailableSavings E rows ty =
     dsum E (\<lambda>a. dminus E (dminus E (acc_balance a) (acc_lockedBalance a)) (acc_frozenSavings a))
       (filter (\<lambda>a. acc_accountType a = ty) rows)"

definition resolveMaxConcurrentGuarantees :: "json option \<Rightarrow> int" where
  "resolveMaxConcurrentGuarantees settings =
     (case settings of
        Some (JObject attrs) \<Rightarrow>
          (case map_of attrs ''maxConcurrentGuarantees'' of
             Some (JNumber v) \<Rightarrow> if v = of_int \<lfloor>v\<rfloor> \<and> 0 < v then \<lfloor>v\<rfloor> else 3
           | _ \<Rightarrow> 3)
      | _ \<Rightarrow> 3)"

definition tenantSettings :: "db \<Rightarrow> ident \<Rightarrow> json option" where
  "tenantSettings s tenantId =
     (case findFirst (\<lambda>t. tn_id t = tenantId) (tenants s) of Some t \<Rightarrow> tn_settings t | None \<Rightarrow> None)"

section \<open>Eligibility of the member\<close>

record eligibility =
  el_reason :: "string option"
  el_fosaBalance :: rat
  el_bosaBalance :: rat
  el_kycStatus :: "KycStatus option"

definition validateMemberEligibility :: "env \<Rightarrow> db \<Rightarrow> ident \<Rightarrow> ident \<Rightarrow> eligibility" where
  "validateMemberEligibility E s memberId tenantId =
     (let refused = (\<lambda>reason kyc. \<lparr>el_reason = Some reason, el_fosaBalance = 0, el_bosaBalance = 0, el_kycStatus = kyc\<rparr>) in
      case findFirst (\<lambda>m. mb_id m = memberId \<and> mb_tenantId m = tenantId \<and> mb_isActive m) (members s) of
        None \<Rightarrow> refused ''Member not found or inactive'' None
      | Some m \<Rightarrow>
        (let kyc = Some (mb_kycStatus m) in
         if mb_kycStatus m \<noteq> KycStatus.APPROVED then refused ''KYC verification required before applying for a loan'' kyc
         else if mb_isBlacklisted m then refused ''Member is blacklisted and cannot apply for loans'' kyc
         else
           (let rows = accountsOf s memberId tenantId in
            if \<not> (\<exists>a \<in> set rows. acc_accountType a = FOSA) \<and> \<not> (\<exists>a \<in> set rows. acc_accountType a = BOSA)
            then refused ''No active FOSA or BOSA account found'' kyc
            else
              \<lparr>el_reason = (if \<exists>l \<in> set (loans s). ln_memberId l = memberId \<and> ln_tenantId l = tenantId \<and>
                    ln_status l = LoanStatus.DEFAULTED then Some ''Member has an active defaulted loan'' else None),
               el_fosaBalance = sumAvailableSavings E rows FOSA, el_bosaBalance = sumAvailableSavings E rows BOSA,
               el_kycStatus = kyc\<rparr>)))"

section \<open>Eligibility of a guarantor\<close>

definition loanOf :: "db \<Rightarrow> guarantor \<Rightarrow> loan option" where
  "loanOf s g = findFirst (\<lambda>l. ln_id l = lg_loanId g) (loans s)"

definition guaranteesOf :: "db \<Rightarrow> ident \<Rightarrow> ident \<Rightarrow> GuarantorStatus list \<Rightarrow> (loan \<Rightarrow> bool) \<Rightarrow> guarantor list" where
  "guaranteesOf s tenantId memberId sts P =
     filter (\<lambda>g. lg_tenantId g = tenantId \<and> lg_memberId g = memberId \<and> lg_status g \<in> set sts \<and>
       (case loanOf s g of Some l \<Rightarrow> P l | None \<Rightarrow> False)) (guarantors s)"

definition CIRCULAR_STATUSES :: "LoanStatus list" where
  "CIRCULAR_STATUSES = [LoanStatus.PENDING_GUARANTORS, LoanStatus.PENDING_REVIEW, LoanStatus.PENDING_APPROVAL,
     LoanStatus.APPROVED, LoanStatus.ACTIVE, LoanStatus.DISBURSED]"

definition GUARANTEED_STATUSES :: "LoanStatus list" where
  "GUARANTEED_STATUSES = [LoanStatus.ACTIVE, LoanStatus.APPROVED, LoanStatus.DISBURSED]"

text \<open>The user behind a member; \<open>accountStatus\<close> of the user is a column of the member here.\<close>

definition isActiveMemberUser :: "db \<Rightarrow> member \<Rightarrow> bool" where
  "isActiveMemberUser s m \<longleftrightarrow>
     (case findFirst (\<lambda>u. us_id u = mb_userId m) (users s) of Some u \<Rightarrow> us_role u = UserRole.MEMBER | None \<Rightarrow> False) \<and>
     mb_accountStatus m = AccountStatus.ACTIVE"

definition validateGuarantorEligibility ::
  "env \<Rightarrow> db \<Rightarrow> ident \<Rightarrow> ident \<Rightarrow> rat \<Rightarrow> ident \<Rightarrow> AccountType \<Rightarrow> string option" where
  "validateGuarantorEligibility E s guarantorMemberId tenantId proposedAmount borrowerMemberId accountType =
     (if guarantorMemberId = borrowerMemberId then Some ''Member cannot guarantee their own loan''
      else case findFirst (\<lambda>m. mb_id m = guarantorMemberId \<and> mb_tenantId m = tenantId \<and> mb_isActive m) (members s) of
        None \<Rightarrow> Some ''Guarantor not found or inactive''
      | Some g \<Rightarrow>
        if \<not> isActiveMemberUser s g then Some ''Guarantor must be an active approved member''
        else if mb_kycStatus g \<noteq> KycStatus.APPROVED then Some ''Guarantor KYC is not approved''
        else if mb_isBlacklisted g then Some ''Guarantor is blacklisted''
        else if guaranteesOf s tenantId borrowerMemberId [GuarantorStatus.PENDING, GuarantorStatus.ACCEPTED]
            (\<lambda>l. ln_tenantId l = tenantId \<and> ln_memberId l = guarantorMemberId \<and> ln_status l \<in> set CIRCULAR_STATUSES) \<noteq> []
          then Some ''Circular guarantee detected''
        else case accountFor s tenantId accountType guarantorMemberId of
          None \<Rightarrow> Some ''Guarantor has no active FOSA account''
        | Some a \<Rightarrow>
          if dminus E (dminus E (acc_balance a) (acc_lockedBalance a)) (acc_frozenSavings a) < proposedAmount
            then Some ''Insufficient available balance''
          else if \<exists>l \<in> set (loans s). ln_memberId l = guarantorMemberId \<and> ln_tenantId l = tenantId \<and>
              ln_status l = LoanStatus.DEFAULTED then Some ''Guarantor has a defaulted loan''
          else if resolveMaxConcurrentGuarantees (tenantSettings s tenantId) \<le>
              int (length (guaranteesOf s tenantId guarantorMemberId [GuarantorStatus.ACCEPTED]
                (\<lambda>l. ln_status l \<in> set GUARANTEED_STATUSES)))
            then Some ''Guarantor has reached the maximum concurrent guarantee limit''
          else None)"

text \<open>
  The version that reads the rows of all guarantors at once. A map that is built from rows keeps the
  last row of a key.
\<close>

definition batchVerdict ::
  "env \<Rightarrow> db \<Rightarrow> ident list \<Rightarrow> ident \<Rightarrow> ident \<Rightarrow> AccountType \<Rightarrow> ident \<Rightarrow> rat \<Rightarrow> string option" where
  "batchVerdict E s guarantorIds tenantId borrowerMemberId accountType k guaranteedAmount =
     (let memberById = (\<lambda>k. findFirst (\<lambda>m. mb_id m = k) (rev (filter (\<lambda>m. mb_id m \<in> set guarantorIds \<and>
            mb_tenantId m = tenantId \<and> mb_isActive m) (members s))));
          circularGuarantorIds = List.map_filter (\<lambda>g. map_option ln_memberId (loanOf s g))
            (guaranteesOf s tenantId borrowerMemberId [GuarantorStatus.PENDING, GuarantorStatus.ACCEPTED]
              (\<lambda>l. ln_tenantId l = tenantId \<and> ln_memberId l \<in> set guarantorIds \<and> ln_status l \<in> set CIRCULAR_STATUSES));
          defaultedGuarantorIds = map ln_memberId (filter (\<lambda>l. ln_memberId l \<in> set guarantorIds \<and>
            ln_tenantId l = tenantId \<and> ln_status l = LoanStatus.DEFAULTED) (loans s));
          activeGuarantees = (\<lambda>k. int (length (guaranteesOf s tenantId k [GuarantorStatus.ACCEPTED]
            (\<lambda>l. ln_tenantId l = tenantId \<and> ln_status l \<in> set GUARANTEED_STATUSES))));
          maxGuarantees = resolveMaxConcurrentGuarantees (tenantSettings s tenantId)
      in if k = borrowerMemberId then Some ''Member cannot guarantee their own loan''
        else case memberById k of
          None \<Rightarrow> Some ''Guarantor not found or inactive''
        | Some g \<Rightarrow>
          if \<not> isActiveMemberUser s g then Some ''Guarantor must be an active approved member''
          else if mb_kycStatus g \<noteq> KycStatus.APPROVED then Some ''Guarantor KYC is not approved''
          else if mb_isBlacklisted g then Some ''Guarantor is blacklisted''
          else if k \<in> set circularGuarantorIds then Some ''Circular guarantee detected''
          else case findFirst (\<lambda>a. acc_memberId a = k \<and> acc_accountType a = accountType \<and> acc_isActive a) (accounts s) of
            None \<Rightarrow> Some (''Guarantor has no active '' @ (case accountType of FOSA \<Rightarrow> ''FOSA'' | BOSA \<Rightarrow> ''BOSA'') @ '' account'')
          | Some a \<Rightarrow>
            if dminus E (acc_balance a) (dplus E (acc_lockedBalance a) (acc_frozenSavings a)) < guaranteedAmount
              then Some ''Insufficient available balance''
            else if k \<in> set defaultedGuarantorIds then Some ''Guarantor has a defaulted loan''
            else if maxGuarantees \<le> activeGuarantees k
              then Some ''Guarantor has reached the maximum concurrent guarantee limit''
            else None)"

definition batchEligibility ::
  "env \<Rightarrow> db \<Rightarrow> (ident \<times> rat) list \<Rightarrow> ident \<Rightarrow> ident \<Rightarrow> AccountType \<Rightarrow> (ident \<times> string option) list" where
  "batchEligibility E s gs tenantId borrowerMemberId accountType =
     map (\<lambda>(k, guaranteedAmount). (k, batchVerdict E s (map fst gs) tenantId borrowerMemberId accountType k guaranteedAmount)) gs"

section \<open>Amounts of an application\<close>

text \<open>\<open>toDecimalPlaces(4, ROUND_DOWN)\<close>.\<close>

definition roundDown4 :: "rat \<Rightarrow> rat" where
  "roundDown4 x = sgn x * (of_int \<lfloor>\<bar>x\<bar> * 10 ^ 4\<rfloor> / 10 ^ 4)"

text \<open>Every share leaves as a number: \<open>guaranteedAmount.toNumber()\<close>.\<close>

definition shares :: "env \<Rightarrow> rat \<Rightarrow> ident list \<Rightarrow> guarantor_input list" where
  "shares E coverage ids =
     (let n = length ids; equalShare = roundDown4 (ddiv E coverage (of_nat n))
      in map (\<lambda>(i, k). (k, Some (to_number E (if i = n - 1
           then dp4 E (dminus E coverage (dtimes E equalShare (of_nat (n - 1)))) else equalShare)))) (zip [0..<n] ids))"

definition coverageRatioOf :: "loan_product \<Rightarrow> rat" where
  "coverageRatioOf product = (case lp_guarantorCoverageRatio product of None \<Rightarrow> 1 | Some r \<Rightarrow> r)"

definition applicationInstalment ::
  "env \<Rightarrow> (rat \<Rightarrow> nat \<Rightarrow> rat) \<Rightarrow> rat \<Rightarrow> rat \<Rightarrow> nat \<Rightarrow> InterestType \<Rightarrow> rat option" where
  "applicationInstalment E pow principalAmt annualRate tenureMonths ty =
     (if ty = InterestType.FLAT then
        (if tenureMonths = 0 then None
         else Some (ddiv E (dplus E principalAmt
           (ddiv E (dtimes E (dtimes E principalAmt annualRate) (of_nat tenureMonths)) 12)) (of_nat tenureMonths)))
      else
        (let monthlyRate = ddiv E annualRate 12;
             p = pow (dplus E monthlyRate 1) tenureMonths;
             numerator = dtimes E (dtimes E principalAmt monthlyRate) p;
             denominator = dminus E p 1
         in if denominator = 0 then None else Some (ddiv E numerator denominator)))"

section \<open>Writing an application\<close>

definition OPEN_STATUSES :: "LoanStatus list" where
  "OPEN_STATUSES = [LoanStatus.DRAFT, LoanStatus.PENDING_GUARANTORS, LoanStatus.PENDING_REVIEW, LoanStatus.PENDING_APPROVAL,
     LoanStatus.APPROVED, LoanStatus.DISBURSED, LoanStatus.ACTIVE, LoanStatus.DEFAULTED]"

definition openLoanOf :: "db \<Rightarrow> ident \<Rightarrow> ident \<Rightarrow> loan option" where
  "openLoanOf s memberId tenantId =
     findFirst (\<lambda>l. ln_memberId l = memberId \<and> ln_tenantId l = tenantId \<and> ln_status l \<in> set OPEN_STATUSES) (loans s)"

text \<open>The counter of a tenant, created with the first number.\<close>

definition nextLoanSeq :: "db \<Rightarrow> ident \<Rightarrow> nat \<times> db" where
  "nextLoanSeq s tenantId =
     (case findFirst (\<lambda>c. tc_tenantId c = tenantId) (tenantCounters s) of
        None \<Rightarrow> (1, s\<lparr>tenantCounters := tenantCounters s @ [\<lparr>tc_tenantId = tenantId, tc_accountSeq = 0, tc_loanSeq = 1\<rparr>]\<rparr>)
      | Some c \<Rightarrow> (Suc (tc_loanSeq c),
          s\<lparr>tenantCounters := fst (updateMany (\<lambda>x. tc_tenantId x = tenantId) (\<lambda>x. x\<lparr>tc_loanSeq := Suc (tc_loanSeq x)\<rparr>)
            (tenantCounters s))\<rparr>))"

definition loanNumberOf :: "int \<Rightarrow> nat \<Rightarrow> string" where
  "loanNumberOf now seq =
     (let (y, _, _) = civilFromDays (now div MS_PER_DAY) in ''LN-'' @ showInt y @ ''-'' @ padded 6 (int seq))"

text \<open>
  The constraints of the table of loans: the keys, one open loan of a member
  (\<open>loan_one_open_per_member\<close>), and the ranges of the columns; \<open>interestRate\<close> is \<open>Decimal(7, 4)\<close>.
\<close>

definition createLoan :: "env \<Rightarrow> loan \<Rightarrow> db \<Rightarrow> (loan \<times> db) res" where
  "createLoan E row s =
     (let r = row\<lparr>ln_id := uuid E (id_count s)\<rparr> in
      rbind (ensure (\<forall>l \<in> set (loans s). ln_id l \<noteq> ln_id r) (UniqueConstraintViolation ''Loan.id'')) (\<lambda>_.
      rbind (ensure (\<forall>l \<in> set (loans s). \<not> (ln_tenantId l = ln_tenantId r \<and> ln_loanNumber l = ln_loanNumber r))
        (UniqueConstraintViolation ''Loan.tenantId_loanNumber'')) (\<lambda>_.
      rbind (ensure (ln_status r \<in> set OPEN_STATUSES \<longrightarrow> openLoanOf s (ln_memberId r) (ln_tenantId r) = None)
        (UniqueConstraintViolation ''loan_one_open_per_member'')) (\<lambda>_.
      rbind (ensure (in_column (ln_principalAmount r) \<and> in_column (ln_processingFee r) \<and> in_column (ln_monthlyInstalment r) \<and>
          in_column (ln_outstandingBalance r) \<and> \<bar>ln_interestRate r\<bar> < 1000) NumericFieldOverflow) (\<lambda>_.
      Inr (r, s\<lparr>loans := loans s @ [r], id_count := Suc (id_count s)\<rparr>))))))"

definition createGuarantor :: "env \<Rightarrow> guarantor \<Rightarrow> db \<Rightarrow> (guarantor \<times> db) res" where
  "createGuarantor E row s =
     (let r = row\<lparr>lg_id := uuid E (id_count s)\<rparr> in
      rbind (ensure (\<forall>g \<in> set (guarantors s). lg_id g \<noteq> lg_id r) (UniqueConstraintViolation ''LoanGuarantor.id'')) (\<lambda>_.
      rbind (ensure (\<forall>g \<in> set (guarantors s). \<not> (lg_loanId g = lg_loanId r \<and> lg_memberId g = lg_memberId r))
        (UniqueConstraintViolation ''LoanGuarantor.loanId_memberId'')) (\<lambda>_.
      rbind (ensure (in_column (lg_guaranteedAmount r)) NumericFieldOverflow) (\<lambda>_.
      Inr (r, s\<lparr>guarantors := guarantors s @ [r], id_count := Suc (id_count s)\<rparr>)))))"

definition guarantorRequest :: "env \<Rightarrow> int \<Rightarrow> ident \<Rightarrow> ident \<Rightarrow> ident \<Rightarrow> rat \<Rightarrow> guarantor" where
  "guarantorRequest E now tenantId loanId memberId amount =
     \<lparr>lg_id = '''', lg_tenantId = tenantId, lg_loanId = loanId, lg_memberId = memberId,
      lg_status = GuarantorStatus.PENDING, lg_guaranteedAmount = dp4 E amount, lg_recoveredAmount = 0,
      lg_invitedAt = now, lg_holdPlacedAt = None, lg_holdReleasedAt = None, lg_createdAt = now\<rparr>"

record apply_dto =
  ad_loanProductId :: ident
  ad_principalAmount :: rat
  ad_tenureMonths :: nat
  ad_guarantors :: "guarantor_input list"
  ad_guarantorIds :: "ident list"

definition nominations :: "env \<Rightarrow> loan_product \<Rightarrow> apply_dto \<Rightarrow> guarantor_input list" where
  "nominations E product dto =
     (if ad_guarantorIds dto \<noteq> [] then
        shares E (dp4 E (dtimes E (ad_principalAmount dto) (coverageRatioOf product))) (ad_guarantorIds dto)
      else ad_guarantors dto)"

text \<open>The checks of the member and of the product, in the order of the code.\<close>

definition applicantChecks :: "db \<Rightarrow> ident \<Rightarrow> ident \<Rightarrow> unit res" where
  "applicantChecks s memberId tenantId =
     rbind (required (NotFoundException ''Member not found or inactive'')
       (findFirst (\<lambda>m. mb_id m = memberId \<and> mb_tenantId m = tenantId \<and> mb_isActive m) (members s))) (\<lambda>m.
     rbind (ensure (mb_kycStatus m = KycStatus.APPROVED)
       (BadRequestException ''KYC verification required before applying for a loan'')) (\<lambda>_.
     rbind (ensure (\<not> mb_isBlacklisted m)
       (ForbiddenException ''Member is blacklisted and cannot apply for loans'')) (\<lambda>_.
     ensure (openLoanOf s memberId tenantId = None) (BadRequestException ''ONE_OPEN_LOAN_ONLY''))))"

definition productChecks ::
  "env \<Rightarrow> db \<Rightarrow> loan_product \<Rightarrow> apply_dto \<Rightarrow> ident \<Rightarrow> ident \<Rightarrow> guarantor_input list \<Rightarrow> unit res" where
  "productChecks E s product dto memberId tenantId gs =
     (let principalAmt = ad_principalAmount dto; rows = accountsOf s memberId tenantId;
          fosaBalance = sumAvailableSavings E rows FOSA; bosaBalance = sumAvailableSavings E rows BOSA in
      rbind (ensure (\<not> (principalAmt < lp_minAmount product \<or> lp_maxAmount product < principalAmt))
        (BadRequestException ''Principal out of range'')) (\<lambda>_.
      rbind (ensure (\<not> lp_maxTenureMonths product < int (ad_tenureMonths dto))
        (BadRequestException ''Maximum tenure'')) (\<lambda>_.
      rbind (ensure (\<not> (\<exists>l \<in> set (loans s). ln_memberId l = memberId \<and> ln_tenantId l = tenantId \<and>
          ln_status l = LoanStatus.DEFAULTED)) (BadRequestException ''Member has an active defaulted loan'')) (\<lambda>_.
      rbind (ensure (dplus E fosaBalance bosaBalance \<noteq> 0)
        (BadRequestException ''No active FOSA or BOSA account found'')) (\<lambda>_.
      rbind (assertLoanApplicationRules E product principalAmt (int (length gs)) fosaBalance bosaBalance) (\<lambda>_.
      Inr ()))))))"

definition guarantorChecks ::
  "env \<Rightarrow> db \<Rightarrow> loan_product \<Rightarrow> rat \<Rightarrow> ident \<Rightarrow> ident \<Rightarrow> guarantor_input list \<Rightarrow> unit res" where
  "guarantorChecks E s product principalAmt memberId tenantId gs =
     rbind (if 0 < lp_minGuarantors product \<or> gs \<noteq> []
       then validateGuarantorCoverage E s tenantId principalAmt gs product else Inr (0, 0, coverageRatioOf product)) (\<lambda>_.
     if gs = [] then Inr ()
     else ensure (\<forall>r \<in> set (batchEligibility E s (map (\<lambda>(k, x). (k, the x)) gs) tenantId memberId
         (resolveAccountType product)). snd r = None) (BadRequestException ''GUARANTOR_NOT_ELIGIBLE''))"

definition applicationLoan ::
  "env \<Rightarrow> int \<Rightarrow> loan_product \<Rightarrow> apply_dto \<Rightarrow> ident \<Rightarrow> ident \<Rightarrow> string \<Rightarrow> rat \<Rightarrow> guarantor_input list \<Rightarrow> loan" where
  "applicationLoan E now product dto memberId tenantId loanNumber monthlyInstalment gs =
     (let principalAmt = ad_principalAmount dto in
      \<lparr>ln_id = '''', ln_tenantId = tenantId, ln_memberId = memberId, ln_loanProductId = ad_loanProductId dto,
       ln_loanNumber = loanNumber,
       ln_status = (if 0 < lp_minGuarantors product \<or> gs \<noteq> [] then LoanStatus.PENDING_GUARANTORS else LoanStatus.DRAFT),
       ln_principalAmount = dp4 E principalAmt, ln_interestRate = dp4 E (lp_interestRate product),
       ln_processingFee = dp4 E (dtimes E principalAmt (lp_processingFeeRate product)),
       ln_tenureMonths = ad_tenureMonths dto, ln_gracePeriodMonths = lp_gracePeriodMonths product,
       ln_monthlyInstalment = dp4 E monthlyInstalment, ln_disbursedAt = None, ln_dueDate = None, ln_totalRepaid = 0,
       ln_outstandingBalance = dp4 E principalAmt, ln_arrearsAmount = 0, ln_arrearsDays = 0, ln_lastAccrualDate = None,
       ln_staging = PERFORMING, ln_accruedInterest = 0, ln_repaymentScheduleGenerated = False, ln_createdAt = now\<rparr>)"

definition requestGuarantee :: "env \<Rightarrow> int \<Rightarrow> ident \<Rightarrow> ident \<Rightarrow> db \<Rightarrow> guarantor_input \<Rightarrow> db res" where
  "requestGuarantee E now tenantId loanId s g =
     rbind (createGuarantor E (guarantorRequest E now tenantId loanId (fst g) (the (snd g))) s) (\<lambda>(_, s'). Inr s')"

definition applyTx ::
  "env \<Rightarrow> (rat \<Rightarrow> nat \<Rightarrow> rat) \<Rightarrow> int \<Rightarrow> db \<Rightarrow> apply_dto \<Rightarrow> ident \<Rightarrow> ident \<Rightarrow> ident \<Rightarrow> string \<Rightarrow> (loan \<times> db) res" where
  "applyTx E pow now s dto tenantId memberId userId correlationId =
     rbind (applicantChecks s memberId tenantId) (\<lambda>_.
     rbind (required (NotFoundException ''Loan product not found or inactive'')
       (findFirst (\<lambda>p. lp_id p = ad_loanProductId dto \<and> lp_tenantId p = tenantId \<and> lp_isActive p) (loanProducts s))) (\<lambda>pdt.
     let gs = nominations E pdt dto; principalAmt = ad_principalAmount dto in
     rbind (productChecks E s pdt dto memberId tenantId gs) (\<lambda>_.
     rbind (guarantorChecks E s pdt principalAmt memberId tenantId gs) (\<lambda>_.
     let (seq, s1) = nextLoanSeq s tenantId in
     rbind (required (InternalError ''NaN'') (applicationInstalment E pow principalAmt (lp_interestRate pdt)
       (ad_tenureMonths dto) (lp_interestType pdt))) (\<lambda>monthlyInstalment.
     rbind (createLoan E (applicationLoan E now pdt dto memberId tenantId (loanNumberOf now seq) monthlyInstalment gs) s1)
       (\<lambda>(loan, s2).
     rbind (foldM (requestGuarantee E now tenantId (ln_id loan)) s2 gs) (\<lambda>s3.
     rbind (auditAtomic tenantId userId ''LOAN.APPLY'' (ln_id loan) (correlationId @ '':loan-apply'') s3) (\<lambda>s4.
     Inr (loan, s4)))))))))"

text \<open>Every exception that is not one of four kinds becomes an internal error.\<close>

fun rethrown :: "exn \<Rightarrow> exn" where
  "rethrown (BadRequestException m) = BadRequestException m"
| "rethrown (NotFoundException m) = NotFoundException m"
| "rethrown (ConflictException m) = ConflictException m"
| "rethrown (ForbiddenException m) = ForbiddenException m"
| "rethrown _ = InternalError ''Loan application could not be completed. Please retry.''"

definition doMemberApply ::
  "env \<Rightarrow> (rat \<Rightarrow> nat \<Rightarrow> rat) \<Rightarrow> int \<Rightarrow> db \<Rightarrow> apply_dto \<Rightarrow> ident \<Rightarrow> ident \<Rightarrow> ident \<Rightarrow> string \<Rightarrow> (loan \<times> db) res" where
  "doMemberApply E pow now s dto tenantId memberId userId correlationId =
     (case applyTx E pow now s dto tenantId memberId userId correlationId of Inl e \<Rightarrow> Inl (rethrown e) | Inr r \<Rightarrow> Inr r)"

definition oneOpenLoanConflict :: exn where
  "oneOpenLoanConflict = ConflictException ''ONE_OPEN_LOAN_ONLY: You already have an open loan.''"

definition isOneOpenLoanConstraintViolation :: "exn \<Rightarrow> bool" where
  "isOneOpenLoanConstraintViolation e \<longleftrightarrow> e = UniqueConstraintViolation ''loan_one_open_per_member''"

text \<open>
  The public operation. The first clock reading and reachability of Redis belongs to the
  reservation, the other to the end of the request.
\<close>

definition applyKey :: "ident \<Rightarrow> ident \<Rightarrow> ident \<Rightarrow> string \<Rightarrow> string" where
  "applyKey userId memberId productId idempotencyKey =
     ''loan:apply:'' @ userId @ '':'' @ memberId @ '':'' @ productId @ '':'' @ idempotencyKey"

definition memberApply ::
  "env \<Rightarrow> (rat \<Rightarrow> nat \<Rightarrow> rat) \<Rightarrow> bool \<Rightarrow> int \<Rightarrow> bool \<Rightarrow> int \<Rightarrow> db \<Rightarrow> loan redis \<Rightarrow> apply_dto \<Rightarrow> ident \<Rightarrow> ident \<Rightarrow> ident \<Rightarrow>
   string \<Rightarrow> string option \<Rightarrow> loan option res \<times> db \<times> loan redis" where
  "memberApply E pow up now upEnd nowEnd s st dto tenantId memberId userId correlationId idempotencyKey =
     (if trim (case idempotencyKey of None \<Rightarrow> '''' | Some k \<Rightarrow> k) = ''''
      then (Inl (BadRequestException ''IDEMPOTENCY_KEY_REQUIRED''), s, st)
      else
        (let idemKey = applyKey userId memberId (ad_loanProductId dto) (the idempotencyKey) in
         case checkAndReserve up now now idemKey tenantId (24 * 60 * 60) st of
           (COMPLETED r, st1) \<Rightarrow> (Inr r, s, st1)
         | (PROCESSING, st1) \<Rightarrow>
             (Inl (ConflictException ''Loan application is already being processed. Please wait.''), s, st1)
         | (NEW, st1) \<Rightarrow>
             (case doMemberApply E pow now s dto tenantId memberId userId correlationId of
                Inr (loan, s') \<Rightarrow> (Inr (Some loan), s', complete upEnd nowEnd idemKey tenantId loan (24 * 60 * 60) st1)
              | Inl e \<Rightarrow> (Inl (if isOneOpenLoanConstraintViolation e then oneOpenLoanConflict else e), s,
                  release upEnd idemKey tenantId st1))))"

end
