(* ===== verification/Loan_Requests.thy ===== *)
theory Loan_Requests
  imports Loan_Application Loan_Disbursement
begin

text \<open>
  What happens to an application between its creation and its approval, of
  \<open>src/src/modules/loans/loan-application.service.ts\<close>: further requests to guarantors (with the part of
  \<open>src/src/modules/members/member-portal.controller.ts\<close> that checks and builds them), the statuses that
  staff may set, the cover that a loan has, and what a member guarantees; and the review of
  \<open>src/src/modules/loans/loan-review.service.ts\<close> that approves, declines or disburses under a key.

  Requests are written one by one, outside of a transaction: an exception keeps those written before it.
\<close>

section \<open>Requests to guarantors\<close>

text \<open>One request of a list: written, or left out with the reason.\<close>

record invitation =
  iv_memberId :: ident
  iv_guaranteedAmount :: rat
  iv_skipped :: "string option"

definition upsertRequest :: "env \<Rightarrow> int \<Rightarrow> db \<Rightarrow> ident \<Rightarrow> ident \<Rightarrow> ident \<Rightarrow> rat \<Rightarrow> db res" where
  "upsertRequest E now s tenantId loanId k amount =
     (if \<exists>g \<in> set (guarantors s). lg_loanId g = loanId \<and> lg_memberId g = k then
        rbind (ensure (in_column (dp4 E amount)) NumericFieldOverflow) (\<lambda>_.
        Inr (s\<lparr>guarantors := fst (updateMany (\<lambda>g. lg_loanId g = loanId \<and> lg_memberId g = k)
          (\<lambda>g. g\<lparr>lg_guaranteedAmount := dp4 E amount, lg_status := GuarantorStatus.PENDING, lg_invitedAt := now\<rparr>)
          (guarantors s))\<rparr>))
      else rbind (createGuarantor E (guarantorRequest E now tenantId loanId k amount) s) (\<lambda>(_, s'). Inr s'))"

fun inviteEach ::
  "env \<Rightarrow> int \<Rightarrow> db \<Rightarrow> loan \<Rightarrow> ident \<Rightarrow> AccountType \<Rightarrow> (ident \<times> rat) list \<Rightarrow> invitation list res \<times> db" where
  "inviteEach E now s loan tenantId accountType [] = (Inr [], s)"
| "inviteEach E now s loan tenantId accountType ((k, amount) # rest) =
     (case validateGuarantorEligibility E s k tenantId amount (ln_memberId loan) accountType of
        Some reason \<Rightarrow>
          andThen (inviteEach E now s loan tenantId accountType rest) (\<lambda>rs s'.
            (Inr (\<lparr>iv_memberId = k, iv_guaranteedAmount = amount, iv_skipped = Some reason\<rparr> # rs), s'))
      | None \<Rightarrow>
          (case upsertRequest E now s tenantId (ln_id loan) k amount of
             Inl e \<Rightarrow> (Inl e, s)
           | Inr s1 \<Rightarrow>
               andThen (inviteEach E now s1 loan tenantId accountType rest) (\<lambda>rs s'.
                 (Inr (\<lparr>iv_memberId = k, iv_guaranteedAmount = amount, iv_skipped = None\<rparr> # rs), s'))))"

record invite_result =
  ir_invitedCount :: nat
  ir_totalGuaranteed :: rat
  ir_minimumCoverageRequired :: rat
  ir_coverageMet :: bool
  ir_results :: "invitation list"

definition activeRequest :: "guarantor \<Rightarrow> bool" where
  "activeRequest g \<longleftrightarrow> lg_status g = GuarantorStatus.PENDING \<or> lg_status g = GuarantorStatus.ACCEPTED"

definition inviteGuarantors ::
  "env \<Rightarrow> int \<Rightarrow> db \<Rightarrow> ident \<Rightarrow> (ident \<times> rat) list \<Rightarrow> ident \<Rightarrow> ident \<Rightarrow> invite_result res \<times> db" where
  "inviteGuarantors E now s loanId gs tenantId invitedBy =
     (case rbind (required (NotFoundException ''Loan not found'') (loanById s loanId tenantId)) (\<lambda>loan.
        rbind (required (InternalError ''LoanProduct'') (productOf s loan)) (\<lambda>pdt.
        rbind (ensure (ln_status loan = LoanStatus.DRAFT \<or> ln_status loan = LoanStatus.PENDING_GUARANTORS)
          (BadRequestException ''Cannot add guarantors to a loan in this status'')) (\<lambda>_.
        rbind (ensure (\<not> (0 < lp_maxGuarantors pdt \<and> lp_maxGuarantors pdt <
            int (length (filter (\<lambda>g. lg_tenantId g = tenantId \<and> lg_loanId g = loanId \<and> activeRequest g) (guarantors s)) +
              length gs)))
          (BadRequestException ''This product allows fewer guarantors'')) (\<lambda>_. Inr (loan, pdt))))) of
        Inl e \<Rightarrow> (Inl e, s)
      | Inr (loan, pdt) \<Rightarrow>
          andThen (inviteEach E now s loan tenantId (resolveAccountType pdt) gs) (\<lambda>rs s1.
            (case updateLoan loanId (\<lambda>l. l\<lparr>ln_status := LoanStatus.PENDING_GUARANTORS\<rparr>) s1 of
               Inl e \<Rightarrow> (Inl e, s1)
             | Inr s2 \<Rightarrow>
                 (let invited = filter (\<lambda>r. iv_skipped r = None) rs;
                      totalGuaranteed = dsum E iv_guaranteedAmount invited;
                      minCoverageRequired = dtimes E (ln_principalAmount loan) (coverageRatioOf pdt)
                  in (Inr \<lparr>ir_invitedCount = length invited, ir_totalGuaranteed = totalGuaranteed,
                        ir_minimumCoverageRequired = minCoverageRequired,
                        ir_coverageMet = (minCoverageRequired \<le> totalGuaranteed), ir_results = rs\<rparr>,
                      writeAudit tenantId invitedBy ''LOAN.GUARANTORS_INVITED'' loanId s2)))))"

text \<open>
  The controller: the member of the user, the loan of the member, and the nominations. Without amounts the
  cover that is still missing is shared equally; when nothing is missing, each gets the share of the
  smallest number of guarantors.
\<close>

definition buildGuarantorNominationsFromIds ::
  "env \<Rightarrow> ident list \<Rightarrow> rat \<Rightarrow> loan_product \<Rightarrow> guarantor list \<Rightarrow> (ident \<times> rat) list" where
  "buildGuarantorNominationsFromIds E guarantorIds principalAmt pdt existing =
     (let uniqueIds = rev (remdups (rev (filter (\<lambda>k. k \<noteq> '''') guarantorIds)));
          n = of_nat (length uniqueIds);
          requiredCoverage = dtimes E principalAmt (coverageRatioOf pdt);
          activeCoverage = dsum E lg_guaranteedAmount (filter activeRequest existing);
          remainingCoverage = max (dminus E requiredCoverage activeCoverage) 0;
          fallbackShare = (if 0 < lp_minGuarantors pdt then ddiv E requiredCoverage (of_int (lp_minGuarantors pdt))
            else ddiv E principalAmt n);
          amountToSplit = (if 0 < remainingCoverage then remainingCoverage else dtimes E fallbackShare n)
      in if uniqueIds = [] then []
         else map (\<lambda>(k, x). (k, the x)) (shares E amountToSplit uniqueIds))"

definition requestGuarantors ::
  "env \<Rightarrow> int \<Rightarrow> db \<Rightarrow> ident \<Rightarrow> (ident \<times> rat) list \<Rightarrow> ident list \<Rightarrow> ident \<Rightarrow> ident \<Rightarrow> ident \<Rightarrow>
   invite_result res \<times> db" where
  "requestGuarantors E now s loanId nominated guarantorIds memberId userId tenantId =
     (case rbind (required (ForbiddenException ''Loan not found or does not belong to you'')
          (findFirst (\<lambda>l. ln_id l = loanId \<and> ln_tenantId l = tenantId \<and> ln_memberId l = memberId) (loans s))) (\<lambda>loan.
        rbind (required (InternalError ''LoanProduct'') (productOf s loan)) (\<lambda>pdt.
        rbind (ensure (ln_status loan = LoanStatus.DRAFT \<or> ln_status loan = LoanStatus.PENDING_GUARANTORS)
          (BadRequestException ''Cannot request guarantors for a loan in this status'')) (\<lambda>_.
        let existing = filter (\<lambda>g. lg_loanId g = loanId) (guarantors s);
            active = filter activeRequest existing;
            requested = (if nominated \<noteq> [] then nominated
              else buildGuarantorNominationsFromIds E guarantorIds (ln_principalAmount loan) pdt existing) in
        rbind (ensure (requested \<noteq> []) (BadRequestException ''At least one guarantor is required'')) (\<lambda>_.
        rbind (ensure (\<not> (0 < lp_maxGuarantors pdt \<and> lp_maxGuarantors pdt < int (length active + length requested)))
          (BadRequestException ''This product allows fewer guarantors'')) (\<lambda>_.
        rbind (ensure (\<forall>g \<in> set requested. fst g \<notin> lg_memberId ` set active)
          (BadRequestException ''This member has already been requested or has already accepted.'')) (\<lambda>_.
        Inr requested)))))) of
        Inl e \<Rightarrow> (Inl e, s)
      | Inr requested \<Rightarrow> inviteGuarantors E now s loanId requested tenantId userId)"

section \<open>Cover and exposure\<close>

record guarantor_status_view =
  gv_totalAccepted :: rat
  gv_coverageMet :: bool
  gv_guarantors :: "(ident \<times> GuarantorStatus \<times> rat) list"

definition getGuarantorStatus :: "env \<Rightarrow> db \<Rightarrow> ident \<Rightarrow> ident \<Rightarrow> ident option \<Rightarrow> guarantor_status_view res" where
  "getGuarantorStatus E s loanId tenantId memberId =
     rbind (required (NotFoundException ''Loan not found'') (loanById s loanId tenantId)) (\<lambda>loan.
     let rows = filter (\<lambda>g. lg_loanId g = loanId \<and> (case memberId of Some k \<Rightarrow> lg_memberId g = k | None \<Rightarrow> True)) (guarantors s);
         totalAccepted = dsum E lg_guaranteedAmount (filter (\<lambda>g. lg_status g = GuarantorStatus.ACCEPTED) rows) in
     Inr \<lparr>gv_totalAccepted = totalAccepted, gv_coverageMet = (ln_principalAmount loan \<le> totalAccepted),
       gv_guarantors = map (\<lambda>g. (lg_memberId g, lg_status g, lg_guaranteedAmount g)) rows\<rparr>)"

record exposure_view =
  ev_maxConcurrentGuarantees :: int
  ev_currentGuaranteeCount :: int
  ev_totalGuaranteedAmount :: rat
  ev_remainingCapacity :: int
  ev_canGuarantee :: bool

definition effectiveHold :: "env \<Rightarrow> db \<Rightarrow> guarantor \<Rightarrow> loan \<Rightarrow> rat" where
  "effectiveHold E s g l =
     (let outstanding = ln_outstandingBalance l;
          sumHolds = dsum E lg_guaranteedAmount (filter (\<lambda>h. lg_loanId h = ln_id l \<and>
            lg_status h = GuarantorStatus.ACCEPTED \<and> lg_holdReleasedAt h = None) (guarantors s))
      in if 0 < sumHolds \<and> outstanding < sumHolds
         then dp4 E (dtimes E (lg_guaranteedAmount g) (ddiv E outstanding sumHolds)) else lg_guaranteedAmount g)"

definition memberGuaranteeExposure :: "env \<Rightarrow> db \<Rightarrow> ident \<Rightarrow> ident \<Rightarrow> exposure_view res" where
  "memberGuaranteeExposure E s memberId tenantId =
     rbind (ensure (\<exists>m \<in> set (members s). mb_id m = memberId \<and> mb_tenantId m = tenantId \<and> mb_isActive m)
       (NotFoundException ''Member not found'')) (\<lambda>_.
     let maxGuarantees = resolveMaxConcurrentGuarantees (tenantSettings s tenantId);
         activeGuarantees = guaranteesOf s tenantId memberId [GuarantorStatus.ACCEPTED]
           (\<lambda>l. ln_status l \<in> {LoanStatus.ACTIVE, LoanStatus.APPROVED, LoanStatus.DISBURSED,
              LoanStatus.PENDING_GUARANTORS, LoanStatus.PENDING_REVIEW});
         currentCount = int (length activeGuarantees);
         canGuarantee = (currentCount < maxGuarantees) in
     Inr \<lparr>ev_maxConcurrentGuarantees = maxGuarantees, ev_currentGuaranteeCount = currentCount,
       ev_totalGuaranteedAmount =
         dsum E (\<lambda>g. case loanOf s g of Some l \<Rightarrow> effectiveHold E s g l | None \<Rightarrow> 0) activeGuarantees,
       ev_remainingCapacity = (if canGuarantee then maxGuarantees - currentCount else 0),
       ev_canGuarantee = canGuarantee\<rparr>)"

section \<open>Statuses set by staff\<close>

fun workflowTransitions :: "LoanStatus \<Rightarrow> LoanStatus list" where
  "workflowTransitions LoanStatus.DRAFT = [LoanStatus.PENDING_GUARANTORS]"
| "workflowTransitions LoanStatus.PENDING_GUARANTORS =
     [LoanStatus.PENDING_REVIEW, LoanStatus.PENDING_APPROVAL, LoanStatus.REJECTED_GUARANTOR_DECLINE]"
| "workflowTransitions _ = []"

definition statusRoles :: "UserRole list" where
  "statusRoles = [UserRole.LOAN_OFFICER, UserRole.MANAGER, UserRole.TENANT_ADMIN, UserRole.SUPER_ADMIN]"

definition updateStatus ::
  "env \<Rightarrow> int \<Rightarrow> db \<Rightarrow> ident \<Rightarrow> LoanStatus \<Rightarrow> string \<Rightarrow> ident \<Rightarrow> ident \<Rightarrow> UserRole \<Rightarrow> string \<Rightarrow> db res" where
  "updateStatus E now s loanId targetStatus reason tenantId actorId role correlationId =
     rbind (ensure (role \<in> set statusRoles)
       (ForbiddenException ''Only loan officers and above can update loan status'')) (\<lambda>_.
     rbind (required (NotFoundException ''Loan not found'') (loanById s loanId tenantId)) (\<lambda>loan.
     rbind (ensure (canTransition (ln_status loan) targetStatus) (BadRequestException ''Cannot transition'')) (\<lambda>_.
     rbind (ensure (targetStatus \<noteq> LoanStatus.DISBURSED)
       (BadRequestException ''DISBURSED transitions go through disburse'')) (\<lambda>_.
     if targetStatus = LoanStatus.APPROVED then
       rbind (approveLoan E s loanId tenantId actorId) (\<lambda>(_, s'). Inr s')
     else if targetStatus = LoanStatus.REJECTED then
       rbind (ensure (reason \<noteq> '''') (BadRequestException ''Reason is required when rejecting a loan'')) (\<lambda>_.
       rejectLoan E now s loanId tenantId actorId)
     else
       rbind (ensure (targetStatus \<in> set (workflowTransitions (ln_status loan)))
         (BadRequestException ''Cannot transition'')) (\<lambda>_.
       rbind (updateLoan loanId (\<lambda>l. l\<lparr>ln_status := targetStatus\<rparr>) s) (\<lambda>s1.
       Inr (createAuditOnce tenantId actorId (''LOAN.STATUS.'' @ status_name targetStatus) loanId correlationId s1)))))))"

section \<open>Review\<close>

datatype review_action = APPROVE | DECLINE | DISBURSE

fun review_name :: "review_action \<Rightarrow> string" where
  "review_name APPROVE = ''APPROVE''"
| "review_name DECLINE = ''DECLINE''"
| "review_name DISBURSE = ''DISBURSE''"

datatype review_result = Approved bool | Declined | Disbursed disbursal

definition executeReview ::
  "env \<Rightarrow> int \<Rightarrow> db \<Rightarrow> ident \<Rightarrow> review_action \<Rightarrow> ident \<Rightarrow> ident \<Rightarrow> (review_result \<times> db) res" where
  "executeReview E now s loanId action tenantId actorId =
     (case action of
        APPROVE \<Rightarrow> rbind (approveLoan E s loanId tenantId actorId) (\<lambda>(dual, s'). Inr (Approved dual, s'))
      | DECLINE \<Rightarrow> rbind (rejectLoan E now s loanId tenantId actorId) (\<lambda>s'. Inr (Declined, s'))
      | DISBURSE \<Rightarrow> rbind (disburse E now s loanId tenantId actorId False) (\<lambda>(d, s'). Inr (Disbursed d, s')))"

definition reviewKey :: "ident \<Rightarrow> review_action \<Rightarrow> string \<Rightarrow> string" where
  "reviewKey loanId action header = ''loan:review:'' @ loanId @ '':'' @ review_name action @ '':'' @ trim header"

text \<open>A request without a key (an approval or a rejection) is executed directly.\<close>

definition processReview ::
  "env \<Rightarrow> bool \<Rightarrow> int \<Rightarrow> bool \<Rightarrow> int \<Rightarrow> db \<Rightarrow> review_result redis \<Rightarrow> ident \<Rightarrow> review_action \<Rightarrow> ident \<Rightarrow> ident \<Rightarrow>
   string option \<Rightarrow> review_result option res \<times> db \<times> review_result redis" where
  "processReview E up now upEnd nowEnd s st loanId action tenantId actorId idempotencyHeader =
     (let header = (case idempotencyHeader of None \<Rightarrow> '''' | Some h \<Rightarrow> h);
          hasKey = (trim header \<noteq> '''');
          idemKey = reviewKey loanId action header;
          run = (\<lambda>st1. case executeReview E now s loanId action tenantId actorId of
             Inr (r, s') \<Rightarrow> (Inr (Some r), s',
               if hasKey then complete upEnd nowEnd idemKey tenantId r (24 * 60 * 60) st1 else st1)
           | Inl e \<Rightarrow> (Inl e, s, if hasKey then release upEnd idemKey tenantId st1 else st1))
      in if action = DISBURSE \<and> \<not> hasKey then
           (Inl (BadRequestException ''Idempotency-Key header is required for disbursement''), s, st)
         else if \<not> hasKey then run st
         else (case checkAndReserve up now now idemKey tenantId (24 * 60 * 60) st of
             (COMPLETED r, st1) \<Rightarrow> (Inr r, s, st1)
           | (PROCESSING, st1) \<Rightarrow> (Inl (ConflictException ''Loan review request is already processing''), s, st1)
           | (NEW, st1) \<Rightarrow> run st1))"

end
