(* ===== verification/Application_Properties.thy ===== *)
theory Application_Properties
  imports Loan_Requests
begin

text \<open>
  What an application guarantees: the two ways of checking a guarantor agree, equal shares add up to the
  cover, an accepted application is covered by eligible guarantors and touches nothing but its own
  rows, and a repeated request changes nothing.
\<close>

section \<open>The two checks of a guarantor\<close>

text \<open>Accounts and guarantees belong to the tenant of their member and of their loan.\<close>

definition tenants_agree :: "db \<Rightarrow> bool" where
  "tenants_agree s \<longleftrightarrow> (\<forall>a \<in> set (accounts s). \<forall>m \<in> set (members s). acc_memberId a = mb_id m \<longrightarrow> acc_tenantId a = mb_tenantId m) \<and>
     (\<forall>g \<in> set (guarantors s). \<forall>l \<in> set (loans s). ln_id l = lg_loanId g \<longrightarrow> ln_tenantId l = lg_tenantId g)"

definition relabel :: "AccountType \<Rightarrow> string option \<Rightarrow> string option" where
  "relabel ty r = (if r = Some ''Guarantor has no active FOSA account''
     then Some (''Guarantor has no active '' @ (case ty of FOSA \<Rightarrow> ''FOSA'' | BOSA \<Rightarrow> ''BOSA'') @ '' account'') else r)"

lemma relabel_simps [simp]:
  "relabel ty None = None"
  "relabel ty (Some ''Guarantor has no active FOSA account'') =
     Some (''Guarantor has no active '' @ (case ty of FOSA \<Rightarrow> ''FOSA'' | BOSA \<Rightarrow> ''BOSA'') @ '' account'')"
  "r \<noteq> ''Guarantor has no active FOSA account'' \<Longrightarrow> relabel ty (Some r) = Some r"
  by (simp_all add: relabel_def)

lemma relabel_if: "relabel ty (if b then x else y) = (if b then relabel ty x else relabel ty y)"
  by simp

lemma findFirst_rev_unique:
  assumes "distinct (map key rows)" and "\<And>r. P r \<Longrightarrow> key r = k"
  shows "findFirst P (rev rows) = findFirst P rows"
proof (cases "findFirst P rows")
  case None
  then have "findFirst P (rev rows) = None" unfolding findFirst_None by simp
  with None show ?thesis by simp
next
  case (Some r)
  then have r: "r \<in> set rows" "P r" by (auto dest: findFirst_Some)
  then obtain r' where r': "findFirst P (rev rows) = Some r'" using findFirst_ex [of r "rev rows" P] by auto
  then have "r' \<in> set rows" "P r'" by (auto dest: findFirst_Some)
  with r assms have "r' = r" by (metis distinct_key_eq)
  with r' Some show ?thesis by simp
qed

lemma findFirst_filter:
  "findFirst P (filter Q rows) = findFirst (\<lambda>r. Q r \<and> P r) rows"
  by (induction rows) auto

lemma findFirst_cong_set:
  "(\<And>r. r \<in> set rows \<Longrightarrow> P r = Q r) \<Longrightarrow> findFirst P rows = findFirst Q rows"
  by (induction rows) auto

lemma batch_member:
  assumes "distinct (map mb_id (members s))" and "k \<in> set ks"
  shows "findFirst (\<lambda>m. mb_id m = k) (rev (filter (\<lambda>m. mb_id m \<in> set ks \<and> mb_tenantId m = t \<and> mb_isActive m) (members s))) =
    findFirst (\<lambda>m. mb_id m = k \<and> mb_tenantId m = t \<and> mb_isActive m) (members s)"
proof -
  have "findFirst (\<lambda>m. mb_id m = k) (rev (filter (\<lambda>m. mb_id m \<in> set ks \<and> mb_tenantId m = t \<and> mb_isActive m) (members s))) =
    findFirst (\<lambda>m. mb_id m = k \<and> mb_tenantId m = t \<and> mb_isActive m) (rev (members s))"
    by (simp only: rev_filter findFirst_filter) (rule findFirst_cong_set, use assms(2) in auto)
  also have "\<dots> = findFirst (\<lambda>m. mb_id m = k \<and> mb_tenantId m = t \<and> mb_isActive m) (members s)"
    by (rule findFirst_rev_unique [OF assms(1)]) simp
  finally show ?thesis .
qed

lemma batch_circular:
  assumes "k \<in> set ks"
  shows "k \<in> set (List.map_filter (\<lambda>g. map_option ln_memberId (loanOf s g)) (guaranteesOf s t b sts
      (\<lambda>l. ln_tenantId l = t \<and> ln_memberId l \<in> set ks \<and> Q l))) \<longleftrightarrow>
    guaranteesOf s t b sts (\<lambda>l. ln_tenantId l = t \<and> ln_memberId l = k \<and> Q l) \<noteq> []"
  using assms by (force simp: guaranteesOf_def map_filter_def filter_empty_conv split: option.splits)

lemma loanOf_tenant:
  assumes "tenants_agree s" and "g \<in> set (guarantors s)" and "loanOf s g = Some l"
  shows "ln_tenantId l = lg_tenantId g"
  using assms by (auto simp: tenants_agree_def loanOf_def dest!: findFirst_Some)

lemma batch_active:
  assumes "tenants_agree s"
  shows "guaranteesOf s t k sts (\<lambda>l. ln_tenantId l = t \<and> Q l) = guaranteesOf s t k sts Q"
  unfolding guaranteesOf_def
  by (rule filter_cong) (auto dest: loanOf_tenant [OF assms] split: option.splits)

lemma batch_account:
  assumes "tenants_agree s" and "m \<in> set (members s)" "mb_id m = k" "mb_tenantId m = t"
  shows "findFirst (\<lambda>a. acc_memberId a = k \<and> acc_accountType a = ty \<and> acc_isActive a) (accounts s) = accountFor s t ty k"
  unfolding accountFor_def using assms by (intro findFirst_cong_set) (auto simp: tenants_agree_def)

context decimal_runtime
begin

lemma available_two_ways:
  assumes "wf_account a"
  shows "dminus E (acc_balance a) (dplus E (acc_lockedBalance a) (acc_frozenSavings a)) =
    dminus E (dminus E (acc_balance a) (acc_lockedBalance a)) (acc_frozenSavings a)"
proof -
  note w = money_wide [OF wf_accountD(1) [OF assms]] money_wide [OF wf_accountD(2) [OF assms]] money_wide [OF wf_accountD(3) [OF assms]]
  show ?thesis using wf_accountD [OF assms] w
    by (simp add: dplus_money dminus_money dminus_exact money_def wide_def places_add places_diff abs_le_iff abs_less_iff)
qed

end


lemma batch_entry:
  assumes E: "decimal_runtime E" and wf: "wf_db s" and ids: "distinct (map mb_id (members s))" and ten: "tenants_agree s"
    and k: "k \<in> set ks"
  shows "batchVerdict E s ks t b ty k x = relabel ty (validateGuarantorEligibility E s k t x b ty)"
proof (cases "findFirst (\<lambda>m. mb_id m = k \<and> mb_tenantId m = t \<and> mb_isActive m) (members s)")
  case None
  then show ?thesis unfolding batchVerdict_def Let_def batch_member [OF ids k]
    by (simp add: validateGuarantorEligibility_def)
next
  case (Some g)
  then have g: "g \<in> set (members s)" "mb_id g = k" "mb_tenantId g = t" by (auto dest: findFirst_Some)
  have dflt: "k \<in> set (map ln_memberId (filter (\<lambda>l. ln_memberId l \<in> set ks \<and>
      ln_tenantId l = t \<and> ln_status l = LoanStatus.DEFAULTED) (loans s))) \<longleftrightarrow>
    (\<exists>l \<in> set (loans s). ln_memberId l = k \<and> ln_tenantId l = t \<and> ln_status l = LoanStatus.DEFAULTED)"
    using k by auto
  note unfolds = batchVerdict_def Let_def batch_member [OF ids k] batch_circular [OF k] batch_account [OF ten g] dflt Some
  show ?thesis
  proof (cases "accountFor s t ty k")
    case no: None
    show ?thesis unfolding unfolds no by (simp add: validateGuarantorEligibility_def Some no)
  next
    case acc: (Some a)
    have "wf_account a" using acc wf by (auto simp: wf_db_def wf_accounts_def dest: accountFor_Some)
    note av = decimal_runtime.available_two_ways [OF E this]
    show ?thesis unfolding unfolds acc
      by (auto simp: validateGuarantorEligibility_def Some acc av batch_active [OF ten])
  qed
qed

text \<open>
  C16. The batched check of all guarantors of an application is the check of one guarantor after the
  other: over rows that belong to the tenant of their member and of their loan it gives, for every
  nominated guarantor in order, the same verdict and the same reason, but for the account type that
  the batched check names where the other one always says FOSA.
\<close>

theorem batch_agrees_with_single:
  assumes "decimal_runtime E" and "wf_db s" and "distinct (map mb_id (members s))" and "tenants_agree s"
  shows "batchEligibility E s gs t b ty = map (\<lambda>(k, x). (k, relabel ty (validateGuarantorEligibility E s k t x b ty))) gs"
proof -
  have "batchVerdict E s (map fst gs) t b ty k x = relabel ty (validateGuarantorEligibility E s k t x b ty)"
    if "(k, x) \<in> set gs" for k x
    by (rule batch_entry [OF assms]) (use that in force)
  then show ?thesis unfolding batchEligibility_def by (auto intro!: map_cong)
qed

section \<open>Equal shares\<close>

context decimal_runtime
begin

lemma sig_bounds: "0 \<le> q \<Longrightarrow> sig_round E q \<le> q + q / 10 ^ 19" "0 \<le> q \<Longrightarrow> q - q / 10 ^ 19 \<le> sig_round E q"
  using sig_error [of q] by (simp_all only: abs_of_nonneg)

lemma roundDown4_m4: "m4 (roundDown4 x)"
proof -
  have "m4 (of_int k / 10 ^ 4)" for k :: int by (rule placesI [of _ _ k]) simp
  then show ?thesis unfolding roundDown4_def by (cases "x < 0"; cases "x = 0") (auto simp: sgn_if intro: places_minus)
qed

lemma equalShare_le:
  assumes "money x" "0 \<le> x" "0 < n"
  shows "0 \<le> roundDown4 (ddiv E x (of_nat n))" "roundDown4 (ddiv E x (of_nat n)) * of_nat n \<le> x"
proof -
  let ?q = "x / of_nat n" and ?d = "ddiv E x (of_nat n)"
  have q: "0 \<le> ?q" using assms by simp
  have d: "0 \<le> ?d" using assms by (simp add: ddiv_nonneg)
  then show "0 \<le> roundDown4 ?d" by (simp add: roundDown4_def sgn_if)
  have fl: "roundDown4 ?d = of_int \<lfloor>?d * 10 ^ 4\<rfloor> / 10 ^ 4" using d by (simp add: roundDown4_def sgn_if)
  obtain k :: int where k: "x * 10 ^ 4 = of_int k" using assms(1) by (auto simp: money_def places_iff)
  have err: "?d \<le> ?q + ?q / 10 ^ 19" unfolding ddiv_def by (rule sig_bounds(1) [OF q])
  have "of_nat n * (?q / 10 ^ 19 * 10 ^ 4) < 1" using assms by (simp add: money_def)
  moreover have "?d * 10 ^ 4 * of_nat n \<le> (?q + ?q / 10 ^ 19) * 10 ^ 4 * of_nat n"
    using err by (intro mult_right_mono) auto
  ultimately have "?d * 10 ^ 4 * of_nat n < of_int k + 1"
    using k assms(3) by (simp add: distrib_right field_simps)
  then have "of_int (\<lfloor>?d * 10 ^ 4\<rfloor> * int n) < (of_int (k + 1) :: rat)"
    using mult_right_mono [OF of_int_floor_le [of "?d * 10 ^ 4"], of "of_nat n"] by simp
  then have "\<lfloor>?d * 10 ^ 4\<rfloor> * int n \<le> k" by (simp only: of_int_less_iff)
  then have "of_int \<lfloor>?d * 10 ^ 4\<rfloor> * of_nat n \<le> x * 10 ^ 4" unfolding k
    by (metis of_int_le_iff of_int_mult of_int_of_nat_eq)
  then show "roundDown4 ?d * of_nat n \<le> x" unfolding fl by (simp add: field_simps)
qed

lemma equalShare_lower:
  assumes "money x" "0 \<le> x" "0 < n"
  shows "x < roundDown4 (ddiv E x (of_nat n)) * of_nat n + 2 * of_nat n / 10 ^ 4"
proof -
  let ?q = "x / of_nat n" and ?d = "ddiv E x (of_nat n)"
  have q: "0 \<le> ?q" using assms by simp
  have d: "0 \<le> ?d" using assms by (simp add: ddiv_nonneg)
  have fl: "roundDown4 ?d = of_int \<lfloor>?d * 10 ^ 4\<rfloor> / 10 ^ 4" using d by (simp add: roundDown4_def sgn_if)
  have "?q - ?q / 10 ^ 19 \<le> ?d" unfolding ddiv_def by (rule sig_bounds(2) [OF q])
  moreover have "?q \<le> x" using assms by (simp add: divide_le_eq mult_le_cancel_left1)
  then have "?q / 10 ^ 19 < 1 / 10 ^ 4" using assms by (simp add: money_def)
  ultimately have "?q < ?d + 1 / 10 ^ 4" by simp
  moreover have "?d < roundDown4 ?d + 1 / 10 ^ 4" unfolding fl
    using floor_correct [of "?d * 10 ^ 4"] by (simp add: field_simps)
  ultimately have "?q < roundDown4 ?d + 2 / 10 ^ 4" by simp
  then have "?q * of_nat n < (roundDown4 ?d + 2 / 10 ^ 4) * of_nat n" using assms by (intro mult_strict_right_mono) auto
  then show ?thesis using assms by (simp add: distrib_right)
qed

lemma lastShare_exact:
  assumes "money x" "0 \<le> x" "0 < n"
  defines "sh \<equiv> roundDown4 (ddiv E x (of_nat n))"
  shows "dp4 E (dminus E x (dtimes E sh (of_nat (n - 1)))) = x - sh * of_nat (n - 1)"
    and "m4 (x - sh * of_nat (n - 1))"
proof -
  have sh: "0 \<le> sh" "sh * of_nat n \<le> x" using equalShare_le [OF assms(1-3)] by (simp_all add: sh_def)
  have "sh * of_nat (n - 1) \<le> sh * of_nat n" using sh(1) by (intro mult_left_mono) auto
  then have le: "sh * of_nat (n - 1) \<le> x" using sh(2) by simp
  obtain j :: int where "sh * 10 ^ 4 = of_int j" using roundDown4_m4 by (auto simp: sh_def places_iff)
  then have m: "m4 (sh * of_nat (n - 1))" by (intro placesI [of _ _ "j * int (n - 1)"]) simp
  then have "wide (sh * of_nat (n - 1))" using le assms(1) sh(1) by (auto simp: wide_def money_def abs_less_iff)
  then have t: "dtimes E sh (of_nat (n - 1)) = sh * of_nat (n - 1)" by (simp add: dtimes_def sig_wide)
  show d: "m4 (x - sh * of_nat (n - 1))" using m assms(1) by (simp add: money_def places_diff)
  have "0 \<le> sh * of_nat (n - 1)" using sh(1) by simp
  then have "x - sh * of_nat (n - 1) \<le> x" "0 \<le> x - sh * of_nat (n - 1)" using le by simp_all
  moreover have "x < 10 ^ 14" using assms(1) by (simp add: money_def abs_less_iff)
  ultimately have "wide (x - sh * of_nat (n - 1))" unfolding wide_def using d by (simp only: abs_of_nonneg) simp
  then have "dminus E x (sh * of_nat (n - 1)) = x - sh * of_nat (n - 1)" by (rule dminus_exact)
  then show "dp4 E (dminus E x (dtimes E sh (of_nat (n - 1)))) = x - sh * of_nat (n - 1)"
    unfolding t using d by simp
qed

end

lemma shares_amounts:
  assumes "ids \<noteq> []"
  shows "map fst (shares E x ids) = ids"
    and "map snd (shares E x ids) = map (\<lambda>a. Some (to_number E a))
      (replicate (length ids - 1) (roundDown4 (ddiv E x (of_nat (length ids)))) @
        [dp4 E (dminus E x (dtimes E (roundDown4 (ddiv E x (of_nat (length ids)))) (of_nat (length ids - 1))))])"
proof -
  show "map fst (shares E x ids) = ids"
    unfolding shares_def Let_def case_prod_unfold map_map comp_def fst_conv
    using map_snd_zip [of "[0..<length ids]" ids] by simp
  have *: "map (\<lambda>i. if i = n - 1 then l else sh) [0..<n] = replicate (n - 1) sh @ [l]" if n: "0 < n" for n and l sh :: rat
  proof -
    obtain m where m: "n = Suc m" using n by (cases n) auto
    have "map (\<lambda>i. if i = m then l else sh) [0..<m] = map (\<lambda>_. sh) [0..<m]" by (intro map_cong) auto
    then show ?thesis by (simp add: m map_replicate_const)
  qed
  let ?sh = "roundDown4 (ddiv E x (of_nat (length ids)))"
  let ?l = "dp4 E (dminus E x (dtimes E ?sh (of_nat (length ids - 1))))"
  have "map snd (shares E x ids) = map (\<lambda>a. Some (to_number E a)) (map (\<lambda>i. if i = length ids - 1 then ?l else ?sh)
      (map fst (zip [0..<length ids] ids)))"
    unfolding shares_def Let_def case_prod_unfold map_map comp_def snd_conv by (rule refl)
  also have "map fst (zip [0..<length ids] ids) = [0..<length ids]" by simp
  also have "map (\<lambda>i. if i = length ids - 1 then ?l else ?sh) [0..<length ids] = replicate (length ids - 1) ?sh @ [?l]"
    by (rule *) (use assms in simp)
  finally show "map snd (shares E x ids) = map (\<lambda>a. Some (to_number E a)) (replicate (length ids - 1) ?sh @ [?l])" .
qed

text \<open>Below \<open>10\<^sup>1\<^sup>1\<close> the conversion to a number loses nothing.\<close>

lemma shares_exact:
  assumes E: "decimal_runtime E" and x: "m4 x" "0 \<le> x" "x < 10 ^ 11" and ids: "ids \<noteq> []"
  defines "n \<equiv> length ids" and "sh \<equiv> roundDown4 (ddiv E x (of_nat (length ids)))"
  shows "map snd (shares E x ids) = map Some (replicate (n - 1) sh @ [x - sh * of_nat (n - 1)])"
    and "m4 sh" "0 \<le> sh" "m4 (x - sh * of_nat (n - 1))" "0 \<le> x - sh * of_nat n" "x - sh * of_nat n < 2 * of_nat n / 10 ^ 4"
    and "x - sh * of_nat (n - 1) = sh + (x - sh * of_nat n)"
proof -
  have n: "0 < n" using ids by (simp add: n_def)
  have mx: "money x" using x by (simp add: money_def)
  note sh = decimal_runtime.equalShare_le [OF E mx x(2) n] decimal_runtime.equalShare_lower [OF E mx x(2) n]
  note last = decimal_runtime.lastShare_exact [OF E mx x(2) n]
  show m: "m4 sh" "m4 (x - sh * of_nat (n - 1))" and "0 \<le> sh" and r: "0 \<le> x - sh * of_nat n"
    "x - sh * of_nat n < 2 * of_nat n / 10 ^ 4"
    using decimal_runtime.roundDown4_m4 [OF E] last(2) sh by (simp_all add: sh_def n_def)
  have nn: "of_nat n = of_nat (n - 1) + (1 :: rat)" using n by (cases n) simp_all
  show l: "x - sh * of_nat (n - 1) = sh + (x - sh * of_nat n)" unfolding nn by (simp add: algebra_simps)
  have "0 \<le> sh * of_nat (n - 1)" using \<open>0 \<le> sh\<close> by simp
  then have b: "\<bar>sh\<bar> < 10 ^ 11" "\<bar>x - sh * of_nat (n - 1)\<bar> < 10 ^ 11" using \<open>0 \<le> sh\<close> r l x by linarith+
  have e: "to_number E sh = sh" "to_number E (x - sh * of_nat (n - 1)) = x - sh * of_nat (n - 1)"
    by (rule decimal_runtime.number_exact [OF E]; use m b in simp)+
  show "map snd (shares E x ids) = map Some (replicate (n - 1) sh @ [x - sh * of_nat (n - 1)])"
    using shares_amounts(2) [OF ids, of E x] last(1) e by (simp add: sh_def n_def)
qed

lemma shares_sum:
  assumes "decimal_runtime E" and "m4 x" "0 \<le> x" "x < 10 ^ 11" and "ids \<noteq> []"
  shows "sum_list (map (the \<circ> snd) (shares E x ids)) = x"
proof -
  have "sum_list (map (the \<circ> snd) (shares E x ids)) = sum_list (map the (map snd (shares E x ids)))" by simp
  then show ?thesis unfolding shares_exact(1) [OF assms] by (simp add: sum_list_replicate comp_def)
qed

text \<open>
  C17. Nominating guarantors without amounts covers the loan exactly, for a required cover of less than
  10^11 shillings: the shares go to the nominated members in order, add up to the required cover to the last
  of four decimals after their conversion to numbers, are never negative, and no two of them differ by
  as much as two ten-thousandths for every guarantor. (A share is handed on as a double, which keeps 15
  significant digits; nothing is claimed of a cover that is larger.)
\<close>

theorem equal_shares_cover:
  assumes "decimal_runtime E" and "m4 x" "0 \<le> x" "x < 10 ^ 11" and "ids \<noteq> []"
  shows "map fst (shares E x ids) = ids \<and> sum_list (map (the \<circ> snd) (shares E x ids)) = x \<and>
    (\<forall>g \<in> set (shares E x ids). \<exists>a. snd g = Some a \<and> m4 a \<and> 0 \<le> a \<and>
      (\<forall>h \<in> set (shares E x ids). \<bar>a - the (snd h)\<bar> < 2 * of_nat (length ids) / 10 ^ 4))"
proof -
  let ?n = "length ids" and ?sh = "roundDown4 (ddiv E x (of_nat (length ids)))"
  define l where "l = x - ?sh * of_nat (?n - 1)"
  note sh = shares_exact [OF assms, folded l_def]
  have vals: "\<exists>a. snd g = Some a \<and> (a = ?sh \<or> a = l)" if "g \<in> set (shares E x ids)" for g
  proof -
    have "snd g \<in> set (map Some (replicate (?n - 1) ?sh @ [l]))" using that unfolding sh(1) [symmetric] by simp
    then show ?thesis by auto
  qed
  have "\<exists>a. snd g = Some a \<and> m4 a \<and> 0 \<le> a \<and>
      (\<forall>h \<in> set (shares E x ids). \<bar>a - the (snd h)\<bar> < 2 * of_nat ?n / 10 ^ 4)" if g: "g \<in> set (shares E x ids)" for g
  proof -
    obtain a where a: "snd g = Some a" "a = ?sh \<or> a = l" using vals [OF g] by blast
    have "\<bar>a - the (snd h)\<bar> < 2 * of_nat ?n / 10 ^ 4" if "h \<in> set (shares E x ids)" for h
      using vals [OF that] a(2) sh(2-7) assms(5) by (auto simp: abs_less_iff)
    then show ?thesis using a sh(2-7) by auto
  qed
  then show ?thesis using shares_amounts(1) [OF assms(5)] shares_sum [OF assms] by blast
qed

theorem equal_shares_cover_witness:
  "sum_list (map (the \<circ> snd) (shares plain_env 1000 [''a'', ''b'', ''c''])) = 1000 \<and>
   shares plain_env 1000 [''a'', ''b'', ''c''] =
     [(''a'', Some (3333333 / 10000)), (''b'', Some (3333333 / 10000)), (''c'', Some (1666667 / 5000))]"
proof
  have "m4 1000" by code_simp
  from equal_shares_cover [OF plain.decimal_runtime_axioms this, of "[''a'', ''b'', ''c'']"]
  show "sum_list (map (the \<circ> snd) (shares plain_env 1000 [''a'', ''b'', ''c''])) = 1000" by simp
  show "shares plain_env 1000 [''a'', ''b'', ''c''] =
     [(''a'', Some (3333333 / 10000)), (''b'', Some (3333333 / 10000)), (''c'', Some (1666667 / 5000))]" by code_simp
qed

section \<open>An accepted application\<close>

text \<open>What an application never touches.\<close>

definition money_untouched :: "db \<Rightarrow> db \<Rightarrow> bool" where
  "money_untouched s s' \<longleftrightarrow> accounts s' = accounts s \<and> transactions s' = transactions s \<and>
     journalEntries s' = journalEntries s \<and> repayments s' = repayments s \<and> mpesaTransactions s' = mpesaTransactions s"

lemma nextLoanSeq_frame:
  assumes "nextLoanSeq s t = (seq, s1)"
  shows "money_untouched s s1" "loans s1 = loans s" "guarantors s1 = guarantors s"
  using assms by (auto simp: nextLoanSeq_def money_untouched_def split: option.splits)

lemma requestGuarantee_row:
  assumes "requestGuarantee E now t lid s g = Inr s'"
  shows "\<exists>n. guarantors s' = guarantors s @ [n] \<and> lg_memberId n = fst g \<and> lg_guaranteedAmount n = dp4 E (the (snd g)) \<and>
    lg_status n = GuarantorStatus.PENDING \<and> lg_loanId n = lid \<and> lg_tenantId n = t \<and> in_column (lg_guaranteedAmount n)"
    "money_untouched s s'" "loans s' = loans s" "auditLog s' = auditLog s"
  using assms by (auto simp: requestGuarantee_def createGuarantor_def guarantorRequest_def Let_def res_simps money_untouched_def)

lemma requestGuarantees_rows:
  assumes "foldM (requestGuarantee E now t lid) s gs = Inr s'"
  shows "money_untouched s s' \<and> loans s' = loans s \<and> (\<exists>new. guarantors s' = guarantors s @ new \<and> map (\<lambda>n. (lg_memberId n, lg_guaranteedAmount n)) new = map (\<lambda>g. (fst g, dp4 E (the (snd g)))) gs \<and>
    (\<forall>n \<in> set new. lg_status n = GuarantorStatus.PENDING \<and> lg_loanId n = lid \<and> lg_tenantId n = t \<and>
       in_column (lg_guaranteedAmount n)))"
  using assms
proof (induction gs arbitrary: s)
  case Nil
  then show ?case by (simp add: money_untouched_def)
next
  case (Cons g gs)
  from Cons.prems obtain s1 where 1: "requestGuarantee E now t lid s g = Inr s1"
    and 2: "foldM (requestGuarantee E now t lid) s1 gs = Inr s'" by (auto simp: res_simps)
  obtain n where n: "guarantors s1 = guarantors s @ [n]" "lg_memberId n = fst g" "lg_guaranteedAmount n = dp4 E (the (snd g))"
      "lg_status n = GuarantorStatus.PENDING" "lg_loanId n = lid" "lg_tenantId n = t" "in_column (lg_guaranteedAmount n)"
    using requestGuarantee_row(1) [OF 1] by blast
  obtain new where new: "guarantors s' = guarantors s1 @ new" "map (\<lambda>n. (lg_memberId n, lg_guaranteedAmount n)) new = map (\<lambda>g. (fst g, dp4 E (the (snd g)))) gs"
      "\<forall>n \<in> set new. lg_status n = GuarantorStatus.PENDING \<and> lg_loanId n = lid \<and> lg_tenantId n = t \<and> in_column (lg_guaranteedAmount n)"
    and f: "money_untouched s1 s'" "loans s' = loans s1" using Cons.IH [OF 2] by blast
  show ?case
    using n new f requestGuarantee_row(2,3) [OF 1] by (intro conjI exI [of _ "n # new"]) (auto simp: money_untouched_def)
qed

text \<open>The steps of an accepted application.\<close>

lemma applyTx_steps:
  assumes "applyTx E pow now s dto t m u corr = Inr (loan, s')"
  obtains pdt gs seq s1 mi s2 s3 where
    "applicantChecks s m t = Inr ()"
    "findFirst (\<lambda>p. lp_id p = ad_loanProductId dto \<and> lp_tenantId p = t \<and> lp_isActive p) (loanProducts s) = Some pdt"
    "gs = nominations E pdt dto" "productChecks E s pdt dto m t gs = Inr ()"
    "guarantorChecks E s pdt (ad_principalAmount dto) m t gs = Inr ()" "nextLoanSeq s t = (seq, s1)"
    "createLoan E (applicationLoan E now pdt dto m t (loanNumberOf now seq) mi gs) s1 = Inr (loan, s2)"
    "foldM (requestGuarantee E now t (ln_id loan)) s2 gs = Inr s3"
    "auditAtomic t u ''LOAN.APPLY'' (ln_id loan) (corr @ '':loan-apply'') s3 = Inr s'"
proof -
  obtain sq sn where c: "nextLoanSeq s t = (sq, sn)" by fastforce
  have "\<exists>pdt seq s1 mi s2 s3. applicantChecks s m t = Inr () \<and>
    findFirst (\<lambda>p. lp_id p = ad_loanProductId dto \<and> lp_tenantId p = t \<and> lp_isActive p) (loanProducts s) = Some pdt \<and>
    productChecks E s pdt dto m t (nominations E pdt dto) = Inr () \<and>
    guarantorChecks E s pdt (ad_principalAmount dto) m t (nominations E pdt dto) = Inr () \<and> nextLoanSeq s t = (seq, s1) \<and>
    createLoan E (applicationLoan E now pdt dto m t (loanNumberOf now seq) mi (nominations E pdt dto)) s1 = Inr (loan, s2) \<and>
    foldM (requestGuarantee E now t (ln_id loan)) s2 (nominations E pdt dto) = Inr s3 \<and>
    auditAtomic t u ''LOAN.APPLY'' (ln_id loan) (corr @ '':loan-apply'') s3 = Inr s'"
    using assms by (auto simp: applyTx_def Let_def c res_simps)
  then show thesis using that by blast
qed

lemma createLoan_row:
  assumes "createLoan E row s = Inr (l, s')"
  shows "l = row\<lparr>ln_id := uuid E (id_count s)\<rparr>" "loans s' = loans s @ [l]" "guarantors s' = guarantors s"
    "money_untouched s s'" "in_column (ln_principalAmount row)" "ln_id l \<notin> ln_id ` set (loans s)"
  using assms by (auto simp: createLoan_def Let_def res_simps money_untouched_def)

lemma applyTx_effect:
  assumes run: "applyTx E pow now s dto t m u corr = Inr (loan, s')"
  obtains pdt gs new where
    "pdt \<in> set (loanProducts s)" "lp_id pdt = ad_loanProductId dto" "lp_tenantId pdt = t" "lp_isActive pdt"
    "gs = nominations E pdt dto"
    "applicantChecks s m t = Inr ()" "productChecks E s pdt dto m t gs = Inr ()"
    "guarantorChecks E s pdt (ad_principalAmount dto) m t gs = Inr ()"
    "money_untouched s s'" "loans s' = loans s @ [loan]" "ln_id loan \<notin> ln_id ` set (loans s)" "guarantors s' = guarantors s @ new"
    "ln_memberId loan = m" "ln_tenantId loan = t" "ln_outstandingBalance loan = dp4 E (ad_principalAmount dto)"
    "ln_principalAmount loan = dp4 E (ad_principalAmount dto)" "ln_tenureMonths loan = ad_tenureMonths dto"
    "ln_status loan = (if 0 < lp_minGuarantors pdt \<or> gs \<noteq> [] then LoanStatus.PENDING_GUARANTORS else LoanStatus.DRAFT)"
    "map (\<lambda>n. (lg_memberId n, lg_guaranteedAmount n)) new = map (\<lambda>g. (fst g, dp4 E (the (snd g)))) gs"
    "\<forall>n \<in> set new. lg_status n = GuarantorStatus.PENDING \<and> lg_loanId n = ln_id loan \<and> lg_tenantId n = t \<and>
       in_column (lg_guaranteedAmount n)"
proof (rule applyTx_steps [OF run])
  fix pdt gs seq s1 mi s2 s3
  assume checks: "applicantChecks s m t = Inr ()"
    "findFirst (\<lambda>p. lp_id p = ad_loanProductId dto \<and> lp_tenantId p = t \<and> lp_isActive p) (loanProducts s) = Some pdt"
    "gs = nominations E pdt dto" "productChecks E s pdt dto m t gs = Inr ()"
    "guarantorChecks E s pdt (ad_principalAmount dto) m t gs = Inr ()"
    and c: "nextLoanSeq s t = (seq, s1)"
    and l: "createLoan E (applicationLoan E now pdt dto m t (loanNumberOf now seq) mi gs) s1 = Inr (loan, s2)"
    and g: "foldM (requestGuarantee E now t (ln_id loan)) s2 gs = Inr s3"
    and a: "auditAtomic t u ''LOAN.APPLY'' (ln_id loan) (corr @ '':loan-apply'') s3 = Inr s'"
  have as: "money_untouched s3 s'" "loans s' = loans s3" "guarantors s' = guarantors s3"
    using a by (auto simp: auditAtomic_def res_simps money_untouched_def)
  obtain new where new: "guarantors s3 = guarantors s2 @ new" "map (\<lambda>n. (lg_memberId n, lg_guaranteedAmount n)) new = map (\<lambda>g. (fst g, dp4 E (the (snd g)))) gs"
      "\<forall>n \<in> set new. lg_status n = GuarantorStatus.PENDING \<and> lg_loanId n = ln_id loan \<and> lg_tenantId n = t \<and>
         in_column (lg_guaranteedAmount n)"
    and f: "money_untouched s2 s3" "loans s3 = loans s2" using requestGuarantees_rows [OF g] by blast
  note lr = createLoan_row [OF l] and cr = nextLoanSeq_frame [OF c]
  have "pdt \<in> set (loanProducts s)" "lp_id pdt = ad_loanProductId dto" "lp_tenantId pdt = t" "lp_isActive pdt"
    using findFirst_Some [OF checks(2)] by auto
  then show thesis
    using that [of pdt gs new] checks new f as lr cr by (auto simp: money_untouched_def applicationLoan_def Let_def)
qed

lemma normalizeFrom_some:
  "normalizeFrom seen noms = Inr gs \<Longrightarrow> \<forall>g \<in> set noms. \<exists>x. snd g = Some x \<and> 0 < x"
  by (induction seen noms arbitrary: gs rule: normalizeFrom.induct) (auto simp: res_simps split: option.splits)

lemma normalize_positive:
  assumes "normalizeGuarantors noms = Inr gs"
  shows "gs = map (\<lambda>(k, x). (k, the x)) noms" "distinct (map fst noms)" "\<forall>g \<in> set noms. \<exists>x. snd g = Some x \<and> 0 < x"
proof -
  have n: "normalizeFrom {} noms = Inr gs" using assms by (simp add: normalizeGuarantors_def)
  show g: "gs = map (\<lambda>(k, x). (k, the x)) noms" using normalizeFrom_Inr [OF n] by blast
  have "map fst noms = map fst gs" unfolding g by (simp add: case_prod_unfold)
  moreover have "distinct (map fst gs)" using normalizeFrom_Inr [OF n] by blast
  ultimately show "distinct (map fst noms)" by (simp only:)
  show "\<forall>g \<in> set noms. \<exists>x. snd g = Some x \<and> 0 < x" by (rule normalizeFrom_some [OF n])
qed

lemma nominations_m4:
  assumes "decimal_runtime E" and "\<forall>g \<in> set (ad_guarantors dto). \<forall>a. snd g = Some a \<longrightarrow> m4 a"
    and "ad_guarantorIds dto \<noteq> [] \<Longrightarrow> 0 \<le> dp4 E (dtimes E (ad_principalAmount dto) (coverageRatioOf pdt)) \<and>
      dp4 E (dtimes E (ad_principalAmount dto) (coverageRatioOf pdt)) < 10 ^ 11"
  shows "\<forall>g \<in> set (nominations E pdt dto). \<forall>a. snd g = Some a \<longrightarrow> m4 a"
proof (cases "ad_guarantorIds dto = []")
  case True
  then show ?thesis using assms(2) by (simp add: nominations_def)
next
  case False
  let ?x = "dp4 E (dtimes E (ad_principalAmount dto) (coverageRatioOf pdt))"
  have x: "m4 ?x" "0 \<le> ?x" "?x < 10 ^ 11" using assms(3) False decimal_runtime.m4_dp4 [OF assms(1)] by auto
  note sh = shares_exact [OF assms(1) x False]
  have "m4 a" if g: "g \<in> set (nominations E pdt dto)" "snd g = Some a" for g a
  proof -
    have "snd g \<in> set (map snd (shares E ?x (ad_guarantorIds dto)))" using g(1) False by (simp add: nominations_def)
    then show ?thesis unfolding sh(1) using sh(2,4) g(2) by auto
  qed
  then show ?thesis by blast
qed

lemma guarantorChecks_Inr:
  assumes E: "decimal_runtime E" and wf: "wf_db s" "distinct (map mb_id (members s))" "tenants_agree s"
    and chk: "guarantorChecks E s pdt P m t gs = Inr ()" and ne: "gs \<noteq> []"
  shows "distinct (map fst gs)" "\<forall>g \<in> set gs. \<exists>x. snd g = Some x \<and> 0 < x \<and>
      validateGuarantorEligibility E s (fst g) t x m (resolveAccountType pdt) = None"
    "dp4 E (dtimes E P (coverageRatioOf pdt)) \<le> dsum E snd (map (\<lambda>(k, x). (k, the x)) gs)"
proof -
  from chk ne obtain ns where n: "normalizeGuarantors gs = Inr ns"
    and cov: "dp4 E (dtimes E P (coverageRatioOf pdt)) \<le> dsum E snd ns"
    and b: "\<forall>r \<in> set (batchEligibility E s (map (\<lambda>(k, x). (k, the x)) gs) t m (resolveAccountType pdt)). snd r = None"
    by (auto simp: guarantorChecks_def validateGuarantorCoverage_def coverageRatioOf_def Let_def res_simps split: if_splits)
  note ns = normalize_positive [OF n]
  show "distinct (map fst gs)" by (rule ns(2))
  show "dp4 E (dtimes E P (coverageRatioOf pdt)) \<le> dsum E snd (map (\<lambda>(k, x). (k, the x)) gs)" using cov ns(1) by simp
  have "validateGuarantorEligibility E s (fst g) t x m (resolveAccountType pdt) = None"
    if g: "g \<in> set gs" "snd g = Some x" for g x
  proof -
    let ?ks = "map fst (map (\<lambda>(k, x). (k, the x)) gs)"
    have "(fst g, x) \<in> set (map (\<lambda>(k, x). (k, the x)) gs)" using g by (force simp: case_prod_unfold)
    then have "batchVerdict E s ?ks t m (resolveAccountType pdt) (fst g) x = None" and "fst g \<in> set ?ks"
      using b unfolding batchEligibility_def by force+
    with batch_entry [OF E wf, of "fst g" ?ks] show ?thesis by (simp add: relabel_def split: if_splits)
  qed
  then show "\<forall>g \<in> set gs. \<exists>x. snd g = Some x \<and> 0 < x \<and>
      validateGuarantorEligibility E s (fst g) t x m (resolveAccountType pdt) = None" using ns(3) by blast
qed

lemma sum_list_le_length: "\<forall>x \<in> set xs. f x \<le> c \<Longrightarrow> sum_list (map f xs) \<le> of_nat (length xs) * (c :: rat)"
  by (induction xs) (auto simp: distrib_right add_mono)

lemma coverage_sum:
  assumes E: "decimal_runtime E" and few: "length new \<le> 3" and col: "\<forall>n \<in> set new. in_column (lg_guaranteedAmount n)"
    and rows: "map lg_guaranteedAmount new = map (\<lambda>g. the (snd g)) gs"
    and gs: "\<forall>g \<in> set gs. \<exists>x. snd g = Some x \<and> m4 x \<and> 0 \<le> x"
  shows "dsum E snd (map (\<lambda>(k, x). (k, the x)) gs) = sum_list (map lg_guaranteedAmount new)"
proof -
  have eq: "map snd (map (\<lambda>(k, x). (k, the x)) gs) = map lg_guaranteedAmount new"
    unfolding rows by (simp add: case_prod_unfold)
  have "\<forall>n \<in> set new. lg_guaranteedAmount n \<le> 10 ^ 14" using col by (auto simp: in_column_def abs_less_iff)
  from sum_list_le_length [OF this] have "sum_list (map lg_guaranteedAmount new) \<le> of_nat (length new) * 10 ^ 14" .
  also have "\<dots> \<le> 3 * 10 ^ 14" using few by (intro mult_right_mono) auto
  finally have "sum_list (map lg_guaranteedAmount new) \<le> 3 * 10 ^ 14" .
  then have "sum_list (map snd (map (\<lambda>(k, x). (k, the x)) gs)) < 10 ^ 16" unfolding eq by simp
  then have "dsum E snd (map (\<lambda>(k, x). (k, the x)) gs) = sum_list (map snd (map (\<lambda>(k, x). (k, the x)) gs))"
    using gs by (intro decimal_runtime.dsum_exact [OF E]) auto
  then show ?thesis unfolding eq .
qed

lemma shares_length: "length (shares E x ids) = length ids"
  by (simp add: shares_def Let_def)

lemma stored_nominations:
  assumes E: "decimal_runtime E"
    and new: "map (\<lambda>n. (lg_memberId n, lg_guaranteedAmount n)) new = map (\<lambda>g. (fst g, dp4 E (the (snd g)))) gs"
    and gs: "\<forall>g \<in> set gs. \<exists>x. snd g = Some x \<and> m4 x"
  shows "map (\<lambda>n. (lg_memberId n, Some (lg_guaranteedAmount n))) new = gs"
proof -
  have "map (\<lambda>n. (lg_memberId n, Some (lg_guaranteedAmount n))) new =
      map (map_prod id Some) (map (\<lambda>n. (lg_memberId n, lg_guaranteedAmount n)) new)" by simp
  also have "\<dots> = map (\<lambda>g. (fst g, Some (dp4 E (the (snd g))))) gs" unfolding new by simp
  also have "\<dots> = map (\<lambda>g. g) gs"
  proof (rule map_cong [OF refl])
    fix g assume "g \<in> set gs"
    then obtain x where "snd g = Some x" "m4 x" using gs by blast
    then show "(fst g, Some (dp4 E (the (snd g)))) = g" by (simp add: decimal_runtime.dp4_exact [OF E] prod_eq_iff)
  qed
  finally show ?thesis by simp
qed

lemma other_guarantor: "validateGuarantorEligibility E s k t x m ty = None \<Longrightarrow> k \<noteq> m"
  by (auto simp: validateGuarantorEligibility_def)

lemma covered_nominations:
  assumes E: "decimal_runtime E" and wf: "wf_db s" "distinct (map mb_id (members s))" "tenants_agree s"
    and chk: "guarantorChecks E s pdt P m t gs = Inr ()" "gs \<noteq> []" and m4: "\<forall>g \<in> set gs. \<forall>a. snd g = Some a \<longrightarrow> m4 a"
    and new: "map (\<lambda>n. (lg_memberId n, lg_guaranteedAmount n)) new = map (\<lambda>g. (fst g, dp4 E (the (snd g)))) gs"
    and few: "length new \<le> 3" and col: "\<forall>n \<in> set new. in_column (lg_guaranteedAmount n)"
  shows "map (\<lambda>n. (lg_memberId n, Some (lg_guaranteedAmount n))) new = gs" "distinct (map lg_memberId new)"
    "\<forall>n \<in> set new. lg_memberId n \<noteq> m \<and>
       validateGuarantorEligibility E s (lg_memberId n) t (lg_guaranteedAmount n) m (resolveAccountType pdt) = None"
    "dp4 E (dtimes E P (coverageRatioOf pdt)) \<le> sum_list (map lg_guaranteedAmount new)"
proof -
  note gc = guarantorChecks_Inr [OF E wf chk]
  have some: "\<forall>g \<in> set gs. \<exists>x. snd g = Some x \<and> m4 x \<and> 0 \<le> x" using gc(2) m4 by force
  then show rows: "map (\<lambda>n. (lg_memberId n, Some (lg_guaranteedAmount n))) new = gs"
    by (intro stored_nominations [OF E new]) blast
  show "distinct (map lg_memberId new)" using gc(1) unfolding rows [symmetric] by (simp add: comp_def)
  show "\<forall>n \<in> set new. lg_memberId n \<noteq> m \<and>
      validateGuarantorEligibility E s (lg_memberId n) t (lg_guaranteedAmount n) m (resolveAccountType pdt) = None"
    using gc(2) unfolding rows [symmetric] by (auto dest: other_guarantor)
  have "map lg_guaranteedAmount new = map (\<lambda>g. the (snd g)) gs" unfolding rows [symmetric] by simp
  from coverage_sum [OF E few col this some] gc(3)
  show "dp4 E (dtimes E P (coverageRatioOf pdt)) \<le> sum_list (map lg_guaranteedAmount new)" by simp
qed

text \<open>The rows against the form: the amounts it gives, or the members it names and the whole cover.\<close>

lemma rows_of_form:
  assumes E: "decimal_runtime E" and rows: "map (\<lambda>n. (lg_memberId n, Some (lg_guaranteedAmount n))) new = nominations E pdt dto"
    and x: "ad_guarantorIds dto \<noteq> [] \<Longrightarrow> 0 \<le> x \<and> x < 10 ^ 11"
    and c: "x = dp4 E (dtimes E (ad_principalAmount dto) (coverageRatioOf pdt))"
  shows "if ad_guarantorIds dto = [] then map (\<lambda>n. (lg_memberId n, Some (lg_guaranteedAmount n))) new = ad_guarantors dto
    else map lg_memberId new = ad_guarantorIds dto \<and> sum_list (map lg_guaranteedAmount new) = x"
proof (cases "ad_guarantorIds dto = []")
  case True
  with rows show ?thesis by (simp add: nominations_def)
next
  case False
  then have n: "nominations E pdt dto = shares E x (ad_guarantorIds dto)" by (simp add: nominations_def c)
  have "map lg_memberId new = map fst (map (\<lambda>n. (lg_memberId n, Some (lg_guaranteedAmount n))) new)" by simp
  also have "\<dots> = ad_guarantorIds dto" unfolding rows n by (rule shares_amounts(1) [OF False])
  finally have "map lg_memberId new = ad_guarantorIds dto" .
  moreover have "map lg_guaranteedAmount new = map (the \<circ> snd) (map (\<lambda>n. (lg_memberId n, Some (lg_guaranteedAmount n))) new)"
    by simp
  then have "sum_list (map lg_guaranteedAmount new) = x" unfolding rows n
    using shares_sum [OF E _ _ _ False] x False decimal_runtime.m4_dp4 [OF E] by (simp add: c)
  ultimately show ?thesis using False by simp
qed

lemma application_limits:
  assumes "applicantChecks s m t = Inr ()" and "productChecks E s pdt dto m t gs = Inr ()"
  shows "openLoanOf s m t = None" "lp_minAmount pdt \<le> ad_principalAmount dto" "ad_principalAmount dto \<le> lp_maxAmount pdt"
    "int (ad_tenureMonths dto) \<le> lp_maxTenureMonths pdt" "lp_minGuarantors pdt \<le> int (length gs)"
  using assms by (auto simp: applicantChecks_def productChecks_def assertLoanApplicationRules_def resolveRules_def Let_def res_simps)

lemma nominations_length:
  assumes "length (ad_guarantors dto) \<le> k" "length (ad_guarantorIds dto) \<le> k"
  shows "length (nominations E pdt dto) \<le> k"
    and "nominations E pdt dto = [] \<Longrightarrow> ad_guarantorIds dto = [] \<and> ad_guarantors dto = []"
  using assms shares_length [of E "dp4 E (dtimes E (ad_principalAmount dto) (coverageRatioOf pdt))" "ad_guarantorIds dto"]
  by (auto simp: nominations_def split: if_splits)

text \<open>
  C14. An accepted application is sound: the member had no open loan, the product is an active one of the
  tenant, the amount and the tenure are within its limits, and the loan is appended with exactly the amount
  asked for, all of it outstanding. One guarantee request is appended for every nomination of the form, in its
  order and for nobody else: with the amounts that the form gives, or, when it only names members, to those
  members with amounts that add up exactly to the cover the product requires. Every nominated guarantor is
  another member, nominated once, who passes the eligibility check for the amount and has not answered;
  together they cover what the product asks for, with at least its smallest number of guarantors. Accounts,
  transactions, journal entries, instalments and mobile-money rows are untouched. The conditions on the form:
  principal and amounts have at most four decimals, it nominates at most three guarantors, and when it only
  names members the required cover is from 0 to less than 10^11 shillings, where an amount survives its
  conversion to a number. The database is well formed: members have distinct identifiers, and the rows of a
  member belong to its tenant.
\<close>

theorem application_sound:
  assumes E: "decimal_runtime E" and run: "doMemberApply E pow now s dto t m u corr = Inr (loan, s')"
    and wf: "wf_db s" "distinct (map mb_id (members s))" "tenants_agree s"
    and P: "m4 (ad_principalAmount dto)" and am: "\<forall>g \<in> set (ad_guarantors dto). \<forall>a. snd g = Some a \<longrightarrow> m4 a"
    and few: "length (ad_guarantors dto) \<le> 3" "length (ad_guarantorIds dto) \<le> 3"
    and cover: "\<forall>p \<in> set (loanProducts s). lp_id p = ad_loanProductId dto \<and> ad_guarantorIds dto \<noteq> [] \<longrightarrow>
      0 \<le> dp4 E (dtimes E (ad_principalAmount dto) (coverageRatioOf p)) \<and>
      dp4 E (dtimes E (ad_principalAmount dto) (coverageRatioOf p)) < 10 ^ 11"
  shows "\<exists>pdt \<in> set (loanProducts s). \<exists>new. lp_id pdt = ad_loanProductId dto \<and> lp_tenantId pdt = t \<and> lp_isActive pdt \<and>
    openLoanOf s m t = None \<and> lp_minAmount pdt \<le> ad_principalAmount dto \<and> ad_principalAmount dto \<le> lp_maxAmount pdt \<and>
    int (ad_tenureMonths dto) \<le> lp_maxTenureMonths pdt \<and>
    money_untouched s s' \<and> loans s' = loans s @ [loan] \<and> ln_memberId loan = m \<and> ln_tenantId loan = t \<and>
    ln_principalAmount loan = ad_principalAmount dto \<and> ln_outstandingBalance loan = ad_principalAmount dto \<and>
    ln_tenureMonths loan = ad_tenureMonths dto \<and>
    ln_status loan = (if new = [] then LoanStatus.DRAFT else LoanStatus.PENDING_GUARANTORS) \<and>
    guarantors s' = guarantors s @ new \<and>
    (if ad_guarantorIds dto = [] then map (\<lambda>n. (lg_memberId n, Some (lg_guaranteedAmount n))) new = ad_guarantors dto
     else map lg_memberId new = ad_guarantorIds dto \<and>
       sum_list (map lg_guaranteedAmount new) = dp4 E (dtimes E (ad_principalAmount dto) (coverageRatioOf pdt))) \<and>
    lp_minGuarantors pdt \<le> int (length new) \<and> distinct (map lg_memberId new) \<and>
    (\<forall>n \<in> set new. lg_status n = GuarantorStatus.PENDING \<and> lg_loanId n = ln_id loan \<and> lg_tenantId n = t \<and> lg_memberId n \<noteq> m \<and>
       validateGuarantorEligibility E s (lg_memberId n) t (lg_guaranteedAmount n) m (resolveAccountType pdt) = None) \<and>
    (new \<noteq> [] \<longrightarrow> dp4 E (dtimes E (ad_principalAmount dto) (coverageRatioOf pdt)) \<le> sum_list (map lg_guaranteedAmount new))"
proof -
  from run have tx: "applyTx E pow now s dto t m u corr = Inr (loan, s')"
    by (auto simp: doMemberApply_def split: sum.splits)
  show ?thesis
  proof (rule applyTx_effect [OF tx])
    fix pdt gs new
    assume pdt: "pdt \<in> set (loanProducts s)" "lp_id pdt = ad_loanProductId dto" "lp_tenantId pdt = t" "lp_isActive pdt"
      and gs: "gs = nominations E pdt dto"
      and chk: "applicantChecks s m t = Inr ()" "productChecks E s pdt dto m t gs = Inr ()"
        "guarantorChecks E s pdt (ad_principalAmount dto) m t gs = Inr ()"
      and eff: "money_untouched s s'" "loans s' = loans s @ [loan]" "guarantors s' = guarantors s @ new"
        "ln_memberId loan = m" "ln_tenantId loan = t" "ln_outstandingBalance loan = dp4 E (ad_principalAmount dto)"
        "ln_principalAmount loan = dp4 E (ad_principalAmount dto)" "ln_tenureMonths loan = ad_tenureMonths dto"
        "ln_status loan = (if 0 < lp_minGuarantors pdt \<or> gs \<noteq> [] then LoanStatus.PENDING_GUARANTORS else LoanStatus.DRAFT)"
      and new: "map (\<lambda>n. (lg_memberId n, lg_guaranteedAmount n)) new = map (\<lambda>g. (fst g, dp4 E (the (snd g)))) gs"
        "\<forall>n \<in> set new. lg_status n = GuarantorStatus.PENDING \<and> lg_loanId n = ln_id loan \<and> lg_tenantId n = t \<and>
           in_column (lg_guaranteedAmount n)"
    define x where "x = dp4 E (dtimes E (ad_principalAmount dto) (coverageRatioOf pdt))"
    have x: "0 \<le> x \<and> x < 10 ^ 11" if "ad_guarantorIds dto \<noteq> []" using cover pdt that by (simp add: x_def)
    note form = nominations_length [OF few, of E pdt, folded gs] and lim = application_limits [OF chk(1,2)]
    have few': "length new \<le> 3" using form(1) map_eq_imp_length_eq [OF new(1)] by simp
    have m4: "\<forall>g \<in> set gs. \<forall>a. snd g = Some a \<longrightarrow> m4 a"
      unfolding gs by (rule nominations_m4 [OF E am]) (use x in \<open>simp add: x_def\<close>)
    have len: "length gs = length new" "new = [] \<longleftrightarrow> gs = []" using map_eq_imp_length_eq [OF new(1)] new(1) by auto
    have P': "dp4 E (ad_principalAmount dto) = ad_principalAmount dto"
      using P by (rule decimal_runtime.dp4_exact [OF E])
    show ?thesis
    proof (cases "gs = []")
      case True
      then show ?thesis using form(2) pdt lim eff P' len by (intro bexI [OF _ pdt(1)] exI [of _ new]) auto
    next
      case False
      have "\<forall>n \<in> set new. in_column (lg_guaranteedAmount n)" using new(2) by blast
      note gc = covered_nominations [OF E wf chk(3) False m4 new(1) few' this]
      note rows = rows_of_form [OF E gc(1) [unfolded gs] x x_def, unfolded x_def]
      show ?thesis
        by (rule bexI [OF _ pdt(1)], rule exI [of _ new])
          (intro conjI rows gc(2); use pdt lim eff P' len False new(2) gc(3,4) in simp)
    qed
  qed
qed

text \<open>A borrower and two members who can guarantee, with a product that asks for two guarantors.\<close>

definition hall_member :: "ident \<Rightarrow> member" where
  "hall_member i = \<lparr>mb_id = i, mb_tenantId = ''t'', mb_userId = ''u'' @ i, mb_isActive = True,
     mb_kycStatus = KycStatus.APPROVED, mb_accountStatus = AccountStatus.ACTIVE, mb_isBlacklisted = False\<rparr>"

definition hall :: db where
  "hall = empty_db\<lparr>accounts := [pledger ''1'' 1000 200, pledger ''2'' 900 0, pledger ''3'' 700 0],
     members := map hall_member [''m1'', ''m2'', ''m3''],
     users := map (\<lambda>i. \<lparr>us_id = ''u'' @ i, us_tenantId = ''t'', us_role = UserRole.MEMBER, us_phone = None,
       us_phoneNumber = None\<rparr>) [''m1'', ''m2'', ''m3''],
     loanProducts := [pledge_product]\<rparr>"

definition hall_request :: apply_dto where
  "hall_request = \<lparr>ad_loanProductId = ''p'', ad_principalAmount = 1000, ad_tenureMonths = 12, ad_guarantors = [],
     ad_guarantorIds = [''m2'', ''m3'']\<rparr>"

definition power_of :: "rat \<Rightarrow> nat \<Rightarrow> rat" where "power_of x n = x ^ n"

definition hall_run :: "(loan \<times> db) res" where
  "hall_run = doMemberApply plain_env power_of 0 hall hall_request ''t'' ''m1'' ''um1'' ''c''"

definition hall_view where
  "hall_view = (case hall_run of Inl e \<Rightarrow> None | Inr (l, s) \<Rightarrow> Some (ln_loanNumber l, ln_status l, ln_monthlyInstalment l,
     map (\<lambda>g. (lg_memberId g, lg_status g, lg_guaranteedAmount g)) (guarantors s), map tc_loanSeq (tenantCounters s)))"

lemma hall_facts:
  "wf_db hall" "distinct (map mb_id (members hall))" "tenants_agree hall"
  by code_simp+

lemma hall_outcome:
  "hall_view = Some (''LN-1970-000001'', LoanStatus.PENDING_GUARANTORS, 933333 / 10000,
     [(''m2'', GuarantorStatus.PENDING, 500), (''m3'', GuarantorStatus.PENDING, 500)], [1])"
  by code_simp

lemma hall_applied: "\<exists>l s'. doMemberApply plain_env power_of 0 hall hall_request ''t'' ''m1'' ''um1'' ''c'' = Inr (l, s')"
  using hall_outcome by (auto simp: hall_view_def hall_run_def split: sum.splits)

theorem application_sound_witness:
  "\<exists>l s'. doMemberApply plain_env power_of 0 hall hall_request ''t'' ''m1'' ''um1'' ''c'' = Inr (l, s') \<and>
     loans s' = loans hall @ [l] \<and> ln_outstandingBalance l = 1000 \<and> money_untouched hall s' \<and>
     (\<exists>new. guarantors s' = guarantors hall @ new \<and> map lg_memberId new = [''m2'', ''m3''])"
proof -
  obtain l s' where run: "doMemberApply plain_env power_of 0 hall hall_request ''t'' ''m1'' ''um1'' ''c'' = Inr (l, s')"
    using hall_applied by blast
  from hall_outcome have view: "map (\<lambda>g. (lg_memberId g, lg_status g, lg_guaranteedAmount g)) (guarantors s') =
      [(''m2'', GuarantorStatus.PENDING, 500), (''m3'', GuarantorStatus.PENDING, 500)]"
    by (simp add: hall_view_def hall_run_def run)
  have m4: "m4 (ad_principalAmount hall_request)" and cover: "\<forall>p \<in> set (loanProducts hall).
      0 \<le> dp4 plain_env (dtimes plain_env (ad_principalAmount hall_request) (coverageRatioOf p)) \<and>
      dp4 plain_env (dtimes plain_env (ad_principalAmount hall_request) (coverageRatioOf p)) < 10 ^ 11" by code_simp+
  have "\<exists>new. loans s' = loans hall @ [l] \<and> ln_outstandingBalance l = 1000 \<and> money_untouched hall s' \<and>
      guarantors s' = guarantors hall @ new \<and> map lg_memberId new = [''m2'', ''m3'']"
    using application_sound [OF plain.decimal_runtime_axioms run hall_facts m4] cover by (auto simp: hall_request_def)
  then show ?thesis using run view by auto
qed

theorem batch_agrees_with_single_witness:
  "batchEligibility plain_env hall [(''m2'', 5000), (''m1'', 10), (''m3'', 690)] ''t'' ''m1'' BOSA =
   [(''m2'', Some ''Guarantor has no active BOSA account''), (''m1'', Some ''Member cannot guarantee their own loan''),
    (''m3'', Some ''Guarantor has no active BOSA account'')]"
  unfolding batch_agrees_with_single [OF plain.decimal_runtime_axioms hall_facts] by code_simp

section \<open>A repeated request\<close>

text \<open>
  C18. An application is made once per key. Let a first request with a key go through, with Redis reachable
  when it reserves the key and when it stores its result, and with no live entry for the key before. A second
  request of the same user for the same member and product with that key, that comes within a day of the
  end of the first and finds Redis reachable and the entry of the key as the first has left it, is
  answered with the first loan and changes nothing, whatever the database and the rest of the form, and
  whether or not Redis is reachable at its own end. (When Redis is unreachable at the end of the first,
  the second is refused as still in progress; when it is unreachable for the second, that one runs afresh.)
\<close>

theorem apply_key_once:
  assumes "memberApply E pow True now True nowEnd s st dto t m u corr (Some key) = (Inr (Some loan), s1, st1)"
    and "alive now st (buildKey (applyKey u m (ad_loanProductId dto) key) t) = None"
    and "nowEnd \<le> now2" "now2 < nowEnd + 24 * 60 * 60 * 1000"
    and "ad_loanProductId dto2 = ad_loanProductId dto"
    and "st2 (buildKey (applyKey u m (ad_loanProductId dto) key) t) = st1 (buildKey (applyKey u m (ad_loanProductId dto) key) t)"
  shows "memberApply E pow True now2 up2 nowEnd2 s2 st2 dto2 t m u corr2 (Some key) = (Inr (Some loan), s2, st2)"
proof -
  let ?k = "buildKey (applyKey u m (ad_loanProductId dto) key) t"
  have key: "trim key \<noteq> ''''" using assms(1) by (auto simp: memberApply_def)
  have new: "checkAndReserve True now now (applyKey u m (ad_loanProductId dto) key) t ttl st =
      (NEW, st(?k \<mapsto> (Processing, now + 1000 * int ttl)))" for ttl
    using assms(2) by (simp add: checkAndReserve_def redisSet_def Let_def)
  have "st2 ?k = Some (Completed (Some loan), nowEnd + 1000 * int (24 * 60 * 60))"
    unfolding assms(6) using assms(1) key by (auto simp: memberApply_def Let_def new complete_def redisSet_def split: sum.splits)
  then have "checkAndReserve True now2 now2 (applyKey u m (ad_loanProductId dto) key) t ttl st2 = (COMPLETED (Some loan), st2)" for ttl
    using assms(3,4) by (simp add: checkAndReserve_def redisSet_def redisGet_def alive_def Let_def)
  then show ?thesis using key by (simp add: memberApply_def assms(5))
qed

theorem apply_key_once_witness:
  "\<exists>l s1 st1. memberApply plain_env power_of True 0 True 9 hall Map.empty hall_request ''t'' ''m1'' ''um1'' ''c'' (Some ''k'') =
       (Inr (Some l), s1, st1) \<and>
     memberApply plain_env power_of True 60000 True 60001 s1 st1 hall_request ''t'' ''m1'' ''um1'' ''d'' (Some ''k'') =
       (Inr (Some l), s1, st1)"
proof -
  obtain l s' where run: "doMemberApply plain_env power_of 0 hall hall_request ''t'' ''m1'' ''um1'' ''c'' = Inr (l, s')"
    using hall_applied by blast
  have "trim ''k'' \<noteq> ''''" by code_simp
  then obtain st1 where 1: "memberApply plain_env power_of True 0 True 9 hall Map.empty hall_request ''t'' ''m1'' ''um1'' ''c'' (Some ''k'') =
      (Inr (Some l), s', st1)"
    by (auto simp: memberApply_def checkAndReserve_def redisSet_def alive_def Let_def run)
  from apply_key_once [OF 1, of 60000 hall_request st1] 1 show ?thesis by (auto simp: alive_def)
qed

section \<open>What goes wrong\<close>

text \<open>
  The transaction turns the violation of the index of open loans into an internal error before the public
  operation could see it: the conflict that it prepares for this case is never answered.
\<close>

theorem one_open_conflict_unreachable:
  assumes "doMemberApply E pow now s dto t m u corr = Inl e"
  shows "\<not> isOneOpenLoanConstraintViolation e"
proof -
  have "rethrown x \<noteq> UniqueConstraintViolation k" for x k by (cases x) auto
  then show ?thesis using assms
    by (auto simp: doMemberApply_def isOneOpenLoanConstraintViolation_def split: sum.splits)
qed

text \<open>
  A product without interest and with a reducing balance is allowed and has an instalment in the loans
  service, but no application for it succeeds.
\<close>

theorem interest_free_reducing_refused:
  assumes "0 < n"
  shows "applicationInstalment plain_env power_of P 0 n REDUCING_BALANCE = None \<and>
    calculateInstalment plain_env power_of P 0 n REDUCING_BALANCE = P / of_nat n"
  using assms by (simp add: applicationInstalment_def calculateInstalment_def power_of_def plain_env_def dplus_def
      dminus_def dtimes_def ddiv_def Let_def)

text \<open>Staff may decline for the guarantors, which rejects the loan and leaves every hold in place.\<close>

theorem staff_decline_keeps_holds:
  assumes "updateStatus E now s l LoanStatus.REJECTED_GUARANTOR_DECLINE reason t actor role corr = Inr s'"
  shows "accounts s' = accounts s \<and> guarantors s' = guarantors s \<and>
    (\<exists>x \<in> set (loans s'). ln_id x = l \<and> ln_status x = LoanStatus.REJECTED_GUARANTOR_DECLINE)"
proof -
  from assms obtain s1 where u: "updateLoan l (\<lambda>x. x\<lparr>ln_status := LoanStatus.REJECTED_GUARANTOR_DECLINE\<rparr>) s = Inr s1"
    and s': "s' = createAuditOnce t actor (''LOAN.STATUS.'' @ status_name LoanStatus.REJECTED_GUARANTOR_DECLINE) l corr s1"
    by (auto simp: updateStatus_def res_simps)
  have f: "accounts s' = accounts s1 \<and> guarantors s' = guarantors s1 \<and> loans s' = loans s1"
    unfolding s' createAuditOnce_def auditAtomic_def by (auto simp: ensure_def)
  obtain x where "x \<in> set (loans s)" "ln_id x = l" using u by (auto simp: updateLoan_Inr)
  moreover have r: "accounts s1 = accounts s" "guarantors s1 = guarantors s"
    "loans s1 = map (\<lambda>x. if ln_id x = l then x\<lparr>ln_status := LoanStatus.REJECTED_GUARANTOR_DECLINE\<rparr> else x) (loans s)"
    using u by (simp_all add: updateLoan_Inr)
  ultimately have "x\<lparr>ln_status := LoanStatus.REJECTED_GUARANTOR_DECLINE\<rparr> \<in> set (loans s1)"
    unfolding r(3) set_map by (intro image_eqI [of _ _ x]) simp_all
  then show ?thesis using f r(1,2) \<open>ln_id x = l\<close> by (intro conjI bexI) auto
qed

text \<open>A request that is written again over an accepted pledge opens it and keeps the savings frozen.\<close>

theorem reinvited_pledge_stays_frozen:
  assumes "upsertRequest E now s t l k amount = Inr s'" and "g \<in> set (guarantors s)"
    and "lg_loanId g = l" "lg_memberId g = k" "lg_status g = GuarantorStatus.ACCEPTED"
  shows "accounts s' = accounts s \<and> g\<lparr>lg_guaranteedAmount := dp4 E amount, lg_status := GuarantorStatus.PENDING,
    lg_invitedAt := now\<rparr> \<in> set (guarantors s')"
  using assms by (force simp: upsertRequest_def res_simps split: if_splits)

end
