(* ===== verification/Open_Loans.thy ===== *)
theory Open_Loans
  imports Application_Properties
begin

text \<open>
  One open loan of a member: the rule that \<open>src/src/modules/loans/loan-application.service.ts\<close> checks and that
  the index \<open>loan_one_open_per_member\<close> of the database states, as an invariant of the work on applications.

  \<open>application_run\<close> is a history of applications, requests to guarantors, statuses set by staff and
  reviews, in any order and of any users. A status leaves the open ones and never enters them again.
\<close>

section \<open>Statuses that stay open\<close>

definition one_open :: "db \<Rightarrow> bool" where
  "one_open s \<longleftrightarrow> distinct (map ln_id (loans s)) \<and>
     (\<forall>t m. length (filter (\<lambda>l. ln_tenantId l = t \<and> ln_memberId l = m \<and> ln_status l \<in> set OPEN_STATUSES) (loans s)) \<le> 1)"

definition still_open :: "loan \<Rightarrow> loan \<Rightarrow> bool" where
  "still_open l l' \<longleftrightarrow> ln_id l' = ln_id l \<and> ln_tenantId l' = ln_tenantId l \<and> ln_memberId l' = ln_memberId l \<and>
     (ln_status l' \<in> set OPEN_STATUSES \<longrightarrow> ln_status l \<in> set OPEN_STATUSES)"

definition closes_only :: "db \<Rightarrow> db \<Rightarrow> bool" where
  "closes_only s s' \<longleftrightarrow> list_all2 still_open (loans s) (loans s')"

lemma still_open_refl [simp]: "still_open l l"
  by (simp add: still_open_def)

lemma closes_only_same: "loans s' = loans s \<Longrightarrow> closes_only s s'"
  by (simp add: closes_only_def list_all2_refl)

lemma closes_only_trans: "closes_only s s' \<Longrightarrow> closes_only s' s'' \<Longrightarrow> closes_only s s''"
  unfolding closes_only_def by (rule list_all2_trans) (auto simp: still_open_def)

lemma still_open_count:
  "list_all2 still_open xs ys \<Longrightarrow>
   length (filter (\<lambda>l. ln_tenantId l = t \<and> ln_memberId l = m \<and> ln_status l \<in> set OPEN_STATUSES) ys) \<le>
   length (filter (\<lambda>l. ln_tenantId l = t \<and> ln_memberId l = m \<and> ln_status l \<in> set OPEN_STATUSES) xs)"
  by (induction rule: list_all2_induct) (auto simp: still_open_def)

lemma still_open_ids: "list_all2 still_open xs ys \<Longrightarrow> map ln_id ys = map ln_id xs"
  by (induction rule: list_all2_induct) (auto simp: still_open_def)

lemma closes_only_one_open: "closes_only s s' \<Longrightarrow> one_open s \<Longrightarrow> one_open s'"
proof -
  assume c: "closes_only s s'" and o: "one_open s"
  note r = c [unfolded closes_only_def]
  show ?thesis unfolding one_open_def
  proof (intro conjI allI)
    show "distinct (map ln_id (loans s'))" using o unfolding still_open_ids [OF r] by (simp add: one_open_def)
    fix t m
    show "length (filter (\<lambda>l. ln_tenantId l = t \<and> ln_memberId l = m \<and> ln_status l \<in> set OPEN_STATUSES) (loans s')) \<le> 1"
      by (rule order_trans [OF still_open_count [OF r]]) (use o in \<open>simp add: one_open_def\<close>)
  qed
qed

text \<open>A write of one loan that moves its status out of the open ones, or between them.\<close>

lemma closes_only_updateLoan:
  assumes "updateLoan k f s = Inr s'" and "distinct (map ln_id (loans s))" and "loanById s k t = Some l"
    and "still_open l (f l)"
  shows "closes_only s s'"
proof -
  note l = loanById_Some [OF assms(3)]
  have "still_open x (if ln_id x = k then f x else x)" if "x \<in> set (loans s)" for x
    using distinct_key_eq [OF assms(2) that l(1)] l(2) assms(4) by auto
  moreover have "loans s' = map (\<lambda>x. if ln_id x = k then f x else x) (loans s)"
    using assms(1) by (simp add: updateLoan_Inr)
  ultimately show ?thesis by (simp add: closes_only_def list_all2_map2 list.rel_refl_strong)
qed

section \<open>The operations\<close>

lemma approve_closes_only:
  assumes "approveLoan E s l t u = Inr (d, s')" and "distinct (map ln_id (loans s))"
  shows "closes_only s s'"
proof -
  from assms(1) obtain loan s1 s2 where l: "loanById s l t = Some loan" "ln_status loan \<in> set approvableStatuses"
    and u: "updateLoan l (\<lambda>x. x\<lparr>ln_status := LoanStatus.APPROVED\<rparr>) s = Inr s2"
    and s1: "s1 = writeAudit t u ''LOAN.APPROVE'' l s2" and s': "s' = (if d then initApprovalChain E s1 l t else s1)"
    by (auto simp: approveLoan_def approveTx_def Let_def res_simps)
  have "closes_only s s2"
    by (rule closes_only_updateLoan [OF u assms(2) l(1)]) (use l(2) in \<open>auto simp: still_open_def approvableStatuses_def OPEN_STATUSES_def\<close>)
  moreover have "loans s' = loans s2" by (simp add: s' s1 initApprovalChain_def writeAudit_def)
  ultimately show ?thesis using closes_only_trans closes_only_same by blast
qed

lemma reject_closes_only:
  assumes E: "decimal_runtime E" and run: "rejectLoan E now s l t u = Inr s'" and d: "distinct (map ln_id (loans s))"
  shows "closes_only s s'"
proof -
  from run obtain loan pdt s1 s2 where l: "loanById s l t = Some loan"
    and f: "foldM (rejectRelease E now t (resolveAccountType pdt)) s (heldGuarantors s t l) = Inr s1"
    and u: "updateLoan l (\<lambda>x. x\<lparr>ln_status := LoanStatus.REJECTED\<rparr>) s1 = Inr s2" and s': "s' = writeAudit t u ''LOAN.REJECT'' l s2"
    by (auto simp: rejectLoan_def res_simps)
  have h: "hold_step s s1" by (rule hold_step_foldM [OF f decimal_runtime.rejectRelease_hold [OF E]])
  have "closes_only s1 s2"
    by (rule closes_only_updateLoan [OF u, of t loan])
      (use d l in \<open>auto simp: hold_step_same [OF h] still_open_def OPEN_STATUSES_def\<close>)
  moreover have "loans s' = loans s2" "loans s1 = loans s" using hold_step_same(1) [OF h] by (simp_all add: s' writeAudit_def)
  ultimately show ?thesis using closes_only_trans closes_only_same by metis
qed

lemma disburse_closes_only:
  assumes run: "disburse E now s l t u False = Inr (r, s')" and d: "distinct (map ln_id (loans s))"
  shows "closes_only s s'"
proof -
  from run obtain loan where loan: "loanById s l t = Some loan" by (auto simp: disburse_def res_simps)
  show ?thesis
  proof (cases "ln_status loan = LoanStatus.ACTIVE")
    case True
    then have "s' = s" using run loan by (auto simp: disburse_def replayedDisbursal_def Let_def res_simps)
    then show ?thesis by (simp add: closes_only_same)
  next
    case False
    with run loan obtain k where "disburseTx E now s l t u k = Inr (r, s')" by (auto simp: disburse_def res_simps)
    then show ?thesis
    proof (rule disburseTx_steps)
      fix loan' pdt e s1 lastTxn s2 s3 s4
      assume l: "loanById s l t = Some loan'" "ln_status loan' = LoanStatus.APPROVED"
        and p: "postEntry E True s (principalEntry t l k u (ln_principalAmount loan')) = Inr ((dr_transaction r, e), s1)"
        and c: "chargeFee E t l k u (ln_processingFee loan') (dr_transaction r) s1 = Inr (lastTxn, s2)"
        and up: "updateLoan l (\<lambda>x. x\<lparr>ln_status := LoanStatus.ACTIVE, ln_disbursedAt := Some now,
           ln_dueDate := dr_dueDate r, ln_repaymentScheduleGenerated := True\<rparr>) s2 = Inr s3"
        and sc: "schedule_only s3 s4" and s': "s' = writeAudit t u ''LOAN.DISBURSE'' l s4"
      have "loans s1 = loans s" using ledger_only_postEntry [OF p] by (simp add: ledger_only_def)
      moreover have "loans s2 = loans s1" using c
        by (auto simp: chargeFee_def res_simps ledger_only_def dest!: ledger_only_postEntry split: if_splits)
      ultimately have same: "loans s2 = loans s" by simp
      have "closes_only s2 s3"
        by (rule closes_only_updateLoan [OF up, of t loan'])
          (use d l in \<open>auto simp: same loanById_def still_open_def OPEN_STATUSES_def\<close>)
      moreover have "loans s' = loans s3" using schedule_only_simps(2) [OF sc] by (simp add: s' writeAudit_def)
      ultimately show ?thesis using same closes_only_trans closes_only_same by metis
    qed
  qed
qed

lemma review_closes_only:
  assumes "decimal_runtime E" and "executeReview E now s l action t u = Inr (r, s')" and "distinct (map ln_id (loans s))"
  shows "closes_only s s'"
  using assms reject_closes_only [OF assms(1)] approve_closes_only disburse_closes_only
  by (cases action) (auto simp: executeReview_def res_simps)

lemma workflow_open: "st' \<in> set (workflowTransitions st) \<Longrightarrow> st \<in> set OPEN_STATUSES"
  by (cases st) (auto simp: OPEN_STATUSES_def)

lemma loans_createAuditOnce [simp]: "loans (createAuditOnce t u a k c s) = loans s"
  by (auto simp: createAuditOnce_def auditAtomic_def ensure_def)

lemma updateStatus_closes_only:
  assumes E: "decimal_runtime E" and run: "updateStatus E now s l st reason t u role c = Inr s'" and d: "distinct (map ln_id (loans s))"
  shows "closes_only s s'"
proof -
  from run obtain loan where loan: "loanById s l t = Some loan" by (auto simp: updateStatus_def res_simps)
  consider (a) x where "approveLoan E s l t u = Inr (x, s')" | (r) "rejectLoan E now s l t u = Inr s'"
    | (w) s1 where "st \<in> set (workflowTransitions (ln_status loan))" "updateLoan l (\<lambda>x. x\<lparr>ln_status := st\<rparr>) s = Inr s1"
        "loans s' = loans s1"
    using run loan by (auto simp: updateStatus_def res_simps split: if_splits)
  then show ?thesis
  proof cases
    case w
    have "closes_only s s1"
      by (rule closes_only_updateLoan [OF w(2) d loan]) (use workflow_open [OF w(1)] in \<open>auto simp: still_open_def\<close>)
    then show ?thesis using w(3) closes_only_trans closes_only_same by blast
  qed (use approve_closes_only reject_closes_only [OF E] d in blast)+
qed

lemma upsertRequest_loans: "upsertRequest E now s t l k x = Inr s' \<Longrightarrow> loans s' = loans s"
  by (auto simp: upsertRequest_def createGuarantor_def Let_def res_simps split: if_splits)

lemma inviteEach_loans: "inviteEach E now s loan t ty gs = (r, s') \<Longrightarrow> loans s' = loans s"
proof (induction gs arbitrary: s r s')
  case (Cons g rest)
  obtain k amount where g: "g = (k, amount)" by (cases g)
  show ?case
  proof (cases "validateGuarantorEligibility E s k t amount (ln_memberId loan) ty")
    case None
    show ?thesis
    proof (cases "upsertRequest E now s t (ln_id loan) k amount")
      case (Inr s1)
      obtain r1 s2 where i: "inviteEach E now s1 loan t ty rest = (r1, s2)" by fastforce
      have "s' = s2" using Cons.prems None Inr i by (auto simp: g andThen_def split: sum.splits)
      then show ?thesis using Cons.IH [OF i] upsertRequest_loans [OF Inr] by simp
    qed (use Cons.prems None in \<open>auto simp: g\<close>)
  next
    case (Some reason)
    obtain r1 s2 where i: "inviteEach E now s loan t ty rest = (r1, s2)" by fastforce
    have "s' = s2" using Cons.prems Some i by (auto simp: g andThen_def split: sum.splits)
    then show ?thesis using Cons.IH [OF i] by simp
  qed
qed simp

lemma invite_closes_only:
  assumes run: "inviteGuarantors E now s l gs t u = (r, s')" and d: "distinct (map ln_id (loans s))"
  shows "closes_only s s'"
proof (cases "fst (inviteGuarantors E now s l gs t u) = r \<and> loans s' = loans s")
  case True
  then show ?thesis by (simp add: closes_only_same)
next
  case False
  with run obtain loan pdt rs s1 s2 where loan: "loanById s l t = Some loan"
    "ln_status loan = LoanStatus.DRAFT \<or> ln_status loan = LoanStatus.PENDING_GUARANTORS"
    and i: "inviteEach E now s loan t (resolveAccountType pdt) gs = (Inr rs, s1)"
    and u: "updateLoan l (\<lambda>l. l\<lparr>ln_status := LoanStatus.PENDING_GUARANTORS\<rparr>) s1 = Inr s2" and s': "loans s' = loans s2"
    by (auto simp: inviteGuarantors_def andThen_def res_simps writeAudit_def Let_def
        dest: inviteEach_loans split: sum.splits prod.splits)
  have same: "loans s1 = loans s" by (rule inviteEach_loans [OF i])
  have "closes_only s1 s2"
    by (rule closes_only_updateLoan [OF u, of t loan])
      (use d loan in \<open>auto simp: same loanById_def still_open_def OPEN_STATUSES_def\<close>)
  then show ?thesis using same s' closes_only_trans closes_only_same by metis
qed

lemma request_closes_only:
  assumes run: "requestGuarantors E now s l noms ids m u t = (r, s')" and d: "distinct (map ln_id (loans s))"
  shows "closes_only s s'"
  using run invite_closes_only [OF _ d] closes_only_same [of s s]
  by (auto simp: requestGuarantors_def Let_def split: sum.splits)

lemma openLoanOf_None:
  "openLoanOf s m t = None \<longleftrightarrow>
     filter (\<lambda>l. ln_tenantId l = t \<and> ln_memberId l = m \<and> ln_status l \<in> set OPEN_STATUSES) (loans s) = []"
  by (auto simp: openLoanOf_def findFirst_None filter_empty_conv)

lemma apply_one_open:
  assumes run: "doMemberApply E pow now s dto t m u corr = Inr (loan, s')" and o: "one_open s"
  shows "one_open s'"
proof -
  from run have tx: "applyTx E pow now s dto t m u corr = Inr (loan, s')"
    by (auto simp: doMemberApply_def split: sum.splits)
  show ?thesis
  proof (rule applyTx_effect [OF tx])
    assume chk: "applicantChecks s m t = Inr ()" and l: "loans s' = loans s @ [loan]" "ln_id loan \<notin> ln_id ` set (loans s)"
      and k: "ln_memberId loan = m" "ln_tenantId loan = t"
    have none: "filter (\<lambda>l. ln_tenantId l = t \<and> ln_memberId l = m \<and> ln_status l \<in> set OPEN_STATUSES) (loans s) = []"
      using chk by (auto simp: applicantChecks_def res_simps openLoanOf_None)
    have "length (filter (\<lambda>l. ln_tenantId l = t' \<and> ln_memberId l = m' \<and> ln_status l \<in> set OPEN_STATUSES) (loans s')) \<le> 1" for t' m'
    proof (cases "t' = t \<and> m' = m")
      case True
      then show ?thesis using none by (simp add: l(1))
    next
      case False
      then show ?thesis using o k by (auto simp: l(1) one_open_def)
    qed
    then show ?thesis using o l by (simp add: one_open_def)
  qed
qed

section \<open>Property\<close>

inductive application_run :: "env \<Rightarrow> db \<Rightarrow> db \<Rightarrow> bool" for E s where
  begin_run: "application_run E s s"
| applied: "application_run E s s1 \<Longrightarrow> doMemberApply E pow now s1 dto t m u corr = Inr (loan, s2) \<Longrightarrow> application_run E s s2"
| requested: "application_run E s s1 \<Longrightarrow> requestGuarantors E now s1 l noms ids m u t = (r, s2) \<Longrightarrow> application_run E s s2"
| status_set: "application_run E s s1 \<Longrightarrow> updateStatus E now s1 l st reason t u role corr = Inr s2 \<Longrightarrow> application_run E s s2"
| reviewed: "application_run E s s1 \<Longrightarrow> executeReview E now s1 l action t u = Inr (res, s2) \<Longrightarrow> application_run E s s2"

text \<open>
  C15. A member never has two open loans: whatever applications, requests to guarantors, statuses set by
  staff, approvals, rejections and disbursements follow each other from a database where no member of
  a tenant has more than one, no member has more than one afterwards, and loans keep different
  identifiers.
\<close>

theorem one_open_loan:
  assumes "decimal_runtime E" and "application_run E s s'" and "one_open s"
  shows "one_open s'"
  using assms(2,3)
proof (induction rule: application_run.induct)
  case (applied s1 pow now dto t m u corr loan s2)
  then show ?case using apply_one_open by blast
next
  case (requested s1 now l noms ids m u t r s2)
  then have "one_open s1" "distinct (map ln_id (loans s1))" by (simp_all add: one_open_def)
  then show ?case using closes_only_one_open request_closes_only requested.hyps(2) by blast
next
  case (status_set s1 now l st reason t u role corr s2)
  then have "one_open s1" "distinct (map ln_id (loans s1))" by (simp_all add: one_open_def)
  then show ?case using closes_only_one_open updateStatus_closes_only [OF assms(1)] status_set.hyps(2) by blast
next
  case (reviewed s1 now l action t u res s2)
  then have "one_open s1" "distinct (map ln_id (loans s1))" by (simp_all add: one_open_def)
  then show ?case using closes_only_one_open review_closes_only [OF assms(1)] reviewed.hyps(2) by blast
qed

theorem one_open_loan_witness:
  "\<exists>s l. application_run plain_env hall s \<and> loans s = [l] \<and> one_open s"
proof -
  obtain l s where run: "doMemberApply plain_env power_of 0 hall hall_request ''t'' ''m1'' ''um1'' ''c'' = Inr (l, s)"
    using hall_applied by blast
  have "application_run plain_env hall s" by (rule application_run.applied [OF application_run.begin_run run])
  moreover have o: "one_open hall" by (simp add: one_open_def hall_def empty_db_def)
  moreover have tx: "applyTx plain_env power_of 0 hall hall_request ''t'' ''m1'' ''um1'' ''c'' = Inr (l, s)"
    using run by (auto simp: doMemberApply_def split: sum.splits)
  have "loans s = loans hall @ [l]" by (rule applyTx_effect [OF tx])
  then have "loans s = [l]" by (simp add: hall_def empty_db_def)
  ultimately show ?thesis using one_open_loan [OF plain.decimal_runtime_axioms _ o] by blast
qed

end
