(* ===== verification/Json_Text.thy ===== *)
theory Json_Text
  imports Loan_Closing "HOL-Library.Char_ord" "HOL-Library.List_Lexorder"
    "HOL-Library.Multiset"
begin

text \<open>
  JSON values and the two texts the code writes of them: JSON.stringify, which keeps the order of
  an object's keys, and canonicalJson of src/src/modules/audit/audit.chain.service.ts, which sorts
  them. A value is what arrives through the job queue or is read back from a jsonb column, so it
  holds no undefined and no Date. A number is kept as the numeral JavaScript prints for it. Strings
  are lists of characters up to U+00FF.

  The lemmas show that the text of a value is a prefix code: it can be read back in exactly one way
  wherever a comma, a closing bracket, a bar or the end of the text follows it. Two values have the
  same canonical text only when they differ in nothing but the order of their keys.
\<close>

section \<open>Values and their texts\<close>

datatype json =
    JNull
  | JBool bool
  | JNum string
  | JStr string
  | JArr "json list"
  | JObj "(string \<times> json) list"

definition hexDigit :: "nat \<Rightarrow> char" where
  "hexDigit n = (if n < 10 then char_of (48 + n) else char_of (87 + n))"

definition escapeChar :: "char \<Rightarrow> string" where
  "escapeChar c =
     (if c = CHR 0x22 \<or> c = CHR 0x5C then [CHR 0x5C, c]
      else if c = CHR 0x08 then CHR 0x5C # ''b''
      else if c = CHR 0x09 then CHR 0x5C # ''t''
      else if c = CHR 0x0A then CHR 0x5C # ''n''
      else if c = CHR 0x0C then CHR 0x5C # ''f''
      else if c = CHR 0x0D then CHR 0x5C # ''r''
      else if of_char c < (32 :: nat) then
        CHR 0x5C # ''u00'' @ [hexDigit (of_char c div 16), hexDigit (of_char c mod 16)]
      else [c])"

definition jsonString :: "string \<Rightarrow> string" where
  "jsonString s = CHR 0x22 # concat (map escapeChar s) @ [CHR 0x22]"

definition jsonMember :: "string \<times> string \<Rightarrow> string" where
  "jsonMember kt = jsonString (fst kt) @ '':'' @ snd kt"

primrec stringify :: "json \<Rightarrow> string" where
  "stringify JNull = ''null''"
| "stringify (JBool b) = (if b then ''true'' else ''false'')"
| "stringify (JNum t) = t"
| "stringify (JStr s) = jsonString s"
| "stringify (JArr vs) = ''['' @ join '','' (map stringify vs) @ '']''"
| "stringify (JObj kvs) = ''{'' @ join '','' (map jsonMember (map (map_prod id stringify) kvs)) @ ''}''"

primrec canonicalJson :: "json \<Rightarrow> string" where
  "canonicalJson JNull = ''null''"
| "canonicalJson (JBool b) = stringify (JBool b)"
| "canonicalJson (JNum t) = stringify (JNum t)"
| "canonicalJson (JStr s) = stringify (JStr s)"
| "canonicalJson (JArr vs) = ''['' @ join '','' (map canonicalJson vs) @ '']''"
| "canonicalJson (JObj kvs) =
     ''{'' @ join '','' (map jsonMember (sort_key fst (map (map_prod id canonicalJson) kvs))) @ ''}''"

text \<open>
  An object's keys are distinct, a numeral is made of the characters JavaScript prints numbers with,
  and the order of keys is the only thing that \<^term>\<open>ordered\<close> forgets.
\<close>

definition numeral_text :: "string \<Rightarrow> bool" where
  "numeral_text t \<longleftrightarrow> t \<noteq> [] \<and> set t \<subseteq> set ''0123456789-+.e''"

primrec wf_json :: "json \<Rightarrow> bool" where
  "wf_json JNull = True"
| "wf_json (JBool b) = True"
| "wf_json (JNum t) = numeral_text t"
| "wf_json (JStr s) = True"
| "wf_json (JArr vs) = list_all id (map wf_json vs)"
| "wf_json (JObj kvs) = (distinct (map fst kvs) \<and> list_all snd (map (map_prod id wf_json) kvs))"

primrec ordered :: "json \<Rightarrow> json" where
  "ordered JNull = JNull"
| "ordered (JBool b) = JBool b"
| "ordered (JNum t) = JNum t"
| "ordered (JStr s) = JStr s"
| "ordered (JArr vs) = JArr (map ordered vs)"
| "ordered (JObj kvs) = JObj (sort_key fst (map (map_prod id ordered) kvs))"

lemma sort_key_map_fst: "sort_key fst (map (map_prod id f) kvs) = map (map_prod id f) (sort_key fst kvs)"
proof (induction kvs)
  case (Cons kv kvs)
  have "insort_key fst (map_prod id f kv) (map (map_prod id f) ls) = map (map_prod id f) (insort_key fst kv ls)" for ls
    by (induction ls) simp_all
  with Cons show ?case by (simp only: list.map sort_key_simps)
qed simp

lemma distinct_keys_sorted: "distinct (map fst (sort_key fst kvs)) \<longleftrightarrow> distinct (map fst kvs)"
  by (rule mset_eq_imp_distinct_iff) simp

section \<open>Strings are a prefix code\<close>

definition unhex :: "char \<Rightarrow> nat" where
  "unhex d = (if of_char d < (58 :: nat) then of_char d - 48 else of_char d - 87)"

definition unletter :: "char \<Rightarrow> char" where
  "unletter k =
     (if k = CHR ''b'' then CHR 0x08 else if k = CHR ''t'' then CHR 0x09 else if k = CHR ''n'' then CHR 0x0A
      else if k = CHR ''f'' then CHR 0x0C else if k = CHR ''r'' then CHR 0x0D else k)"

fun unescape :: "string \<Rightarrow> char \<times> string" where
  "unescape [] = (CHR 0x00, [])"
| "unescape (c # r) =
     (if c \<noteq> CHR 0x5C then (c, r)
      else case r of
          [] \<Rightarrow> (c, r)
        | k # r' \<Rightarrow>
            (if k = CHR ''u'' then (char_of (16 * unhex (r' ! 2) + unhex (r' ! 3)), drop 4 r')
             else (unletter k, r')))"

lemma unhex_hexDigit: "n < 16 \<Longrightarrow> unhex (hexDigit n) = n"
  by (simp add: unhex_def hexDigit_def)

lemma unescape_escapeChar: "unescape (escapeChar c @ r) = (c, r)"
proof (cases "escapeChar c = CHR 0x5C # ''u00'' @ [hexDigit (of_char c div 16), hexDigit (of_char c mod 16)]")
  case True
  have "of_char c div 16 < (16 :: nat)" using nat_of_char_less_256 [of c] by linarith
  then show ?thesis unfolding True by (simp add: unhex_hexDigit)
next
  case False
  then show ?thesis
    by (auto simp: escapeChar_def unletter_def)
qed


lemma escaped_injective:
  assumes "concat (map escapeChar s) @ CHR 0x22 # r = concat (map escapeChar s') @ CHR 0x22 # r'"
  shows "s = s' \<and> r = r'"
  using assms
proof (induction s arbitrary: s')
  case Nil
  show ?case
  proof (cases s')
    case (Cons d t)
    have "hd (escapeChar d) \<noteq> CHR 0x22" "escapeChar d \<noteq> []" by (simp_all add: escapeChar_def)
    then show ?thesis using Nil Cons by (cases "escapeChar d") auto
  qed (use Nil in simp)
next
  case (Cons c t)
  show ?case
  proof (cases s')
    case Nil
    have "hd (escapeChar c) \<noteq> CHR 0x22" "escapeChar c \<noteq> []" by (simp_all add: escapeChar_def)
    then show ?thesis using Nil Cons.prems by (cases "escapeChar c") auto
  next
    case (Cons d t')
    have "unescape (escapeChar c @ concat (map escapeChar t) @ CHR 0x22 # r) =
        unescape (escapeChar d @ concat (map escapeChar t') @ CHR 0x22 # r')"
      using Cons.prems Cons by simp
    then have "c = d" "concat (map escapeChar t) @ CHR 0x22 # r = concat (map escapeChar t') @ CHR 0x22 # r'"
      by (simp_all only: unescape_escapeChar prod.inject)
    then show ?thesis using Cons.IH Cons by blast
  qed
qed

lemma jsonString_injective: "jsonString s @ r = jsonString s' @ r' \<Longrightarrow> s = s' \<and> r = r'"
  using escaped_injective [of s r s' r'] by (simp add: jsonString_def)

section \<open>The text of a value is a prefix code\<close>

definition closes :: "string \<Rightarrow> bool" where
  "closes r \<longleftrightarrow> (r = [] \<or> hd r \<in> set '',]}|'')"

definition decodes :: "('a \<Rightarrow> string) \<Rightarrow> ('a \<Rightarrow> bool) \<Rightarrow> 'a \<Rightarrow> bool" where
  "decodes f good x \<longleftrightarrow>
     (\<forall>y r r'. good y \<longrightarrow> closes r \<longrightarrow> closes r' \<longrightarrow> f x @ r = f y @ r' \<longrightarrow> x = y \<and> r = r')"

lemma decodesD: "decodes f good x \<Longrightarrow> good y \<Longrightarrow> closes r \<Longrightarrow> closes r' \<Longrightarrow> f x @ r = f y @ r' \<Longrightarrow> x = y \<and> r = r'"
  unfolding decodes_def by blast

lemma join_Cons: "join sep (x # xs) = x @ concat (map ((@) sep) xs)"
  by (induction xs arbitrary: x) auto

lemma tail_decodes:
  assumes "\<forall>x \<in> set xs. decodes f good x" "\<forall>y \<in> set ys. good y" and cl: "k \<in> set '']}''"
    and "concat (map (\<lambda>x. '','' @ f x) xs) @ k # r = concat (map (\<lambda>x. '','' @ f x) ys) @ k # r'"
  shows "xs = ys \<and> r = r'"
  using assms(1,2,4)
proof (induction xs arbitrary: ys)
  case Nil
  then show ?case using cl by (cases ys) auto
next
  case (Cons x xs)
  show ?case
  proof (cases ys)
    case Nil
    then show ?thesis using Cons.prems cl by auto
  next
    case (Cons y zs)
    have c: "closes (concat (map (\<lambda>x. '','' @ f x) vs) @ k # q)" for vs q
      using cl by (cases vs) (auto simp: closes_def)
    have "f x @ concat (map (\<lambda>x. '','' @ f x) xs) @ k # r = f y @ concat (map (\<lambda>x. '','' @ f x) zs) @ k # r'"
      using Cons.prems Cons by simp
    then have "x = y \<and> concat (map (\<lambda>x. '','' @ f x) xs) @ k # r = concat (map (\<lambda>x. '','' @ f x) zs) @ k # r'"
      using Cons.prems Cons c by (intro decodesD [of f good x]) auto
    then show ?thesis using Cons.IH [of zs] Cons.prems Cons by auto
  qed
qed

lemma join_decodes:
  assumes "\<forall>x \<in> set xs. decodes f good x" "\<forall>y \<in> set ys. good y" and cl: "k \<in> set '']}''"
    and heads: "\<forall>x \<in> set xs \<union> set ys. f x \<noteq> [] \<and> hd (f x) \<notin> set '']}''"
    and eq: "join '','' (map f xs) @ k # r = join '','' (map f ys) @ k # r'"
  shows "xs = ys \<and> r = r'"
proof (cases xs)
  case Nil
  then show ?thesis
    using eq heads cl by (cases ys; cases "f (hd ys)") (auto simp: join_Cons)
next
  case (Cons x xs')
  show ?thesis
  proof (cases ys)
    case Nil
    then show ?thesis using eq heads cl Cons by (cases "f x") (auto simp: join_Cons)
  next
    case (Cons y ys')
    have "concat (map (\<lambda>x. '','' @ f x) (x # xs')) @ k # r = concat (map (\<lambda>x. '','' @ f x) (y # ys')) @ k # r'"
      using eq \<open>xs = x # xs'\<close> Cons by (simp add: join_Cons comp_def)
    from tail_decodes [OF _ _ cl this, of good] assms(1,2) show ?thesis using \<open>xs = x # xs'\<close> Cons by simp
  qed
qed

lemma numeral_head: "numeral_text t \<Longrightarrow> t \<noteq> [] \<and> hd t \<in> set ''0123456789-+.e''"
  unfolding numeral_text_def using hd_in_set by blast

lemma stringify_head:
  "wf_json x \<Longrightarrow> stringify x \<noteq> [] \<and> hd (stringify x) \<notin> set '',]}|:''"
  using numeral_head [of "stringify x"] by (cases x) (auto simp: jsonString_def)

lemma numeral_decodes:
  assumes "set t \<subseteq> A" "set t' \<subseteq> A" "r = [] \<or> hd r \<notin> A" "r' = [] \<or> hd r' \<notin> A" "t @ r = t' @ r'"
  shows "t = t' \<and> r = r'"
proof -
  have "takeWhile (\<lambda>c. c \<in> A) (u @ q) = u" if "set u \<subseteq> A" "q = [] \<or> hd q \<notin> A" for u q
    using that by (cases q) (auto simp: takeWhile_append2 subset_eq takeWhile_tail)
  then have "t = t'" using assms by metis
  then show ?thesis using assms(5) by simp
qed

definition wf_member :: "string \<times> json \<Rightarrow> bool" where "wf_member kv \<longleftrightarrow> wf_json (snd kv)"

lemma wf_json_members: "wf_json (JObj kvs) \<longleftrightarrow> distinct (map fst kvs) \<and> (\<forall>kv \<in> set kvs. wf_member kv)"
  by (auto simp: list_all_iff wf_member_def)

lemma wf_json_items: "wf_json (JArr vs) \<longleftrightarrow> (\<forall>v \<in> set vs. wf_json v)"
  by (auto simp: list_all_iff)

declare wf_json.simps(5,6) [simp del]

lemma member_decodes:
  assumes "decodes stringify wf_json (snd kv)"
  shows "decodes (\<lambda>kv. jsonMember (map_prod id stringify kv)) wf_member kv"
  unfolding decodes_def
proof (intro allI impI)
  fix kv' r r'
  assume w: "wf_member kv'" "closes r" "closes r'"
    and eq: "jsonMember (map_prod id stringify kv) @ r = jsonMember (map_prod id stringify kv') @ r'"
  from eq have "jsonString (fst kv) @ '':'' @ stringify (snd kv) @ r = jsonString (fst kv') @ '':'' @ stringify (snd kv') @ r'"
    by (simp add: jsonMember_def)
  from jsonString_injective [OF this] have "fst kv = fst kv'" "stringify (snd kv) @ r = stringify (snd kv') @ r'" by auto
  with decodesD [OF assms _ w(2,3)] w(1) show "kv = kv' \<and> r = r'" by (simp add: wf_member_def prod_eq_iff)
qed

lemma decodesI:
  "(\<And>y r r'. wf_json y \<Longrightarrow> closes r \<Longrightarrow> closes r' \<Longrightarrow> stringify x @ r = stringify y @ r' \<Longrightarrow> x = y \<and> r = r') \<Longrightarrow>
   decodes stringify wf_json x"
  unfolding decodes_def by blast

lemma constant_decodes: "x = JNull \<or> x = JBool b \<Longrightarrow> decodes stringify wf_json x"
proof (rule decodesI)
  fix y r r' assume "x = JNull \<or> x = JBool b" "wf_json y" "closes r" "closes r'" "stringify x @ r = stringify y @ r'"
  then show "x = y \<and> r = r'"
    using numeral_head [of "stringify y"]
    by (cases y; cases "stringify y") (auto simp: jsonString_def split: if_splits)
qed

lemma number_decodes:
  assumes t: "numeral_text t"
  shows "decodes stringify wf_json (JNum t)"
proof (rule decodesI)
  fix y r r' assume y: "wf_json y" "closes r" "closes r'" "stringify (JNum t) @ r = stringify y @ r'"
  show "JNum t = y \<and> r = r'"
  proof (cases y)
    case (JNum t')
    with numeral_decodes [of t "set ''0123456789-+.e''" t' r r'] y t show ?thesis
      by (auto simp: closes_def numeral_text_def)
  qed (use y t in \<open>cases t; auto simp: numeral_text_def jsonString_def split: if_splits\<close>)+
qed

lemma text_decodes: "decodes stringify wf_json (JStr s)"
proof (rule decodesI)
  fix y r r' assume y: "wf_json y" "closes r" "closes r'" "stringify (JStr s) @ r = stringify y @ r'"
  show "JStr s = y \<and> r = r'"
  proof (cases y)
    case (JStr s')
    then show ?thesis using jsonString_injective [of s r s' r'] y by simp
  next
    case (JNum t)
    then show ?thesis using y by (cases t) (auto simp: numeral_text_def jsonString_def)
  qed (use y in \<open>auto simp: jsonString_def split: if_splits\<close>)
qed

lemma array_decodes:
  assumes vs: "\<forall>v \<in> set vs. decodes stringify wf_json v" "\<forall>v \<in> set vs. wf_json v"
  shows "decodes stringify wf_json (JArr vs)"
proof (rule decodesI)
  fix y r r' assume y: "wf_json y" "closes r" "closes r'" "stringify (JArr vs) @ r = stringify y @ r'"
  show "JArr vs = y \<and> r = r'"
  proof (cases y)
    case (JArr us)
    have "vs = us \<and> r = r'"
    proof (rule join_decodes [of vs stringify wf_json us "CHR '']''"])
      show "\<forall>v \<in> set us. wf_json v" using y JArr by (simp add: wf_json_items)
      then show "\<forall>v \<in> set vs \<union> set us. stringify v \<noteq> [] \<and> hd (stringify v) \<notin> set '']}''"
        using stringify_head vs by auto
    qed (use vs y JArr in auto)
    then show ?thesis using JArr by simp
  next
    case (JNum t)
    then show ?thesis using y by (cases t) (auto simp: numeral_text_def)
  qed (use y in \<open>auto simp: jsonString_def split: if_splits\<close>)
qed

lemma object_decodes:
  assumes kvs: "\<forall>kv \<in> set kvs. decodes stringify wf_json (snd kv)"
  shows "decodes stringify wf_json (JObj kvs)"
proof (rule decodesI)
  fix y r r' assume y: "wf_json y" "closes r" "closes r'" "stringify (JObj kvs) @ r = stringify y @ r'"
  show "JObj kvs = y \<and> r = r'"
  proof (cases y)
    case (JObj us)
    have "kvs = us \<and> r = r'"
    proof (rule join_decodes [of kvs "\<lambda>kv. jsonMember (map_prod id stringify kv)" wf_member us "CHR ''}''"])
      show "\<forall>kv \<in> set kvs. decodes (\<lambda>kv. jsonMember (map_prod id stringify kv)) wf_member kv"
        using kvs member_decodes by blast
      show "\<forall>kv \<in> set us. wf_member kv" using y JObj by (simp add: wf_json_members)
    qed (use y JObj in \<open>auto simp: comp_def jsonMember_def jsonString_def\<close>)
    then show ?thesis using JObj by simp
  next
    case (JNum t)
    then show ?thesis using y by (cases t) (auto simp: numeral_text_def)
  qed (use y in \<open>auto simp: jsonString_def split: if_splits\<close>)
qed

lemma stringify_decodes: "wf_json x \<Longrightarrow> decodes stringify wf_json x"
proof (induction x)
  case (JArr vs)
  then show ?case by (intro array_decodes) (auto simp: wf_json_items)
next
  case (JObj kvs)
  have "decodes stringify wf_json (snd kv)" if "kv \<in> set kvs" for kv
    using JObj.IH [of kv "snd kv"] JObj.prems that by (simp add: wf_json_members wf_member_def snds.simps)
  then show ?case by (intro object_decodes) blast
qed (simp_all add: constant_decodes number_decodes text_decodes)

section \<open>The canonical text\<close>

lemma canonicalJson_ordered: "canonicalJson x = stringify (ordered x)"
proof (induction x)
  case (JArr vs)
  then have "map canonicalJson vs = map (stringify \<circ> ordered) vs" by simp
  then show ?case by (simp only: canonicalJson.simps ordered.simps stringify.simps map_map)
next
  case (JObj kvs)
  have kv: "map_prod id canonicalJson kv = map_prod id stringify (map_prod id ordered kv)" if "kv \<in> set kvs" for kv
    using JObj.IH [OF that, of "snd kv"] by (cases kv) (simp add: snds.simps)
  have "sort_key fst (map (map_prod id canonicalJson) kvs) =
      sort_key fst (map (map_prod id stringify) (map (map_prod id ordered) kvs))"
    using kv by (simp add: comp_def cong: map_cong)
  also have "\<dots> = map (map_prod id stringify) (sort_key fst (map (map_prod id ordered) kvs))"
    by (rule sort_key_map_fst)
  finally show ?case by simp
qed simp_all

lemma wf_ordered: "wf_json x \<Longrightarrow> wf_json (ordered x)"
proof (induction x)
  case (JArr vs)
  then show ?case by (auto simp: wf_json_items)
next
  case (JObj kvs)
  have "wf_member (map_prod id ordered kv)" if "kv \<in> set kvs" for kv
    using JObj.IH [OF that, of "snd kv"] JObj.prems that by (cases kv) (auto simp: wf_json_members wf_member_def snds.simps)
  then show ?case using JObj.prems by (auto simp: wf_json_members distinct_keys_sorted)
qed simp_all

text \<open>The canonical text of a value followed by a bar can be read in one way only, up to the order of keys.\<close>

lemma canonicalJson_injective:
  assumes "wf_json x" "wf_json y" "canonicalJson x @ CHR ''|'' # r = canonicalJson y @ CHR ''|'' # r'"
  shows "ordered x = ordered y \<and> r = r'"
  using decodesD [OF stringify_decodes [OF wf_ordered [OF assms(1)]] wf_ordered [OF assms(2)], of "CHR ''|'' # r" "CHR ''|'' # r'"]
    assms(3) by (simp add: canonicalJson_ordered closes_def)

end
