(* ===== verification/Audit_Chain.thy ===== *)
theory Audit_Chain
  imports Json_Text
begin

text \<open>
  The chain of audit events of src/src/modules/audit/audit.chain.service.ts (AuditChainService):
  persistEvent appends an event to the chain of its tenant, verifyTenantChain walks the chain. The
  tables AuditEvent and AuditChainHead are the store; a row is an event's fields with its place in
  the chain. SHA-256 and HMAC-SHA-256 are the parameter \<^term>\<open>crypto\<close>; that a digest is 64 characters
  without a bar, and that no two of the texts hashed collide, are hypotheses.

  The lemmas show that what persistEvent writes is what verifyTenantChain accepts, as long as the
  events of a tenant are persisted in the order in which the walk reads them, by timestamp and then by
  identifier, and that two accepted chains with the same last hash record the same events.

  The database refuses two kinds of rows that the model stores: those of a tenant that does not exist
  (the foreign key of tenantId) and those with a NUL character in a text (jsonb and text). Their jobs fail in
  the code and write nothing. Identifiers compare as lists of characters, which is their order in the
  database as long as they are the lower-case uuids that the code generates.
\<close>

section \<open>Events and their store\<close>

record audit_fields =
  av_correlationId :: string
  av_tenantId :: ident
  av_userId :: "string option"
  av_role :: "string option"
  av_action :: string
  av_resourceType :: "string option"
  av_resourceId :: "string option"
  av_oldState :: json
  av_newState :: json
  av_metadata :: json
  av_ip :: "string option"
  av_userAgent :: "string option"
  av_endpoint :: "string option"
  av_method :: "string option"
  av_statusCode :: int
  av_success :: bool
  av_errorCode :: "string option"

record audit_payload = audit_fields +
  pl_timestamp :: "int option"

record audit_event_row = audit_fields +
  ae_id :: ident
  ae_timestamp :: int
  ae_prevHash :: string
  ae_eventHash :: string
  ae_signature :: string

record chain_head =
  ch_tenantId :: ident
  ch_lastHash :: string
  ch_sequence :: int

record audit_store =
  auditEvents :: "audit_event_row list"
  chainHeads :: "chain_head list"

record crypto =
  sha256 :: "string \<Rightarrow> string"
  hmacSha256 :: "string \<Rightarrow> string \<Rightarrow> string"
  auditHmacSecret :: "string option"

definition GENESIS_HASH :: string where "GENESIS_HASH = ''GENESIS''"

section \<open>The text that is hashed\<close>

definition jsonOpt :: "string option \<Rightarrow> json" where
  "jsonOpt v = (case v of None \<Rightarrow> JNull | Some x \<Rightarrow> JStr x)"

definition eventMembers :: "'a audit_fields_scheme \<Rightarrow> (string \<times> json) list" where
  "eventMembers p =
     [(''correlationId'', JStr (av_correlationId p)), (''tenantId'', JStr (av_tenantId p)),
      (''userId'', jsonOpt (av_userId p)), (''role'', jsonOpt (av_role p)), (''action'', JStr (av_action p)),
      (''resourceType'', jsonOpt (av_resourceType p)), (''resourceId'', jsonOpt (av_resourceId p)),
      (''oldState'', av_oldState p), (''newState'', av_newState p), (''metadata'', av_metadata p),
      (''ip'', jsonOpt (av_ip p)), (''userAgent'', jsonOpt (av_userAgent p)),
      (''endpoint'', jsonOpt (av_endpoint p)), (''method'', jsonOpt (av_method p)),
      (''statusCode'', JNum (showInt (av_statusCode p))), (''success'', JBool (av_success p)),
      (''errorCode'', jsonOpt (av_errorCode p))]"

definition eventJson :: "'a audit_fields_scheme \<Rightarrow> json" where
  "eventJson p = JObj (eventMembers p)"

definition toISOString :: "int \<Rightarrow> string" where
  "toISOString t =
     (let (y, m, d) = civilFromDays (t div MS_PER_DAY);
          ms = t mod MS_PER_DAY
      in padded 4 y @ ''-'' @ padded 2 m @ ''-'' @ padded 2 d @ ''T'' @ padded 2 (ms div 3600000) @ '':'' @
         padded 2 (ms div 60000 mod 60) @ '':'' @ padded 2 (ms div 1000 mod 60) @ ''.'' @ padded 3 (ms mod 1000) @ ''Z'')"

definition eventText :: "string \<Rightarrow> 'a audit_fields_scheme \<Rightarrow> int \<Rightarrow> string" where
  "eventText prevHash p timestamp =
     prevHash @ ''|'' @ canonicalJson (eventJson p) @ ''|'' @ toISOString timestamp"

section \<open>Signatures\<close>

definition getTenantSecret :: "crypto \<Rightarrow> ident \<Rightarrow> string" where
  "getTenantSecret C tenantId =
     (case auditHmacSecret C of
        None \<Rightarrow> tenantId
      | Some secret \<Rightarrow> if secret = '''' then tenantId else tenantId @ '':'' @ secret)"

definition signWith :: "crypto \<Rightarrow> ident \<Rightarrow> string \<Rightarrow> string" where
  "signWith C tenantId eventHash = hmacSha256 C (getTenantSecret C tenantId) eventHash"

definition hexValue :: "char \<Rightarrow> nat option" where
  "hexValue c =
     (let n = of_char c :: nat in
      if 48 \<le> n \<and> n \<le> 57 then Some (n - 48)
      else if 97 \<le> n \<and> n \<le> 102 then Some (n - 87)
      else if 65 \<le> n \<and> n \<le> 70 then Some (n - 55)
      else None)"

fun hexBytes :: "string \<Rightarrow> nat list" where
  "hexBytes (a # b # r) =
     (case (hexValue a, hexValue b) of
        (Some x, Some y) \<Rightarrow> (16 * x + y) # hexBytes r
      | _ \<Rightarrow> [])"
| "hexBytes _ = []"

definition verifySignature :: "crypto \<Rightarrow> ident \<Rightarrow> string \<Rightarrow> string \<Rightarrow> bool" where
  "verifySignature C tenantId eventHash signature \<longleftrightarrow>
     hexBytes (signWith C tenantId eventHash) = hexBytes signature"

section \<open>Appending an event\<close>

definition lockChainHead :: "ident \<Rightarrow> audit_store \<Rightarrow> chain_head \<times> audit_store" where
  "lockChainHead tenantId s =
     (case findFirst (\<lambda>h. ch_tenantId h = tenantId) (chainHeads s) of
        Some h \<Rightarrow> (h, s)
      | None \<Rightarrow>
          (let h = \<lparr>ch_tenantId = tenantId, ch_lastHash = GENESIS_HASH, ch_sequence = 0\<rparr>
           in (h, s\<lparr>chainHeads := chainHeads s @ [h]\<rparr>)))"

definition eventRow :: "crypto \<Rightarrow> ident \<Rightarrow> audit_payload \<Rightarrow> int \<Rightarrow> string \<Rightarrow> audit_event_row" where
  "eventRow C eventId p timestamp prevHash =
     (let eventHash = sha256 C (eventText prevHash p timestamp) in
      \<lparr>av_correlationId = av_correlationId p, av_tenantId = av_tenantId p, av_userId = av_userId p, av_role = av_role p,
       av_action = av_action p, av_resourceType = av_resourceType p, av_resourceId = av_resourceId p,
       av_oldState = av_oldState p, av_newState = av_newState p, av_metadata = av_metadata p, av_ip = av_ip p,
       av_userAgent = av_userAgent p, av_endpoint = av_endpoint p, av_method = av_method p,
       av_statusCode = av_statusCode p, av_success = av_success p, av_errorCode = av_errorCode p,
       ae_id = eventId, ae_timestamp = timestamp, ae_prevHash = prevHash, ae_eventHash = eventHash,
       ae_signature = signWith C (av_tenantId p) eventHash\<rparr>)"

definition insertEvent :: "audit_event_row \<Rightarrow> audit_store \<Rightarrow> audit_store" where
  "insertEvent e s =
     (if \<exists>x \<in> set (auditEvents s). av_tenantId x = av_tenantId e \<and> ae_eventHash x = ae_eventHash e then s
      else s\<lparr>auditEvents := auditEvents s @ [e]\<rparr>)"

definition persistEvent :: "crypto \<Rightarrow> int \<Rightarrow> ident \<Rightarrow> audit_payload \<Rightarrow> audit_store \<Rightarrow> string \<times> audit_store" where
  "persistEvent C now eventId p s0 =
     (let timestamp = (case pl_timestamp p of None \<Rightarrow> now | Some t \<Rightarrow> t);
          (head, s) = lockChainHead (av_tenantId p) s0;
          prevHash = (if ch_lastHash head = '''' then GENESIS_HASH else ch_lastHash head);
          row = eventRow C eventId p timestamp prevHash;
          s' = insertEvent row s
      in (ae_eventHash row,
          s'\<lparr>chainHeads := map (\<lambda>h. if ch_tenantId h = av_tenantId p
               then h\<lparr>ch_lastHash := ae_eventHash row, ch_sequence := ch_sequence head + 1\<rparr> else h) (chainHeads s')\<rparr>))"

section \<open>Walking the chain\<close>

fun verifyRows :: "crypto \<Rightarrow> string \<Rightarrow> audit_event_row list \<Rightarrow> ident option" where
  "verifyRows C previous [] = None"
| "verifyRows C previous (row # rows) =
     (if ae_prevHash row \<noteq> previous then Some (ae_id row)
      else if sha256 C (eventText (ae_prevHash row) row (ae_timestamp row)) \<noteq> ae_eventHash row \<or>
              \<not> verifySignature C (av_tenantId row) (ae_eventHash row) (ae_signature row)
        then Some (ae_id row)
      else verifyRows C (ae_eventHash row) rows)"

definition tenantRows :: "audit_store \<Rightarrow> ident \<Rightarrow> audit_event_row list" where
  "tenantRows s tenantId =
     sort_key ae_timestamp (sort_key ae_id (filter (\<lambda>e. av_tenantId e = tenantId) (auditEvents s)))"

definition verifyTenantChain :: "crypto \<Rightarrow> ident \<Rightarrow> audit_store \<Rightarrow> bool \<times> ident option" where
  "verifyTenantChain C tenantId s =
     (case verifyRows C GENESIS_HASH (tenantRows s tenantId) of
        None \<Rightarrow> (True, None)
      | Some failedAt \<Rightarrow> (False, Some failedAt))"

section \<open>Reading the text back\<close>

lemma showInt_digits: "0 \<le> n \<Longrightarrow> set (showInt n) \<subseteq> set ''0123456789'' \<and> showInt n \<noteq> []"
proof (induction n rule: showInt.induct)
  case (1 n)
  have digit: "char_of (48 + k) \<in> set ''0123456789''" if "0 \<le> k" "k < 10" for k :: int
  proof -
    from that have "k \<in> {0, 1, 2, 3, 4, 5, 6, 7, 8, 9}" unfolding insert_iff empty_iff by presburger
    then show ?thesis by (elim insertE) (simp_all add: char_of_def bit_numeral_rec)
  qed
  show ?case
  proof (cases "n < 10")
    case True
    then show ?thesis using digit [of n] 1 by (simp add: showInt.simps [of n])
  next
    case False
    then show ?thesis using digit [of "n mod 10"] 1 by (simp add: showInt.simps [of n])
  qed
qed

lemma numeral_showInt: "0 \<le> n \<Longrightarrow> numeral_text (showInt n)"
  using showInt_digits [of n] unfolding numeral_text_def by fastforce

definition readInt :: "string \<Rightarrow> int" where
  "readInt s = foldl (\<lambda>a c. a * 10 + (of_char c - 48)) 0 s"

lemma readInt_showInt: "0 \<le> n \<Longrightarrow> readInt (showInt n) = n"
proof (induction n rule: showInt.induct)
  case (1 n)
  show ?case
  proof (cases "n < 10")
    case True
    then show ?thesis using 1 by (simp add: showInt.simps [of n] readInt_def)
  next
    case False
    then have "readInt (showInt n) = n div 10 * 10 + (of_char (char_of (48 + n mod 10) :: char) - 48)"
      using 1 by (simp add: showInt.simps [of n] readInt_def)
    also have "\<dots> = n div 10 * 10 + n mod 10" by simp
    finally show ?thesis by simp
  qed
qed

lemma showInt_injective: "0 \<le> m \<Longrightarrow> 0 \<le> n \<Longrightarrow> showInt m = showInt n \<Longrightarrow> m = n"
  using readInt_showInt by metis

lemma ordered_object_fields:
  assumes keys: "map fst kvs = map fst kvs'" "distinct (map fst kvs)"
    and eq: "ordered (JObj kvs) = ordered (JObj kvs')"
  shows "map (ordered \<circ> snd) kvs = map (ordered \<circ> snd) kvs'"
proof -
  let ?f = "map (map_prod id ordered)"
  have "set (?f kvs) = set (?f kvs')" using arg_cong [OF eq, of "\<lambda>j. case j of JObj l \<Rightarrow> set l | _ \<Rightarrow> {}"] by simp
  moreover have len: "length kvs = length kvs'" using keys(1) map_eq_imp_length_eq by blast
  moreover have d: "distinct (map fst (?f kvs'))" using keys by (simp add: comp_def)
  ultimately have "?f kvs ! i = ?f kvs' ! i" if i: "i < length kvs" for i
  proof -
    have a: "?f kvs ! i \<in> set (?f kvs')" using \<open>set (?f kvs) = set (?f kvs')\<close> i by (metis length_map nth_mem)
    have b: "?f kvs' ! i \<in> set (?f kvs')" using i len by simp
    have k: "fst (?f kvs ! i) = fst (?f kvs' ! i)" using i len keys(1) by (simp add: list_eq_iff_nth_eq)
    show ?thesis using eq_key_imp_eq_value [OF d, of "fst (?f kvs ! i)" "snd (?f kvs ! i)" "snd (?f kvs' ! i)"] a b k
      by (metis prod.collapse)
  qed
  then have "ordered (snd (kvs ! i)) = ordered (snd (kvs' ! i))" if "i < length kvs" for i
    using that len by (metis nth_map snd_map_prod)
  then show ?thesis using len by (intro nth_equalityI) simp_all
qed

definition wf_fields :: "'a audit_fields_scheme \<Rightarrow> bool" where
  "wf_fields p \<longleftrightarrow> wf_json (av_oldState p) \<and> wf_json (av_newState p) \<and> wf_json (av_metadata p) \<and> 0 \<le> av_statusCode p"

definition same_content :: "'a audit_fields_scheme \<Rightarrow> 'b audit_fields_scheme \<Rightarrow> bool" where
  "same_content p q \<longleftrightarrow>
     av_correlationId p = av_correlationId q \<and> av_tenantId p = av_tenantId q \<and> av_userId p = av_userId q \<and>
     av_role p = av_role q \<and> av_action p = av_action q \<and> av_resourceType p = av_resourceType q \<and>
     av_resourceId p = av_resourceId q \<and> ordered (av_oldState p) = ordered (av_oldState q) \<and>
     ordered (av_newState p) = ordered (av_newState q) \<and> ordered (av_metadata p) = ordered (av_metadata q) \<and>
     av_ip p = av_ip q \<and> av_userAgent p = av_userAgent q \<and> av_endpoint p = av_endpoint q \<and>
     av_method p = av_method q \<and> av_statusCode p = av_statusCode q \<and> av_success p = av_success q \<and>
     av_errorCode p = av_errorCode q"

lemma jsonOpt_simps [simp]: "ordered (jsonOpt v) = jsonOpt v" "wf_json (jsonOpt v)" "jsonOpt v = jsonOpt w \<longleftrightarrow> v = w"
  by (auto simp: jsonOpt_def split: option.splits)

lemma eventMembers_keys:
  "map fst (eventMembers p) = [''correlationId'', ''tenantId'', ''userId'', ''role'', ''action'', ''resourceType'',
     ''resourceId'', ''oldState'', ''newState'', ''metadata'', ''ip'', ''userAgent'', ''endpoint'', ''method'',
     ''statusCode'', ''success'', ''errorCode'']"
  by (simp add: eventMembers_def)

lemma eventMembers_distinct: "distinct (map fst (eventMembers p))"
  unfolding eventMembers_keys by simp

lemma wf_eventJson: "wf_fields p \<Longrightarrow> wf_json (eventJson p)"
  using numeral_showInt [of "av_statusCode p"] eventMembers_distinct [of p]
  unfolding eventJson_def wf_json_members
  by (simp add: eventMembers_def wf_member_def wf_fields_def)

lemma eventJson_same:
  assumes "wf_fields p" "wf_fields q" "ordered (eventJson p) = ordered (eventJson q)"
  shows "same_content p q"
proof -
  have "map (ordered \<circ> snd) (eventMembers p) = map (ordered \<circ> snd) (eventMembers q)"
    by (rule ordered_object_fields) (use assms(3) eventMembers_distinct in \<open>simp_all only: eventMembers_keys eventJson_def\<close>)
  then show ?thesis
    using assms(1,2) showInt_injective by (simp add: eventMembers_def same_content_def wf_fields_def)
qed

lemma barred_split: "CHR ''|'' \<notin> set a \<Longrightarrow> CHR ''|'' \<notin> set b \<Longrightarrow> a @ CHR ''|'' # r = b @ CHR ''|'' # q \<Longrightarrow> a = b \<and> r = q"
  by (induction a arbitrary: b) (auto simp: Cons_eq_append_conv)

lemma eventText_prev:
  assumes "CHR ''|'' \<notin> set h" "CHR ''|'' \<notin> set k" "eventText h p t = eventText k q u"
  shows "h = k"
  using barred_split [OF assms(1,2)] assms(3) by (auto simp: eventText_def)

lemma eventText_injective:
  assumes "wf_fields p" "wf_fields q" "CHR ''|'' \<notin> set h" "CHR ''|'' \<notin> set k" "eventText h p t = eventText k q u"
  shows "h = k \<and> same_content p q \<and> toISOString t = toISOString u"
proof -
  from barred_split [OF assms(3,4)] assms(5) have "h = k"
    and "canonicalJson (eventJson p) @ CHR ''|'' # toISOString t = canonicalJson (eventJson q) @ CHR ''|'' # toISOString u"
    by (auto simp: eventText_def)
  with canonicalJson_injective [OF wf_eventJson wf_eventJson] eventJson_same assms(1,2) show ?thesis by blast
qed
section \<open>Two accepted chains\<close>

definition digests_of :: "crypto \<Rightarrow> bool" where
  "digests_of C \<longleftrightarrow> (\<forall>x. length (sha256 C x) = 64 \<and> CHR ''|'' \<notin> set (sha256 C x))"

definition rowText :: "audit_event_row \<Rightarrow> string" where
  "rowText e = eventText (ae_prevHash e) e (ae_timestamp e)"

definition chainEnd :: "string \<Rightarrow> audit_event_row list \<Rightarrow> string" where
  "chainEnd previous rows = (if rows = [] then previous else ae_eventHash (last rows))"

lemma chainEnd_simps [simp]: "chainEnd p [] = p" "chainEnd p (rows @ [e]) = ae_eventHash e"
  by (simp_all add: chainEnd_def)

lemma chainEnd_Cons: "chainEnd p (e # rows) = chainEnd (ae_eventHash e) rows"
  by (simp add: chainEnd_def)

lemma verifyRows_snoc:
  "verifyRows C p (rows @ [e]) = None \<longleftrightarrow>
     verifyRows C p rows = None \<and> ae_prevHash e = chainEnd p rows \<and> sha256 C (rowText e) = ae_eventHash e \<and>
     verifySignature C (av_tenantId e) (ae_eventHash e) (ae_signature e)"
  by (induction rows arbitrary: p) (auto simp: chainEnd_Cons rowText_def)

lemma verifyRows_append: "verifyRows C p (rows @ later) = None \<Longrightarrow> verifyRows C p rows = None"
  by (induction rows arbitrary: p) (auto split: if_splits)

lemma verified_end:
  assumes "digests_of C" "verifyRows C GENESIS_HASH rows = None"
  shows "CHR ''|'' \<notin> set (chainEnd GENESIS_HASH rows)" "rows \<noteq> [] \<Longrightarrow> chainEnd GENESIS_HASH rows \<noteq> GENESIS_HASH"
proof -
  have "rows = [] \<or> (\<exists>x. chainEnd GENESIS_HASH rows = sha256 C x)"
    using assms(2) by (cases rows rule: rev_cases) (auto simp: verifyRows_snoc dest: sym)
  then show "CHR ''|'' \<notin> set (chainEnd GENESIS_HASH rows)"
    using assms(1) by (auto simp: digests_of_def GENESIS_HASH_def)
  show "chainEnd GENESIS_HASH rows \<noteq> GENESIS_HASH" if "rows \<noteq> []"
  proof
    assume "chainEnd GENESIS_HASH rows = GENESIS_HASH"
    with that \<open>rows = [] \<or> _\<close> obtain x where "sha256 C x = GENESIS_HASH" by metis
    then show False using assms(1) by (auto simp: digests_of_def GENESIS_HASH_def dest!: spec [of _ x])
  qed
qed

definition same_record :: "audit_event_row \<Rightarrow> audit_event_row \<Rightarrow> bool" where
  "same_record e f \<longleftrightarrow> same_content e f \<and> toISOString (ae_timestamp e) = toISOString (ae_timestamp f) \<and>
     ae_prevHash e = ae_prevHash f \<and> ae_eventHash e = ae_eventHash f"

lemma chains_agree:
  assumes C: "digests_of C" and ok: "verifyRows C GENESIS_HASH rows = None" "verifyRows C GENESIS_HASH rows' = None"
    and "chainEnd GENESIS_HASH rows = chainEnd GENESIS_HASH rows'"
    and inj: "inj_on (sha256 C) (rowText ` (set rows \<union> set rows'))" and wf: "\<forall>e \<in> set rows \<union> set rows'. wf_fields e"
  shows "list_all2 same_record rows rows'"
  using ok assms(4) inj wf
proof (induction rows arbitrary: rows' rule: rev_induct)
  case Nil
  then have "rows' = []" using verified_end(2) [OF C Nil(2)] by auto
  then show ?case by simp
next
  case (snoc e rows)
  have "rows' \<noteq> []" using verified_end(2) [OF C snoc.prems(1)] snoc.prems(3) by auto
  then obtain us f where r': "rows' = us @ [f]" by (cases rows' rule: rev_cases) auto
  have e: "verifyRows C GENESIS_HASH rows = None" "ae_prevHash e = chainEnd GENESIS_HASH rows"
      "sha256 C (rowText e) = ae_eventHash e"
    and f: "verifyRows C GENESIS_HASH us = None" "ae_prevHash f = chainEnd GENESIS_HASH us"
      "sha256 C (rowText f) = ae_eventHash f"
    using snoc.prems(1,2) by (simp_all add: verifyRows_snoc r')
  have h: "ae_eventHash e = ae_eventHash f" using snoc.prems(3) by (simp add: r')
  then have "sha256 C (rowText e) = sha256 C (rowText f)" using e(3) f(3) by simp
  then have "rowText e = rowText f" by (rule inj_onD [OF snoc.prems(4)]) (simp_all add: r')
  with eventText_injective [of e f "ae_prevHash e" "ae_prevHash f"] verified_end(1) [OF C e(1)] verified_end(1) [OF C f(1)]
  have t: "ae_prevHash e = ae_prevHash f" "same_content e f" "toISOString (ae_timestamp e) = toISOString (ae_timestamp f)"
    using snoc.prems(5) e(2) f(2) by (simp_all add: rowText_def r')
  have "list_all2 same_record rows us"
  proof (rule snoc.IH [OF e(1) f(1)])
    show "inj_on (sha256 C) (rowText ` (set rows \<union> set us))"
      by (rule inj_on_subset [OF snoc.prems(4)]) (auto simp: r')
  qed (use t(1) e(2) f(2) snoc.prems(5) in \<open>auto simp: r'\<close>)
  moreover have "same_record e f" using t h by (simp add: same_record_def)
  ultimately show ?case unfolding r' by (intro list_all2_appendI) simp_all
qed
section \<open>What persistEvent builds\<close>

type_synonym audit_job = "int \<times> ident \<times> audit_payload"

definition jobTenant :: "audit_job \<Rightarrow> ident" where "jobTenant j = av_tenantId (snd (snd j))"

definition jobTime :: "audit_job \<Rightarrow> int" where
  "jobTime j = (case pl_timestamp (snd (snd j)) of None \<Rightarrow> fst j | Some t \<Rightarrow> t)"

definition persistJob :: "crypto \<Rightarrow> audit_job \<Rightarrow> audit_store \<Rightarrow> audit_store" where
  "persistJob C j s = snd (persistEvent C (fst j) (fst (snd j)) (snd (snd j)) s)"

definition headHash :: "audit_store \<Rightarrow> ident \<Rightarrow> string" where
  "headHash s t = (let l = ch_lastHash (fst (lockChainHead t s)) in if l = '''' then GENESIS_HASH else l)"

definition jobText :: "audit_job \<Rightarrow> audit_store \<Rightarrow> string" where
  "jobText j s = eventText (headHash s (jobTenant j)) (snd (snd j)) (jobTime j)"

fun hashedTexts :: "crypto \<Rightarrow> audit_job list \<Rightarrow> audit_store \<Rightarrow> string list" where
  "hashedTexts C [] s = []"
| "hashedTexts C (j # js) s = jobText j s # hashedTexts C js (persistJob C j s)"

definition jobRow :: "crypto \<Rightarrow> audit_job \<Rightarrow> audit_store \<Rightarrow> audit_event_row" where
  "jobRow C j s = eventRow C (fst (snd j)) (snd (snd j)) (jobTime j) (headHash s (jobTenant j))"

definition rowsOf :: "audit_store \<Rightarrow> ident \<Rightarrow> audit_event_row list" where
  "rowsOf s t = filter (\<lambda>e. av_tenantId e = t) (auditEvents s)"

definition chained :: "crypto \<Rightarrow> audit_store \<Rightarrow> ident \<Rightarrow> bool" where
  "chained C s t \<longleftrightarrow> verifyRows C GENESIS_HASH (rowsOf s t) = None \<and>
     headHash s t = chainEnd GENESIS_HASH (rowsOf s t) \<and> distinct (map ae_eventHash (rowsOf s t))"

lemma eventRow_simps [simp]:
  "ae_prevHash (eventRow C i p t h) = h" "ae_timestamp (eventRow C i p t h) = t" "ae_id (eventRow C i p t h) = i"
  "av_tenantId (eventRow C i p t h) = av_tenantId p" "ae_eventHash (eventRow C i p t h) = sha256 C (eventText h p t)"
  "ae_signature (eventRow C i p t h) = signWith C (av_tenantId p) (sha256 C (eventText h p t))"
  "same_content p (eventRow C i p t h)" "eventMembers (eventRow C i p t h) = eventMembers p"
  by (simp_all add: eventRow_def Let_def same_content_def eventMembers_def)

lemma eventText_row [simp]: "eventText k (eventRow C i p t h) u = eventText k p u"
  by (simp only: eventText_def eventJson_def eventRow_simps)

lemma jobRow_simps [simp]:
  "av_tenantId (jobRow C j s) = jobTenant j" "ae_timestamp (jobRow C j s) = jobTime j"
  "ae_prevHash (jobRow C j s) = headHash s (jobTenant j)" "ae_eventHash (jobRow C j s) = sha256 C (jobText j s)"
  "rowText (jobRow C j s) = jobText j s" "same_content (snd (snd j)) (jobRow C j s)"
  by (simp_all add: jobRow_def jobTenant_def jobText_def rowText_def)

lemma lockChainHead_events: "auditEvents (snd (lockChainHead t s)) = auditEvents s"
  by (simp add: lockChainHead_def Let_def split: option.splits)

lemma persistJob_insert:
  "auditEvents (persistJob C j s) = auditEvents (insertEvent (jobRow C j s) (snd (lockChainHead (jobTenant j) s)))"
  by (simp add: persistJob_def persistEvent_def Let_def case_prod_unfold jobRow_def headHash_def jobTime_def jobTenant_def)

lemma persistJob_events:
  "auditEvents (persistJob C j s) =
     (if \<exists>x \<in> set (auditEvents s). av_tenantId x = jobTenant j \<and> ae_eventHash x = sha256 C (jobText j s)
      then auditEvents s else auditEvents s @ [jobRow C j s])"
  by (simp add: persistJob_insert insertEvent_def lockChainHead_events)

lemma persistJob_head:
  assumes "digests_of C"
  shows "headHash (persistJob C j s) t = (if t = jobTenant j then sha256 C (jobText j s) else headHash s t)"
proof -
  define hs where "hs = chainHeads (snd (lockChainHead (jobTenant j) s))"
  define f where "f = (\<lambda>h :: chain_head. if ch_tenantId h = jobTenant j then h\<lparr>ch_lastHash := sha256 C (jobText j s),
    ch_sequence := ch_sequence (fst (lockChainHead (jobTenant j) s)) + 1\<rparr> else h)"
  have "chainHeads (persistJob C j s) = map f hs"
    by (simp add: persistJob_def persistEvent_def Let_def case_prod_unfold insertEvent_def f_def hs_def
        jobText_def headHash_def jobTime_def jobTenant_def)
  moreover have "findFirst (\<lambda>h. ch_tenantId h = t) (map f hs) = map_option f (findFirst (\<lambda>h. ch_tenantId h = t) hs)"
    by (rule findFirst_map) (simp add: f_def)
  moreover have "findFirst (\<lambda>h. ch_tenantId h = t) hs =
      (if t = jobTenant j then Some (fst (lockChainHead t s)) else findFirst (\<lambda>h. ch_tenantId h = t) (chainHeads s))"
    by (auto simp: hs_def lockChainHead_def findFirst_append Let_def split: option.splits)
  moreover have "ch_tenantId (fst (lockChainHead t s)) = t"
    by (auto simp: lockChainHead_def Let_def split: option.splits dest: findFirst_Some)
  moreover have "sha256 C (jobText j s) \<noteq> []" using assms by (auto simp: digests_of_def dest!: spec [of _ "jobText j s"])
  moreover have "f h = h" if "findFirst (\<lambda>h. ch_tenantId h = t) (chainHeads s) = Some h" "t \<noteq> jobTenant j" for h
    using that findFirst_Some [OF that(1)] by (simp add: f_def)
  ultimately show ?thesis
    by (auto simp: headHash_def lockChainHead_def Let_def f_def split: option.splits)
qed

lemma verifyRows_middle: "verifyRows C p (us @ e # vs) = None \<Longrightarrow> ae_prevHash e = chainEnd p us"
  using verifyRows_append [of C p "us @ [e]" vs] by (simp add: verifyRows_snoc)

lemma end_not_prev:
  assumes C: "digests_of C" and ok: "verifyRows C GENESIS_HASH rows = None" and d: "distinct (map ae_eventHash rows)"
    and e: "e \<in> set rows"
  shows "ae_prevHash e \<noteq> chainEnd GENESIS_HASH rows"
proof
  assume eq: "ae_prevHash e = chainEnd GENESIS_HASH rows"
  from e obtain us vs where r: "rows = us @ e # vs" by (meson split_list)
  have p: "chainEnd GENESIS_HASH rows = chainEnd GENESIS_HASH us" using verifyRows_middle ok r eq by metis
  have "us \<noteq> []" using p verified_end(2) [OF C ok] r by auto
  then have "ae_eventHash (last us) = ae_eventHash (last (e # vs))" using p by (simp add: r chainEnd_def split: if_splits)
  moreover have "ae_eventHash (last us) \<in> ae_eventHash ` set us" using \<open>us \<noteq> []\<close> by simp
  moreover have "ae_eventHash (last (e # vs)) \<in> ae_eventHash ` set (e # vs)" by (intro imageI last_in_set) simp
  ultimately show False using d by (auto simp: r)
qed

lemma fresh_hash:
  assumes C: "digests_of C" and ch: "chained C s (jobTenant j)"
    and inj: "inj_on (sha256 C) (insert (jobText j s) (rowText ` set (auditEvents s)))"
    and x: "x \<in> set (auditEvents s)" "av_tenantId x = jobTenant j"
  shows "ae_eventHash x \<noteq> sha256 C (jobText j s)"
proof
  assume eq: "ae_eventHash x = sha256 C (jobText j s)"
  have ok: "verifyRows C GENESIS_HASH (rowsOf s (jobTenant j)) = None"
    and hd: "headHash s (jobTenant j) = chainEnd GENESIS_HASH (rowsOf s (jobTenant j))"
    and d: "distinct (map ae_eventHash (rowsOf s (jobTenant j)))" using ch by (auto simp: chained_def)
  have xr: "x \<in> set (rowsOf s (jobTenant j))" using x by (simp add: rowsOf_def)
  then obtain us vs where r: "rowsOf s (jobTenant j) = us @ x # vs" by (meson split_list)
  have u: "verifyRows C GENESIS_HASH (us @ [x]) = None"
    using verifyRows_append [of C GENESIS_HASH "us @ [x]" vs] ok by (simp add: r)
  then have "sha256 C (rowText x) = sha256 C (jobText j s)" using eq by (simp add: verifyRows_snoc)
  then have "rowText x = jobText j s" by (rule inj_onD [OF inj]) (use x in auto)
  then have eqt: "eventText (ae_prevHash x) x (ae_timestamp x) = eventText (headHash s (jobTenant j)) (snd (snd j)) (jobTime j)"
    by (simp only: rowText_def jobText_def)
  have bx: "CHR ''|'' \<notin> set (ae_prevHash x)"
    using verified_end(1) [OF C verifyRows_append [OF u]] u by (simp add: verifyRows_snoc)
  have bh: "CHR ''|'' \<notin> set (headHash s (jobTenant j))" using verified_end(1) [OF C ok] by (simp add: hd)
  have "ae_prevHash x = headHash s (jobTenant j)" by (rule eventText_prev [OF bx bh eqt])
  then show False using end_not_prev [OF C ok d xr] hd by simp
qed

lemma persistJob_chained:
  assumes C: "digests_of C" and ch: "\<forall>t. chained C s t"
    and inj: "inj_on (sha256 C) (insert (jobText j s) (rowText ` set (auditEvents s)))"
  shows "auditEvents (persistJob C j s) = auditEvents s @ [jobRow C j s]" "\<forall>t. chained C (persistJob C j s) t"
proof -
  have new: "\<forall>x \<in> set (auditEvents s). av_tenantId x = jobTenant j \<longrightarrow> ae_eventHash x \<noteq> sha256 C (jobText j s)"
    using fresh_hash [OF C ch [rule_format] inj] by blast
  then show ev: "auditEvents (persistJob C j s) = auditEvents s @ [jobRow C j s]"
    by (auto simp: persistJob_events)
  have "verifySignature C (jobTenant j) (sha256 C (jobText j s)) (ae_signature (jobRow C j s))"
    by (simp add: verifySignature_def jobRow_def jobTenant_def jobText_def)
  then have "chained C (persistJob C j s) t" for t
    using ch [unfolded chained_def rowsOf_def, rule_format, of t] new
    unfolding chained_def rowsOf_def ev persistJob_head [OF C]
    by (cases "jobTenant j = t") (auto simp: verifyRows_snoc)
  then show "\<forall>t. chained C (persistJob C j s) t" by blast
qed

definition persistAll :: "crypto \<Rightarrow> audit_job list \<Rightarrow> audit_store \<Rightarrow> audit_store" where
  "persistAll C jobs s = fold (persistJob C) jobs s"

definition no_events :: audit_store where "no_events = \<lparr>auditEvents = [], chainHeads = []\<rparr>"

definition records :: "audit_job \<Rightarrow> audit_event_row \<Rightarrow> bool" where
  "records j e \<longleftrightarrow> same_content (snd (snd j)) e \<and> ae_timestamp e = jobTime j \<and> ae_id e = fst (snd j)"

lemma persistAll_chained:
  assumes C: "digests_of C" and ch: "\<forall>t. chained C s t"
    and inj: "inj_on (sha256 C) (rowText ` set (auditEvents s) \<union> set (hashedTexts C jobs s))"
  shows "(\<forall>t. chained C (persistAll C jobs s) t) \<and>
    (\<exists>new. auditEvents (persistAll C jobs s) = auditEvents s @ new \<and> list_all2 records jobs new)"
  using ch inj
proof (induction jobs arbitrary: s)
  case Nil
  then show ?case by (simp add: persistAll_def)
next
  case (Cons j jobs)
  have i: "inj_on (sha256 C) (insert (jobText j s) (rowText ` set (auditEvents s)))"
    by (rule inj_on_subset [OF Cons.prems(2)]) auto
  note st = persistJob_chained [OF C Cons.prems(1) i]
  have "inj_on (sha256 C) (rowText ` set (auditEvents (persistJob C j s)) \<union> set (hashedTexts C jobs (persistJob C j s)))"
    using Cons.prems(2) by (simp add: st(1))
  from Cons.IH [OF st(2) this] obtain new where
    "\<forall>t. chained C (persistAll C jobs (persistJob C j s)) t" "list_all2 records jobs new"
    "auditEvents (persistAll C jobs (persistJob C j s)) = auditEvents s @ jobRow C j s # new" by (auto simp: st(1))
  moreover have "records j (jobRow C j s)" by (simp add: records_def jobRow_def jobTenant_def)
  ultimately show ?case by (auto simp: persistAll_def intro!: exI [of _ "jobRow C j s # new"])
qed

lemma list_all2_filters:
  "list_all2 R xs ys \<Longrightarrow> (\<And>x y. R x y \<Longrightarrow> P x = Q y) \<Longrightarrow> list_all2 R (filter P xs) (filter Q ys)"
  by (induction rule: list_all2_induct) auto

text \<open>The walk reads by timestamp and then by identifier.\<close>

definition walk_order :: "int \<times> ident \<Rightarrow> int \<times> ident \<Rightarrow> bool" where
  "walk_order x y \<longleftrightarrow> fst x < fst y \<or> fst x = fst y \<and> snd x \<le> snd y"

lemma sorted_wrt_filter_mono:
  "sorted_wrt R xs \<Longrightarrow> (\<And>x y. x \<in> set xs \<Longrightarrow> y \<in> set xs \<Longrightarrow> P x \<Longrightarrow> P y \<Longrightarrow> R x y \<Longrightarrow> Q x y) \<Longrightarrow> sorted_wrt Q (filter P xs)"
  by (induction xs) auto

lemma sort_of_walk:
  assumes "sorted_wrt (\<lambda>e f. walk_order (ae_timestamp e, ae_id e) (ae_timestamp f, ae_id f)) xs"
  shows "sort_key ae_timestamp (sort_key ae_id xs) = xs"
proof (rule properties_for_sort_key)
  show "sorted (map ae_timestamp xs)"
    unfolding sorted_map by (rule sorted_wrt_mono_rel [OF _ assms]) (auto simp: walk_order_def)
  fix e
  have "sorted_wrt (\<lambda>e f. ae_id e \<le> ae_id f) (filter (\<lambda>f. ae_timestamp e = ae_timestamp f) xs)"
    by (rule sorted_wrt_filter_mono [OF assms]) (auto simp: walk_order_def)
  then have "sort_key ae_id (filter (\<lambda>f. ae_timestamp e = ae_timestamp f) xs) = filter (\<lambda>f. ae_timestamp e = ae_timestamp f) xs"
    by (intro sort_key_id_if_sorted) (simp add: sorted_map)
  then show "filter (\<lambda>f. ae_timestamp e = ae_timestamp f) xs = filter (\<lambda>f. ae_timestamp e = ae_timestamp f) (sort_key ae_id xs)"
    by (simp add: filter_sort)
qed simp

lemma in_order_verifies:
  assumes ch: "chained C s t"
    and s: "sorted_wrt (\<lambda>e f. walk_order (ae_timestamp e, ae_id e) (ae_timestamp f, ae_id f)) (rowsOf s t)"
  shows "tenantRows s t = rowsOf s t" "verifyTenantChain C t s = (True, None)"
proof -
  show rows: "tenantRows s t = rowsOf s t"
    using sort_of_walk [OF s] by (simp add: tenantRows_def rowsOf_def)
  show "verifyTenantChain C t s = (True, None)" using ch by (simp add: rows verifyTenantChain_def chained_def)
qed

lemma chained_no_events: "\<forall>t. chained C no_events t"
  by (simp add: chained_def rowsOf_def no_events_def headHash_def lockChainHead_def Let_def GENESIS_HASH_def)

text \<open>
  C20. What persistEvent writes, verifyTenantChain accepts: start from an empty table and persist any list of
  jobs, of whatever existing tenants and without NUL characters. When the jobs of a tenant were persisted in the
  order in which the chain is walked, by timestamp and, within one millisecond, by the identifier of the row,
  then the rows of the tenant are those jobs one for one with their contents, and its chain
  verifies, when no two of the texts hashed on the way collide. (Identifiers are random, so two events of one
  millisecond are in this order by chance only: late_job_breaks_chain shows the chain that fails.)
\<close>

theorem persisted_chain_verifies:
  assumes "digests_of C" and "inj_on (sha256 C) (set (hashedTexts C jobs no_events))"
    and order: "sorted_wrt (\<lambda>j k. jobTime j < jobTime k \<or> jobTime j = jobTime k \<and> fst (snd j) \<le> fst (snd k))
      (filter (\<lambda>j. jobTenant j = t) jobs)"
  shows "verifyTenantChain C t (persistAll C jobs no_events) = (True, None) \<and>
    list_all2 records (filter (\<lambda>j. jobTenant j = t) jobs) (tenantRows (persistAll C jobs no_events) t)"
proof -
  from persistAll_chained [OF assms(1) chained_no_events, of jobs] assms(2) obtain new where
    ch: "chained C (persistAll C jobs no_events) t" and ev: "auditEvents (persistAll C jobs no_events) = new"
    and rec: "list_all2 records jobs new" by (auto simp: no_events_def)
  have f: "list_all2 records (filter (\<lambda>j. jobTenant j = t) jobs) (rowsOf (persistAll C jobs no_events) t)"
    unfolding rowsOf_def ev
    by (rule list_all2_filters [OF rec]) (simp add: records_def same_content_def jobTenant_def)
  then have "map (\<lambda>e. (ae_timestamp e, ae_id e)) (rowsOf (persistAll C jobs no_events) t) =
      map (\<lambda>j. (jobTime j, fst (snd j))) (filter (\<lambda>j. jobTenant j = t) jobs)"
    by (simp add: list_all2_conv_all_nth records_def list_eq_iff_nth_eq)
  moreover have "sorted_wrt walk_order (map (\<lambda>j. (jobTime j, fst (snd j))) (filter (\<lambda>j. jobTenant j = t) jobs))"
    using order by (simp add: sorted_wrt_map walk_order_def)
  ultimately have "sorted_wrt walk_order (map (\<lambda>e. (ae_timestamp e, ae_id e)) (rowsOf (persistAll C jobs no_events) t))"
    by simp
  then have s: "sorted_wrt (\<lambda>e f. walk_order (ae_timestamp e, ae_id e) (ae_timestamp f, ae_id f)) (rowsOf (persistAll C jobs no_events) t)"
    by (simp add: sorted_wrt_map)
  from in_order_verifies [OF ch s] f show ?thesis by simp
qed

text \<open>
  C21. An audit chain cannot be rewritten: two stores whose chains of a tenant both verify and end in the same hash
  hold the same events of that tenant in the same order, in every hashed field (objects up to the order of
  their keys), unless two different texts among those hashed have one digest.
\<close>

theorem chain_is_tamper_evident:
  assumes "digests_of C" and "verifyTenantChain C t s = (True, None)" "verifyTenantChain C t s' = (True, None)"
    and "chainEnd GENESIS_HASH (tenantRows s t) = chainEnd GENESIS_HASH (tenantRows s' t)"
    and "inj_on (sha256 C) (rowText ` (set (tenantRows s t) \<union> set (tenantRows s' t)))"
    and "\<forall>e \<in> set (auditEvents s) \<union> set (auditEvents s'). wf_fields e"
  shows "list_all2 same_record (tenantRows s t) (tenantRows s' t)"
proof (rule chains_agree [OF assms(1) _ _ assms(4,5)])
  show "verifyRows C GENESIS_HASH (tenantRows s t) = None" "verifyRows C GENESIS_HASH (tenantRows s' t) = None"
    using assms(2,3) by (simp_all add: verifyTenantChain_def split: option.splits)
  show "\<forall>e \<in> set (tenantRows s t) \<union> set (tenantRows s' t). wf_fields e" using assms(6) by (auto simp: tenantRows_def)
qed

text \<open>The newest events can be removed: a verified chain still verifies when its end is cut off.\<close>

theorem truncation_is_not_noticed:
  assumes "verifyTenantChain C t s = (True, None)" and "tenantRows s' t = take n (tenantRows s t)"
  shows "verifyTenantChain C t s' = (True, None)"
  using assms verifyRows_append [of C GENESIS_HASH "take n (tenantRows s t)" "drop n (tenantRows s t)"]
  by (simp add: verifyTenantChain_def split: option.splits)

text \<open>
  A job that is persisted after one that the walk reads later breaks a chain nobody has touched: after a
  later event, or after an event of the same millisecond whose identifier happens to be greater.
\<close>

theorem late_job_breaks_chain:
  assumes C: "digests_of C" and "jobTenant j = t" "jobTenant k = t"
    and late: "jobTime k < jobTime j \<or> jobTime k = jobTime j \<and> fst (snd k) < fst (snd j)"
    and inj: "inj_on (sha256 C) (set (hashedTexts C [j, k] no_events))"
  shows "verifyTenantChain C t (persistAll C [j, k] no_events) = (False, Some (fst (snd k)))"
proof -
  from persistAll_chained [OF C chained_no_events, of "[j, k]"] inj obtain e f where
    ch: "chained C (persistAll C [j, k] no_events) t" and ev: "auditEvents (persistAll C [j, k] no_events) = [e, f]"
    and rec: "records j e" "records k f" by (auto simp: no_events_def list_all2_Cons1)
  have t: "av_tenantId e = t" "av_tenantId f = t"
    "ae_timestamp f < ae_timestamp e \<or> ae_timestamp f = ae_timestamp e \<and> ae_id f < ae_id e"
    using rec late assms(2,3) by (auto simp: records_def same_content_def jobTenant_def)
  then have ord: "e \<noteq> f" "sort_key ae_id [e, f] = [f, e] \<or> sort_key ae_id [e, f] = [e, f] \<and> ae_timestamp f < ae_timestamp e"
    "ae_timestamp f \<le> ae_timestamp e" by auto
  then have "sort_key ae_timestamp (sort_key ae_id [e, f]) = [f, e]" by (elim disjE conjE) simp_all
  then have sorted: "tenantRows (persistAll C [j, k] no_events) t = [f, e]"
    using t by (simp only: tenantRows_def ev) simp
  have rows: "rowsOf (persistAll C [j, k] no_events) t = [] @ [e] @ [f]"
    using t by (simp add: rowsOf_def ev)
  have "verifyRows C GENESIS_HASH [e] = None" "ae_prevHash f = chainEnd GENESIS_HASH [e]"
    using ch verifyRows_snoc [of C GENESIS_HASH "[e]" f] by (simp_all add: chained_def rows)
  with verified_end(2) [OF C] have "ae_prevHash f \<noteq> GENESIS_HASH" by (metis list.distinct(1))
  then show ?thesis using rec by (simp add: verifyTenantChain_def sorted records_def)
qed

section \<open>Two events of one tenant\<close>

definition desk_crypto :: crypto where
  "desk_crypto = \<lparr>sha256 = (\<lambda>x. replicate 64 (if hd x = CHR ''G'' then CHR ''a'' else CHR ''b'')),
     hmacSha256 = (\<lambda>k m. m), auditHmacSecret = Some ''s''\<rparr>"

definition desk_event :: "string \<Rightarrow> int \<Rightarrow> audit_payload" where
  "desk_event act t = \<lparr>av_correlationId = ''c'', av_tenantId = ''t'', av_userId = Some ''u'', av_role = None,
     av_action = act, av_resourceType = Some ''Loan'', av_resourceId = None, av_oldState = JNull,
     av_newState = JObj [(''status'', JStr ''ACTIVE''), (''amount'', JNum ''10.5'')], av_metadata = JNull, av_ip = None,
     av_userAgent = None, av_endpoint = None, av_method = None, av_statusCode = 201, av_success = True,
     av_errorCode = None, pl_timestamp = Some t\<rparr>"

definition desk_jobs :: "ident \<Rightarrow> ident \<Rightarrow> audit_job list" where
  "desk_jobs i k = [(7, i, desk_event ''LOAN.APPROVED'' 1000), (9, k, desk_event ''LOAN.DISBURSED'' 2000)]"

lemma desk_digests: "digests_of desk_crypto"
  by (simp add: digests_of_def desk_crypto_def)

lemma desk_first_text: "hd (jobText j no_events) = CHR ''G''"
  by (simp add: jobText_def eventText_def headHash_def lockChainHead_def no_events_def Let_def GENESIS_HASH_def)

lemma desk_second_text:
  assumes "jobTenant k = jobTenant j"
  shows "hd (jobText k (persistJob desk_crypto j no_events)) \<noteq> CHR ''G''"
proof -
  have "hd (sha256 desk_crypto x @ r) \<noteq> CHR ''G''" for x r by (simp add: desk_crypto_def hd_append)
  with assms show ?thesis by (simp add: jobText_def eventText_def persistJob_head [OF desk_digests])
qed

lemma desk_tenant: "j \<in> set (desk_jobs i k) \<Longrightarrow> jobTenant j = ''t''"
  by (auto simp: desk_jobs_def jobTenant_def desk_event_def)

lemma desk_texts_differ:
  assumes "jobTenant k = jobTenant j"
  shows "sha256 desk_crypto (jobText j no_events) \<noteq> sha256 desk_crypto (jobText k (persistJob desk_crypto j no_events))"
  using desk_first_text [of j] desk_second_text [OF assms] by (simp add: desk_crypto_def)

lemma desk_no_collision: "inj_on (sha256 desk_crypto) (set (hashedTexts desk_crypto (desk_jobs i k) no_events))"
proof -
  obtain j j' where js: "desk_jobs i k = [j, j']" by (simp add: desk_jobs_def)
  then have "jobTenant j' = jobTenant j" using desk_tenant [of _ i k] by simp
  note desk_texts_differ [OF this]
  then show ?thesis unfolding js by auto
qed

theorem persisted_chain_verifies_witness:
  "verifyTenantChain desk_crypto ''t'' (persistAll desk_crypto (desk_jobs ''1'' ''2'') no_events) = (True, None) \<and>
   length (tenantRows (persistAll desk_crypto (desk_jobs ''1'' ''2'') no_events) ''t'') = 2"
proof -
  have "sorted_wrt (\<lambda>j k. jobTime j < jobTime k \<or> jobTime j = jobTime k \<and> fst (snd j) \<le> fst (snd k))
      (filter (\<lambda>j. jobTenant j = ''t'') (desk_jobs ''1'' ''2''))"
    by (simp add: desk_jobs_def jobTime_def desk_event_def jobTenant_def)
  from persisted_chain_verifies [OF desk_digests desk_no_collision this]
  show ?thesis by (auto dest!: list_all2_lengthD simp: desk_jobs_def jobTenant_def desk_event_def)
qed

lemma desk_events:
  assumes js: "desk_jobs i k = [a, b]"
  shows "auditEvents (persistAll desk_crypto [a, b] no_events) =
      [jobRow desk_crypto a no_events, jobRow desk_crypto b (persistJob desk_crypto a no_events)]"
    "chained desk_crypto (persistAll desk_crypto [a, b] no_events) t"
proof -
  from persistJob_chained [OF desk_digests chained_no_events, of a]
  have a: "auditEvents (persistJob desk_crypto a no_events) = [jobRow desk_crypto a no_events]"
    "\<forall>t. chained desk_crypto (persistJob desk_crypto a no_events) t" by (simp_all add: no_events_def)
  have "inj_on (sha256 desk_crypto) (insert (jobText b (persistJob desk_crypto a no_events))
      (rowText ` set (auditEvents (persistJob desk_crypto a no_events))))"
    using desk_no_collision [of i k] unfolding js a(1) by (simp add: insert_commute)
  note b = persistJob_chained [OF desk_digests a(2) this]
  from b(1) show "auditEvents (persistAll desk_crypto [a, b] no_events) =
      [jobRow desk_crypto a no_events, jobRow desk_crypto b (persistJob desk_crypto a no_events)]"
    by (simp add: persistAll_def a)
  from b(2) show "chained desk_crypto (persistAll desk_crypto [a, b] no_events) t" by (simp add: persistAll_def)
qed

lemma desk_job_facts:
  assumes "desk_jobs i k = [a, b]"
  shows "jobTenant a = ''t''" "jobTenant b = ''t''" "jobTime a = 1000" "jobTime b = 2000"
    "wf_fields (jobRow C a s)" "wf_fields (jobRow C b s)"
  using assms
  by (auto simp: desk_jobs_def jobTenant_def jobTime_def desk_event_def wf_fields_def jobRow_def eventRow_def Let_def
      wf_json_members wf_member_def numeral_text_def)

lemma desk_rows:
  assumes js: "desk_jobs i k = [a, b]"
  shows "tenantRows (persistAll desk_crypto [a, b] no_events) ''t'' =
      [jobRow desk_crypto a no_events, jobRow desk_crypto b (persistJob desk_crypto a no_events)]"
    "verifyTenantChain desk_crypto ''t'' (persistAll desk_crypto [a, b] no_events) = (True, None)"
proof -
  have r: "rowsOf (persistAll desk_crypto [a, b] no_events) ''t'' =
      [jobRow desk_crypto a no_events, jobRow desk_crypto b (persistJob desk_crypto a no_events)]"
    by (simp add: rowsOf_def desk_events(1) [OF js] desk_job_facts [OF js])
  then have "sorted_wrt (\<lambda>e f. walk_order (ae_timestamp e, ae_id e) (ae_timestamp f, ae_id f))
      (rowsOf (persistAll desk_crypto [a, b] no_events) ''t'')"
    by (simp add: desk_job_facts [OF js] walk_order_def)
  from in_order_verifies [OF desk_events(2) [OF js] this] r
  show "tenantRows (persistAll desk_crypto [a, b] no_events) ''t'' =
      [jobRow desk_crypto a no_events, jobRow desk_crypto b (persistJob desk_crypto a no_events)]"
    "verifyTenantChain desk_crypto ''t'' (persistAll desk_crypto [a, b] no_events) = (True, None)" by simp_all
qed

lemma desk_jobs_texts:
  assumes "desk_jobs i k = [a, b]" "desk_jobs i' k' = [a', b']"
  shows "jobText a' no_events = jobText a no_events"
    "jobText b' (persistJob desk_crypto a' no_events) = jobText b (persistJob desk_crypto a no_events)"
  using assms
  by (auto simp: desk_jobs_def jobText_def jobTenant_def jobTime_def desk_event_def persistJob_head [OF desk_digests])

theorem chain_is_tamper_evident_witness:
  "list_all2 same_record (tenantRows (persistAll desk_crypto (desk_jobs ''1'' ''2'') no_events) ''t'')
     (tenantRows (persistAll desk_crypto (desk_jobs ''3'' ''4'') no_events) ''t'')"
proof -
  obtain a b where js: "desk_jobs ''1'' ''2'' = [a, b]" by (simp add: desk_jobs_def)
  obtain a' b' where js': "desk_jobs ''3'' ''4'' = [a', b']" by (simp add: desk_jobs_def)
  show ?thesis
    unfolding js js'
  proof (rule chain_is_tamper_evident [OF desk_digests desk_rows(2) [OF js] desk_rows(2) [OF js']])
    show "inj_on (sha256 desk_crypto) (rowText ` (set (tenantRows (persistAll desk_crypto [a, b] no_events) ''t'') \<union>
        set (tenantRows (persistAll desk_crypto [a', b'] no_events) ''t'')))"
      by (rule inj_on_subset [OF desk_no_collision [of "''1''" "''2''", unfolded js]])
        (simp add: desk_rows(1) [OF js] desk_rows(1) [OF js'] desk_jobs_texts [OF js js'])
  qed (simp_all add: desk_events(1) [OF js] desk_events(1) [OF js'] desk_rows(1) [OF js] desk_rows(1) [OF js']
      desk_job_facts [OF js] desk_job_facts [OF js'] desk_jobs_texts [OF js js'] chainEnd_def)
qed

end
