(* ===== verification/Audit_Log.thy ===== *)
theory Audit_Log
  imports Audit_Chain
begin

text \<open>
  The audit log of src/src/modules/audit/audit.service.ts (AuditService.create and logAtomic) and the
  service that checks it for GET /admin/audit/verify-chain, AuditChainService of
  src/src/modules/audit/audit-chain.service.ts. The table AuditLog is a list of rows; the trigger of
  the migration 20260520232000 lets no row be updated.

  The lemmas show how the two services fail to meet: every row the first one writes is reported as
  tampered with by the second, and stampEntry, which would give a row the hash that the check
  expects, is refused by the database.
\<close>

section \<open>Rows and requests\<close>

record audit_log_row =
  al_id :: ident
  al_tenantId :: ident
  al_actorId :: "ident option"
  al_action :: string
  al_entityType :: string
  al_entityId :: "ident option"
  al_oldValue :: json
  al_newValue :: json
  al_metadata :: json
  al_payload :: json
  al_ipAddress :: "string option"
  al_userAgent :: "string option"
  al_requestId :: "string option"
  al_prevHash :: "string option"
  al_entryHash :: "string option"
  al_timestamp :: int

record create_audit_dto =
  ca_tenantId :: ident
  ca_actorId :: "ident option"
  ca_userId :: "ident option"
  ca_action :: string
  ca_entityType :: "string option"
  ca_resource :: "string option"
  ca_entityId :: "ident option"
  ca_resourceId :: "ident option"
  ca_oldValue :: "json option"
  ca_newValue :: "json option"
  ca_metadata :: "(string \<times> json) list option"
  ca_payload :: "json option"
  ca_ipAddress :: "string option"
  ca_userAgent :: "string option"
  ca_requestId :: "string option"

record flag_env =
  fl_value :: "string \<Rightarrow> string"
  fl_canaryTenants :: "string \<Rightarrow> ident list"

definition isEnabled :: "flag_env \<Rightarrow> string \<Rightarrow> ident \<Rightarrow> bool" where
  "isEnabled F flagName tenantId \<longleftrightarrow>
     fl_value F flagName = ''true'' \<or>
     fl_value F flagName = ''canary'' \<and> tenantId \<noteq> '''' \<and> tenantId \<in> set (fl_canaryTenants F flagName)"

section \<open>Writing a row\<close>

definition coalesce :: "'a option \<Rightarrow> 'a option \<Rightarrow> 'a option" where
  "coalesce a b = (case a of Some x \<Rightarrow> Some x | None \<Rightarrow> b)"

fun putKey :: "string \<Rightarrow> json \<Rightarrow> (string \<times> json) list \<Rightarrow> (string \<times> json) list" where
  "putKey k v [] = [(k, v)]"
| "putKey k v (kv # kvs) = (if fst kv = k then (k, v) # kvs else kv # putKey k v kvs)"

definition logMetadata :: "flag_env \<Rightarrow> create_audit_dto \<Rightarrow> json" where
  "logMetadata F dto =
     (let given = (case ca_metadata dto of None \<Rightarrow> [] | Some kvs \<Rightarrow> kvs);
          actor = (if coalesce (ca_actorId dto) (ca_userId dto) = Some ''SYSTEM''
                   then putKey ''actorId'' (JStr ''SYSTEM'') given else given);
          flags = putKey ''featureFlags'' (JObj
            [(''secureUpload'', JBool (isEnabled F ''SECURE_UPLOAD_V2'' (ca_tenantId dto))),
             (''rlsEnforcement'', JBool (isEnabled F ''RLS_ENFORCEMENT'' (ca_tenantId dto))),
             (''kycStatusAlias'', JBool (isEnabled F ''KYC_STATUS_ALIAS'' (ca_tenantId dto)))]) actor
      in JObj (case ca_requestId dto of
           None \<Rightarrow> flags
         | Some r \<Rightarrow> if r = '''' then flags else putKey ''correlationId'' (JStr r) flags))"

definition latestEntry :: "ident \<Rightarrow> audit_log_row list \<Rightarrow> audit_log_row option" where
  "latestEntry tenantId rows =
     (case sort_key (\<lambda>r. - al_timestamp r) (filter (\<lambda>r. al_tenantId r = tenantId) rows) of
        [] \<Rightarrow> None
      | r # _ \<Rightarrow> Some r)"

definition entryJson :: "audit_log_row \<Rightarrow> json" where
  "entryJson r = JObj
     [(''tenantId'', JStr (al_tenantId r)), (''actorId'', jsonOpt (al_actorId r)), (''action'', JStr (al_action r)),
      (''entityType'', JStr (al_entityType r)), (''entityId'', jsonOpt (al_entityId r)), (''payload'', al_payload r),
      (''prevHash'', jsonOpt (al_prevHash r)), (''timestamp'', JStr (toISOString (al_timestamp r)))]"

definition logRow :: "flag_env \<Rightarrow> int \<Rightarrow> ident \<Rightarrow> create_audit_dto \<Rightarrow> string option \<Rightarrow> audit_log_row" where
  "logRow F now rowId dto prevHash =
     (let requestedActorId = coalesce (ca_actorId dto) (ca_userId dto);
          metadata = logMetadata F dto
      in \<lparr>al_id = rowId, al_tenantId = ca_tenantId dto,
          al_actorId = (if requestedActorId = Some ''SYSTEM'' then None else requestedActorId),
          al_action = ca_action dto,
          al_entityType = (case coalesce (ca_entityType dto) (ca_resource dto) of None \<Rightarrow> ''Unknown'' | Some e \<Rightarrow> e),
          al_entityId = coalesce (ca_entityId dto) (ca_resourceId dto),
          al_oldValue = (case ca_oldValue dto of None \<Rightarrow> JNull | Some v \<Rightarrow> v),
          al_newValue = (case ca_newValue dto of None \<Rightarrow> JNull | Some v \<Rightarrow> v),
          al_metadata = metadata,
          al_payload = (case ca_payload dto of None \<Rightarrow> metadata | Some p \<Rightarrow> p),
          al_ipAddress = ca_ipAddress dto, al_userAgent = ca_userAgent dto, al_requestId = ca_requestId dto,
          al_prevHash = prevHash, al_entryHash = None, al_timestamp = now\<rparr>)"

definition auditCreate ::
  "crypto \<Rightarrow> flag_env \<Rightarrow> int \<Rightarrow> ident \<Rightarrow> create_audit_dto \<Rightarrow> audit_log_row list \<Rightarrow> audit_log_row list res" where
  "auditCreate C F now rowId dto rows =
     (let prevHash = (case latestEntry (ca_tenantId dto) rows of None \<Rightarrow> None | Some r \<Rightarrow> al_entryHash r);
          row = logRow F now rowId dto prevHash;
          entryHash = sha256 C (stringify (entryJson row))
      in if al_requestId row \<noteq> None \<and> al_requestId row \<in> al_requestId ` set rows
         then Inl (UniqueConstraintViolation ''requestId'')
         else Inr (rows @ [row\<lparr>al_entryHash := Some entryHash\<rparr>]))"

text \<open>The copies for a caller's transaction have the same body on the transaction's client.\<close>

definition logAtomic ::
  "crypto \<Rightarrow> flag_env \<Rightarrow> int \<Rightarrow> ident \<Rightarrow> create_audit_dto \<Rightarrow> audit_log_row list \<Rightarrow> audit_log_row list res" where
  "logAtomic C F now rowId dto tx =
     (let prevHash = (case latestEntry (ca_tenantId dto) tx of None \<Rightarrow> None | Some r \<Rightarrow> al_entryHash r);
          row = logRow F now rowId dto prevHash;
          entryHash = sha256 C (stringify (entryJson row))
      in if al_requestId row \<noteq> None \<and> al_requestId row \<in> al_requestId ` set tx
         then Inl (UniqueConstraintViolation ''requestId'')
         else Inr (tx @ [row\<lparr>al_entryHash := Some entryHash\<rparr>]))"

definition createAtomic ::
  "crypto \<Rightarrow> flag_env \<Rightarrow> int \<Rightarrow> ident \<Rightarrow> create_audit_dto \<Rightarrow> audit_log_row list \<Rightarrow> audit_log_row list res" where
  "createAtomic C F now rowId dto tx = logAtomic C F now rowId dto tx"

section \<open>Checking the log\<close>

datatype tamper_issue = HASH_MISMATCH | MISSING_HASH | BROKEN_CHAIN

record tamper_evidence =
  te_auditLogId :: ident
  te_timestamp :: string
  te_action :: string
  te_issue :: tamper_issue
  te_expectedHash :: "string option"
  te_actualHash :: "string option"

record chain_result =
  cr_tenantId :: ident
  cr_valid :: bool
  cr_totalEntries :: int
  cr_verifiedEntries :: int
  cr_tamperEvidence :: "tamper_evidence list"
  cr_verifiedAt :: string

definition orEmpty :: "string option \<Rightarrow> string" where
  "orEmpty v = (case v of None \<Rightarrow> '''' | Some x \<Rightarrow> x)"

definition entryText :: "audit_log_row \<Rightarrow> string option \<Rightarrow> string" where
  "entryText r prevHash = join ''|''
     [al_tenantId r, orEmpty (al_actorId r), al_action r, al_entityType r, orEmpty (al_entityId r),
      toISOString (al_timestamp r), orEmpty prevHash]"

definition computeEntryHash :: "crypto \<Rightarrow> audit_log_row \<Rightarrow> string option \<Rightarrow> string" where
  "computeEntryHash C r prevHash = sha256 C (entryText r prevHash)"

definition evidenceOf :: "audit_log_row \<Rightarrow> tamper_issue \<Rightarrow> string option \<Rightarrow> string option \<Rightarrow> tamper_evidence" where
  "evidenceOf r issue expected actual =
     \<lparr>te_auditLogId = al_id r, te_timestamp = toISOString (al_timestamp r), te_action = al_action r,
      te_issue = issue, te_expectedHash = expected, te_actualHash = actual\<rparr>"

fun walkLog :: "crypto \<Rightarrow> string option \<Rightarrow> audit_log_row list \<Rightarrow> tamper_evidence list" where
  "walkLog C prevHash [] = []"
| "walkLog C prevHash (r # rows) =
     (if orEmpty (al_entryHash r) = '''' then evidenceOf r MISSING_HASH None None # walkLog C None rows
      else
        (if prevHash \<noteq> None \<and> al_prevHash r \<noteq> prevHash then [evidenceOf r BROKEN_CHAIN prevHash (al_prevHash r)] else []) @
        (if Some (computeEntryHash C r (al_prevHash r)) \<noteq> al_entryHash r
         then [evidenceOf r HASH_MISMATCH (Some (computeEntryHash C r (al_prevHash r))) (al_entryHash r)] else []) @
        walkLog C (al_entryHash r) rows)"

definition verifyChain :: "crypto \<Rightarrow> ident \<Rightarrow> nat \<Rightarrow> int \<Rightarrow> audit_log_row list \<Rightarrow> chain_result" where
  "verifyChain C tenantId limit now rows =
     (let entries = take limit (sort_key al_timestamp (filter (\<lambda>r. al_tenantId r = tenantId) rows));
          tamperEvidence = walkLog C None entries
      in \<lparr>cr_tenantId = tenantId, cr_valid = (tamperEvidence = []), cr_totalEntries = int (length entries),
          cr_verifiedEntries = int (length entries) - int (length tamperEvidence),
          cr_tamperEvidence = tamperEvidence, cr_verifiedAt = toISOString now\<rparr>)"

text \<open>The trigger audit_immutable_trigger raises on every update of the table.\<close>

definition updateAuditLog :: "ident \<Rightarrow> (audit_log_row \<Rightarrow> audit_log_row) \<Rightarrow> audit_log_row list \<Rightarrow> audit_log_row list res" where
  "updateAuditLog auditLogId f rows =
     (if auditLogId \<in> al_id ` set rows then Inl (InternalError ''AUDIT_IMMUTABLE'') else Inr rows)"

definition stampEntry :: "crypto \<Rightarrow> ident \<Rightarrow> audit_log_row list \<Rightarrow> audit_log_row list res" where
  "stampEntry C auditLogId rows =
     (case findFirst (\<lambda>r. al_id r = auditLogId) rows of
        None \<Rightarrow> Inr rows
      | Some entry \<Rightarrow>
          (let earlier = filter (\<lambda>r. al_timestamp r < al_timestamp entry \<and> al_id r \<noteq> al_id entry) rows;
               prevHash = (case latestEntry (al_tenantId entry) earlier of None \<Rightarrow> None | Some r \<Rightarrow> al_entryHash r);
               entryHash = computeEntryHash C entry prevHash
           in updateAuditLog auditLogId (\<lambda>r. r\<lparr>al_entryHash := Some entryHash, al_prevHash := prevHash\<rparr>) rows))"

section \<open>The two do not meet\<close>

inductive log_history :: "crypto \<Rightarrow> flag_env \<Rightarrow> audit_log_row list \<Rightarrow> bool" for C F where
  empty_log: "log_history C F []"
| log_write: "log_history C F rows \<Longrightarrow> auditCreate C F now rowId dto rows = Inr rows' \<Longrightarrow> log_history C F rows'"
| log_in_transaction: "log_history C F rows \<Longrightarrow> createAtomic C F now rowId dto rows = Inr rows' \<Longrightarrow> log_history C F rows'"
| log_stamp: "log_history C F rows \<Longrightarrow> stampEntry C auditLogId rows = Inr rows' \<Longrightarrow> log_history C F rows'"

lemma stampEntry_stamps_nothing: "stampEntry C i rows = Inr rows' \<Longrightarrow> rows' = rows"
  by (auto simp: stampEntry_def updateAuditLog_def Let_def split: option.splits if_splits)

lemma log_rows: "log_history C F rows \<Longrightarrow> r \<in> set rows \<Longrightarrow> al_entryHash r = Some (sha256 C (stringify (entryJson r)))"
proof (induction rule: log_history.induct)
  case (log_write rows now rowId dto rows')
  have "entryJson (x\<lparr>al_entryHash := h\<rparr>) = entryJson x" for x h by (simp add: entryJson_def)
  then show ?case using log_write by (auto simp: auditCreate_def Let_def split: if_splits)
next
  case (log_in_transaction rows now rowId dto rows')
  have "createAtomic C F now rowId dto rows = auditCreate C F now rowId dto rows"
    by (simp add: createAtomic_def logAtomic_def auditCreate_def)
  moreover have "entryJson (x\<lparr>al_entryHash := h\<rparr>) = entryJson x" for x h by (simp add: entryJson_def)
  ultimately show ?case using log_in_transaction by (auto simp: auditCreate_def Let_def split: if_splits)
qed (auto dest: stampEntry_stamps_nothing)

lemma texts_differ: "hd (al_tenantId r) \<noteq> CHR ''{'' \<Longrightarrow> al_tenantId r \<noteq> [] \<Longrightarrow> stringify (entryJson r) \<noteq> entryText r p"
  by (cases "al_tenantId r") (auto simp: entryJson_def entryText_def)

lemma walkLog_reports:
  assumes "r \<in> set rows" "al_entryHash r \<noteq> Some (computeEntryHash C r (al_prevHash r))"
  shows "walkLog C p rows \<noteq> []"
  using assms by (induction rows arbitrary: p) auto

text \<open>A tenant's log verifies only while it is empty, whatever was written through the service.\<close>

theorem every_log_is_reported:
  assumes h: "log_history C F rows" and t: "tenantId \<noteq> []" "hd tenantId \<noteq> CHR ''{''" and "0 < limit"
    and inj: "inj_on (sha256 C) ((\<lambda>r. stringify (entryJson r)) ` set rows \<union> (\<lambda>r. entryText r (al_prevHash r)) ` set rows)"
  shows "cr_valid (verifyChain C tenantId limit now rows) \<longleftrightarrow> (\<forall>r \<in> set rows. al_tenantId r \<noteq> tenantId)"
proof
  let ?mine = "sort_key al_timestamp (filter (\<lambda>r. al_tenantId r = tenantId) rows)"
  assume v: "cr_valid (verifyChain C tenantId limit now rows)"
  show "\<forall>r \<in> set rows. al_tenantId r \<noteq> tenantId"
  proof (rule ccontr)
    assume "\<not> (\<forall>r \<in> set rows. al_tenantId r \<noteq> tenantId)"
    then have "set ?mine \<noteq> {}" by auto
    then obtain r rs where r: "?mine = r # rs" by (cases ?mine) auto
    have "r \<in> set ?mine" by (simp only: r list.set_intros)
    then have mem: "r \<in> set rows" "al_tenantId r = tenantId" by simp_all
    have "sha256 C (stringify (entryJson r)) \<noteq> sha256 C (entryText r (al_prevHash r))"
      using inj_onD [OF inj] texts_differ [of r] mem t by blast
    then have "al_entryHash r \<noteq> Some (computeEntryHash C r (al_prevHash r))"
      using log_rows [OF h mem(1)] by (simp add: computeEntryHash_def)
    moreover have "r \<in> set (take limit ?mine)" using \<open>0 < limit\<close> by (cases limit) (simp_all add: r)
    ultimately show False using v walkLog_reports by (simp add: verifyChain_def Let_def)
  qed
next
  assume "\<forall>r \<in> set rows. al_tenantId r \<noteq> tenantId"
  then have "filter (\<lambda>r. al_tenantId r = tenantId) rows = []" by (simp add: filter_empty_conv)
  then show "cr_valid (verifyChain C tenantId limit now rows)" by (simp add: verifyChain_def)
qed

end
