(* ===== verification/Audit_Events.thy ===== *)
theory Audit_Events
  imports Audit_Log Mpesa_Messages
begin

text \<open>
  The way of an audit event to its chain: AuditEventService.enqueue masks and bounds the states it is
  given (src/src/modules/audit/audit-event.service.ts, audit.masker.service.ts) and puts a job on the
  queue; AuditQueueProcessor (src/src/modules/queue/processors/audit-queue.processor.ts) persists it
  or, after the last attempt, moves it to the dead letters. Jobs are taken from the queue in any
  order. A call that finds Redis down drops its event. The states are JSON values: the last branch of
  boundValue, which writes any other value (a BigInt, a symbol, a function) as a text, is left out.

  The lemmas show that no stored state holds a bare telephone number or a value under a sensitive
  key, and how long its text can be.
\<close>

section \<open>Masking\<close>

definition SENSITIVE_KEYS :: "string list" where
  "SENSITIVE_KEYS = [''password'', ''passwordHash'', ''currentPassword'', ''newPassword'', ''confirmPassword'',
     ''refreshToken'', ''accessToken'', ''token'', ''idNumber'', ''nationalId'', ''kraPin'', ''documentUrl'',
     ''documentKey'', ''kycDocument'', ''securityCredential'']"

definition lowerCase :: "string \<Rightarrow> string" where
  "lowerCase s = map (\<lambda>c. if 65 \<le> (of_char c :: nat) \<and> (of_char c :: nat) \<le> 90 then char_of (of_char c + 32 :: nat) else c) s"

fun containsText :: "string \<Rightarrow> string \<Rightarrow> bool" where
  "containsText p [] = (p = [])"
| "containsText p (c # s) = (startsWith (c # s) p \<or> containsText p s)"

definition keyMatches :: "string list \<Rightarrow> string \<Rightarrow> bool" where
  "keyMatches alternatives key \<longleftrightarrow> list_ex (\<lambda>p. containsText p (lowerCase key)) alternatives"

definition sensitiveKey :: "string \<Rightarrow> bool" where
  "sensitiveKey key \<longleftrightarrow> key \<in> set SENSITIVE_KEYS \<or>
     keyMatches [''national'', ''idnumber'', ''document'', ''password'', ''token''] key"


definition spaceChar :: "char \<Rightarrow> bool" where
  "spaceChar c \<longleftrightarrow> 9 \<le> (of_char c :: nat) \<and> (of_char c :: nat) \<le> 13 \<or> of_char c = (32 :: nat) \<or> of_char c = (160 :: nat)"

definition barePhone :: "string \<Rightarrow> bool" where
  "barePhone s \<longleftrightarrow>
     (let d = (if startsWith s ''+'' then drop 1 s else s) in 9 \<le> length d \<and> length d \<le> 15 \<and> list_all isDigit d)"

definition bareEmail :: "string \<Rightarrow> bool" where
  "bareEmail s \<longleftrightarrow>
     (let local = takeWhile (\<lambda>c. c \<noteq> CHR ''@'') s; domain = tl (dropWhile (\<lambda>c. c \<noteq> CHR ''@'') s)
      in CHR ''@'' \<in> set s \<and> local \<noteq> [] \<and> CHR ''@'' \<notin> set domain \<and> \<not> list_ex spaceChar s \<and>
         domain \<noteq> [] \<and> CHR ''.'' \<in> set (butlast (tl domain)))"

definition maskPhone :: "string \<Rightarrow> string" where
  "maskPhone phone =
     (let d = rev (takeWhile isDigit (rev phone)); n = length d in
      if n < 8 then phone
      else take (length phone - n) phone @ take 3 d @ ''***'' @ drop (n - 4) d)"

definition maskEmail :: "string \<Rightarrow> string" where
  "maskEmail email =
     (if CHR ''@'' \<notin> set email then ''[REDACTED]''
      else take 2 (takeWhile (\<lambda>c. c \<noteq> CHR ''@'') email) @ ''***'' @ dropWhile (\<lambda>c. c \<noteq> CHR ''@'') email)"

definition maskString :: "string \<Rightarrow> string" where
  "maskString v = (if barePhone v then maskPhone v else if bareEmail v then maskEmail v else v)"

lemma member_size: "kv \<in> set kvs \<Longrightarrow> size (snd kv) < size (JObj kvs)"
  by (induction kvs) (auto simp: size_prod_simp)

lemma item_size: "v \<in> set vs \<Longrightarrow> size v < size (JArr vs)"
  by (induction vs) auto

definition maskMember :: "string \<Rightarrow> json \<Rightarrow> json \<Rightarrow> json" where
  "maskMember key nested masked =
     (if sensitiveKey key then JStr ''[REDACTED]''
      else case nested of
          JStr s \<Rightarrow>
            (if keyMatches [''phone'', ''msisdn'', ''mobile''] key then JStr (maskPhone s)
             else if keyMatches [''email''] key then JStr (maskEmail s)
             else masked)
        | _ \<Rightarrow> masked)"

function maskJson :: "json \<Rightarrow> json" where
  "maskJson (JStr s) = JStr (maskString s)"
| "maskJson (JArr vs) = JArr (map maskJson vs)"
| "maskJson (JObj kvs) = JObj (map (\<lambda>kv. (fst kv, maskMember (fst kv) (snd kv) (maskJson (snd kv)))) kvs)"
| "maskJson JNull = JNull"
| "maskJson (JBool b) = JBool b"
| "maskJson (JNum t) = JNum t"
  by pat_completeness auto
termination
  by (relation "measure size") (use member_size item_size in auto)

section \<open>Bounding\<close>

definition AUDIT_MAX_FIELD_BYTES :: nat where "AUDIT_MAX_FIELD_BYTES = 4096"
definition AUDIT_MAX_STRING_BYTES :: nat where "AUDIT_MAX_STRING_BYTES = 1024"
definition AUDIT_MAX_DEPTH :: nat where "AUDIT_MAX_DEPTH = 4"
definition AUDIT_MAX_ARRAY_ITEMS :: nat where "AUDIT_MAX_ARRAY_ITEMS = 25"
definition AUDIT_MAX_OBJECT_KEYS :: nat where "AUDIT_MAX_OBJECT_KEYS = 50"

definition byteLength :: "string \<Rightarrow> nat" where
  "byteLength s = sum_list (map (\<lambda>c. if of_char c < (128 :: nat) then 1 else 2) s)"

fun shrinkTo :: "string \<Rightarrow> nat \<Rightarrow> nat \<Rightarrow> nat" where
  "shrinkTo v maxBytes 0 = 0"
| "shrinkTo v maxBytes (Suc e) =
     (if maxBytes < byteLength (take (Suc e) v) then shrinkTo v maxBytes e else Suc e)"

definition truncateString :: "string \<Rightarrow> nat \<Rightarrow> string" where
  "truncateString v maxBytes =
     (if byteLength v \<le> maxBytes then v
      else take (shrinkTo v maxBytes (min (length v) maxBytes)) v @ ''...[truncated]'')"

function boundValue :: "json \<Rightarrow> nat \<Rightarrow> json" where
  "boundValue JNull depth = JNull"
| "boundValue (JNum t) depth = JNum t"
| "boundValue (JBool b) depth = JBool b"
| "boundValue (JStr s) depth = JStr (truncateString s AUDIT_MAX_STRING_BYTES)"
| "boundValue (JArr vs) depth =
     (if AUDIT_MAX_DEPTH \<le> depth then JStr ''[Truncated: max audit depth reached]''
      else JArr (map (\<lambda>v. boundValue v (depth + 1)) (take AUDIT_MAX_ARRAY_ITEMS vs) @
        (if AUDIT_MAX_ARRAY_ITEMS < length vs
         then [JStr (''[Truncated: '' @ showInt (int (length vs - AUDIT_MAX_ARRAY_ITEMS)) @ '' additional items]'')] else [])))"
| "boundValue (JObj kvs) depth =
     (if AUDIT_MAX_DEPTH \<le> depth then JStr ''[Truncated: max audit depth reached]''
      else
        (let entries = take AUDIT_MAX_OBJECT_KEYS kvs;
             output = map (\<lambda>kv. (fst kv, boundValue (snd kv) (depth + 1))) entries;
             omitted = length kvs - length entries
         in JObj (if 0 < omitted then putKey ''__truncatedKeys'' (JNum (showInt (int omitted))) output else output)))"
  by pat_completeness auto
termination
  by (relation "measure (\<lambda>(v, d). size v)") (use member_size item_size in \<open>auto dest!: in_set_takeD\<close>)

definition truncateToBytes :: "json \<Rightarrow> nat \<Rightarrow> json" where
  "truncateToBytes v maxBytes =
     (if byteLength (stringify v) \<le> maxBytes then v
      else JObj [(''__truncated'', JBool True), (''summary'', JStr (truncateString (stringify v) (maxBytes - 128)))])"

definition boundRecord :: "json \<Rightarrow> json" where
  "boundRecord v =
     (let bounded = boundValue v 0;
          rec = (case bounded of JObj kvs \<Rightarrow> bounded | _ \<Rightarrow> JObj [(''value'', bounded)])
      in truncateToBytes rec AUDIT_MAX_FIELD_BYTES)"

definition maskState :: "json \<Rightarrow> json" where
  "maskState v = (if v = JNull then JNull else boundRecord (maskJson v))"
section \<open>What is left of a state\<close>

function clean :: "json \<Rightarrow> bool" where
  "clean JNull = True"
| "clean (JBool b) = True"
| "clean (JNum t) = True"
| "clean (JStr s) = (\<not> barePhone s)"
| "clean (JArr vs) = (\<forall>v \<in> set vs. clean v)"
| "clean (JObj kvs) = (\<forall>kv \<in> set kvs. (sensitiveKey (fst kv) \<longrightarrow> snd kv = JStr ''[REDACTED]'') \<and> clean (snd kv))"
  by pat_completeness auto
termination
  by (relation "measure size") (use member_size item_size in auto)

lemma barePhone_parts:
  assumes "barePhone s"
  obtains p d where "s = p @ d" "9 \<le> length d" "list_all isDigit d" "p = [] \<or> p = ''+''"
proof (cases "startsWith s ''+''")
  case True
  then have "s = ''+'' @ drop 1 s" unfolding startsWith_def by (metis append_take_drop_id length_Cons list.size(3) One_nat_def)
  moreover have "9 \<le> length (drop 1 s)" "list_all isDigit (drop 1 s)" using assms True by (simp_all add: barePhone_def Let_def)
  ultimately show ?thesis using that by blast
next
  case False
  then show ?thesis using assms that [of "[]" s] by (simp add: barePhone_def Let_def)
qed

lemma barePhone_chars: "barePhone s \<Longrightarrow> set s \<subseteq> set ''+0123456789''"
proof (erule barePhone_parts)
  fix p d assume "s = p @ d" "list_all isDigit d" "p = [] \<or> p = ''+''"
  moreover define A where "A = set ''0123456789''"
  ultimately have "set s \<subseteq> insert (CHR ''+'') A" by (auto simp only: list_all_iff isDigit_def set_append list.set)
  then show "set s \<subseteq> set ''+0123456789''" by (simp only: A_def list.set)
qed

lemma not_barePhone: "c \<in> set s \<Longrightarrow> c \<notin> set ''+0123456789'' \<Longrightarrow> \<not> barePhone s"
  using barePhone_chars by blast

lemma maskPhone_hides: "\<not> barePhone (maskPhone s)"
proof (cases "length (takeWhile isDigit (rev s)) < 8")
  case True
  have "\<not> barePhone s"
  proof
    assume b: "barePhone s"
    then obtain p d where s: "s = p @ d" "9 \<le> length d" "list_all isDigit d" "p = [] \<or> p = ''+''"
      by (rule barePhone_parts)
    then have "takeWhile isDigit (rev s) = rev d @ takeWhile isDigit (rev p)"
      using takeWhile_append2 [of "rev d" isDigit "rev p"] by (simp add: list_all_iff)
    with True s(2) show False by simp
  qed
  then show ?thesis using True by (simp add: maskPhone_def Let_def)
next
  case False
  then have "CHR ''*'' \<in> set (maskPhone s)" by (simp add: maskPhone_def Let_def)
  then show ?thesis by (rule not_barePhone) simp
qed

lemma maskEmail_hides: "\<not> barePhone (maskEmail s)"
  by (rule not_barePhone [of "if CHR ''@'' \<in> set s then CHR ''*'' else CHR ''[''"]) (auto simp: maskEmail_def)

lemma maskString_hides: "\<not> barePhone (maskString s)"
  by (simp add: maskString_def maskPhone_hides maskEmail_hides)

lemma redacted: "\<not> barePhone ''[REDACTED]''" "\<not> barePhone ''[Truncated: max audit depth reached]''"
  by (rule not_barePhone [of "CHR ''[''"]; simp)+

lemma clean_maskMember: "clean masked \<Longrightarrow> clean (maskMember k v masked)"
  by (auto simp: maskMember_def redacted maskPhone_hides maskEmail_hides split: json.splits)

lemma clean_maskJson: "clean (maskJson v)"
proof (induction v rule: maskJson.induct)
  case (3 kvs)
  then show ?case by (auto simp: clean_maskMember) (simp add: maskMember_def)
qed (auto simp: maskString_hides)

lemma bracket_hides: "CHR '']'' \<in> set s \<Longrightarrow> \<not> barePhone s"
  by (rule not_barePhone [of "CHR '']''"]) simp_all

lemma truncated_hides: "\<not> barePhone s \<Longrightarrow> \<not> barePhone (truncateString s n)"
  by (simp add: truncateString_def bracket_hides)

lemma putKey_set: "kv \<in> set (putKey k v kvs) \<Longrightarrow> kv = (k, v) \<or> kv \<in> set kvs"
  by (induction kvs) (auto split: if_splits)

lemma truncatedKeys_plain: "\<not> sensitiveKey ''__truncatedKeys''" "\<not> sensitiveKey ''__truncated''"
  "\<not> sensitiveKey ''summary''" "\<not> sensitiveKey ''value''"
  by code_simp+

lemma redacted_short: "truncateString ''[REDACTED]'' AUDIT_MAX_STRING_BYTES = ''[REDACTED]''"
  by code_simp

lemma clean_boundValue: "clean v \<Longrightarrow> clean (boundValue v d)"
proof (induction v d rule: boundValue.induct)
  case (5 vs d)
  then have "\<forall>v \<in> set (take AUDIT_MAX_ARRAY_ITEMS vs). clean (boundValue v (d + 1))" if "\<not> AUDIT_MAX_DEPTH \<le> d"
    using that in_set_takeD [of _ AUDIT_MAX_ARRAY_ITEMS vs] by auto
  then show ?case by (auto simp: redacted bracket_hides)
next
  case (6 kvs d)
  have kv: "clean (boundValue (snd kv) (d + 1)) \<and> (sensitiveKey (fst kv) \<longrightarrow> boundValue (snd kv) (d + 1) = JStr ''[REDACTED]'')"
    if "kv \<in> set (take AUDIT_MAX_OBJECT_KEYS kvs)" "\<not> AUDIT_MAX_DEPTH \<le> d" for kv
    using 6 that in_set_takeD [OF that(1)] by (auto simp: redacted_short)
  show ?case
    using kv by (auto simp: Let_def redacted truncatedKeys_plain dest!: putKey_set split: if_splits)
qed (auto simp: truncated_hides)

lemma clean_maskState: "clean (maskState v)"
proof -
  have t: "clean (truncateToBytes (JObj kvs) n)" if "clean (JObj kvs)" for kvs n
  proof -
    have "\<not> barePhone (stringify (JObj kvs))" by (rule not_barePhone [of "CHR ''{''"]) simp_all
    then show ?thesis using that truncated_hides
      by (simp add: truncateToBytes_def truncatedKeys_plain del: stringify.simps)
  qed
  have "clean (boundValue (maskJson v) 0)" by (intro clean_boundValue clean_maskJson)
  then show ?thesis
    by (auto simp: maskState_def boundRecord_def Let_def truncatedKeys_plain intro!: t split: json.splits)
qed

section \<open>How long a stored state can be\<close>

lemma byteLength_append [simp]: "byteLength (a @ b) = byteLength a + byteLength b"
  by (simp add: byteLength_def)

lemma byteLength_Nil [simp]: "byteLength [] = 0"
  by (simp add: byteLength_def)

lemma byteLength_Cons: "byteLength (c # s) = (if of_char c < (128 :: nat) then 1 else 2) + byteLength s"
  by (simp add: byteLength_def)

definition printable :: "string \<Rightarrow> bool" where
  "printable s \<longleftrightarrow> (\<forall>c \<in> set s. 32 \<le> (of_char c :: nat))"

lemma printable_append [simp]: "printable (a @ b) \<longleftrightarrow> printable a \<and> printable b"
  by (auto simp: printable_def)

lemma printable_Cons: "printable (c # s) \<longleftrightarrow> 32 \<le> (of_char c :: nat) \<and> printable s"
  by (simp add: printable_def)

lemma printable_Nil [simp]: "printable []"
  by (simp add: printable_def)

lemma escape_bytes: "32 \<le> (of_char c :: nat) \<Longrightarrow> byteLength (escapeChar c) \<le> 2 * byteLength [c]"
  by (auto simp: escapeChar_def byteLength_Cons)

lemma escaped_bytes: "printable s \<Longrightarrow> byteLength (concat (map escapeChar s)) \<le> 2 * byteLength s"
proof (induction s)
  case (Cons c s)
  then have "byteLength (escapeChar c) \<le> 2 * byteLength [c]" by (intro escape_bytes) (simp add: printable_Cons)
  then show ?case using Cons by (simp add: printable_Cons byteLength_Cons)
qed simp

lemma hexDigit_printable: "n < 16 \<Longrightarrow> 32 \<le> (of_char (hexDigit n) :: nat)"
  by (simp add: hexDigit_def)

lemma escape_printable: "printable (escapeChar c)"
  by (auto simp: escapeChar_def printable_Cons intro!: hexDigit_printable)

lemma jsonString_printable: "printable (jsonString s)"
  using escape_printable by (induction s) (auto simp: jsonString_def printable_Cons)

lemma join_printable: "printable sep \<Longrightarrow> \<forall>x \<in> set xs. printable x \<Longrightarrow> printable (join sep xs)"
  by (induction sep xs rule: join.induct) auto

lemma stringify_printable: "wf_json v \<Longrightarrow> printable (stringify v)"
proof (induction v)
  case (JArr vs)
  then show ?case by (auto simp: wf_json_items printable_Cons intro!: join_printable)
next
  case (JObj kvs)
  have "printable (jsonMember (map_prod id stringify kv))" if "kv \<in> set kvs" for kv
    using JObj.IH [OF that, of "snd kv"] JObj.prems that jsonString_printable
    by (auto simp: wf_json_members wf_member_def snds.simps jsonMember_def printable_Cons)
  then show ?case by (auto simp: printable_Cons intro!: join_printable)
next
  case (JNum t)
  then show ?case by (auto simp: printable_def numeral_text_def)
qed (simp_all add: printable_Cons jsonString_printable)

lemma shrinkTo_bytes: "byteLength (take (shrinkTo v n e) v) \<le> n"
  by (induction e) auto

lemma truncateString_bytes: "byteLength (truncateString v n) \<le> n + 14"
  using shrinkTo_bytes [of v n] by (simp add: truncateString_def byteLength_Cons)

lemma truncated_escaped_bytes:
  assumes "printable v"
  shows "byteLength (jsonString (truncateString v n)) \<le> 2 * n + 16"
proof -
  let ?cut = "if byteLength v \<le> n then v else take (shrinkTo v n (min (length v) n)) v"
  have p: "printable ?cut" using assms by (auto simp: printable_def dest: in_set_takeD)
  have "byteLength ?cut \<le> n" using shrinkTo_bytes by simp
  then have "byteLength (concat (map escapeChar ?cut)) \<le> 2 * n" using escaped_bytes [OF p] by linarith
  moreover have "concat (map escapeChar ''...[truncated]'') = ''...[truncated]''" by code_simp
  ultimately show ?thesis by (auto simp: truncateString_def jsonString_def byteLength_Cons)
qed

lemma wf_maskMember: "wf_json masked \<Longrightarrow> wf_json (maskMember k v masked)"
  by (simp add: maskMember_def split: json.splits)

lemma wf_maskJson: "wf_json v \<Longrightarrow> wf_json (maskJson v)"
proof (induction v rule: maskJson.induct)
  case (3 kvs)
  have "wf_member (fst kv, maskMember (fst kv) (snd kv) (maskJson (snd kv)))" if "kv \<in> set kvs" for kv
    using 3(1) [OF that] 3(2) that by (simp add: wf_member_def wf_json_members wf_maskMember)
  then show ?case using 3 by (auto simp: wf_json_members comp_def)
qed (auto simp: wf_json_items)

lemma putKey_distinct: "distinct (map fst kvs) \<Longrightarrow> distinct (map fst (putKey k v kvs))"
proof (induction kvs)
  case (Cons kv kvs)
  have "fst ` set (putKey k v kvs) \<subseteq> insert k (fst ` set kvs)" using putKey_set by force
  then show ?case using Cons by auto
qed simp

lemma wf_boundValue: "wf_json v \<Longrightarrow> wf_json (boundValue v d)"
proof (induction v d rule: boundValue.induct)
  case (5 vs d)
  then have "\<forall>v \<in> set (take AUDIT_MAX_ARRAY_ITEMS vs). wf_json (boundValue v (d + 1))" if "\<not> AUDIT_MAX_DEPTH \<le> d"
    using that in_set_takeD [of _ AUDIT_MAX_ARRAY_ITEMS vs] by (auto simp: wf_json_items)
  then show ?case by (auto simp: wf_json_items)
next
  case (6 kvs d)
  let ?es = "take AUDIT_MAX_OBJECT_KEYS kvs" and ?b = "\<lambda>kv. (fst kv, boundValue (snd kv) (d + 1))"
  have kv: "wf_json (boundValue (snd kv) (d + 1))" if "kv \<in> set ?es" "\<not> AUDIT_MAX_DEPTH \<le> d" for kv
    using 6 that in_set_takeD [OF that(1)] by (auto simp: wf_json_members wf_member_def)
  have "distinct (map fst (map ?b ?es))" using 6(2) by (simp add: wf_json_members comp_def flip: take_map)
  then show ?case
    using kv putKey_distinct [of "map ?b ?es"]
    by (auto simp: Let_def wf_json_members wf_member_def numeral_showInt dest!: putKey_set)
qed auto

definition longest_state :: nat where "longest_state = 7983"

lemma summary_text:
  "stringify (JObj [(''__truncated'', JBool True), (''summary'', JStr s)]) =
     CHR 0x7B # CHR 0x22 # ''__truncated'' @ CHR 0x22 # '':true,'' @ CHR 0x22 # ''summary'' @ CHR 0x22 # '':'' @ jsonString s @ ''}''"
proof -
  have "jsonString ''__truncated'' = CHR 0x22 # ''__truncated'' @ [CHR 0x22]"
    "jsonString ''summary'' = CHR 0x22 # ''summary'' @ [CHR 0x22]" by code_simp+
  then show ?thesis by (simp add: jsonMember_def)
qed

lemma truncateToBytes_bytes:
  assumes "wf_json w"
  shows "byteLength (stringify (truncateToBytes w AUDIT_MAX_FIELD_BYTES)) \<le> longest_state"
proof (cases "byteLength (stringify w) \<le> AUDIT_MAX_FIELD_BYTES")
  case True
  then show ?thesis by (simp add: truncateToBytes_def AUDIT_MAX_FIELD_BYTES_def longest_state_def)
next
  case False
  have "byteLength (jsonString (truncateString (stringify w) (AUDIT_MAX_FIELD_BYTES - 128))) \<le> 2 * 3968 + 16"
    using truncated_escaped_bytes [OF stringify_printable [OF assms], of 3968] by (simp add: AUDIT_MAX_FIELD_BYTES_def)
  moreover have "truncateToBytes w AUDIT_MAX_FIELD_BYTES = JObj [(''__truncated'', JBool True),
      (''summary'', JStr (truncateString (stringify w) (AUDIT_MAX_FIELD_BYTES - 128)))]"
    using False by (simp add: truncateToBytes_def)
  ultimately show ?thesis by (simp only: summary_text) (simp add: byteLength_Cons longest_state_def)
qed

lemma maskState_bounds:
  assumes "wf_json v"
  shows "wf_json (maskState v)" "byteLength (stringify (maskState v)) \<le> longest_state"
proof -
  have b: "wf_json (boundValue (maskJson v) 0)" by (intro wf_boundValue wf_maskJson assms)
  define r where "r = (case boundValue (maskJson v) 0 of JObj kvs \<Rightarrow> boundValue (maskJson v) 0
    | _ \<Rightarrow> JObj [(''value'', boundValue (maskJson v) 0)])"
  have r: "wf_json r"
    using b by (cases "boundValue (maskJson v) 0") (simp_all add: r_def wf_json_members wf_member_def)
  have m: "maskState v = (if v = JNull then JNull else truncateToBytes r AUDIT_MAX_FIELD_BYTES)"
    by (simp add: maskState_def boundRecord_def r_def Let_def)
  show "wf_json (maskState v)" using r by (auto simp: m truncateToBytes_def wf_json_members wf_member_def)
  show "byteLength (stringify (maskState v)) \<le> longest_state"
    using truncateToBytes_bytes [OF r] by (simp add: m byteLength_Cons longest_state_def)
qed

section \<open>From a call to the chain\<close>

record audit_input =
  ai_correlationId :: "string option"
  ai_tenantId :: ident
  ai_userId :: "string option"
  ai_role :: "string option"
  ai_action :: string
  ai_resourceType :: "string option"
  ai_resourceId :: "string option"
  ai_oldState :: json
  ai_newState :: json
  ai_metadata :: json
  ai_ip :: "string option"
  ai_userAgent :: "string option"
  ai_endpoint :: "string option"
  ai_method :: "string option"
  ai_statusCode :: "int option"
  ai_success :: "bool option"
  ai_errorCode :: "string option"

record persist_job =
  pj_id :: string
  pj_payload :: audit_payload
  pj_attemptsMade :: nat

record audit_pipeline =
  persistQueue :: "persist_job list"
  deadLetters :: "audit_payload list"
  auditStore :: audit_store

text \<open>The queue takes a job, ignores one whose id it still knows, or cannot be reached.\<close>

datatype queue_answer = Taken | Ignored | Unreachable

definition auditPayload :: "int \<Rightarrow> ident \<Rightarrow> audit_input \<Rightarrow> audit_payload" where
  "auditPayload now fresh i =
     \<lparr>av_correlationId = (case ai_correlationId i of None \<Rightarrow> fresh | Some c \<Rightarrow> c), av_tenantId = ai_tenantId i,
      av_userId = ai_userId i, av_role = ai_role i, av_action = ai_action i, av_resourceType = ai_resourceType i,
      av_resourceId = ai_resourceId i, av_oldState = maskState (ai_oldState i), av_newState = maskState (ai_newState i),
      av_metadata = maskState (ai_metadata i), av_ip = ai_ip i, av_userAgent = ai_userAgent i,
      av_endpoint = ai_endpoint i, av_method = ai_method i,
      av_statusCode = (case ai_statusCode i of None \<Rightarrow> 0 | Some c \<Rightarrow> c),
      av_success = (case ai_success i of None \<Rightarrow> True | Some b \<Rightarrow> b), av_errorCode = ai_errorCode i,
      pl_timestamp = Some now\<rparr>"

definition auditJobId :: "audit_payload \<Rightarrow> int \<Rightarrow> string" where
  "auditJobId p now = ''audit.'' @ av_tenantId p @ ''.'' @ av_correlationId p @ ''.'' @ av_action p @ ''.'' @ showInt now"

definition enqueue :: "queue_answer \<Rightarrow> int \<Rightarrow> int \<Rightarrow> ident \<Rightarrow> audit_input \<Rightarrow> audit_pipeline \<Rightarrow> audit_pipeline" where
  "enqueue answer now later fresh i p =
     (let payload = auditPayload now fresh i in
      if answer = Taken
      then p\<lparr>persistQueue := persistQueue p @ [\<lparr>pj_id = auditJobId payload later, pj_payload = payload, pj_attemptsMade = 0\<rparr>]\<rparr>
      else p)"

definition processAuditJob :: "crypto \<Rightarrow> int \<Rightarrow> ident \<Rightarrow> nat \<Rightarrow> audit_pipeline \<Rightarrow> audit_pipeline" where
  "processAuditJob C now eventId i p =
     (if i < length (persistQueue p)
      then p\<lparr>persistQueue := take i (persistQueue p) @ drop (i + 1) (persistQueue p),
             auditStore := snd (persistEvent C now eventId (pj_payload (persistQueue p ! i)) (auditStore p))\<rparr>
      else p)"

definition failedMetadata :: "string \<Rightarrow> persist_job \<Rightarrow> int \<Rightarrow> json" where
  "failedMetadata reason job now =
     JObj (putKey ''failedAt'' (JStr (toISOString now)) (putKey ''originalJobId'' (JStr (pj_id job))
       (putKey ''failedReason'' (JStr reason)
         (case av_metadata (pj_payload job) of JObj kvs \<Rightarrow> kvs | _ \<Rightarrow> []))))"

definition onAuditJobFailed :: "int \<Rightarrow> string \<Rightarrow> nat \<Rightarrow> audit_pipeline \<Rightarrow> audit_pipeline" where
  "onAuditJobFailed now reason i p =
     (if i < length (persistQueue p) then
        (let job = (persistQueue p ! i)\<lparr>pj_attemptsMade := pj_attemptsMade (persistQueue p ! i) + 1\<rparr> in
         if pj_attemptsMade job < 5 then p\<lparr>persistQueue := (persistQueue p)[i := job]\<rparr>
         else p\<lparr>persistQueue := take i (persistQueue p) @ drop (i + 1) (persistQueue p),
                deadLetters := deadLetters p @ [(pj_payload job)\<lparr>av_metadata := failedMetadata reason job now\<rparr>]\<rparr>)
      else p)"

definition wf_input :: "audit_input \<Rightarrow> bool" where
  "wf_input i \<longleftrightarrow> wf_json (ai_oldState i) \<and> wf_json (ai_newState i) \<and> wf_json (ai_metadata i) \<and>
     (case ai_statusCode i of None \<Rightarrow> True | Some c \<Rightarrow> 0 \<le> c)"

definition empty_pipeline :: audit_pipeline where
  "empty_pipeline = \<lparr>persistQueue = [], deadLetters = [], auditStore = no_events\<rparr>"

inductive audit_run :: "crypto \<Rightarrow> audit_pipeline \<Rightarrow> bool" for C where
  audit_start: "audit_run C empty_pipeline"
| audit_enqueue: "audit_run C p \<Longrightarrow> wf_input i \<Longrightarrow> audit_run C (enqueue answer now later fresh i p)"
| audit_process: "audit_run C p \<Longrightarrow> audit_run C (processAuditJob C now eventId n p)"
| audit_fail: "audit_run C p \<Longrightarrow> audit_run C (onAuditJobFailed now reason n p)"

definition fit_to_store :: "'a audit_fields_scheme \<Rightarrow> bool" where
  "fit_to_store e \<longleftrightarrow> wf_fields e \<and> (\<forall>v \<in> {av_oldState e, av_newState e, av_metadata e}.
     clean v \<and> byteLength (stringify v) \<le> longest_state)"

lemma auditPayload_fits: "wf_input i \<Longrightarrow> fit_to_store (auditPayload now fresh i)"
  using maskState_bounds clean_maskState
  by (auto simp: fit_to_store_def auditPayload_def wf_input_def wf_fields_def split: option.splits)

lemma persistEvent_fits:
  assumes "fit_to_store p" "\<forall>e \<in> set (auditEvents s). fit_to_store e"
  shows "\<forall>e \<in> set (auditEvents (snd (persistEvent C now i p s))). fit_to_store e"
proof -
  have "fit_to_store (jobRow C (now, i, p) s)"
    using assms(1) by (simp add: jobRow_def eventRow_def Let_def fit_to_store_def wf_fields_def)
  then show ?thesis
    using assms(2) persistJob_events [of C "(now, i, p)" s] by (auto simp: persistJob_def split: if_splits)
qed

lemma audit_run_fits:
  "audit_run C p \<Longrightarrow> (\<forall>e \<in> set (auditEvents (auditStore p)). fit_to_store e) \<and>
     (\<forall>j \<in> set (persistQueue p). fit_to_store (pj_payload j))"
proof (induction rule: audit_run.induct)
  case (audit_process p now eventId n)
  then show ?case
    using persistEvent_fits [of "pj_payload (persistQueue p ! n)" "auditStore p" C now eventId]
      nth_mem [of n "persistQueue p"]
    by (auto simp: processAuditJob_def dest: in_set_takeD in_set_dropD)
next
  case (audit_fail p now reason n)
  then show ?case
    by (auto simp: onAuditJobFailed_def Let_def dest: in_set_takeD in_set_dropD dest!: subsetD [OF set_update_subset_insert])
qed (auto simp: empty_pipeline_def no_events_def enqueue_def Let_def auditPayload_fits)

text \<open>
  C22. Whatever is enqueued, in whatever order jobs are persisted and whatever attempts fail, no stored audit event has
  a bare telephone number (nine to fifteen digits) as a string or anything but a redaction mark
  under a sensitive key, at any depth of its old state, new state and metadata, and the JSON text of
  each of these is at most 7983 bytes long.
\<close>

theorem audit_events_clean:
  assumes "audit_run C p" "e \<in> set (auditEvents (auditStore p))" "v \<in> {av_oldState e, av_newState e, av_metadata e}"
  shows "clean v \<and> byteLength (stringify v) \<le> longest_state"
  using audit_run_fits [OF assms(1)] assms(2,3) by (auto simp: fit_to_store_def)

definition login :: audit_input where
  "login = \<lparr>ai_correlationId = None, ai_tenantId = ''t'', ai_userId = None, ai_role = None, ai_action = ''LOGIN'',
     ai_resourceType = None, ai_resourceId = None, ai_oldState = JNull,
     ai_newState = JObj [(''password'', JStr ''secret''), (''contact'', JStr ''+254712345678'')], ai_metadata = JNull,
     ai_ip = None, ai_userAgent = None, ai_endpoint = None, ai_method = None, ai_statusCode = None, ai_success = None,
     ai_errorCode = None\<rparr>"

lemma login_masked:
  "maskState (ai_newState login) = JObj [(''password'', JStr ''[REDACTED]''), (''contact'', JStr ''+254***5678'')]"
  by code_simp
definition login_run :: audit_pipeline where
  "login_run = processAuditJob desk_crypto 7 ''i'' 0 (enqueue Taken 5 6 ''c'' login empty_pipeline)"

lemma login_stored: "\<exists>e. auditEvents (auditStore login_run) = [e] \<and> av_newState e = maskState (ai_newState login)"
proof -
  let ?j = "(7, ''i'', auditPayload 5 ''c'' login)"
  have "auditEvents (auditStore login_run) = auditEvents (persistJob desk_crypto ?j no_events)"
    by (simp add: login_run_def processAuditJob_def enqueue_def empty_pipeline_def Let_def persistJob_def)
  moreover have "av_newState (jobRow desk_crypto ?j no_events) = maskState (ai_newState login)"
    by (simp add: jobRow_def eventRow_def Let_def auditPayload_def)
  ultimately show ?thesis by (simp add: persistJob_events no_events_def)
qed

theorem audit_events_clean_witness:
  "\<exists>e. auditEvents (auditStore login_run) = [e] \<and> clean (av_newState e) \<and>
     av_newState e = JObj [(''password'', JStr ''[REDACTED]''), (''contact'', JStr ''+254***5678'')]"
proof -
  have "audit_run desk_crypto login_run"
    unfolding login_run_def by (intro audit_process audit_enqueue audit_start) code_simp
  moreover obtain e where e: "auditEvents (auditStore login_run) = [e]" "av_newState e = maskState (ai_newState login)"
    using login_stored by blast
  ultimately have "clean (av_newState e)" using audit_events_clean [of desk_crypto login_run e "av_newState e"] by simp
  then show ?thesis using e login_masked by simp
qed

section \<open>Where masking and bounding fall short\<close>

text \<open>A telephone number with spaces, or one sent as a number, is stored as it is.\<close>

theorem phone_left_unmasked:
  "maskState (JObj [(''phone'', JStr ''0712 345 678''), (''PhoneNumber'', JNum ''254712345678'')]) =
     JObj [(''phone'', JStr ''0712 345 678''), (''PhoneNumber'', JNum ''254712345678'')]"
  by code_simp

text \<open>The summary of a state that is too long is escaped once more when it is written, past the limit.\<close>

definition quotes :: "nat \<Rightarrow> string" where "quotes n = replicate n (CHR 0x22)"

definition quoted_state :: json where
  "quoted_state = JObj [(''a'', JStr (quotes 1000)), (''b'', JStr (quotes 1000)), (''c'', JStr (quotes 1000))]"

lemma quotes_unmasked: "maskString (quotes n) = quotes n"
proof -
  have "CHR 0x22 \<notin> set ''+0123456789''" by simp
  then have "\<not> barePhone (quotes n)"
    using not_barePhone [of "CHR 0x22" "quotes n"] by (cases "n = 0") (auto simp: quotes_def barePhone_def startsWith_def)
  moreover have "\<not> bareEmail (quotes n)" by (auto simp: bareEmail_def Let_def quotes_def)
  ultimately show ?thesis by (simp add: maskString_def)
qed

lemma quotes_bytes: "byteLength (quotes n) = n"
  by (induction n) (simp_all add: quotes_def byteLength_Cons)

lemma keys_abc: "\<not> sensitiveKey ''a''" "\<not> sensitiveKey ''b''" "\<not> sensitiveKey ''c''"
  "\<not> keyMatches [''phone'', ''msisdn'', ''mobile''] ''a''" "\<not> keyMatches [''phone'', ''msisdn'', ''mobile''] ''b''"
  "\<not> keyMatches [''phone'', ''msisdn'', ''mobile''] ''c''"
  "\<not> keyMatches [''email''] ''a''" "\<not> keyMatches [''email''] ''b''" "\<not> keyMatches [''email''] ''c''"
  by code_simp+

lemma quoted_state_kept: "boundValue (maskJson quoted_state) 0 = quoted_state"
  by (simp add: quoted_state_def maskMember_def keys_abc quotes_unmasked AUDIT_MAX_DEPTH_def AUDIT_MAX_OBJECT_KEYS_def
      AUDIT_MAX_STRING_BYTES_def truncateString_def quotes_bytes)
abbreviation escapedText :: "string \<Rightarrow> string" where "escapedText s \<equiv> concat (map escapeChar s)"

lemma escaped_quotes:
  "byteLength (escapedText (quotes n)) = 2 * n" "length (escapedText (quotes n)) = 2 * n"
  "byteLength (escapedText (escapedText (quotes n))) = 4 * n" "\<forall>c \<in> set (escapedText (quotes n)). of_char c < (128 :: nat)"
  by (induction n) (simp_all add: quotes_def escapeChar_def byteLength_Cons)

lemma escaped_grows: "length s \<le> byteLength (escapedText s)"
proof (induction s)
  case (Cons c s)
  have "1 \<le> byteLength (escapeChar c)" by (simp add: escapeChar_def byteLength_Cons)
  then show ?case using Cons by simp
qed simp

lemma ascii_bytes: "\<forall>c \<in> set s. of_char c < (128 :: nat) \<Longrightarrow> byteLength s = length s"
  by (induction s) (simp_all add: byteLength_Cons)

lemma shrinkTo_fits: "byteLength (take e v) \<le> n \<Longrightarrow> shrinkTo v n e = e"
  by (cases e) simp_all

lemma quoted_state_text:
  obtains pre rest where "stringify quoted_state = pre @ escapedText (quotes 1000) @ rest" "length pre = 6"
    "4096 < length (stringify quoted_state)" "\<forall>c \<in> set (stringify quoted_state). of_char c < (128 :: nat)"
proof -
  have k: "jsonString ''a'' = [CHR 0x22, CHR ''a'', CHR 0x22]" "jsonString ''b'' = [CHR 0x22, CHR ''b'', CHR 0x22]"
    "jsonString ''c'' = [CHR 0x22, CHR ''c'', CHR 0x22]" by code_simp+
  let ?q = "escapedText (quotes 1000)"
  let ?pre = "[CHR ''{'', CHR 0x22, CHR ''a'', CHR 0x22, CHR '':'', CHR 0x22]"
  let ?rest = "[CHR 0x22, CHR '','', CHR 0x22, CHR ''b'', CHR 0x22, CHR '':'', CHR 0x22] @ ?q @
    [CHR 0x22, CHR '','', CHR 0x22, CHR ''c'', CHR 0x22, CHR '':'', CHR 0x22] @ ?q @ [CHR 0x22, CHR ''}'']"
  have t: "stringify quoted_state = ?pre @ ?q @ ?rest"
    by (simp add: quoted_state_def jsonMember_def k) (simp add: jsonString_def)
  moreover have "\<forall>c \<in> set (?pre @ ?q @ ?rest). of_char c < (128 :: nat)" using escaped_quotes(4) [of 1000] by auto
  moreover have "4096 < length (?pre @ ?q @ ?rest)" using escaped_quotes(2) [of 1000] by simp
  ultimately show ?thesis using that [of ?pre ?rest] by simp
qed

theorem stored_state_exceeds_limit: "AUDIT_MAX_FIELD_BYTES < byteLength (stringify (maskState quoted_state))"
proof -
  obtain pre rest where t: "stringify quoted_state = pre @ escapedText (quotes 1000) @ rest" "length pre = 6"
    and big: "4096 < length (stringify quoted_state)" and asc: "\<forall>c \<in> set (stringify quoted_state). of_char c < (128 :: nat)"
    by (rule quoted_state_text)
  let ?T = "stringify quoted_state"
  have cut: "take 3968 ?T = pre @ escapedText (quotes 1000) @ take 1962 rest" using t(2) escaped_quotes(2) [of 1000] by (simp add: t(1))
  have lenr: "1962 \<le> length rest" using big t(2) escaped_quotes(2) [of 1000] by (simp add: t(1))
  have "byteLength (take 3968 ?T) = length (take 3968 ?T)" using asc by (intro ascii_bytes) (auto dest: in_set_takeD)
  then have "shrinkTo ?T 3968 (min (length ?T) 3968) = 3968" using shrinkTo_fits [of 3968 ?T 3968] big by (simp add: min_def)
  then have s: "truncateString ?T 3968 = take 3968 ?T @ ''...[truncated]''"
    using ascii_bytes [OF asc] big by (simp add: truncateString_def)
  have "4000 + 1962 \<le> byteLength (escapedText (take 3968 ?T))"
    using escaped_grows [of "take 1962 rest"] lenr escaped_quotes(3) [of 1000] unfolding cut by simp
  then have "5962 \<le> byteLength (jsonString (truncateString ?T 3968))" unfolding s by (simp add: jsonString_def byteLength_Cons)
  moreover have "maskState quoted_state = JObj [(''__truncated'', JBool True), (''summary'', JStr (truncateString ?T 3968))]"
    using big ascii_bytes [OF asc] unfolding maskState_def boundRecord_def quoted_state_kept Let_def
    by (simp add: truncateToBytes_def AUDIT_MAX_FIELD_BYTES_def quoted_state_def)
  ultimately show ?thesis by (simp only: summary_text) (simp add: byteLength_Cons AUDIT_MAX_FIELD_BYTES_def)
qed
end
