(* ===== verification/Spec2Isabelle.thy ===== *)
theory Spec2Isabelle
  imports Ledger_Properties Loan_State_Machine Guarantor_Holds Loan_Approval Waterfall
    Repayment_Properties Loan_Disbursement Closing_Properties Recovery_Properties Guarantor_Expiry Accrual_Properties
    Withdrawal_Request Deposit_Properties Ledger_Integrity
    Open_Loans Audit_Events
begin

text \<open>
  The books of the Beba SACCO backend: a savings and credit cooperative whose members keep FOSA
  (withdrawable) and BOSA (share) accounts, borrow against guarantors, and repay from their
  accounts or by mobile money. The program is a NestJS application in TypeScript over a Postgres
  database; the theories here verify the services that move money, savings holds and loan
  statuses. File names below are relative to src/src/.

  How the parts interact. Every posting to an account goes through the ledger service
  (modules/accounting/ledger.service.ts): it locks the account, computes the new balance, checks
  the floor of a debit and writes a transaction row, a journal entry and one posting between a
  debited and a credited general-ledger account. Approval, disbursement, repayment, guarantor
  recovery, default offset, the daily accrual and the handlers of mobile money call it. A loan moves through the table of
  core/state-machine.ts. Its guarantors pledge savings: accepting a pledge freezes the amount on
  the guarantor's account (a hold), and rejection, expiry, full repayment or forfeiture release
  it. The gate of loans/disbursement-gate.service.ts compares accepted pledges with the coverage
  that the product asks for; large loans need two different signers besides. Members pay in and
  out by M-Pesa: a withdrawal is debited first, an outbox hands the payout to a worker, the
  worker sends one order to the provider, and answers, callbacks, timeouts, a sweep and staff
  decide together whether it is completed or given back.

  Theories and what each models.
  \<^item> Prelude: results (a sum of the exception and the value), their bind and inversion rules
    (collection res_simps), generic lemmas on lists and lookups.
  \<^item> Decimals: the decimal arithmetic of Prisma. An amount is a rational number; the locale
    decimal_runtime states what the code relies on of decimal.js (sums of money columns are exact,
    products and quotients are off by at most one part in 10^19, rounding to 4 places is half up, and
    toNumber gives back an amount of four decimals below 10^11, which a double holds), and two interpretations, by an exact environment and by one that rounds at 20
    digits, show that the laws can hold.
  \<^item> Schema and Database: the tables and enumerations of prisma/schema.prisma that are used, as
    records and datatypes with the names of the source; a database is a record of lists of rows.
    The locale keyed_table gives the laws of lookup after update, interpreted for five tables.
    Columns have the range of DECIMAL(18,4), a write out of range is an error, and a unique key
    that an insert violates is one too.
  \<^item> Ledger, Ledger_Laws, Ledger_Properties: every operation of the ledger service. Account
    balance and postings move by the same amount on the mapped side, a debit respects the funds
    that are locked, frozen or kept as minimum, a repeated reference is answered without a
    second posting, a transfer preserves the sum of the two balances, a reversal restores the
    books and happens once.
  \<^item> Loan_State_Machine: the table, its assertion and the request guard. Paths of a loan are an
    inductive relation: a payout is preceded by an approval, and every path is finite up to the
    cycle between ACTIVE and IN_ARREARS that the code has.
  \<^item> Idempotency: the reservation of request keys (common/services/idempotency.service.ts) over the
    commands of Redis. Of the requests of a key, as an inductive relation, at most one goes on at a time, as
    long as each reaches Redis when it reserves; unreachable, Redis holds nothing back, and a request that
    it did not hold back can release the key of another: release_without_reservation.
  \<^item> Loan_Application, Loan_Requests, Application_Properties: modules/loans/loan-application.service.ts,
    the request for guarantors of the member portal and the review of modules/loans/loan-review.service.ts.
    An accepted application asks exactly the nominated guarantors, who are eligible and cover it; equal
    shares add up to the cover after their conversion to numbers, for a cover below 10^11; the
    batched check of guarantors is the single one, and a key applies once.
  \<^item> Open_Loans: applications, requests, statuses set by staff and reviews as an inductive relation,
    under which no member ever has two open loans.
  \<^item> Guarantor_Holds, Loan_Tables: modules/loans/guarantor-validation.service.ts. A validated
    nomination can be placed, placing is exact on every account, and releasing undoes it.
  \<^item> Loan_Approval: product rules, disbursement gate, approval and the four-eyes chain, whose
    histories are an inductive relation.
  \<^item> Loan_Schedule, Loan_Disbursement: the schedule of instalments, and a disbursement with fee,
    principal and schedule, once per loan.
  \<^item> Waterfall, Loan_Repayment, Repayment_Properties: a received payment is split between
    penalties, interest and principal, allocated to the instalments and posted leg by leg. The
    locale waterfall holds the contract of a split; both splits of the program satisfy it.
  \<^item> Loan_Closing, Closing_Properties: rejection, answer of a guarantor, repayment from an account
    and release of the holds of modules/loans/loans.service.ts.
  \<^item> Guarantor_Recovery, Default_Offset, Recovery_Properties: a default is charged to the
    guarantors. The locale guarantor_charge states what charging one guarantor does to the
    books and proves the sum over all; both flows of the program are instances of it.
  \<^item> Guarantor_Response, Guarantor_Expiry: the answer of a guarantor with its effect on the loan,
    and the hourly sweep that lapses unanswered requests and rejects their loans.
  \<^item> Daily_Accrual, Accrual_Properties: interest, penalties, arrears and staging of the nightly
    job of modules/financial/financial.service.ts.
  \<^item> Ledger_Integrity: the hourly comparison of balances, transactions and journal entries of the same
    service, which is silent about whatever the ledger posts and reverses, and reports the
    transfers that it does not count.
  \<^item> Mpesa_Messages: references, dates, metadata and phone numbers of mobile money
    (mpesa/utils, mpesa/dto, data-import/utils/phone-normalizer.ts). A number is accepted exactly
    in the E.164 form.
  \<^item> Mpesa_Payouts, Mpesa_Callbacks, Mpesa_Reconciliation: withdrawals and deposits
    (members/member-portal.service.ts, mpesa/*.service.ts, the processors of the queues,
    financial/reconciliation.service.ts). The provider is an argument: what it answers to an order
    or a query, or None.
  \<^item> Payout_Invariant, Payout_Safety, Payout_Paths, Payout_Properties: the steps of the withdrawal
    path as an inductive relation, with every other operation as a step that leaves its rows
    alone, and an invariant that each step keeps: the row of a withdrawal pays out one WITHDRAWAL
    transaction with its account and amount and has failed exactly when this transaction is reversed,
    and an order goes out once. Withdrawal_Request: the debit is exact and
    covered. Deposit_Properties: a confirmed deposit is credited exactly and once.
  \<^item> Json_Text: JSON values, JSON.stringify and the canonical text of modules/audit/audit.chain.service.ts,
    which is a prefix code and therefore tells any two values apart up to the order of keys.
  \<^item> Audit_Chain, Audit_Log, Audit_Events: the audit trail of modules/audit. Events are masked, bounded,
    queued and chained by hashes: a chain whose events were persisted in the order of their timestamps, and
    of their identifiers within a millisecond, verifies (late_job_breaks_chain shows any other order
    failing), and two verified chains with one end record the same events. SHA-256 and HMAC are parameters; that the texts hashed
    do not collide is a hypothesis over exactly these texts. The log of AuditService has a chain of its
    own, whose check never accepts it.
  \<^item> Hold_Frames, Account_Writes: what the operations leave untouched, shared by the proofs.

  Conventions. An operation takes the environment (the decimal arithmetic and the clock's values
  it reads) and the database and returns either an exception or the result with the new
  database. A transaction of the code that throws rolls back: the model returns the exception
  and the caller keeps the old state. Where the code commits item by item and catches errors
  (the sweep, the recovery, the accrual), the model returns the database with the count of items
  that succeeded. Times are milliseconds since the epoch, a number that is not finite is None,
  strings are lists of characters, and generated identifiers come from a counter of the database.

  Bounds. Money columns stay below 10^14 and sums of them below 10^16, where the 20 digits of the
  runtime are exact; a loan has at most 9 guarantors in the recovery and 99 in the sums, which
  the statements say where they need it. Every loop runs over a list of rows, over the
  periods of a loan or over the parts of a JSON value, by structural recursion or with the size as
  its measure, so no fuel is used and every operation is total.

  Steps. A step of the withdrawal path is one call of an operation, which is atomic in the model
  although the code runs it in several transactions; the callback of the provider may come with a
  row that was read at any earlier moment. The daily comparison is one step too: its code writes a
  status by the row's identifier alone, so a row that is settled between its reading and its
  writing would be opened again. The inbox of the callbacks (persistCallbackPayload and its enqueueing) is
  a step too. Identifiers are taken as not empty and without colons, the amount of a request as one of at most
  twenty significant digits, and the paths exclude a request whose idempotency key, once trimmed, ends in
  -REVERSAL: the code accepts it, and reversal_key_pays_without_debit shows that the properties of the paths
  fail with it. The rest of the program is any change that writes no payout row, no intent, job or order and
  no transaction whose reference starts with MPESA_WD-.

  Numbers. toNumber() is a parameter, read as the decimal that the double is read back as. It is applied
  where the code converts an amount that reaches the database: the shares of guarantors named without
  amounts (in the application and in the member portal), the increment of totalRepaid in LoansService.repay and
  the increment of accruedInterest in the daily accrual. It is taken as the identity, which below 10^11 it is,
  in Number(intent.amount) of a payout job, in the amounts that callbacks are compared with, and in
  messages, logs and responses.

  Not modelled. Notifications; the audit messages of the services, whose rows the services' own theories
  write without hashes; the column updatedAt; the locks of Redis, and for the services outside of
  applications and reviews its idempotency store, which are arguments where their content matters; Redis
  becoming unreachable between the two commands of one reservation; the HTTP clients of the payment
  providers; identity, documents, dashboards and reports, which do not decide how the books change. Of the audit
  trail: values that are not JSON (boundValue leaves out the branch String(value) for a BigInt, a symbol
  or a function), and the two refusals of the database in persistEvent, of a tenant that does not exist (the
  foreign key of tenantId) and of a NUL character in a text: such a job fails in the code and is stored in
  the model.
\<close>

end
